(* ===== verification/Prelude.thy ===== *)
theory Prelude
  imports Complex_Main "HOL-Library.AList"
begin

text \<open>
  Shared vocabulary of the development.

  \<^item> Results: a JavaScript computation that may throw is an \<open>'e + 'a\<close>, \<open>Inl\<close> for the thrown
    error. \<open>bindR\<close> sequences two of them as two statements of the source are sequenced, and
    \<open>mapR\<close> is the loop \<open>xs.map(f)\<close> whose body may throw.
  \<^item> JavaScript \<open>Map\<close>s (and plain objects used as maps) are association lists in insertion order:
    \<open>set\<close> is \<open>AList.update\<close> (an existing key keeps its place), \<open>delete\<close> is \<open>AList.delete\<close>.
    The locale \<open>keyed_map\<close> states the laws its users rely on.
  \<^item> \<open>new Set(xs)\<close>, spread back into an array, is \<open>uniq xs\<close>: first occurrences, in order.
  \<^item> JSON values; the identifier patterns the source validates with regular expressions.
\<close>

section \<open>Automation\<close>

named_theorems res_simps \<open>inversion and computation of results\<close>
named_theorems store_defs \<open>definitions of table updates\<close>

section \<open>Results\<close>

definition bindR :: "'e + 'a \<Rightarrow> ('a \<Rightarrow> 'e + 'b) \<Rightarrow> 'e + 'b" where
  "bindR m f = (case m of Inl e \<Rightarrow> Inl e | Inr a \<Rightarrow> f a)"

definition guardR :: "bool \<Rightarrow> 'e \<Rightarrow> 'e + unit" where
  "guardR ok e = (if ok then Inr () else Inl e)"

fun mapR :: "('a \<Rightarrow> 'e + 'b) \<Rightarrow> 'a list \<Rightarrow> 'e + 'b list" where
  "mapR f [] = Inr []"
| "mapR f (x # xs) = bindR (f x) (\<lambda>y. bindR (mapR f xs) (\<lambda>ys. Inr (y # ys)))"

fun foldR :: "('s \<Rightarrow> 'a \<Rightarrow> 'e + 's) \<Rightarrow> 's \<Rightarrow> 'a list \<Rightarrow> 'e + 's" where
  "foldR f s [] = Inr s"
| "foldR f s (x # xs) = bindR (f s x) (\<lambda>s'. foldR f s' xs)"

lemma bindR_Inl [simp]: "bindR (Inl e) f = Inl e"
  by (simp add: bindR_def)

lemma bindR_Inr [simp]: "bindR (Inr a) f = f a"
  by (simp add: bindR_def)

lemma bindR_eq_Inr [res_simps]: "bindR m f = Inr b \<longleftrightarrow> (\<exists>a. m = Inr a \<and> f a = Inr b)"
  by (cases m) auto

lemma bindR_eq_Inl [res_simps]:
  "bindR m f = Inl e \<longleftrightarrow> m = Inl e \<or> (\<exists>a. m = Inr a \<and> f a = Inl e)"
  by (cases m) auto

lemma guardR_eq_Inr [res_simps]: "guardR ok e = Inr u \<longleftrightarrow> ok"
  by (simp add: guardR_def)

lemma guardR_eq_Inl [res_simps]: "guardR ok e = Inl e' \<longleftrightarrow> \<not> ok \<and> e' = e"
  by (auto simp: guardR_def)

lemma guardR_simps [simp]: "guardR True e = Inr ()" "guardR False e = Inl e"
  by (simp_all add: guardR_def)

lemma bindR_guardR_Inr [res_simps]: "bindR (guardR ok e) f = Inr b \<longleftrightarrow> ok \<and> f () = Inr b"
  by (cases ok) simp_all

lemma mapR_Inr_id:
  assumes "\<And>x. x \<in> set xs \<Longrightarrow> f x = Inr x"
  shows "mapR f xs = Inr xs"
  using assms by (induction xs) simp_all

lemma mapR_id_inv:
  assumes "mapR f xs = Inr ys" and "\<And>x y. f x = Inr y \<Longrightarrow> y = x"
  shows "ys = xs \<and> (\<forall>x\<in>set xs. f x = Inr x)"
  using assms(1)
proof (induction xs arbitrary: ys)
  case Nil
  then show ?case by simp
next
  case (Cons x xs)
  from Cons.prems obtain y zs where "f x = Inr y" "mapR f xs = Inr zs" "ys = y # zs"
    by (auto simp: res_simps)
  with Cons.IH [of zs] assms(2) [of x y] show ?case by auto
qed

lemma foldR_append: "foldR f s (xs @ ys) = bindR (foldR f s xs) (\<lambda>s'. foldR f s' ys)"
proof (induction xs arbitrary: s)
  case Nil
  show ?case by simp
next
  case (Cons x xs)
  then show ?case by (cases "f s x") simp_all
qed

lemma foldR_invariant:
  assumes "foldR f s xs = Inr t" and "I s"
    and "\<And>s x s'. x \<in> set xs \<Longrightarrow> I s \<Longrightarrow> f s x = Inr s' \<Longrightarrow> I s'"
  shows "I t"
  using assms
proof (induction xs arbitrary: s)
  case Nil
  then show ?case by simp
next
  case (Cons x xs)
  then obtain s' where s': "f s x = Inr s'" "foldR f s' xs = Inr t"
    by (auto simp: res_simps)
  have "I s'" by (rule Cons.prems(3) [OF _ Cons.prems(2) s'(1)]) simp
  then show ?case
    by (rule Cons.IH [OF s'(2)]) (use Cons.prems(3) in auto)
qed

lemma find_append:
  "find P (xs @ ys) = (case find P xs of None \<Rightarrow> find P ys | Some x \<Rightarrow> Some x)"
  by (induction xs) simp_all

lemma find_filter: "find P (filter Q xs) = find (\<lambda>x. Q x \<and> P x) xs"
  by (induction xs) simp_all

lemma find_unique:
  assumes "x \<in> set xs" and "P x" and "\<And>y. y \<in> set xs \<Longrightarrow> P y \<Longrightarrow> y = x"
  shows "find P xs = Some x"
proof (cases "find P xs")
  case None
  with assms(1,2) show ?thesis by (auto simp: find_None_iff)
next
  case (Some y)
  then have "y \<in> set xs" "P y" by (auto simp: find_Some_iff)
  with Some assms(3) [of y] show ?thesis by simp
qed

text \<open>The rows of a table whose keys lie between the first and the last key of a prefix.\<close>

lemma filter_key_prefix:
  fixes f :: "'a \<Rightarrow> nat"
  assumes "sorted_wrt (<) (map f (g @ rest))" and "g \<noteq> []"
  shows "filter (\<lambda>x. \<not> (f (hd g) \<le> f x \<and> f x \<le> f (last g))) (g @ rest) = rest"
proof -
  from assms have rest: "\<And>x. x \<in> set rest \<Longrightarrow> f (last g) < f x"
    by (auto simp: sorted_wrt_append sorted_wrt_map)
  have "f (hd g) \<le> f x \<and> f x \<le> f (last g)" if "x \<in> set g" for x
  proof -
    from that obtain k where k: "k < length g" "g ! k = x" by (auto simp: in_set_conv_nth)
    have mono: "sorted_wrt (\<lambda>a b. f a < f b) g"
      using assms(1) by (simp add: sorted_wrt_append sorted_wrt_map)
    have le: "f (g ! i) \<le> f (g ! j)" if "i \<le> j" "j < length g" for i j
      using sorted_wrt_nth_less [OF mono, of i j] that by (cases "i = j") auto
    have "f (g ! 0) \<le> f (g ! k)" "f (g ! k) \<le> f (g ! (length g - 1))"
      using k(1) by (auto intro: le)
    with assms(2) k show ?thesis by (simp add: hd_conv_nth last_conv_nth)
  qed
  then have "filter (\<lambda>x. \<not> (f (hd g) \<le> f x \<and> f x \<le> f (last g))) g = []"
    by (auto simp: filter_empty_conv)
  moreover have "filter (\<lambda>x. \<not> (f (hd g) \<le> f x \<and> f x \<le> f (last g))) rest = rest"
    using rest by (auto simp: filter_id_conv not_le)
  ultimately show ?thesis by simp
qed

text \<open>A result that is no error.\<close>

definition is_Inr :: "'a + 'b \<Rightarrow> bool" where
  "is_Inr m = (case m of Inl _ \<Rightarrow> False | Inr _ \<Rightarrow> True)"

lemma is_InrE: "is_Inr m \<Longrightarrow> (\<And>x. m = Inr x \<Longrightarrow> thesis) \<Longrightarrow> thesis"
  by (cases m) (auto simp: is_Inr_def)

lemma is_Inr_pair: "is_Inr (snd m) \<Longrightarrow> \<exists>x. m = (fst m, Inr x)"
  by (cases m; cases "snd m") (auto simp: is_Inr_def)

text \<open>
  A sequence of separately committed steps: an error stops it, but what was committed before stays.
  \<open>onDb\<close> is one committed step of a method that also keeps fields of its own.
\<close>

definition bindS :: "'s \<times> ('e + 'a) \<Rightarrow> ('a \<Rightarrow> 's \<Rightarrow> 's \<times> ('e + 'b)) \<Rightarrow> 's \<times> ('e + 'b)" where
  "bindS m f = (case m of (s, Inl e) \<Rightarrow> (s, Inl e) | (s, Inr a) \<Rightarrow> f a s)"

definition onDb :: "('d \<Rightarrow> 'e + ('d \<times> 'a)) \<Rightarrow> 'd \<times> 'r \<Rightarrow> ('d \<times> 'r) \<times> ('e + 'a)" where
  "onDb f dr = (case f (fst dr) of Inl e \<Rightarrow> (dr, Inl e) | Inr (d, a) \<Rightarrow> ((d, snd dr), Inr a))"

lemma bindS_simps [simp]: "bindS (s, Inl e) f = (s, Inl e)" "bindS (s, Inr a) f = f a s"
  by (simp_all add: bindS_def)

text \<open>An invariant of each step is an invariant of the sequence.\<close>

lemma bindS_invariant:
  assumes "I (fst m)" and "\<And>a. snd m = Inr a \<Longrightarrow> I (fst (f a (fst m)))"
  shows "I (fst (bindS m f))"
  using assms by (cases m; cases "snd m") (auto simp: bindS_def)

section \<open>Insertion-ordered maps and sets\<close>

abbreviation keys_of :: "('k \<times> 'v) list \<Rightarrow> 'k list" where
  "keys_of m \<equiv> map fst m"

definition map_of_entries :: "('k \<times> 'v) list \<Rightarrow> ('k \<times> 'v) list" where
  "map_of_entries ps = fold (\<lambda>(k, v) m. AList.update k v m) ps []"

definition uniq :: "'a list \<Rightarrow> 'a list" where
  "uniq xs = rev (remdups (rev xs))"

lemma set_uniq [simp]: "set (uniq xs) = set xs"
  by (simp add: uniq_def)

lemma distinct_uniq [simp]: "distinct (uniq xs)"
  by (simp add: uniq_def)

lemma uniq_distinct: "distinct xs \<Longrightarrow> uniq xs = xs"
  by (simp add: uniq_def distinct_remdups_id)

locale keyed_map =
  fixes look :: "'m \<Rightarrow> 'k \<Rightarrow> 'v option"
    and put :: "'k \<Rightarrow> 'v \<Rightarrow> 'm \<Rightarrow> 'm"
    and del :: "'k \<Rightarrow> 'm \<Rightarrow> 'm"
    and keys :: "'m \<Rightarrow> 'k list"
  assumes look_put: "look (put k v m) = (look m)(k \<mapsto> v)"
    and look_del: "look (del k m) = (look m)(k := None)"
    and keys_put: "distinct (keys m) \<Longrightarrow> distinct (keys (put k v m))"
    and keys_del: "distinct (keys m) \<Longrightarrow> distinct (keys (del k m))"
    and keys_look: "set (keys m) = dom (look m)"
begin

lemma look_put_same [simp]: "look (put k v m) k = Some v"
  by (simp add: look_put)

lemma look_put_other: "k' \<noteq> k \<Longrightarrow> look (put k v m) k' = look m k'"
  by (simp add: look_put)

lemma look_del_same [simp]: "look (del k m) k = None"
  by (simp add: look_del)

lemma look_puts_notin:
  assumes "\<And>p. p \<in> set ps \<Longrightarrow> kf p \<noteq> k"
  shows "look (fold (\<lambda>p. put (kf p) (vf p)) ps m) k = look m k"
  using assms
proof (induction ps arbitrary: m)
  case Nil
  show ?case by simp
next
  case (Cons p ps)
  have "kf p \<noteq> k" by (rule Cons.prems) simp
  moreover have "look (fold (\<lambda>p. put (kf p) (vf p)) ps (put (kf p) (vf p) m)) k
      = look (put (kf p) (vf p) m) k"
    by (rule Cons.IH) (use Cons.prems in auto)
  ultimately show ?case by (simp add: look_put)
qed

lemma look_puts:
  assumes "distinct (map kf ps)" and "p \<in> set ps"
  shows "look (fold (\<lambda>p. put (kf p) (vf p)) ps m) (kf p) = Some (vf p)"
  using assms
proof (induction ps arbitrary: m)
  case Nil
  then show ?case by simp
next
  case (Cons q qs)
  show ?case
  proof (cases "p = q")
    case True
    have "\<And>r. r \<in> set qs \<Longrightarrow> kf r \<noteq> kf q" using Cons.prems(1) by (metis distinct.simps(2) image_eqI image_set list.simps(9))
    with True show ?thesis by (simp add: look_puts_notin)
  next
    case False
    with Cons.prems Cons.IH show ?thesis by simp
  qed
qed

lemma keys_puts:
  "distinct (keys m) \<Longrightarrow> distinct (keys (fold (\<lambda>p. put (kf p) (vf p)) ps m))"
  by (induction ps arbitrary: m) (simp_all add: keys_put)

end

interpretation js: keyed_map map_of AList.update AList.delete "map fst"
proof unfold_locales
  show "map_of (AList.update k v m) = (map_of m)(k \<mapsto> v)" for k :: 'a and v :: 'b and m
    by (rule update_conv')
  show "map_of (AList.delete k m) = (map_of m)(k := None)" for k :: 'a and m :: "('a \<times> 'b) list"
    by (rule delete_conv')
  show "distinct (map fst m) \<Longrightarrow> distinct (map fst (AList.update k v m))"
    for k :: 'a and v :: 'b and m
    by (rule distinct_update)
  show "distinct (map fst m) \<Longrightarrow> distinct (map fst (AList.delete k m))"
    for k :: 'a and m :: "('a \<times> 'b) list"
    by (rule distinct_delete)
  show "set (map fst m) = dom (map_of m)" for m :: "('a \<times> 'b) list"
    by (simp add: dom_map_of_conv_image_fst)
qed

lemma set_AList_delete: "set (AList.delete k m) = {p \<in> set m. fst p \<noteq> k}"
  by (auto simp: AList.delete_eq)

lemma ball_AList_update:
  assumes "P (k, v)" and "\<forall>p\<in>set m. P p"
  shows "\<forall>p\<in>set (AList.update k v m). P p"
  using assms by (induction m) auto

lemma map_of_entries_look:
  assumes "distinct (map fst ps)"
  shows "map_of (map_of_entries ps) = map_of ps"
proof
  fix k
  have eq: "map_of_entries ps = fold (\<lambda>p. AList.update (fst p) (snd p)) ps []"
    by (simp add: map_of_entries_def case_prod_beta')
  show "map_of (map_of_entries ps) k = map_of ps k"
  proof (cases "map_of ps k")
    case None
    then have "\<And>p. p \<in> set ps \<Longrightarrow> fst p \<noteq> k" by (auto simp: map_of_eq_None_iff)
    with None show ?thesis by (simp add: eq js.look_puts_notin)
  next
    case (Some v)
    then have "(k, v) \<in> set ps" by (rule map_of_SomeD)
    with js.look_puts [of fst ps "(k, v)" snd "[]"] assms Some show ?thesis by (simp add: eq)
  qed
qed

lemma distinct_map_of_entries: "distinct (map fst (map_of_entries ps))"
  using js.keys_puts [of "[]" fst snd ps] by (simp add: map_of_entries_def case_prod_beta')

section \<open>JSON\<close>

text \<open>
  Parsed JSON. The members of an object are kept sorted by key, so that equality of values is the
  deep equality of the source (\<open>isDeepStrictEqual\<close> does not look at member order).
\<close>

datatype json =
    JNull
  | JBool bool
  | JNum rat
  | JStr string
  | JArr "json list"
  | JObj "(string \<times> json) list"

text \<open>\<open>value?.name\<close>, on values without such a member of their own; \<open>None\<close> is \<open>undefined\<close>.\<close>

fun jmember :: "json \<Rightarrow> string \<Rightarrow> json option" where
  "jmember (JObj ms) name = map_of ms name"
| "jmember _ name = None"

text \<open>\<open>Boolean(value)\<close>\<close>

fun jtruthy :: "json option \<Rightarrow> bool" where
  "jtruthy None = False"
| "jtruthy (Some JNull) = False"
| "jtruthy (Some (JBool b)) = b"
| "jtruthy (Some (JNum q)) = (q \<noteq> 0)"
| "jtruthy (Some (JStr s)) = (s \<noteq> [])"
| "jtruthy (Some (JArr xs)) = True"
| "jtruthy (Some (JObj ms)) = True"

section \<open>Identifier patterns\<close>

definition char_in :: "char \<Rightarrow> char \<Rightarrow> char \<Rightarrow> bool" where
  "char_in lo hi c \<longleftrightarrow> (of_char lo :: nat) \<le> of_char c \<and> (of_char c :: nat) \<le> of_char hi"

definition is_upper :: "char \<Rightarrow> bool" where "is_upper = char_in CHR ''A'' CHR ''Z''"
definition is_lower :: "char \<Rightarrow> bool" where "is_lower = char_in CHR ''a'' CHR ''z''"
definition is_digit :: "char \<Rightarrow> bool" where "is_digit = char_in CHR ''0'' CHR ''9''"

definition is_alnum :: "char \<Rightarrow> bool" where
  "is_alnum c \<longleftrightarrow> is_upper c \<or> is_lower c \<or> is_digit c"

text \<open>\<open>[A-Za-z0-9_-]\<close>, the alphabet of board, room, session and client identifiers.\<close>

definition is_id_char :: "char \<Rightarrow> bool" where
  "is_id_char c \<longleftrightarrow> is_alnum c \<or> c = CHR ''_'' \<or> c = CHR ''-''"

definition is_hex :: "char \<Rightarrow> bool" where
  "is_hex c \<longleftrightarrow> is_digit c \<or> char_in CHR ''a'' CHR ''f'' c"

text \<open>\<open>/^[class]{lo,hi}$/\<close>\<close>

definition matches_class :: "(char \<Rightarrow> bool) \<Rightarrow> nat \<Rightarrow> nat \<Rightarrow> string \<Rightarrow> bool" where
  "matches_class p lo hi s \<longleftrightarrow> lo \<le> length s \<and> length s \<le> hi \<and> list_all p s"

text \<open>\<open>/[\u0000-\u001f\u007f]/\<close>\<close>

definition has_control :: "string \<Rightarrow> bool" where
  "has_control s \<longleftrightarrow> list_ex (\<lambda>c. (of_char c :: nat) < 32 \<or> (of_char c :: nat) = 127) s"

lemmas char_class_defs = char_in_def is_upper_def is_lower_def is_digit_def is_alnum_def
  is_id_char_def is_hex_def matches_class_def has_control_def

text \<open>\<open>String.prototype.trim\<close>, on the white space below U+0100.\<close>

definition is_space :: "char \<Rightarrow> bool" where
  "is_space c \<longleftrightarrow> (let n = (of_char c :: nat) in (9 \<le> n \<and> n \<le> 13) \<or> n = 32 \<or> n = 160)"

definition js_trim :: "string \<Rightarrow> string" where
  "js_trim s = rev (dropWhile is_space (rev (dropWhile is_space s)))"

text \<open>\<open>String.prototype.toLowerCase\<close> on ASCII letters.\<close>

definition to_lower :: "char \<Rightarrow> char" where
  "to_lower c = (if is_upper c then char_of ((of_char c :: nat) + 32) else c)"

definition fold_case :: "string \<Rightarrow> string" where
  "fold_case = map to_lower"

text \<open>\<open>s.split(d)\<close> for a one-character separator, and \<open>s.replace(/d$/, '')\<close>.\<close>

fun split_on :: "char \<Rightarrow> string \<Rightarrow> string list" where
  "split_on d [] = [[]]"
| "split_on d (c # cs) = (if c = d then [] # split_on d cs
     else (case split_on d cs of [] \<Rightarrow> [[c]] | p # ps \<Rightarrow> (c # p) # ps))"

definition drop_suffix_char :: "char \<Rightarrow> string \<Rightarrow> string" where
  "drop_suffix_char d s = (if s \<noteq> [] \<and> last s = d then butlast s else s)"

lemma split_on_not_Nil [simp]: "split_on d s \<noteq> []"
  by (induction s) (auto split: list.splits)

lemma split_on_absent: "d \<notin> set a \<Longrightarrow> split_on d a = [a]"
  by (induction a) auto

lemma split_on_append: "d \<notin> set a \<Longrightarrow> split_on d (a @ d # b) = a # split_on d b"
  by (induction a) auto

lemma split_on_parts: "p \<in> set (split_on d s) \<Longrightarrow> d \<notin> set p"
  by (induction s arbitrary: p) (auto split: list.splits if_splits)

end
