(* ===== verification/HistoryCore.thy ===== *)
theory HistoryCore
  imports Prelude
begin

text \<open>
  Record-level history (\<open>server/history.ts\<close>, \<open>shared/history.ts\<close>): tldraw records, replayable
  record changes, snapshots, and the pure functions on them: validation, the difference of two
  snapshots, the changes of a sync diff, merging the changes of coalesced fragments, and replaying
  events over a snapshot. The abstract board of this theory and the next ones is a map from record
  ids to records (\<open>docs\<close>); \<open>apply_all\<close> is the specification of a replay.
\<close>

section \<open>Records, changes, snapshots\<close>

text \<open>
  A tldraw record: the fields the code reads by name (\<open>id\<close>, \<open>typeName\<close>, \<open>x\<close>, \<open>y\<close>) and the other
  members, sorted by key.
\<close>

record tlrec =
  recId :: string
  recType :: string
  recX :: "json option"
  recY :: "json option"
  recRest :: "(string \<times> json) list"

record change =
  chId :: string
  chBefore :: "tlrec option"
  chAfter :: "tlrec option"

datatype history_source = Human | AI | System

datatype sync_put = Replace tlrec tlrec | PutRec tlrec

record forward_diff =
  diffPuts :: "(string \<times> sync_put) list"
  diffDeletes :: "string list"

text \<open>A \<open>RoomSnapshot\<close>; \<open>snapSchema\<close> is what the code carries along without reading it.\<close>

record snapshot =
  snapDocs :: "(tlrec \<times> int) list"
  snapTombs :: "(string \<times> int) list option"
  snapClock :: "int option"
  snapDocClock :: "int option"
  snapSchema :: json

record hevent =
  evId :: nat
  evBoard :: string
  evActor :: "string option"
  evSession :: "string option"
  evType :: string
  evEntityType :: "string option"
  evEntityId :: "string option"
  evSource :: history_source
  evAt :: int
  evMeta :: "(string \<times> json) list"
  evChanges :: "change list"
  evClock :: "int option"

datatype hist_error =
    HBadIdentifier string
  | HTwoNullSides
  | HBeforeMismatch string
  | HAfterMismatch string
  | HInvalidDocument
  | HMissingDelete string
  | HDivergence nat string
  | HEventNotFound
  | HCheckpointNotFound
  | HNoCheckpoint
  | HAppendOnly
  | HBoardChanged
  | HDuplicateKey

section \<open>Validation\<close>

definition assertIdentifier :: "string \<Rightarrow> string \<Rightarrow> hist_error + unit" where
  "assertIdentifier v lbl = guardR (v \<noteq> [] \<and> length v \<le> 200) (HBadIdentifier lbl)"

definition side_ok :: "string \<Rightarrow> tlrec option \<Rightarrow> bool" where
  "side_ok i r \<longleftrightarrow> (case r of None \<Rightarrow> True | Some x \<Rightarrow> recId x = i)"

definition validateChange :: "change \<Rightarrow> hist_error + change" where
  "validateChange c =
     bindR (assertIdentifier (chId c) ''recordId'') (\<lambda>_.
     bindR (guardR (\<not> (chBefore c = None \<and> chAfter c = None)) HTwoNullSides) (\<lambda>_.
     bindR (guardR (side_ok (chId c) (chBefore c)) (HBeforeMismatch (chId c))) (\<lambda>_.
     bindR (guardR (side_ok (chId c) (chAfter c)) (HAfterMismatch (chId c))) (\<lambda>_.
     Inr c))))"

definition validateChanges :: "change list \<Rightarrow> hist_error + change list" where
  "validateChanges cs = mapR validateChange cs"

definition validateSnapshot :: "snapshot \<Rightarrow> hist_error + snapshot" where
  "validateSnapshot s =
     bindR (guardR (list_all (\<lambda>(r, _). recId r \<noteq> []) (snapDocs s)) HInvalidDocument) (\<lambda>_. Inr s)"

definition valid_change :: "change \<Rightarrow> bool" where
  "valid_change c \<longleftrightarrow> chId c \<noteq> [] \<and> length (chId c) \<le> 200 \<and>
     \<not> (chBefore c = None \<and> chAfter c = None) \<and>
     side_ok (chId c) (chBefore c) \<and> side_ok (chId c) (chAfter c)"

lemma validateChange_Inr [res_simps]: "validateChange c = Inr c' \<longleftrightarrow> valid_change c \<and> c' = c"
  by (auto simp: validateChange_def assertIdentifier_def valid_change_def res_simps)

lemma validateChanges_Inr [res_simps]:
  "validateChanges cs = Inr cs' \<longleftrightarrow> (\<forall>c\<in>set cs. valid_change c) \<and> cs' = cs"
proof
  assume "validateChanges cs = Inr cs'"
  then show "(\<forall>c\<in>set cs. valid_change c) \<and> cs' = cs"
    using mapR_id_inv [of validateChange cs cs']
    by (auto simp: validateChanges_def validateChange_Inr)
next
  assume "(\<forall>c\<in>set cs. valid_change c) \<and> cs' = cs"
  then show "validateChanges cs = Inr cs'"
    by (auto simp: validateChanges_def validateChange_Inr intro!: mapR_Inr_id)
qed

lemma validateSnapshot_Inr [res_simps]:
  "validateSnapshot s = Inr s' \<longleftrightarrow> (\<forall>(r, k)\<in>set (snapDocs s). recId r \<noteq> []) \<and> s' = s"
  by (auto simp: validateSnapshot_def list_all_iff res_simps)

section \<open>Merging, differences\<close>

definition mergeStep :: "(string \<times> change) list \<Rightarrow> change \<Rightarrow> (string \<times> change) list" where
  "mergeStep m c =
     (let next = (case map_of m (chId c) of
                    Some p \<Rightarrow> \<lparr>chId = chId c, chBefore = chBefore p, chAfter = chAfter c\<rparr>
                  | None \<Rightarrow> c)
      in if chBefore next = None \<and> chAfter next = None then AList.delete (chId c) m
         else if chBefore next \<noteq> None \<and> chBefore next = chAfter next
         then AList.delete (chId c) m
         else AList.update (chId c) next m)"

definition mergeChanges :: "change list list \<Rightarrow> change list" where
  "mergeChanges groups = map snd (foldl mergeStep [] (concat groups))"

definition records_by_id :: "snapshot \<Rightarrow> (string \<times> tlrec) list" where
  "records_by_id s = map_of_entries (map (\<lambda>(r, _). (recId r, r)) (snapDocs s))"

definition put_change :: "(string \<times> tlrec) list \<Rightarrow> string \<times> sync_put \<Rightarrow> change" where
  "put_change byId p = (case p of (i, put) \<Rightarrow>
     (case put of
        Replace b a \<Rightarrow> \<lparr>chId = i, chBefore = Some b, chAfter = Some a\<rparr>
      | PutRec a \<Rightarrow> \<lparr>chId = i, chBefore = map_of byId i, chAfter = Some a\<rparr>))"

definition delete_change :: "(string \<times> tlrec) list \<Rightarrow> string \<Rightarrow> hist_error + change" where
  "delete_change byId i = (case map_of byId i of
      None \<Rightarrow> Inl (HMissingDelete i)
    | Some b \<Rightarrow> Inr \<lparr>chId = i, chBefore = Some b, chAfter = None\<rparr>)"

definition changesFromForwardDiff :: "forward_diff \<Rightarrow> snapshot \<Rightarrow> hist_error + change list" where
  "changesFromForwardDiff d before =
     (let byId = records_by_id before in
      bindR (mapR (delete_change byId) (diffDeletes d)) (\<lambda>dels.
      validateChanges (map (put_change byId) (diffPuts d) @ dels)))"

definition diff_at :: "(string \<times> tlrec) list \<Rightarrow> (string \<times> tlrec) list \<Rightarrow> string \<Rightarrow> change list" where
  "diff_at b a i = (if map_of b i = map_of a i then []
     else [\<lparr>chId = i, chBefore = map_of b i, chAfter = map_of a i\<rparr>])"

definition changesBetweenSnapshots :: "snapshot \<Rightarrow> snapshot \<Rightarrow> hist_error + change list" where
  "changesBetweenSnapshots before after =
     (let b = records_by_id before; a = records_by_id after in
      validateChanges (concat (map (diff_at b a) (uniq (keys_of b @ keys_of a)))))"

section \<open>Replay\<close>

type_synonym replay_state = "(string \<times> (tlrec \<times> int)) list \<times> (string \<times> int) list"

definition applyChange :: "nat \<Rightarrow> int \<Rightarrow> replay_state \<Rightarrow> change \<Rightarrow> hist_error + replay_state" where
  "applyChange ev clock st c = (case st of (docs, tombs) \<Rightarrow>
     (if map_option fst (map_of docs (chId c)) \<noteq> chBefore c then Inl (HDivergence ev (chId c))
      else case chAfter c of
          None \<Rightarrow> Inr (AList.delete (chId c) docs, AList.update (chId c) clock tombs)
        | Some r \<Rightarrow> Inr (AList.update (chId c) (r, clock) docs, AList.delete (chId c) tombs)))"

definition applyEvent :: "replay_state \<times> int \<Rightarrow> hevent \<Rightarrow> hist_error + (replay_state \<times> int)" where
  "applyEvent s e = (case s of (st, documentClock) \<Rightarrow>
     (let changeClock = (case evClock e of None \<Rightarrow> documentClock + 1 | Some k \<Rightarrow> k)
      in bindR (foldR (applyChange (evId e) changeClock) st (evChanges e))
           (\<lambda>st'. Inr (st', max documentClock changeClock))))"

definition applyHistoryEvents :: "snapshot \<Rightarrow> hevent list \<Rightarrow> hist_error + snapshot" where
  "applyHistoryEvents base events =
     bindR (validateSnapshot base) (\<lambda>snap.
     (let docs = map_of_entries (map (\<lambda>(r, k). (recId r, (r, k))) (snapDocs snap));
          tombs = (case snapTombs snap of None \<Rightarrow> [] | Some t \<Rightarrow> t);
          clock = (case snapDocClock snap of None \<Rightarrow> 0 | Some k \<Rightarrow> k)
      in bindR (foldR applyEvent ((docs, tombs), clock) events) (\<lambda>((docs', tombs'), clock').
         Inr (snap\<lparr>snapClock := Some (max (case snapClock snap of None \<Rightarrow> 0 | Some k \<Rightarrow> k) clock'),
                   snapDocClock := Some clock',
                   snapDocs := map snd docs',
                   snapTombs := Some tombs'\<rparr>))))"

end
