(* ===== verification/HistoryReplay.thy ===== *)
theory HistoryReplay
  imports HistoryCore
begin

text \<open>
  The specification of a replay and the proofs that the functions of \<open>HistoryCore\<close> meet it: a board
  is a map \<open>docs\<close> from record ids to records, a change is applied only where the board holds its
  \<open>before\<close> side, and \<open>apply_all\<close> runs a list of changes or fails. Replaying events over a snapshot
  refines \<open>apply_all\<close>, the difference of two snapshots leads from one to the other, and merging
  coalesced changes preserves their effect.
\<close>

section \<open>The abstract board\<close>

type_synonym docs = "string \<Rightarrow> tlrec option"

definition apply1 :: "docs \<Rightarrow> change \<Rightarrow> docs option" where
  "apply1 d c = (if d (chId c) = chBefore c then Some (d(chId c := chAfter c)) else None)"

fun apply_all :: "docs \<Rightarrow> change list \<Rightarrow> docs option" where
  "apply_all d [] = Some d"
| "apply_all d (c # cs) = (case apply1 d c of None \<Rightarrow> None | Some d' \<Rightarrow> apply_all d' cs)"

definition snap_docs :: "snapshot \<Rightarrow> docs" where
  "snap_docs s = map_of (records_by_id s)"

text \<open>Snapshots the storage hands out: one entry per record id, and no empty id.\<close>

definition wf_snap :: "snapshot \<Rightarrow> bool" where
  "wf_snap s \<longleftrightarrow> distinct (map (\<lambda>(r, _). recId r) (snapDocs s)) \<and>
     list_all (\<lambda>(r, _). recId r \<noteq> []) (snapDocs s)"

lemma apply_all_append:
  "apply_all d (xs @ ys) = (case apply_all d xs of None \<Rightarrow> None | Some d' \<Rightarrow> apply_all d' ys)"
  by (induction xs arbitrary: d) (auto split: option.splits)

lemma apply_all_Cons_Some:
  "apply_all d (c # cs) = Some d' \<longleftrightarrow>
     d (chId c) = chBefore c \<and> apply_all (d(chId c := chAfter c)) cs = Some d'"
  by (auto simp: apply1_def)

text \<open>Changes of pairwise different records: each of them finds the board as it was.\<close>

lemma apply_all_distinct:
  assumes "distinct (map chId cs)"
  shows "apply_all d cs = (if \<forall>c\<in>set cs. d (chId c) = chBefore c
     then Some (\<lambda>i. case find (\<lambda>c. chId c = i) cs of None \<Rightarrow> d i | Some c \<Rightarrow> chAfter c) else None)"
  using assms
proof (induction cs arbitrary: d)
  case Nil
  show ?case by simp
next
  case (Cons c cs)
  let ?d = "d(chId c := chAfter c)"
  have other: "\<And>x. x \<in> set cs \<Longrightarrow> chId x \<noteq> chId c" using Cons.prems by (metis distinct.simps(2) image_eqI image_set list.simps(9))
  then have same: "(\<forall>x\<in>set cs. ?d (chId x) = chBefore x) \<longleftrightarrow> (\<forall>x\<in>set cs. d (chId x) = chBefore x)"
    by auto
  have none: "find (\<lambda>x. chId x = chId c) cs = None"
    using other by (auto simp: find_None_iff)
  have IH: "apply_all ?d cs = (if \<forall>x\<in>set cs. ?d (chId x) = chBefore x
     then Some (\<lambda>i. case find (\<lambda>x. chId x = i) cs of None \<Rightarrow> ?d i | Some x \<Rightarrow> chAfter x) else None)"
    using Cons.prems by (intro Cons.IH) simp
  have "apply_all ?d cs = (if \<forall>x\<in>set cs. d (chId x) = chBefore x
     then Some (\<lambda>i. case find (\<lambda>x. chId x = i) (c # cs) of None \<Rightarrow> d i | Some x \<Rightarrow> chAfter x)
     else None)"
    unfolding IH same using none by (auto simp: fun_eq_iff fun_upd_def split: option.split)
  then show ?case by (simp add: apply1_def)
qed

section \<open>Replay refines the specification\<close>

definition replay_abs :: "replay_state \<Rightarrow> docs" where
  "replay_abs st i = map_option fst (map_of (fst st) i)"

definition replay_wf :: "replay_state \<Rightarrow> bool" where
  "replay_wf st \<longleftrightarrow> distinct (map fst (fst st)) \<and>
     (\<forall>(i, r, k)\<in>set (fst st). recId r = i \<and> i \<noteq> [])"

lemma applyChange_refines:
  "(case applyChange ev k st c of Inl _ \<Rightarrow> None | Inr st' \<Rightarrow> Some (replay_abs st')) =
     apply1 (replay_abs st) c"
  by (cases st) (auto simp: applyChange_def apply1_def replay_abs_def fun_eq_iff
      js.look_put js.look_del split: option.splits)

lemma replay_wf_put:
  assumes "replay_wf (docs, t)" and "recId r = i" and "i \<noteq> []"
  shows "replay_wf (AList.update i (r, k) docs, t')"
  using assms ball_AList_update [of "\<lambda>(i, r, k). recId r = i \<and> i \<noteq> []" i "(r, k)" docs]
  by (auto simp: replay_wf_def distinct_update)

lemma applyChange_wf:
  assumes "applyChange ev k st c = Inr st'" and "replay_wf st" and "valid_change c"
  shows "replay_wf st'"
proof (cases "chAfter c")
  case None
  with assms show ?thesis
    by (cases st) (auto simp: applyChange_def replay_wf_def distinct_delete
        set_AList_delete split: if_splits)
next
  case (Some r)
  then have "recId r = chId c" "chId c \<noteq> []"
    using assms(3) by (auto simp: valid_change_def side_ok_def)
  with assms Some show ?thesis
    by (cases st) (auto simp: applyChange_def intro: replay_wf_put split: if_splits)
qed

lemma applyChanges_refines:
  assumes "replay_wf st" and "\<forall>c\<in>set cs. valid_change c"
  shows "case foldR (applyChange ev k) st cs of
      Inl _ \<Rightarrow> apply_all (replay_abs st) cs = None
    | Inr st' \<Rightarrow> replay_wf st' \<and> apply_all (replay_abs st) cs = Some (replay_abs st')"
  using assms
proof (induction cs arbitrary: st)
  case Nil
  then show ?case by simp
next
  case (Cons c cs)
  show ?case
  proof (cases "applyChange ev k st c")
    case (Inl e)
    with applyChange_refines [of ev k st c] show ?thesis by simp
  next
    case (Inr st')
    with Cons.prems have "replay_wf st'" by (auto intro: applyChange_wf)
    with Cons.IH [of st'] Cons.prems Inr applyChange_refines [of ev k st c, symmetric]
    show ?thesis by (auto split: sum.splits)
  qed
qed

lemma applyEvents_refines:
  assumes "replay_wf st" and "\<forall>e\<in>set es. \<forall>c\<in>set (evChanges e). valid_change c"
  shows "case foldR applyEvent (st, k) es of
      Inl _ \<Rightarrow> apply_all (replay_abs st) (concat (map evChanges es)) = None
    | Inr (st', _) \<Rightarrow> replay_wf st' \<and>
        apply_all (replay_abs st) (concat (map evChanges es)) = Some (replay_abs st')"
  using assms
proof (induction es arbitrary: st k)
  case Nil
  then show ?case by simp
next
  case (Cons e es)
  let ?k = "case evClock e of None \<Rightarrow> k + 1 | Some j \<Rightarrow> j"
  show ?case
  proof (cases "foldR (applyChange (evId e) ?k) st (evChanges e)")
    case (Inl x)
    with applyChanges_refines [of st "evChanges e" "evId e" ?k] Cons.prems show ?thesis
      by (simp add: applyEvent_def Let_def apply_all_append)
  next
    case (Inr st')
    with applyChanges_refines [of st "evChanges e" "evId e" ?k] Cons.prems
    have "replay_wf st'" "apply_all (replay_abs st) (evChanges e) = Some (replay_abs st')"
      by auto
    with Cons.IH [of st' "max k ?k"] Cons.prems Inr show ?thesis
      by (auto simp: applyEvent_def Let_def apply_all_append split: sum.splits)
  qed
qed

section \<open>Snapshots as boards\<close>

lemma wf_snap_distinct: "wf_snap s \<Longrightarrow> distinct (map fst (map (\<lambda>(r, _). (recId r, r)) (snapDocs s)))"
  by (simp add: wf_snap_def case_prod_beta' comp_def)

lemma snap_docs_look: "wf_snap s \<Longrightarrow> snap_docs s = map_of (map (\<lambda>(r, _). (recId r, r)) (snapDocs s))"
  unfolding snap_docs_def records_by_id_def by (rule map_of_entries_look) (rule wf_snap_distinct)

lemma snap_docs_recId: "wf_snap s \<Longrightarrow> snap_docs s i = Some r \<Longrightarrow> recId r = i \<and> i \<noteq> []"
  by (fastforce simp: snap_docs_look wf_snap_def list_all_iff dest!: map_of_SomeD)

text \<open>The replay state the loop starts from, and the snapshot it ends with.\<close>

definition replay_init :: "snapshot \<Rightarrow> replay_state" where
  "replay_init s = (map_of_entries (map (\<lambda>(r, k). (recId r, (r, k))) (snapDocs s)),
     case snapTombs s of None \<Rightarrow> [] | Some t \<Rightarrow> t)"

lemma replay_init_abs:
  assumes "wf_snap s"
  shows "replay_abs (replay_init s) = snap_docs s" and "replay_wf (replay_init s)"
proof -
  let ?es = "map (\<lambda>(r, k). (recId r, (r, k))) (snapDocs s)"
  have d: "distinct (map fst ?es)" using assms by (simp add: wf_snap_def case_prod_beta' comp_def)
  have look: "map_of (map_of_entries ?es) = map_of ?es" by (rule map_of_entries_look [OF d])
  have "map_option fst (map_of (map (\<lambda>(r, k). (recId r, (r, k))) ds) i) =
      map_of (map (\<lambda>(r, _). (recId r, r)) ds) i" for i and ds :: "(tlrec \<times> int) list"
    by (induction ds) auto
  then show "replay_abs (replay_init s) = snap_docs s"
    by (simp add: fun_eq_iff replay_abs_def replay_init_def look snap_docs_look [OF assms])
  have "\<forall>(i, r, k)\<in>set (map_of_entries ?es). recId r = i \<and> i \<noteq> []"
  proof (clarify)
    fix i r k
    assume "(i, r, k) \<in> set (map_of_entries ?es)"
    then have "map_of (map_of_entries ?es) i = Some (r, k)"
      by (simp add: distinct_map_of_entries)
    then have "(i, r, k) \<in> set ?es" unfolding look by (rule map_of_SomeD)
    then have "(r, k) \<in> set (snapDocs s)" "i = recId r" by auto
    with assms show "recId r = i \<and> i \<noteq> []" by (auto simp: wf_snap_def list_all_iff)
  qed
  then show "replay_wf (replay_init s)"
    by (simp add: replay_wf_def replay_init_def distinct_map_of_entries)
qed

lemma replay_result:
  assumes "replay_wf st" and "snapDocs s = map snd (fst st)"
  shows "wf_snap s" and "snap_docs s = replay_abs st"
proof -
  have keys: "map (\<lambda>(r, k). recId r) (snapDocs s) = map fst (fst st)"
    using assms by (auto simp: replay_wf_def)
  moreover have "\<forall>(r, k)\<in>set (snapDocs s). recId r \<noteq> []"
    using assms by (auto simp: replay_wf_def)
  ultimately show wf: "wf_snap s"
    using assms(1) by (simp add: wf_snap_def list_all_iff replay_wf_def)
  have look: "map_of (map (\<lambda>(r, _). (recId r, r)) (map snd ds)) i = map_option fst (map_of ds i)"
    if "\<forall>(j, r, k)\<in>set ds. recId r = j" for ds :: "(string \<times> tlrec \<times> int) list" and i
    using that by (induction ds) auto
  have "\<forall>(j, r, k)\<in>set (fst st). recId r = j" using assms(1) by (auto simp: replay_wf_def)
  from look [OF this] show "snap_docs s = replay_abs st"
    by (simp add: fun_eq_iff snap_docs_look [OF wf] replay_abs_def assms(2) del: map_map)
qed

lemma applyHistoryEvents_unfold:
  assumes "wf_snap s"
  shows "applyHistoryEvents s es =
    bindR (foldR applyEvent (replay_init s, case snapDocClock s of None \<Rightarrow> 0 | Some k \<Rightarrow> k) es)
      (\<lambda>((docs', tombs'), clock').
         Inr (s\<lparr>snapClock := Some (max (case snapClock s of None \<Rightarrow> 0 | Some k \<Rightarrow> k) clock'),
                   snapDocClock := Some clock',
                   snapDocs := map snd docs',
                   snapTombs := Some tombs'\<rparr>))"
proof -
  from assms have "validateSnapshot s = Inr s"
    by (auto simp: wf_snap_def list_all_iff validateSnapshot_Inr)
  then show ?thesis by (simp add: applyHistoryEvents_def replay_init_def Let_def)
qed

text \<open>Replaying events over a snapshot is \<open>apply_all\<close> of their changes, failures included.\<close>

lemma applyHistoryEvents_refines:
  assumes "wf_snap s" and "\<forall>e\<in>set es. \<forall>c\<in>set (evChanges e). valid_change c"
  shows "case applyHistoryEvents s es of
      Inl _ \<Rightarrow> apply_all (snap_docs s) (concat (map evChanges es)) = None
    | Inr s' \<Rightarrow> wf_snap s' \<and>
        apply_all (snap_docs s) (concat (map evChanges es)) = Some (snap_docs s')"
proof -
  let ?k = "case snapDocClock s of None \<Rightarrow> 0 | Some k \<Rightarrow> k"
  note R = applyEvents_refines [OF replay_init_abs(2) [OF assms(1)] assms(2), of ?k,
      unfolded replay_init_abs(1) [OF assms(1)]]
  show ?thesis
  proof (cases "foldR applyEvent (replay_init s, ?k) es")
    case (Inl e)
    with R show ?thesis by (simp add: applyHistoryEvents_unfold [OF assms(1)])
  next
    case (Inr r)
    obtain d t k where r: "r = ((d, t), k)" by (metis surj_pair)
    with R Inr have "replay_wf (d, t)"
      "apply_all (snap_docs s) (concat (map evChanges es)) = Some (replay_abs (d, t))" by simp_all
    with replay_result [of "(d, t)"] show ?thesis
      by (simp add: applyHistoryEvents_unfold [OF assms(1)] Inr r)
  qed
qed

lemma applyHistoryEvents_Some:
  assumes "wf_snap s" and "\<forall>e\<in>set es. \<forall>c\<in>set (evChanges e). valid_change c"
    and "apply_all (snap_docs s) (concat (map evChanges es)) = Some d"
  shows "\<exists>s'. applyHistoryEvents s es = Inr s' \<and> wf_snap s' \<and> snap_docs s' = d"
  using applyHistoryEvents_refines [OF assms(1,2)] assms(3)
  by (cases "applyHistoryEvents s es") auto

section \<open>The difference of two snapshots\<close>

lemma diff_changes_ids: "map chId (concat (map (diff_at b a) is)) =
    filter (\<lambda>i. map_of b i \<noteq> map_of a i) is"
  by (induction "is") (simp_all add: diff_at_def)

lemma diff_changes_mem: "c \<in> set (concat (map (diff_at b a) is)) \<longleftrightarrow>
    chId c \<in> set is \<and> map_of b (chId c) \<noteq> map_of a (chId c) \<and>
    chBefore c = map_of b (chId c) \<and> chAfter c = map_of a (chId c)"
  by (cases c) (auto simp: diff_at_def)

lemma find_diff: "find (\<lambda>c. chId c = i) (concat (map (diff_at b a) is)) =
    (if i \<in> set is \<and> map_of b i \<noteq> map_of a i
     then Some \<lparr>chId = i, chBefore = map_of b i, chAfter = map_of a i\<rparr> else None)"
  by (induction "is") (auto simp: diff_at_def)

lemma diff_applies:
  "apply_all (map_of b) (concat (map (diff_at b a) (uniq (keys_of b @ keys_of a)))) = Some (map_of a)"
proof -
  let ?cs = "concat (map (diff_at b a) (uniq (keys_of b @ keys_of a)))"
  have "distinct (map chId ?cs)" unfolding diff_changes_ids by simp
  moreover have "\<forall>c\<in>set ?cs. map_of b (chId c) = chBefore c"
    by (rule ballI) (metis diff_changes_mem)
  moreover have "(case find (\<lambda>c. chId c = i) ?cs of None \<Rightarrow> map_of b i | Some c \<Rightarrow> chAfter c) = map_of a i"
    for i
    by (cases "map_of a i"; cases "map_of b i")
      (auto simp: find_diff dom_map_of_conv_image_fst [symmetric] dest: domI)
  ultimately show ?thesis by (simp add: apply_all_distinct)
qed

lemma changesBetween_applies:
  assumes "changesBetweenSnapshots b a = Inr cs"
  shows "apply_all (snap_docs b) cs = Some (snap_docs a)" and "\<forall>c\<in>set cs. valid_change c"
proof -
  let ?b = "records_by_id b" and ?a = "records_by_id a"
  have "cs = concat (map (diff_at ?b ?a) (uniq (keys_of ?b @ keys_of ?a)))"
    and "\<forall>c\<in>set cs. valid_change c"
    using assms by (auto simp: changesBetweenSnapshots_def Let_def validateChanges_Inr)
  then show "apply_all (snap_docs b) cs = Some (snap_docs a)" "\<forall>c\<in>set cs. valid_change c"
    using diff_applies [of ?b ?a] by (simp_all add: snap_docs_def)
qed

text \<open>The difference of two well-formed snapshots exists when no changed record has an id over 200 characters.\<close>

lemma changesBetween_defined:
  assumes "wf_snap b" "wf_snap a"
    and "\<forall>i. snap_docs b i \<noteq> snap_docs a i \<longrightarrow> length i \<le> 200"
  shows "\<exists>cs. changesBetweenSnapshots b a = Inr cs"
proof -
  let ?b = "records_by_id b" and ?a = "records_by_id a"
  let ?cs = "concat (map (diff_at ?b ?a) (uniq (keys_of ?b @ keys_of ?a)))"
  have "valid_change c" if "c \<in> set ?cs" for c
  proof -
    from that have ne: "snap_docs b (chId c) \<noteq> snap_docs a (chId c)"
      and "chBefore c = snap_docs b (chId c)" "chAfter c = snap_docs a (chId c)"
      unfolding diff_changes_mem by (auto simp: snap_docs_def)
    moreover have "chId c \<noteq> []"
      using ne snap_docs_recId [OF assms(1)] snap_docs_recId [OF assms(2)]
      by (metis not_Some_eq)
    ultimately show ?thesis
      using snap_docs_recId [OF assms(1)] snap_docs_recId [OF assms(2)] assms(3)
      by (cases "snap_docs b (chId c)"; cases "snap_docs a (chId c)")
        (simp_all add: valid_change_def side_ok_def)
  qed
  then have "validateChanges ?cs = Inr ?cs" by (simp only: validateChanges_Inr) blast
  then show ?thesis by (auto simp: changesBetweenSnapshots_def Let_def)
qed

section \<open>Merging coalesced changes\<close>

text \<open>
  After merging changes that lead from \<open>d\<close> to \<open>d'\<close>, the map holds for each record whose value
  differs exactly its net change, and nothing for the others.
\<close>

definition merged_from :: "docs \<Rightarrow> docs \<Rightarrow> (string \<times> change) list \<Rightarrow> bool" where
  "merged_from d d' m \<longleftrightarrow> distinct (map fst m) \<and>
     (\<forall>i. map_of m i = (if d i = d' i then None else Some \<lparr>chId = i, chBefore = d i, chAfter = d' i\<rparr>))"

lemma mergeStep_merged:
  assumes "merged_from d d1 m" and "d1 (chId c) = chBefore c"
  shows "merged_from d (d1(chId c := chAfter c)) (mergeStep m c)"
proof -
  let ?i = "chId c"
  let ?next = "\<lparr>chId = ?i, chBefore = d ?i, chAfter = chAfter c\<rparr>"
  have dist: "distinct (map fst m)" using assms(1) by (simp add: merged_from_def)
  have nxt: "(case map_of m ?i of
      Some p \<Rightarrow> \<lparr>chId = ?i, chBefore = chBefore p, chAfter = chAfter c\<rparr> | None \<Rightarrow> c) = ?next"
    using assms by (cases c) (auto simp: merged_from_def)
  have step: "mergeStep m c =
      (if d ?i = chAfter c then AList.delete ?i m else AList.update ?i ?next m)"
    unfolding mergeStep_def nxt Let_def by auto
  show ?thesis
    using assms(1) dist
    by (auto simp: step merged_from_def js.look_put js.look_del distinct_delete distinct_update)
qed

lemma merge_merged:
  assumes "apply_all d cs = Some d'"
  shows "merged_from d d' (foldl mergeStep [] cs)"
  using assms
proof (induction cs arbitrary: d' rule: rev_induct)
  case Nil
  then show ?case by (simp add: merged_from_def)
next
  case (snoc c cs)
  then obtain d1 where d1: "apply_all d cs = Some d1" "d1 (chId c) = chBefore c"
      "d' = d1(chId c := chAfter c)"
    by (auto simp: apply_all_append apply_all_Cons_Some apply1_def split: option.splits if_splits)
  from mergeStep_merged [OF snoc.IH [OF d1(1)] d1(2)] show ?case
    unfolding d1(3) foldl_append foldl.simps .
qed

lemma merged_from_entry:
  assumes "merged_from d d' m"
  shows "(i, c) \<in> set m \<longleftrightarrow>
    i = chId c \<and> chBefore c = d i \<and> chAfter c = d' i \<and> d i \<noteq> d' i"
proof -
  from assms have dist: "distinct (map fst m)"
    and look: "map_of m i = (if d i = d' i then None else Some \<lparr>chId = i, chBefore = d i, chAfter = d' i\<rparr>)"
    by (simp_all only: merged_from_def)
  have "(i, c) \<in> set m \<longleftrightarrow> map_of m i = Some c"
    by (rule map_of_eq_Some_iff [OF dist, symmetric])
  then show ?thesis unfolding look by (cases c) auto
qed

lemma merged_from_mem:
  assumes "merged_from d d' m"
  shows "c \<in> set (map snd m) \<longleftrightarrow>
    chBefore c = d (chId c) \<and> chAfter c = d' (chId c) \<and> d (chId c) \<noteq> d' (chId c)"
proof -
  have "c \<in> set (map snd m) \<longleftrightarrow> (\<exists>i. (i, c) \<in> set m)" by force
  then show ?thesis unfolding merged_from_entry [OF assms] by auto
qed

lemma merged_from_applies:
  assumes "merged_from d d' m"
  shows "distinct (map chId (map snd m))" and "apply_all d (map snd m) = Some d'"
proof -
  note mem = merged_from_mem [OF assms]
  have "map chId (map snd m) = map fst m"
    unfolding map_map by (intro map_cong refl) (metis comp_apply merged_from_entry [OF assms] prod.collapse)
  then show dist: "distinct (map chId (map snd m))"
    using assms by (simp add: merged_from_def del: map_map)
  have "(case find (\<lambda>c. chId c = i) (map snd m) of None \<Rightarrow> d i | Some c \<Rightarrow> chAfter c) = d' i" for i
  proof (cases "find (\<lambda>c. chId c = i) (map snd m)")
    case None
    then have "\<lparr>chId = i, chBefore = d i, chAfter = d' i\<rparr> \<notin> set (map snd m)"
      by (force simp: find_None_iff)
    then have "d i = d' i" unfolding mem by simp
    with None show ?thesis by simp
  next
    case (Some c)
    then have "c \<in> set (map snd m)" "chId c = i" by (auto simp: find_Some_iff)
    with Some show ?thesis unfolding mem by simp
  qed
  moreover have "\<forall>c\<in>set (map snd m). d (chId c) = chBefore c" using mem by metis
  ultimately show "apply_all d (map snd m) = Some d'"
    by (simp add: apply_all_distinct [OF dist] del: map_map)
qed

lemma mergeChanges_applies:
  assumes "apply_all d (concat gs) = Some d'"
  shows "apply_all d (mergeChanges gs) = Some d'" and "distinct (map chId (mergeChanges gs))"
    and "c \<in> set (mergeChanges gs) \<longleftrightarrow>
      chBefore c = d (chId c) \<and> chAfter c = d' (chId c) \<and> d (chId c) \<noteq> d' (chId c)"
  using merged_from_applies [OF merge_merged [OF assms]] merged_from_mem [OF merge_merged [OF assms]]
  by (simp_all add: mergeChanges_def del: map_map)

text \<open>Merging keeps the changes valid, whatever board they are for.\<close>

lemma mergeStep_valid:
  assumes m: "\<forall>p\<in>set m. valid_change (snd p) \<and> chId (snd p) = fst p" and c: "valid_change c"
  shows "\<forall>p\<in>set (mergeStep m c). valid_change (snd p) \<and> chId (snd p) = fst p"
proof -
  let ?P = "\<lambda>p :: string \<times> change. valid_change (snd p) \<and> chId (snd p) = fst p"
  define nxt where "nxt = (case map_of m (chId c) of
      Some p \<Rightarrow> \<lparr>chId = chId c, chBefore = chBefore p, chAfter = chAfter c\<rparr> | None \<Rightarrow> c)"
  have step: "mergeStep m c = (if chBefore nxt = None \<and> chAfter nxt = None then AList.delete (chId c) m
      else if chBefore nxt \<noteq> None \<and> chBefore nxt = chAfter nxt then AList.delete (chId c) m
      else AList.update (chId c) nxt m)"
    by (simp add: mergeStep_def nxt_def Let_def)
  have del: "\<forall>p\<in>set (AList.delete (chId c) m). ?P p"
    using m by (simp add: set_AList_delete)
  show ?thesis
  proof (cases "chBefore nxt = None \<and> chAfter nxt = None")
    case True
    with del show ?thesis by (simp add: step)
  next
    case False
    have "valid_change nxt \<and> chId nxt = chId c"
    proof (cases "map_of m (chId c)")
      case None
      with c show ?thesis by (simp add: nxt_def)
    next
      case (Some p)
      then have p: "valid_change p" "chId p = chId c"
        using m by (auto dest!: map_of_SomeD)
      with Some c False show ?thesis by (simp add: nxt_def valid_change_def)
    qed
    with ball_AList_update [of ?P "chId c" nxt m] m del show ?thesis by (simp add: step)
  qed
qed

lemma mergeChanges_valid:
  assumes "\<forall>c\<in>set (concat gs). valid_change c"
  shows "\<forall>c\<in>set (mergeChanges gs). valid_change c"
proof -
  have "\<forall>p\<in>set (foldl mergeStep [] cs). valid_change (snd p) \<and> chId (snd p) = fst p"
    if "\<forall>c\<in>set cs. valid_change c" for cs
    using that
  proof (induction cs rule: rev_induct)
    case Nil
    show ?case by simp
  next
    case (snoc c cs)
    have "\<forall>c\<in>set cs. valid_change c" "valid_change c" using snoc.prems by simp_all
    with snoc.IH show ?case
      unfolding foldl_append foldl.simps by (intro mergeStep_valid)
  qed
  from this [OF assms] show ?thesis unfolding mergeChanges_def by fastforce
qed

section \<open>Properties\<close>

text \<open>A record, an empty canvas, the canvas that holds the record, and the event between: the inputs of the witnesses.\<close>

definition demo_rec :: tlrec where
  "demo_rec = \<lparr>recId = ''shape:1'', recType = ''shape'', recX = Some (JNum 4), recY = Some (JNum 2), recRest = []\<rparr>"

definition demo_live :: snapshot where
  "demo_live = \<lparr>snapDocs = [], snapTombs = None, snapClock = Some 0, snapDocClock = Some 0, snapSchema = JNull\<rparr>"

definition demo_after :: snapshot where
  "demo_after = demo_live\<lparr>snapDocs := [(demo_rec, 1)], snapDocClock := Some 1\<rparr>"

definition demo_created :: hevent where
  "demo_created = \<lparr>evId = 1, evBoard = ''b'', evActor = None, evSession = None, evType = ''object.created'',
      evEntityType = None, evEntityId = None, evSource = Human, evAt = 0, evMeta = [],
      evChanges = [\<lparr>chId = ''shape:1'', chBefore = None, chAfter = Some demo_rec\<rparr>], evClock = Some 1\<rparr>"

text \<open>
  C5: coalescing is exact: merging the changes of a run of fragments gives one change for each record
  whose value at the end differs from its value at the start, with those two values as its sides, and
  replaying the merged changes leads to the same board as replaying all of them.
\<close>

theorem coalescing_net_effect:
  assumes "apply_all d (concat gs) = Some d'"
  shows "apply_all d (mergeChanges gs) = Some d' \<and> distinct (map chId (mergeChanges gs)) \<and>
    (\<forall>c. c \<in> set (mergeChanges gs) \<longleftrightarrow>
      chBefore c = d (chId c) \<and> chAfter c = d' (chId c) \<and> d (chId c) \<noteq> d' (chId c))"
  using mergeChanges_applies [OF assms] by blast

theorem coalescing_net_effect_witness:
  "mergeChanges [[\<lparr>chId = ''shape:1'', chBefore = None, chAfter = Some demo_rec\<rparr>],
     [\<lparr>chId = ''shape:1'', chBefore = Some demo_rec, chAfter = None\<rparr>]] = []"
proof -
  let ?gs = "[[\<lparr>chId = ''shape:1'', chBefore = None, chAfter = Some demo_rec\<rparr>],
     [\<lparr>chId = ''shape:1'', chBefore = Some demo_rec, chAfter = None\<rparr>]]"
  have "apply_all Map.empty (concat ?gs) = Some Map.empty" by (simp add: apply1_def)
  from coalescing_net_effect [OF this] have "\<forall>c. c \<notin> set (mergeChanges ?gs)" by simp
  then show ?thesis by (metis list.set_intros(1) neq_Nil_conv)
qed

text \<open>
  C6: the changes computed between two snapshots replay: applying them as one event to the first
  snapshot succeeds and gives a well-formed snapshot with exactly the documents of the second.
\<close>

theorem diff_replay_roundtrip:
  assumes "wf_snap a" and "changesBetweenSnapshots a b = Inr (evChanges e)"
  shows "\<exists>s. applyHistoryEvents a [e] = Inr s \<and> wf_snap s \<and> snap_docs s = snap_docs b"
  using applyHistoryEvents_Some [of a "[e]" "snap_docs b"] changesBetween_applies [OF assms(2)] assms(1)
  by simp

theorem diff_replay_roundtrip_witness:
  "\<exists>s. applyHistoryEvents demo_live [demo_created] = Inr s \<and> wf_snap s \<and> snap_docs s = snap_docs demo_after"
proof -
  have "changesBetweenSnapshots demo_live demo_after = Inr (evChanges demo_created)" by code_simp
  moreover have "wf_snap demo_live" by code_simp
  ultimately show ?thesis by (intro diff_replay_roundtrip)
qed

end
