(* ===== verification/HistoryStore.thy ===== *)
theory HistoryStore
  imports HistoryReplay
begin

text \<open>
  \<open>BoardHistoryStore\<close> of \<open>server/history.ts\<close> over its SQLite tables. A table is the list of its rows
  in primary-key order, with the next \<open>AUTOINCREMENT\<close> key beside it: \<open>ORDER BY id ASC\<close> is the list,
  \<open>ORDER BY id DESC LIMIT 1\<close> its last element. A method returns the new database, or the error it
  throws; a thrown error rolls the enclosing transaction back, so no database comes with it.
  \<open>Date.now()\<close> and \<open>randomUUID()\<close> are arguments.
\<close>

section \<open>Tables and inputs\<close>

type_synonym fragment_key =
  "string option \<times> string option \<times> history_source \<times> string \<times> string option \<times> string option \<times> string"

record hfragment = hevent +
  frGroup :: fragment_key
  frFlushAfter :: int

record hcheckpoint =
  cpId :: nat
  cpBoard :: string
  cpAt :: int
  cpBy :: "string option"
  cpBase :: "nat option"
  cpLabel :: "string option"
  cpReason :: string
  cpSnap :: snapshot

record hdb =
  hEvents :: "hevent list"
  hCheckpoints :: "hcheckpoint list"
  hFragments :: "hfragment list"
  hNextEvent :: nat
  hNextCheckpoint :: nat
  hNextFragment :: nat
  hGate :: bool

record hinput =
  inActor :: "string option"
  inSession :: "string option"
  inType :: string
  inEntityType :: "string option"
  inEntityId :: "string option"
  inSource :: history_source
  inAt :: "int option"
  inMeta :: "(string \<times> json) list"
  inChanges :: "change list"
  inClock :: "int option"

record cpinput =
  ciSnap :: snapshot
  ciBy :: "string option"
  ciAt :: "int option"
  ciBase :: "nat option option"
  ciLabel :: "string option"
  ciReason :: string

datatype target = ByEvent nat | ByCheckpoint nat | ByTime int

record reconstructed =
  reSnap :: snapshot
  reTargetEvent :: "nat option"
  reBaseCheckpoint :: nat
  reApplied :: "nat list"

definition the_or :: "'a \<Rightarrow> 'a option \<Rightarrow> 'a" where
  "the_or d opt = (case opt of None \<Rightarrow> d | Some a \<Rightarrow> a)"

lemma the_or_simps [simp]: "the_or d None = d" "the_or d (Some a) = a"
  by (simp_all add: the_or_def)

section \<open>Events and fragments\<close>

definition mk_event :: "string \<Rightarrow> int \<Rightarrow> nat \<Rightarrow> hinput \<Rightarrow> hevent" where
  "mk_event board now i inp =
     \<lparr>evId = i, evBoard = board, evActor = inActor inp, evSession = inSession inp,
      evType = inType inp, evEntityType = inEntityType inp, evEntityId = inEntityId inp,
      evSource = inSource inp, evAt = the_or now (inAt inp), evMeta = inMeta inp,
      evChanges = inChanges inp, evClock = inClock inp\<rparr>"

definition insertEvent :: "string \<Rightarrow> int \<Rightarrow> hinput \<Rightarrow> hdb \<Rightarrow> hist_error + (hdb \<times> hevent)" where
  "insertEvent board now inp db =
     bindR (assertIdentifier (inType inp) ''eventType'') (\<lambda>_.
     bindR (validateChanges (inChanges inp)) (\<lambda>_.
     (let e = mk_event board now (hNextEvent db) inp
      in Inr (db\<lparr>hEvents := hEvents db @ [e], hNextEvent := Suc (hNextEvent db)\<rparr>, e))))"

definition coalesce_group :: "hinput \<Rightarrow> string option \<Rightarrow> fragment_key" where
  "coalesce_group inp key = (inActor inp, inSession inp, inSource inp, inType inp,
     inEntityType inp, inEntityId inp, the_or ''default'' key)"

definition appendFragment ::
    "string \<Rightarrow> int \<Rightarrow> hinput \<Rightarrow> string option \<Rightarrow> int option \<Rightarrow> hdb \<Rightarrow> hist_error + (hdb \<times> hfragment)" where
  "appendFragment board now inp key flushAfter db =
     bindR (assertIdentifier (inType inp) ''eventType'') (\<lambda>_.
     bindR (validateChanges (inChanges inp)) (\<lambda>_.
     (let createdAt = the_or now (inAt inp);
          f = hevent.extend (mk_event board now (hNextFragment db) inp)
                \<lparr>frGroup = coalesce_group inp key, frFlushAfter = the_or (createdAt + 900) flushAfter\<rparr>
      in Inr (db\<lparr>hFragments := hFragments db @ [f], hNextFragment := Suc (hNextFragment db)\<rparr>, f))))"

text \<open>Consecutive fragments with the same group key.\<close>

fun fragment_runs :: "hfragment list \<Rightarrow> hfragment list list" where
  "fragment_runs [] = []"
| "fragment_runs (f # fs) = (case fragment_runs fs of
       [] \<Rightarrow> [[f]]
     | g # gs \<Rightarrow> (if frGroup (hd g) = frGroup f then (f # g) # gs else [f] # g # gs))"

definition merged_meta :: "hfragment list \<Rightarrow> (string \<times> json) list" where
  "merged_meta g = map_of_entries (concat (map evMeta g))"

definition group_input :: "hfragment list \<Rightarrow> hinput" where
  "group_input g =
     \<lparr>inActor = evActor (hd g), inSession = evSession (hd g), inType = evType (hd g),
      inEntityType = evEntityType (hd g), inEntityId = evEntityId (hd g), inSource = evSource (hd g),
      inAt = Some (evAt (last g)), inMeta = merged_meta g,
      inChanges = mergeChanges (map evChanges g), inClock = evClock (last g)\<rparr>"

definition flush_group :: "string \<Rightarrow> int \<Rightarrow> hfragment list \<Rightarrow> hdb \<Rightarrow> hist_error + (hdb \<times> hevent list)" where
  "flush_group board now g db =
     bindR (if inChanges (group_input g) \<noteq> [] \<or> inMeta (group_input g) \<noteq> []
            then bindR (insertEvent board now (group_input g) db) (\<lambda>(db', e). Inr (db', [e]))
            else Inr (db, []))
       (\<lambda>(db', es). Inr (db'\<lparr>hFragments := filter (\<lambda>f. \<not> (evBoard f = board \<and>
            evId (hd g) \<le> evId f \<and> evId f \<le> evId (last g))) (hFragments db')\<rparr>, es))"

fun flush_groups ::
    "string \<Rightarrow> int \<Rightarrow> bool \<Rightarrow> hfragment list list \<Rightarrow> hdb \<Rightarrow> hist_error + (hdb \<times> hevent list)" where
  "flush_groups board now force [] db = Inr (db, [])"
| "flush_groups board now force (g # gs) db =
     (if \<not> force \<and> list_ex (\<lambda>f. frFlushAfter f > now) g then Inr (db, [])
      else bindR (flush_group board now g db) (\<lambda>(db', es).
           bindR (flush_groups board now force gs db') (\<lambda>(db'', es'). Inr (db'', es @ es'))))"

definition flushFragments :: "string \<Rightarrow> int \<Rightarrow> bool \<Rightarrow> hdb \<Rightarrow> hist_error + (hdb \<times> hevent list)" where
  "flushFragments board now force db =
     flush_groups board now force
       (fragment_runs (filter (\<lambda>f. evBoard f = board) (hFragments db))) db"

definition appendEvent :: "string \<Rightarrow> int \<Rightarrow> hinput \<Rightarrow> hdb \<Rightarrow> hist_error + (hdb \<times> hevent)" where
  "appendEvent board now inp db =
     bindR (flushFragments board now True db) (\<lambda>(db', _). insertEvent board now inp db')"

definition getPendingFragmentCount :: "string \<Rightarrow> hdb \<Rightarrow> nat" where
  "getPendingFragmentCount board db = length (filter (\<lambda>f. evBoard f = board) (hFragments db))"

definition getEvent :: "string \<Rightarrow> nat \<Rightarrow> hdb \<Rightarrow> hevent option" where
  "getEvent board i db = find (\<lambda>e. evBoard e = board \<and> evId e = i) (hEvents db)"

definition latestEventId :: "string \<Rightarrow> hdb \<Rightarrow> nat option" where
  "latestEventId board db = (case filter (\<lambda>e. evBoard e = board) (hEvents db) of
       [] \<Rightarrow> None | es \<Rightarrow> Some (evId (last es)))"

section \<open>Listing\<close>

record filters =
  fiUser :: "string option"
  fiSource :: "history_source list option"
  fiType :: "string list option"
  fiEntityType :: "string option"
  fiEntityId :: "string option"
  fiFrom :: "int option"
  fiTo :: "int option"
  fiAfter :: "int option"
  fiBefore :: "int option"
  fiAsc :: bool
  fiLimit :: "int option"

definition opt_holds :: "('a \<Rightarrow> bool) \<Rightarrow> 'a option \<Rightarrow> bool" where
  "opt_holds P opt = (case opt of None \<Rightarrow> True | Some a \<Rightarrow> P a)"

definition event_matches :: "string \<Rightarrow> filters \<Rightarrow> hevent \<Rightarrow> bool" where
  "event_matches board fi e \<longleftrightarrow> evBoard e = board
     \<and> opt_holds (\<lambda>u. evActor e = Some u) (fiUser fi)
     \<and> opt_holds (\<lambda>ss. evSource e \<in> set ss) (fiSource fi)
     \<and> opt_holds (\<lambda>ts. evType e \<in> set ts) (fiType fi)
     \<and> opt_holds (\<lambda>t. evEntityType e = Some t) (fiEntityType fi)
     \<and> opt_holds (\<lambda>t. evEntityId e = Some t) (fiEntityId fi)
     \<and> opt_holds (\<lambda>t. t \<le> evAt e) (fiFrom fi)
     \<and> opt_holds (\<lambda>t. evAt e \<le> t) (fiTo fi)
     \<and> opt_holds (\<lambda>i. i < int (evId e)) (fiAfter fi)
     \<and> opt_holds (\<lambda>i. int (evId e) < i) (fiBefore fi)"

definition page_limit :: "filters \<Rightarrow> nat" where
  "page_limit fi = nat (max 1 (min (the_or 50 (fiLimit fi)) 200))"

definition listEvents :: "string \<Rightarrow> filters \<Rightarrow> hdb \<Rightarrow> hevent list \<times> nat option" where
  "listEvents board fi db =
     (let matching = filter (event_matches board fi) (hEvents db);
          ordered = (if fiAsc fi then matching else rev matching);
          rows = take (Suc (page_limit fi)) ordered;
          events = take (page_limit fi) rows
      in (events, if length rows > page_limit fi \<and> events \<noteq> [] then Some (evId (last events)) else None))"

section \<open>Checkpoints\<close>

definition insertCheckpoint :: "string \<Rightarrow> int \<Rightarrow> cpinput \<Rightarrow> hdb \<Rightarrow> hist_error + (hdb \<times> hcheckpoint)" where
  "insertCheckpoint board now ci db =
     bindR (validateSnapshot (ciSnap ci)) (\<lambda>snap.
     (let c = \<lparr>cpId = hNextCheckpoint db, cpBoard = board, cpAt = the_or now (ciAt ci), cpBy = ciBy ci,
               cpBase = (case ciBase ci of None \<Rightarrow> latestEventId board db | Some b \<Rightarrow> b),
               cpLabel = ciLabel ci, cpReason = ciReason ci, cpSnap = snap\<rparr>
      in Inr (db\<lparr>hCheckpoints := hCheckpoints db @ [c], hNextCheckpoint := Suc (hNextCheckpoint db)\<rparr>, c)))"

definition createCheckpoint :: "string \<Rightarrow> int \<Rightarrow> cpinput \<Rightarrow> hdb \<Rightarrow> hist_error + (hdb \<times> hcheckpoint)" where
  "createCheckpoint board now ci db =
     bindR (flushFragments board now True db) (\<lambda>(db', _). insertCheckpoint board now ci db')"

definition getCheckpoint :: "string \<Rightarrow> nat \<Rightarrow> hdb \<Rightarrow> hcheckpoint option" where
  "getCheckpoint board i db = find (\<lambda>c. cpBoard c = board \<and> cpId c = i) (hCheckpoints db)"

text \<open>Summaries leave the snapshot out; here the whole row stands for its summary.\<close>

definition listCheckpoints :: "string \<Rightarrow> int \<Rightarrow> hdb \<Rightarrow> hcheckpoint list" where
  "listCheckpoints board limit db =
     take (nat (max 1 (min limit 500))) (rev (filter (\<lambda>c. cpBoard c = board) (hCheckpoints db)))"

definition ensureLegacyImportCheckpoint ::
    "string \<Rightarrow> int \<Rightarrow> snapshot \<Rightarrow> hdb \<Rightarrow> hist_error + (hdb \<times> hcheckpoint)" where
  "ensureLegacyImportCheckpoint board now snap db =
     (case filter (\<lambda>c. cpBoard c = board) (hCheckpoints db) of
        c # _ \<Rightarrow> bindR (validateSnapshot (cpSnap c)) (\<lambda>_. Inr (db, c))
      | [] \<Rightarrow>
        bindR (insertEvent board now
            \<lparr>inActor = None, inSession = None, inType = ''board.imported'',
             inEntityType = Some ''board'', inEntityId = Some board, inSource = System, inAt = Some now,
             inMeta = [(''legacyImport'', JBool True)], inChanges = [], inClock = snapDocClock snap\<rparr> db)
          (\<lambda>(db', imported). insertCheckpoint board now
            \<lparr>ciSnap = snap, ciBy = None, ciAt = Some now, ciBase = Some (Some (evId imported)),
             ciLabel = Some ''Imported board state'', ciReason = ''legacy_import''\<rparr> db'))"

section \<open>Reconstruction\<close>

definition resolveTargetEventId :: "string \<Rightarrow> target \<Rightarrow> hdb \<Rightarrow> hist_error + nat option" where
  "resolveTargetEventId board t db = (case t of
       ByEvent i \<Rightarrow> (case getEvent board i db of None \<Rightarrow> Inl HEventNotFound | Some _ \<Rightarrow> Inr (Some i))
     | ByCheckpoint i \<Rightarrow> (case getCheckpoint board i db of
           None \<Rightarrow> Inl HCheckpointNotFound | Some c \<Rightarrow> Inr (cpBase c))
     | ByTime ts \<Rightarrow> (case filter (\<lambda>e. evBoard e = board \<and> evAt e \<le> ts) (hEvents db) of
           [] \<Rightarrow> Inr None | es \<Rightarrow> Inr (Some (evId (last es)))))"

text \<open>\<open>COALESCE(base_event_id, -1)\<close>\<close>

definition base_key :: "hcheckpoint \<Rightarrow> int" where
  "base_key c = (case cpBase c of None \<Rightarrow> -1 | Some b \<Rightarrow> int b)"

text \<open>
  \<open>ORDER BY COALESCE(base_event_id, -1) DESC, id DESC LIMIT 1\<close>: the greatest base, and among equal
  ones the row that comes last.
\<close>

definition newest_base :: "hcheckpoint list \<Rightarrow> hcheckpoint option" where
  "newest_base cs = foldl (\<lambda>best c. case best of
       None \<Rightarrow> Some c | Some b \<Rightarrow> if base_key b \<le> base_key c then Some c else Some b) None cs"

definition base_of :: "hcheckpoint \<Rightarrow> nat" where
  "base_of c = the_or 0 (cpBase c)"

definition choose_checkpoint :: "string \<Rightarrow> target \<Rightarrow> nat option \<Rightarrow> hdb \<Rightarrow> hcheckpoint option" where
  "choose_checkpoint board t targetEventId db =
     (let mine = filter (\<lambda>c. cpBoard c = board) (hCheckpoints db) in
      case t of
        ByCheckpoint i \<Rightarrow> find (\<lambda>c. cpId c = i) mine
      | _ \<Rightarrow> (case targetEventId of
            None \<Rightarrow> (case filter (\<lambda>c. cpBase c = None) mine of [] \<Rightarrow> None | cs \<Rightarrow> Some (last cs))
          | Some e \<Rightarrow> newest_base (filter (\<lambda>c. opt_holds (\<lambda>b. b \<le> e) (cpBase c)) mine)))"

definition events_between :: "string \<Rightarrow> nat \<Rightarrow> nat \<Rightarrow> hdb \<Rightarrow> hevent list" where
  "events_between board lo hi db = filter (\<lambda>e. evBoard e = board \<and> lo < evId e \<and> evId e \<le> hi) (hEvents db)"

definition reconstruct :: "string \<Rightarrow> target \<Rightarrow> hdb \<Rightarrow> hist_error + reconstructed" where
  "reconstruct board t db =
     bindR (resolveTargetEventId board t db) (\<lambda>targetEventId.
     (case choose_checkpoint board t targetEventId db of
        None \<Rightarrow> Inl HNoCheckpoint
      | Some c \<Rightarrow>
        (let events = (case targetEventId of None \<Rightarrow> [] | Some e \<Rightarrow> events_between board (base_of c) e db)
         in bindR (applyHistoryEvents (cpSnap c) events) (\<lambda>snap.
            Inr \<lparr>reSnap = snap, reTargetEvent = targetEventId, reBaseCheckpoint = cpId c,
                 reApplied = map evId events\<rparr>))))"

section \<open>Restore\<close>

definition target_json :: "target \<Rightarrow> json" where
  "target_json t = (case t of
       ByEvent i \<Rightarrow> JObj [(''eventId'', JNum (of_nat i))]
     | ByCheckpoint i \<Rightarrow> JObj [(''checkpointId'', JNum (of_nat i))]
     | ByTime ts \<Rightarrow> JObj [(''timestamp'', JNum (of_int ts))])"

record restore_input =
  riTarget :: target
  riActor :: string
  riSource :: "history_source option"
  riSession :: "string option"
  riAt :: "int option"

record restore_preparation =
  rpRestoreId :: string
  rpTargetState :: reconstructed
  rpCheckpoint :: hcheckpoint
  rpStarted :: hevent

definition restore_event :: "string \<Rightarrow> string \<Rightarrow> restore_input \<Rightarrow> string \<Rightarrow> change list \<Rightarrow> snapshot \<Rightarrow> hinput" where
  "restore_event board rid ri type cs snap =
     \<lparr>inActor = Some (riActor ri), inSession = riSession ri, inType = type,
      inEntityType = Some ''board'', inEntityId = Some board,
      inSource = the_or Human (riSource ri), inAt = riAt ri,
      inMeta = [(''restoreId'', JStr rid), (''target'', target_json (riTarget ri))],
      inChanges = cs, inClock = snapDocClock snap\<rparr>"

definition prepareRestore ::
    "string \<Rightarrow> int \<Rightarrow> string \<Rightarrow> restore_input \<Rightarrow> snapshot \<Rightarrow> hdb \<Rightarrow> hist_error + (hdb \<times> restore_preparation)" where
  "prepareRestore board now rid ri current db =
     bindR (flushFragments board now True db) (\<lambda>(db1, _).
     bindR (reconstruct board (riTarget ri) db1) (\<lambda>targetState.
     bindR (insertEvent board now (restore_event board rid ri ''restore.started'' [] current) db1)
       (\<lambda>(db2, started).
     bindR (insertCheckpoint board now
         \<lparr>ciSnap = current, ciBy = Some (riActor ri), ciAt = riAt ri, ciBase = Some (Some (evId started)),
          ciLabel = Some ''Before restore'', ciReason = ''pre_restore''\<rparr> db2) (\<lambda>(db3, cp).
     Inr (db3, \<lparr>rpRestoreId = rid, rpTargetState = targetState, rpCheckpoint = cp, rpStarted = started\<rparr>)))))"

definition completeRestore ::
    "string \<Rightarrow> int \<Rightarrow> string \<Rightarrow> restore_input \<Rightarrow> snapshot \<Rightarrow> snapshot \<Rightarrow> hdb
       \<Rightarrow> hist_error + (hdb \<times> hevent \<times> hcheckpoint)" where
  "completeRestore board now rid ri before restored db =
     bindR (flushFragments board now True db) (\<lambda>(db1, _).
     bindR (changesBetweenSnapshots before restored) (\<lambda>cs.
     bindR (insertEvent board now (restore_event board rid ri ''restore.completed'' cs restored) db1)
       (\<lambda>(db2, completed).
     bindR (insertCheckpoint board now
         \<lparr>ciSnap = restored, ciBy = Some (riActor ri), ciAt = riAt ri, ciBase = Some (Some (evId completed)),
          ciLabel = Some ''Restored version'', ciReason = ''restore_completed''\<rparr> db2) (\<lambda>(db3, cp).
     Inr (db3, completed, cp)))))"

end
