(* ===== verification/HistoryTimeline.thy ===== *)
theory HistoryTimeline
  imports HistoryStore
begin

text \<open>
  The contract of the history store. A timeline \<open>S\<close> gives the board after each event id. The store
  is consistent with it when every event of the board leads from \<open>S (id - 1)\<close> to \<open>S id\<close>, every
  checkpoint holds \<open>S\<close> of its base event, and the pending fragments lead from the end of the timeline
  to the live board. Every operation of the store keeps this for a timeline that agrees with the old
  one on all old events, so history is never rewritten; and reconstruction reads the timeline.
\<close>

section \<open>Tables in key order\<close>

definition ids_ok :: "nat list \<Rightarrow> nat \<Rightarrow> bool" where
  "ids_ok is next \<longleftrightarrow> sorted_wrt (<) is \<and> (\<forall>i\<in>set is. 0 < i \<and> i < next) \<and> 0 < next"

definition tables_ok :: "hdb \<Rightarrow> bool" where
  "tables_ok db \<longleftrightarrow> ids_ok (map evId (hEvents db)) (hNextEvent db)
     \<and> ids_ok (map cpId (hCheckpoints db)) (hNextCheckpoint db)
     \<and> ids_ok (map evId (hFragments db)) (hNextFragment db)"

lemma ids_ok_snoc: "ids_ok is next \<Longrightarrow> ids_ok (is @ [next]) (Suc next)"
  by (auto simp: ids_ok_def sorted_wrt_append)

lemma ids_ok_sub:
  assumes "ids_ok (map f xs) next"
  shows "ids_ok (map f (filter P xs)) next"
  using assms by (auto simp: ids_ok_def sorted_wrt_map intro: sorted_wrt_filter)

lemma ids_ok_distinct: "ids_ok is next \<Longrightarrow> distinct is"
  by (simp add: ids_ok_def strict_sorted_iff)

lemma ids_ok_inj: "ids_ok (map f xs) next \<Longrightarrow> inj_on f (set xs)"
  by (metis distinct_map ids_ok_distinct)

section \<open>Timelines\<close>

type_synonym timeline = "nat \<Rightarrow> docs"

definition timeline_step :: "string \<Rightarrow> timeline \<Rightarrow> hdb \<Rightarrow> nat \<Rightarrow> bool" where
  "timeline_step board S db i \<longleftrightarrow> (case getEvent board (Suc i) db of
       None \<Rightarrow> S (Suc i) = S i
     | Some e \<Rightarrow> apply_all (S i) (evChanges e) = Some (S (Suc i)))"

definition checkpoint_ok :: "timeline \<Rightarrow> nat \<Rightarrow> hcheckpoint \<Rightarrow> bool" where
  "checkpoint_ok S next c \<longleftrightarrow> wf_snap (cpSnap c) \<and> snap_docs (cpSnap c) = S (base_of c) \<and> base_of c < next"

definition timeline_ok :: "string \<Rightarrow> timeline \<Rightarrow> hdb \<Rightarrow> bool" where
  "timeline_ok board S db \<longleftrightarrow> tables_ok db
     \<and> (\<forall>i. timeline_step board S db i)
     \<and> (\<forall>e\<in>set (hEvents db). evBoard e = board \<longrightarrow> (\<forall>c\<in>set (evChanges e). valid_change c))
     \<and> (\<forall>c\<in>set (hCheckpoints db). cpBoard c = board \<longrightarrow> checkpoint_ok S (hNextEvent db) c)"

definition pending :: "string \<Rightarrow> hdb \<Rightarrow> hfragment list" where
  "pending board db = filter (\<lambda>f. evBoard f = board) (hFragments db)"

definition fragment_ok :: "hfragment \<Rightarrow> bool" where
  "fragment_ok f \<longleftrightarrow> evType f \<noteq> [] \<and> length (evType f) \<le> 200 \<and> (\<forall>c\<in>set (evChanges f). valid_change c)"

definition pending_ok :: "string \<Rightarrow> docs \<Rightarrow> hfragment list \<Rightarrow> docs \<Rightarrow> bool" where
  "pending_ok board d fs live \<longleftrightarrow> apply_all d (concat (map evChanges fs)) = Some live
     \<and> list_all fragment_ok fs"

definition hist_ok :: "string \<Rightarrow> timeline \<Rightarrow> hdb \<Rightarrow> docs \<Rightarrow> bool" where
  "hist_ok board S db live \<longleftrightarrow> timeline_ok board S db \<and>
     pending_ok board (S (hNextEvent db)) (pending board db) live"

text \<open>A later timeline: the past is as it was.\<close>

definition extends :: "nat \<Rightarrow> timeline \<Rightarrow> timeline \<Rightarrow> bool" where
  "extends n S S' \<longleftrightarrow> (\<forall>i<n. S' i = S i)"

definition timeline_set :: "timeline \<Rightarrow> nat \<Rightarrow> docs \<Rightarrow> timeline" where
  "timeline_set S n d i = (if i < n then S i else d)"

lemma extends_refl [simp]: "extends n S S"
  by (simp add: extends_def)

lemma extends_trans: "extends n S S' \<Longrightarrow> extends m S' S'' \<Longrightarrow> n \<le> m \<Longrightarrow> extends n S S''"
  by (simp add: extends_def)

lemma extends_set [simp]: "extends n S (timeline_set S n d)"
  by (simp add: extends_def timeline_set_def)

section \<open>Inserting\<close>

lemma getEvent_append:
  "getEvent board i (db\<lparr>hEvents := hEvents db @ [e], hNextEvent := n\<rparr>) =
     (case getEvent board i db of Some x \<Rightarrow> Some x
      | None \<Rightarrow> if evBoard e = board \<and> evId e = i then Some e else None)"
  by (simp add: getEvent_def find_append split: option.split)

lemma getEvent_bound: "tables_ok db \<Longrightarrow> getEvent board i db = Some e \<Longrightarrow> 0 < i \<and> i < hNextEvent db"
  by (auto simp: getEvent_def tables_ok_def ids_ok_def find_Some_iff)

lemma timeline_past_end:
  assumes "timeline_ok board S db" and "hNextEvent db \<le> Suc i"
  shows "S i = S (hNextEvent db - 1)"
  using assms(2)
proof (induction i)
  case 0
  with assms(1) show ?case by (simp add: timeline_ok_def tables_ok_def ids_ok_def)
next
  case (Suc i)
  show ?case
  proof (cases "hNextEvent db \<le> Suc i")
    case True
    from assms(1) True have "getEvent board (Suc i) db = None"
      using getEvent_bound [of db board "Suc i"]
      by (cases "getEvent board (Suc i) db") (auto simp: timeline_ok_def)
    with assms(1) have "S (Suc i) = S i"
      by (auto simp: timeline_ok_def timeline_step_def dest: spec [of _ i])
    with Suc True show ?thesis by simp
  next
    case False
    with Suc.prems show ?thesis by (metis Suc_leI diff_Suc_1 le_antisym not_less_eq_eq)
  qed
qed

lemma timeline_end: "timeline_ok board S db \<Longrightarrow> S (hNextEvent db) = S (hNextEvent db - 1)"
  by (rule timeline_past_end) simp_all

lemma insertEvent_Inr:
  "insertEvent board now inp db = Inr (db', e) \<longleftrightarrow>
     inType inp \<noteq> [] \<and> length (inType inp) \<le> 200 \<and> (\<forall>c\<in>set (inChanges inp). valid_change c) \<and>
     e = mk_event board now (hNextEvent db) inp \<and>
     db' = db\<lparr>hEvents := hEvents db @ [e], hNextEvent := Suc (hNextEvent db)\<rparr>"
  by (auto simp: insertEvent_def assertIdentifier_def res_simps Let_def)

lemma insertEvent_timeline:
  assumes ok: "timeline_ok board S db" and ins: "insertEvent board now inp db = Inr (db', e)"
    and d: "apply_all (S (hNextEvent db)) (inChanges inp) = Some d"
  shows "timeline_ok board (timeline_set S (hNextEvent db) d) db'"
proof -
  let ?n = "hNextEvent db" and ?S = "timeline_set S (hNextEvent db) d"
  from ins have e: "e = mk_event board now ?n inp"
    and db': "db' = db\<lparr>hEvents := hEvents db @ [e], hNextEvent := Suc ?n\<rparr>"
    and valid: "\<forall>c\<in>set (inChanges inp). valid_change c"
    by (simp_all add: insertEvent_Inr)
  have tab: "tables_ok db" using ok by (simp add: timeline_ok_def)
  have n0: "0 < ?n" using tab by (simp add: tables_ok_def ids_ok_def)
  have step: "timeline_step board ?S db' i" for i
  proof -
    have old: "timeline_step board S db i" using ok by (simp add: timeline_ok_def)
    consider "Suc i < ?n" | "Suc i = ?n" | "?n \<le> i" by linarith
    then show ?thesis
    proof cases
      case 1
      with old show ?thesis
        by (simp add: timeline_step_def db' getEvent_append e mk_event_def timeline_set_def
            split: option.splits)
    next
      case 2
      then have "getEvent board (Suc i) db = None"
        using getEvent_bound [OF tab, of board "Suc i"] by (cases "getEvent board (Suc i) db") auto
      moreover have "S i = S ?n" using timeline_end [OF ok] 2 by (metis diff_Suc_1)
      ultimately show ?thesis
        using d 2 by (simp add: timeline_step_def db' getEvent_append e mk_event_def timeline_set_def)
    next
      case 3
      then have "getEvent board (Suc i) db = None"
        using getEvent_bound [OF tab, of board "Suc i"] by (cases "getEvent board (Suc i) db") auto
      with 3 show ?thesis
        by (simp add: timeline_step_def db' getEvent_append e mk_event_def timeline_set_def)
    qed
  qed
  have "tables_ok db'" using tab ids_ok_snoc [of "map evId (hEvents db)" ?n]
    by (simp add: tables_ok_def db' e mk_event_def)
  moreover have "\<forall>x\<in>set (hEvents db'). evBoard x = board \<longrightarrow> (\<forall>c\<in>set (evChanges x). valid_change c)"
    using ok valid by (auto simp: timeline_ok_def db' e mk_event_def)
  moreover have "\<forall>c\<in>set (hCheckpoints db'). cpBoard c = board \<longrightarrow> checkpoint_ok ?S (hNextEvent db') c"
    using ok by (auto simp: timeline_ok_def db' checkpoint_ok_def timeline_set_def)
  ultimately show ?thesis using step by (simp add: timeline_ok_def)
qed

lemma insertCheckpoint_timeline:
  assumes "timeline_ok board S db" and "insertCheckpoint board now ci db = Inr (db', c)"
    and "wf_snap (ciSnap ci)" and "base_of c < hNextEvent db" and "snap_docs (ciSnap ci) = S (base_of c)"
  shows "timeline_ok board S db'"
proof -
  from assms(2) have c: "cpId c = hNextCheckpoint db" "cpSnap c = ciSnap ci"
    and db': "db' = db\<lparr>hCheckpoints := hCheckpoints db @ [c], hNextCheckpoint := Suc (hNextCheckpoint db)\<rparr>"
    by (auto simp: insertCheckpoint_def res_simps Let_def)
  have "tables_ok db'" using assms(1) ids_ok_snoc [of "map cpId (hCheckpoints db)" "hNextCheckpoint db"] c
    by (simp add: timeline_ok_def tables_ok_def db')
  with assms c show ?thesis
    by (auto simp: timeline_ok_def db' timeline_step_def getEvent_def checkpoint_ok_def)
qed

section \<open>Flushing\<close>

lemma concat_fragment_runs [simp]: "concat (fragment_runs fs) = fs"
  by (induction fs) (auto split: list.splits)

lemma fragment_runs_nonempty: "[] \<notin> set (fragment_runs fs)"
  by (induction fs) (auto split: list.splits)

text \<open>The rows a flushed group leaves behind.\<close>

lemma pending_delete_group:
  assumes "tables_ok db" and "pending board db = g @ rest" and "g \<noteq> []"
    and "hFragments db' = hFragments db" and "hNextFragment db' = hNextFragment db"
    and "tables_ok db'"
  defines "P \<equiv> \<lambda>f. \<not> (evBoard f = board \<and> evId (hd g) \<le> evId f \<and> evId f \<le> evId (last g))"
  shows "pending board (db'\<lparr>hFragments := filter P (hFragments db')\<rparr>) = rest"
    and "tables_ok (db'\<lparr>hFragments := filter P (hFragments db')\<rparr>)"
proof -
  have "ids_ok (map evId (filter (\<lambda>f. evBoard f = board) (hFragments db))) (hNextFragment db)"
    using assms(1) by (intro ids_ok_sub) (simp add: tables_ok_def)
  then have "sorted_wrt (<) (map evId (g @ rest))"
    using assms(2) by (simp only: pending_def ids_ok_def)
  from filter_key_prefix [OF this assms(3)]
  have "filter (\<lambda>f. \<not> (evId (hd g) \<le> evId f \<and> evId f \<le> evId (last g)))
      (filter (\<lambda>f. evBoard f = board) (hFragments db)) = rest"
    using assms(2) by (simp only: pending_def)
  moreover have "filter (\<lambda>f. evBoard f = board) (filter P (hFragments db)) =
      filter (\<lambda>f. \<not> (evId (hd g) \<le> evId f \<and> evId f \<le> evId (last g)))
        (filter (\<lambda>f. evBoard f = board) (hFragments db))"
    by (auto simp: P_def intro!: filter_cong)
  ultimately show "pending board (db'\<lparr>hFragments := filter P (hFragments db')\<rparr>) = rest"
    by (simp add: pending_def assms(4))
  show "tables_ok (db'\<lparr>hFragments := filter P (hFragments db')\<rparr>)"
    using assms(6) ids_ok_sub [of evId "hFragments db'" "hNextFragment db'" P]
    by (simp add: tables_ok_def)
qed

lemma timeline_ok_fragments:
  "timeline_ok board S db \<Longrightarrow> tables_ok (db\<lparr>hFragments := fs\<rparr>) \<Longrightarrow> timeline_ok board S (db\<lparr>hFragments := fs\<rparr>)"
  by (simp add: timeline_ok_def timeline_step_def getEvent_def)

lemma pending_ok_append:
  assumes "pending_ok board d (g @ rest) live"
  obtains d' where "apply_all d (mergeChanges (map evChanges g)) = Some d'"
    and "pending_ok board d' rest live" and "apply_all d (concat (map evChanges g)) = Some d'"
  using assms mergeChanges_applies(1) [of d "map evChanges g"]
  by (auto simp: pending_ok_def apply_all_append split: option.splits)

lemma flush_group_ok:
  assumes ok: "timeline_ok board S db" and pend: "pending board db = g @ rest" and g: "g \<noteq> []"
    and live: "pending_ok board (S (hNextEvent db)) (g @ rest) live"
    and fl: "flush_group board now g db = Inr (db', es)"
  shows "\<exists>S'. timeline_ok board S' db' \<and> pending board db' = rest
    \<and> pending_ok board (S' (hNextEvent db')) rest live
    \<and> extends (hNextEvent db) S S' \<and> hNextEvent db \<le> hNextEvent db'
    \<and> hCheckpoints db' = hCheckpoints db \<and> hEvents db' = hEvents db @ es"
proof -
  from live obtain d where d: "apply_all (S (hNextEvent db)) (mergeChanges (map evChanges g)) = Some d"
    and rest: "pending_ok board d rest live" by (rule pending_ok_append)
  have tab: "tables_ok db" using ok by (simp add: timeline_ok_def)
  let ?P = "\<lambda>f. \<not> (evBoard f = board \<and> evId (hd g) \<le> evId f \<and> evId f \<le> evId (last g))"
  show ?thesis
  proof (cases "inChanges (group_input g) \<noteq> [] \<or> inMeta (group_input g) \<noteq> []")
    case True
    with fl obtain db1 e where ins: "insertEvent board now (group_input g) db = Inr (db1, e)"
      and db': "db' = db1\<lparr>hFragments := filter ?P (hFragments db1)\<rparr>" "es = [e]"
      by (auto simp: flush_group_def res_simps)
    have "timeline_ok board (timeline_set S (hNextEvent db) d) db1"
      by (rule insertEvent_timeline [OF ok ins]) (simp add: group_input_def d)
    moreover from ins have "hFragments db1 = hFragments db" "hNextFragment db1 = hNextFragment db"
      "hNextEvent db1 = Suc (hNextEvent db)" "hCheckpoints db1 = hCheckpoints db"
      "hEvents db1 = hEvents db @ [e]"
      by (auto simp: insertEvent_Inr)
    ultimately show ?thesis
      using pending_delete_group [OF tab pend g, of db1] timeline_ok_fragments rest
      by (intro exI [of _ "timeline_set S (hNextEvent db) d"])
        (auto simp: db' timeline_ok_def timeline_set_def)
  next
    case False
    with fl have db': "db' = db\<lparr>hFragments := filter ?P (hFragments db)\<rparr>" "es = []"
      by (auto simp: flush_group_def res_simps)
    from False have "mergeChanges (map evChanges g) = []" by (simp add: group_input_def)
    with d have "d = S (hNextEvent db)" by simp
    with pending_delete_group [OF tab pend g refl refl tab] rest
      timeline_ok_fragments [OF ok, of "filter ?P (hFragments db)"]
    show ?thesis by (intro exI [of _ S]) (simp add: db')
  qed
qed

lemma flush_groups_ok:
  assumes "timeline_ok board S db" and "pending board db = concat gs" and "[] \<notin> set gs"
    and "pending_ok board (S (hNextEvent db)) (concat gs) live"
    and "flush_groups board now force gs db = Inr (db', es)"
  shows "\<exists>S'. hist_ok board S' db' live \<and> extends (hNextEvent db) S S'
    \<and> hNextEvent db \<le> hNextEvent db' \<and> (force \<longrightarrow> pending board db' = [])
    \<and> hCheckpoints db' = hCheckpoints db \<and> hEvents db' = hEvents db @ es"
  using assms
proof (induction gs arbitrary: S db es)
  case Nil
  then show ?case by (auto simp: hist_ok_def intro!: exI [of _ S])
next
  case (Cons g gs)
  show ?case
  proof (cases "\<not> force \<and> list_ex (\<lambda>f. frFlushAfter f > now) g")
    case True
    with Cons.prems show ?thesis by (intro exI [of _ S]) (auto simp: hist_ok_def)
  next
    case False
    with Cons.prems(5) obtain db1 es1 es2 where
      fl: "flush_group board now g db = Inr (db1, es1)"
        "flush_groups board now force gs db1 = Inr (db', es2)" "es = es1 @ es2"
      by (auto simp: res_simps)
    from flush_group_ok [OF Cons.prems(1) _ _ _ fl(1), of "concat gs" live] Cons.prems(2-4)
    obtain S1 where S1: "timeline_ok board S1 db1" "pending board db1 = concat gs"
      "pending_ok board (S1 (hNextEvent db1)) (concat gs) live" "extends (hNextEvent db) S S1"
      "hNextEvent db \<le> hNextEvent db1" "hCheckpoints db1 = hCheckpoints db" "hEvents db1 = hEvents db @ es1"
      by auto
    from Cons.IH [OF S1(1,2) _ S1(3) fl(2)] Cons.prems(3)
    obtain S' where "hist_ok board S' db' live" "extends (hNextEvent db1) S1 S'"
      "hNextEvent db1 \<le> hNextEvent db'" "force \<longrightarrow> pending board db' = []"
      "hCheckpoints db' = hCheckpoints db1" "hEvents db' = hEvents db1 @ es2" by auto
    with S1 fl(3) show ?thesis
      by (intro exI [of _ S']) (auto intro: extends_trans [OF S1(4)])
  qed
qed

lemma flushFragments_ok:
  assumes "hist_ok board S db live" and "flushFragments board now force db = Inr (db', es)"
  shows "\<exists>S'. hist_ok board S' db' live \<and> extends (hNextEvent db) S S'
    \<and> hNextEvent db \<le> hNextEvent db' \<and> (force \<longrightarrow> pending board db' = [])
    \<and> hCheckpoints db' = hCheckpoints db \<and> hEvents db' = hEvents db @ es"
  using assms flush_groups_ok [of board S db "fragment_runs (pending board db)" live now force db' es]
    fragment_runs_nonempty
  by (simp add: hist_ok_def flushFragments_def pending_def)

text \<open>A consistent store can always be flushed.\<close>

lemma flush_group_total:
  assumes "list_all fragment_ok g" and "g \<noteq> []"
  shows "\<exists>db' es. flush_group board now g db = Inr (db', es)"
proof -
  have "\<forall>c\<in>set (mergeChanges (map evChanges g)). valid_change c"
    using assms(1) by (intro mergeChanges_valid) (auto simp: list_all_iff fragment_ok_def)
  moreover have "fragment_ok (hd g)" using assms by (cases g) simp_all
  ultimately have "\<exists>db' e. insertEvent board now (group_input g) db = Inr (db', e)"
    by (simp add: insertEvent_Inr group_input_def fragment_ok_def)
  then show ?thesis by (auto simp: flush_group_def)
qed

lemma flush_groups_total:
  assumes "\<forall>g\<in>set gs. list_all fragment_ok g \<and> g \<noteq> []"
  shows "\<exists>db' es. flush_groups board now force gs db = Inr (db', es)"
  using assms
proof (induction gs arbitrary: db)
  case Nil
  then show ?case by simp
next
  case (Cons g gs)
  obtain db1 es1 where "flush_group board now g db = Inr (db1, es1)"
    using flush_group_total [of g board now db] Cons.prems by auto
  moreover obtain db2 es2 where "flush_groups board now force gs db1 = Inr (db2, es2)"
    using Cons.IH [of db1] Cons.prems by auto
  ultimately show ?case by simp
qed

lemma flushFragments_total:
  assumes "hist_ok board S db live"
  shows "\<exists>db' es. flushFragments board now force db = Inr (db', es)"
  unfolding flushFragments_def
proof (rule flush_groups_total, intro ballI conjI)
  fix g assume g: "g \<in> set (fragment_runs (filter (\<lambda>f. evBoard f = board) (hFragments db)))"
  then show "g \<noteq> []" using fragment_runs_nonempty by metis
  have "set g \<subseteq> set (concat (fragment_runs (pending board db)))"
    using g by (auto simp: pending_def simp del: concat_fragment_runs)
  with assms show "list_all fragment_ok g" by (auto simp: hist_ok_def pending_ok_def list_all_iff)
qed

section \<open>Appending\<close>

lemma appendFragment_ok:
  assumes ok: "hist_ok board S db live" and app: "appendFragment board now inp key fa db = Inr (db', f)"
    and new: "apply_all live (inChanges inp) = Some live'"
  shows "hist_ok board S db' live'" and "hEvents db' = hEvents db" and "hNextEvent db' = hNextEvent db"
    and "hCheckpoints db' = hCheckpoints db"
proof -
  from app have f: "evId f = hNextFragment db" "evBoard f = board" "evChanges f = inChanges inp"
      "evType f = inType inp" "fragment_ok f"
    and db': "db' = db\<lparr>hFragments := hFragments db @ [f], hNextFragment := Suc (hNextFragment db)\<rparr>"
    by (auto simp: appendFragment_def assertIdentifier_def res_simps Let_def mk_event_def
        hevent.defs fragment_ok_def)
  have "tables_ok db'"
    using ok ids_ok_snoc [of "map evId (hFragments db)" "hNextFragment db"]
    by (simp add: hist_ok_def timeline_ok_def tables_ok_def db' f)
  moreover have "pending board db' = pending board db @ [f]" by (simp add: pending_def db' f)
  ultimately show "hist_ok board S db' live'"
    using ok new f
    by (auto simp: hist_ok_def timeline_ok_def timeline_step_def getEvent_def db' pending_ok_def
        apply_all_append)
  show "hEvents db' = hEvents db" "hNextEvent db' = hNextEvent db" "hCheckpoints db' = hCheckpoints db"
    by (simp_all add: db')
qed

lemma insertEvent_ok:
  assumes "hist_ok board S db live" and "pending board db = []"
    and ins: "insertEvent board now inp db = Inr (db', e)"
    and "apply_all live (inChanges inp) = Some live'"
  shows "\<exists>S'. hist_ok board S' db' live' \<and> extends (hNextEvent db) S S' \<and> S' (evId e) = live'
    \<and> pending board db' = [] \<and> evId e < hNextEvent db' \<and> hNextEvent db \<le> hNextEvent db'
    \<and> hEvents db' = hEvents db @ [e] \<and> hCheckpoints db' = hCheckpoints db"
proof (intro exI conjI)
  let ?S = "timeline_set S (hNextEvent db) live'"
  from assms have "S (hNextEvent db) = live" by (simp add: hist_ok_def pending_ok_def)
  with assms have "timeline_ok board ?S db'"
    by (intro insertEvent_timeline [OF _ ins]) (simp_all add: hist_ok_def)
  moreover from ins assms(2) show "pending board db' = []"
    by (auto simp: insertEvent_Inr pending_def)
  ultimately show "hist_ok board ?S db' live'"
    using ins by (simp add: hist_ok_def pending_ok_def insertEvent_Inr timeline_set_def)
  show "extends (hNextEvent db) S ?S" by simp
  from ins show "?S (evId e) = live'" "evId e < hNextEvent db'" "hNextEvent db \<le> hNextEvent db'"
      "hEvents db' = hEvents db @ [e]" "hCheckpoints db' = hCheckpoints db"
    by (auto simp: insertEvent_Inr timeline_set_def mk_event_def)
qed

lemma appendEvent_ok:
  assumes "hist_ok board S db live" and "appendEvent board now inp db = Inr (db', e)"
    and "apply_all live (inChanges inp) = Some live'"
  shows "\<exists>S'. hist_ok board S' db' live' \<and> extends (hNextEvent db) S S' \<and> S' (evId e) = live'
    \<and> pending board db' = [] \<and> evId e < hNextEvent db' \<and> hNextEvent db \<le> hNextEvent db'
    \<and> hCheckpoints db' = hCheckpoints db"
proof -
  from assms(2) obtain db1 es where fl: "flushFragments board now True db = Inr (db1, es)"
    and ins: "insertEvent board now inp db1 = Inr (db', e)"
    by (auto simp: appendEvent_def res_simps)
  from flushFragments_ok [OF assms(1) fl] obtain S1 where S1: "hist_ok board S1 db1 live"
    "extends (hNextEvent db) S S1" "hNextEvent db \<le> hNextEvent db1" "pending board db1 = []"
    "hCheckpoints db1 = hCheckpoints db"
    by auto
  from insertEvent_ok [OF S1(1,4) ins assms(3)] obtain S2 where S2: "hist_ok board S2 db' live'"
    "extends (hNextEvent db1) S1 S2" "S2 (evId e) = live'" "pending board db' = []"
    "evId e < hNextEvent db'" "hNextEvent db1 \<le> hNextEvent db'" "hCheckpoints db' = hCheckpoints db1"
    by auto
  show ?thesis
    using S1 S2 extends_trans [OF S1(2) S2(2) S1(3)] by (intro exI [of _ S2]) simp
qed

text \<open>A checkpoint of the live board, based on the newest event (or on none).\<close>

lemma latestEventId_last:
  "latestEventId board db = (let es = filter (\<lambda>e. evBoard e = board) (hEvents db)
     in if es = [] then None else Some (evId (last es)))"
  by (auto simp: latestEventId_def Let_def split: list.split)

lemma latestEventId_bound:
  assumes "timeline_ok board S db"
  shows "S (the_or 0 (latestEventId board db)) = S (hNextEvent db)"
    and "the_or 0 (latestEventId board db) < hNextEvent db"
proof -
  let ?m = "the_or 0 (latestEventId board db)"
  let ?es = "filter (\<lambda>e. evBoard e = board) (hEvents db)"
  have ids: "ids_ok (map evId ?es) (hNextEvent db)"
    using assms by (intro ids_ok_sub) (simp add: timeline_ok_def tables_ok_def)
  have le: "evId e \<le> ?m" if "e \<in> set ?es" for e
  proof -
    from that have "?es \<noteq> []" by (metis empty_iff list.set(1))
    then obtain xs x where xs: "?es = xs @ [x]" by (metis rev_exhaust)
    with that ids have "evId e \<le> evId x" by (auto simp: ids_ok_def sorted_wrt_append)
    with xs show ?thesis by (simp add: latestEventId_last)
  qed
  show "?m < hNextEvent db"
  proof (cases "?es = []")
    case True
    with ids show ?thesis by (simp add: latestEventId_last ids_ok_def)
  next
    case False
    with last_in_set [OF False] ids show ?thesis
      by (simp add: latestEventId_last ids_ok_def del: last_in_set)
  qed
  have "S (?m + k) = S ?m" for k
  proof (induction k)
    case (Suc k)
    have "getEvent board (Suc (?m + k)) db = None"
      using le by (auto simp: getEvent_def find_None_iff) (metis Suc_n_not_le_n le_add1 order_trans)
    with assms Suc show ?case
      by (auto simp: timeline_ok_def timeline_step_def dest: spec [of _ "?m + k"])
  qed simp
  from this [of "hNextEvent db - ?m"] \<open>?m < hNextEvent db\<close>
  show "S ?m = S (hNextEvent db)" by simp
qed

lemma insertCheckpoint_live:
  assumes "hist_ok board S db live" and "pending board db = []"
    and "insertCheckpoint board now ci db = Inr (db', c)" and "wf_snap (ciSnap ci)"
    and "snap_docs (ciSnap ci) = live"
    and "ciBase ci = None \<or> (\<exists>b. ciBase ci = Some b \<and> S (the_or 0 b) = live \<and> the_or 0 b < hNextEvent db)"
  shows "hist_ok board S db' live" and "pending board db' = []"
    and "hEvents db' = hEvents db" and "hNextEvent db' = hNextEvent db"
    and "hCheckpoints db' = hCheckpoints db @ [c]" and "cpBoard c = board"
proof -
  from assms(3) have c: "base_of c = the_or 0 (case ciBase ci of None \<Rightarrow> latestEventId board db | Some b \<Rightarrow> b)"
    and db': "db' = db\<lparr>hCheckpoints := hCheckpoints db @ [c], hNextCheckpoint := Suc (hNextCheckpoint db)\<rparr>"
      "cpBoard c = board"
    by (auto simp: insertCheckpoint_def res_simps Let_def base_of_def)
  have live: "S (hNextEvent db) = live" and tl: "timeline_ok board S db"
    using assms(1,2) by (simp_all add: hist_ok_def pending_ok_def)
  have "base_of c < hNextEvent db \<and> S (base_of c) = live"
    using assms(6) latestEventId_bound [OF tl] live c by (auto split: option.splits)
  with insertCheckpoint_timeline [OF tl assms(3,4)] assms(5) have "timeline_ok board S db'" by simp
  moreover show "pending board db' = []" using assms(2) by (simp add: db' pending_def)
  ultimately show "hist_ok board S db' live" using live by (simp add: hist_ok_def db' pending_ok_def)
  show "hEvents db' = hEvents db" "hNextEvent db' = hNextEvent db"
    "hCheckpoints db' = hCheckpoints db @ [c]" "cpBoard c = board"
    by (simp_all add: db')
qed

end
