(* ===== verification/HistoryReconstruct.thy ===== *)
theory HistoryReconstruct
  imports HistoryTimeline
begin

text \<open>
  Reconstruction reads the timeline: the checkpoint that \<open>reconstruct\<close> picks and the events it
  replays always lead to the board after the target event, whichever checkpoint it is, and the
  divergence error of the replay cannot occur in a consistent store.
\<close>

section \<open>The events between two points of the timeline\<close>

lemma filter_key_le_Suc:
  fixes f :: "'a \<Rightarrow> nat"
  assumes "sorted_wrt (<) (map f xs)" and "lo \<le> hi"
  shows "filter (\<lambda>x. P x \<and> lo < f x \<and> f x \<le> Suc hi) xs =
    filter (\<lambda>x. P x \<and> lo < f x \<and> f x \<le> hi) xs @
      (case find (\<lambda>x. P x \<and> f x = Suc hi) xs of None \<Rightarrow> [] | Some x \<Rightarrow> [x])"
  using assms
proof (induction xs)
  case Nil
  show ?case by simp
next
  case (Cons x xs)
  have later: "\<And>y. y \<in> set xs \<Longrightarrow> f x < f y" using Cons.prems(1) by simp
  show ?case
  proof (cases "P x \<and> f x = Suc hi")
    case True
    then have "filter (\<lambda>x. P x \<and> lo < f x \<and> f x \<le> Suc hi) xs = []"
      "filter (\<lambda>x. P x \<and> lo < f x \<and> f x \<le> hi) xs = []"
      using later by (force simp: filter_empty_conv)+
    with True Cons.prems(2) show ?thesis by simp
  next
    case False
    with Cons show ?thesis by (auto simp: le_Suc_eq)
  qed
qed

lemma events_between_Suc:
  assumes "tables_ok db" and "lo \<le> hi"
  shows "events_between board lo (Suc hi) db = events_between board lo hi db @
    (case getEvent board (Suc hi) db of None \<Rightarrow> [] | Some e \<Rightarrow> [e])"
  using filter_key_le_Suc [of evId "hEvents db" lo hi "\<lambda>e. evBoard e = board"] assms
  by (simp add: events_between_def getEvent_def tables_ok_def ids_ok_def)

lemma events_between_apply:
  assumes "timeline_ok board S db" and "lo \<le> hi"
  shows "apply_all (S lo) (concat (map evChanges (events_between board lo hi db))) = Some (S hi)"
  using assms(2)
proof (induction hi)
  case 0
  then have "events_between board lo 0 db = []" by (auto simp: events_between_def filter_empty_conv)
  with 0 show ?case by simp
next
  case (Suc hi)
  have tab: "tables_ok db" and step: "timeline_step board S db hi"
    using assms(1) by (simp_all add: timeline_ok_def)
  show ?case
  proof (cases "lo \<le> hi")
    case True
    with Suc.IH step show ?thesis
      by (simp add: events_between_Suc [OF tab True] apply_all_append timeline_step_def split: option.splits)
  next
    case False
    with Suc.prems have "lo = Suc hi" by simp
    then have "events_between board lo (Suc hi) db = []" by (auto simp: events_between_def)
    with \<open>lo = Suc hi\<close> show ?thesis by simp
  qed
qed

section \<open>The checkpoint a target starts from\<close>

lemma newest_base_snoc:
  "newest_base (cs @ [c]) = (case newest_base cs of None \<Rightarrow> Some c
     | Some b \<Rightarrow> if base_key b \<le> base_key c then Some c else Some b)"
  by (simp add: newest_base_def)

lemma newest_base_None [simp]: "newest_base cs = None \<longleftrightarrow> cs = []"
proof (cases cs rule: rev_cases)
  case (snoc ds d)
  then show ?thesis by (simp add: newest_base_snoc split: option.split)
qed (simp add: newest_base_def)

lemma newest_base_mem:
  "newest_base cs = Some c \<Longrightarrow> c \<in> set cs \<and> (\<forall>d\<in>set cs. base_key d \<le> base_key c)"
proof (induction cs arbitrary: c rule: rev_induct)
  case Nil
  then show ?case by (simp add: newest_base_def)
next
  case (snoc d ds)
  then show ?case
    by (cases "newest_base ds") (fastforce simp: newest_base_snoc split: if_splits)+
qed

text \<open>Every board opened by a room has a checkpoint at or before each of its events.\<close>

definition origin_ok :: "string \<Rightarrow> hdb \<Rightarrow> bool" where
  "origin_ok board db \<longleftrightarrow> (\<exists>c\<in>set (hCheckpoints db). cpBoard c = board \<and>
     (\<forall>e\<in>set (hEvents db). evBoard e = board \<longrightarrow> base_of c \<le> evId e))"

lemma base_of_key: "opt_holds (\<lambda>b. b \<le> i) (cpBase c) \<longleftrightarrow> base_of c \<le> i"
  by (auto simp: opt_holds_def base_of_def split: option.splits)

lemma chosen_from_timeline:
  assumes "timeline_ok board S db" and "c \<in> set (hCheckpoints db)" and "cpBoard c = board" and "base_of c \<le> i"
  shows "\<exists>snap. applyHistoryEvents (cpSnap c) (events_between board (base_of c) i db) = Inr snap
    \<and> wf_snap snap \<and> snap_docs snap = S i"
proof (rule applyHistoryEvents_Some)
  from assms have "checkpoint_ok S (hNextEvent db) c" by (simp add: timeline_ok_def)
  then show "wf_snap (cpSnap c)" by (simp add: checkpoint_ok_def)
  show "\<forall>e\<in>set (events_between board (base_of c) i db). \<forall>c\<in>set (evChanges e). valid_change c"
    using assms(1) by (auto simp: timeline_ok_def events_between_def)
  from \<open>checkpoint_ok S (hNextEvent db) c\<close> events_between_apply [OF assms(1,4)]
  show "apply_all (snap_docs (cpSnap c)) (concat (map evChanges (events_between board (base_of c) i db))) = Some (S i)"
    by (simp add: checkpoint_ok_def)
qed

section \<open>Reconstruction is the timeline\<close>

lemma reconstruct_at:
  assumes tl: "timeline_ok board S db" and org: "origin_ok board db"
    and ev: "getEvent board i db = Some e"
    and t: "resolveTargetEventId board t db = Inr (Some i)" "\<And>j. t \<noteq> ByCheckpoint j"
  shows "\<exists>r. reconstruct board t db = Inr r \<and> wf_snap (reSnap r) \<and> snap_docs (reSnap r) = S i
    \<and> reTargetEvent r = Some i"
proof -
  let ?cs = "filter (\<lambda>c. opt_holds (\<lambda>b. b \<le> i) (cpBase c)) (filter (\<lambda>c. cpBoard c = board) (hCheckpoints db))"
  from ev have e: "e \<in> set (hEvents db)" "evBoard e = board" "evId e = i"
    by (auto simp: getEvent_def find_Some_iff)
  with org obtain c0 where "c0 \<in> set ?cs" by (auto simp: origin_ok_def base_of_key)
  then obtain c where c: "newest_base ?cs = Some c"
    by (metis empty_iff empty_set newest_base_None not_None_eq)
  with newest_base_mem have "c \<in> set ?cs" by blast
  then have "c \<in> set (hCheckpoints db)" "cpBoard c = board" "base_of c \<le> i"
    by (auto simp: base_of_key)
  from chosen_from_timeline [OF tl this] obtain snap where
    "applyHistoryEvents (cpSnap c) (events_between board (base_of c) i db) = Inr snap"
    "wf_snap snap" "snap_docs snap = S i" by blast
  moreover from t(2) c have "choose_checkpoint board t (Some i) db = Some c"
    unfolding choose_checkpoint_def by (cases t) (auto simp del: filter_filter)
  ultimately show ?thesis using t(1) by (simp add: reconstruct_def)
qed

lemma reconstruct_event:
  assumes "timeline_ok board S db" and "origin_ok board db" and "getEvent board i db = Some e"
  shows "\<exists>r. reconstruct board (ByEvent i) db = Inr r \<and> wf_snap (reSnap r) \<and> snap_docs (reSnap r) = S i"
  using reconstruct_at [OF assms, of "ByEvent i"] assms(3) by (auto simp: resolveTargetEventId_def)

lemma reconstruct_time:
  assumes "timeline_ok board S db" and "origin_ok board db"
    and "filter (\<lambda>e. evBoard e = board \<and> evAt e \<le> t) (hEvents db) = es @ [e]"
  shows "\<exists>r. reconstruct board (ByTime t) db = Inr r \<and> wf_snap (reSnap r) \<and> snap_docs (reSnap r) = S (evId e)"
proof -
  have e: "e \<in> set (hEvents db)" "evBoard e = board"
    using arg_cong [OF assms(3), of set] by auto
  have "inj_on evId (set (hEvents db))"
    using assms(1) by (auto simp: timeline_ok_def tables_ok_def intro: ids_ok_inj)
  with e have "getEvent board (evId e) db = Some e"
    by (auto simp: getEvent_def inj_on_def intro!: find_unique)
  moreover have "resolveTargetEventId board (ByTime t) db = Inr (Some (evId e))"
    using assms(3) by (cases es) (simp_all add: resolveTargetEventId_def)
  ultimately show ?thesis using reconstruct_at [OF assms(1,2), of "evId e" e "ByTime t"] by auto
qed

lemma reconstruct_checkpoint:
  assumes tl: "timeline_ok board S db" and c: "getCheckpoint board k db = Some c"
  shows "\<exists>r. reconstruct board (ByCheckpoint k) db = Inr r \<and> snap_docs (reSnap r) = snap_docs (cpSnap c)"
proof -
  from c have mem: "c \<in> set (hCheckpoints db)" "cpBoard c = board" and
    find: "find (\<lambda>c. cpId c = k) (filter (\<lambda>c. cpBoard c = board) (hCheckpoints db)) = Some c"
    by (auto simp: getCheckpoint_def find_Some_iff find_filter)
  let ?es = "case cpBase c of None \<Rightarrow> [] | Some e \<Rightarrow> events_between board (base_of c) e db"
  have "?es = events_between board (base_of c) (base_of c) db"
    by (auto simp: base_of_def events_between_def split: option.splits)
  with chosen_from_timeline [OF tl mem, of "base_of c"] obtain snap where
    "applyHistoryEvents (cpSnap c) ?es = Inr snap" "snap_docs snap = S (base_of c)" by auto
  moreover have "snap_docs (cpSnap c) = S (base_of c)"
    using tl mem by (auto simp: timeline_ok_def checkpoint_ok_def)
  ultimately show ?thesis
    using c find by (simp add: reconstruct_def resolveTargetEventId_def choose_checkpoint_def)
qed

end
