(* ===== verification/HistoryRecorder.thy ===== *)
theory HistoryRecorder
  imports HistoryReconstruct "HOL-Library.Char_ord" "HOL-Library.List_Lexorder"
begin

text \<open>
  \<open>BoardHistoryRecorder\<close> (\<open>server/history.ts\<close>), \<open>HistorySyncStorage\<close> (\<open>server/history-storage.ts\<close>) and
  the history operations of a room (\<open>server/rooms.ts\<close>): recording a transaction of the canvas as a
  fragment or an event, periodic and explicit checkpoints, and restoring a version. The tldraw
  storage is its snapshot \<open>hrLive\<close>; a transaction callback and \<open>loadSnapshotIntoStorage\<close>, which are
  tldraw's, are arguments.
\<close>

section \<open>State\<close>

record rconfig =
  cfCoalesceMs :: int
  cfEvery :: int
  cfEveryMs :: int

definition default_config :: rconfig where
  "default_config = \<lparr>cfCoalesceMs = 900, cfEvery = 50, cfEveryMs = 15 * 60000\<rparr>"

record recorder =
  rcTimer :: "int option"
  rcEventsAt :: nat
  rcLastAt :: int

record hcontext =
  cxActor :: "string option"
  cxName :: string
  cxSession :: "string option"
  cxSource :: history_source
  cxType :: "string option"
  cxMeta :: "(string \<times> json) list"
  cxImmediate :: bool
  cxSuppress :: bool

record hroom =
  hrDb :: hdb
  hrRec :: recorder
  hrLive :: snapshot
  hrContext :: "hcontext option"

section \<open>The recorder\<close>

type_synonym 'a recorded = "(hdb \<times> recorder) \<times> (hist_error + 'a)"

definition set_timer :: "int option \<Rightarrow> hdb \<times> recorder \<Rightarrow> hdb \<times> recorder" where
  "set_timer t dr = (fst dr, (snd dr)\<lparr>rcTimer := t\<rparr>)"

definition maybeCheckpoint ::
    "string \<Rightarrow> rconfig \<Rightarrow> int \<Rightarrow> snapshot \<Rightarrow> hdb \<times> recorder \<Rightarrow> unit recorded" where
  "maybeCheckpoint board cfg now live dr =
     (let latest = the_or 0 (latestEventId board (fst dr)) in
      if int latest - int (rcEventsAt (snd dr)) < cfEvery cfg \<and> now - rcLastAt (snd dr) < cfEveryMs cfg
      then (dr, Inr ())
      else bindS (onDb (createCheckpoint board now
             \<lparr>ciSnap = live, ciBy = None, ciAt = Some now,
              ciBase = Some (if latest = 0 then None else Some latest),
              ciLabel = None, ciReason = ''periodic''\<rparr>) dr)
           (\<lambda>_ (db, rc). ((db, rc\<lparr>rcEventsAt := latest, rcLastAt := now\<rparr>), Inr ())))"

definition recorder_flush ::
    "string \<Rightarrow> rconfig \<Rightarrow> int \<Rightarrow> snapshot \<Rightarrow> hdb \<times> recorder \<Rightarrow> hevent list recorded" where
  "recorder_flush board cfg now live dr =
     bindS (onDb (flushFragments board now True) (set_timer None dr)) (\<lambda>es dr'.
       if es = [] then (dr', Inr es)
       else bindS (maybeCheckpoint board cfg now live dr') (\<lambda>_ dr''. (dr'', Inr es)))"

definition recordHumanFragment ::
    "string \<Rightarrow> rconfig \<Rightarrow> int \<Rightarrow> hinput \<Rightarrow> string option \<Rightarrow> hdb \<times> recorder \<Rightarrow> hfragment recorded" where
  "recordHumanFragment board cfg now inp key dr =
     (let createdAt = the_or now (inAt inp) in
      bindS (onDb (appendFragment board now (inp\<lparr>inSource := Human, inAt := Some createdAt\<rparr>) key
               (Some (createdAt + cfCoalesceMs cfg))) dr)
        (\<lambda>f dr'. (set_timer (Some (now + cfCoalesceMs cfg)) dr', Inr f)))"

definition recordHumanCommittedDiff ::
    "string \<Rightarrow> rconfig \<Rightarrow> int \<Rightarrow> hinput \<Rightarrow> string option \<Rightarrow> forward_diff \<Rightarrow> snapshot \<Rightarrow> hdb \<times> recorder
       \<Rightarrow> hfragment recorded" where
  "recordHumanCommittedDiff board cfg now inp key diff before dr =
     bindS (dr, changesFromForwardDiff diff before)
       (\<lambda>cs. recordHumanFragment board cfg now (inp\<lparr>inChanges := cs\<rparr>) key)"

definition recordSynchronousEvent ::
    "string \<Rightarrow> rconfig \<Rightarrow> int \<Rightarrow> snapshot \<Rightarrow> hinput \<Rightarrow> hdb \<times> recorder \<Rightarrow> hevent recorded" where
  "recordSynchronousEvent board cfg now live inp dr =
     bindS (onDb (flushFragments board now True) (set_timer None dr)) (\<lambda>_ dr1.
     bindS (onDb (appendEvent board now inp) dr1) (\<lambda>e dr2.
     bindS (maybeCheckpoint board cfg now live dr2) (\<lambda>_ dr3. (dr3, Inr e))))"

definition recorder_new ::
    "string \<Rightarrow> int \<Rightarrow> bool \<Rightarrow> snapshot \<Rightarrow> hdb \<Rightarrow> hdb \<times> (hist_error + recorder)" where
  "recorder_new board now initializeLegacy live db =
     (case bindS (onDb (flushFragments board now True) (db, ())) (\<lambda>_ d.
           if initializeLegacy then bindS (onDb (ensureLegacyImportCheckpoint board now live) d) (\<lambda>_ d'. (d', Inr ()))
           else (d, Inr ())) of
        (d, Inl e) \<Rightarrow> (fst d, Inl e)
      | (d, Inr _) \<Rightarrow> (fst d, Inr
          \<lparr>rcTimer = None, rcEventsAt = the_or 0 (latestEventId board (fst d)),
           rcLastAt = (case listCheckpoints board 1 (fst d) of [] \<Rightarrow> now | c # _ \<Rightarrow> cpAt c)\<rparr>))"

text \<open>The history part of opening a room: \<open>getRoomHandle\<close> of \<open>server/rooms.ts\<close>.\<close>

definition open_room :: "string \<Rightarrow> int \<Rightarrow> snapshot \<Rightarrow> hdb \<Rightarrow> hdb \<times> (hist_error + recorder)" where
  "open_room board now live db =
     (case recorder_new board now False live db of
        (d, Inl e) \<Rightarrow> (d, Inl e)
      | (d, Inr rc) \<Rightarrow> (case ensureLegacyImportCheckpoint board now live d of
            Inl e \<Rightarrow> (d, Inl e) | Inr (d', _) \<Rightarrow> (d', Inr rc)))"

section \<open>Classifying a change\<close>

definition isEntityChange :: "change \<Rightarrow> bool" where
  "isEntityChange c =
     ((case chBefore c of Some b \<Rightarrow> Some (recType b)
        | None \<Rightarrow> (case chAfter c of Some a \<Rightarrow> Some (recType a) | None \<Rightarrow> None))
      = Some ''engineering_entity'')"

definition is_move :: "change \<Rightarrow> bool" where
  "is_move c = (case (chBefore c, chAfter c) of
       (Some b, Some a) \<Rightarrow> recType b = ''shape'' \<and> recType a = ''shape'' \<and>
         (recX b \<noteq> recX a \<or> recY b \<noteq> recY a) \<and> recId b = recId a \<and> recRest b = recRest a
     | _ \<Rightarrow> False)"

definition eventTypeForChanges :: "change list \<Rightarrow> string" where
  "eventTypeForChanges cs =
     (let allEntities = (cs \<noteq> [] \<and> list_all isEntityChange cs) in
      if cs \<noteq> [] \<and> list_all (\<lambda>c. chBefore c = None) cs
      then (if allEntities then ''entity.created'' else ''object.created'')
      else if cs \<noteq> [] \<and> list_all (\<lambda>c. chAfter c = None) cs
      then (if allEntities then ''entity.deleted'' else ''object.deleted'')
      else if allEntities then ''entity.updated''
      else if cs \<noteq> [] \<and> list_all is_move cs then ''object.moved''
      else ''object.edited'')"

section \<open>The storage boundary\<close>

definition getClock :: "snapshot \<Rightarrow> int" where
  "getClock s = the_or 0 (snapDocClock s)"

fun join_with :: "string \<Rightarrow> string list \<Rightarrow> string" where
  "join_with sep [] = []"
| "join_with sep [x] = x"
| "join_with sep (x # xs) = x @ sep @ join_with sep xs"

definition records_input :: "hcontext \<Rightarrow> change list \<Rightarrow> int \<Rightarrow> hinput" where
  "records_input cx cs clock =
     \<lparr>inActor = cxActor cx, inSession = cxSession cx,
      inType = the_or (eventTypeForChanges cs) (cxType cx),
      inEntityType = Some ''records'',
      inEntityId = (case cs of [c] \<Rightarrow> Some (chId c) | _ \<Rightarrow> None),
      inSource = cxSource cx, inAt = None,
      inMeta = map_of_entries ((''actorDisplayName'', JStr (cxName cx)) # cxMeta cx),
      inChanges = cs, inClock = Some clock\<rparr>"

definition record_changes ::
    "string \<Rightarrow> rconfig \<Rightarrow> int \<Rightarrow> hcontext \<Rightarrow> snapshot \<Rightarrow> snapshot \<Rightarrow> hdb \<times> recorder \<Rightarrow> unit recorded" where
  "record_changes board cfg now cx before after dr =
     bindS (dr, changesBetweenSnapshots before after) (\<lambda>cs dr.
     (let inp = records_input cx cs (getClock after) in
      if cxSource cx = Human \<and> \<not> cxImmediate cx
      then bindS (recordHumanFragment board cfg now inp
                    (Some (join_with '','' (sort (map chId cs)))) dr) (\<lambda>_ dr'. (dr', Inr ()))
      else bindS (recordSynchronousEvent board cfg now after inp dr) (\<lambda>_ dr'. (dr', Inr ()))))"

text \<open>
  \<open>transaction\<close>: the callback runs on the database and the live snapshot; what it throws, and what
  recording throws, rolls both back. The context is consumed either way.
\<close>

definition storage_transaction ::
    "string \<Rightarrow> rconfig \<Rightarrow> int \<Rightarrow> (hdb \<times> snapshot \<Rightarrow> hist_error + ((hdb \<times> snapshot) \<times> 'a)) \<Rightarrow> hroom
       \<Rightarrow> hroom \<times> (hist_error + ('a \<times> int))" where
  "storage_transaction board cfg now f r =
     (case f (hrDb r, hrLive r) of
        Inl e \<Rightarrow> (r\<lparr>hrContext := None\<rparr>, Inl e)
      | Inr ((db, live), a) \<Rightarrow>
        (case (case hrContext r of
            Some cx \<Rightarrow> (if \<not> cxSuppress cx \<and> getClock live > getClock (hrLive r)
                       then record_changes board cfg now cx (hrLive r) live (db, hrRec r)
                       else ((db, hrRec r), Inr ()))
          | None \<Rightarrow> ((db, hrRec r), Inr ())) of
          ((_, rc), Inl e) \<Rightarrow> (r\<lparr>hrRec := rc, hrContext := None\<rparr>, Inl e)
        | ((db', rc), Inr _) \<Rightarrow>
            (r\<lparr>hrDb := db', hrRec := rc, hrLive := live, hrContext := None\<rparr>, Inr (a, getClock live))))"

section \<open>Room operations\<close>

definition with_dr :: "hroom \<Rightarrow> 'a recorded \<Rightarrow> hroom \<times> (hist_error + 'a)" where
  "with_dr r m = (case m of ((db, rc), x) \<Rightarrow> (r\<lparr>hrDb := db, hrRec := rc\<rparr>, x))"

definition appendRoomEvent ::
    "string \<Rightarrow> rconfig \<Rightarrow> int \<Rightarrow> hinput \<Rightarrow> hroom \<Rightarrow> hroom \<times> (hist_error + hevent)" where
  "appendRoomEvent board cfg now inp r =
     with_dr r (recordSynchronousEvent board cfg now (hrLive r) inp (hrDb r, hrRec r))"

record room_actor =
  raUser :: string
  raName :: string
  raActor :: "string option"
  raSource :: "history_source option"

definition actor_id :: "room_actor \<Rightarrow> string" where
  "actor_id a = the_or (''user:'' @ raUser a) (raActor a)"

definition opt_json :: "string option \<Rightarrow> json" where
  "opt_json s = (case s of None \<Rightarrow> JNull | Some x \<Rightarrow> JStr x)"

definition createRoomCheckpoint ::
    "string \<Rightarrow> rconfig \<Rightarrow> int \<Rightarrow> room_actor \<Rightarrow> string option \<Rightarrow> hroom \<Rightarrow> hroom \<times> (hist_error + hcheckpoint)" where
  "createRoomCheckpoint board cfg now actor lbl r = with_dr r
     (bindS (recorder_flush board cfg now (hrLive r) (hrDb r, hrRec r)) (\<lambda>_ dr1.
      bindS (onDb (appendEvent board now
         \<lparr>inActor = Some (actor_id actor), inSession = None,
          inType = ''checkpoint.created'', inEntityType = Some ''board'', inEntityId = Some board,
          inSource = the_or Human (raSource actor), inAt = None,
          inMeta = [(''actorDisplayName'', JStr (raName actor)), (''label'', opt_json lbl)],
          inChanges = [], inClock = Some (getClock (hrLive r))\<rparr>) dr1) (\<lambda>e dr2.
      onDb (createCheckpoint board now
         \<lparr>ciSnap = hrLive r, ciBy = Some (actor_id actor), ciAt = None,
          ciBase = Some (Some (evId e)), ciLabel = Some (the_or ''Manual checkpoint'' lbl),
          ciReason = ''explicit''\<rparr>) dr2)))"

record restore_request =
  rqEvent :: nat
  rqClock :: int
  rqActor :: room_actor
  rqSession :: "string option"

definition restore_callback ::
    "string \<Rightarrow> int \<Rightarrow> string \<Rightarrow> (snapshot \<Rightarrow> snapshot \<Rightarrow> snapshot) \<Rightarrow> restore_request
       \<Rightarrow> hdb \<times> snapshot \<Rightarrow> hist_error + ((hdb \<times> snapshot) \<times> hevent \<times> hcheckpoint)" where
  "restore_callback board now rid load rq dl = (case dl of (db, live) \<Rightarrow>
     (let ri = \<lparr>riTarget = ByEvent (rqEvent rq), riActor = actor_id (rqActor rq),
                riSource = raSource (rqActor rq), riSession = rqSession rq, riAt = None\<rparr> in
      bindR (guardR (getClock live = rqClock rq) HBoardChanged) (\<lambda>_.
      bindR (prepareRestore board now rid ri live db) (\<lambda>(db1, prep).
      (let restored = load (reSnap (rpTargetState prep)) live in
       bindR (completeRestore board now rid ri live restored db1) (\<lambda>(db2, e, c).
       Inr ((db2, restored), e, c)))))))"

definition restoreRoomVersion ::
    "string \<Rightarrow> rconfig \<Rightarrow> int \<Rightarrow> string \<Rightarrow> (snapshot \<Rightarrow> snapshot \<Rightarrow> snapshot) \<Rightarrow> restore_request \<Rightarrow> hroom
       \<Rightarrow> hroom \<times> (hist_error + ((hevent \<times> hcheckpoint) \<times> int))" where
  "restoreRoomVersion board cfg now rid load rq r =
     bindS (with_dr r (recorder_flush board cfg now (hrLive r) (hrDb r, hrRec r))) (\<lambda>_ r1.
     (case storage_transaction board cfg now (restore_callback board now rid load rq)
        (r1\<lparr>hrContext := Some \<lparr>cxActor = Some (actor_id (rqActor rq)),
             cxName = raName (rqActor rq), cxSession = rqSession rq, cxSource = Human, cxType = None,
             cxMeta = [], cxImmediate = False, cxSuppress = True\<rparr>\<rparr>) of
        (r2, res) \<Rightarrow> (r2\<lparr>hrContext := hrContext r\<rparr>, res)))"

end
