(* ===== verification/HistoryRoom.thy ===== *)
theory HistoryRoom
  imports HistoryRecorder
begin

text \<open>
  What the recorder and the room keep. Every operation only appends to the tables (\<open>grows\<close>) and
  leaves a store that is consistent with a timeline extending the old one (\<open>evolves\<close>), whether it
  succeeds or throws. The room as a state machine: its steps are the transactions, events, flushes,
  checkpoints and restores of the source; in every reachable room a reconstruction gives the board
  as it was.
\<close>

section \<open>Append-only\<close>

definition grows :: "hdb \<Rightarrow> hdb \<Rightarrow> bool" where
  "grows db db' \<longleftrightarrow> hNextEvent db \<le> hNextEvent db' \<and>
     (\<exists>es cs. hEvents db' = hEvents db @ es \<and> (\<forall>e\<in>set es. hNextEvent db \<le> evId e) \<and>
        hCheckpoints db' = hCheckpoints db @ cs)"

lemma grows_refl [simp]: "grows db db"
  by (simp add: grows_def)

lemma grows_trans: "grows a b \<Longrightarrow> grows b c \<Longrightarrow> grows a c"
  by (fastforce simp: grows_def)

lemma grows_fragments [simp]: "grows db (db'\<lparr>hFragments := fs\<rparr>) = grows db db'"
  by (simp add: grows_def)

lemma grows_fragments_left [simp]: "grows (db\<lparr>hFragments := fs\<rparr>) db' = grows db db'"
  by (simp add: grows_def)

lemma insertEvent_grows: "insertEvent board now inp db = Inr (db', e) \<Longrightarrow> grows db db'"
  by (auto simp: insertEvent_Inr grows_def mk_event_def)

lemma insertCheckpoint_grows: "insertCheckpoint board now ci db = Inr (db', c) \<Longrightarrow> grows db db'"
  by (auto simp: insertCheckpoint_def res_simps Let_def grows_def)

lemma flush_groups_grows: "flush_groups board now force gs db = Inr (db', es) \<Longrightarrow> grows db db'"
proof (induction gs arbitrary: db es)
  case Nil
  then show ?case by simp
next
  case (Cons g gs)
  show ?case
  proof (cases "\<not> force \<and> list_ex (\<lambda>f. frFlushAfter f > now) g")
    case True
    with Cons.prems show ?thesis by simp
  next
    case False
    with Cons.prems obtain db1 es1 es2 where
      fl: "flush_group board now g db = Inr (db1, es1)" "flush_groups board now force gs db1 = Inr (db', es2)"
      by (auto simp: res_simps)
    have "grows db db1"
      using fl(1) by (auto simp: flush_group_def res_simps dest: insertEvent_grows split: if_splits)
    from grows_trans [OF this Cons.IH [OF fl(2)]] show ?thesis .
  qed
qed

lemma flushFragments_grows: "flushFragments board now force db = Inr (db', es) \<Longrightarrow> grows db db'"
  unfolding flushFragments_def by (rule flush_groups_grows)

lemma appendEvent_grows: "appendEvent board now inp db = Inr (db', e) \<Longrightarrow> grows db db'"
  by (auto simp: appendEvent_def res_simps intro: grows_trans flushFragments_grows insertEvent_grows)

lemma createCheckpoint_grows: "createCheckpoint board now ci db = Inr (db', e) \<Longrightarrow> grows db db'"
  by (auto simp: createCheckpoint_def res_simps intro: grows_trans flushFragments_grows insertCheckpoint_grows)

lemma prepareRestore_grows: "prepareRestore board now rid ri live db = Inr (db', p) \<Longrightarrow> grows db db'"
  by (auto simp: prepareRestore_def res_simps
      dest!: flushFragments_grows insertEvent_grows insertCheckpoint_grows elim!: grows_trans)

lemma completeRestore_grows: "completeRestore board now rid ri b a db = Inr (db', p) \<Longrightarrow> grows db db'"
  by (auto simp: completeRestore_def res_simps
      dest!: flushFragments_grows insertEvent_grows insertCheckpoint_grows elim!: grows_trans)

lemma origin_grows:
  assumes "timeline_ok board S db" and "origin_ok board db" and "grows db db'"
  shows "origin_ok board db'"
proof -
  from assms(2) obtain c where c: "c \<in> set (hCheckpoints db)" "cpBoard c = board"
    "\<forall>e\<in>set (hEvents db). evBoard e = board \<longrightarrow> base_of c \<le> evId e"
    by (auto simp: origin_ok_def)
  then have "base_of c < hNextEvent db"
    using assms(1) by (auto simp: timeline_ok_def checkpoint_ok_def)
  with c assms(3) show ?thesis
    unfolding origin_ok_def grows_def by (intro bexI [of _ c]) (auto, meson less_imp_le order_trans)
qed

section \<open>Evolution\<close>

definition evolves :: "string \<Rightarrow> timeline \<Rightarrow> hdb \<Rightarrow> timeline \<Rightarrow> hdb \<Rightarrow> docs \<Rightarrow> bool" where
  "evolves board S db S' db' live' \<longleftrightarrow>
     hist_ok board S' db' live' \<and> extends (hNextEvent db) S S' \<and> grows db db'"

lemma evolves_refl: "hist_ok board S db live \<Longrightarrow> evolves board S db S db live"
  by (simp add: evolves_def)

lemma evolves_trans:
  "evolves board S db S1 db1 l1 \<Longrightarrow> evolves board S1 db1 S2 db2 l2 \<Longrightarrow> evolves board S db S2 db2 l2"
  unfolding evolves_def by (metis extends_trans grows_def grows_trans)

text \<open>Steps that may throw: the state they leave, in both cases, continues the timeline.\<close>

definition continues :: "string \<Rightarrow> timeline \<Rightarrow> hdb \<Rightarrow> docs \<Rightarrow> hdb \<Rightarrow> bool" where
  "continues board S db live db' \<longleftrightarrow> (\<exists>S'. evolves board S db S' db' live)"

lemma continuesD: "continues board S db live db' \<Longrightarrow>
    (\<And>S'. hist_ok board S' db' live \<Longrightarrow> extends (hNextEvent db) S S' \<Longrightarrow> grows db db' \<Longrightarrow> thesis) \<Longrightarrow> thesis"
  by (auto simp: continues_def evolves_def)

lemma continues_trans:
  assumes "continues board S db live db1"
    and "\<And>S1. hist_ok board S1 db1 live \<Longrightarrow> continues board S1 db1 live db2"
  shows "continues board S db live db2"
  using assms unfolding continues_def by (meson evolves_def evolves_trans)

lemma continues_refl: "hist_ok board S db live \<Longrightarrow> continues board S db live db"
  by (auto simp: continues_def intro: evolves_refl)

lemma flush_continues:
  assumes "hist_ok board S db live" and "flushFragments board now True db = Inr (db', es)"
  shows "continues board S db live db'" and "pending board db' = []"
proof -
  from flushFragments_ok [OF assms] obtain S' where "hist_ok board S' db' live"
    "extends (hNextEvent db) S S'" "pending board db' = []" by auto
  with flushFragments_grows [OF assms(2)]
  show "continues board S db live db'" "pending board db' = []"
    by (auto simp: continues_def evolves_def)
qed

lemma appendEvent_evolves:
  assumes "hist_ok board S db live" and "appendEvent board now inp db = Inr (db', e)"
    and "apply_all live (inChanges inp) = Some live'"
  shows "\<exists>S'. evolves board S db S' db' live' \<and> S' (evId e) = live' \<and> pending board db' = []
    \<and> evId e < hNextEvent db'"
  using appendEvent_ok [OF assms] appendEvent_grows [OF assms(2)] by (auto simp: evolves_def)

lemma createCheckpoint_live:
  assumes "hist_ok board S db live" and "pending board db = []"
    and "createCheckpoint board now ci db = Inr (db', c)" and "wf_snap (ciSnap ci)" and "snap_docs (ciSnap ci) = live"
    and base: "ciBase ci = None \<or> (\<exists>b. ciBase ci = Some b \<and> S (the_or 0 b) = live \<and> the_or 0 b < hNextEvent db)"
  shows "hist_ok board S db' live" and "pending board db' = []"
proof -
  from assms(2,3) have "insertCheckpoint board now ci db = Inr (db', c)"
    by (auto simp: createCheckpoint_def flushFragments_def pending_def)
  from insertCheckpoint_live [OF assms(1,2) this assms(4,5) base]
  show "hist_ok board S db' live" "pending board db' = []" by simp_all
qed

lemma maybeCheckpoint_continues:
  assumes ok: "hist_ok board S db live" "pending board db = []"
    and snap: "wf_snap snap" "snap_docs snap = live"
  shows "continues board S db live (fst (fst (maybeCheckpoint board cfg now snap (db, rc))))
    \<and> pending board (fst (fst (maybeCheckpoint board cfg now snap (db, rc)))) = []"
proof -
  let ?latest = "the_or 0 (latestEventId board db)"
  let ?ci = "\<lparr>ciSnap = snap, ciBy = None, ciAt = Some now,
     ciBase = Some (if ?latest = 0 then None else Some ?latest), ciLabel = None, ciReason = ''periodic''\<rparr>"
  have "timeline_ok board S db" "S (hNextEvent db) = live"
    using ok by (simp_all add: hist_ok_def pending_ok_def)
  note base = latestEventId_bound [OF this(1)] this(2)
  show ?thesis
  proof (cases "createCheckpoint board now ?ci db")
    case (Inl e)
    with ok show ?thesis
      by (simp add: maybeCheckpoint_def Let_def onDb_def continues_refl)
  next
    case (Inr dc)
    then obtain db' c where dc: "createCheckpoint board now ?ci db = Inr (db', c)" by (cases dc) simp
    have "ciBase ?ci = None \<or> (\<exists>b. ciBase ?ci = Some b \<and> S (the_or 0 b) = live \<and> the_or 0 b < hNextEvent db)"
      using base by (auto split: if_splits)
    from createCheckpoint_live [OF ok dc _ _ this] snap createCheckpoint_grows [OF dc]
    have "continues board S db live db'" "pending board db' = []"
      by (auto simp: continues_def evolves_def)
    with ok show ?thesis
      by (auto simp: maybeCheckpoint_def Let_def onDb_def dc intro: continues_refl)
  qed
qed

lemma recorder_flush_continues:
  assumes ok: "hist_ok board S db live" and snap: "wf_snap snap" "snap_docs snap = live"
  shows "continues board S db live (fst (fst (recorder_flush board cfg now snap (db, rc))))
    \<and> pending board (fst (fst (recorder_flush board cfg now snap (db, rc)))) = []"
proof -
  obtain db1 es where fl: "flushFragments board now True db = Inr (db1, es)"
    using flushFragments_total [OF ok, of now True] by auto
  note F = flush_continues [OF ok fl]
  show ?thesis
  proof (cases "es = []")
    case True
    with F fl show ?thesis by (simp add: recorder_flush_def onDb_def set_timer_def)
  next
    case False
    let ?m = "maybeCheckpoint board cfg now snap (db1, rc\<lparr>rcTimer := None\<rparr>)"
    have "continues board S db live (fst (fst ?m)) \<and> pending board (fst (fst ?m)) = []"
      using F(1) maybeCheckpoint_continues [OF _ F(2) snap] by (metis (no_types, lifting) continuesD continues_trans)
    moreover have "fst (recorder_flush board cfg now snap (db, rc)) = fst ?m"
      using fl False by (cases ?m; cases "snd ?m") (auto simp: recorder_flush_def onDb_def set_timer_def)
    ultimately show ?thesis by simp
  qed
qed

section \<open>Recording\<close>

text \<open>Flushed and consistent with the live board: what every synchronous operation starts from.\<close>

definition settles :: "string \<Rightarrow> timeline \<Rightarrow> hdb \<Rightarrow> docs \<Rightarrow> hdb \<Rightarrow> bool" where
  "settles board S db live db' \<longleftrightarrow> continues board S db live db' \<and> pending board db' = []"

lemma settles_refl: "hist_ok board S db live \<Longrightarrow> pending board db = [] \<Longrightarrow> settles board S db live db"
  by (simp add: settles_def continues_refl)

lemma settles_trans:
  assumes "settles board S db live db1"
    and "\<And>S1. hist_ok board S1 db1 live \<Longrightarrow> pending board db1 = [] \<Longrightarrow> settles board S1 db1 live db2"
  shows "settles board S db live db2"
proof -
  from assms(1) obtain S1 where S1: "hist_ok board S1 db1 live" "pending board db1 = []"
    by (auto simp: settles_def elim: continuesD)
  with assms(2) have "pending board db2 = []" by (auto simp: settles_def)
  moreover have "continues board S db live db2"
    by (rule continues_trans) (use assms in \<open>auto simp: settles_def\<close>)
  ultimately show ?thesis by (simp add: settles_def)
qed

lemma settles_bind:
  assumes "settles board S db live (fst (fst m))"
    and "\<And>a S1. snd m = Inr a \<Longrightarrow> hist_ok board S1 (fst (fst m)) live \<Longrightarrow> pending board (fst (fst m)) = [] \<Longrightarrow>
      settles board S1 (fst (fst m)) live (fst (fst (f a (fst m))))"
  shows "settles board S db live (fst (fst (bindS m f)))"
proof (cases "snd m")
  case (Inl e)
  with assms(1) show ?thesis by (cases m) (simp add: bindS_def)
next
  case (Inr a)
  then have "fst (bindS m f) = fst (f a (fst m))" by (cases m) (simp add: bindS_def)
  with settles_trans [OF assms(1)] assms(2) [OF Inr] show ?thesis by simp
qed

lemma settles_flush:
  assumes "hist_ok board S db live"
  shows "settles board S db live (fst (fst (onDb (flushFragments board now True) (db, rc))))"
  using flush_continues [OF assms] flushFragments_total [OF assms, of now True]
  by (auto simp: settles_def onDb_def)

lemma settles_maybeCheckpoint:
  "hist_ok board S db live \<Longrightarrow> pending board db = [] \<Longrightarrow> wf_snap snap \<Longrightarrow> snap_docs snap = live \<Longrightarrow>
   settles board S db live (fst (fst (maybeCheckpoint board cfg now snap (db, rc))))"
  by (simp add: settles_def maybeCheckpoint_continues)

lemma settles_appendEvent:
  assumes ok: "hist_ok board S db live" "pending board db = []" and "inChanges inp = []"
  shows "settles board S db live (fst (fst (onDb (appendEvent board now inp) (db, rc))))"
proof (cases "appendEvent board now inp db")
  case (Inl e)
  with ok show ?thesis by (simp add: onDb_def settles_refl)
next
  case (Inr de)
  then obtain db' e where de: "appendEvent board now inp db = Inr (db', e)" by (cases de) simp
  from appendEvent_evolves [OF ok(1) de, of live] assms(3) have "settles board S db live db'"
    by (auto simp: settles_def continues_def)
  then show ?thesis by (simp add: onDb_def de)
qed

lemma recordSynchronousEvent_settles:
  assumes ok: "hist_ok board S db live" and "wf_snap snap" "snap_docs snap = live" and "inChanges inp = []"
  shows "settles board S db live (fst (fst (recordSynchronousEvent board cfg now snap inp (db, rc))))"
  unfolding recordSynchronousEvent_def set_timer_def fst_conv snd_conv
proof (rule settles_bind, rule settles_flush [OF ok], rule settles_bind, goal_cases)
  case (1 a S1)
  then show ?case using settles_appendEvent [OF 1(2,3) assms(4)] by (metis prod.collapse)
next
  case (2 a S1 a' S2)
  have "settles board S2 (fst (fst (onDb (appendEvent board now inp)
      (fst (onDb (flushFragments board now True) (db, rc\<lparr>rcTimer := None\<rparr>)))))) live
    (fst (fst (maybeCheckpoint board cfg now snap (fst (onDb (appendEvent board now inp)
      (fst (onDb (flushFragments board now True) (db, rc\<lparr>rcTimer := None\<rparr>))))))))"
    using settles_maybeCheckpoint [OF 2(5,6) assms(2,3)] by (metis prod.collapse)
  then show ?case
    by (rule settles_bind) (simp add: settles_refl)
qed

text \<open>A committed event that carries the change of the board.\<close>

lemma recordSynchronousEvent_evolves:
  assumes ok: "hist_ok board S db live" and after: "wf_snap after"
    and ch: "apply_all live (inChanges inp) = Some (snap_docs after)"
    and rec: "recordSynchronousEvent board cfg now after inp (db, rc) = ((db', rc'), Inr e)"
  shows "\<exists>S'. evolves board S db S' db' (snap_docs after) \<and> S' (evId e) = snap_docs after
    \<and> evId e < hNextEvent db' \<and> pending board db' = []"
proof -
  from flushFragments_total [OF ok] obtain db1 es where fl: "flushFragments board now True db = Inr (db1, es)"
    by blast
  from flush_continues(1) [OF ok fl] obtain S1 where S1: "evolves board S db S1 db1 live"
    by (auto simp: continues_def)
  from rec fl obtain db2 where ap: "appendEvent board now inp db1 = Inr (db2, e)"
    and mc: "maybeCheckpoint board cfg now after (db2, rc\<lparr>rcTimer := None\<rparr>) = ((db', rc'), Inr ())"
    by (auto simp: recordSynchronousEvent_def set_timer_def onDb_def bindS_def split: sum.splits prod.splits)
  from S1 have ok1: "hist_ok board S1 db1 live" by (simp add: evolves_def)
  from appendEvent_evolves [OF ok1 ap ch] obtain S2 where
    S2: "evolves board S1 db1 S2 db2 (snap_docs after)" "S2 (evId e) = snap_docs after"
      "pending board db2 = []" "evId e < hNextEvent db2" by blast
  then have ok2: "hist_ok board S2 db2 (snap_docs after)" by (simp add: evolves_def)
  from maybeCheckpoint_continues [OF ok2 S2(3) after refl, of cfg now "rc\<lparr>rcTimer := None\<rparr>"] mc
  obtain S3 where S3: "evolves board S2 db2 S3 db' (snap_docs after)" "pending board db' = []"
    by (auto simp: continues_def)
  from S3(1) S2(2,4) have "S3 (evId e) = snap_docs after" "evId e < hNextEvent db'"
    by (auto simp: evolves_def extends_def grows_def)
  with evolves_trans [OF evolves_trans [OF S1 S2(1)] S3(1)] S3(2) show ?thesis by blast
qed

lemma recordHumanFragment_evolves:
  assumes "hist_ok board S db live" and "apply_all live (inChanges inp) = Some live'"
    and "recordHumanFragment board cfg now inp key (db, rc) = ((db', rc'), Inr f)"
  shows "evolves board S db S db' live'"
proof -
  from assms(3) obtain fa inp' where
    "appendFragment board now inp' key fa db = Inr (db', f)" "inChanges inp' = inChanges inp"
    by (auto simp: recordHumanFragment_def Let_def onDb_def bindS_def set_timer_def split: sum.splits)
  with appendFragment_ok [OF assms(1) this(1), of live'] assms(2) show ?thesis
    by (simp add: evolves_def grows_def)
qed

end
