(* ===== verification/HistoryMachine.thy ===== *)
theory HistoryMachine
  imports HistoryRoom
begin

text \<open>
  A room as a state machine. A step is one call of the server on an open room: a transaction of the
  canvas, an event without changes, a timer flush, an explicit checkpoint, a restore, or closing and
  opening it again. \<open>room_ok\<close> is kept by every step, for a timeline that extends the old one, whether
  the step succeeds or throws.
\<close>

section \<open>The invariant\<close>

definition room_ok :: "string \<Rightarrow> timeline \<Rightarrow> hroom \<Rightarrow> bool" where
  "room_ok board S r \<longleftrightarrow> hist_ok board S (hrDb r) (snap_docs (hrLive r))
     \<and> origin_ok board (hrDb r) \<and> wf_snap (hrLive r)"

definition room_evolves :: "string \<Rightarrow> timeline \<Rightarrow> hroom \<Rightarrow> timeline \<Rightarrow> hroom \<Rightarrow> bool" where
  "room_evolves board S r S' r' \<longleftrightarrow>
     room_ok board S' r' \<and> extends (hNextEvent (hrDb r)) S S' \<and> grows (hrDb r) (hrDb r')"

lemma room_evolves_trans:
  "room_evolves board S r S1 r1 \<Longrightarrow> room_evolves board S1 r1 S2 r2 \<Longrightarrow> room_evolves board S r S2 r2"
  unfolding room_evolves_def by (metis extends_trans grows_def grows_trans)

lemma room_evolvesI:
  assumes "room_ok board S r" and "evolves board S (hrDb r) S' (hrDb r') (snap_docs (hrLive r'))"
    and "wf_snap (hrLive r')"
  shows "room_evolves board S r S' r'"
  using assms origin_grows [of board S "hrDb r" "hrDb r'"]
  by (simp add: room_evolves_def room_ok_def evolves_def hist_ok_def)

lemma room_evolves_continues:
  assumes "room_ok board S r" and "continues board S (hrDb r) (snap_docs (hrLive r)) (hrDb r')"
    and "hrLive r' = hrLive r"
  shows "\<exists>S'. room_evolves board S r S' r'"
proof -
  from assms(2) obtain S' where "evolves board S (hrDb r) S' (hrDb r') (snap_docs (hrLive r))"
    by (auto simp: continues_def)
  with assms(1,3) show ?thesis
    by (intro exI [of _ S'] room_evolvesI) (simp_all add: room_ok_def)
qed

lemma room_evolves_refl: "room_ok board S r \<Longrightarrow> hrDb r' = hrDb r \<Longrightarrow> hrLive r' = hrLive r \<Longrightarrow>
    room_evolves board S r S r'"
  by (auto simp: room_evolves_def room_ok_def)

section \<open>The operations keep it\<close>

lemma with_dr_simps [simp]:
  "hrDb (fst (with_dr r m)) = fst (fst m)" "hrLive (fst (with_dr r m)) = hrLive r"
  "snd (with_dr r m) = snd m" "hrContext (fst (with_dr r m)) = hrContext r"
  by (simp_all add: with_dr_def split: prod.split)

lemma flush_room_evolves:
  assumes "room_ok board S r"
  shows "\<exists>S'. room_evolves board S r S' (fst (with_dr r (recorder_flush board cfg now (hrLive r) (hrDb r, hrRec r))))"
  using assms recorder_flush_continues [of board S "hrDb r" "snap_docs (hrLive r)" "hrLive r" cfg now "hrRec r"]
  by (intro room_evolves_continues) (simp_all add: room_ok_def)

lemma appendRoomEvent_evolves:
  assumes "room_ok board S r" and "inChanges inp = []"
  shows "\<exists>S'. room_evolves board S r S' (fst (appendRoomEvent board cfg now inp r))"
  using assms recordSynchronousEvent_settles [of board S "hrDb r" "snap_docs (hrLive r)" "hrLive r" inp cfg now "hrRec r"]
  by (intro room_evolves_continues) (simp_all add: room_ok_def appendRoomEvent_def settles_def)

lemma createRoomCheckpoint_evolves:
  assumes ok: "room_ok board S r"
  shows "\<exists>S'. room_evolves board S r S' (fst (createRoomCheckpoint board cfg now actor lbl r))"
proof (rule room_evolves_continues [OF ok])
  let ?live = "snap_docs (hrLive r)"
  let ?fl = "recorder_flush board cfg now (hrLive r) (hrDb r, hrRec r)"
  define inp where "inp = \<lparr>inActor = Some (actor_id actor), inSession = None,
          inType = ''checkpoint.created'', inEntityType = Some ''board'', inEntityId = Some board,
          inSource = the_or Human (raSource actor), inAt = None,
          inMeta = [(''actorDisplayName'', JStr (raName actor)), (''label'', opt_json lbl)],
          inChanges = [], inClock = Some (getClock (hrLive r))\<rparr>"
  define cp where "cp e = \<lparr>ciSnap = hrLive r, ciBy = Some (actor_id actor), ciAt = None,
          ciBase = Some (Some (evId e)), ciLabel = Some (the_or ''Manual checkpoint'' lbl),
          ciReason = ''explicit''\<rparr>" for e :: hevent
  have h: "hist_ok board S (hrDb r) ?live" and wf: "wf_snap (hrLive r)" using ok by (simp_all add: room_ok_def)
  have "settles board S (hrDb r) ?live (fst (fst (bindS ?fl (\<lambda>_ dr1.
      bindS (onDb (appendEvent board now inp) dr1) (\<lambda>e dr2. onDb (createCheckpoint board now (cp e)) dr2)))))"
  proof (rule settles_bind)
    show "settles board S (hrDb r) ?live (fst (fst ?fl))"
      using recorder_flush_continues [OF h wf refl] by (simp add: settles_def)
  next
    fix S1 assume h1: "hist_ok board S1 (fst (fst ?fl)) ?live" and p1: "pending board (fst (fst ?fl)) = []"
    obtain db1 rc1 where dr1: "fst ?fl = (db1, rc1)" by (cases "fst ?fl")
    show "settles board S1 (fst (fst ?fl)) ?live (fst (fst (bindS (onDb (appendEvent board now inp) (fst ?fl))
        (\<lambda>e dr2. onDb (createCheckpoint board now (cp e)) dr2))))"
    proof (cases "appendEvent board now inp db1")
      case (Inl e)
      with h1 p1 dr1 show ?thesis by (simp add: onDb_def settles_refl)
    next
      case (Inr de)
      then obtain db2 e where ap: "appendEvent board now inp db1 = Inr (db2, e)" by (cases de) simp
      have "apply_all ?live (inChanges inp) = Some ?live" by (simp add: inp_def)
      from appendEvent_evolves [OF h1 [unfolded dr1 fst_conv] ap this] obtain S2 where
        S2: "evolves board S1 db1 S2 db2 ?live" "S2 (evId e) = ?live" "pending board db2 = []" "evId e < hNextEvent db2"
        by blast
      then have h2: "hist_ok board S2 db2 ?live" and s2: "settles board S1 db1 ?live db2"
        by (auto simp: evolves_def settles_def continues_def)
      show ?thesis
      proof (cases "createCheckpoint board now (cp e) db2")
        case (Inl er)
        with s2 dr1 ap show ?thesis by (simp add: onDb_def)
      next
        case (Inr dc)
        then obtain db3 c where cr: "createCheckpoint board now (cp e) db2 = Inr (db3, c)" by (cases dc) simp
        have "hist_ok board S2 db3 ?live" "pending board db3 = []"
          by (rule createCheckpoint_live [OF h2 S2(3) cr]; use wf S2 in \<open>simp add: cp_def\<close>)+
        moreover from S2(1) createCheckpoint_grows [OF cr] have "extends (hNextEvent db1) S1 S2" "grows db1 db3"
          by (auto simp: evolves_def intro: grows_trans)
        ultimately have "settles board S1 db1 ?live db3" by (auto simp: settles_def continues_def evolves_def)
        with dr1 ap cr show ?thesis by (simp add: onDb_def)
      qed
    qed
  qed
  then show "continues board S (hrDb r) ?live (hrDb (fst (createRoomCheckpoint board cfg now actor lbl r)))"
    by (simp add: createRoomCheckpoint_def settles_def inp_def cp_def)
qed (simp add: createRoomCheckpoint_def)

text \<open>
  What tldraw's storage promises of a transaction callback: it touches only the canvas, keeps it well
  formed, and advances the document clock when a document changes.
\<close>

definition canvas_op :: "(hdb \<times> snapshot \<Rightarrow> hist_error + ((hdb \<times> snapshot) \<times> 'a)) \<Rightarrow> bool" where
  "canvas_op f \<longleftrightarrow> (\<forall>db live db' live' a. wf_snap live \<and> f (db, live) = Inr ((db', live'), a) \<longrightarrow>
     db' = db \<and> wf_snap live' \<and> (snap_docs live' = snap_docs live \<or> getClock live < getClock live'))"

lemma record_changes_evolves:
  assumes ok: "hist_ok board S db (snap_docs before)" and "wf_snap after"
    and rec: "record_changes board cfg now cx before after (db, rc) = ((db', rc'), Inr ())"
  shows "\<exists>S'. evolves board S db S' db' (snap_docs after)"
proof -
  from rec obtain cs where cs: "changesBetweenSnapshots before after = Inr cs"
    by (auto simp: record_changes_def bindS_def split: sum.splits)
  let ?inp = "records_input cx cs (getClock after)"
  have ap: "apply_all (snap_docs before) (inChanges ?inp) = Some (snap_docs after)"
    using changesBetween_applies(1) [OF cs] by (simp add: records_input_def)
  show ?thesis
  proof (cases "cxSource cx = Human \<and> \<not> cxImmediate cx")
    case True
    with rec cs obtain f where
      "recordHumanFragment board cfg now ?inp (Some (join_with '','' (sort (map chId cs)))) (db, rc) = ((db', rc'), Inr f)"
      by (auto simp: record_changes_def Let_def bindS_def split: sum.splits prod.splits)
    from recordHumanFragment_evolves [OF ok ap this] show ?thesis by blast
  next
    case False
    with rec cs obtain e where
      "recordSynchronousEvent board cfg now after ?inp (db, rc) = ((db', rc'), Inr e)"
      by (auto simp: record_changes_def Let_def bindS_def split: sum.splits prod.splits if_splits)
    from recordSynchronousEvent_evolves [OF ok assms(2) ap this] show ?thesis by blast
  qed
qed

lemma storage_transaction_evolves:
  assumes ok: "room_ok board S r" and f: "canvas_op f"
    and cx: "hrContext r = Some cx" "\<not> cxSuppress cx"
  shows "\<exists>S'. room_evolves board S r S' (fst (storage_transaction board cfg now f r))"
proof (cases "f (hrDb r, hrLive r)")
  case (Inl e)
  with room_evolves_refl [OF ok] show ?thesis
    by (intro exI [of _ S]) (simp add: storage_transaction_def)
next
  case (Inr res)
  then obtain db live a where res: "f (hrDb r, hrLive r) = Inr ((db, live), a)" by (cases res) auto
  with f ok have live: "db = hrDb r" "wf_snap live"
    "snap_docs live = snap_docs (hrLive r) \<or> getClock (hrLive r) < getClock live"
    unfolding canvas_op_def room_ok_def by blast+
  show ?thesis
  proof (cases "getClock live > getClock (hrLive r)")
    case False
    with live have "evolves board S (hrDb r) S (hrDb r) (snap_docs live)"
      using ok by (auto simp: evolves_def room_ok_def)
    then show ?thesis using res live(1,2) False cx
      by (intro exI [of _ S] room_evolvesI [OF ok]) (simp_all add: storage_transaction_def)
  next
    case True
    obtain db' rc' x where rc: "record_changes board cfg now cx (hrLive r) live (hrDb r, hrRec r) = ((db', rc'), x)"
      by (metis surj_pair)
    show ?thesis
    proof (cases x)
      case (Inl e)
      with res rc live cx True room_evolves_refl [OF ok] show ?thesis
        by (intro exI [of _ S]) (simp add: storage_transaction_def)
    next
      case (Inr u)
      with rc ok live(2) record_changes_evolves [of board S "hrDb r" "hrLive r" live cfg now cx "hrRec r" db' rc']
      obtain S' where "evolves board S (hrDb r) S' db' (snap_docs live)" by (auto simp: room_ok_def)
      then show ?thesis using res rc live(1,2) True cx Inr
        by (intro exI [of _ S'] room_evolvesI [OF ok]) (simp_all add: storage_transaction_def)
    qed
  qed
qed

section \<open>Restoring\<close>

text \<open>\<open>loadSnapshotIntoStorage\<close> leaves a well-formed canvas.\<close>

definition loads_wf :: "(snapshot \<Rightarrow> snapshot \<Rightarrow> snapshot) \<Rightarrow> bool" where
  "loads_wf load \<longleftrightarrow> (\<forall>s l. wf_snap s \<longrightarrow> wf_snap (load s l))"

text \<open>\<open>loadSnapshotIntoStorage\<close> puts the documents of the snapshot on the canvas.\<close>

definition loads_docs :: "(snapshot \<Rightarrow> snapshot \<Rightarrow> snapshot) \<Rightarrow> bool" where
  "loads_docs load \<longleftrightarrow> (\<forall>s l. wf_snap s \<longrightarrow> wf_snap (load s l) \<and> snap_docs (load s l) = snap_docs s)"

lemma loads_docs_wf: "loads_docs load \<Longrightarrow> loads_wf load"
  by (simp add: loads_docs_def loads_wf_def)

lemma last_or_none: "(case xs of [] \<Rightarrow> None | cs \<Rightarrow> Some (last cs)) = Some c \<Longrightarrow> c \<in> set xs"
  by (cases xs) (auto split: if_splits)

lemma newest_or_root_mem:
  assumes "(case tid of None \<Rightarrow> (case filter (\<lambda>c. cpBase c = None) mine of [] \<Rightarrow> None | cs \<Rightarrow> Some (last cs))
      | Some e \<Rightarrow> newest_base (filter (\<lambda>c. opt_holds (\<lambda>b. b \<le> e) (cpBase c)) mine)) = Some c"
  shows "c \<in> set mine"
proof (cases tid)
  case None
  with assms last_or_none [of "filter (\<lambda>c. cpBase c = None) mine" c] show ?thesis by simp
next
  case (Some e)
  with assms newest_base_mem [of "filter (\<lambda>c. opt_holds (\<lambda>b. b \<le> e) (cpBase c)) mine" c]
  show ?thesis by simp
qed

lemma choose_checkpoint_mem:
  assumes "choose_checkpoint board t tid db = Some c"
  shows "c \<in> set (hCheckpoints db) \<and> cpBoard c = board"
proof -
  let ?mine = "filter (\<lambda>c. cpBoard c = board) (hCheckpoints db)"
  have "c \<in> set ?mine"
  proof (cases "\<exists>i. t = ByCheckpoint i")
    case True
    then obtain i where "find (\<lambda>c. cpId c = i) ?mine = Some c"
      using assms by (auto simp: choose_checkpoint_def)
    then show ?thesis unfolding find_Some_iff by (metis nth_mem)
  next
    case False
    with assms show ?thesis
      unfolding choose_checkpoint_def Let_def by (cases t) (simp_all only: target.case target.distinct newest_or_root_mem, auto)
  qed
  then show ?thesis by simp
qed

lemma reconstruct_wf:
  assumes tl: "timeline_ok board S db" and re: "reconstruct board t db = Inr r"
  shows "wf_snap (reSnap r)"
proof -
  from re obtain tid where tid: "(case choose_checkpoint board t tid db of
        None \<Rightarrow> Inl HNoCheckpoint
      | Some c \<Rightarrow>
        (let events = (case tid of None \<Rightarrow> [] | Some e \<Rightarrow> events_between board (base_of c) e db)
         in bindR (applyHistoryEvents (cpSnap c) events) (\<lambda>snap.
            Inr \<lparr>reSnap = snap, reTargetEvent = tid, reBaseCheckpoint = cpId c,
                 reApplied = map evId events\<rparr>))) = Inr r"
    by (auto simp only: reconstruct_def bindR_eq_Inr)
  then obtain c where c: "choose_checkpoint board t tid db = Some c"
    by (cases "choose_checkpoint board t tid db") simp_all
  define es where es: "es = (case tid of None \<Rightarrow> [] | Some e \<Rightarrow> events_between board (base_of c) e db)"
  from tid c obtain snap where ap: "applyHistoryEvents (cpSnap c) es = Inr snap" "reSnap r = snap"
    by (auto simp: bindR_eq_Inr Let_def es)
  from choose_checkpoint_mem [OF c] tl have "wf_snap (cpSnap c)"
    by (auto simp: timeline_ok_def checkpoint_ok_def)
  moreover have "\<forall>e\<in>set es. \<forall>c\<in>set (evChanges e). valid_change c"
    using tl es by (auto simp: timeline_ok_def events_between_def split: option.splits)
  ultimately show ?thesis using applyHistoryEvents_refines [of "cpSnap c" es] ap by simp
qed

text \<open>Two rows written one after the other: an event, then the checkpoint of the board it leads to.\<close>

lemma event_then_checkpoint:
  assumes ok: "hist_ok board S db live" "pending board db = []"
    and ev: "insertEvent board now inp db = Inr (db1, e)" and ch: "apply_all live (inChanges inp) = Some (snap_docs after)"
    and cp: "insertCheckpoint board now ci db1 = Inr (db2, c)"
    and ci: "ciSnap ci = after" "ciBase ci = Some (Some (evId e))" "wf_snap after"
  shows "\<exists>S'. evolves board S db S' db2 (snap_docs after) \<and> S' (evId e) = snap_docs after \<and> pending board db2 = []
    \<and> evId e < hNextEvent db2"
proof -
  from insertEvent_ok [OF ok ev ch] obtain S' where S': "hist_ok board S' db1 (snap_docs after)"
    "extends (hNextEvent db) S S'" "S' (evId e) = snap_docs after" "pending board db1 = []"
    "evId e < hNextEvent db1" by blast
  have b: "ciBase ci = None \<or> (\<exists>b. ciBase ci = Some b \<and> S' (the_or 0 b) = snap_docs after \<and> the_or 0 b < hNextEvent db1)"
    using S' ci by simp
  have w: "wf_snap (ciSnap ci)" "snap_docs (ciSnap ci) = snap_docs after" using ci by simp_all
  note C = insertCheckpoint_live [OF S'(1,4) cp w b]
  have "grows db db2" using insertEvent_grows [OF ev] insertCheckpoint_grows [OF cp] by (rule grows_trans)
  with C S' show ?thesis by (intro exI [of _ S']) (simp add: evolves_def)
qed

lemma prepareRestore_evolves:
  assumes ok: "hist_ok board S db (snap_docs live)" and wf: "wf_snap live"
    and pr: "prepareRestore board now rid ri live db = Inr (db', p)"
  obtains S' db1 es where "evolves board S db S' db' (snap_docs live)" "pending board db' = []"
    "flushFragments board now True db = Inr (db1, es)"
    "reconstruct board (riTarget ri) db1 = Inr (rpTargetState p)" "wf_snap (reSnap (rpTargetState p))"
proof -
  from pr obtain db1 es db2 started c where fl: "flushFragments board now True db = Inr (db1, es)"
    and re: "reconstruct board (riTarget ri) db1 = Inr (rpTargetState p)"
    and ev: "insertEvent board now (restore_event board rid ri ''restore.started'' [] live) db1 = Inr (db2, started)"
    and cp: "insertCheckpoint board now
         \<lparr>ciSnap = live, ciBy = Some (riActor ri), ciAt = riAt ri, ciBase = Some (Some (evId started)),
          ciLabel = Some ''Before restore'', ciReason = ''pre_restore''\<rparr> db2 = Inr (db', c)"
    by (auto simp: prepareRestore_def res_simps)
  from flush_continues [OF ok fl] obtain S1 where S1: "evolves board S db S1 db1 (snap_docs live)" "pending board db1 = []"
    by (auto simp: continues_def)
  then have ok1: "hist_ok board S1 db1 (snap_docs live)" by (simp add: evolves_def)
  have "apply_all (snap_docs live) (inChanges (restore_event board rid ri ''restore.started'' [] live)) = Some (snap_docs live)"
    by (simp add: restore_event_def)
  from event_then_checkpoint [OF ok1 S1(2) ev this cp] wf obtain S2 where
    "evolves board S1 db1 S2 db' (snap_docs live)" "pending board db' = []" by auto
  moreover have "wf_snap (reSnap (rpTargetState p))"
    using reconstruct_wf [OF _ re] ok1 by (auto simp: hist_ok_def)
  ultimately show ?thesis using that fl re evolves_trans [OF S1(1)] by blast
qed

lemma completeRestore_evolves:
  assumes ok: "hist_ok board S db (snap_docs live)" and wf: "wf_snap restored"
    and co: "completeRestore board now rid ri live restored db = Inr (db', e, c)"
  obtains S' where "evolves board S db S' db' (snap_docs restored)" "S' (evId e) = snap_docs restored"
    "evId e < hNextEvent db'"
proof -
  from co obtain db1 es cs db2 where fl: "flushFragments board now True db = Inr (db1, es)"
    and cs: "changesBetweenSnapshots live restored = Inr cs"
    and ev: "insertEvent board now (restore_event board rid ri ''restore.completed'' cs restored) db1 = Inr (db2, e)"
    and cp: "insertCheckpoint board now
         \<lparr>ciSnap = restored, ciBy = Some (riActor ri), ciAt = riAt ri, ciBase = Some (Some (evId e)),
          ciLabel = Some ''Restored version'', ciReason = ''restore_completed''\<rparr> db2 = Inr (db', c)"
    by (auto simp: completeRestore_def res_simps)
  from flush_continues [OF ok fl] obtain S1 where S1: "evolves board S db S1 db1 (snap_docs live)" "pending board db1 = []"
    by (auto simp: continues_def)
  then have ok1: "hist_ok board S1 db1 (snap_docs live)" by (simp add: evolves_def)
  have "apply_all (snap_docs live) (inChanges (restore_event board rid ri ''restore.completed'' cs restored))
      = Some (snap_docs restored)"
    using changesBetween_applies(1) [OF cs] by (simp add: restore_event_def)
  from event_then_checkpoint [OF ok1 S1(2) ev this cp] wf obtain S2 where
    "evolves board S1 db1 S2 db' (snap_docs restored)" "S2 (evId e) = snap_docs restored" "evId e < hNextEvent db'" by auto
  then show ?thesis using that evolves_trans [OF S1(1)] by blast
qed

lemma restore_callback_evolves:
  assumes ok: "hist_ok board S db (snap_docs live)" and wf: "wf_snap live"
    and load: "loads_wf load"
    and cb: "restore_callback board now rid load rq (db, live) = Inr ((db', restored), e, c)"
  obtains S' db1 es t where "evolves board S db S' db' (snap_docs restored)" "S' (evId e) = snap_docs restored"
    "evId e < hNextEvent db'" "wf_snap restored" "getClock live = rqClock rq"
    "flushFragments board now True db = Inr (db1, es)"
    "reconstruct board (ByEvent (rqEvent rq)) db1 = Inr t" "wf_snap (reSnap t)" "restored = load (reSnap t) live"
proof -
  define ri where "ri = \<lparr>riTarget = ByEvent (rqEvent rq), riActor = actor_id (rqActor rq),
                riSource = raSource (rqActor rq), riSession = rqSession rq, riAt = None\<rparr>"
  from cb obtain db2 p where clock: "getClock live = rqClock rq"
    and pr: "prepareRestore board now rid ri live db = Inr (db2, p)"
    and restored: "restored = load (reSnap (rpTargetState p)) live"
    and co: "completeRestore board now rid ri live restored db2 = Inr (db', e, c)"
    by (auto simp: restore_callback_def ri_def res_simps Let_def)
  from prepareRestore_evolves [OF ok wf pr] obtain S1 db1 es where
    P: "evolves board S db S1 db2 (snap_docs live)" "flushFragments board now True db = Inr (db1, es)"
      "reconstruct board (riTarget ri) db1 = Inr (rpTargetState p)" "wf_snap (reSnap (rpTargetState p))"
    by metis
  then have ok2: "hist_ok board S1 db2 (snap_docs live)" by (simp add: evolves_def)
  have wf': "wf_snap restored" using load P(4) restored by (simp add: loads_wf_def)
  from completeRestore_evolves [OF ok2 wf' co] obtain S2 where
    "evolves board S1 db2 S2 db' (snap_docs restored)" "S2 (evId e) = snap_docs restored" "evId e < hNextEvent db'"
    by metis
  with P wf' clock restored show ?thesis
    using that [of S2 db1 es "rpTargetState p"] evolves_trans [OF P(1)] by (simp add: ri_def)
qed

lemma storage_restore_evolves:
  assumes ok: "room_ok board S r" and load: "loads_wf load"
    and cx: "hrContext r = Some cx" "cxSuppress cx"
  shows "\<exists>S'. room_evolves board S r S'
    (fst (storage_transaction board cfg now (restore_callback board now rid load rq) r))"
proof (cases "restore_callback board now rid load rq (hrDb r, hrLive r)")
  case (Inl e)
  with room_evolves_refl [OF ok] show ?thesis
    by (intro exI [of _ S]) (simp add: storage_transaction_def)
next
  case (Inr res)
  then obtain db' restored e c where cb:
    "restore_callback board now rid load rq (hrDb r, hrLive r) = Inr ((db', restored), e, c)"
    by (metis prod.collapse)
  have "hist_ok board S (hrDb r) (snap_docs (hrLive r))" "wf_snap (hrLive r)" using ok by (simp_all add: room_ok_def)
  from restore_callback_evolves [OF this load cb] obtain S' where
    "evolves board S (hrDb r) S' db' (snap_docs restored)" "wf_snap restored" by metis
  then show ?thesis using cb cx
    by (intro exI [of _ S'] room_evolvesI [OF ok]) (simp_all add: storage_transaction_def)
qed

lemma room_evolves_context: "room_evolves board S r S' r' \<Longrightarrow> room_evolves board S r S' (r'\<lparr>hrContext := c\<rparr>)"
  by (simp add: room_evolves_def room_ok_def)

lemma room_ok_context: "room_ok board S (r\<lparr>hrContext := c\<rparr>) \<longleftrightarrow> room_ok board S r"
  by (simp add: room_ok_def)

lemma restoreRoomVersion_evolves:
  assumes ok: "room_ok board S r" and load: "loads_wf load"
  shows "\<exists>S'. room_evolves board S r S' (fst (restoreRoomVersion board cfg now rid load rq r))"
proof -
  define fl where "fl = with_dr r (recorder_flush board cfg now (hrLive r) (hrDb r, hrRec r))"
  from flush_room_evolves [OF ok, of cfg now] obtain S1 where S1: "room_evolves board S r S1 (fst fl)"
    by (auto simp: fl_def)
  define r0 where "r0 = (fst fl)\<lparr>hrContext := Some \<lparr>cxActor = Some (actor_id (rqActor rq)),
     cxName = raName (rqActor rq), cxSession = rqSession rq, cxSource = Human, cxType = None,
     cxMeta = [], cxImmediate = False, cxSuppress = True\<rparr>\<rparr>"
  define out where "out = storage_transaction board cfg now (restore_callback board now rid load rq) r0"
  from S1 have "room_ok board S1 r0" by (simp add: room_evolves_def room_ok_context r0_def)
  from storage_restore_evolves [OF this load, where cfg = cfg and now = now and rid = rid and rq = rq] obtain S2 where
    "room_evolves board S1 r0 S2 (fst out)" by (auto simp: r0_def out_def)
  then have S2: "room_evolves board S1 (fst fl) S2 (fst out)" by (simp add: room_evolves_def r0_def)
  have "fst (restoreRoomVersion board cfg now rid load rq r) =
      (case snd fl of Inl _ \<Rightarrow> fst fl | Inr _ \<Rightarrow> (fst out)\<lparr>hrContext := hrContext r\<rparr>)"
    by (cases fl; cases out) (auto simp: restoreRoomVersion_def fl_def [symmetric] r0_def
        out_def bindS_def split: sum.split prod.split)
  with S1 room_evolves_context [OF room_evolves_trans [OF S1 S2]] show ?thesis
    by (auto split: sum.split)
qed

section \<open>Opening\<close>

lemma recorder_new_cases:
  assumes "recorder_new board now leg live db = (db', Inr rc)"
  shows "\<exists>db1 es. flushFragments board now True db = Inr (db1, es) \<and>
    (if leg then \<exists>c. ensureLegacyImportCheckpoint board now live db1 = Inr (db', c) else db' = db1)"
proof -
  define m where "m = bindS (onDb (flushFragments board now True) (db, ())) (\<lambda>_ d.
    if leg then bindS (onDb (ensureLegacyImportCheckpoint board now live) d) (\<lambda>_ d'. (d', Inr ()))
    else (d, Inr ()))"
  have m: "fst (fst m) = db'" "snd m = Inr ()"
    using assms unfolding recorder_new_def m_def [symmetric] by (cases m; auto split: sum.splits)+
  then obtain db1 es where fl: "flushFragments board now True db = Inr (db1, es)"
    by (cases "flushFragments board now True db") (auto simp: m_def onDb_def)
  with m show ?thesis
    by (cases leg; cases "ensureLegacyImportCheckpoint board now live db1") (auto simp: m_def onDb_def)
qed

lemma ensureLegacyImportCheckpoint_evolves:
  assumes ok: "hist_ok board S db (snap_docs live)" "pending board db = []" and wf: "wf_snap live"
    and en: "ensureLegacyImportCheckpoint board now live db = Inr (db', c)"
  shows "\<exists>S'. evolves board S db S' db' (snap_docs live)"
    and "origin_ok board db \<or> (\<forall>e\<in>set (hEvents db). evBoard e \<noteq> board) \<Longrightarrow> origin_ok board db'"
proof -
  let ?mine = "filter (\<lambda>c. cpBoard c = board) (hCheckpoints db)"
  have "(\<exists>S'. evolves board S db S' db' (snap_docs live)) \<and>
    (origin_ok board db \<or> (\<forall>e\<in>set (hEvents db). evBoard e \<noteq> board) \<longrightarrow> origin_ok board db')"
  proof (cases ?mine)
    case Nil
    define inp where "inp = \<lparr>inActor = None, inSession = None, inType = ''board.imported'',
             inEntityType = Some ''board'', inEntityId = Some board, inSource = System, inAt = Some now,
             inMeta = [(''legacyImport'', JBool True)], inChanges = [], inClock = snapDocClock live\<rparr>"
    from Nil en obtain db1 e ci where ev: "insertEvent board now inp db = Inr (db1, e)"
      and cp: "insertCheckpoint board now ci db1 = Inr (db', c)"
      and ci: "ciSnap ci = live" "ciBase ci = Some (Some (evId e))"
      by (auto simp: ensureLegacyImportCheckpoint_def inp_def bindR_eq_Inr)
    have "apply_all (snap_docs live) (inChanges inp) = Some (snap_docs live)" by (simp add: inp_def)
    from event_then_checkpoint [OF ok ev this cp ci wf] have "\<exists>S'. evolves board S db S' db' (snap_docs live)"
      by blast
    moreover have "\<not> origin_ok board db" using Nil by (auto simp: origin_ok_def filter_empty_conv)
    moreover have "origin_ok board db'" if "\<forall>e\<in>set (hEvents db). evBoard e \<noteq> board"
    proof -
      have "hEvents db' = hEvents db @ [e]" "c \<in> set (hCheckpoints db')" "cpBoard c = board" "base_of c = evId e"
        using ev cp ci by (auto simp: insertEvent_Inr insertCheckpoint_def res_simps Let_def base_of_def)
      with that show ?thesis unfolding origin_ok_def by (intro bexI [of _ c]) auto
    qed
    ultimately show ?thesis by blast
  next
    case (Cons d ds)
    with en have "db' = db" by (auto simp: ensureLegacyImportCheckpoint_def res_simps)
    moreover have "origin_ok board db" if "\<forall>e\<in>set (hEvents db). evBoard e \<noteq> board"
    proof -
      have "d \<in> set ?mine" using Cons by simp
      with that show ?thesis by (auto simp: origin_ok_def)
    qed
    ultimately show ?thesis using evolves_refl [OF ok(1)] by auto
  qed
  then show "\<exists>S'. evolves board S db S' db' (snap_docs live)"
    "origin_ok board db \<or> (\<forall>e\<in>set (hEvents db). evBoard e \<noteq> board) \<Longrightarrow> origin_ok board db'" by blast+
qed

lemma open_room_cases:
  assumes "open_room board now live db = (db', Inr rc)"
  obtains db1 es c where "flushFragments board now True db = Inr (db1, es)"
    and "ensureLegacyImportCheckpoint board now live db1 = Inr (db', c)"
proof -
  from assms obtain db1 c where new: "recorder_new board now False live db = (db1, Inr rc)"
    and en: "ensureLegacyImportCheckpoint board now live db1 = Inr (db', c)"
    by (auto simp: open_room_def split: prod.splits sum.splits)
  from recorder_new_cases [OF new] that en show ?thesis by auto
qed

lemma open_room_evolves:
  assumes ok: "hist_ok board S db (snap_docs live)" and wf: "wf_snap live"
    and new: "open_room board now live db = (db', Inr rc)"
  shows "\<exists>S'. evolves board S db S' db' (snap_docs live)"
proof -
  from new obtain db1 es c where fl: "flushFragments board now True db = Inr (db1, es)"
    and en: "ensureLegacyImportCheckpoint board now live db1 = Inr (db', c)"
    by (rule open_room_cases)
  from flush_continues [OF ok fl] obtain S1 where S1: "evolves board S db S1 db1 (snap_docs live)" "pending board db1 = []"
    by (auto simp: continues_def)
  then have "hist_ok board S1 db1 (snap_docs live)" by (simp add: evolves_def)
  from ensureLegacyImportCheckpoint_evolves(1) [OF this S1(2) wf en] evolves_trans [OF S1(1)]
  show ?thesis by blast
qed

text \<open>A database no one has written yet.\<close>

definition empty_hdb :: hdb where
  "empty_hdb = \<lparr>hEvents = [], hCheckpoints = [], hFragments = [], hNextEvent = 1, hNextCheckpoint = 1,
     hNextFragment = 1, hGate = False\<rparr>"

lemma empty_hdb_ok: "hist_ok board (\<lambda>_. d) empty_hdb d"
  by (simp add: hist_ok_def timeline_ok_def tables_ok_def ids_ok_def empty_hdb_def timeline_step_def
      getEvent_def pending_ok_def pending_def)

definition room_at :: "hdb \<Rightarrow> recorder \<Rightarrow> snapshot \<Rightarrow> hroom" where
  "room_at db rc live = \<lparr>hrDb = db, hrRec = rc, hrLive = live, hrContext = None\<rparr>"

lemma open_fresh_cases:
  assumes "open_room board now live empty_hdb = (db, Inr rc)"
  obtains c where "ensureLegacyImportCheckpoint board now live empty_hdb = Inr (db, c)"
proof -
  from assms obtain db1 es c where "flushFragments board now True empty_hdb = Inr (db1, es)"
    and "ensureLegacyImportCheckpoint board now live db1 = Inr (db, c)" by (rule open_room_cases)
  with that show ?thesis by (auto simp: flushFragments_def empty_hdb_def)
qed

lemma open_fresh_ok:
  assumes wf: "wf_snap live" and new: "open_room board now live empty_hdb = (db, Inr rc)"
  shows "\<exists>S. room_ok board S (room_at db rc live)"
proof -
  from new obtain c where leg: "ensureLegacyImportCheckpoint board now live empty_hdb = Inr (db, c)"
    by (rule open_fresh_cases)
  have p: "pending board empty_hdb = []" by (simp add: pending_def empty_hdb_def)
  note L = ensureLegacyImportCheckpoint_evolves [OF empty_hdb_ok p wf leg]
  from L show ?thesis using wf by (auto simp: evolves_def room_ok_def room_at_def empty_hdb_def)
qed

section \<open>The machine\<close>

inductive room_step ::
    "string \<Rightarrow> rconfig \<Rightarrow> (snapshot \<Rightarrow> snapshot \<Rightarrow> snapshot) \<Rightarrow> hroom \<Rightarrow> hroom \<Rightarrow> bool" for board cfg load where
  Context: "room_step board cfg load r (r\<lparr>hrContext := c\<rparr>)"
| Edit: "canvas_op f \<Longrightarrow> hrContext r = Some cx \<Longrightarrow> \<not> cxSuppress cx \<Longrightarrow>
    room_step board cfg load r (fst (storage_transaction board cfg now (f :: _ \<Rightarrow> _ + (_ \<times> unit)) r))"
| Event: "inChanges inp = [] \<Longrightarrow> room_step board cfg load r (fst (appendRoomEvent board cfg now inp r))"
| Timer: "room_step board cfg load r
    (fst (with_dr r (recorder_flush board cfg now (hrLive r) (hrDb r, hrRec r))))"
| Checkpoint: "room_step board cfg load r (fst (createRoomCheckpoint board cfg now actor lbl r))"
| Restore: "room_step board cfg load r (fst (restoreRoomVersion board cfg now rid load rq r))"
| Reopen: "open_room board now (hrLive r) (hrDb r) = (db, Inr rc) \<Longrightarrow>
    room_step board cfg load r (room_at db rc (hrLive r))"

inductive_cases room_stepE: "room_step board cfg load r r'"

inductive room_runs ::
    "string \<Rightarrow> rconfig \<Rightarrow> (snapshot \<Rightarrow> snapshot \<Rightarrow> snapshot) \<Rightarrow> hroom \<Rightarrow> hroom \<Rightarrow> bool" for board cfg load where
  Stop: "room_runs board cfg load r r"
| Step: "room_runs board cfg load r r1 \<Longrightarrow> room_step board cfg load r1 r2 \<Longrightarrow> room_runs board cfg load r r2"

lemma room_step_evolves:
  assumes "room_step board cfg load r r'" and ok: "room_ok board S r" and "loads_wf load"
  shows "\<exists>S'. room_evolves board S r S' r'"
  using assms(1)
proof (cases rule: room_step.cases)
  case (Context c)
  with room_evolves_refl [OF ok, of r'] show ?thesis by auto
next
  case (Edit f cx now)
  with storage_transaction_evolves [OF ok] show ?thesis by blast
next
  case (Event inp now)
  with appendRoomEvent_evolves [OF ok] show ?thesis by blast
next
  case (Timer now)
  with flush_room_evolves [OF ok] show ?thesis by blast
next
  case (Checkpoint now actor lbl)
  with createRoomCheckpoint_evolves [OF ok] show ?thesis by blast
next
  case (Restore now rid rq)
  with restoreRoomVersion_evolves [OF ok] assms(3) show ?thesis by blast
next
  case (Reopen now db rc)
  have "hist_ok board S (hrDb r) (snap_docs (hrLive r))" "wf_snap (hrLive r)" using ok by (simp_all add: room_ok_def)
  from open_room_evolves [OF this Reopen(2)] obtain S' where
    "evolves board S (hrDb r) S' db (snap_docs (hrLive r))" by blast
  with Reopen(1) ok show ?thesis
    by (intro exI [of _ S'] room_evolvesI [OF ok]) (simp_all add: room_at_def room_ok_def)
qed

lemma room_runs_evolves:
  assumes "room_runs board cfg load r r'" and "room_ok board S r" and "loads_wf load"
  shows "\<exists>S'. room_evolves board S r S' r'"
  using assms(1,2)
proof (induction arbitrary: S)
  case (Stop r)
  with room_evolves_refl [of board S r r] show ?case by blast
next
  case (Step r r1 r2)
  then obtain S1 where S1: "room_evolves board S r S1 r1" by blast
  then have "room_ok board S1 r1" by (simp add: room_evolves_def)
  from room_step_evolves [OF Step.hyps(2) this assms(3)] room_evolves_trans [OF S1] show ?case by blast
qed

end
