(* ===== verification/HistoryPages.thy ===== *)
theory HistoryPages
  imports HistoryTimeline
begin

text \<open>
  Paging through the history. \<open>HistoryPanel\<close> asks for a page, then again from the cursor of the last
  one; walking the cursors visits every matching event once, in order.
\<close>

definition ordered_events :: "string \<Rightarrow> filters \<Rightarrow> hdb \<Rightarrow> hevent list" where
  "ordered_events board fi db =
     (let matching = filter (event_matches board fi) (hEvents db) in if fiAsc fi then matching else rev matching)"

definition next_page :: "filters \<Rightarrow> nat \<Rightarrow> filters" where
  "next_page fi i = (if fiAsc fi then fi\<lparr>fiAfter := Some (int i)\<rparr> else fi\<lparr>fiBefore := Some (int i)\<rparr>)"

fun pages :: "nat \<Rightarrow> string \<Rightarrow> filters \<Rightarrow> hdb \<Rightarrow> hevent list" where
  "pages 0 board fi db = []"
| "pages (Suc n) board fi db = (case listEvents board fi db of
       (es, None) \<Rightarrow> es
     | (es, Some i) \<Rightarrow> es @ pages n board (next_page fi i) db)"

lemma listEvents_ordered:
  "listEvents board fi db = (let es = take (page_limit fi) (ordered_events board fi db) in
     (es, if length (ordered_events board fi db) > page_limit fi then Some (evId (last es)) else None))"
proof -
  have "0 < page_limit fi" by (simp add: page_limit_def)
  then show ?thesis
    by (auto simp: listEvents_def ordered_events_def Let_def min_def)
qed

text \<open>Rows before and after a row of a sorted list.\<close>

lemma filter_above:
  fixes f :: "'a \<Rightarrow> nat"
  assumes "sorted_wrt (<) (map f (xs @ [x] @ ys))"
  shows "filter (\<lambda>z. f x < f z) (xs @ [x] @ ys) = ys" and "filter (\<lambda>z. f z < f x) (xs @ [x] @ ys) = xs"
  using assms by (auto simp: sorted_wrt_append sorted_wrt_map filter_id_conv filter_empty_conv)

lemma next_page_asc:
  assumes "fiAsc fi" and "event_matches board fi e"
  shows "event_matches board (next_page fi (evId e)) x \<longleftrightarrow> event_matches board fi x \<and> evId e < evId x"
  using assms by (auto simp: event_matches_def next_page_def opt_holds_def split: option.splits)

lemma next_page_desc:
  assumes "\<not> fiAsc fi" and "event_matches board fi e"
  shows "event_matches board (next_page fi (evId e)) x \<longleftrightarrow> event_matches board fi x \<and> evId x < evId e"
  using assms by (auto simp: event_matches_def next_page_def opt_holds_def split: option.splits)

lemma ordered_next_page:
  assumes tab: "tables_ok db" and split: "ordered_events board fi db = xs @ [e] @ ys"
  shows "ordered_events board (next_page fi (evId e)) db = ys"
proof -
  let ?m = "filter (event_matches board fi) (hEvents db)"
  from tab have sorted: "sorted_wrt (<) (map evId ?m)"
    by (simp add: tables_ok_def ids_ok_def sorted_wrt_map sorted_wrt_filter)
  have "e \<in> set (ordered_events board fi db)" by (simp add: split)
  then have e: "event_matches board fi e" by (auto simp: ordered_events_def Let_def split: if_splits)
  show ?thesis
  proof (cases "fiAsc fi")
    case True
    then have m: "?m = xs @ [e] @ ys" using split by (simp add: ordered_events_def Let_def)
    have "filter (event_matches board (next_page fi (evId e))) (hEvents db) = filter (\<lambda>x. evId e < evId x) ?m"
      by (auto simp: next_page_asc [OF True e] intro!: filter_cong)
    also have "\<dots> = ys" using filter_above(1) [of evId xs e ys] sorted by (simp only: m)
    finally show ?thesis using True by (simp add: ordered_events_def next_page_def)
  next
    case False
    then have "rev ?m = xs @ [e] @ ys" using split by (simp add: ordered_events_def Let_def)
    from arg_cong [OF this, of rev] have m: "?m = rev ys @ [e] @ rev xs" by simp
    have "filter (event_matches board (next_page fi (evId e))) (hEvents db) = filter (\<lambda>x. evId x < evId e) ?m"
      by (auto simp: next_page_desc [OF False e] intro!: filter_cong)
    also have "\<dots> = rev ys" using filter_above(2) [of evId "rev ys" e "rev xs"] sorted by (simp only: m)
    finally show ?thesis using False by (simp add: ordered_events_def next_page_def)
  qed
qed

lemma pages_ordered:
  assumes "tables_ok db" and "length (ordered_events board fi db) < n"
  shows "pages n board fi db = ordered_events board fi db"
  using assms(2)
proof (induction n arbitrary: fi)
  case 0
  then show ?case by simp
next
  case (Suc n)
  let ?o = "ordered_events board fi db" and ?k = "page_limit fi"
  show ?case
  proof (cases "length ?o > ?k")
    case False
    then show ?thesis by (simp add: listEvents_ordered Let_def)
  next
    case True
    have k: "0 < ?k" by (simp add: page_limit_def)
    with True have "take ?k ?o \<noteq> []" by auto
    then have "?o = butlast (take ?k ?o) @ [last (take ?k ?o)] @ drop ?k ?o"
      by (metis append.assoc append_butlast_last_id append_take_drop_id)
    from ordered_next_page [OF assms(1) this]
    have rest: "ordered_events board (next_page fi (evId (last (take ?k ?o)))) db = drop ?k ?o" .
    moreover have "length (drop ?k ?o) < n" using Suc.prems True k by simp
    ultimately have "pages n board (next_page fi (evId (last (take ?k ?o)))) db = drop ?k ?o"
      using Suc.IH by metis
    with True show ?thesis by (simp add: listEvents_ordered Let_def)
  qed
qed

text \<open>
  C7: reading the history page by page returns every event that matches the filters exactly once, in
  id order; no page is longer than the limit, which is between 1 and 200.
\<close>

theorem paging_complete:
  assumes "tables_ok db" and "length (hEvents db) < n"
  shows "pages n board fi db = ordered_events board fi db \<and> distinct (map evId (pages n board fi db)) \<and>
    length (fst (listEvents board fi db)) \<le> page_limit fi \<and> 1 \<le> page_limit fi \<and> page_limit fi \<le> 200"
proof -
  have "length (ordered_events board fi db) \<le> length (hEvents db)"
    by (auto simp: ordered_events_def Let_def)
  then have "pages n board fi db = ordered_events board fi db"
    using assms by (intro pages_ordered) simp_all
  moreover have "distinct (map evId (filter (event_matches board fi) (hEvents db)))"
    using assms(1) ids_ok_distinct [OF ids_ok_sub] by (auto simp: tables_ok_def)
  then have "distinct (map evId (ordered_events board fi db))"
    by (simp add: ordered_events_def Let_def rev_map [symmetric])
  moreover have "length (fst (listEvents board fi db)) \<le> page_limit fi"
    by (simp add: listEvents_ordered Let_def)
  moreover have "1 \<le> page_limit fi" "page_limit fi \<le> 200" by (simp_all add: page_limit_def)
  ultimately show ?thesis by simp
qed

end
