(* ===== verification/HistoryClaims.thy ===== *)
theory HistoryClaims
  imports HistoryMachine HistoryPages
begin

text \<open>
  The properties of the board history: what a reader of the history can rely on in every room the
  server can reach, from opening a fresh database through any sequence of steps.
\<close>

section \<open>Reachable rooms\<close>

inductive reachable ::
    "string \<Rightarrow> rconfig \<Rightarrow> (snapshot \<Rightarrow> snapshot \<Rightarrow> snapshot) \<Rightarrow> hroom \<Rightarrow> bool" for board cfg load where
  Open: "wf_snap live \<Longrightarrow> open_room board now live empty_hdb = (db, Inr rc) \<Longrightarrow>
    reachable board cfg load (room_at db rc live)"
| Next: "reachable board cfg load r \<Longrightarrow> room_step board cfg load r r' \<Longrightarrow> reachable board cfg load r'"

lemma open_fresh_event:
  assumes "open_room board now live empty_hdb = (db, Inr rc)"
  shows "latestEventId board db \<noteq> None"
proof -
  from assms obtain c where "ensureLegacyImportCheckpoint board now live empty_hdb = Inr (db, c)"
    by (rule open_fresh_cases)
  then obtain inp db2 e ci where "insertEvent board now inp empty_hdb = Inr (db2, e)"
    "insertCheckpoint board now ci db2 = Inr (db, c)"
    by (auto simp: ensureLegacyImportCheckpoint_def empty_hdb_def bindR_eq_Inr)
  then have "hEvents db = [e]" "evBoard e = board"
    by (auto simp: insertEvent_Inr insertCheckpoint_def res_simps Let_def empty_hdb_def mk_event_def)
  then show ?thesis by (simp add: latestEventId_def)
qed

lemma latestEventId_grows: "latestEventId board db \<noteq> None \<Longrightarrow> grows db db' \<Longrightarrow> latestEventId board db' \<noteq> None"
  by (auto simp: latestEventId_last grows_def Let_def split: if_splits)

lemma reachable_ok:
  assumes "reachable board cfg load r" and "loads_wf load"
  shows "(\<exists>S. room_ok board S r) \<and> latestEventId board (hrDb r) \<noteq> None"
  using assms(1)
proof induction
  case (Open live now db rc)
  with open_fresh_ok [OF Open] open_fresh_event [OF Open(2)] show ?case by (simp add: room_at_def)
next
  case (Next r r')
  then obtain S S' where "room_evolves board S r S' r'" using room_step_evolves assms(2) by blast
  with Next.IH latestEventId_grows show ?case unfolding room_evolves_def by blast
qed

lemma room_reconstruct:
  assumes "room_ok board S r" and "getEvent board i (hrDb r) = Some e"
  shows "\<exists>t. reconstruct board (ByEvent i) (hrDb r) = Inr t \<and> wf_snap (reSnap t) \<and> snap_docs (reSnap t) = S i"
  using assms reconstruct_event by (simp add: room_ok_def hist_ok_def)

lemma getEvent_grows:
  assumes "getEvent board i db = Some e" and "grows db db'"
  shows "getEvent board i db' = Some e"
  using assms by (auto simp: getEvent_def grows_def find_append)

lemma getEvent_latest:
  assumes "tables_ok db" and "latestEventId board db = Some i"
  shows "\<exists>e. getEvent board i db = Some e"
proof -
  let ?es = "filter (\<lambda>e. evBoard e = board) (hEvents db)"
  from assms(2) have "?es \<noteq> []" "i = evId (last ?es)" by (auto simp: latestEventId_last Let_def split: if_splits)
  with last_in_set [of ?es] have "\<exists>e\<in>set (hEvents db). evBoard e = board \<and> evId e = i" by auto
  then show ?thesis unfolding getEvent_def by (cases "find (\<lambda>e. evBoard e = board \<and> evId e = i) (hEvents db)")
      (auto simp: find_None_iff)
qed

lemma room_latest:
  assumes "room_ok board S r" and "pending board (hrDb r) = []" and "latestEventId board (hrDb r) \<noteq> None"
  shows "\<exists>i t. latestEventId board (hrDb r) = Some i \<and> reconstruct board (ByEvent i) (hrDb r) = Inr t
    \<and> snap_docs (reSnap t) = snap_docs (hrLive r)"
proof -
  from assms(3) obtain i where i: "latestEventId board (hrDb r) = Some i" by blast
  from assms(1,2) have tl: "timeline_ok board S (hrDb r)" and live: "S (hNextEvent (hrDb r)) = snap_docs (hrLive r)"
    by (simp_all add: room_ok_def hist_ok_def pending_ok_def)
  from getEvent_latest [OF _ i] tl obtain e where "getEvent board i (hrDb r) = Some e"
    by (auto simp: timeline_ok_def)
  from room_reconstruct [OF assms(1) this] latestEventId_bound(1) [OF tl] i live show ?thesis by auto
qed

section \<open>A concrete room\<close>

text \<open>
  The concrete run behind the witnesses: a fresh board is opened, an AI edit puts a shape on the
  canvas, and the room is asked for its history.
\<close>

definition demo_put :: "hdb \<times> snapshot \<Rightarrow> hist_error + ((hdb \<times> snapshot) \<times> unit)" where
  "demo_put dl = (case dl of (db, live) \<Rightarrow> Inr ((db, live\<lparr>snapDocClock := Some (getClock live + 1),
     snapDocs := (demo_rec, getClock live + 1) # filter (\<lambda>(r, _). recId r \<noteq> ''shape:1'') (snapDocs live)\<rparr>), ()))"

definition demo_context :: hcontext where
  "demo_context = \<lparr>cxActor = Some ''agent:a'', cxName = ''Agent'', cxSession = None, cxSource = AI,
     cxType = None, cxMeta = [], cxImmediate = True, cxSuppress = False\<rparr>"

definition demo_rc :: recorder where
  "demo_rc = \<lparr>rcTimer = None, rcEventsAt = 0, rcLastAt = 0\<rparr>"

definition demo_open :: hroom where
  "demo_open = room_at (fst (open_room ''b'' 0 demo_live empty_hdb)) demo_rc demo_live"

definition demo_ready :: hroom where
  "demo_ready = demo_open\<lparr>hrContext := Some demo_context\<rparr>"

definition demo_room :: hroom where
  "demo_room = fst (storage_transaction ''b'' default_config 5 demo_put demo_ready)"

abbreviation demo_load :: "snapshot \<Rightarrow> snapshot \<Rightarrow> snapshot" where
  "demo_load \<equiv> \<lambda>s l. s"

lemma demo_loads: "loads_docs demo_load" "loads_wf demo_load"
  by (simp_all add: loads_docs_def loads_wf_def)

lemma demo_put_op: "canvas_op demo_put"
  unfolding canvas_op_def demo_put_def
  by (auto simp: wf_snap_def demo_rec_def list_all_iff getClock_def distinct_map intro: inj_on_subset)

lemma demo_open_runs: "open_room ''b'' 0 demo_live empty_hdb =
    (fst (open_room ''b'' 0 demo_live empty_hdb), Inr demo_rc)"
  by code_simp

lemma demo_open_reachable: "reachable ''b'' default_config demo_load demo_open"
  unfolding demo_open_def by (rule reachable.Open [OF _ demo_open_runs]) (simp add: demo_live_def wf_snap_def)

lemma demo_ready_reachable: "reachable ''b'' default_config demo_load demo_ready"
  unfolding demo_ready_def by (rule reachable.Next [OF demo_open_reachable room_step.Context])

lemma demo_room_reachable: "reachable ''b'' default_config demo_load demo_room"
  unfolding demo_room_def
  by (rule reachable.Next [OF demo_ready_reachable room_step.Edit [OF demo_put_op, of _ demo_context]])
    (simp_all add: demo_ready_def demo_context_def)

lemma demo_event: "\<exists>e. getEvent ''b'' 2 (hrDb demo_room) = Some e"
proof -
  have "getEvent ''b'' 2 (hrDb demo_room) \<noteq> None" by code_simp
  then show ?thesis by blast
qed

section \<open>History is never rewritten\<close>

text \<open>
  C1: in every reachable room each recorded event can be reconstructed (the replay never diverges),
  and whatever happens to the room afterwards, the reconstruction of that event gives the same board.
\<close>

theorem history_never_rewritten:
  assumes "loads_wf load" and "reachable board cfg load r" and "getEvent board i (hrDb r) = Some e"
  shows "\<exists>t. reconstruct board (ByEvent i) (hrDb r) = Inr t \<and> wf_snap (reSnap t) \<and>
    (\<forall>r'. room_runs board cfg load r r' \<longrightarrow> (\<exists>t'. reconstruct board (ByEvent i) (hrDb r') = Inr t' \<and>
       snap_docs (reSnap t') = snap_docs (reSnap t)))"
proof -
  from reachable_ok [OF assms(2,1)] obtain S where ok: "room_ok board S r" by blast
  from room_reconstruct [OF ok assms(3)] obtain t where
    t: "reconstruct board (ByEvent i) (hrDb r) = Inr t" "wf_snap (reSnap t)" "snap_docs (reSnap t) = S i" by blast
  have "\<exists>t'. reconstruct board (ByEvent i) (hrDb r') = Inr t' \<and> snap_docs (reSnap t') = snap_docs (reSnap t)"
    if runs: "room_runs board cfg load r r'" for r'
  proof -
    from room_runs_evolves [OF runs ok assms(1)] obtain S' where ev: "room_evolves board S r S' r'" by blast
    from ok have "tables_ok (hrDb r)" by (simp add: room_ok_def hist_ok_def timeline_ok_def)
    from getEvent_bound [OF this assms(3)] ev have "S' i = S i" by (simp add: room_evolves_def extends_def)
    moreover from getEvent_grows [OF assms(3)] ev have "getEvent board i (hrDb r') = Some e"
      by (simp add: room_evolves_def)
    ultimately show ?thesis using room_reconstruct [of board S' r' i e] ev t(3)
      by (auto simp: room_evolves_def)
  qed
  with t show ?thesis by blast
qed

theorem history_never_rewritten_witness:
  "\<exists>t. reconstruct ''b'' (ByEvent 2) (hrDb demo_room) = Inr t \<and> wf_snap (reSnap t) \<and>
    (\<forall>r'. room_runs ''b'' default_config demo_load demo_room r' \<longrightarrow>
      (\<exists>t'. reconstruct ''b'' (ByEvent 2) (hrDb r') = Inr t' \<and> snap_docs (reSnap t') = snap_docs (reSnap t)))"
  using demo_event history_never_rewritten [OF demo_loads(2) demo_room_reachable] by blast

text \<open>
  C4: a timer flush in a reachable room cannot fail to empty the pending fragments, leaves the live
  canvas alone, and afterwards reconstructing the newest event gives exactly the live board.
\<close>

theorem flush_records_live_board:
  assumes "loads_wf load" and "reachable board cfg load r"
  shows "let r' = fst (with_dr r (recorder_flush board cfg now (hrLive r) (hrDb r, hrRec r))) in
    getPendingFragmentCount board (hrDb r') = 0 \<and> hrLive r' = hrLive r \<and>
    (\<exists>i t. latestEventId board (hrDb r') = Some i \<and> reconstruct board (ByEvent i) (hrDb r') = Inr t \<and>
       snap_docs (reSnap t) = snap_docs (hrLive r))"
proof -
  from reachable_ok [OF assms(2,1)] obtain S where ok: "room_ok board S r"
    and ev: "latestEventId board (hrDb r) \<noteq> None" by blast
  define r' where "r' = fst (with_dr r (recorder_flush board cfg now (hrLive r) (hrDb r, hrRec r)))"
  from flush_room_evolves [OF ok, of cfg now] obtain S' where S': "room_ok board S' r'" "grows (hrDb r) (hrDb r')"
    by (auto simp: room_evolves_def r'_def)
  have pend: "pending board (hrDb r') = []"
    using recorder_flush_continues [of board S "hrDb r" "snap_docs (hrLive r)" "hrLive r" cfg now "hrRec r"] ok
    by (simp add: room_ok_def r'_def)
  moreover have "hrLive r' = hrLive r" by (simp add: r'_def)
  ultimately show ?thesis using room_latest [OF S'(1) pend latestEventId_grows [OF ev S'(2)]]
    by (simp add: getPendingFragmentCount_def pending_def r'_def Let_def)
qed

theorem flush_records_live_board_witness:
  "let r' = fst (with_dr demo_room (recorder_flush ''b'' default_config 9 (hrLive demo_room)
       (hrDb demo_room, hrRec demo_room))) in
    getPendingFragmentCount ''b'' (hrDb r') = 0 \<and> hrLive r' = hrLive demo_room \<and>
    (\<exists>i t. latestEventId ''b'' (hrDb r') = Some i \<and> reconstruct ''b'' (ByEvent i) (hrDb r') = Inr t \<and>
       snap_docs (reSnap t) = snap_docs (hrLive demo_room))"
  by (rule flush_records_live_board [OF demo_loads(2) demo_room_reachable])

section \<open>Edits recorded at once\<close>

lemma appendEvent_last:
  assumes "appendEvent board now inp db = Inr (db', e)"
  shows "\<exists>es. hEvents db' = es @ [e]" and "e = mk_event board now (evId e) inp"
  using assms by (auto simp: appendEvent_def res_simps insertEvent_Inr mk_event_def)

lemma maybeCheckpoint_events:
  assumes "pending board db = []"
  shows "hEvents (fst (fst (maybeCheckpoint board cfg now snap (db, rc)))) = hEvents db"
proof -
  have "hEvents db' = hEvents db" if "createCheckpoint board now ci db = Inr (db', c)" for ci db' c
    using that assms by (auto simp: createCheckpoint_def flushFragments_def pending_def insertCheckpoint_def
        res_simps Let_def)
  then show ?thesis
    by (auto simp: maybeCheckpoint_def Let_def bindS_def onDb_def split: sum.splits prod.splits)
qed

lemma recordSynchronousEvent_last:
  assumes ok: "hist_ok board S db live" and ch: "apply_all live (inChanges inp) = Some live'"
    and rec: "recordSynchronousEvent board cfg now after inp (db, rc) = ((db', rc'), Inr e)"
  shows "(\<exists>es. hEvents db' = es @ [e]) \<and> e = mk_event board now (evId e) inp"
proof -
  from flushFragments_total [OF ok] obtain db1 es where fl: "flushFragments board now True db = Inr (db1, es)"
    by blast
  from flush_continues(1) [OF ok fl] obtain S1 where ok1: "hist_ok board S1 db1 live"
    by (auto simp: continues_def evolves_def)
  from rec fl obtain db2 where ap: "appendEvent board now inp db1 = Inr (db2, e)"
    and mc: "maybeCheckpoint board cfg now after (db2, rc\<lparr>rcTimer := None\<rparr>) = ((db', rc'), Inr ())"
    by (auto simp: recordSynchronousEvent_def set_timer_def onDb_def bindS_def split: sum.splits prod.splits)
  from appendEvent_evolves [OF ok1 ap ch] have "pending board db2 = []" by blast
  from maybeCheckpoint_events [OF this, of cfg now after "rc\<lparr>rcTimer := None\<rparr>"] mc appendEvent_last [OF ap]
  show ?thesis by simp
qed

lemma changesBetween_mem:
  assumes "changesBetweenSnapshots b a = Inr cs"
  shows "c \<in> set cs \<longleftrightarrow> chBefore c = snap_docs b (chId c) \<and> chAfter c = snap_docs a (chId c) \<and>
    chBefore c \<noteq> chAfter c"
proof -
  let ?b = "records_by_id b" and ?a = "records_by_id a"
  have cs: "cs = concat (map (diff_at ?b ?a) (uniq (keys_of ?b @ keys_of ?a)))"
    using assms by (auto simp: changesBetweenSnapshots_def Let_def validateChanges_Inr)
  have "chId c \<in> set (uniq (keys_of ?b @ keys_of ?a))" if "map_of ?b (chId c) \<noteq> map_of ?a (chId c)"
    using that js.keys_look [of ?b] js.keys_look [of ?a] by (simp, metis domIff)
  then show ?thesis unfolding cs diff_changes_mem snap_docs_def by metis
qed

text \<open>
  C3: a committed edit that is recorded at once (an AI or system edit, or an immediate human one)
  leaves nothing pending, and its event, the newest one, reconstructs to the board the edit left.
\<close>

theorem immediate_edit_recorded:
  assumes "loads_wf load" and "reachable board cfg load r" and f: "canvas_op f"
    and cx: "hrContext r = Some cx" "\<not> cxSuppress cx" "cxSource cx \<noteq> Human \<or> cxImmediate cx"
    and tr: "storage_transaction board cfg now f r = (r', Inr (a, k))" "getClock (hrLive r) < k"
  shows "\<exists>e t. last (hEvents (hrDb r')) = e \<and> hEvents (hrDb r') \<noteq> [] \<and> evBoard e = board \<and>
    evActor e = cxActor cx \<and> evSource e = cxSource cx \<and> evClock e = Some k \<and>
    (\<forall>c. c \<in> set (evChanges e) \<longleftrightarrow> chBefore c = snap_docs (hrLive r) (chId c) \<and>
       chAfter c = snap_docs (hrLive r') (chId c) \<and> chBefore c \<noteq> chAfter c) \<and>
    getPendingFragmentCount board (hrDb r') = 0 \<and>
    reconstruct board (ByEvent (evId e)) (hrDb r') = Inr t \<and> snap_docs (reSnap t) = snap_docs (hrLive r')"
proof -
  from reachable_ok [OF assms(2,1)] obtain S where ok: "room_ok board S r" by blast
  from tr(1) obtain db live where fr: "f (hrDb r, hrLive r) = Inr ((db, live), a)" and k: "k = getClock live"
    by (auto simp: storage_transaction_def split: sum.splits prod.splits)
  with f ok have live: "db = hrDb r" "wf_snap live" unfolding canvas_op_def room_ok_def by blast+
  from tr fr cx k live obtain db' rc' where
    rc: "record_changes board cfg now cx (hrLive r) live (hrDb r, hrRec r) = ((db', rc'), Inr ())"
    and r': "hrDb r' = db'" "hrLive r' = live"
    by (auto simp: storage_transaction_def split: sum.splits prod.splits)
  then obtain cs e where cs: "changesBetweenSnapshots (hrLive r) live = Inr cs"
    and rs: "recordSynchronousEvent board cfg now live (records_input cx cs (getClock live)) (hrDb r, hrRec r)
      = ((db', rc'), Inr e)"
    using cx(3) by (auto simp: record_changes_def Let_def bindS_def split: sum.splits prod.splits if_splits)
  have h: "hist_ok board S (hrDb r) (snap_docs (hrLive r))" using ok by (simp add: room_ok_def)
  have ap: "apply_all (snap_docs (hrLive r)) (inChanges (records_input cx cs (getClock live))) = Some (snap_docs live)"
    using changesBetween_applies(1) [OF cs] by (simp add: records_input_def)
  from recordSynchronousEvent_last [OF h ap rs] obtain es where e: "hEvents db' = es @ [e]"
    "e = mk_event board now (evId e) (records_input cx cs (getClock live))" by blast
  obtain i where "e = mk_event board now i (records_input cx cs (getClock live))" using e(2) by blast
  then have fields: "evBoard e = board" "evActor e = cxActor cx" "evSource e = cxSource cx"
    "evClock e = Some (getClock live)" "evChanges e = cs"
    by (simp_all add: mk_event_def records_input_def)
  from recordSynchronousEvent_evolves [OF h live(2) ap rs] obtain S' where
    S': "evolves board S (hrDb r) S' db' (snap_docs live)" "pending board db' = []" by blast
  have ok': "room_ok board S' r'"
    using room_evolvesI [OF ok, of S' r'] S'(1) r' live(2) by (simp add: room_evolves_def)
  have latest: "latestEventId board db' = Some (evId e)"
    using e(1) fields(1) by (simp add: latestEventId_last Let_def)
  from room_latest [OF ok'] S'(2) r' latest obtain t where
    "reconstruct board (ByEvent (evId e)) db' = Inr t" "snap_docs (reSnap t) = snap_docs live" by auto
  moreover have "c \<in> set cs \<longleftrightarrow> chBefore c = snap_docs (hrLive r) (chId c) \<and>
       chAfter c = snap_docs live (chId c) \<and> chBefore c \<noteq> chAfter c" for c
    by (rule changesBetween_mem [OF cs])
  moreover have "getPendingFragmentCount board db' = 0"
    using S'(2) by (simp add: getPendingFragmentCount_def pending_def)
  ultimately show ?thesis using e(1) fields k r' by (intro exI [of _ e] exI [of _ t]) simp
qed

theorem immediate_edit_recorded_witness:
  "\<exists>e t. last (hEvents (hrDb demo_room)) = e \<and> evSource e = AI \<and> evClock e = Some 1 \<and>
    reconstruct ''b'' (ByEvent (evId e)) (hrDb demo_room) = Inr t \<and>
    snap_docs (reSnap t) = snap_docs (hrLive demo_room)"
proof -
  have "snd (storage_transaction ''b'' default_config 5 demo_put demo_ready) = Inr ((), 1)" by code_simp
  then have tr: "storage_transaction ''b'' default_config 5 demo_put demo_ready = (demo_room, Inr ((), 1))"
    by (simp add: demo_room_def prod_eq_iff)
  have cx: "hrContext demo_ready = Some demo_context" "\<not> cxSuppress demo_context"
    "cxSource demo_context \<noteq> Human \<or> cxImmediate demo_context" "getClock (hrLive demo_ready) < 1"
    by (simp_all add: demo_ready_def demo_context_def demo_open_def room_at_def demo_live_def getClock_def)
  from immediate_edit_recorded [OF demo_loads(2) demo_ready_reachable demo_put_op cx(1-3) tr cx(4)]
  show ?thesis by (auto simp: demo_context_def)
qed

section \<open>Restoring a version\<close>

lemma validateSnapshot_wf: "wf_snap s \<Longrightarrow> validateSnapshot s = Inr s"
  by (simp add: validateSnapshot_Inr wf_snap_def list_all_iff)

lemma insertCheckpoint_total: "wf_snap (ciSnap ci) \<Longrightarrow> \<exists>db' c. insertCheckpoint board now ci db = Inr (db', c)"
  by (simp add: insertCheckpoint_def validateSnapshot_wf Let_def)

lemma insertEvent_total:
  "inType inp \<noteq> [] \<Longrightarrow> length (inType inp) \<le> 200 \<Longrightarrow> \<forall>c\<in>set (inChanges inp). valid_change c \<Longrightarrow>
   \<exists>db' e. insertEvent board now inp db = Inr (db', e)"
  by (auto simp: insertEvent_Inr)

lemma flush_idle: "pending board db = [] \<Longrightarrow> flushFragments board now True db = Inr (db, [])"
  by (simp add: flushFragments_def pending_def)

lemma recorder_flush_total:
  assumes ok: "hist_ok board S db (snap_docs snap)" and wf: "wf_snap snap"
  shows "\<exists>es. snd (recorder_flush board cfg now snap (db, rc)) = Inr es"
proof -
  from flushFragments_total [OF ok] obtain db1 es where fl: "flushFragments board now True db = Inr (db1, es)"
    by blast
  from flush_continues(2) [OF ok fl] have p: "pending board db1 = []" .
  let ?latest = "the_or 0 (latestEventId board db1)"
  let ?ci = "\<lparr>ciSnap = snap, ciBy = None, ciAt = Some now,
     ciBase = Some (if ?latest = 0 then None else Some ?latest), ciLabel = None, ciReason = ''periodic''\<rparr>"
  obtain db2 c where "createCheckpoint board now ?ci db1 = Inr (db2, c)"
    using insertCheckpoint_total [of ?ci board now db1] wf by (auto simp: createCheckpoint_def flush_idle [OF p])
  then have "snd (maybeCheckpoint board cfg now snap (db1, rc1)) = Inr ()" for rc1
    by (simp add: maybeCheckpoint_def Let_def onDb_def)
  from this [of "rc\<lparr>rcTimer := None\<rparr>"]
  show ?thesis
    by (cases "maybeCheckpoint board cfg now snap (db1, rc\<lparr>rcTimer := None\<rparr>)")
      (auto simp: recorder_flush_def onDb_def set_timer_def fl bindS_def)
qed

definition ids_bounded :: "docs \<Rightarrow> bool" where
  "ids_bounded d \<longleftrightarrow> (\<forall>i. d i \<noteq> None \<longrightarrow> length i \<le> 200)"

lemma prepareRestore_total:
  assumes "pending board db = []" and "wf_snap live" and "reconstruct board (riTarget ri) db = Inr t"
  shows "\<exists>db' p. prepareRestore board now rid ri live db = Inr (db', p) \<and> rpTargetState p = t"
proof -
  let ?inp = "restore_event board rid ri ''restore.started'' [] live"
  obtain db1 e where e: "insertEvent board now ?inp db = Inr (db1, e)"
    using insertEvent_total [of ?inp board now db] by (auto simp: restore_event_def)
  let ?ci = "\<lparr>ciSnap = live, ciBy = Some (riActor ri), ciAt = riAt ri, ciBase = Some (Some (evId e)),
    ciLabel = Some ''Before restore'', ciReason = ''pre_restore''\<rparr>"
  obtain db2 c where c: "insertCheckpoint board now ?ci db1 = Inr (db2, c)"
    using insertCheckpoint_total [of ?ci board now db1] assms(2) by auto
  show ?thesis using e c by (simp add: prepareRestore_def flush_idle [OF assms(1)] assms(3))
qed

lemma completeRestore_total:
  assumes "pending board db = []" and "wf_snap live" and "wf_snap restored"
    and "ids_bounded (snap_docs live)" and "ids_bounded (snap_docs restored)"
  shows "\<exists>db' e c. completeRestore board now rid ri live restored db = Inr (db', e, c)"
proof -
  have "\<forall>i. snap_docs live i \<noteq> snap_docs restored i \<longrightarrow> length i \<le> 200"
    using assms(4,5) unfolding ids_bounded_def by metis
  from changesBetween_defined [OF assms(2,3) this] obtain cs where
    cs: "changesBetweenSnapshots live restored = Inr cs" by blast
  let ?inp = "restore_event board rid ri ''restore.completed'' cs restored"
  obtain db1 e where e: "insertEvent board now ?inp db = Inr (db1, e)"
    using insertEvent_total [of ?inp board now db] changesBetween_applies(2) [OF cs]
    by (auto simp: restore_event_def)
  let ?ci = "\<lparr>ciSnap = restored, ciBy = Some (riActor ri), ciAt = riAt ri, ciBase = Some (Some (evId e)),
    ciLabel = Some ''Restored version'', ciReason = ''restore_completed''\<rparr>"
  obtain db2 c where c: "insertCheckpoint board now ?ci db1 = Inr (db2, c)"
    using insertCheckpoint_total [of ?ci board now db1] assms(3) by auto
  show ?thesis using e c by (simp add: completeRestore_def flush_idle [OF assms(1)] cs)
qed

lemma completeRestore_event:
  assumes "completeRestore board now rid ri live restored db = Inr (db', e, c)"
  shows "\<exists>x. getEvent board (evId e) db' = Some x"
proof -
  from assms obtain db1 inp db2 ci where ev: "insertEvent board now inp db1 = Inr (db2, e)"
    and cp: "insertCheckpoint board now ci db2 = Inr (db', c)"
    by (auto simp: completeRestore_def res_simps)
  then have "e \<in> set (hEvents db')" "evBoard e = board"
    by (auto simp: insertEvent_Inr insertCheckpoint_def res_simps Let_def mk_event_def)
  then show ?thesis unfolding getEvent_def
    by (cases "find (\<lambda>x. evBoard x = board \<and> evId x = evId e) (hEvents db')") (auto simp: find_None_iff)
qed

text \<open>The room after the flush that every restore starts with.\<close>

lemma flushed_room:
  assumes "room_ok board S r"
  obtains r1 es S1 where "with_dr r (recorder_flush board cfg now (hrLive r) (hrDb r, hrRec r)) = (r1, Inr es)"
    "room_evolves board S r S1 r1" "pending board (hrDb r1) = []" "hrLive r1 = hrLive r"
proof -
  let ?m = "recorder_flush board cfg now (hrLive r) (hrDb r, hrRec r)"
  have h: "hist_ok board S (hrDb r) (snap_docs (hrLive r))" "wf_snap (hrLive r)"
    using assms by (simp_all add: room_ok_def)
  from recorder_flush_total [OF h] obtain es where es: "snd ?m = Inr es" by blast
  from flush_room_evolves [OF assms] obtain S1 where S1: "room_evolves board S r S1 (fst (with_dr r ?m))" by blast
  have "with_dr r ?m = (fst (with_dr r ?m), Inr es)" using es by (metis prod.collapse with_dr_simps(3))
  then show ?thesis
    using that [of "fst (with_dr r ?m)" es S1] S1 recorder_flush_continues [OF h(1,2) refl, of cfg now "hrRec r"] by simp
qed

lemma restoreRoomVersion_flushed:
  assumes "with_dr r (recorder_flush board cfg now (hrLive r) (hrDb r, hrRec r)) = (r1, Inr es)"
  shows "restoreRoomVersion board cfg now rid load rq r =
    (case restore_callback board now rid load rq (hrDb r1, hrLive r1) of
       Inl e \<Rightarrow> (r1\<lparr>hrContext := hrContext r\<rparr>, Inl e)
     | Inr ((db, live), a) \<Rightarrow>
         (r1\<lparr>hrDb := db, hrLive := live, hrContext := hrContext r\<rparr>, Inr (a, getClock live)))"
  by (simp add: restoreRoomVersion_def assms storage_transaction_def split: sum.split prod.split)

text \<open>
  C2: restoring a recorded event at the expected clock succeeds in every reachable room (record ids
  within the validated 200 characters), leaves exactly the board of that event on the canvas, records
  it as an event that reconstructs to it, and removes no event and no checkpoint.
\<close>

theorem restore_exact:
  assumes load: "loads_docs load" and re: "reachable board cfg load r"
    and ev: "getEvent board (rqEvent rq) (hrDb r) = Some e0" and clock: "getClock (hrLive r) = rqClock rq"
    and t: "reconstruct board (ByEvent (rqEvent rq)) (hrDb r) = Inr t"
    and ids: "ids_bounded (snap_docs (hrLive r))" "ids_bounded (snap_docs (reSnap t))"
  shows "\<exists>r' e c k t'. restoreRoomVersion board cfg now rid load rq r = (r', Inr ((e, c), k)) \<and>
    snap_docs (hrLive r') = snap_docs (reSnap t) \<and> hrContext r' = hrContext r \<and>
    reconstruct board (ByEvent (evId e)) (hrDb r') = Inr t' \<and> snap_docs (reSnap t') = snap_docs (reSnap t) \<and>
    grows (hrDb r) (hrDb r')"
proof -
  from reachable_ok [OF re loads_docs_wf [OF load]] obtain S where ok: "room_ok board S r" by blast
  from flushed_room [OF ok, of cfg now] obtain r1 es S1 where
    fl: "with_dr r (recorder_flush board cfg now (hrLive r) (hrDb r, hrRec r)) = (r1, Inr es)"
    and S1: "room_evolves board S r S1 r1" "pending board (hrDb r1) = []" "hrLive r1 = hrLive r" .
  from S1(1) have ok1: "room_ok board S1 r1" and g: "grows (hrDb r) (hrDb r1)"
    and ext: "extends (hNextEvent (hrDb r)) S S1" by (simp_all add: room_evolves_def)
  have wf: "wf_snap (hrLive r)" using ok by (simp add: room_ok_def)
  from room_reconstruct [OF ok ev] t have tS: "snap_docs (reSnap t) = S (rqEvent rq)" by simp
  from room_reconstruct [OF ok1 getEvent_grows [OF ev g]] obtain t1 where
    t1: "reconstruct board (ByEvent (rqEvent rq)) (hrDb r1) = Inr t1" "wf_snap (reSnap t1)"
      "snap_docs (reSnap t1) = S1 (rqEvent rq)" by blast
  have "tables_ok (hrDb r)" using ok by (simp add: room_ok_def hist_ok_def timeline_ok_def)
  from getEvent_bound [OF this ev] ext have same: "snap_docs (reSnap t1) = snap_docs (reSnap t)"
    by (simp add: t1 tS extends_def)
  define ri where "ri = \<lparr>riTarget = ByEvent (rqEvent rq), riActor = actor_id (rqActor rq),
                riSource = raSource (rqActor rq), riSession = rqSession rq, riAt = None\<rparr>"
  define restored where "restored = load (reSnap t1) (hrLive r)"
  have res: "wf_snap restored" "snap_docs restored = snap_docs (reSnap t)"
    using load t1(2) same by (simp_all add: restored_def loads_docs_def)
  from prepareRestore_total [OF S1(2) wf, of ri t1 now rid] t1(1) obtain db2 p where
    pr: "prepareRestore board now rid ri (hrLive r) (hrDb r1) = Inr (db2, p)" "rpTargetState p = t1"
    by (auto simp: ri_def)
  have h1: "hist_ok board S1 (hrDb r1) (snap_docs (hrLive r))" using ok1 S1(3) by (simp add: room_ok_def)
  from prepareRestore_evolves [OF h1 wf pr(1)] have "pending board db2 = []" by metis
  from completeRestore_total [OF this wf res(1) ids(1)] ids(2) res(2) obtain db3 e c where
    co: "completeRestore board now rid ri (hrLive r) restored db2 = Inr (db3, e, c)" by fastforce
  have cb: "restore_callback board now rid load rq (hrDb r1, hrLive r) = Inr ((db3, restored), e, c)"
    using clock pr co by (simp add: restore_callback_def ri_def [symmetric] restored_def)
  from restore_callback_evolves [OF h1 wf loads_docs_wf [OF load] cb] obtain S3 where
    S3: "evolves board S1 (hrDb r1) S3 db3 (snap_docs restored)" "S3 (evId e) = snap_docs restored" by metis
  let ?r' = "r1\<lparr>hrDb := db3, hrLive := restored, hrContext := hrContext r\<rparr>"
  have run: "restoreRoomVersion board cfg now rid load rq r = (?r', Inr ((e, c), getClock restored))"
    by (simp add: restoreRoomVersion_flushed [OF fl] S1(3) cb)
  have "room_evolves board S1 r1 S3 ?r'"
    by (rule room_evolvesI [OF ok1]) (use S3 res in simp_all)
  then have ok3: "room_ok board S3 ?r'" by (simp add: room_evolves_def)
  have "\<exists>x. getEvent board (evId e) db3 = Some x"
    by (rule completeRestore_event [OF co])
  with room_reconstruct [OF ok3] S3(2) res(2) obtain t' where
    "reconstruct board (ByEvent (evId e)) db3 = Inr t'" "snap_docs (reSnap t') = snap_docs (reSnap t)"
    by fastforce
  moreover have "grows (hrDb r) db3" using g S3(1) by (auto simp: evolves_def intro: grows_trans)
  ultimately show ?thesis using run res(2) by auto
qed

theorem restore_exact_witness:
  "\<exists>r' res. restoreRoomVersion ''b'' default_config 9 ''rid'' demo_load
      \<lparr>rqEvent = 1, rqClock = 1, rqActor = \<lparr>raUser = ''u'', raName = ''U'', raActor = None, raSource = None\<rparr>,
       rqSession = None\<rparr> demo_room = (r', Inr res) \<and> snap_docs (hrLive r') ''shape:1'' = None"
proof -
  let ?rq = "\<lparr>rqEvent = 1, rqClock = 1, rqActor = \<lparr>raUser = ''u'', raName = ''U'', raActor = None, raSource = None\<rparr>,
       rqSession = None\<rparr>"
  have "getEvent ''b'' 1 (hrDb demo_room) \<noteq> None" by code_simp
  then obtain e where e: "getEvent ''b'' (rqEvent ?rq) (hrDb demo_room) = Some e" by auto
  have "case reconstruct ''b'' (ByEvent 1) (hrDb demo_room) of Inl _ \<Rightarrow> False | Inr t \<Rightarrow> snapDocs (reSnap t) = []"
    by code_simp
  then obtain t where t: "reconstruct ''b'' (ByEvent (rqEvent ?rq)) (hrDb demo_room) = Inr t" "snapDocs (reSnap t) = []"
    by (cases "reconstruct ''b'' (ByEvent 1) (hrDb demo_room)") auto
  have d: "snapDocs (hrLive demo_room) = [(demo_rec, 1)]" by code_simp
  have docs: "snap_docs (reSnap t) = (\<lambda>_. None)" "snap_docs (hrLive demo_room) = [''shape:1'' \<mapsto> demo_rec]"
    using t(2) d by (simp_all add: snap_docs_def records_by_id_def map_of_entries_def demo_rec_def)
  have "getClock (hrLive demo_room) = 1" by code_simp
  then show ?thesis
    using restore_exact [OF demo_loads(1) demo_room_reachable e _ t(1), of 9 "''rid''"] docs
    by (fastforce simp: ids_bounded_def split: if_splits)
qed

text \<open>
  a restore that expects another clock than the board's changes nothing on the canvas: it answers
  the board-changed error, and the only thing it writes is the flush of the pending fragments.
\<close>

theorem restore_stale_clock:
  assumes "loads_wf load" and "reachable board cfg load r" and "getClock (hrLive r) \<noteq> rqClock rq"
  shows "restoreRoomVersion board cfg now rid load rq r =
    ((fst (with_dr r (recorder_flush board cfg now (hrLive r) (hrDb r, hrRec r))))\<lparr>hrContext := hrContext r\<rparr>,
     Inl HBoardChanged)"
proof -
  from reachable_ok [OF assms(2,1)] obtain S where ok: "room_ok board S r" by blast
  from flushed_room [OF ok, of cfg now] obtain r1 es where
    fl: "with_dr r (recorder_flush board cfg now (hrLive r) (hrDb r, hrRec r)) = (r1, Inr es)"
    and live: "hrLive r1 = hrLive r" by metis
  show ?thesis
    using assms(3) live by (simp add: restoreRoomVersion_flushed [OF fl] restore_callback_def fl)
qed

theorem restore_stale_clock_witness:
  "snd (restoreRoomVersion ''b'' default_config 9 ''rid'' demo_load
      \<lparr>rqEvent = 1, rqClock = 7, rqActor = \<lparr>raUser = ''u'', raName = ''U'', raActor = None, raSource = None\<rparr>,
       rqSession = None\<rparr> demo_room) = Inl HBoardChanged"
proof -
  have "getClock (hrLive demo_room) = 1" by code_simp
  then show ?thesis by (simp add: restore_stale_clock [OF demo_loads(2) demo_room_reachable])
qed

theorem paging_complete_witness:
  "pages 5 ''b'' \<lparr>fiUser = None, fiSource = None, fiType = None, fiEntityType = None, fiEntityId = None,
     fiFrom = None, fiTo = None, fiAfter = None, fiBefore = None, fiAsc = False, fiLimit = Some 1\<rparr> (hrDb demo_room)
   = rev (hEvents (hrDb demo_room))"
proof -
  have "tables_ok (hrDb demo_room)"
    using reachable_ok [OF demo_room_reachable demo_loads(2)] by (auto simp: room_ok_def hist_ok_def timeline_ok_def)
  moreover have "length (hEvents (hrDb demo_room)) < 5" by code_simp
  moreover have "list_all (\<lambda>e. evBoard e = ''b'') (hEvents (hrDb demo_room))" by code_simp
  ultimately show ?thesis
    by (simp add: paging_complete ordered_events_def event_matches_def opt_holds_def list_all_iff)
qed

end
