(* ===== verification/Compaction.thy ===== *)
theory Compaction
  imports HistoryReconstruct
begin

text \<open>
  Board-history compaction, \<open>scripts/compact-history.ts\<close>: which checkpoints the retention policy
  keeps, which gaps between them are deleted, the pass that deletes them behind the retention gate
  and verifies every restore point before and after, and the command line that guards it. The
  SHA-256 of the canonical JSON of a snapshot is a parameter \<open>hash\<close>; the file system, \<open>VACUUM\<close> and the
  backup tool are left out, their outcomes are arguments.
\<close>

section \<open>ISO weeks\<close>

definition day_ms :: int where "day_ms = 86400000"

text \<open>\<open>getUTCFullYear\<close> of a day number, and the day number of \<open>Date.UTC(y, 0, 4)\<close>.\<close>

definition year_of_day :: "int \<Rightarrow> int" where
  "year_of_day d =
     (let z = d + 719468; era = z div 146097; doe = z mod 146097;
          yoe = (doe - doe div 1460 + doe div 36524 - doe div 146096) div 365;
          doy = doe - (365 * yoe + yoe div 4 - yoe div 100);
          mp = (5 * doy + 2) div 153
      in yoe + era * 400 + (if mp < 10 then 0 else 1))"

definition january_4 :: "int \<Rightarrow> int" where
  "january_4 y = (let y' = y - 1; era = y' div 400; yoe = y' mod 400
     in era * 146097 + yoe * 365 + yoe div 4 - yoe div 100 + 309 - 719468)"

definition week_thursday :: "int \<Rightarrow> int" where
  "week_thursday ts = (let d = ts div day_ms; day = (d + 3) mod 7 in d - day + 3)"

text \<open>\<open>Math.round(n / 7)\<close>\<close>

definition round_div_7 :: "int \<Rightarrow> int" where
  "round_div_7 n = (2 * n + 7) div 14"

definition isoWeek :: "int \<Rightarrow> int \<times> int" where
  "isoWeek ts = (let t = week_thursday ts; y = year_of_day t in (y, 1 + round_div_7 (t - january_4 y - 3)))"

section \<open>The plan\<close>

record totals =
  toEvents :: nat
  toCheckpoints :: nat
  toPrunable :: nat

record plan =
  plBoard :: string
  plBoundary :: nat
  plRetained :: "nat list"
  plDeletedCps :: "nat list"
  plDeletable :: "nat list"
  plOldest :: "int option"
  plTotals :: totals

definition always_retained :: "hcheckpoint list \<Rightarrow> nat list" where
  "always_retained cps = (if cps = [] then [] else
     [cpId (last cps), cpId (hd cps)] @ (case find (\<lambda>c. cpBase c = None) cps of None \<Rightarrow> [] | Some c \<Rightarrow> [cpId c]))"

definition retain_step ::
    "int \<Rightarrow> nat list \<times> ((int \<times> int) \<times> nat) list \<Rightarrow> hcheckpoint \<Rightarrow> nat list \<times> ((int \<times> int) \<times> nat) list" where
  "retain_step cutoff st row = (case st of (retained, weekly) \<Rightarrow>
     if cpReason row = ''explicit'' \<or> cpReason row = ''pre_restore'' then (cpId row # retained, weekly)
     else if cpAt row \<ge> cutoff then (cpId row # retained, weekly)
     else (case map_of weekly (isoWeek (cpAt row)) of
         None \<Rightarrow> (retained, AList.update (isoWeek (cpAt row)) (cpId row) weekly)
       | Some held \<Rightarrow> (retained, if cpId row > held then AList.update (isoWeek (cpAt row)) (cpId row) weekly else weekly)))"

definition retained_ids :: "int \<Rightarrow> hcheckpoint list \<Rightarrow> nat list" where
  "retained_ids cutoff cps = (case foldl (retain_step cutoff) (always_retained cps, []) cps of
     (retained, weekly) \<Rightarrow> map snd weekly @ retained)"

fun plan_gaps :: "string \<Rightarrow> int \<Rightarrow> hdb \<Rightarrow> hcheckpoint list \<Rightarrow> nat list \<times> (nat \<times> nat) list" where
  "plan_gaps board cutoff db (a # b # rest) =
     (if cpAt b \<ge> cutoff then ([], [])
      else let lower = base_of a; bound = base_of b; tl = plan_gaps board cutoff db (b # rest) in
        if bound \<le> lower then tl
        else let rows = events_between board lower bound db in
          if rows = [] then tl else (map evId rows @ fst tl, (lower, bound) # snd tl))"
| "plan_gaps board cutoff db _ = ([], [])"

text \<open>\<open>event_type LIKE 'object.%'\<close>: SQLite's \<open>LIKE\<close> ignores the case of ASCII letters.\<close>

definition prunable_type :: "string \<Rightarrow> bool" where
  "prunable_type s \<longleftrightarrow> map to_lower (take 7 s) = ''object.''"

definition min_at :: "hevent list \<Rightarrow> int option" where
  "min_at es = (case es of [] \<Rightarrow> None | e # _ \<Rightarrow> Some (foldl (\<lambda>m x. min m (evAt x)) (evAt e) es))"

definition in_gap :: "(nat \<times> nat) list \<Rightarrow> hcheckpoint \<Rightarrow> bool" where
  "in_gap gaps c \<longleftrightarrow> list_ex (\<lambda>(lo, up). base_of c > lo \<and> base_of c < up) gaps"

definition planCompaction :: "hdb \<Rightarrow> string \<Rightarrow> int \<Rightarrow> int \<Rightarrow> int \<Rightarrow> plan" where
  "planCompaction db board now detailedDays checkpointDays =
     (let cps = filter (\<lambda>c. cpBoard c = board) (hCheckpoints db);
          evs = filter (\<lambda>e. evBoard e = board) (hEvents db);
          retained = retained_ids (now - checkpointDays * day_ms) cps;
          retainedRows = filter (\<lambda>c. cpId c \<in> set retained) cps;
          gaps = plan_gaps board (now - detailedDays * day_ms) db retainedRows;
          boundary = (if fst gaps = [] then 0 else last (fst gaps))
      in \<lparr>plBoard = board, plBoundary = boundary,
          plRetained = map cpId retainedRows,
          plDeletedCps = map cpId (filter (in_gap (snd gaps)) (filter (\<lambda>c. cpId c \<notin> set retained) cps)),
          plDeletable = fst gaps,
          plOldest = min_at (filter (\<lambda>e. prunable_type (evType e) \<and> evId e > boundary) evs),
          plTotals = \<lparr>toEvents = length evs, toCheckpoints = length cps,
                      toPrunable = length (filter (\<lambda>e. prunable_type (evType e)) evs)\<rparr>\<rparr>)"

definition verificationTargets :: "hdb \<Rightarrow> string \<Rightarrow> plan \<Rightarrow> target list" where
  "verificationTargets db board pl =
     (let evs = map evId (filter (\<lambda>e. evBoard e = board) (hEvents db)) in
      map ByCheckpoint (plRetained pl) @
      map ByEvent (filter (\<lambda>i. i \<notin> set (plDeletable pl)) (filter (\<lambda>i. i \<le> plBoundary pl) evs)) @
      map ByEvent (take 100 (rev (filter (\<lambda>i. i > plBoundary pl) evs))))"

section \<open>The pass\<close>

datatype cerror =
    CHist hist_error
  | CBoardChanged
  | CCountMismatch nat nat
  | CRestorePointChanged target
  | CDryRun
  | CGateOpen
  | CManyBoards nat

definition hist_result :: "hist_error + 'a \<Rightarrow> cerror + 'a" where
  "hist_result m = (case m of Inl e \<Rightarrow> Inl (CHist e) | Inr a \<Rightarrow> Inr a)"

text \<open>The triggers of migration \<open>history:0006\<close>: a delete is refused unless the gate row exists.\<close>

definition delete_events :: "string \<Rightarrow> nat list \<Rightarrow> hdb \<Rightarrow> hist_error + (hdb \<times> nat)" where
  "delete_events board ids db =
     (let gone = filter (\<lambda>e. evBoard e = board \<and> evId e \<in> set ids) (hEvents db) in
      if gone \<noteq> [] \<and> \<not> hGate db then Inl HAppendOnly
      else Inr (db\<lparr>hEvents := filter (\<lambda>e. \<not> (evBoard e = board \<and> evId e \<in> set ids)) (hEvents db)\<rparr>, length gone))"

definition delete_checkpoint :: "string \<Rightarrow> nat \<Rightarrow> hdb \<Rightarrow> hist_error + (hdb \<times> nat)" where
  "delete_checkpoint board i db =
     (let gone = filter (\<lambda>c. cpBoard c = board \<and> cpId c = i) (hCheckpoints db) in
      if gone \<noteq> [] \<and> \<not> hGate db then Inl HAppendOnly
      else Inr (db\<lparr>hCheckpoints := filter (\<lambda>c. \<not> (cpBoard c = board \<and> cpId c = i)) (hCheckpoints db)\<rparr>, length gone))"

function batches :: "nat list \<Rightarrow> nat list list" where
  "batches ids = (if ids = [] then [] else take 400 ids # batches (drop 400 ids))"
  by auto
termination by (relation "measure length") auto

declare batches.simps [simp del]

definition delete_all ::
    "('i \<Rightarrow> hdb \<Rightarrow> hist_error + (hdb \<times> nat)) \<Rightarrow> 'i list \<Rightarrow> hdb \<Rightarrow> hist_error + (hdb \<times> nat)" where
  "delete_all del is db = foldR (\<lambda>(d, n) i. bindR (del i d) (\<lambda>(d', k). Inr (d', n + k))) (db, 0) is"

definition snapshotHashes :: "(snapshot \<Rightarrow> string) \<Rightarrow> string \<Rightarrow> target list \<Rightarrow> hdb \<Rightarrow> hist_error + string list" where
  "snapshotHashes hash board targets db =
     mapR (\<lambda>t. bindR (reconstruct board t db) (\<lambda>r. Inr (hash (reSnap r)))) targets"

definition first_difference :: "(target \<times> string) list \<Rightarrow> string list \<Rightarrow> target option" where
  "first_difference before after = map_option (fst \<circ> fst) (find (\<lambda>((t, h), h'). h \<noteq> h') (zip before after))"

record pass_counts =
  pcEvents :: nat
  pcCheckpoints :: nat

text \<open>The body of \<open>database.transaction\<close>; an error rolls all of it back.\<close>

definition compaction_pass ::
    "(snapshot \<Rightarrow> string) \<Rightarrow> bool \<Rightarrow> nat option \<Rightarrow> plan \<Rightarrow> target list \<Rightarrow> string list \<Rightarrow> hdb
       \<Rightarrow> cerror + (hdb \<times> pass_counts)" where
  "compaction_pass hash apply_it plannedLatest pl targets before db =
     (let board = plBoard pl in
      bindR (guardR (latestEventId board db = plannedLatest \<and>
          length (filter (\<lambda>c. cpBoard c = board) (hCheckpoints db)) = toCheckpoints (plTotals pl)) CBoardChanged) (\<lambda>_.
      bindR (guardR (\<not> hGate db) CGateOpen) (\<lambda>_.
      bindR (hist_result (delete_all (delete_events board) (batches (plDeletable pl)) (db\<lparr>hGate := True\<rparr>))) (\<lambda>(db1, n).
      bindR (guardR (n = length (plDeletable pl)) (CCountMismatch n (length (plDeletable pl)))) (\<lambda>_.
      bindR (hist_result (delete_all (delete_checkpoint board) (plDeletedCps pl) db1)) (\<lambda>(db2, k).
      (let db3 = db2\<lparr>hGate := False\<rparr> in
       bindR (hist_result (snapshotHashes hash board targets db3)) (\<lambda>after.
       (case first_difference (zip targets before) after of
          Some t \<Rightarrow> Inl (CRestorePointChanged t)
        | None \<Rightarrow> bindR (guardR apply_it CDryRun) (\<lambda>_. Inr (db3, \<lparr>pcEvents = n, pcCheckpoints = k\<rparr>)))))))))))"

definition resolveBoardId :: "string \<Rightarrow> hdb \<Rightarrow> cerror + string" where
  "resolveBoardId fallback db = (case uniq (map evBoard (hEvents db)) of
       [b] \<Rightarrow> Inr b | [] \<Rightarrow> Inr fallback | bs \<Rightarrow> Inl (CManyBoards (length bs)))"

text \<open>
  \<open>compactDatabase\<close>: the plan is made on \<open>db\<close>; \<open>others\<close> is what other connections commit before the
  transaction of the pass starts.
\<close>

record cresult =
  crPlan :: plan
  crApplied :: bool
  crCounts :: pass_counts

definition compactDatabase ::
    "(snapshot \<Rightarrow> string) \<Rightarrow> string \<Rightarrow> int \<Rightarrow> int \<Rightarrow> int \<Rightarrow> bool \<Rightarrow> (hdb \<Rightarrow> hdb) \<Rightarrow> hdb \<Rightarrow> hdb \<times> (cerror + cresult)" where
  "compactDatabase hash fallback now detailedDays checkpointDays apply_it others db =
     (case resolveBoardId fallback db of
        Inl e \<Rightarrow> (db, Inl e)
      | Inr board \<Rightarrow>
        (let pl = planCompaction db board now detailedDays checkpointDays;
             targets = verificationTargets db board pl;
             plannedLatest = latestEventId board db;
             none = \<lparr>pcEvents = 0, pcCheckpoints = 0\<rparr>;
             done = (\<lambda>d counts. if hGate d then (d, Inl CGateOpen)
               else (d, Inr \<lparr>crPlan = pl, crApplied = (apply_it \<and> \<not> (plDeletable pl = [] \<and> plDeletedCps pl = [])),
                             crCounts = counts\<rparr>))
         in if plDeletable pl = [] \<and> plDeletedCps pl = [] then done db none
            else (case snapshotHashes hash board targets db of
                Inl e \<Rightarrow> (db, Inl (CHist e))
              | Inr before \<Rightarrow>
                (let db1 = others db in
                 case compaction_pass hash apply_it plannedLatest pl targets before db1 of
                   Inr (db2, counts) \<Rightarrow> done db2 counts
                 | Inl CDryRun \<Rightarrow> done db1 none
                 | Inl e \<Rightarrow> (db1, Inl e)))))"

section \<open>The command line\<close>

definition starts_dashes :: "string \<Rightarrow> bool" where
  "starts_dashes s \<longleftrightarrow> take 2 s = ''--''"

function parse_args :: "string list \<Rightarrow> (string \<times> string) list \<times> string list" where
  "parse_args [] = ([], [])"
| "parse_args (item # rest) =
     (if \<not> starts_dashes item then parse_args rest
      else case rest of
          next # rest' \<Rightarrow> (if next \<noteq> [] \<and> \<not> starts_dashes next
            then (case parse_args rest' of (args, flags) \<Rightarrow> ((drop 2 item, next) # args, flags))
            else (case parse_args rest of (args, flags) \<Rightarrow> (args, drop 2 item # flags)))
        | [] \<Rightarrow> ([], [drop 2 item]))"
  by pat_completeness auto
termination by (relation "measure length") auto

definition arg :: "string \<Rightarrow> (string \<times> string) list \<Rightarrow> string option" where
  "arg k args = map_of (rev args) k"

text \<open>What \<open>stat\<close> and the backup tool say: modification times in ms, and the exit of \<open>verify\<close>.\<close>

record files =
  fmtime :: "string \<Rightarrow> int option"
  fverify :: "string \<Rightarrow> bool"

definition requireFreshBackup :: "files \<Rightarrow> string \<Rightarrow> string option \<Rightarrow> bool" where
  "requireFreshBackup fs database archive = (case archive of
       None \<Rightarrow> False
     | Some a \<Rightarrow> (case (fmtime fs a, fmtime fs database) of
           (Some ta, Some td) \<Rightarrow> ta \<ge> td \<and> fverify fs a
         | _ \<Rightarrow> False))"

datatype cli = Usage | ServiceNotStopped | NoFreshBackup | Compact string bool

definition main_args :: "files \<Rightarrow> string list \<Rightarrow> cli" where
  "main_args fs argv = (case parse_args argv of (args, flags) \<Rightarrow>
     (case arg ''database'' args of
        None \<Rightarrow> Usage
      | Some database \<Rightarrow>
        (if ''apply'' \<notin> set flags then Compact database False
         else if ''service-stopped'' \<notin> set flags then ServiceNotStopped
         else if \<not> requireFreshBackup fs database (arg ''backup'' args) then NoFreshBackup
         else Compact database True)))"

end
