(* ===== verification/CompactionProofs.thy ===== *)
theory CompactionProofs
  imports Compaction
begin

text \<open>
  Why compaction is safe. A gap is deleted whole, its bounding checkpoints are kept, and a checkpoint
  goes only with the gap around it: so every event that survives reconstructs to exactly what it did
  before, from the same checkpoint and through the same events, and the verification of the pass
  never fails on a consistent database.
\<close>

section \<open>The gaps\<close>

lemma plan_gaps_bounds:
  "(lo, up) \<in> set (snd (plan_gaps board cutoff db rows)) \<Longrightarrow>
     lo < up \<and> (\<exists>b\<in>set rows. base_of b = up)"
  by (induction board cutoff db rows rule: plan_gaps.induct) (auto simp: Let_def split: if_splits)

lemma plan_gaps_events:
  "x \<in> set (fst (plan_gaps board cutoff db rows)) \<longleftrightarrow>
     (\<exists>(lo, up)\<in>set (snd (plan_gaps board cutoff db rows)). \<exists>e\<in>set (events_between board lo up db). evId e = x)"
  by (induction board cutoff db rows rule: plan_gaps.induct) (auto simp: Let_def)

lemma surviving_outside_gap:
  assumes "getEvent board i db = Some e" and "i \<notin> set (fst (plan_gaps board cutoff db rows))"
    and "(lo, up) \<in> set (snd (plan_gaps board cutoff db rows))" and "lo < i"
  shows "up < i"
proof (rule ccontr)
  assume "\<not> up < i"
  with assms(1,4) have "e \<in> set (events_between board lo up db)" "evId e = i"
    by (auto simp: getEvent_def find_Some_iff events_between_def)
  with assms(2,3) show False by (auto simp: plan_gaps_events)
qed

section \<open>Deleting the plan\<close>

definition compacted :: "string \<Rightarrow> plan \<Rightarrow> hdb \<Rightarrow> hdb" where
  "compacted board pl db = db\<lparr>
     hEvents := filter (\<lambda>e. \<not> (evBoard e = board \<and> evId e \<in> set (plDeletable pl))) (hEvents db),
     hCheckpoints := filter (\<lambda>c. \<not> (cpBoard c = board \<and> cpId c \<in> set (plDeletedCps pl))) (hCheckpoints db)\<rparr>"

lemma compacted_events:
  "hEvents (compacted board pl db) =
     filter (\<lambda>e. \<not> (evBoard e = board \<and> evId e \<in> set (plDeletable pl))) (hEvents db)"
  by (simp add: compacted_def)

text \<open>What the proofs need of a plan.\<close>

definition plan_ok :: "string \<Rightarrow> hdb \<Rightarrow> plan \<Rightarrow> bool" where
  "plan_ok board db pl \<longleftrightarrow> (\<exists>cutoff rows. set rows \<subseteq> set (hCheckpoints db) \<and>
     (\<forall>b\<in>set rows. cpBoard b = board \<and> cpId b \<notin> set (plDeletedCps pl)) \<and>
     plDeletable pl = fst (plan_gaps board cutoff db rows) \<and>
     (\<forall>c\<in>set (hCheckpoints db). cpBoard c = board \<and> cpId c \<in> set (plDeletedCps pl) \<longrightarrow>
        in_gap (snd (plan_gaps board cutoff db rows)) c))"

lemma planCompaction_ok:
  assumes "tables_ok db"
  shows "plan_ok board db (planCompaction db board now dd cd)"
proof -
  let ?pl = "planCompaction db board now dd cd"
  let ?cps = "filter (\<lambda>c. cpBoard c = board) (hCheckpoints db)"
  let ?ret = "retained_ids (now - cd * day_ms) ?cps"
  let ?rows = "filter (\<lambda>c. cpId c \<in> set ?ret) ?cps"
  have inj: "inj_on cpId (set (hCheckpoints db))" using assms by (auto simp: tables_ok_def intro: ids_ok_inj)
  have "in_gap (snd (plan_gaps board (now - dd * day_ms) db ?rows)) c"
    if "c \<in> set (hCheckpoints db)" "cpId c \<in> set (plDeletedCps ?pl)" for c
  proof -
    from that(2) obtain c' where "c' \<in> set ?cps" "cpId c' = cpId c"
      "in_gap (snd (plan_gaps board (now - dd * day_ms) db ?rows)) c'"
      by (auto simp: planCompaction_def Let_def)
    with inj that(1) show ?thesis by (auto simp: inj_on_def)
  qed
  moreover have "cpId b \<notin> set (plDeletedCps ?pl)" if "b \<in> set ?rows" for b
    using that by (auto simp: planCompaction_def Let_def)
  moreover have "plDeletable ?pl = fst (plan_gaps board (now - dd * day_ms) db ?rows)"
    by (simp add: planCompaction_def Let_def)
  ultimately show ?thesis unfolding plan_ok_def
    by (intro exI [of _ "now - dd * day_ms"] exI [of _ ?rows]) auto
qed

text \<open>The chosen checkpoint survives a filter that keeps it.\<close>

lemma newest_base_filter:
  "newest_base cs = Some c \<Longrightarrow> P c \<Longrightarrow> newest_base (filter P cs) = Some c"
proof (induction cs arbitrary: c rule: rev_induct)
  case Nil
  then show ?case by (simp add: newest_base_def)
next
  case (snoc d ds)
  show ?case
  proof (cases "newest_base ds")
    case None
    then have "ds = []" by simp
    with snoc.prems show ?thesis by (simp add: newest_base_def)
  next
    case (Some b)
    show ?thesis
    proof (cases "base_key b \<le> base_key d")
      case True
      with Some snoc.prems have "c = d" by (simp add: newest_base_snoc)
      moreover have "base_key x \<le> base_key d" if "newest_base (filter P ds) = Some x" for x
        using newest_base_mem [OF that] newest_base_mem [OF Some] True by auto
      ultimately show ?thesis using snoc.prems(2)
        by (auto simp: newest_base_snoc split: option.split)
    next
      case False
      with Some snoc.prems have "c = b" by (simp add: newest_base_snoc)
      with snoc.IH [OF Some] snoc.prems(2) False show ?thesis by (simp add: newest_base_snoc)
    qed
  qed
qed

lemma base_key_le: "base_key b \<le> base_key c \<Longrightarrow> base_of b \<le> base_of c"
  by (auto simp: base_of_def base_key_def split: option.splits)

lemma getEvent_compacted:
  "getEvent board i (compacted board pl db) =
     (if i \<in> set (plDeletable pl) then None else getEvent board i db)"
proof -
  have "find (\<lambda>e. evBoard e = board \<and> evId e = i)
      (filter (\<lambda>e. \<not> (evBoard e = board \<and> evId e \<in> set (plDeletable pl))) es) =
    (if i \<in> set (plDeletable pl) then None else find (\<lambda>e. evBoard e = board \<and> evId e = i) es)" for es
    by (induction es) auto
  from this [of "hEvents db"] show ?thesis
    by (simp only: getEvent_def compacted_events)
qed

lemma reconstruct_compacted:
  assumes ok: "plan_ok board db pl" and ev: "getEvent board i (compacted board pl db) = Some e"
  shows "reconstruct board (ByEvent i) (compacted board pl db) = reconstruct board (ByEvent i) db"
proof -
  let ?db = "compacted board pl db"
  from ok obtain cutoff rows where rows: "set rows \<subseteq> set (hCheckpoints db)"
      "\<forall>b\<in>set rows. cpBoard b = board \<and> cpId b \<notin> set (plDeletedCps pl)"
    and dl: "plDeletable pl = fst (plan_gaps board cutoff db rows)"
    and dc: "\<forall>c\<in>set (hCheckpoints db). cpBoard c = board \<and> cpId c \<in> set (plDeletedCps pl) \<longrightarrow>
        in_gap (snd (plan_gaps board cutoff db rows)) c"
    unfolding plan_ok_def by blast
  from ev have i: "i \<notin> set (plDeletable pl)" and ev0: "getEvent board i db = Some e"
    by (auto simp: getEvent_compacted split: if_splits)
  note out = surviving_outside_gap [OF ev0 i [unfolded dl]]
  let ?mine = "\<lambda>d. filter (\<lambda>c. cpBoard c = board) (hCheckpoints d)"
  let ?below = "\<lambda>d. filter (\<lambda>c. opt_holds (\<lambda>b. b \<le> i) (cpBase c)) (?mine d)"
  let ?P = "\<lambda>c. \<not> (cpBoard c = board \<and> cpId c \<in> set (plDeletedCps pl))"
  have below: "?below ?db = filter ?P (?below db)"
    by (auto simp: compacted_def intro!: filter_cong)
  have gap_rows: "base_of b \<le> i \<Longrightarrow> newest_base (?below db) = Some c \<Longrightarrow> base_of b \<le> base_of c"
    if "b \<in> set rows" for b c
  proof -
    assume "base_of b \<le> i" and n: "newest_base (?below db) = Some c"
    then have "b \<in> set (?below db)" using that rows by (auto simp: base_of_key)
    with newest_base_mem [OF n] show "base_of b \<le> base_of c" by (blast intro: base_key_le)
  qed
  have choose: "choose_checkpoint board (ByEvent i) (Some i) ?db = choose_checkpoint board (ByEvent i) (Some i) db"
    and events: "choose_checkpoint board (ByEvent i) (Some i) db = Some c \<Longrightarrow>
      events_between board (base_of c) i ?db = events_between board (base_of c) i db" for c
  proof -
    have ch: "choose_checkpoint board (ByEvent i) (Some i) d = newest_base (?below d)" for d
      by (simp add: choose_checkpoint_def Let_def del: filter_filter)
    have keep: "?P c" if n: "newest_base (?below db) = Some c" for c
    proof
      assume del: "cpBoard c = board \<and> cpId c \<in> set (plDeletedCps pl)"
      from newest_base_mem [OF n] have c: "c \<in> set (hCheckpoints db)" "base_of c \<le> i" by (auto simp: base_of_key)
      with dc del obtain lo up where g: "(lo, up) \<in> set (snd (plan_gaps board cutoff db rows))"
        "lo < base_of c" "base_of c < up" by (auto simp: in_gap_def list_ex_iff)
      with out c(2) have "up < i" by (meson le_trans less_le_trans)
      moreover from plan_gaps_bounds [OF g(1)] obtain b where "b \<in> set rows" "base_of b = up" by blast
      ultimately have "up \<le> base_of c" using gap_rows n by (metis less_imp_le)
      with g(3) show False by simp
    qed
    show "choose_checkpoint board (ByEvent i) (Some i) ?db = choose_checkpoint board (ByEvent i) (Some i) db"
    proof (cases "newest_base (?below db)")
      case None
      then have "?below db = []" by (simp del: filter_filter)
      then have "?below ?db = []" by (simp only: below filter.simps)
      with None show ?thesis by (simp only: ch newest_base_None)
    next
      case (Some c)
      have "newest_base (filter ?P (?below db)) = Some c"
        using keep [OF Some] by (rule newest_base_filter [OF Some])
      from trans [OF this Some [symmetric]] show ?thesis unfolding ch below .
    qed
    assume "choose_checkpoint board (ByEvent i) (Some i) db = Some c"
    then have n: "newest_base (?below db) = Some c" by (simp only: ch)
    have "evId x \<notin> set (plDeletable pl)" if "evBoard x = board" "base_of c < evId x" "evId x \<le> i" for x
    proof
      assume "evId x \<in> set (plDeletable pl)"
      then obtain lo up where g: "(lo, up) \<in> set (snd (plan_gaps board cutoff db rows))" "lo < evId x" "evId x \<le> up"
        unfolding dl plan_gaps_events by (auto simp: events_between_def)
      with out that(3) have "up < i" by (meson less_le_trans)
      moreover from plan_gaps_bounds [OF g(1)] obtain b where "b \<in> set rows" "base_of b = up" by blast
      ultimately have "up \<le> base_of c" using gap_rows n by (metis less_imp_le)
      with g(3) that(2) show False by simp
    qed
    then show "events_between board (base_of c) i ?db = events_between board (base_of c) i db"
      by (auto simp: events_between_def compacted_def intro!: filter_cong)
  qed
  show ?thesis
    using ev ev0 choose events
    by (cases "choose_checkpoint board (ByEvent i) (Some i) db")
      (simp_all add: reconstruct_def resolveTargetEventId_def)
qed

lemma reconstruct_compacted_checkpoint:
  assumes "k \<notin> set (plDeletedCps pl)"
  shows "reconstruct board (ByCheckpoint k) (compacted board pl db) = reconstruct board (ByCheckpoint k) db"
proof -
  have find: "find (\<lambda>c. cpId c = k) (filter (\<lambda>c. cpBoard c = board)
      (filter (\<lambda>c. \<not> (cpBoard c = board \<and> cpId c \<in> set (plDeletedCps pl))) cs)) =
    find (\<lambda>c. cpId c = k) (filter (\<lambda>c. cpBoard c = board) cs)" for cs
    using assms by (induction cs) auto
  have get: "getCheckpoint board k d = find (\<lambda>c. cpId c = k) (filter (\<lambda>c. cpBoard c = board) (hCheckpoints d))" for d
    by (simp add: getCheckpoint_def find_filter)
  show ?thesis
  proof (cases "getCheckpoint board k db")
    case None
    with find [of "hCheckpoints db"] show ?thesis
      by (simp add: reconstruct_def resolveTargetEventId_def get compacted_def del: filter_filter)
  next
    case (Some c)
    then have "find (\<lambda>c. cpId c = k) (filter (\<lambda>c. cpBoard c = board) (hCheckpoints db)) = Some c" by (simp only: get)
    moreover have "(case cpBase c of None \<Rightarrow> [] | Some e \<Rightarrow> events_between board (base_of c) e d) = []" for d
      by (auto simp: base_of_def events_between_def split: option.splits)
    ultimately show ?thesis using find [of "hCheckpoints db"]
      by (simp add: reconstruct_def resolveTargetEventId_def choose_checkpoint_def get compacted_def Let_def
          del: filter_filter)
  qed
qed

end
