(* ===== verification/CompactionClaims.thy ===== *)
theory CompactionClaims
  imports CompactionProofs
begin

text \<open>
  The properties of compaction: every surviving restore point is what it was, the pass commits on a
  consistent database, a dry run and every failure leave it alone, the retention policy keeps what
  it promises, and the command line applies a pass only behind its guards.
\<close>

section \<open>The deletes of the pass\<close>

lemma concat_batches [simp]: "concat (batches ids) = ids"
proof (induction ids rule: batches.induct)
  case (1 ids)
  then show ?case by (cases "ids = []") (simp_all add: batches.simps [of ids] batches.simps [of "[]"])
qed

lemma delete_all_events_from:
  assumes "hGate db"
  shows "foldR (\<lambda>(d, n) ids. bindR (delete_events board ids d) (\<lambda>(d', k). Inr (d', n + k))) (db, n) bs =
    Inr (db\<lparr>hEvents := filter (\<lambda>e. \<not> (evBoard e = board \<and> evId e \<in> set (concat bs))) (hEvents db)\<rparr>,
      n + length (filter (\<lambda>e. evBoard e = board \<and> evId e \<in> set (concat bs)) (hEvents db)))"
  using assms
proof (induction bs arbitrary: db n)
  case Nil
  show ?case by simp
next
  case (Cons b bs)
  have count: "length (filter (\<lambda>e. P e \<and> Q e) es) + length (filter (\<lambda>e. P e \<and> R e) (filter (\<lambda>e. \<not> (P e \<and> Q e)) es)) =
      length (filter (\<lambda>e. P e \<and> (Q e \<or> R e)) es)" for P Q R and es :: "hevent list"
    by (induction es) auto
  let ?db = "db\<lparr>hEvents := filter (\<lambda>e. \<not> (evBoard e = board \<and> evId e \<in> set b)) (hEvents db)\<rparr>"
  let ?k = "length (filter (\<lambda>e. evBoard e = board \<and> evId e \<in> set b) (hEvents db))"
  have "delete_events board b db = Inr (?db, ?k)" using Cons.prems by (simp add: delete_events_def Let_def)
  moreover have "filter (\<lambda>e. \<not> (evBoard e = board \<and> evId e \<in> set (concat bs))) (hEvents ?db) =
      filter (\<lambda>e. \<not> (evBoard e = board \<and> evId e \<in> set (concat (b # bs)))) (hEvents db)"
    by (auto intro!: filter_cong)
  moreover have "?k + length (filter (\<lambda>e. evBoard e = board \<and> evId e \<in> set (concat bs)) (hEvents ?db)) =
      length (filter (\<lambda>e. evBoard e = board \<and> evId e \<in> set (concat (b # bs))) (hEvents db))"
    using count [of "\<lambda>e. evBoard e = board" "\<lambda>e. evId e \<in> set b" "hEvents db" "\<lambda>e. evId e \<in> set (concat bs)"]
    by simp
  ultimately show ?case using Cons.IH [of ?db "n + ?k"] Cons.prems by (simp add: add.assoc)
qed

lemma delete_all_events:
  assumes "hGate db"
  shows "delete_all (delete_events board) (batches ids) db =
    Inr (db\<lparr>hEvents := filter (\<lambda>e. \<not> (evBoard e = board \<and> evId e \<in> set ids)) (hEvents db)\<rparr>,
      length (filter (\<lambda>e. evBoard e = board \<and> evId e \<in> set ids) (hEvents db)))"
  using delete_all_events_from [OF assms, of board 0 "batches ids"] by (simp add: delete_all_def)

lemma delete_all_checkpoints:
  assumes "hGate db"
  shows "\<exists>k. delete_all (delete_checkpoint board) ids db =
    Inr (db\<lparr>hCheckpoints := filter (\<lambda>c. \<not> (cpBoard c = board \<and> cpId c \<in> set ids)) (hCheckpoints db)\<rparr>, k)"
proof -
  have "\<exists>k. foldR (\<lambda>(d, n) i. bindR (delete_checkpoint board i d) (\<lambda>(d', k). Inr (d', n + k))) (db, n) ids =
      Inr (db\<lparr>hCheckpoints := filter (\<lambda>c. \<not> (cpBoard c = board \<and> cpId c \<in> set ids)) (hCheckpoints db)\<rparr>, k)" for n
    using assms
  proof (induction ids arbitrary: db n)
    case Nil
    show ?case by simp
  next
    case (Cons i js)
    let ?db = "db\<lparr>hCheckpoints := filter (\<lambda>c. \<not> (cpBoard c = board \<and> cpId c = i)) (hCheckpoints db)\<rparr>"
    obtain m where m: "delete_checkpoint board i db = Inr (?db, m)"
      using Cons.prems by (simp add: delete_checkpoint_def Let_def)
    have "filter (\<lambda>c. \<not> (cpBoard c = board \<and> cpId c \<in> set js)) (hCheckpoints ?db) =
      filter (\<lambda>c. \<not> (cpBoard c = board \<and> cpId c \<in> set (i # js))) (hCheckpoints db)"
      by (auto intro!: filter_cong)
    with Cons.IH [of ?db "n + m"] Cons.prems m show ?case by simp
  qed
  then show ?thesis by (simp add: delete_all_def)
qed

text \<open>Each planned id is deleted once, when the bases of the checkpoints follow their order.\<close>

lemma plan_gaps_sorted:
  assumes "tables_ok db" and "sorted_wrt (\<lambda>a b. base_of a \<le> base_of b) rows"
  shows "sorted_wrt (<) (fst (plan_gaps board cutoff db rows)) \<and>
    (\<forall>x\<in>set (fst (plan_gaps board cutoff db rows)). rows \<noteq> [] \<and> base_of (hd rows) < x)"
  using assms
proof (induction board cutoff db rows rule: plan_gaps.induct)
  case (1 board cutoff db a b rest)
  note IH = 1(1) and prems = 1(2,3)
  have rows: "sorted_wrt (<) (map evId (events_between board lo up db))" for lo up
    using prems(1) by (simp add: events_between_def tables_ok_def ids_ok_def sorted_wrt_map sorted_wrt_filter)
  from prems(2) have le: "base_of a \<le> base_of b" by simp
  show ?case
  proof (cases "cpAt b \<ge> cutoff")
    case False
    let ?tl = "plan_gaps board cutoff db (b # rest)" and ?r = "events_between board (base_of a) (base_of b) db"
    have tl: "sorted_wrt (<) (fst ?tl)" "\<forall>x\<in>set (fst ?tl). base_of b < x"
      using IH [OF False refl refl prems(1)] prems(2) by simp_all
    have r: "\<forall>x\<in>set (map evId ?r). base_of a < x \<and> x \<le> base_of b" by (auto simp: events_between_def)
    have "fst (plan_gaps board cutoff db (a # b # rest)) = fst ?tl \<or>
        fst (plan_gaps board cutoff db (a # b # rest)) = map evId ?r @ fst ?tl"
      using False by (simp add: Let_def)
    then show ?thesis
    proof
      assume "fst (plan_gaps board cutoff db (a # b # rest)) = fst ?tl"
      with tl le show ?thesis by fastforce
    next
      assume "fst (plan_gaps board cutoff db (a # b # rest)) = map evId ?r @ fst ?tl"
      with tl le r rows show ?thesis
        by (auto simp: sorted_wrt_append simp del: set_map) (meson le_less_trans less_le_trans)+
    qed
  qed simp
qed auto

section \<open>A consistent database\<close>

definition bases_sorted :: "string \<Rightarrow> hdb \<Rightarrow> bool" where
  "bases_sorted board db \<longleftrightarrow>
     sorted_wrt (\<lambda>a b. base_of a \<le> base_of b) (filter (\<lambda>c. cpBoard c = board) (hCheckpoints db))"

lemma planned_ids:
  fixes now dd cd :: int
  assumes "tables_ok db" and "bases_sorted board db"
  defines "ids \<equiv> plDeletable (planCompaction db board now dd cd)"
  shows "sorted_wrt (<) ids" and "set ids \<subseteq> evId ` {e \<in> set (hEvents db). evBoard e = board}"
    and "length (filter (\<lambda>e. evBoard e = board \<and> evId e \<in> set ids) (hEvents db)) = length ids"
proof -
  let ?rows = "filter (\<lambda>c. cpId c \<in> set (retained_ids (now - cd * day_ms) (filter (\<lambda>c. cpBoard c = board) (hCheckpoints db))))
    (filter (\<lambda>c. cpBoard c = board) (hCheckpoints db))"
  have ids: "ids = fst (plan_gaps board (now - dd * day_ms) db ?rows)"
    by (simp add: ids_def planCompaction_def Let_def)
  have "sorted_wrt (\<lambda>a b. base_of a \<le> base_of b) ?rows"
    using assms(2) unfolding bases_sorted_def by (rule sorted_wrt_filter)
  with plan_gaps_sorted [OF assms(1)] show sorted: "sorted_wrt (<) ids" unfolding ids by blast
  show sub: "set ids \<subseteq> evId ` {e \<in> set (hEvents db). evBoard e = board}"
    unfolding ids by (auto simp: plan_gaps_events events_between_def)
  let ?del = "filter (\<lambda>e. evBoard e = board \<and> evId e \<in> set ids) (hEvents db)"
  have "distinct (map evId ?del)"
    using assms(1) ids_ok_distinct [OF ids_ok_sub] by (auto simp: tables_ok_def)
  moreover have "set (map evId ?del) = set ids" using sub by auto
  moreover have "distinct ids" using sorted by (simp add: strict_sorted_iff)
  ultimately show "length ?del = length ids" by (metis distinct_card length_map)
qed

lemma targets_survive:
  fixes now dd cd :: int
  assumes tab: "tables_ok db" "bases_sorted board db"
  defines "pl \<equiv> planCompaction db board now dd cd"
  assumes t: "t \<in> set (verificationTargets db board pl)"
  shows "reconstruct board t (compacted board pl db) = reconstruct board t db"
proof -
  have sorted: "sorted_wrt (<) (plDeletable pl)" using planned_ids(1) [OF tab] by (simp add: pl_def)
  have bound: "x \<le> plBoundary pl" if "x \<in> set (plDeletable pl)" for x
  proof -
    from that have ne: "plDeletable pl \<noteq> []" by auto
    then have "plBoundary pl = last (plDeletable pl)" by (simp add: pl_def planCompaction_def Let_def)
    moreover from ne obtain xs where "plDeletable pl = xs @ [last (plDeletable pl)]" by (metis append_butlast_last_id)
    ultimately show ?thesis using that sorted
      by (metis (no_types, lifting) Un_iff append_is_Nil_conv dual_order.refl last_snoc less_imp_le list.set_intros(1)
          set_ConsD set_append sorted_wrt_append empty_iff empty_set)
  qed
  have event: "reconstruct board (ByEvent i) (compacted board pl db) = reconstruct board (ByEvent i) db"
    if "i \<in> evId ` {e \<in> set (hEvents db). evBoard e = board}" "i \<notin> set (plDeletable pl)" for i
  proof -
    from that(1) have "getEvent board i db \<noteq> None" by (auto simp: getEvent_def find_None_iff)
    with that(2) obtain e where "getEvent board i (compacted board pl db) = Some e" by (auto simp: getEvent_compacted)
    then show ?thesis using reconstruct_compacted planCompaction_ok [OF tab(1)] by (simp add: pl_def)
  qed
  from t consider k where "t = ByCheckpoint k" "k \<in> set (plRetained pl)"
    | i where "t = ByEvent i" "i \<in> evId ` {e \<in> set (hEvents db). evBoard e = board}" "i \<notin> set (plDeletable pl)"
    using bound by (fastforce simp: verificationTargets_def Let_def dest!: in_set_takeD)
  then show ?thesis
  proof cases
    case 1
    then have "k \<notin> set (plDeletedCps pl)" by (auto simp: pl_def planCompaction_def Let_def)
    with 1 reconstruct_compacted_checkpoint show ?thesis by simp
  next
    case 2
    with event show ?thesis by simp
  qed
qed

lemma mapR_cong: "(\<And>x. x \<in> set xs \<Longrightarrow> f x = g x) \<Longrightarrow> mapR f xs = mapR g xs"
  by (induction xs) simp_all

lemma mapR_length: "mapR f xs = Inr ys \<Longrightarrow> length ys = length xs"
  by (induction xs arbitrary: ys) (auto simp: res_simps)

lemma first_difference_same: "length ts = length hs \<Longrightarrow> first_difference (zip ts hs) hs = None"
  by (induction ts hs rule: list_induct2) (simp_all add: first_difference_def)

section \<open>A concrete database\<close>

text \<open>
  The database behind the witnesses: an imported board, two edits of one record in the same old week
  with a checkpoint after each, and a recent checkpoint. Compaction deletes the gap of the two edits
  and the checkpoint inside it.
\<close>

definition old_event :: "nat \<Rightarrow> change list \<Rightarrow> hevent" where
  "old_event i cs = demo_created\<lparr>evId := i, evAt := int i, evChanges := cs\<rparr>"

definition old_cp :: "nat \<Rightarrow> int \<Rightarrow> nat \<Rightarrow> snapshot \<Rightarrow> hcheckpoint" where
  "old_cp i t b s = \<lparr>cpId = i, cpBoard = ''b'', cpAt = t, cpBy = None, cpBase = Some b, cpLabel = None,
     cpReason = ''periodic'', cpSnap = s\<rparr>"

definition old_db :: hdb where
  "old_db = \<lparr>hEvents = [old_event 1 [],
       old_event 2 [\<lparr>chId = ''shape:1'', chBefore = None, chAfter = Some demo_rec\<rparr>],
       old_event 3 [\<lparr>chId = ''shape:1'', chBefore = Some demo_rec, chAfter = None\<rparr>]],
     hCheckpoints = [old_cp 1 0 1 demo_live, old_cp 2 1 2 demo_after, old_cp 3 2 3 demo_live,
       old_cp 4 (200 * day_ms) 3 demo_live],
     hFragments = [], hNextEvent = 4, hNextCheckpoint = 5, hNextFragment = 1, hGate = False\<rparr>"

abbreviation "old_plan \<equiv> planCompaction old_db ''b'' (200 * day_ms) 7 90"

lemma old_db_ok: "tables_ok old_db" "bases_sorted ''b'' old_db" "\<not> hGate old_db"
  by (simp_all add: old_db_def tables_ok_def ids_ok_def old_event_def old_cp_def bases_sorted_def
      base_of_def demo_created_def)

lemma old_plan: "plDeletable old_plan = [2, 3] \<and> plDeletedCps old_plan = [2] \<and> plRetained old_plan = [1, 3, 4]"
  by code_simp

text \<open>
  C8: an event that compaction leaves in the database, and every checkpoint it retains, reconstruct
  after the deletes to exactly what they reconstructed to before: same snapshot, same base
  checkpoint, same replayed events.
\<close>

theorem compaction_preserves_survivors:
  assumes "tables_ok db"
  shows "let pl = planCompaction db board now dd cd; db' = compacted board pl db in
    (\<forall>i. getEvent board i db' \<noteq> None \<longrightarrow> reconstruct board (ByEvent i) db' = reconstruct board (ByEvent i) db) \<and>
    (\<forall>k\<in>set (plRetained pl). reconstruct board (ByCheckpoint k) db' = reconstruct board (ByCheckpoint k) db)"
proof -
  let ?pl = "planCompaction db board now dd cd"
  have "reconstruct board (ByEvent i) (compacted board ?pl db) = reconstruct board (ByEvent i) db"
    if "getEvent board i (compacted board ?pl db) \<noteq> None" for i
    using that reconstruct_compacted [OF planCompaction_ok [OF assms]] by blast
  moreover have "k \<notin> set (plDeletedCps ?pl)" if "k \<in> set (plRetained ?pl)" for k
    using that by (auto simp: planCompaction_def Let_def)
  ultimately show ?thesis by (simp add: Let_def reconstruct_compacted_checkpoint)
qed

theorem compaction_preserves_survivors_witness:
  "reconstruct ''b'' (ByEvent 1) (compacted ''b'' old_plan old_db) = reconstruct ''b'' (ByEvent 1) old_db \<and>
   reconstruct ''b'' (ByCheckpoint 3) (compacted ''b'' old_plan old_db) = reconstruct ''b'' (ByCheckpoint 3) old_db \<and>
   getEvent ''b'' 3 (compacted ''b'' old_plan old_db) = None"
proof -
  have "getEvent ''b'' 1 old_db \<noteq> None"
    by (simp add: getEvent_def old_db_def old_event_def demo_created_def)
  then have "getEvent ''b'' 1 (compacted ''b'' old_plan old_db) \<noteq> None"
    by (simp add: getEvent_compacted old_plan)
  with compaction_preserves_survivors [OF old_db_ok(1), of "''b''" "200 * day_ms" 7 90] old_plan
  show ?thesis by (simp add: Let_def getEvent_compacted)
qed

text \<open>
  C9: on a consistent database whose restore points can be reconstructed, the pass commits exactly
  the plan: it deletes the planned rows and nothing else, no verification fails, and the gate is
  closed again.
\<close>

theorem compaction_commits:
  assumes tab: "tables_ok db" "bases_sorted board db" and gate: "\<not> hGate db"
    and before: "snapshotHashes hash board (verificationTargets db board (planCompaction db board now dd cd)) db = Inr before"
  shows "\<exists>counts. compaction_pass hash True (latestEventId board db) (planCompaction db board now dd cd)
      (verificationTargets db board (planCompaction db board now dd cd)) before db =
    Inr (compacted board (planCompaction db board now dd cd) db, counts) \<and>
    pcEvents counts = length (plDeletable (planCompaction db board now dd cd))"
proof -
  define pl where "pl = planCompaction db board now dd cd"
  define ts where "ts = verificationTargets db board pl"
  have board: "plBoard pl = board" and cps: "toCheckpoints (plTotals pl) = length (filter (\<lambda>c. cpBoard c = board) (hCheckpoints db))"
    by (simp_all add: pl_def planCompaction_def Let_def)
  let ?db1 = "db\<lparr>hGate := True, hEvents := filter (\<lambda>e. \<not> (evBoard e = board \<and> evId e \<in> set (plDeletable pl))) (hEvents db)\<rparr>"
  have ev: "delete_all (delete_events board) (batches (plDeletable pl)) (db\<lparr>hGate := True\<rparr>) =
      Inr (?db1, length (plDeletable pl))"
    using delete_all_events [of "db\<lparr>hGate := True\<rparr>" board "plDeletable pl"] planned_ids(3) [OF tab]
    by (simp add: pl_def)
  obtain k where cp: "delete_all (delete_checkpoint board) (plDeletedCps pl) ?db1 = Inr (?db1\<lparr>hCheckpoints :=
      filter (\<lambda>c. \<not> (cpBoard c = board \<and> cpId c \<in> set (plDeletedCps pl))) (hCheckpoints db)\<rparr>, k)"
    using delete_all_checkpoints [of ?db1 board "plDeletedCps pl"] by auto
  have db3: "?db1\<lparr>hCheckpoints := filter (\<lambda>c. \<not> (cpBoard c = board \<and> cpId c \<in> set (plDeletedCps pl))) (hCheckpoints db),
      hGate := False\<rparr> = compacted board pl db"
    using gate by (cases db) (simp add: compacted_def)
  have same: "mapR (\<lambda>t. bindR (reconstruct board t (compacted board pl db)) (\<lambda>r. Inr (hash (reSnap r)))) ts =
      mapR (\<lambda>t. bindR (reconstruct board t db) (\<lambda>r. Inr (hash (reSnap r)))) ts"
    by (rule mapR_cong) (simp add: ts_def pl_def targets_survive [OF tab])
  have after: "snapshotHashes hash board ts (compacted board pl db) = Inr before"
    using before same by (simp add: snapshotHashes_def ts_def pl_def)
  have "length ts = length before"
    using before mapR_length unfolding snapshotHashes_def ts_def pl_def by metis
  then have "first_difference (zip ts before) before = None" by (rule first_difference_same)
  then have "compaction_pass hash True (latestEventId board db) pl ts before db =
      Inr (compacted board pl db, \<lparr>pcEvents = length (plDeletable pl), pcCheckpoints = k\<rparr>)"
    using gate ev cp db3 after by (simp add: compaction_pass_def board cps hist_result_def Let_def)
  then show ?thesis by (simp add: pl_def ts_def)
qed

theorem compaction_commits_witness:
  "\<exists>before counts. snapshotHashes (\<lambda>s. if snapDocs s = [] then ''empty'' else ''other'') ''b''
      (verificationTargets old_db ''b'' old_plan) old_db = Inr before \<and>
    compaction_pass (\<lambda>s. if snapDocs s = [] then ''empty'' else ''other'') True (latestEventId ''b'' old_db) old_plan
      (verificationTargets old_db ''b'' old_plan) before old_db = Inr (compacted ''b'' old_plan old_db, counts) \<and>
    pcEvents counts = 2"
proof -
  let ?h = "\<lambda>s. if snapDocs s = [] then ''empty'' else ''other'' :: string"
  have "snapshotHashes ?h ''b'' (verificationTargets old_db ''b'' old_plan) old_db =
      Inr [''empty'', ''empty'', ''empty'', ''empty'']"
    by code_simp
  with compaction_commits [OF old_db_ok this] old_plan show ?thesis by auto
qed

section \<open>Any database\<close>

lemma hist_result_Inr [res_simps]: "hist_result m = Inr a \<longleftrightarrow> m = Inr a"
  by (simp add: hist_result_def split: sum.split)

lemma compaction_pass_Inr:
  assumes "compaction_pass hash ap latest pl ts before db = Inr (db', counts)"
  shows "ap \<and> \<not> hGate db' \<and> (\<exists>after. snapshotHashes hash (plBoard pl) ts db' = Inr after \<and>
    first_difference (zip ts before) after = None)"
  using assms by (auto simp: compaction_pass_def Let_def res_simps split: option.splits)

lemma first_difference_None:
  assumes "length ts = length hs" and "length hs = length hs'" and "first_difference (zip ts hs) hs' = None"
  shows "hs' = hs"
proof -
  let ?z = "zip (zip ts hs) hs'"
  have "\<forall>x\<in>set ?z. snd (fst x) = snd x"
    using assms(3) by (auto simp: first_difference_def find_None_iff case_prod_beta)
  then have "map (snd \<circ> fst) ?z = map snd ?z" by simp
  moreover have "map (snd \<circ> fst) ?z = hs" "map snd ?z = hs'"
    using assms(1,2) by (simp_all flip: map_map)
  ultimately show ?thesis by simp
qed

lemma mapR_Inr_mem: "mapR f xs = Inr ys \<Longrightarrow> x \<in> set xs \<Longrightarrow> \<exists>y. f x = Inr y"
  by (induction xs arbitrary: ys) (auto simp: res_simps)

lemma mapR_same_mem: "mapR f xs = Inr ys \<Longrightarrow> mapR g xs = Inr ys \<Longrightarrow> x \<in> set xs \<Longrightarrow> f x = g x"
  by (induction xs arbitrary: ys) (auto simp: res_simps)

text \<open>
  C10: on any database, however the plan turns out and whatever other connections commit in between,
  the pass either leaves what is there untouched (a dry run, an error, nothing to do) or was applied,
  closed the gate, and every restore point of the plan still gives a snapshot with the same hash.
\<close>

theorem compaction_all_or_nothing:
  "case compactDatabase hash fallback now dd cd ap others db of (db', r) \<Rightarrow>
     db' = db \<or> db' = others db \<or>
     (ap \<and> \<not> hGate db' \<and> (\<exists>res. r = Inr res \<and> crApplied res \<and>
        (\<forall>t\<in>set (verificationTargets db (plBoard (crPlan res)) (crPlan res)).
           \<exists>a b. reconstruct (plBoard (crPlan res)) t db = Inr a \<and>
             reconstruct (plBoard (crPlan res)) t db' = Inr b \<and> hash (reSnap a) = hash (reSnap b))))"
proof -
  obtain db' r where run: "compactDatabase hash fallback now dd cd ap others db = (db', r)" by fastforce
  have "db' = db \<or> db' = others db \<or>
     (ap \<and> \<not> hGate db' \<and> (\<exists>res. r = Inr res \<and> crApplied res \<and>
        (\<forall>t\<in>set (verificationTargets db (plBoard (crPlan res)) (crPlan res)).
           \<exists>a b. reconstruct (plBoard (crPlan res)) t db = Inr a \<and>
             reconstruct (plBoard (crPlan res)) t db' = Inr b \<and> hash (reSnap a) = hash (reSnap b))))"
  proof (cases "resolveBoardId fallback db")
    case (Inl e)
    with run show ?thesis by (simp add: compactDatabase_def)
  next
    case (Inr board)
    define pl where "pl = planCompaction db board now dd cd"
    define ts where "ts = verificationTargets db board pl"
    have board: "plBoard pl = board" by (simp add: pl_def planCompaction_def Let_def)
    show ?thesis
    proof (cases "plDeletable pl = [] \<and> plDeletedCps pl = []")
      case True
      with run Inr show ?thesis
        by (auto simp: compactDatabase_def Let_def pl_def [symmetric] split: if_splits)
    next
      case todo: False
      show ?thesis
      proof (cases "snapshotHashes hash board ts db")
        case (Inl e)
        with run Inr todo show ?thesis
          by (simp add: compactDatabase_def Let_def pl_def [symmetric] ts_def [symmetric] split: if_splits)
      next
        case before: (Inr before)
        show ?thesis
        proof (cases "compaction_pass hash ap (latestEventId board db) pl ts before (others db)")
          case (Inl e)
          with run Inr todo before have "db' = others db"
            by (cases e) (auto simp: compactDatabase_def Let_def pl_def [symmetric] ts_def [symmetric] split: if_splits)
          then show ?thesis by simp
        next
          case pass: (Inr res)
          obtain db2 counts where res: "res = (db2, counts)" by (cases res)
          from compaction_pass_Inr [OF pass [unfolded res]] obtain after where
            ap: ap "\<not> hGate db2" and after: "snapshotHashes hash board ts db2 = Inr after"
            and diff: "first_difference (zip ts before) after = None" by (auto simp: board)
          have len: "length before = length ts" "length after = length ts"
            using before after mapR_length unfolding snapshotHashes_def by metis+
          have eq: "after = before"
            by (rule first_difference_None [OF _ _ diff]) (simp_all add: len)
          have hashes: "\<exists>a b. reconstruct board t db = Inr a \<and> reconstruct board t db2 = Inr b \<and>
              hash (reSnap a) = hash (reSnap b)" if "t \<in> set ts" for t
          proof -
            note m = before [unfolded snapshotHashes_def] after [unfolded snapshotHashes_def eq]
            from mapR_Inr_mem [OF m(1) that] obtain a where a: "reconstruct board t db = Inr a"
              by (auto simp: bindR_eq_Inr)
            from mapR_Inr_mem [OF m(2) that] obtain b where b: "reconstruct board t db2 = Inr b"
              by (auto simp: bindR_eq_Inr)
            from mapR_same_mem [OF m that] a b show ?thesis by simp
          qed
          from run Inr todo before pass res ap(2) have "db' = db2"
            "\<exists>res. r = Inr res \<and> crPlan res = pl \<and> crApplied res = ap"
            by (auto simp: compactDatabase_def Let_def pl_def [symmetric] ts_def [symmetric] split: if_splits)
          then obtain res' where "db' = db2" "r = Inr res'" "crPlan res' = pl" "crApplied res'" using ap by auto
          with ap hashes board show ?thesis by (simp add: ts_def)
        qed
      qed
    qed
  qed
  with run show ?thesis by simp
qed

definition old_run :: "hdb \<times> (cerror + cresult)" where
  "old_run = compactDatabase (\<lambda>s. if snapDocs s = [] then ''empty'' else ''other'') ''b'' (200 * day_ms) 7 90 True (\<lambda>d. d) old_db"

lemma old_run_size: "length (hEvents (fst old_run)) < length (hEvents old_db)"
  by code_simp

theorem compaction_all_or_nothing_witness:
  "\<exists>db' res. compactDatabase (\<lambda>s. if snapDocs s = [] then ''empty'' else ''other'') ''b'' (200 * day_ms) 7 90 True (\<lambda>d. d) old_db =
     (db', Inr res) \<and> db' \<noteq> old_db \<and> \<not> hGate db' \<and> crApplied res"
proof -
  obtain db' r where run: "compactDatabase (\<lambda>s. if snapDocs s = [] then ''empty'' else ''other'') ''b'' (200 * day_ms) 7 90 True
      (\<lambda>d. d) old_db = (db', r)" by fastforce
  then have "db' \<noteq> old_db" using old_run_size by (auto simp: old_run_def)
  with run compaction_all_or_nothing [where hash = "\<lambda>s. if snapDocs s = [] then ''empty'' else ''other''"
      and fallback = "''b''" and now = "200 * day_ms" and dd = 7 and cd = 90 and ap = True and others = "\<lambda>d. d" and db = old_db] show ?thesis by auto
qed

section \<open>The retention policy\<close>

definition always_kept :: "int \<Rightarrow> hcheckpoint \<Rightarrow> bool" where
  "always_kept cutoff c \<longleftrightarrow> cpReason c = ''explicit'' \<or> cpReason c = ''pre_restore'' \<or> cutoff \<le> cpAt c"

lemma retain_fold:
  assumes "foldl (retain_step cutoff) (start, []) cps = (ret, weekly)"
  shows "set start \<subseteq> set ret \<and>
    (\<forall>c\<in>set cps. if always_kept cutoff c then cpId c \<in> set ret
       else \<exists>held. map_of weekly (isoWeek (cpAt c)) = Some held \<and> cpId c \<le> held) \<and>
    (\<forall>b held. map_of weekly b = Some held \<longrightarrow> (\<exists>c\<in>set cps. cpId c = held \<and> isoWeek (cpAt c) = b))"
  using assms
proof (induction cps arbitrary: ret weekly rule: rev_induct)
  case Nil
  then show ?case by simp
next
  case (snoc c cs)
  obtain ret0 weekly0 where st: "foldl (retain_step cutoff) (start, []) cs = (ret0, weekly0)" by fastforce
  note IH = snoc.IH [OF st]
  from snoc.prems st have step: "retain_step cutoff (ret0, weekly0) c = (ret, weekly)" by simp
  show ?case
  proof (cases "always_kept cutoff c")
    case True
    then have "ret = cpId c # ret0" "weekly = weekly0"
      using step by (auto simp: retain_step_def always_kept_def split: if_splits)
    with IH True show ?thesis by auto
  next
    case False
    then have "ret = ret0" and w: "weekly = weekly0 \<and> (\<exists>held. map_of weekly0 (isoWeek (cpAt c)) = Some held \<and> cpId c \<le> held)
        \<or> weekly = AList.update (isoWeek (cpAt c)) (cpId c) weekly0 \<and>
          (\<forall>held. map_of weekly0 (isoWeek (cpAt c)) = Some held \<longrightarrow> held < cpId c)"
      using step by (auto simp: retain_step_def always_kept_def split: if_splits option.splits)
    from w show ?thesis
    proof
      assume "weekly = weekly0 \<and> (\<exists>held. map_of weekly0 (isoWeek (cpAt c)) = Some held \<and> cpId c \<le> held)"
      with IH False \<open>ret = ret0\<close> show ?thesis by auto
    next
      assume w: "weekly = AList.update (isoWeek (cpAt c)) (cpId c) weekly0 \<and>
          (\<forall>held. map_of weekly0 (isoWeek (cpAt c)) = Some held \<longrightarrow> held < cpId c)"
      have look: "map_of weekly b = (if b = isoWeek (cpAt c) then Some (cpId c) else map_of weekly0 b)" for b
        using w by (simp add: js.look_put)
      have "if always_kept cutoff x then cpId x \<in> set ret
          else \<exists>held. map_of weekly (isoWeek (cpAt x)) = Some held \<and> cpId x \<le> held" if x: "x \<in> set (cs @ [c])" for x
      proof (cases "x = c")
        case True
        with False look show ?thesis by simp
      next
        case x_old: False
        with x have "x \<in> set cs" by simp
        with IH have old: "if always_kept cutoff x then cpId x \<in> set ret0
          else \<exists>held. map_of weekly0 (isoWeek (cpAt x)) = Some held \<and> cpId x \<le> held" by blast
        show ?thesis
        proof (cases "always_kept cutoff x")
          case True
          with old \<open>ret = ret0\<close> show ?thesis by simp
        next
          case nk: False
          with old obtain held where "map_of weekly0 (isoWeek (cpAt x)) = Some held" "cpId x \<le> held" by auto
          moreover from this w have "isoWeek (cpAt x) = isoWeek (cpAt c) \<Longrightarrow> cpId x \<le> cpId c" by fastforce
          ultimately show ?thesis using nk by (simp add: look)
        qed
      qed
      moreover have "\<exists>x\<in>set (cs @ [c]). cpId x = held \<and> isoWeek (cpAt x) = b" if "map_of weekly b = Some held" for b held
      proof (cases "b = isoWeek (cpAt c)")
        case True
        with that look show ?thesis by simp
      next
        case False
        with that look have "map_of weekly0 b = Some held" by simp
        with IH have "\<exists>x\<in>set cs. cpId x = held \<and> isoWeek (cpAt x) = b" by blast
        then show ?thesis by auto
      qed
      ultimately show ?thesis using IH \<open>ret = ret0\<close> by blast
    qed
  qed
qed

lemma retained_plan:
  "set (plRetained (planCompaction db board now dd cd)) =
     cpId ` {c \<in> set (hCheckpoints db). cpBoard c = board \<and>
       cpId c \<in> set (retained_ids (now - cd * day_ms) (filter (\<lambda>c. cpBoard c = board) (hCheckpoints db)))}"
  by (auto simp: planCompaction_def Let_def)

text \<open>
  C11: the policy keeps every explicit and every pre-restore checkpoint, every checkpoint of the last
  \<open>checkpointDays\<close> days, the newest checkpoint and the board's first one; and for every other
  checkpoint it keeps one of the same week that is not older.
\<close>

theorem retention_policy:
  assumes c: "c \<in> set (hCheckpoints db)" "cpBoard c = board"
  shows "(cpReason c = ''explicit'' \<or> cpReason c = ''pre_restore'' \<or> now - cd * day_ms \<le> cpAt c \<or>
      c = last (filter (\<lambda>c. cpBoard c = board) (hCheckpoints db)) \<or>
      c = hd (filter (\<lambda>c. cpBoard c = board) (hCheckpoints db)) \<longrightarrow>
        cpId c \<in> set (plRetained (planCompaction db board now dd cd))) \<and>
    (\<exists>d\<in>set (hCheckpoints db). cpBoard d = board \<and> isoWeek (cpAt d) = isoWeek (cpAt c) \<and> cpId c \<le> cpId d \<and>
        cpId d \<in> set (plRetained (planCompaction db board now dd cd)))"
proof -
  let ?cps = "filter (\<lambda>c. cpBoard c = board) (hCheckpoints db)" and ?cut = "now - cd * day_ms"
  obtain ret weekly where fold: "foldl (retain_step ?cut) (always_retained ?cps, []) ?cps = (ret, weekly)" by fastforce
  note F = retain_fold [OF fold]
  have ids: "set (retained_ids ?cut ?cps) = snd ` set weekly \<union> set ret"
    by (simp add: retained_ids_def fold)
  have mem: "d \<in> set ?cps \<Longrightarrow> cpId d \<in> set (retained_ids ?cut ?cps) \<Longrightarrow>
      cpId d \<in> set (plRetained (planCompaction db board now dd cd))" for d
    unfolding retained_plan by auto
  have mine: "c \<in> set ?cps" using c by simp
  have ends: "cpId c \<in> set ret" if "c = last ?cps \<or> c = hd ?cps"
  proof -
    from mine have "?cps \<noteq> []" by (metis empty_iff empty_set)
    with that have "cpId c \<in> set (always_retained ?cps)" unfolding always_retained_def by auto
    with F show ?thesis by blast
  qed
  have kept: "cpId c \<in> set ret" if "always_kept ?cut c" using F mine that by metis
  have week: "\<exists>d\<in>set ?cps. isoWeek (cpAt d) = isoWeek (cpAt c) \<and> cpId c \<le> cpId d \<and>
      cpId d \<in> set (retained_ids ?cut ?cps)"
  proof (cases "always_kept ?cut c")
    case True
    with kept mine show ?thesis by (intro bexI [of _ c]) (simp_all add: ids)
  next
    case False
    with F mine obtain held where held: "map_of weekly (isoWeek (cpAt c)) = Some held" "cpId c \<le> held" by metis
    with F obtain d where "d \<in> set ?cps" "cpId d = held" "isoWeek (cpAt d) = isoWeek (cpAt c)" by metis
    moreover from map_of_SomeD [OF held(1)] have "held \<in> snd ` set weekly" by force
    ultimately show ?thesis using held by (intro bexI [of _ d]) (simp_all add: ids)
  qed
  show ?thesis
  proof (rule conjI)
    show "cpReason c = ''explicit'' \<or> cpReason c = ''pre_restore'' \<or> ?cut \<le> cpAt c \<or> c = last ?cps \<or> c = hd ?cps \<longrightarrow>
        cpId c \<in> set (plRetained (planCompaction db board now dd cd))"
      using ends kept mem [OF mine] by (auto simp: ids always_kept_def simp del: filter_filter)
    from week mem show "\<exists>d\<in>set (hCheckpoints db). cpBoard d = board \<and> isoWeek (cpAt d) = isoWeek (cpAt c) \<and>
        cpId c \<le> cpId d \<and> cpId d \<in> set (plRetained (planCompaction db board now dd cd))" by fastforce
  qed
qed

theorem retention_policy_witness:
  "\<exists>d\<in>set (hCheckpoints old_db). isoWeek (cpAt d) = isoWeek 1 \<and> 2 \<le> cpId d \<and>
     cpId d \<in> set (plRetained old_plan)"
proof -
  have "old_cp 2 1 2 demo_after \<in> set (hCheckpoints old_db)" "cpBoard (old_cp 2 1 2 demo_after) = ''b''"
    by (simp_all add: old_db_def old_cp_def)
  from retention_policy [OF this, of "200 * day_ms" 90 7] show ?thesis by (auto simp: old_cp_def)
qed

text \<open>
  C12: two checkpoints share a weekly bucket exactly when they were made in the same week, Monday to
  Sunday, whatever number the code gives the week.
\<close>

theorem isoWeek_same_week:
  "isoWeek a = isoWeek b \<longleftrightarrow> (a div day_ms + 3) div 7 = (b div day_ms + 3) div 7"
proof -
  have th: "week_thursday t = 7 * ((t div day_ms + 3) div 7)" for t
    by (simp add: week_thursday_def Let_def minus_mod_eq_mult_div [symmetric])
  have r: "round_div_7 (7 * m - j) = m + round_div_7 (- j)" for m j
  proof -
    have "2 * (7 * m - j) + 7 = (7 - 2 * j) + m * 14" by simp
    then have "(2 * (7 * m - j) + 7) div 14 = m + (7 - 2 * j) div 14"
      by (simp only: div_mult_self1 [of 14 "7 - 2 * j" m])
    then show ?thesis by (simp add: round_div_7_def)
  qed
  show ?thesis
  proof
    assume eq: "isoWeek a = isoWeek b"
    define y where "y = year_of_day (week_thursday a)"
    from eq [unfolded isoWeek_def Let_def prod.inject add_left_cancel]
    have "round_div_7 (week_thursday a - january_4 y - 3) = round_div_7 (week_thursday b - january_4 y - 3)"
      unfolding y_def by (metis (no_types))
    then have "round_div_7 (7 * ((a div day_ms + 3) div 7) - (january_4 y + 3)) =
        round_div_7 (7 * ((b div day_ms + 3) div 7) - (january_4 y + 3))"
      by (simp add: th algebra_simps)
    then show "(a div day_ms + 3) div 7 = (b div day_ms + 3) div 7" by (simp only: r)
  next
    assume "(a div day_ms + 3) div 7 = (b div day_ms + 3) div 7"
    then have "week_thursday a = week_thursday b" by (simp add: th)
    then show "isoWeek a = isoWeek b" by (simp add: isoWeek_def Let_def)
  qed
qed

text \<open>
  The number is not always the ISO one: in a year whose 4 January is a Friday, a Saturday or a Sunday
  it is one less. Monday 7 January 2019 begins ISO week 2 of 2019 and gets number 1.
\<close>

lemma isoWeek_2019: "isoWeek 1546819200000 = (2019, 1)"
  by code_simp

section \<open>The command line\<close>

text \<open>
  The command line applies a pass only when \<open>--apply\<close> and \<open>--service-stopped\<close> are given, a
  backup archive is named that is at least as new as the database, and the archive verifies.
\<close>

theorem apply_guarded:
  assumes "main_args fs argv = Compact database True"
  shows "''apply'' \<in> set (snd (parse_args argv)) \<and> ''service-stopped'' \<in> set (snd (parse_args argv)) \<and>
    (\<exists>archive ta td. arg ''backup'' (fst (parse_args argv)) = Some archive \<and> fmtime fs archive = Some ta \<and>
       fmtime fs database = Some td \<and> td \<le> ta \<and> fverify fs archive)"
  using assms by (auto simp: main_args_def requireFreshBackup_def split: prod.splits option.splits if_splits)

theorem apply_guarded_witness:
  "\<exists>ta. fmtime \<lparr>fmtime = (\<lambda>f. if f = ''h.sqlite'' then Some 5 else if f = ''b.tar.gz'' then Some 7 else None),
      fverify = (\<lambda>_. True)\<rparr> ''b.tar.gz'' = Some ta \<and> 5 \<le> ta"
proof -
  let ?fs = "\<lparr>fmtime = (\<lambda>f. if f = ''h.sqlite'' then Some 5 else if f = ''b.tar.gz'' then Some 7 else None),
      fverify = (\<lambda>_. True)\<rparr>"
  let ?argv = "[''--database'', ''h.sqlite'', ''--backup'', ''b.tar.gz'', ''--apply'', ''--service-stopped'']"
  have "main_args ?fs ?argv = Compact ''h.sqlite'' True"
    by (simp add: main_args_def starts_dashes_def arg_def requireFreshBackup_def)
  from apply_guarded [OF this] show ?thesis by (simp add: starts_dashes_def arg_def)
qed

end
