(* ===== verification/AuthDb.thy ===== *)
theory AuthDb
  imports Prelude "HOL-Library.Char_ord" "HOL-Library.List_Lexorder"
begin

text \<open>
  The account database, \<open>server/auth-db.ts\<close>: users, sessions, boards, members, invitations, account
  events and board assets, as lists of rows, with the statements of \<open>AuthDatabase\<close>. An insert that
  violates a \<open>PRIMARY KEY\<close>, \<open>UNIQUE\<close>, \<open>CHECK\<close> or \<open>REFERENCES\<close> clause of the schema fails with
  \<open>Constraint\<close>. Times are milliseconds: the ISO strings of the source have a fixed width, so comparing
  them compares the times.
\<close>

section \<open>Rows\<close>

datatype board_role = Owner | Editor | Viewer

record user_rec =
  uId :: string
  uLogin :: string
  uLoginNormalized :: string
  uDisplayName :: string
  uPasswordHash :: string
  uSettings :: "(string \<times> json) list"
  uIsAdmin :: bool
  uCreatedAt :: int
  uUpdatedAt :: int
  uLastLoginAt :: "int option"
  uDisabledAt :: "int option"

record session_rec =
  sId :: string
  sTokenHash :: string
  sUserId :: string
  sCreatedAt :: int
  sExpiresAt :: int
  sLastSeenAt :: int
  sRevokedAt :: "int option"

record board_rec =
  bId :: string
  bName :: string
  bOwner :: string
  bCreatedAt :: int
  bUpdatedAt :: int
  bDeletedAt :: "int option"

record member_rec =
  mBoard :: string
  mUser :: string
  mRole :: board_role
  mCreatedAt :: int
  mUpdatedAt :: int

record invitation_rec =
  iId :: string
  iTokenHash :: string
  iCreatedBy :: string
  iBoard :: "string option"
  iRole :: "board_role option"
  iInvitedLogin :: "string option"
  iCreatedAt :: int
  iExpiresAt :: int
  iConsumedAt :: "int option"
  iConsumedBy :: "string option"
  iRevokedAt :: "int option"

record account_event =
  aeId :: nat
  aeEventId :: string
  aeType :: string
  aeActor :: "string option"
  aeSubject :: "string option"
  aeBoard :: "string option"
  aeMeta :: "(string \<times> json) list"
  aeAt :: int

record adb =
  dUsers :: "user_rec list"
  dSessions :: "session_rec list"
  dBoards :: "board_rec list"
  dMembers :: "member_rec list"
  dInvitations :: "invitation_rec list"
  dEvents :: "account_event list"
  dNextEvent :: nat
  dAssets :: "(string \<times> string) list"

datatype auth_error =
    AccountDisabled
  | BoardExists
  | BoardNotFound
  | BootstrapComplete
  | Forbidden
  | InvalidCredentials
  | InvalidInput
  | InvalidInvitation
  | InvitationRequired
  | LoginTaken
  | UserNotFound
  | Constraint string

definition empty_adb :: adb where
  "empty_adb = \<lparr>dUsers = [], dSessions = [], dBoards = [], dMembers = [], dInvitations = [],
     dEvents = [], dNextEvent = 1, dAssets = []\<rparr>"

section \<open>Users and sessions\<close>

definition countUsers :: "adb \<Rightarrow> nat" where
  "countUsers db = length (dUsers db)"

definition getUserById :: "string \<Rightarrow> adb \<Rightarrow> user_rec option" where
  "getUserById i db = find (\<lambda>u. uId u = i) (dUsers db)"

definition getUserByNormalizedLogin :: "string \<Rightarrow> adb \<Rightarrow> user_rec option" where
  "getUserByNormalizedLogin l db = find (\<lambda>u. uLoginNormalized u = l) (dUsers db)"

definition insertUser :: "user_rec \<Rightarrow> adb \<Rightarrow> auth_error + adb" where
  "insertUser u db =
     bindR (guardR (getUserById (uId u) db = None) (Constraint ''users.id'')) (\<lambda>_.
     bindR (guardR (getUserByNormalizedLogin (uLoginNormalized u) db = None) LoginTaken) (\<lambda>_.
     Inr (db\<lparr>dUsers := dUsers db @ [u]\<rparr>)))"

definition update_user :: "string \<Rightarrow> (user_rec \<Rightarrow> user_rec) \<Rightarrow> adb \<Rightarrow> adb" where
  "update_user i f db = db\<lparr>dUsers := map (\<lambda>u. if uId u = i then f u else u) (dUsers db)\<rparr>"

definition setLastLogin :: "string \<Rightarrow> int \<Rightarrow> adb \<Rightarrow> adb" where
  "setLastLogin i at' db = update_user i (\<lambda>u. u\<lparr>uLastLoginAt := Some at', uUpdatedAt := at'\<rparr>) db"

definition setUserSettings :: "string \<Rightarrow> (string \<times> json) list \<Rightarrow> int \<Rightarrow> adb \<Rightarrow> adb" where
  "setUserSettings i settings at' db = update_user i (\<lambda>u.
     if uDisabledAt u = None then u\<lparr>uSettings := settings, uUpdatedAt := at'\<rparr> else u) db"

definition set_user_disabled :: "string \<Rightarrow> int option \<Rightarrow> int \<Rightarrow> adb \<Rightarrow> adb" where
  "set_user_disabled i disabledAt at' db =
     update_user i (\<lambda>u. u\<lparr>uDisabledAt := disabledAt, uUpdatedAt := at'\<rparr>) db"

definition getSessionByTokenHash :: "string \<Rightarrow> adb \<Rightarrow> session_rec option" where
  "getSessionByTokenHash h db = find (\<lambda>s. sTokenHash s = h) (dSessions db)"

definition insertSession :: "session_rec \<Rightarrow> adb \<Rightarrow> auth_error + adb" where
  "insertSession s db =
     bindR (guardR (sId s \<notin> sId ` set (dSessions db)) (Constraint ''sessions.id'')) (\<lambda>_.
     bindR (guardR (getSessionByTokenHash (sTokenHash s) db = None \<and> length (sTokenHash s) = 64)
        (Constraint ''sessions.token_hash'')) (\<lambda>_.
     bindR (guardR (getUserById (sUserId s) db \<noteq> None) (Constraint ''sessions.user_id'')) (\<lambda>_.
     Inr (db\<lparr>dSessions := dSessions db @ [s]\<rparr>))))"

definition update_sessions :: "(session_rec \<Rightarrow> bool) \<Rightarrow> (session_rec \<Rightarrow> session_rec) \<Rightarrow> adb \<Rightarrow> adb" where
  "update_sessions p f db = db\<lparr>dSessions := map (\<lambda>s. if p s then f s else s) (dSessions db)\<rparr>"

definition touchSession :: "string \<Rightarrow> int \<Rightarrow> adb \<Rightarrow> adb" where
  "touchSession i at' = update_sessions (\<lambda>s. sId s = i \<and> sRevokedAt s = None) (\<lambda>s. s\<lparr>sLastSeenAt := at'\<rparr>)"

definition revokeSessionByTokenHash :: "string \<Rightarrow> int \<Rightarrow> adb \<Rightarrow> adb \<times> session_rec option" where
  "revokeSessionByTokenHash h at' db =
     (case getSessionByTokenHash h db of
        None \<Rightarrow> (db, None)
      | Some s \<Rightarrow> (if sRevokedAt s \<noteq> None then (db, None)
          else (update_sessions (\<lambda>x. sId x = sId s \<and> sRevokedAt x = None) (\<lambda>x. x\<lparr>sRevokedAt := Some at'\<rparr>) db,
                Some (s\<lparr>sRevokedAt := Some at'\<rparr>))))"

definition revokeSessionsForUser :: "string \<Rightarrow> int \<Rightarrow> adb \<Rightarrow> adb" where
  "revokeSessionsForUser u at' = update_sessions (\<lambda>s. sUserId s = u \<and> sRevokedAt s = None) (\<lambda>s. s\<lparr>sRevokedAt := Some at'\<rparr>)"

definition deleteExpiredSessions :: "int \<Rightarrow> adb \<Rightarrow> adb" where
  "deleteExpiredSessions before db =
     db\<lparr>dSessions := filter (\<lambda>s. \<not> (sExpiresAt s \<le> before \<or> sRevokedAt s \<noteq> None)) (dSessions db)\<rparr>"

section \<open>Boards and members\<close>

definition getBoardById :: "string \<Rightarrow> adb \<Rightarrow> board_rec option" where
  "getBoardById i db = find (\<lambda>b. bId b = i) (dBoards db)"

definition insertBoard :: "board_rec \<Rightarrow> adb \<Rightarrow> auth_error + adb" where
  "insertBoard b db =
     bindR (guardR (getBoardById (bId b) db = None) (Constraint ''boards.id'')) (\<lambda>_.
     bindR (guardR (getUserById (bOwner b) db \<noteq> None) (Constraint ''boards.owner_user_id'')) (\<lambda>_.
     Inr (db\<lparr>dBoards := dBoards db @ [b]\<rparr>)))"

definition update_board :: "string \<Rightarrow> (board_rec \<Rightarrow> board_rec) \<Rightarrow> adb \<Rightarrow> adb" where
  "update_board i f db = db\<lparr>dBoards := map (\<lambda>b. if bId b = i then f b else b) (dBoards db)\<rparr>"

definition db_renameBoard :: "string \<Rightarrow> string \<Rightarrow> int \<Rightarrow> adb \<Rightarrow> adb" where
  "db_renameBoard i name at' = update_board i (\<lambda>b. b\<lparr>bName := name, bUpdatedAt := at'\<rparr>)"

definition setBoardDeleted :: "string \<Rightarrow> int option \<Rightarrow> int \<Rightarrow> adb \<Rightarrow> adb" where
  "setBoardDeleted i deletedAt at' = update_board i (\<lambda>b. b\<lparr>bDeletedAt := deletedAt, bUpdatedAt := at'\<rparr>)"

definition getBoardMember :: "string \<Rightarrow> string \<Rightarrow> adb \<Rightarrow> member_rec option" where
  "getBoardMember b u db = find (\<lambda>m. mBoard m = b \<and> mUser m = u) (dMembers db)"

definition upsertBoardMember :: "member_rec \<Rightarrow> adb \<Rightarrow> auth_error + adb" where
  "upsertBoardMember m db =
     bindR (guardR (getBoardById (mBoard m) db \<noteq> None) (Constraint ''board_members.board_id'')) (\<lambda>_.
     bindR (guardR (getUserById (mUser m) db \<noteq> None) (Constraint ''board_members.user_id'')) (\<lambda>_.
     Inr (if getBoardMember (mBoard m) (mUser m) db = None
       then db\<lparr>dMembers := dMembers db @ [m]\<rparr>
       else db\<lparr>dMembers := map (\<lambda>x. if mBoard x = mBoard m \<and> mUser x = mUser m
              then x\<lparr>mRole := mRole m, mUpdatedAt := mUpdatedAt m\<rparr> else x) (dMembers db)\<rparr>)))"

definition removeBoardMember :: "string \<Rightarrow> string \<Rightarrow> adb \<Rightarrow> adb" where
  "removeBoardMember b u db = db\<lparr>dMembers := filter (\<lambda>m. \<not> (mBoard m = b \<and> mUser m = u)) (dMembers db)\<rparr>"

definition db_listBoardMembers :: "string \<Rightarrow> adb \<Rightarrow> member_rec list" where
  "db_listBoardMembers b db =
     (let ms = sort_key mCreatedAt (sort_key mUser (filter (\<lambda>m. mBoard m = b) (dMembers db))) in
      filter (\<lambda>m. mRole m = Owner) ms @ filter (\<lambda>m. mRole m = Editor) ms @ filter (\<lambda>m. mRole m = Viewer) ms)"

definition listBoardsForUser :: "string \<Rightarrow> bool \<Rightarrow> adb \<Rightarrow> (board_rec \<times> board_role) list" where
  "listBoardsForUser u includeDeleted db =
     concat (map (\<lambda>b. if includeDeleted \<or> bDeletedAt b = None
        then map (\<lambda>m. (b, mRole m)) (filter (\<lambda>m. mBoard m = bId b \<and> mUser m = u) (dMembers db)) else [])
       (sort_key (\<lambda>b. - bUpdatedAt b) (sort_key bId (dBoards db))))"

section \<open>Invitations, events, assets\<close>

definition getInvitationByTokenHash :: "string \<Rightarrow> adb \<Rightarrow> invitation_rec option" where
  "getInvitationByTokenHash h db = find (\<lambda>i. iTokenHash i = h) (dInvitations db)"

definition insertInvitation :: "invitation_rec \<Rightarrow> adb \<Rightarrow> auth_error + adb" where
  "insertInvitation i db =
     bindR (guardR (iId i \<notin> iId ` set (dInvitations db)) (Constraint ''invitations.id'')) (\<lambda>_.
     bindR (guardR (getInvitationByTokenHash (iTokenHash i) db = None \<and> length (iTokenHash i) = 64)
        (Constraint ''invitations.token_hash'')) (\<lambda>_.
     bindR (guardR (getUserById (iCreatedBy i) db \<noteq> None) (Constraint ''invitations.created_by_user_id'')) (\<lambda>_.
     bindR (guardR (case iBoard i of None \<Rightarrow> True | Some b \<Rightarrow> getBoardById b db \<noteq> None) (Constraint ''invitations.board_id'')) (\<lambda>_.
     bindR (guardR ((iBoard i = None) = (iRole i = None) \<and> iRole i \<noteq> Some Owner) (Constraint ''invitations.role'')) (\<lambda>_.
     Inr (db\<lparr>dInvitations := dInvitations db @ [i]\<rparr>))))))"

definition update_invitation :: "(invitation_rec \<Rightarrow> bool) \<Rightarrow> (invitation_rec \<Rightarrow> invitation_rec) \<Rightarrow> adb \<Rightarrow> adb \<times> bool" where
  "update_invitation p f db =
     (db\<lparr>dInvitations := map (\<lambda>i. if p i then f i else i) (dInvitations db)\<rparr>,
      length (filter p (dInvitations db)) = 1)"

definition db_consumeInvitation :: "string \<Rightarrow> string \<Rightarrow> int \<Rightarrow> adb \<Rightarrow> adb \<times> bool" where
  "db_consumeInvitation i u at' = update_invitation
     (\<lambda>x. iId x = i \<and> iConsumedAt x = None \<and> iRevokedAt x = None \<and> iExpiresAt x > at')
     (\<lambda>x. x\<lparr>iConsumedAt := Some at', iConsumedBy := Some u\<rparr>)"

definition db_revokeInvitation :: "string \<Rightarrow> int \<Rightarrow> adb \<Rightarrow> adb \<times> bool" where
  "db_revokeInvitation i at' = update_invitation
     (\<lambda>x. iId x = i \<and> iConsumedAt x = None \<and> iRevokedAt x = None) (\<lambda>x. x\<lparr>iRevokedAt := Some at'\<rparr>)"

definition insertAccountEvent ::
    "(nat \<Rightarrow> string) \<Rightarrow> string \<Rightarrow> string option \<Rightarrow> string option \<Rightarrow> string option \<Rightarrow> (string \<times> json) list \<Rightarrow> int
       \<Rightarrow> adb \<Rightarrow> adb" where
  "insertAccountEvent uuid type actor subject board meta at' db =
     db\<lparr>dEvents := dEvents db @ [\<lparr>aeId = dNextEvent db, aeEventId = uuid (dNextEvent db), aeType = type,
         aeActor = actor, aeSubject = subject, aeBoard = board, aeMeta = meta, aeAt = at'\<rparr>],
        dNextEvent := Suc (dNextEvent db)\<rparr>"

definition truthy :: "string option \<Rightarrow> string option" where
  "truthy s = (if s = Some [] then None else s)"

definition listAccountEvents :: "string option \<Rightarrow> string option \<Rightarrow> int option \<Rightarrow> adb \<Rightarrow> account_event list" where
  "listAccountEvents user board limit db =
     take (nat (min (max (case limit of None \<Rightarrow> 100 | Some l \<Rightarrow> l) 1) 500)) (rev
       (case (truthy board, truthy user) of
          (Some b, _) \<Rightarrow> filter (\<lambda>e. aeBoard e = Some b) (dEvents db)
        | (None, Some u) \<Rightarrow> filter (\<lambda>e. aeActor e = Some u \<or> aeSubject e = Some u) (dEvents db)
        | _ \<Rightarrow> dEvents db))"

definition listBoardEventsSince :: "string \<Rightarrow> nat \<Rightarrow> adb \<Rightarrow> account_event list" where
  "listBoardEventsSince board after db =
     take 500 (filter (\<lambda>e. aeBoard e = Some board \<and> aeId e > after) (dEvents db))"

definition registerBoardAsset :: "string \<Rightarrow> string \<Rightarrow> adb \<Rightarrow> auth_error + adb" where
  "registerBoardAsset board upload db =
     bindR (guardR (getBoardById board db \<noteq> None) (Constraint ''board_assets.board_id'')) (\<lambda>_.
     Inr (if (upload, board) \<in> set (dAssets db) then db else db\<lparr>dAssets := dAssets db @ [(upload, board)]\<rparr>))"

text \<open>\<open>upload_id LIKE prefix%\<close> with the wildcards of the prefix escaped, ignoring ASCII case.\<close>

definition countBoardAssetsWithPrefix :: "string \<Rightarrow> string \<Rightarrow> adb \<Rightarrow> nat" where
  "countBoardAssetsWithPrefix board pre db =
     length (filter (\<lambda>(u, b). b = board \<and> fold_case (take (length pre) u) = fold_case pre) (dAssets db))"

definition registerBoardAssetIfUnderCap :: "string \<Rightarrow> string \<Rightarrow> string \<Rightarrow> nat \<Rightarrow> adb \<Rightarrow> auth_error + (adb \<times> bool)" where
  "registerBoardAssetIfUnderCap board upload pre maxCount db =
     (if countBoardAssetsWithPrefix board pre db \<ge> maxCount then Inr (db, False)
      else bindR (registerBoardAsset board upload db) (\<lambda>db'. Inr (db', True)))"

definition canReadAsset :: "string \<Rightarrow> string \<Rightarrow> string \<Rightarrow> adb \<Rightarrow> bool" where
  "canReadAsset user board upload db \<longleftrightarrow>
     (upload, board) \<in> set (dAssets db) \<and> getBoardMember board user db \<noteq> None \<and>
     (case getBoardById board db of None \<Rightarrow> False | Some b \<Rightarrow> bDeletedAt b = None)"

definition assetBelongsToBoard :: "string \<Rightarrow> string \<Rightarrow> adb \<Rightarrow> bool" where
  "assetBelongsToBoard upload board db \<longleftrightarrow> (upload, board) \<in> set (dAssets db) \<and>
     (case getBoardById board db of None \<Rightarrow> False | Some b \<Rightarrow> bDeletedAt b = None)"

end
