(* ===== verification/AuthService.thy ===== *)
theory AuthService
  imports AuthDb
begin

text \<open>
  \<open>AuthService\<close> of \<open>server/auth.ts\<close>: accounts, sessions, boards, members and invitations over the
  database of AuthDb. A method that throws inside a transaction leaves the database as it was, so it
  is an \<open>Inl\<close>. The clock, the random identifiers and tokens of a call, SHA-256 of a token, scrypt and
  the Unicode operations of the JavaScript library are arguments.
\<close>

section \<open>Parameters\<close>

text \<open>Unicode: NFKC, lower case, and the classes \<open>\p{L}\<close> and \<open>\p{N}\<close>.\<close>

record unicode =
  ucNfkc :: "string \<Rightarrow> string"
  ucLower :: "string \<Rightarrow> string"
  ucLetterOrNumber :: "char \<Rightarrow> bool"

text \<open>\<open>salt \<mapsto> scrypt(password, salt)\<close>, base64url, \<open>Number(text)\<close> and SHA-256 in hex.\<close>

record crypto =
  cyScrypt :: "string \<Rightarrow> nat list \<Rightarrow> nat list option"
  cyEncode :: "nat list \<Rightarrow> string"
  cyDecode :: "string \<Rightarrow> nat list"
  cyNumber :: "string \<Rightarrow> int option"
  cyHash :: "string \<Rightarrow> string"

record auth_config =
  acOpen :: bool
  acSessionTtl :: int
  acInvitationTtl :: int

text \<open>What one call draws at random, and the size of a settings object as JSON.\<close>

record draws =
  drUser :: string
  drSession :: string
  drInvitation :: string
  drToken :: string
  drEvent :: "nat \<Rightarrow> string"

record service =
  svUnicode :: unicode
  svCrypto :: crypto
  svConfig :: auth_config
  svJsonBytes :: "(string \<times> json) list \<Rightarrow> nat"

definition min_session_ttl :: int where "min_session_ttl = 5 * 60000"
definition max_session_ttl :: int where "max_session_ttl = 90 * 24 * 60 * 60000"
definition min_invitation_ttl :: int where "min_invitation_ttl = 5 * 60000"
definition max_invitation_ttl :: int where "max_invitation_ttl = 30 * 24 * 60 * 60000"

definition checkedTtl :: "int \<Rightarrow> int \<Rightarrow> int \<Rightarrow> auth_error + int" where
  "checkedTtl v lo hi = bindR (guardR (lo \<le> v \<and> v \<le> hi) InvalidInput) (\<lambda>_. Inr v)"

definition auth_service_new :: "bool option \<Rightarrow> int option \<Rightarrow> int option \<Rightarrow> auth_error + auth_config" where
  "auth_service_new openRegistration sessionTtl invitationTtl =
     bindR (checkedTtl (case sessionTtl of None \<Rightarrow> 30 * 24 * 60 * 60000 | Some t \<Rightarrow> t) min_session_ttl max_session_ttl) (\<lambda>s.
     bindR (checkedTtl (case invitationTtl of None \<Rightarrow> 7 * 24 * 60 * 60000 | Some t \<Rightarrow> t) min_invitation_ttl max_invitation_ttl) (\<lambda>i.
     Inr \<lparr>acOpen = (openRegistration = Some True), acSessionTtl = s, acInvitationTtl = i\<rparr>))"

section \<open>Input\<close>

definition validatePassword :: "string \<Rightarrow> auth_error + unit" where
  "validatePassword p = guardR (10 \<le> length p \<and> length p \<le> 1024) InvalidInput"

definition hashPassword :: "crypto \<Rightarrow> nat list \<Rightarrow> string \<Rightarrow> auth_error + string" where
  "hashPassword cy salt p =
     bindR (validatePassword p) (\<lambda>_.
     (case cyScrypt cy p salt of
        None \<Rightarrow> Inl InvalidInput
      | Some key \<Rightarrow> Inr (''scrypt$v1$32768$8$1$'' @ cyEncode cy salt @ ''$'' @ cyEncode cy key)))"

definition verifyPassword :: "crypto \<Rightarrow> string \<Rightarrow> string \<Rightarrow> bool" where
  "verifyPassword cy p encoded \<longleftrightarrow> length p \<le> 1024 \<and>
     (case split_on CHR ''$'' encoded of
        [scheme, version, cost, blockSize, parallelization, salt, key] \<Rightarrow>
          scheme = ''scrypt'' \<and> version = ''v1'' \<and> cyNumber cy cost = Some 32768 \<and>
          cyNumber cy blockSize = Some 8 \<and> cyNumber cy parallelization = Some 1 \<and>
          16 \<le> length (cyDecode cy salt) \<and> length (cyDecode cy salt) \<le> 32 \<and> length (cyDecode cy key) = 32 \<and>
          cyScrypt cy p (cyDecode cy salt) = Some (cyDecode cy key)
      | _ \<Rightarrow> False)"

definition login_char :: "unicode \<Rightarrow> char \<Rightarrow> bool" where
  "login_char uc c \<longleftrightarrow> ucLetterOrNumber uc c \<or> c \<in> set ''._@+-''"

definition normalizeLogin :: "unicode \<Rightarrow> string \<Rightarrow> auth_error + string" where
  "normalizeLogin uc login =
     (let n = ucLower uc (js_trim (ucNfkc uc login)) in
      bindR (guardR (3 \<le> length n \<and> length n \<le> 80 \<and> ucLetterOrNumber uc (hd n) \<and> list_all (login_char uc) (tl n))
        InvalidInput) (\<lambda>_. Inr n))"

definition cleanLogin :: "unicode \<Rightarrow> string \<Rightarrow> auth_error + string" where
  "cleanLogin uc login = (let c = js_trim (ucNfkc uc login) in bindR (normalizeLogin uc c) (\<lambda>_. Inr c))"

definition clean_text :: "nat \<Rightarrow> unicode \<Rightarrow> string \<Rightarrow> auth_error + string" where
  "clean_text hi uc name =
     (let c = js_trim (ucNfkc uc name) in
      bindR (guardR (1 \<le> length c \<and> length c \<le> hi \<and> \<not> has_control c) InvalidInput) (\<lambda>_. Inr c))"

definition cleanDisplayName :: "unicode \<Rightarrow> string \<Rightarrow> auth_error + string" where
  "cleanDisplayName = clean_text 100"

definition cleanBoardName :: "unicode \<Rightarrow> string \<Rightarrow> auth_error + string" where
  "cleanBoardName = clean_text 120"

definition validateBoardId :: "string \<Rightarrow> auth_error + string" where
  "validateBoardId i = bindR (guardR (matches_class is_id_char 1 80 i) InvalidInput) (\<lambda>_. Inr i)"

definition serializeObject :: "service \<Rightarrow> (string \<times> json) list option \<Rightarrow> auth_error + (string \<times> json) list" where
  "serializeObject sv value =
     (let v = (case value of None \<Rightarrow> [] | Some x \<Rightarrow> x) in
      bindR (guardR (svJsonBytes sv v \<le> 16 * 1024) InvalidInput) (\<lambda>_. Inr v))"

definition validOpaqueToken :: "string \<Rightarrow> bool" where
  "validOpaqueToken t \<longleftrightarrow> matches_class is_id_char 40 128 t"

section \<open>Guards\<close>

definition requireActiveUser :: "string \<Rightarrow> adb \<Rightarrow> auth_error + user_rec" where
  "requireActiveUser i db = (case getUserById i db of
       None \<Rightarrow> Inl UserNotFound
     | Some u \<Rightarrow> if uDisabledAt u \<noteq> None then Inl AccountDisabled else Inr u)"

definition visible_board :: "string \<Rightarrow> string \<Rightarrow> bool \<Rightarrow> adb \<Rightarrow> (board_rec \<times> member_rec) option" where
  "visible_board user i includeDeleted db = (case (getBoardById i db, getBoardMember i user db) of
       (Some b, Some m) \<Rightarrow> (if \<not> includeDeleted \<and> bDeletedAt b \<noteq> None then None else Some (b, m))
     | _ \<Rightarrow> None)"

definition requireBoardMember :: "string \<Rightarrow> string \<Rightarrow> bool \<Rightarrow> adb \<Rightarrow> auth_error + (board_rec \<times> member_rec)" where
  "requireBoardMember user board includeDeleted db =
     bindR (requireActiveUser user db) (\<lambda>_.
     bindR (validateBoardId board) (\<lambda>i.
     (case visible_board user i includeDeleted db of None \<Rightarrow> Inl BoardNotFound | Some bm \<Rightarrow> Inr bm)))"

definition assertInvitationUsable :: "invitation_rec \<Rightarrow> string \<Rightarrow> int \<Rightarrow> adb \<Rightarrow> auth_error + unit" where
  "assertInvitationUsable i login now db =
     bindR (guardR (\<not> (iConsumedAt i \<noteq> None \<or> iRevokedAt i \<noteq> None \<or> iExpiresAt i \<le> now \<or>
         (case truthy (iInvitedLogin i) of None \<Rightarrow> False | Some l \<Rightarrow> l \<noteq> login))) InvalidInvitation) (\<lambda>_.
     (case iBoard i of
        None \<Rightarrow> Inr ()
      | Some b \<Rightarrow> (case getBoardById b db of
            None \<Rightarrow> Inl InvalidInvitation
          | Some bd \<Rightarrow> guardR (bDeletedAt bd = None) InvalidInvitation)))"

definition role_rank :: "board_role \<Rightarrow> nat" where
  "role_rank r = (case r of Viewer \<Rightarrow> 1 | Editor \<Rightarrow> 2 | Owner \<Rightarrow> 3)"

definition applyInvitedMembership :: "invitation_rec \<Rightarrow> string \<Rightarrow> int \<Rightarrow> adb \<Rightarrow> auth_error + adb" where
  "applyInvitedMembership i user now db = (case (iBoard i, iRole i) of
       (Some b, Some role) \<Rightarrow>
         (case getBoardMember b user db of
            Some m \<Rightarrow> (if role_rank (mRole m) \<ge> role_rank role then Inr db
              else upsertBoardMember \<lparr>mBoard = b, mUser = user, mRole = role, mCreatedAt = mCreatedAt m, mUpdatedAt = now\<rparr> db)
          | None \<Rightarrow> upsertBoardMember \<lparr>mBoard = b, mUser = user, mRole = role, mCreatedAt = now, mUpdatedAt = now\<rparr> db)
     | _ \<Rightarrow> Inr db)"

section \<open>Accounts\<close>

record register_input =
  rgLogin :: string
  rgDisplayName :: string
  rgPassword :: string
  rgInvitation :: "string option"
  rgSettings :: "(string \<times> json) list option"

definition new_session :: "service \<Rightarrow> draws \<Rightarrow> string \<Rightarrow> int \<Rightarrow> session_rec" where
  "new_session sv dr user now =
     \<lparr>sId = drSession dr, sTokenHash = cyHash (svCrypto sv) (drToken dr), sUserId = user, sCreatedAt = now,
      sExpiresAt = now + acSessionTtl (svConfig sv), sLastSeenAt = now, sRevokedAt = None\<rparr>"

text \<open>The transaction of \<open>registerInternal\<close>, on checked input.\<close>

definition register_transaction ::
    "service \<Rightarrow> draws \<Rightarrow> int \<Rightarrow> bool \<Rightarrow> user_rec \<Rightarrow> string option \<Rightarrow> adb \<Rightarrow> auth_error + adb" where
  "register_transaction sv dr now bootstrapOnly newUser invitationToken db =
     (let userCount = countUsers db in
      bindR (guardR (\<not> (bootstrapOnly \<and> userCount \<noteq> 0)) BootstrapComplete) (\<lambda>_.
      bindR (guardR (getUserByNormalizedLogin (uLoginNormalized newUser) db = None) LoginTaken) (\<lambda>_.
      (let invitation = (case invitationToken of
             None \<Rightarrow> None
           | Some t \<Rightarrow> if validOpaqueToken t then getInvitationByTokenHash (cyHash (svCrypto sv) t) db else None) in
       bindR (guardR (\<not> (invitationToken \<noteq> None \<and> invitation = None)) InvalidInvitation) (\<lambda>_.
       bindR (guardR (\<not> (userCount > 0 \<and> \<not> acOpen (svConfig sv) \<and> invitation = None)) InvitationRequired) (\<lambda>_.
       bindR (case invitation of None \<Rightarrow> Inr ()
              | Some i \<Rightarrow> assertInvitationUsable i (uLoginNormalized newUser) now db) (\<lambda>_.
       (let user = newUser\<lparr>uIsAdmin := (userCount = 0)\<rparr> in
        bindR (insertUser user db) (\<lambda>db1.
        bindR (case invitation of
            None \<Rightarrow> Inr db1
          | Some i \<Rightarrow> (case db_consumeInvitation (iId i) (uId user) now db1 of
              (db2, ok) \<Rightarrow>
                bindR (guardR ok InvalidInvitation) (\<lambda>_.
                bindR (applyInvitedMembership i (uId user) now db2) (\<lambda>db3.
                Inr (insertAccountEvent (drEvent dr) ''invitation.consumed'' (Some (uId user)) (Some (uId user))
                       (iBoard i) [(''invitationId'', JStr (iId i))] now db3))))) (\<lambda>db4.
        bindR (insertSession (new_session sv dr (uId user) now) db4) (\<lambda>db5.
        Inr (insertAccountEvent (drEvent dr)
               (if uIsAdmin user then ''account.bootstrapped'' else ''account.registered'')
               (Some (uId user)) (Some (uId user)) (case invitation of None \<Rightarrow> None | Some i \<Rightarrow> iBoard i) [] now db5))))))))))))"

definition registerInternal ::
    "service \<Rightarrow> draws \<Rightarrow> nat list \<Rightarrow> int \<Rightarrow> bool \<Rightarrow> register_input \<Rightarrow> adb \<Rightarrow> auth_error + (adb \<times> string)" where
  "registerInternal sv dr salt now bootstrapOnly inp db =
     bindR (cleanLogin (svUnicode sv) (rgLogin inp)) (\<lambda>login.
     bindR (normalizeLogin (svUnicode sv) login) (\<lambda>loginNormalized.
     bindR (cleanDisplayName (svUnicode sv) (rgDisplayName inp)) (\<lambda>displayName.
     bindR (serializeObject sv (rgSettings inp)) (\<lambda>settings.
     bindR (hashPassword (svCrypto sv) salt (rgPassword inp)) (\<lambda>passwordHash.
     bindR (register_transaction sv dr now bootstrapOnly
        \<lparr>uId = drUser dr, uLogin = login, uLoginNormalized = loginNormalized, uDisplayName = displayName,
         uPasswordHash = passwordHash, uSettings = settings, uIsAdmin = False, uCreatedAt = now, uUpdatedAt = now,
         uLastLoginAt = Some now, uDisabledAt = None\<rparr> (truthy (rgInvitation inp)) db) (\<lambda>db'.
     Inr (db', drToken dr)))))))"

text \<open>
  \<open>login\<close> reads the account, then awaits scrypt, then writes: \<open>login_check\<close> runs on the database of the
  first moment and \<open>login_commit\<close> on the one of the second.
\<close>

definition login_check :: "service \<Rightarrow> string \<Rightarrow> string \<Rightarrow> adb \<Rightarrow> auth_error + user_rec" where
  "login_check sv login password db =
     bindR (normalizeLogin (svUnicode sv) login) (\<lambda>l.
     (case getUserByNormalizedLogin l db of
        None \<Rightarrow> Inl InvalidCredentials
      | Some u \<Rightarrow> (if \<not> verifyPassword (svCrypto sv) password (uPasswordHash u) \<or> uDisabledAt u \<noteq> None
                 then Inl InvalidCredentials else Inr u)))"

definition login_commit :: "service \<Rightarrow> draws \<Rightarrow> int \<Rightarrow> user_rec \<Rightarrow> adb \<Rightarrow> auth_error + (adb \<times> string)" where
  "login_commit sv dr now user db =
     bindR (insertSession (new_session sv dr (uId user) now) (setLastLogin (uId user) now db)) (\<lambda>db1.
     Inr (insertAccountEvent (drEvent dr) ''session.created'' (Some (uId user)) (Some (uId user)) None [] now db1, drToken dr))"

definition getCurrentSession :: "service \<Rightarrow> int \<Rightarrow> string \<Rightarrow> adb \<Rightarrow> adb \<times> (user_rec \<times> session_rec) option" where
  "getCurrentSession sv now token db =
     (if \<not> validOpaqueToken token then (db, None)
      else case getSessionByTokenHash (cyHash (svCrypto sv) token) db of
        None \<Rightarrow> (db, None)
      | Some s \<Rightarrow>
        (if sRevokedAt s \<noteq> None then (db, None)
         else if sExpiresAt s \<le> now then (fst (revokeSessionByTokenHash (cyHash (svCrypto sv) token) now db), None)
         else case getUserById (sUserId s) db of
             None \<Rightarrow> (db, None)
           | Some u \<Rightarrow> (if uDisabledAt u \<noteq> None then (db, None)
               else (touchSession (sId s) now db, Some (u, s\<lparr>sLastSeenAt := now\<rparr>)))))"

definition logout :: "service \<Rightarrow> draws \<Rightarrow> int \<Rightarrow> string \<Rightarrow> adb \<Rightarrow> adb \<times> bool" where
  "logout sv dr now token db =
     (if \<not> validOpaqueToken token then (db, False)
      else case revokeSessionByTokenHash (cyHash (svCrypto sv) token) now db of
        (db1, None) \<Rightarrow> (db1, False)
      | (db1, Some s) \<Rightarrow> (insertAccountEvent (drEvent dr) ''session.revoked'' (Some (sUserId s)) (Some (sUserId s)) None
            [(''sessionId'', JStr (sId s))] now db1, True))"

section \<open>What callers see\<close>

text \<open>The projections of rows that leave the service: no password hash, no token hash, no consumer.\<close>

record auth_user =
  auId :: string
  auLogin :: string
  auDisplayName :: string
  auSettings :: "(string \<times> json) list"
  auIsAdmin :: bool
  auCreatedAt :: int
  auUpdatedAt :: int
  auLastLoginAt :: "int option"
  auDisabledAt :: "int option"

definition publicUser :: "user_rec \<Rightarrow> auth_user" where
  "publicUser u = \<lparr>auId = uId u, auLogin = uLogin u, auDisplayName = uDisplayName u, auSettings = uSettings u,
     auIsAdmin = uIsAdmin u, auCreatedAt = uCreatedAt u, auUpdatedAt = uUpdatedAt u, auLastLoginAt = uLastLoginAt u,
     auDisabledAt = uDisabledAt u\<rparr>"

record auth_session =
  asId :: string
  asCreatedAt :: int
  asExpiresAt :: int
  asLastSeenAt :: int

definition publicSession :: "session_rec \<Rightarrow> auth_session" where
  "publicSession s = \<lparr>asId = sId s, asCreatedAt = sCreatedAt s, asExpiresAt = sExpiresAt s, asLastSeenAt = sLastSeenAt s\<rparr>"

record board_summary =
  bsId :: string
  bsName :: string
  bsOwner :: string
  bsRole :: board_role
  bsCreatedAt :: int
  bsUpdatedAt :: int
  bsDeletedAt :: "int option"

definition publicBoard :: "board_rec \<Rightarrow> board_role \<Rightarrow> board_summary" where
  "publicBoard b r = \<lparr>bsId = bId b, bsName = bName b, bsOwner = bOwner b, bsRole = r, bsCreatedAt = bCreatedAt b,
     bsUpdatedAt = bUpdatedAt b, bsDeletedAt = bDeletedAt b\<rparr>"

record invitation_summary =
  isId :: string
  isBoard :: "string option"
  isRole :: "board_role option"
  isInvitedLogin :: "string option"
  isCreatedAt :: int
  isExpiresAt :: int
  isConsumedAt :: "int option"
  isRevokedAt :: "int option"

definition publicInvitation :: "invitation_rec \<Rightarrow> invitation_summary" where
  "publicInvitation i = \<lparr>isId = iId i, isBoard = iBoard i, isRole = iRole i, isInvitedLogin = iInvitedLogin i,
     isCreatedAt = iCreatedAt i, isExpiresAt = iExpiresAt i, isConsumedAt = iConsumedAt i, isRevokedAt = iRevokedAt i\<rparr>"

end
