(* ===== verification/AuthBoards.thy ===== *)
theory AuthBoards
  imports AuthService
begin

text \<open>
  \<open>AuthService\<close> of \<open>server/auth.ts\<close>, second part: boards, members, invitations, settings, disabling
  accounts and reading the audit trail.
\<close>

section \<open>Boards\<close>

definition listBoards :: "string \<Rightarrow> bool \<Rightarrow> adb \<Rightarrow> auth_error + (board_rec \<times> board_role) list" where
  "listBoards user includeDeleted db =
     bindR (requireActiveUser user db) (\<lambda>_. Inr (listBoardsForUser user includeDeleted db))"

definition insert_owned_board :: "board_rec \<Rightarrow> adb \<Rightarrow> auth_error + adb" where
  "insert_owned_board b db =
     bindR (insertBoard b db) (\<lambda>db1.
     upsertBoardMember \<lparr>mBoard = bId b, mUser = bOwner b, mRole = Owner, mCreatedAt = bCreatedAt b,
       mUpdatedAt = bUpdatedAt b\<rparr> db1)"

definition createBoard ::
    "service \<Rightarrow> draws \<Rightarrow> int \<Rightarrow> string \<Rightarrow> string \<Rightarrow> string \<Rightarrow> string option \<Rightarrow> adb \<Rightarrow> auth_error + (adb \<times> board_rec)" where
  "createBoard sv dr now user name requestedId agent db =
     bindR (requireActiveUser user db) (\<lambda>_.
     bindR (validateBoardId requestedId) (\<lambda>i.
     bindR (cleanBoardName (svUnicode sv) name) (\<lambda>clean.
     bindR (guardR (getBoardById i db = None) BoardExists) (\<lambda>_.
     (let b = \<lparr>bId = i, bName = clean, bOwner = user, bCreatedAt = now, bUpdatedAt = now, bDeletedAt = None\<rparr> in
      bindR (insert_owned_board b db) (\<lambda>db1.
      Inr (case truthy agent of
          Some a \<Rightarrow> insertAccountEvent (drEvent dr) ''board.created'' None (Some user) (Some i)
             [(''name'', JStr clean), (''actorKind'', JStr ''agent''), (''agentName'', JStr a)] now db1
        | None \<Rightarrow> insertAccountEvent (drEvent dr) ''board.created'' (Some user) (Some user) (Some i)
             [(''name'', JStr clean)] now db1, b)))))))"

fun adopt_boards ::
    "draws \<Rightarrow> int \<Rightarrow> string \<Rightarrow> (string \<times> string) list \<Rightarrow> adb \<Rightarrow> auth_error + (adb \<times> board_rec list)" where
  "adopt_boards dr now owner [] db = Inr (db, [])"
| "adopt_boards dr now owner ((i, name) # rest) db =
     (if getBoardById i db \<noteq> None then adopt_boards dr now owner rest db
      else (let b = \<lparr>bId = i, bName = name, bOwner = owner, bCreatedAt = now, bUpdatedAt = now, bDeletedAt = None\<rparr> in
        bindR (insert_owned_board b db) (\<lambda>db1.
        bindR (adopt_boards dr now owner rest
            (insertAccountEvent (drEvent dr) ''board.legacy_adopted'' (Some owner) (Some owner) (Some i)
              [(''name'', JStr name)] now db1)) (\<lambda>(db2, bs). Inr (db2, b # bs)))))"

definition adoptLegacyBoards ::
    "service \<Rightarrow> draws \<Rightarrow> int \<Rightarrow> string \<Rightarrow> (string \<times> string option) list \<Rightarrow> adb \<Rightarrow> auth_error + (adb \<times> board_rec list)" where
  "adoptLegacyBoards sv dr now owner boards db =
     bindR (requireActiveUser owner db) (\<lambda>u.
     bindR (guardR (uIsAdmin u) Forbidden) (\<lambda>_.
     bindR (guardR (length boards \<le> 1000) InvalidInput) (\<lambda>_.
     bindR (foldR (\<lambda>m (i, name).
         bindR (validateBoardId i) (\<lambda>_.
         bindR (cleanBoardName (svUnicode sv) (case name of Some n \<Rightarrow> n | None \<Rightarrow> if i = ''demo'' then ''Demo'' else i))
           (\<lambda>clean. Inr (AList.update i clean m)))) [] boards) (\<lambda>cleaned.
     adopt_boards dr now owner cleaned db))))"

definition getBoard :: "string \<Rightarrow> string \<Rightarrow> bool \<Rightarrow> adb \<Rightarrow> auth_error + (board_rec \<times> board_role) option" where
  "getBoard user board includeDeleted db =
     bindR (requireActiveUser user db) (\<lambda>_.
     bindR (validateBoardId board) (\<lambda>i.
     Inr (map_option (\<lambda>(b, m). (b, mRole m)) (visible_board user i includeDeleted db))))"

definition getBoardRole :: "string \<Rightarrow> string \<Rightarrow> bool \<Rightarrow> adb \<Rightarrow> auth_error + board_role option" where
  "getBoardRole user board includeDeleted db =
     bindR (getBoard user board includeDeleted db) (\<lambda>b. Inr (map_option snd b))"

definition requireOwner :: "string \<Rightarrow> string \<Rightarrow> bool \<Rightarrow> adb \<Rightarrow> auth_error + board_rec" where
  "requireOwner user board includeDeleted db =
     bindR (requireBoardMember user board includeDeleted db) (\<lambda>(b, m).
     bindR (guardR (mRole m = Owner) Forbidden) (\<lambda>_. Inr b))"

definition renameBoard :: "service \<Rightarrow> draws \<Rightarrow> int \<Rightarrow> string \<Rightarrow> string \<Rightarrow> string \<Rightarrow> adb \<Rightarrow> auth_error + adb" where
  "renameBoard sv dr now user board name db =
     bindR (requireOwner user board True db) (\<lambda>b.
     bindR (cleanBoardName (svUnicode sv) name) (\<lambda>clean.
     Inr (insertAccountEvent (drEvent dr) ''board.renamed'' (Some user) (Some user) (Some (bId b))
       [(''previousName'', JStr (bName b)), (''name'', JStr clean)] now (db_renameBoard (bId b) clean now db))))"

definition deleteBoard ::
    "draws \<Rightarrow> int \<Rightarrow> string \<Rightarrow> string \<Rightarrow> string option \<Rightarrow> string option \<Rightarrow> adb \<Rightarrow> auth_error + adb" where
  "deleteBoard dr now user board agent reason db =
     bindR (requireOwner user board True db) (\<lambda>b.
     Inr (if bDeletedAt b \<noteq> None then db
       else (let db1 = setBoardDeleted (bId b) (Some now) now db in
         case truthy agent of
           Some a \<Rightarrow> insertAccountEvent (drEvent dr) ''board.deleted'' None (Some user) (Some (bId b))
             ([(''actorKind'', JStr ''agent''), (''agentName'', JStr a)] @
              (case truthy reason of None \<Rightarrow> [] | Some r \<Rightarrow> [(''reason'', JStr r)])) now db1
         | None \<Rightarrow> insertAccountEvent (drEvent dr) ''board.deleted'' (Some user) (Some user) (Some (bId b)) [] now db1)))"

definition restoreBoard :: "draws \<Rightarrow> int \<Rightarrow> string \<Rightarrow> string \<Rightarrow> adb \<Rightarrow> auth_error + adb" where
  "restoreBoard dr now user board db =
     bindR (requireOwner user board True db) (\<lambda>b.
     Inr (if bDeletedAt b = None then db
       else insertAccountEvent (drEvent dr) ''board.restored'' (Some user) (Some user) (Some (bId b)) [] now
         (setBoardDeleted (bId b) None now db)))"

section \<open>Members\<close>

definition listBoardMembers :: "string \<Rightarrow> string \<Rightarrow> adb \<Rightarrow> auth_error + member_rec list" where
  "listBoardMembers user board db =
     bindR (requireBoardMember user board False db) (\<lambda>_. Inr (db_listBoardMembers board db))"

definition setBoardMemberRole ::
    "draws \<Rightarrow> int \<Rightarrow> string \<Rightarrow> string \<Rightarrow> string \<Rightarrow> board_role option \<Rightarrow> adb \<Rightarrow> auth_error + adb" where
  "setBoardMemberRole dr now actor board subject role db =
     bindR (requireOwner actor board False db) (\<lambda>b.
     bindR (guardR (subject \<noteq> bOwner b) Forbidden) (\<lambda>_.
     bindR (requireActiveUser subject db) (\<lambda>_.
     bindR (guardR (role \<noteq> Some Owner) InvalidInput) (\<lambda>_.
     (case role of
        None \<Rightarrow> Inr (insertAccountEvent (drEvent dr) ''board.member_removed'' (Some actor) (Some subject) (Some (bId b)) [] now
          (removeBoardMember (bId b) subject db))
      | Some r \<Rightarrow>
        bindR (upsertBoardMember \<lparr>mBoard = bId b, mUser = subject, mRole = r,
            mCreatedAt = (case getBoardMember (bId b) subject db of None \<Rightarrow> now | Some m \<Rightarrow> mCreatedAt m), mUpdatedAt = now\<rparr> db)
          (\<lambda>db1. Inr (insertAccountEvent (drEvent dr) ''board.member_role_changed'' (Some actor) (Some subject) (Some (bId b))
            [(''role'', JStr (if r = Editor then ''editor'' else ''viewer''))] now db1)))))))"

section \<open>Invitations\<close>

record invitation_input =
  niBoard :: "string option"
  niRole :: "board_role option"
  niLogin :: "string option"
  niExpiresIn :: "int option"

definition createInvitation ::
    "service \<Rightarrow> draws \<Rightarrow> int \<Rightarrow> string \<Rightarrow> invitation_input \<Rightarrow> adb \<Rightarrow> auth_error + (adb \<times> invitation_rec \<times> string)" where
  "createInvitation sv dr now actor inp db =
     bindR (requireActiveUser actor db) (\<lambda>u.
     bindR (case niBoard inp of None \<Rightarrow> Inr None | Some b \<Rightarrow> bindR (validateBoardId b) (\<lambda>b. Inr (Some b))) (\<lambda>board.
     bindR (guardR (niRole inp \<noteq> Some Owner) InvalidInput) (\<lambda>_.
     bindR (guardR (\<not> (board = None \<and> niRole inp \<noteq> None)) InvalidInput) (\<lambda>_.
     bindR (case board of
         Some b \<Rightarrow> bindR (requireOwner actor b False db) (\<lambda>_. Inr ())
       | None \<Rightarrow> guardR (uIsAdmin u) Forbidden) (\<lambda>_.
     bindR (case truthy (niLogin inp) of None \<Rightarrow> Inr None
            | Some l \<Rightarrow> bindR (normalizeLogin (svUnicode sv) l) (\<lambda>n. Inr (Some n))) (\<lambda>invited.
     bindR (checkedTtl (case niExpiresIn inp of None \<Rightarrow> acInvitationTtl (svConfig sv) | Some t \<Rightarrow> t)
         min_invitation_ttl max_invitation_ttl) (\<lambda>ttl.
     (let role = (case board of None \<Rightarrow> None | Some _ \<Rightarrow> Some (case niRole inp of None \<Rightarrow> Viewer | Some r \<Rightarrow> r));
          i = \<lparr>iId = drInvitation dr, iTokenHash = cyHash (svCrypto sv) (drToken dr), iCreatedBy = actor, iBoard = board,
               iRole = role, iInvitedLogin = invited, iCreatedAt = now, iExpiresAt = now + ttl, iConsumedAt = None,
               iConsumedBy = None, iRevokedAt = None\<rparr>
      in bindR (insertInvitation i db) (\<lambda>db1.
         Inr (insertAccountEvent (drEvent dr) ''invitation.created'' (Some actor) None board
           [(''invitationId'', JStr (iId i)),
            (''role'', case role of None \<Rightarrow> JNull | Some Editor \<Rightarrow> JStr ''editor'' | Some _ \<Rightarrow> JStr ''viewer''),
            (''invitedLogin'', case invited of None \<Rightarrow> JNull | Some l \<Rightarrow> JStr l),
            (''expiresAt'', JNum (of_int (iExpiresAt i)))] now db1, i, drToken dr))))))))))"

definition consumeInvitation ::
    "service \<Rightarrow> draws \<Rightarrow> int \<Rightarrow> string \<Rightarrow> string \<Rightarrow> adb \<Rightarrow> auth_error + (adb \<times> invitation_rec)" where
  "consumeInvitation sv dr now user token db =
     bindR (requireActiveUser user db) (\<lambda>u.
     bindR (guardR (validOpaqueToken token) InvalidInvitation) (\<lambda>_.
     (case getInvitationByTokenHash (cyHash (svCrypto sv) token) db of
        None \<Rightarrow> Inl InvalidInvitation
      | Some i \<Rightarrow>
        bindR (assertInvitationUsable i (uLoginNormalized u) now db) (\<lambda>_.
        (case db_consumeInvitation (iId i) (uId u) now db of
           (db1, ok) \<Rightarrow>
             bindR (guardR ok InvalidInvitation) (\<lambda>_.
             bindR (applyInvitedMembership i (uId u) now db1) (\<lambda>db2.
             Inr (insertAccountEvent (drEvent dr) ''invitation.consumed'' (Some (uId u)) (Some (uId u)) (iBoard i)
               [(''invitationId'', JStr (iId i))] now db2, i\<lparr>iConsumedAt := Some now\<rparr>))))))))"

definition revokeInvitation ::
    "service \<Rightarrow> draws \<Rightarrow> int \<Rightarrow> string \<Rightarrow> string \<Rightarrow> adb \<Rightarrow> auth_error + (adb \<times> bool)" where
  "revokeInvitation sv dr now actor token db =
     bindR (requireActiveUser actor db) (\<lambda>u.
     (if \<not> validOpaqueToken token then Inr (db, False)
      else case getInvitationByTokenHash (cyHash (svCrypto sv) token) db of
        None \<Rightarrow> Inr (db, False)
      | Some i \<Rightarrow>
        (if iConsumedAt i \<noteq> None \<or> iRevokedAt i \<noteq> None then Inr (db, False)
         else bindR (guardR (iCreatedBy i = actor \<or> uIsAdmin u) Forbidden) (\<lambda>_.
           (case db_revokeInvitation (iId i) now db of
              (db1, revoked) \<Rightarrow>
                Inr (if revoked then insertAccountEvent (drEvent dr) ''invitation.revoked'' (Some actor) None (iBoard i)
                     [(''invitationId'', JStr (iId i))] now db1 else db1, revoked))))))"

section \<open>Settings, disabling, audit\<close>

definition updateSettings ::
    "service \<Rightarrow> draws \<Rightarrow> int \<Rightarrow> string \<Rightarrow> (string \<times> json) list \<Rightarrow> adb \<Rightarrow> auth_error + adb" where
  "updateSettings sv dr now user settings db =
     bindR (requireActiveUser user db) (\<lambda>_.
     bindR (serializeObject sv (Some settings)) (\<lambda>s.
     Inr (insertAccountEvent (drEvent dr) ''account.settings_updated'' (Some user) (Some user) None [] now
       (setUserSettings user s now db))))"

definition setUserDisabled :: "draws \<Rightarrow> int \<Rightarrow> string \<Rightarrow> string \<Rightarrow> bool \<Rightarrow> adb \<Rightarrow> auth_error + adb" where
  "setUserDisabled dr now actor subject disabled db =
     bindR (requireActiveUser actor db) (\<lambda>u.
     bindR (guardR (uIsAdmin u) Forbidden) (\<lambda>_.
     bindR (guardR (\<not> (actor = subject \<and> disabled)) Forbidden) (\<lambda>_.
     (case getUserById subject db of
        None \<Rightarrow> Inl UserNotFound
      | Some _ \<Rightarrow>
        (let db1 = set_user_disabled subject (if disabled then Some now else None) now db;
             db2 = (if disabled then revokeSessionsForUser subject now db1 else db1)
         in Inr (insertAccountEvent (drEvent dr) (if disabled then ''account.disabled'' else ''account.enabled'')
              (Some actor) (Some subject) None [] now db2))))))"

definition listAuditEvents ::
    "string \<Rightarrow> string option \<Rightarrow> string option \<Rightarrow> int option \<Rightarrow> adb \<Rightarrow> auth_error + account_event list" where
  "listAuditEvents actor user board limit db =
     bindR (requireActiveUser actor db) (\<lambda>u.
     bindR (case truthy board of
         Some b \<Rightarrow> (if uIsAdmin u then Inr () else bindR (requireOwner actor b True db) (\<lambda>_. Inr ()))
       | None \<Rightarrow> guardR (uIsAdmin u \<or> user = Some actor) Forbidden) (\<lambda>_.
     Inr (listAccountEvents user board limit db)))"

end
