(* ===== verification/AuthInvariant.thy ===== *)
theory AuthInvariant
  imports AuthBoards
begin

text \<open>
  What the account service keeps. \<open>auth_ok\<close> says that the tables are consistent: unique keys, every
  reference resolved, exactly one owner member per board, and it is the board's owner; invitations
  grant no ownership. \<open>auth_evolves\<close> says how a database may change: users, boards and their owners
  stay, a used or revoked invitation and a revoked session stay as they are, events are only appended.
\<close>

section \<open>The invariant\<close>

definition users_ok :: "adb \<Rightarrow> bool" where
  "users_ok db \<longleftrightarrow> distinct (map uId (dUsers db)) \<and> distinct (map uLoginNormalized (dUsers db))"

definition sessions_ok :: "adb \<Rightarrow> bool" where
  "sessions_ok db \<longleftrightarrow> distinct (map sId (dSessions db)) \<and> distinct (map sTokenHash (dSessions db)) \<and>
     (\<forall>s\<in>set (dSessions db). sUserId s \<in> uId ` set (dUsers db))"

definition boards_ok :: "adb \<Rightarrow> bool" where
  "boards_ok db \<longleftrightarrow> distinct (map bId (dBoards db)) \<and>
     (\<forall>b\<in>set (dBoards db). bOwner b \<in> uId ` set (dUsers db))"

definition members_ok :: "adb \<Rightarrow> bool" where
  "members_ok db \<longleftrightarrow> distinct (map (\<lambda>m. (mBoard m, mUser m)) (dMembers db)) \<and>
     (\<forall>m\<in>set (dMembers db). mUser m \<in> uId ` set (dUsers db) \<and>
        (\<exists>b\<in>set (dBoards db). bId b = mBoard m \<and> (mRole m = Owner \<longleftrightarrow> mUser m = bOwner b))) \<and>
     (\<forall>b\<in>set (dBoards db). \<exists>m\<in>set (dMembers db). mBoard m = bId b \<and> mUser m = bOwner b)"

definition invitation_ok :: "invitation_rec \<Rightarrow> bool" where
  "invitation_ok i \<longleftrightarrow> (iBoard i = None) = (iRole i = None) \<and> iRole i \<noteq> Some Owner \<and>
     (iConsumedAt i = None) = (iConsumedBy i = None) \<and> \<not> (iConsumedAt i \<noteq> None \<and> iRevokedAt i \<noteq> None)"

definition invitations_ok :: "adb \<Rightarrow> bool" where
  "invitations_ok db \<longleftrightarrow> distinct (map iId (dInvitations db)) \<and> distinct (map iTokenHash (dInvitations db)) \<and>
     (\<forall>i\<in>set (dInvitations db). invitation_ok i)"

definition events_ok :: "adb \<Rightarrow> bool" where
  "events_ok db \<longleftrightarrow> 0 < dNextEvent db \<and> map aeId (dEvents db) = [1..<dNextEvent db]"

definition auth_ok :: "adb \<Rightarrow> bool" where
  "auth_ok db \<longleftrightarrow> users_ok db \<and> sessions_ok db \<and> boards_ok db \<and> members_ok db \<and> invitations_ok db \<and> events_ok db"

lemmas auth_ok_defs = auth_ok_def users_ok_def sessions_ok_def boards_ok_def members_ok_def
  invitations_ok_def events_ok_def

section \<open>Evolution\<close>

definition users_evolve :: "adb \<Rightarrow> adb \<Rightarrow> bool" where
  "users_evolve db db' \<longleftrightarrow> (\<forall>u\<in>set (dUsers db). \<exists>u'\<in>set (dUsers db').
     uId u' = uId u \<and> uLoginNormalized u' = uLoginNormalized u \<and> uPasswordHash u' = uPasswordHash u \<and>
     uIsAdmin u' = uIsAdmin u)"

definition boards_evolve :: "adb \<Rightarrow> adb \<Rightarrow> bool" where
  "boards_evolve db db' \<longleftrightarrow> (\<forall>b\<in>set (dBoards db). \<exists>b'\<in>set (dBoards db'). bId b' = bId b \<and> bOwner b' = bOwner b)"

definition invitations_evolve :: "adb \<Rightarrow> adb \<Rightarrow> bool" where
  "invitations_evolve db db' \<longleftrightarrow> (\<forall>i\<in>set (dInvitations db). \<exists>i'\<in>set (dInvitations db').
     iId i' = iId i \<and> iTokenHash i' = iTokenHash i \<and> iBoard i' = iBoard i \<and> iRole i' = iRole i \<and>
     (iConsumedAt i \<noteq> None \<or> iRevokedAt i \<noteq> None \<longrightarrow> i' = i))"

definition sessions_evolve :: "adb \<Rightarrow> adb \<Rightarrow> bool" where
  "sessions_evolve db db' \<longleftrightarrow> (\<forall>s\<in>set (dSessions db). \<exists>s'\<in>set (dSessions db').
     sId s' = sId s \<and> sTokenHash s' = sTokenHash s \<and> sUserId s' = sUserId s \<and> sExpiresAt s' = sExpiresAt s \<and>
     (sRevokedAt s \<noteq> None \<longrightarrow> sRevokedAt s' = sRevokedAt s))"

definition auth_evolves :: "adb \<Rightarrow> adb \<Rightarrow> bool" where
  "auth_evolves db db' \<longleftrightarrow> users_evolve db db' \<and> boards_evolve db db' \<and> invitations_evolve db db' \<and>
     sessions_evolve db db' \<and> (\<exists>new. dEvents db' = dEvents db @ new)"

lemmas auth_evolves_defs = auth_evolves_def users_evolve_def boards_evolve_def invitations_evolve_def sessions_evolve_def

lemma users_evolve_same [simp]: "dUsers db' = dUsers db \<Longrightarrow> users_evolve db db'"
  by (auto simp: users_evolve_def)

lemma boards_evolve_same [simp]: "dBoards db' = dBoards db \<Longrightarrow> boards_evolve db db'"
  by (auto simp: boards_evolve_def)

lemma invitations_evolve_same [simp]: "dInvitations db' = dInvitations db \<Longrightarrow> invitations_evolve db db'"
  by (auto simp: invitations_evolve_def)

lemma sessions_evolve_same [simp]: "dSessions db' = dSessions db \<Longrightarrow> sessions_evolve db db'"
  by (auto simp: sessions_evolve_def)

lemma auth_evolves_refl [simp]: "auth_evolves db db"
  by (simp add: auth_evolves_def)

lemma ball_bex_trans:
  assumes "\<forall>x\<in>A. \<exists>y\<in>B. R x y" and "\<forall>y\<in>B. \<exists>z\<in>C. Q y z" and "\<And>x y z. R x y \<Longrightarrow> Q y z \<Longrightarrow> P x z"
  shows "\<forall>x\<in>A. \<exists>z\<in>C. P x z"
  using assms by meson

lemma users_evolve_trans: "users_evolve a b \<Longrightarrow> users_evolve b c \<Longrightarrow> users_evolve a c"
  unfolding users_evolve_def by (erule (1) ball_bex_trans) simp

lemma boards_evolve_trans: "boards_evolve a b \<Longrightarrow> boards_evolve b c \<Longrightarrow> boards_evolve a c"
  unfolding boards_evolve_def by (erule (1) ball_bex_trans) simp

lemma invitations_evolve_trans: "invitations_evolve a b \<Longrightarrow> invitations_evolve b c \<Longrightarrow> invitations_evolve a c"
  unfolding invitations_evolve_def by (erule (1) ball_bex_trans) auto

lemma sessions_evolve_trans: "sessions_evolve a b \<Longrightarrow> sessions_evolve b c \<Longrightarrow> sessions_evolve a c"
  unfolding sessions_evolve_def by (erule (1) ball_bex_trans) auto

lemma auth_evolves_trans:
  assumes "auth_evolves a b" and "auth_evolves b c"
  shows "auth_evolves a c"
proof -
  from assms obtain new1 new2 where "dEvents b = dEvents a @ new1" "dEvents c = dEvents b @ new2"
    by (auto simp: auth_evolves_def)
  then have "\<exists>new. dEvents c = dEvents a @ new" by simp
  with assms show ?thesis unfolding auth_evolves_def
    using users_evolve_trans [of a b c] boards_evolve_trans [of a b c] invitations_evolve_trans [of a b c]
      sessions_evolve_trans [of a b c] by blast
qed

text \<open>Tables a statement does not touch.\<close>

lemma users_ok_same: "dUsers db' = dUsers db \<Longrightarrow> users_ok db' = users_ok db"
  by (simp add: users_ok_def)

lemma sessions_ok_same: "dSessions db' = dSessions db \<Longrightarrow> uId ` set (dUsers db) \<subseteq> uId ` set (dUsers db') \<Longrightarrow>
    sessions_ok db \<Longrightarrow> sessions_ok db'"
  by (auto simp: sessions_ok_def)

lemma boards_ok_same: "dBoards db' = dBoards db \<Longrightarrow> uId ` set (dUsers db) \<subseteq> uId ` set (dUsers db') \<Longrightarrow>
    boards_ok db \<Longrightarrow> boards_ok db'"
  by (auto simp: boards_ok_def)

lemma members_ok_same: "dMembers db' = dMembers db \<Longrightarrow> dBoards db' = dBoards db \<Longrightarrow>
    uId ` set (dUsers db) \<subseteq> uId ` set (dUsers db') \<Longrightarrow> members_ok db \<Longrightarrow> members_ok db'"
  by (simp add: members_ok_def subset_iff)

lemma invitations_ok_same: "dInvitations db' = dInvitations db \<Longrightarrow> invitations_ok db' = invitations_ok db"
  by (simp add: invitations_ok_def)

lemma events_ok_same: "dEvents db' = dEvents db \<Longrightarrow> dNextEvent db' = dNextEvent db \<Longrightarrow> events_ok db' = events_ok db"
  by (simp add: events_ok_def)

text \<open>One sound change: from a consistent database to a consistent one that evolved from it.\<close>

definition auth_safe :: "adb \<Rightarrow> adb \<Rightarrow> bool" where
  "auth_safe db db' \<longleftrightarrow> (auth_ok db \<longrightarrow> auth_ok db' \<and> auth_evolves db db')"

lemma auth_safe_refl [simp]: "auth_safe db db"
  by (simp add: auth_safe_def)

lemma auth_safe_trans: "auth_safe a b \<Longrightarrow> auth_safe b c \<Longrightarrow> auth_safe a c"
  unfolding auth_safe_def by (blast intro: auth_evolves_trans)

text \<open>A change of one table, or of boards and members together.\<close>

lemma auth_safe_users:
  assumes "auth_ok db \<Longrightarrow> users_ok (db\<lparr>dUsers := us\<rparr>)" and "users_evolve db (db\<lparr>dUsers := us\<rparr>)"
  shows "auth_safe db (db\<lparr>dUsers := us\<rparr>)"
proof -
  have ids: "uId ` set (dUsers db) \<subseteq> uId ` set us"
    using assms(2) unfolding users_evolve_def by (auto simp: image_iff) metis
  let ?db = "db\<lparr>dUsers := us\<rparr>"
  show ?thesis
    using assms ids sessions_ok_same [of ?db db] boards_ok_same [of ?db db] members_ok_same [of ?db db]
      invitations_ok_same [of ?db db] events_ok_same [of ?db db]
    by (auto simp: auth_safe_def auth_ok_def auth_evolves_def)
qed

lemma auth_safe_sessions:
  assumes "auth_ok db \<Longrightarrow> sessions_ok (db\<lparr>dSessions := ss\<rparr>)" and "sessions_evolve db (db\<lparr>dSessions := ss\<rparr>)"
  shows "auth_safe db (db\<lparr>dSessions := ss\<rparr>)"
proof -
  let ?db = "db\<lparr>dSessions := ss\<rparr>"
  show ?thesis
    using assms users_ok_same [of ?db db] boards_ok_same [of ?db db] members_ok_same [of ?db db]
      invitations_ok_same [of ?db db] events_ok_same [of ?db db]
    by (auto simp: auth_safe_def auth_ok_def auth_evolves_def)
qed

lemma auth_safe_boards:
  assumes "auth_ok db \<Longrightarrow> boards_ok (db\<lparr>dBoards := bs, dMembers := ms\<rparr>)"
    and "auth_ok db \<Longrightarrow> members_ok (db\<lparr>dBoards := bs, dMembers := ms\<rparr>)"
    and "boards_evolve db (db\<lparr>dBoards := bs, dMembers := ms\<rparr>)"
  shows "auth_safe db (db\<lparr>dBoards := bs, dMembers := ms\<rparr>)"
proof -
  let ?db = "db\<lparr>dBoards := bs, dMembers := ms\<rparr>"
  show ?thesis
    using assms users_ok_same [of ?db db] sessions_ok_same [of ?db db]
      invitations_ok_same [of ?db db] events_ok_same [of ?db db]
    by (auto simp: auth_safe_def auth_ok_def auth_evolves_def)
qed

lemma auth_safe_invitations:
  assumes "auth_ok db \<Longrightarrow> invitations_ok (db\<lparr>dInvitations := is'\<rparr>)" and "invitations_evolve db (db\<lparr>dInvitations := is'\<rparr>)"
  shows "auth_safe db (db\<lparr>dInvitations := is'\<rparr>)"
proof -
  let ?db = "db\<lparr>dInvitations := is'\<rparr>"
  show ?thesis
    using assms users_ok_same [of ?db db] sessions_ok_same [of ?db db] boards_ok_same [of ?db db]
      members_ok_same [of ?db db] events_ok_same [of ?db db]
    by (auto simp: auth_safe_def auth_ok_def auth_evolves_def)
qed

section \<open>The statements\<close>

lemma getUserById_Some: "getUserById i db = Some u \<Longrightarrow> u \<in> set (dUsers db) \<and> uId u = i"
  by (auto simp: getUserById_def find_Some_iff)

lemma getUserById_None: "getUserById i db = None \<longleftrightarrow> i \<notin> uId ` set (dUsers db)"
  by (auto simp: getUserById_def find_None_iff)

lemma getBoardById_Some: "getBoardById i db = Some b \<Longrightarrow> b \<in> set (dBoards db) \<and> bId b = i"
  by (auto simp: getBoardById_def find_Some_iff)

lemma getBoardById_None: "getBoardById i db = None \<longleftrightarrow> i \<notin> bId ` set (dBoards db)"
  by (auto simp: getBoardById_def find_None_iff)

lemma getBoardMember_Some: "getBoardMember b u db = Some m \<Longrightarrow> m \<in> set (dMembers db) \<and> mBoard m = b \<and> mUser m = u"
  by (auto simp: getBoardMember_def find_Some_iff)

lemma getBoardMember_None: "getBoardMember b u db = None \<longleftrightarrow> (b, u) \<notin> (\<lambda>m. (mBoard m, mUser m)) ` set (dMembers db)"
  by (auto simp: getBoardMember_def find_None_iff)

lemma getInvitation_Some: "getInvitationByTokenHash h db = Some i \<Longrightarrow> i \<in> set (dInvitations db) \<and> iTokenHash i = h"
  by (auto simp: getInvitationByTokenHash_def find_Some_iff)

lemma map_cond_keys: "(\<And>x. k (f x) = k x) \<Longrightarrow> map k (map (\<lambda>x. if P x then f x else x) xs) = map k xs"
  by (induction xs) auto

lemma insertUser_safe:
  assumes "insertUser u db = Inr db'"
  shows "auth_safe db db'"
proof -
  from assms have db': "db' = db\<lparr>dUsers := dUsers db @ [u]\<rparr>"
    and new: "uId u \<notin> uId ` set (dUsers db)" "uLoginNormalized u \<notin> uLoginNormalized ` set (dUsers db)"
    by (auto simp: insertUser_def res_simps getUserById_None getUserByNormalizedLogin_def find_None_iff)
  show ?thesis unfolding db'
    by (rule auth_safe_users) (use new in \<open>auto simp: auth_ok_def users_ok_def users_evolve_def\<close>)
qed

lemma update_user_safe:
  assumes "\<And>u. uId (f u) = uId u \<and> uLoginNormalized (f u) = uLoginNormalized u \<and>
      uPasswordHash (f u) = uPasswordHash u \<and> uIsAdmin (f u) = uIsAdmin u"
  shows "auth_safe db (update_user i f db)"
  unfolding update_user_def
proof (rule auth_safe_users)
  let ?us = "map (\<lambda>u. if uId u = i then f u else u) (dUsers db)"
  have "map uId ?us = map uId (dUsers db)" "map uLoginNormalized ?us = map uLoginNormalized (dUsers db)"
    using assms by (auto intro!: map_cond_keys)
  then show "auth_ok db \<Longrightarrow> users_ok (db\<lparr>dUsers := ?us\<rparr>)"
    by (simp add: auth_ok_def users_ok_def del: map_map)
  have "\<exists>u'\<in>set ?us. uId u' = uId u \<and> uLoginNormalized u' = uLoginNormalized u \<and> uPasswordHash u' = uPasswordHash u \<and>
     uIsAdmin u' = uIsAdmin u" if "u \<in> set (dUsers db)" for u
    using that assms by (intro bexI [of _ "if uId u = i then f u else u"]) auto
  then show "users_evolve db (db\<lparr>dUsers := ?us\<rparr>)" by (simp add: users_evolve_def del: set_map)
qed

lemma insertSession_safe:
  assumes "insertSession s db = Inr db'"
  shows "auth_safe db db'"
proof -
  from assms have db': "db' = db\<lparr>dSessions := dSessions db @ [s]\<rparr>"
    and new: "sId s \<notin> sId ` set (dSessions db)" "sTokenHash s \<notin> sTokenHash ` set (dSessions db)"
      "sUserId s \<in> uId ` set (dUsers db)"
    by (auto simp: insertSession_def res_simps getUserById_None getSessionByTokenHash_def find_None_iff)
  show ?thesis unfolding db'
    by (rule auth_safe_sessions) (use new in \<open>auto simp: auth_ok_def sessions_ok_def sessions_evolve_def\<close>)
qed

lemma update_sessions_safe:
  assumes f: "\<And>s. sId (f s) = sId s \<and> sTokenHash (f s) = sTokenHash s \<and> sUserId (f s) = sUserId s \<and> sExpiresAt (f s) = sExpiresAt s"
    and p: "\<And>s. p s \<Longrightarrow> sRevokedAt s = None"
  shows "auth_safe db (update_sessions p f db)"
  unfolding update_sessions_def
proof (rule auth_safe_sessions)
  let ?ss = "map (\<lambda>s. if p s then f s else s) (dSessions db)"
  have keys: "map sId ?ss = map sId (dSessions db)" "map sTokenHash ?ss = map sTokenHash (dSessions db)"
      "map sUserId ?ss = map sUserId (dSessions db)"
    using f by (auto intro!: map_cond_keys)
  have "sUserId ` set ?ss = sUserId ` set (dSessions db)" by (metis keys(3) set_map)
  with keys show "auth_ok db \<Longrightarrow> sessions_ok (db\<lparr>dSessions := ?ss\<rparr>)"
    unfolding auth_ok_def sessions_ok_def by (simp del: map_map set_map) (metis (no_types, lifting) image_iff)
  have "\<exists>s'\<in>set ?ss. sId s' = sId s \<and> sTokenHash s' = sTokenHash s \<and> sUserId s' = sUserId s \<and>
      sExpiresAt s' = sExpiresAt s \<and> (sRevokedAt s \<noteq> None \<longrightarrow> sRevokedAt s' = sRevokedAt s)" if "s \<in> set (dSessions db)" for s
    using that f p by (intro bexI [of _ "if p s then f s else s"]) auto
  then show "sessions_evolve db (db\<lparr>dSessions := ?ss\<rparr>)" by (simp add: sessions_evolve_def del: set_map)
qed

lemma insertAccountEvent_safe: "auth_safe db (insertAccountEvent uuid type actor subject board meta now db)"
  by (auto simp: insertAccountEvent_def auth_safe_def auth_ok_def auth_evolves_def users_ok_def sessions_ok_def
      boards_ok_def members_ok_def invitations_ok_def events_ok_def)

lemma update_board_safe:
  assumes "\<And>b. bId (f b) = bId b \<and> bOwner (f b) = bOwner b"
  shows "auth_safe db (update_board i f db)"
proof -
  let ?bs = "map (\<lambda>b. if bId b = i then f b else b) (dBoards db)"
  have ids: "map bId ?bs = map bId (dBoards db)" using assms by (auto intro!: map_cond_keys)
  have fwd: "\<exists>b'\<in>set ?bs. bId b' = bId b \<and> bOwner b' = bOwner b" if "b \<in> set (dBoards db)" for b
    using that assms by (intro bexI [of _ "if bId b = i then f b else b"]) auto
  have bwd: "\<exists>b'\<in>set (dBoards db). bId b' = bId b \<and> bOwner b' = bOwner b" if b: "b \<in> set ?bs" for b
  proof -
    from b obtain b0 where "b0 \<in> set (dBoards db)" "b = (if bId b0 = i then f b0 else b0)" by auto
    with assms show ?thesis by (intro bexI [of _ b0]) auto
  qed
  have "auth_safe db (db\<lparr>dBoards := ?bs, dMembers := dMembers db\<rparr>)"
  proof (rule auth_safe_boards)
    assume "auth_ok db"
    then have b: "distinct (map bId (dBoards db))" "\<forall>b\<in>set (dBoards db). bOwner b \<in> uId ` set (dUsers db)"
      and m: "members_ok db" by (simp_all add: auth_ok_def boards_ok_def)
    have "bOwner b \<in> uId ` set (dUsers db)" if "b \<in> set ?bs" for b using bwd [OF that] b(2) by metis
    with b ids show "boards_ok (db\<lparr>dBoards := ?bs, dMembers := dMembers db\<rparr>)"
      by (simp add: boards_ok_def del: map_map set_map)
    have "\<exists>b\<in>set ?bs. bId b = mBoard x \<and> (mRole x = Owner \<longleftrightarrow> mUser x = bOwner b)" if x: "x \<in> set (dMembers db)" for x
    proof -
      from m x obtain b where "b \<in> set (dBoards db)" "bId b = mBoard x" "mRole x = Owner \<longleftrightarrow> mUser x = bOwner b"
        by (auto simp: members_ok_def)
      moreover from fwd [OF this(1)] obtain b' where "b' \<in> set ?bs" "bId b' = bId b" "bOwner b' = bOwner b" by blast
      ultimately show ?thesis by (intro bexI [of _ b']) simp_all
    qed
    moreover have "\<exists>x\<in>set (dMembers db). mBoard x = bId b \<and> mUser x = bOwner b" if b: "b \<in> set ?bs" for b
    proof -
      from bwd [OF b] obtain b' where "b' \<in> set (dBoards db)" "bId b' = bId b" "bOwner b' = bOwner b" by blast
      moreover from m this(1) have "\<exists>x\<in>set (dMembers db). mBoard x = bId b' \<and> mUser x = bOwner b'"
        by (simp add: members_ok_def)
      ultimately show ?thesis by simp
    qed
    ultimately show "members_ok (db\<lparr>dBoards := ?bs, dMembers := dMembers db\<rparr>)"
      using m by (simp add: members_ok_def del: set_map)
  next
    show "boards_evolve db (db\<lparr>dBoards := ?bs, dMembers := dMembers db\<rparr>)"
      using fwd by (simp add: boards_evolve_def del: set_map)
  qed
  then show ?thesis by (simp add: update_board_def)
qed

lemma insert_owned_board_safe:
  assumes "insert_owned_board b db = Inr db'"
  shows "auth_safe db db'"
proof (cases "auth_ok db")
  case True
  let ?m = "\<lparr>mBoard = bId b, mUser = bOwner b, mRole = Owner, mCreatedAt = bCreatedAt b, mUpdatedAt = bUpdatedAt b\<rparr>"
  from assms have new: "bId b \<notin> bId ` set (dBoards db)" "bOwner b \<in> uId ` set (dUsers db)"
    by (auto simp: insert_owned_board_def insertBoard_def res_simps getBoardById_None getUserById_None)
  have none: "\<forall>x\<in>set (dMembers db). mBoard x \<noteq> bId b"
  proof
    fix x assume "x \<in> set (dMembers db)"
    with True have "\<exists>b'\<in>set (dBoards db). bId b' = mBoard x" by (auto simp: auth_ok_def members_ok_def)
    with new(1) show "mBoard x \<noteq> bId b" by (metis image_eqI)
  qed
  then have "getBoardMember (bId b) (bOwner b) (db\<lparr>dBoards := dBoards db @ [b]\<rparr>) = None"
    by (auto simp: getBoardMember_def find_None_iff)
  with assms have db': "db' = db\<lparr>dBoards := dBoards db @ [b], dMembers := dMembers db @ [?m]\<rparr>"
    by (auto simp: insert_owned_board_def insertBoard_def upsertBoardMember_def res_simps)
  show ?thesis unfolding db'
  proof (rule auth_safe_boards)
    show "boards_ok (db\<lparr>dBoards := dBoards db @ [b], dMembers := dMembers db @ [?m]\<rparr>)"
      using True new by (auto simp: auth_ok_def boards_ok_def)
    have old: "\<exists>b'\<in>set (dBoards db @ [b]). bId b' = mBoard x \<and> (mRole x = Owner \<longleftrightarrow> mUser x = bOwner b')"
      if "x \<in> set (dMembers db)" for x
    proof -
      from True that have "\<exists>b'\<in>set (dBoards db). bId b' = mBoard x \<and> (mRole x = Owner \<longleftrightarrow> mUser x = bOwner b')"
        by (simp add: auth_ok_def members_ok_def)
      then show ?thesis by auto
    qed
    have owner: "\<exists>x\<in>set (dMembers db @ [?m]). mBoard x = bId b' \<and> mUser x = bOwner b'"
      if "b' \<in> set (dBoards db @ [b])" for b'
    proof (cases "b' = b")
      case False
      with that True have "\<exists>x\<in>set (dMembers db). mBoard x = bId b' \<and> mUser x = bOwner b'"
        by (auto simp: auth_ok_def members_ok_def)
      then show ?thesis by auto
    qed auto
    have "distinct (map (\<lambda>x. (mBoard x, mUser x)) (dMembers db @ [?m]))"
      using True none by (auto simp: auth_ok_def members_ok_def)
    with old owner show "members_ok (db\<lparr>dBoards := dBoards db @ [b], dMembers := dMembers db @ [?m]\<rparr>)"
      using True new by (auto simp: auth_ok_def members_ok_def)
  next
    show "boards_evolve db (db\<lparr>dBoards := dBoards db @ [b], dMembers := dMembers db @ [?m]\<rparr>)"
      by (auto simp: boards_evolve_def)
  qed
qed (simp add: auth_safe_def)

text \<open>A member who is not the owner.\<close>

definition not_owner :: "string \<Rightarrow> string \<Rightarrow> adb \<Rightarrow> bool" where
  "not_owner board user db \<longleftrightarrow> (\<forall>b\<in>set (dBoards db). bId b = board \<longrightarrow> bOwner b \<noteq> user)"

lemma members_change_safe:
  assumes "auth_ok db \<Longrightarrow> members_ok (db\<lparr>dMembers := ms\<rparr>)"
  shows "auth_safe db (db\<lparr>dMembers := ms\<rparr>)"
proof -
  have "auth_safe db (db\<lparr>dBoards := dBoards db, dMembers := ms\<rparr>)"
    by (rule auth_safe_boards) (use assms in \<open>auto simp: auth_ok_def boards_ok_def members_ok_def boards_evolve_def\<close>)
  then show ?thesis by simp
qed

lemma removeBoardMember_safe:
  assumes "not_owner i u db"
  shows "auth_safe db (removeBoardMember i u db)"
  unfolding removeBoardMember_def
proof (rule members_change_safe)
  let ?ms = "filter (\<lambda>m. \<not> (mBoard m = i \<and> mUser m = u)) (dMembers db)"
  assume "auth_ok db"
  then have m: "members_ok db" by (simp add: auth_ok_def)
  have "\<exists>x\<in>set ?ms. mBoard x = bId b \<and> mUser x = bOwner b" if "b \<in> set (dBoards db)" for b
  proof -
    from m that obtain x where "x \<in> set (dMembers db)" "mBoard x = bId b" "mUser x = bOwner b"
      by (auto simp: members_ok_def)
    with assms that show ?thesis by (intro bexI [of _ x]) (auto simp: not_owner_def)
  qed
  moreover have "distinct (map (\<lambda>x. (mBoard x, mUser x)) ?ms)"
    using m by (simp add: members_ok_def distinct_map_filter)
  ultimately show "members_ok (db\<lparr>dMembers := ?ms\<rparr>)" using m by (simp add: members_ok_def)
qed

lemma upsertBoardMember_safe:
  assumes up: "upsertBoardMember m db = Inr db'" and "mRole m \<noteq> Owner"
    and no: "auth_ok db \<Longrightarrow> not_owner (mBoard m) (mUser m) db"
  shows "auth_safe db db'"
proof -
  from up have ref: "mBoard m \<in> bId ` set (dBoards db)" "mUser m \<in> uId ` set (dUsers db)"
    by (auto simp: upsertBoardMember_def res_simps getBoardById_None getUserById_None)
  show ?thesis
  proof (cases "getBoardMember (mBoard m) (mUser m) db")
    case None
    then have db': "db' = db\<lparr>dMembers := dMembers db @ [m]\<rparr>"
      using up by (auto simp: upsertBoardMember_def res_simps)
    show ?thesis unfolding db'
    proof (rule members_change_safe)
      assume ok: "auth_ok db"
      with no ref assms(2) have "\<exists>b\<in>set (dBoards db). bId b = mBoard m \<and> (mRole m = Owner \<longleftrightarrow> mUser m = bOwner b)"
        by (auto simp: not_owner_def)
      moreover from None have "(mBoard m, mUser m) \<notin> (\<lambda>x. (mBoard x, mUser x)) ` set (dMembers db)"
        by (simp add: getBoardMember_None)
      ultimately show "members_ok (db\<lparr>dMembers := dMembers db @ [m]\<rparr>)"
        using ok ref by (auto simp: auth_ok_def members_ok_def)
    qed
  next
    case (Some old)
    let ?ms = "map (\<lambda>x. if mBoard x = mBoard m \<and> mUser x = mUser m
              then x\<lparr>mRole := mRole m, mUpdatedAt := mUpdatedAt m\<rparr> else x) (dMembers db)"
    have db': "db' = db\<lparr>dMembers := ?ms\<rparr>" using up Some by (auto simp: upsertBoardMember_def res_simps)
    have keys: "map (\<lambda>x. (mBoard x, mUser x)) ?ms = map (\<lambda>x. (mBoard x, mUser x)) (dMembers db)"
      by (rule map_cond_keys) simp
    from arg_cong [OF keys, of set] have img: "(\<lambda>x. (mBoard x, mUser x)) ` set ?ms = (\<lambda>x. (mBoard x, mUser x)) ` set (dMembers db)"
      by (simp only: set_map)
    show ?thesis unfolding db'
    proof (rule members_change_safe)
      assume ok: "auth_ok db"
      then have m: "members_ok db" by (simp add: auth_ok_def)
      have "mUser x \<in> uId ` set (dUsers db) \<and> (\<exists>b\<in>set (dBoards db). bId b = mBoard x \<and> (mRole x = Owner \<longleftrightarrow> mUser x = bOwner b))"
        if "x \<in> set ?ms" for x
      proof -
        from that obtain y where y: "y \<in> set (dMembers db)" "x = (if mBoard y = mBoard m \<and> mUser y = mUser m
              then y\<lparr>mRole := mRole m, mUpdatedAt := mUpdatedAt m\<rparr> else y)" by auto
        from y(1) m obtain b where b: "b \<in> set (dBoards db)" "bId b = mBoard y" "mRole y = Owner \<longleftrightarrow> mUser y = bOwner b"
          and u: "mUser y \<in> uId ` set (dUsers db)" by (auto simp: members_ok_def)
        show ?thesis
        proof (cases "mBoard y = mBoard m \<and> mUser y = mUser m")
          case True
          with no [OF ok] b have "bOwner b \<noteq> mUser m" by (simp add: not_owner_def)
          with True y b u assms(2) show ?thesis by auto
        next
          case False
          with y b u show ?thesis by auto
        qed
      qed
      moreover have "\<exists>x\<in>set ?ms. mBoard x = bId b \<and> mUser x = bOwner b" if "b \<in> set (dBoards db)" for b
      proof -
        from m that have "(bId b, bOwner b) \<in> (\<lambda>x. (mBoard x, mUser x)) ` set (dMembers db)"
          by (auto simp: members_ok_def image_iff) metis
        then have "(bId b, bOwner b) \<in> (\<lambda>x. (mBoard x, mUser x)) ` set ?ms" by (simp only: img)
        then obtain x where "x \<in> set ?ms" "(bId b, bOwner b) = (mBoard x, mUser x)" by blast
        then show ?thesis by (intro bexI [of _ x]) simp_all
      qed
      moreover have "distinct (map (\<lambda>x. (mBoard x, mUser x)) ?ms)"
        using m by (simp only: keys members_ok_def)
      ultimately show "members_ok (db\<lparr>dMembers := ?ms\<rparr>)" by (simp add: members_ok_def del: set_map map_map)
    qed
  qed
qed

text \<open>Invitations.\<close>

lemma insertInvitation_safe:
  assumes "insertInvitation i db = Inr db'" and "iConsumedAt i = None" and "iConsumedBy i = None"
  shows "auth_safe db db'"
proof -
  from assms(1) have db': "db' = db\<lparr>dInvitations := dInvitations db @ [i]\<rparr>"
    and new: "iId i \<notin> iId ` set (dInvitations db)" "iTokenHash i \<notin> iTokenHash ` set (dInvitations db)"
      "(iBoard i = None) = (iRole i = None)" "iRole i \<noteq> Some Owner"
    by (auto simp: insertInvitation_def res_simps getInvitationByTokenHash_def find_None_iff)
  show ?thesis unfolding db'
    by (rule auth_safe_invitations)
      (use new assms(2,3) in \<open>auto simp: auth_ok_def invitations_ok_def invitation_ok_def invitations_evolve_def\<close>)
qed

lemma update_invitation_safe:
  assumes f: "\<And>i. iId (f i) = iId i \<and> iTokenHash (f i) = iTokenHash i \<and> iBoard (f i) = iBoard i \<and> iRole (f i) = iRole i"
    and p: "\<And>i. p i \<Longrightarrow> iConsumedAt i = None \<and> iRevokedAt i = None"
    and ok: "\<And>i. p i \<Longrightarrow> (iConsumedAt i = None) = (iConsumedBy i = None) \<Longrightarrow>
      (iConsumedAt (f i) = None) = (iConsumedBy (f i) = None) \<and> \<not> (iConsumedAt (f i) \<noteq> None \<and> iRevokedAt (f i) \<noteq> None)"
  shows "auth_safe db (fst (update_invitation p f db))"
  unfolding update_invitation_def fst_conv
proof (rule auth_safe_invitations)
  let ?is = "map (\<lambda>i. if p i then f i else i) (dInvitations db)"
  have keys: "map iId ?is = map iId (dInvitations db)" "map iTokenHash ?is = map iTokenHash (dInvitations db)"
    using f by (auto intro!: map_cond_keys)
  assume "auth_ok db"
  then have io: "invitations_ok db" by (simp add: auth_ok_def)
  have "invitation_ok j" if j: "j \<in> set ?is" for j
  proof -
    from j obtain i where i: "i \<in> set (dInvitations db)" "j = (if p i then f i else i)" by auto
    with io have "invitation_ok i" by (simp add: invitations_ok_def)
    with i f [of i] ok [of i] show ?thesis by (cases "p i") (auto simp: invitation_ok_def)
  qed
  with keys io show "invitations_ok (db\<lparr>dInvitations := ?is\<rparr>)"
    by (simp add: invitations_ok_def del: map_map set_map)
next
  let ?is = "map (\<lambda>i. if p i then f i else i) (dInvitations db)"
  have "\<exists>i'\<in>set ?is. iId i' = iId i \<and> iTokenHash i' = iTokenHash i \<and> iBoard i' = iBoard i \<and> iRole i' = iRole i \<and>
     (iConsumedAt i \<noteq> None \<or> iRevokedAt i \<noteq> None \<longrightarrow> i' = i)" if "i \<in> set (dInvitations db)" for i
    using that f p by (intro bexI [of _ "if p i then f i else i"]) auto
  then show "invitations_evolve db (db\<lparr>dInvitations := ?is\<rparr>)" by (simp add: invitations_evolve_def del: set_map)
qed

lemma consume_safe: "auth_safe db (fst (db_consumeInvitation i u now db))"
  unfolding db_consumeInvitation_def by (rule update_invitation_safe) auto

lemma revoke_safe: "auth_safe db (fst (db_revokeInvitation i now db))"
  unfolding db_revokeInvitation_def by (rule update_invitation_safe) auto

lemma member_not_owner:
  assumes "auth_ok db" and "getBoardMember b u db = Some m" and "mRole m \<noteq> Owner"
  shows "not_owner b u db"
proof -
  from getBoardMember_Some [OF assms(2)] have m: "m \<in> set (dMembers db)" "mBoard m = b" "mUser m = u" by auto
  with assms(1) obtain bd where bd: "bd \<in> set (dBoards db)" "bId bd = b" "mRole m = Owner \<longleftrightarrow> u = bOwner bd"
    by (auto simp: auth_ok_def members_ok_def)
  have "inj_on bId (set (dBoards db))" using assms(1) by (simp add: auth_ok_def boards_ok_def distinct_map)
  with bd assms(3) show ?thesis by (auto simp: not_owner_def inj_on_def)
qed

lemma stranger_not_owner:
  assumes "auth_ok db" and "getBoardMember b u db = None"
  shows "not_owner b u db"
  unfolding not_owner_def
proof (intro ballI impI notI)
  fix bd assume bd: "bd \<in> set (dBoards db)" "bId bd = b" "bOwner bd = u"
  with assms(1) obtain m where "m \<in> set (dMembers db)" "mBoard m = b" "mUser m = u"
    by (auto simp: auth_ok_def members_ok_def)
  with assms(2) show False by (auto simp: getBoardMember_None)
qed

lemma applyInvitedMembership_safe:
  assumes ap: "applyInvitedMembership i u now db = Inr db'" and role: "iRole i \<noteq> Some Owner"
  shows "auth_safe db db'"
proof (cases "iBoard i = None \<or> iRole i = None")
  case True
  with ap show ?thesis by (auto simp: applyInvitedMembership_def split: option.splits)
next
  case False
  then obtain b r where br: "iBoard i = Some b" "iRole i = Some r" by auto
  show ?thesis
  proof (cases "getBoardMember b u db")
    case None
    with ap br have "upsertBoardMember \<lparr>mBoard = b, mUser = u, mRole = r, mCreatedAt = now, mUpdatedAt = now\<rparr> db = Inr db'"
      by (simp add: applyInvitedMembership_def)
    then show ?thesis using br role stranger_not_owner [OF _ None] by (elim upsertBoardMember_safe) auto
  next
    case (Some m)
    show ?thesis
    proof (cases "role_rank (mRole m) \<ge> role_rank r")
      case True
      with ap br Some show ?thesis by (simp add: applyInvitedMembership_def)
    next
      case False
      then have "mRole m \<noteq> Owner" by (auto simp: role_rank_def split: board_role.splits)
      moreover from False ap br Some have "upsertBoardMember
          \<lparr>mBoard = b, mUser = u, mRole = r, mCreatedAt = mCreatedAt m, mUpdatedAt = now\<rparr> db = Inr db'"
        by (simp add: applyInvitedMembership_def)
      ultimately show ?thesis using br role member_not_owner [OF _ Some] by (elim upsertBoardMember_safe) auto
    qed
  qed
qed

end
