(* ===== verification/AuthMachine.thy ===== *)
theory AuthMachine
  imports AuthInvariant
begin

text \<open>
  The account service as a state machine. A step is one call that returns; a call that throws leaves
  the database as it was and is no step. \<open>login\<close> is split at its await: the account it checked may be
  changed by other calls before it writes. \<open>Audit\<close> is the row that a route of the server adds to the audit
  trail by itself, after a change of the token file. Every step is sound, so every reachable database is
  consistent and evolved from each earlier one.
\<close>

section \<open>Each call is sound\<close>

lemma event_safe: "auth_safe db db' \<Longrightarrow> auth_safe db (insertAccountEvent uuid type actor subject board meta now db')"
  by (rule auth_safe_trans [OF _ insertAccountEvent_safe])

lemma register_transaction_safe:
  assumes "register_transaction sv dr now boot u tok db = Inr db'"
  shows "auth_safe db db'"
proof (cases "auth_ok db")
  case False
  then show ?thesis by (simp add: auth_safe_def)
next
  case ok: True
  define inv where "inv = (case tok of None \<Rightarrow> None
    | Some t \<Rightarrow> if validOpaqueToken t then getInvitationByTokenHash (cyHash (svCrypto sv) t) db else None)"
  define user where "user = u\<lparr>uIsAdmin := (countUsers db = 0)\<rparr>"
  from assms obtain db1 db4 db5 uuid type actor subject board meta where
    db1: "insertUser user db = Inr db1"
    and mid: "(case inv of None \<Rightarrow> Inr db1
          | Some i \<Rightarrow> (case db_consumeInvitation (iId i) (uId user) now db1 of
              (db2, ok) \<Rightarrow>
                bindR (guardR ok InvalidInvitation) (\<lambda>_.
                bindR (applyInvitedMembership i (uId user) now db2) (\<lambda>db3.
                Inr (insertAccountEvent (drEvent dr) ''invitation.consumed'' (Some (uId user)) (Some (uId user))
                       (iBoard i) [(''invitationId'', JStr (iId i))] now db3))))) = Inr db4"
    and db5: "insertSession (new_session sv dr (uId user) now) db4 = Inr db5"
    and db': "db' = insertAccountEvent uuid type actor subject board meta now db5"
    unfolding register_transaction_def Let_def inv_def user_def by (fastforce simp: res_simps)
  have "auth_safe db1 db4"
  proof (cases inv)
    case None
    with mid show ?thesis by simp
  next
    case (Some i)
    from Some have "i \<in> set (dInvitations db)" unfolding inv_def
      by (auto split: option.splits if_splits dest: getInvitation_Some)
    with ok have role: "iRole i \<noteq> Some Owner" by (auto simp: auth_ok_def invitations_ok_def invitation_ok_def)
    obtain db2 okc where c: "db_consumeInvitation (iId i) (uId user) now db1 = (db2, okc)" by fastforce
    with mid Some obtain db3 where ap: "applyInvitedMembership i (uId user) now db2 = Inr db3"
      and db4: "db4 = insertAccountEvent (drEvent dr) ''invitation.consumed'' (Some (uId user)) (Some (uId user))
                       (iBoard i) [(''invitationId'', JStr (iId i))] now db3"
      by (auto simp: res_simps)
    have "auth_safe db1 db2" using consume_safe [of db1 "iId i" "uId user" now] c by simp
    then show ?thesis unfolding db4
      by (intro event_safe) (rule auth_safe_trans [OF _ applyInvitedMembership_safe [OF ap role]])
  qed
  with insertUser_safe [OF db1] insertSession_safe [OF db5] show ?thesis
    unfolding db' by (intro event_safe) (blast intro: auth_safe_trans)
qed

lemma registerInternal_safe:
  "registerInternal sv dr salt now boot inp db = Inr (db', tok) \<Longrightarrow> auth_safe db db'"
  by (auto simp: registerInternal_def res_simps dest: register_transaction_safe)

lemma setLastLogin_safe: "auth_safe db (setLastLogin u now db)"
  unfolding setLastLogin_def by (rule update_user_safe) simp

lemma login_commit_safe: "login_commit sv dr now u db = Inr (db', tok) \<Longrightarrow> auth_safe db db'"
  by (auto simp: login_commit_def res_simps
      dest!: insertSession_safe auth_safe_trans [OF setLastLogin_safe] intro!: event_safe)

lemma revoke_session_safe: "auth_safe db (fst (revokeSessionByTokenHash h now db))"
  by (auto simp: revokeSessionByTokenHash_def split: option.split intro!: update_sessions_safe)

lemma touch_safe: "auth_safe db (touchSession i now db)"
  unfolding touchSession_def by (rule update_sessions_safe) simp_all

lemma getCurrentSession_safe: "auth_safe db (fst (getCurrentSession sv now tok db))"
  by (auto simp: getCurrentSession_def revoke_session_safe touch_safe split: option.split)

lemma logout_safe: "auth_safe db (fst (logout sv dr now tok db))"
  using revoke_session_safe [of db "cyHash (svCrypto sv) tok" now]
  by (cases "revokeSessionByTokenHash (cyHash (svCrypto sv) tok) now db")
    (auto simp: logout_def split: option.split intro: event_safe)

lemma createBoard_safe: "createBoard sv dr now u name i agent db = Inr (db', b) \<Longrightarrow> auth_safe db db'"
  by (cases "truthy agent")
    (auto simp: createBoard_def Let_def res_simps dest!: insert_owned_board_safe intro!: event_safe)

lemma adopt_boards_safe: "adopt_boards dr now owner bs db = Inr (db', rs) \<Longrightarrow> auth_safe db db'"
proof (induction dr now owner bs db arbitrary: db' rs rule: adopt_boards.induct)
  case (1 dr now owner db)
  then show ?case by simp
next
  case (2 dr now owner i name rest db)
  show ?case
  proof (cases "getBoardById i db = None")
    case False
    with 2(1,3) show ?thesis by simp
  next
    case True
    let ?b = "\<lparr>bId = i, bName = name, bOwner = owner, bCreatedAt = now, bUpdatedAt = now, bDeletedAt = None\<rparr>"
    from 2(3) True obtain db1 rs' where db1: "insert_owned_board ?b db = Inr db1"
      and rest: "adopt_boards dr now owner rest (insertAccountEvent (drEvent dr) ''board.legacy_adopted''
          (Some owner) (Some owner) (Some i) [(''name'', JStr name)] now db1) = Inr (db', rs')"
      by (auto simp: res_simps Let_def)
    have "auth_safe (insertAccountEvent (drEvent dr) ''board.legacy_adopted''
          (Some owner) (Some owner) (Some i) [(''name'', JStr name)] now db1) db'"
      using 2(2) True rest by simp
    from auth_safe_trans [OF event_safe [OF insert_owned_board_safe [OF db1]] this] show ?thesis .
  qed
qed

lemma adoptLegacyBoards_safe: "adoptLegacyBoards sv dr now owner bs db = Inr (db', rs) \<Longrightarrow> auth_safe db db'"
  by (auto simp: adoptLegacyBoards_def res_simps dest: adopt_boards_safe)

lemma rename_safe: "auth_safe db (db_renameBoard i name now db)"
  unfolding db_renameBoard_def by (rule update_board_safe) simp

lemma setBoardDeleted_safe: "auth_safe db (setBoardDeleted i d now db)"
  unfolding setBoardDeleted_def by (rule update_board_safe) simp

lemma renameBoard_safe: "renameBoard sv dr now u i name db = Inr db' \<Longrightarrow> auth_safe db db'"
  by (auto simp: renameBoard_def res_simps intro!: event_safe rename_safe)

lemma deleteBoard_safe: "deleteBoard dr now u i agent reason db = Inr db' \<Longrightarrow> auth_safe db db'"
  by (auto simp: deleteBoard_def res_simps Let_def split: option.splits if_splits
      intro!: event_safe setBoardDeleted_safe)

lemma restoreBoard_safe: "restoreBoard dr now u i db = Inr db' \<Longrightarrow> auth_safe db db'"
  by (auto simp: restoreBoard_def res_simps split: if_splits intro!: event_safe setBoardDeleted_safe)

lemma requireOwner_board: "requireOwner u i d db = Inr b \<Longrightarrow> b \<in> set (dBoards db) \<and> bId b = i"
  by (auto simp: requireOwner_def requireBoardMember_def visible_board_def validateBoardId_def res_simps
      split: option.splits if_splits dest: getBoardById_Some)

lemma owner_not_subject:
  assumes "auth_ok db" and "b \<in> set (dBoards db)" and "subject \<noteq> bOwner b"
  shows "not_owner (bId b) subject db"
proof -
  have "inj_on bId (set (dBoards db))" using assms(1) by (simp add: auth_ok_def boards_ok_def distinct_map)
  with assms(2,3) show ?thesis by (auto simp: not_owner_def inj_on_def)
qed

lemma setBoardMemberRole_safe:
  assumes "setBoardMemberRole dr now actor i subject role db = Inr db'"
  shows "auth_safe db db'"
proof (cases "auth_ok db")
  case False
  then show ?thesis by (simp add: auth_safe_def)
next
  case ok: True
  from assms obtain b where b: "requireOwner actor i False db = Inr b" "subject \<noteq> bOwner b" "role \<noteq> Some Owner"
    by (auto simp: setBoardMemberRole_def res_simps)
  have no: "not_owner (bId b) subject db"
    using owner_not_subject [OF ok _ b(2)] requireOwner_board [OF b(1)] by blast
  show ?thesis
  proof (cases role)
    case None
    with assms b show ?thesis
      by (auto simp: setBoardMemberRole_def res_simps intro!: event_safe removeBoardMember_safe no)
  next
    case (Some r)
    with assms b show ?thesis
      by (auto simp: setBoardMemberRole_def res_simps no intro!: event_safe elim!: upsertBoardMember_safe)
  qed
qed

lemma createInvitation_safe:
  assumes "createInvitation sv dr now actor inp db = Inr (db', i, tok)"
  shows "auth_safe db db'"
proof -
  from assms obtain db1 uuid type a subject board meta where
    ins: "insertInvitation i db = Inr db1" and db': "db' = insertAccountEvent uuid type a subject board meta now db1"
    and i: "iConsumedAt i = None" "iConsumedBy i = None"
    unfolding createInvitation_def Let_def by (fastforce simp: res_simps)
  show ?thesis unfolding db' by (rule event_safe) (rule insertInvitation_safe [OF ins i])
qed

lemma consumeInvitation_safe:
  assumes "consumeInvitation sv dr now u tok db = Inr (db', r)"
  shows "auth_safe db db'"
proof (cases "auth_ok db")
  case False
  then show ?thesis by (simp add: auth_safe_def)
next
  case ok: True
  from assms obtain usr where usr: "requireActiveUser u db = Inr usr" by (auto simp: consumeInvitation_def res_simps)
  from assms obtain i where i: "getInvitationByTokenHash (cyHash (svCrypto sv) tok) db = Some i"
    by (auto simp: consumeInvitation_def res_simps split: option.splits)
  obtain db1 okc where c: "db_consumeInvitation (iId i) (uId usr) now db = (db1, okc)" by fastforce
  with assms usr i obtain db2 where ap: "applyInvitedMembership i (uId usr) now db1 = Inr db2"
    and db': "db' = insertAccountEvent (drEvent dr) ''invitation.consumed'' (Some (uId usr)) (Some (uId usr)) (iBoard i)
               [(''invitationId'', JStr (iId i))] now db2"
    by (auto simp: consumeInvitation_def res_simps)
  from getInvitation_Some [OF i] ok have role: "iRole i \<noteq> Some Owner"
    by (auto simp: auth_ok_def invitations_ok_def invitation_ok_def)
  have "auth_safe db db1" using consume_safe [of db "iId i" "uId usr" now] c by simp
  then show ?thesis unfolding db'
    by (intro event_safe) (rule auth_safe_trans [OF _ applyInvitedMembership_safe [OF ap role]])
qed

lemma revokeInvitation_safe:
  assumes "revokeInvitation sv dr now actor tok db = Inr (db', r)"
  shows "auth_safe db db'"
proof -
  have "auth_safe db db1" if "db_revokeInvitation i now db = (db1, x)" for i db1 x
    using revoke_safe [of db i now] that by simp
  with assms show ?thesis
    by (auto simp: revokeInvitation_def res_simps split: if_splits option.splits prod.splits intro!: event_safe)
qed

lemma setUserSettings_safe: "auth_safe db (setUserSettings u s now db)"
  unfolding setUserSettings_def by (rule update_user_safe) simp

lemma updateSettings_safe: "updateSettings sv dr now u s db = Inr db' \<Longrightarrow> auth_safe db db'"
  by (auto simp: updateSettings_def res_simps intro!: event_safe setUserSettings_safe)

lemma setUserDisabled_safe: "setUserDisabled dr now actor subject d db = Inr db' \<Longrightarrow> auth_safe db db'"
  by (auto simp: setUserDisabled_def res_simps Let_def set_user_disabled_def revokeSessionsForUser_def
      split: option.splits if_splits
      intro!: event_safe update_user_safe auth_safe_trans [OF update_user_safe update_sessions_safe])

lemma registerBoardAsset_safe:
  assumes "registerBoardAsset board upload db = Inr db'"
  shows "auth_safe db db'"
proof -
  have "auth_safe db (db\<lparr>dAssets := as\<rparr>)" for as
    by (simp add: auth_safe_def auth_ok_def auth_evolves_def users_ok_def sessions_ok_def
      boards_ok_def members_ok_def invitations_ok_def events_ok_def)
  with assms show ?thesis by (auto simp: registerBoardAsset_def res_simps split: if_splits)
qed

section \<open>The machine\<close>

inductive auth_step :: "service \<Rightarrow> adb \<Rightarrow> adb \<Rightarrow> bool" for sv where
  Register: "registerInternal sv dr salt now boot inp db = Inr (db', tok) \<Longrightarrow> auth_step sv db db'"
| Login: "login_commit sv dr now u db = Inr (db', tok) \<Longrightarrow> auth_step sv db db'"
| Authenticate: "auth_step sv db (fst (getCurrentSession sv now tok db))"
| Logout: "auth_step sv db (fst (logout sv dr now tok db))"
| Create: "createBoard sv dr now u name i agent db = Inr (db', b) \<Longrightarrow> auth_step sv db db'"
| Adopt: "adoptLegacyBoards sv dr now u bs db = Inr (db', rs) \<Longrightarrow> auth_step sv db db'"
| Rename: "renameBoard sv dr now u i name db = Inr db' \<Longrightarrow> auth_step sv db db'"
| Delete: "deleteBoard dr now u i agent reason db = Inr db' \<Longrightarrow> auth_step sv db db'"
| Restore: "restoreBoard dr now u i db = Inr db' \<Longrightarrow> auth_step sv db db'"
| Member: "setBoardMemberRole dr now actor i subject role db = Inr db' \<Longrightarrow> auth_step sv db db'"
| Invite: "createInvitation sv dr now actor ninp db = Inr (db', invn, tok) \<Longrightarrow> auth_step sv db db'"
| Consume: "consumeInvitation sv dr now u tok db = Inr (db', invn) \<Longrightarrow> auth_step sv db db'"
| Revoke: "revokeInvitation sv dr now actor tok db = Inr (db', ok) \<Longrightarrow> auth_step sv db db'"
| Settings: "updateSettings sv dr now u s db = Inr db' \<Longrightarrow> auth_step sv db db'"
| Disable: "setUserDisabled dr now actor subject d db = Inr db' \<Longrightarrow> auth_step sv db db'"
| Asset: "registerBoardAsset board upload db = Inr db' \<Longrightarrow> auth_step sv db db'"
| Audit: "auth_step sv db (insertAccountEvent uuid type actor subject board meta now db)"

inductive auth_runs :: "service \<Rightarrow> adb \<Rightarrow> adb \<Rightarrow> bool" for sv where
  Stop: "auth_runs sv db db"
| Step: "auth_runs sv db db1 \<Longrightarrow> auth_step sv db1 db2 \<Longrightarrow> auth_runs sv db db2"

lemma auth_step_safe: "auth_step sv db db' \<Longrightarrow> auth_safe db db'"
  by (induction rule: auth_step.induct)
    (simp_all add: registerInternal_safe login_commit_safe getCurrentSession_safe logout_safe createBoard_safe
      adoptLegacyBoards_safe renameBoard_safe deleteBoard_safe restoreBoard_safe setBoardMemberRole_safe
      createInvitation_safe consumeInvitation_safe revokeInvitation_safe updateSettings_safe setUserDisabled_safe
      registerBoardAsset_safe insertAccountEvent_safe)

lemma auth_runs_safe: "auth_runs sv db db' \<Longrightarrow> auth_safe db db'"
  by (induction rule: auth_runs.induct) (simp, blast intro: auth_safe_trans auth_step_safe)

lemma auth_runs_trans:
  assumes "auth_runs sv db db'" and "auth_runs sv db' db''"
  shows "auth_runs sv db db''"
  using assms(2,1) by (induction rule: auth_runs.induct) (simp, blast intro: auth_runs.Step)

lemma auth_runs_step: "auth_step sv db db' \<Longrightarrow> auth_runs sv db db'"
  by (blast intro: auth_runs.intros)

lemma empty_adb_ok: "auth_ok empty_adb"
  by (simp add: auth_ok_defs empty_adb_def)

end
