(* ===== verification/AuthDemo.thy ===== *)
theory AuthDemo
  imports AuthMachine
begin

text \<open>
  A concrete account service and five calls to it, each with the database it leaves written out: the
  first account is made, it makes a board, invites an editor, the invitation is used by a second
  account, which is then disabled. The witnesses of the properties run on these databases.
\<close>

section \<open>A concrete service\<close>

text \<open>
  The service behind the witnesses: ASCII text, bytes as characters with the dollar sign escaped, a key derivation that
  pads the password, and a hash that pads the token to 64 characters.
\<close>

definition demo_pad :: "nat \<Rightarrow> 'a \<Rightarrow> 'a list \<Rightarrow> 'a list" where
  "demo_pad n a xs = take n (xs @ replicate n a)"

definition demo_encode :: "nat list \<Rightarrow> string" where
  "demo_encode bs = concat (map (\<lambda>n. if n = 36 then ''%d'' else if n = 37 then ''%%'' else [char_of n]) bs)"

fun demo_decode :: "string \<Rightarrow> nat list" where
  "demo_decode [] = []"
| "demo_decode (a # cs) = (if a = CHR ''%''
     then (case cs of [] \<Rightarrow> [] | b # ds \<Rightarrow> (if b = CHR ''d'' then 36 else 37) # demo_decode ds)
     else of_char a # demo_decode cs)"

definition demo_crypto :: crypto where
  "demo_crypto = \<lparr>cyScrypt = (\<lambda>p salt. Some (demo_pad 32 0 (map of_char p))),
     cyEncode = demo_encode, cyDecode = demo_decode,
     cyNumber = (\<lambda>s. if s = ''32768'' then Some 32768 else if s = ''8'' then Some 8 else if s = ''1'' then Some 1 else None),
     cyHash = demo_pad 64 CHR ''0''\<rparr>"

definition demo_service :: service where
  "demo_service = \<lparr>svUnicode = \<lparr>ucNfkc = (\<lambda>s. s), ucLower = fold_case, ucLetterOrNumber = is_alnum\<rparr>,
     svCrypto = demo_crypto,
     svConfig = \<lparr>acOpen = False, acSessionTtl = 3600000, acInvitationTtl = 3600000\<rparr>,
     svJsonBytes = length\<rparr>"

definition demo_draws :: "char \<Rightarrow> draws" where
  "demo_draws c = \<lparr>drUser = ''user-'' @ [c], drSession = ''session-'' @ [c], drInvitation = ''invitation-'' @ [c],
     drToken = replicate 43 c, drEvent = (\<lambda>n. ''event'')\<rparr>"

section \<open>The databases\<close>

definition demo_password_text :: "char \<Rightarrow> string \<Rightarrow> string" where
  "demo_password_text salt p = ''scrypt$v1$32768$8$1$'' @ replicate 16 salt @ ''$'' @ demo_pad 32 (char_of (0 :: nat)) p"

definition demo_token_hash :: "char \<Rightarrow> string" where
  "demo_token_hash c = replicate 43 c @ replicate 21 CHR ''0''"

definition demo_ada :: user_rec where
  "demo_ada = \<lparr>uId = ''user-a'', uLogin = ''ada'', uLoginNormalized = ''ada'', uDisplayName = ''Ada'',
     uPasswordHash = demo_password_text CHR ''A'' ''correct horse'', uSettings = [], uIsAdmin = True, uCreatedAt = 1000,
     uUpdatedAt = 1000, uLastLoginAt = Some 1000, uDisabledAt = None\<rparr>"

definition demo_grace :: user_rec where
  "demo_grace = \<lparr>uId = ''user-d'', uLogin = ''grace'', uLoginNormalized = ''grace'', uDisplayName = ''Grace'',
     uPasswordHash = demo_password_text CHR ''B'' ''battery staple'', uSettings = [], uIsAdmin = False, uCreatedAt = 4000,
     uUpdatedAt = 4000, uLastLoginAt = Some 4000, uDisabledAt = None\<rparr>"

definition demo_session_row :: "char \<Rightarrow> int \<Rightarrow> session_rec" where
  "demo_session_row c t = \<lparr>sId = ''session-'' @ [c], sTokenHash = demo_token_hash c, sUserId = ''user-'' @ [c], sCreatedAt = t,
     sExpiresAt = t + 3600000, sLastSeenAt = t, sRevokedAt = None\<rparr>"

definition demo_board_row :: board_rec where
  "demo_board_row = \<lparr>bId = ''board-1'', bName = ''Plan'', bOwner = ''user-a'', bCreatedAt = 2000, bUpdatedAt = 2000, bDeletedAt = None\<rparr>"

definition demo_member_row :: "string \<Rightarrow> board_role \<Rightarrow> int \<Rightarrow> member_rec" where
  "demo_member_row u r t = \<lparr>mBoard = ''board-1'', mUser = u, mRole = r, mCreatedAt = t, mUpdatedAt = t\<rparr>"

definition demo_invitation_row :: invitation_rec where
  "demo_invitation_row = \<lparr>iId = ''invitation-c'', iTokenHash = demo_token_hash CHR ''c'', iCreatedBy = ''user-a'',
     iBoard = Some ''board-1'', iRole = Some Editor, iInvitedLogin = None, iCreatedAt = 3000, iExpiresAt = 3603000,
     iConsumedAt = None, iConsumedBy = None, iRevokedAt = None\<rparr>"

definition demo_event :: "nat \<Rightarrow> string \<Rightarrow> string \<Rightarrow> string option \<Rightarrow> string option \<Rightarrow> (string \<times> json) list \<Rightarrow> account_event" where
  "demo_event n type actor subject board meta = \<lparr>aeId = n, aeEventId = ''event'', aeType = type, aeActor = Some actor,
     aeSubject = subject, aeBoard = board, aeMeta = meta,
     aeAt = (if n \<le> 3 then int n * 1000 else if n \<le> 5 then 4000 else 5000)\<rparr>"

definition demo_events :: "account_event list" where
  "demo_events =
     [demo_event 1 ''account.bootstrapped'' ''user-a'' (Some ''user-a'') None [],
      demo_event 2 ''board.created'' ''user-a'' (Some ''user-a'') (Some ''board-1'') [(''name'', JStr ''Plan'')],
      demo_event 3 ''invitation.created'' ''user-a'' None (Some ''board-1'')
        [(''invitationId'', JStr ''invitation-c''), (''role'', JStr ''editor''), (''invitedLogin'', JNull), (''expiresAt'', JNum 3603000)],
      demo_event 4 ''invitation.consumed'' ''user-d'' (Some ''user-d'') (Some ''board-1'') [(''invitationId'', JStr ''invitation-c'')],
      demo_event 5 ''account.registered'' ''user-d'' (Some ''user-d'') (Some ''board-1'') [],
      demo_event 6 ''account.disabled'' ''user-a'' (Some ''user-d'') None []]"

definition demo_founded :: adb where
  "demo_founded = \<lparr>dUsers = [demo_ada], dSessions = [demo_session_row CHR ''a'' 1000], dBoards = [], dMembers = [],
     dInvitations = [], dEvents = take 1 demo_events, dNextEvent = 2, dAssets = []\<rparr>"

definition demo_planned :: adb where
  "demo_planned = demo_founded\<lparr>dBoards := [demo_board_row], dMembers := [demo_member_row ''user-a'' Owner 2000],
     dEvents := take 2 demo_events, dNextEvent := 3\<rparr>"

definition demo_open :: adb where
  "demo_open = demo_planned\<lparr>dInvitations := [demo_invitation_row], dEvents := take 3 demo_events, dNextEvent := 4\<rparr>"

definition demo_db :: adb where
  "demo_db = demo_open\<lparr>dUsers := [demo_ada, demo_grace],
     dSessions := [demo_session_row CHR ''a'' 1000, demo_session_row CHR ''d'' 4000],
     dMembers := [demo_member_row ''user-a'' Owner 2000, demo_member_row ''user-d'' Editor 4000],
     dInvitations := [demo_invitation_row\<lparr>iConsumedAt := Some 4000, iConsumedBy := Some ''user-d''\<rparr>],
     dEvents := take 5 demo_events, dNextEvent := 6\<rparr>"

definition demo_off :: adb where
  "demo_off = demo_db\<lparr>dUsers := [demo_ada, demo_grace\<lparr>uUpdatedAt := 5000, uDisabledAt := Some 5000\<rparr>],
     dSessions := [demo_session_row CHR ''a'' 1000, (demo_session_row CHR ''d'' 4000)\<lparr>sRevokedAt := Some 5000\<rparr>],
     dEvents := demo_events, dNextEvent := 7\<rparr>"

section \<open>The calls\<close>

lemma demo_founded_result:
  "registerInternal demo_service (demo_draws CHR ''a'') (replicate 16 65) 1000 True
     \<lparr>rgLogin = ''ada'', rgDisplayName = ''Ada'', rgPassword = ''correct horse'', rgInvitation = None, rgSettings = None\<rparr> empty_adb =
   Inr (demo_founded, replicate 43 CHR ''a'')"
  by code_simp

lemma demo_planned_result:
  "createBoard demo_service (demo_draws CHR ''b'') 2000 ''user-a'' ''Plan'' ''board-1'' None demo_founded = Inr (demo_planned, demo_board_row)"
  by code_simp

lemma demo_open_result:
  "createInvitation demo_service (demo_draws CHR ''c'') 3000 ''user-a''
     \<lparr>niBoard = Some ''board-1'', niRole = Some Editor, niLogin = None, niExpiresIn = None\<rparr> demo_planned =
   Inr (demo_open, demo_invitation_row, replicate 43 CHR ''c'')"
  by code_simp

lemma demo_second_result:
  "registerInternal demo_service (demo_draws CHR ''d'') (replicate 16 66) 4000 False
     \<lparr>rgLogin = ''grace'', rgDisplayName = ''Grace'', rgPassword = ''battery staple'',
      rgInvitation = Some (replicate 43 CHR ''c''), rgSettings = None\<rparr> demo_open =
   Inr (demo_db, replicate 43 CHR ''d'')"
  by code_simp

lemma demo_off_result: "setUserDisabled (demo_draws CHR ''e'') 5000 ''user-a'' ''user-d'' True demo_db = Inr demo_off"
  by code_simp

lemma demo_open_run: "auth_runs demo_service empty_adb demo_open"
  by (rule Step [OF Step [OF Step [OF Stop Register [OF demo_founded_result]] Create [OF demo_planned_result]]
    Invite [OF demo_open_result]])

lemma demo_db_run: "auth_runs demo_service empty_adb demo_db"
  by (rule Step [OF demo_open_run Register [OF demo_second_result]])

lemma demo_sizes:
  "length (dMembers demo_db) = 2" "length (dEvents demo_db) = 5" "length (dEvents demo_off) = 6"
  by (simp_all add: demo_db_def demo_off_def demo_events_def)

end
