(* ===== verification/AuthClaims.thy ===== *)
theory AuthClaims
  imports AuthMachine AuthDemo
begin

text \<open>The properties of the account service.\<close>

section \<open>Reachable databases\<close>

lemma reachable_adb_ok: "auth_runs sv empty_adb db \<Longrightarrow> auth_ok db"
  using auth_runs_safe [of sv empty_adb db] empty_adb_ok by (simp add: auth_safe_def)

lemma runs_evolve: "auth_ok db \<Longrightarrow> auth_runs sv db db' \<Longrightarrow> auth_ok db' \<and> auth_evolves db db'"
  using auth_runs_safe [of sv db db'] by (simp add: auth_safe_def)

lemma distinct_find:
  assumes "distinct (map k xs)" and "x \<in> set xs"
  shows "find (\<lambda>y. k y = k x) xs = Some x"
  using assms by (intro find_unique) (auto simp: distinct_map inj_on_def)

section \<open>Consistency\<close>

lemma one_owner:
  assumes ok: "auth_ok db" and b: "b \<in> set (dBoards db)"
  shows "\<exists>!m. m \<in> set (dMembers db) \<and> mBoard m = bId b \<and> mRole m = Owner"
proof -
  from ok have keys: "inj_on (\<lambda>m. (mBoard m, mUser m)) (set (dMembers db))"
    and boards: "inj_on bId (set (dBoards db))"
    and link: "\<And>m. m \<in> set (dMembers db) \<Longrightarrow>
        \<exists>b\<in>set (dBoards db). bId b = mBoard m \<and> (mRole m = Owner \<longleftrightarrow> mUser m = bOwner b)"
    and own: "\<And>b. b \<in> set (dBoards db) \<Longrightarrow> \<exists>m\<in>set (dMembers db). mBoard m = bId b \<and> mUser m = bOwner b"
    by (auto simp: auth_ok_defs distinct_map)
  have role: "mRole m = Owner \<longleftrightarrow> mUser m = bOwner b" if "m \<in> set (dMembers db)" "mBoard m = bId b" for m
  proof -
    from link [OF that(1)] obtain b' where b': "b' \<in> set (dBoards db)" "bId b' = mBoard m"
      "mRole m = Owner \<longleftrightarrow> mUser m = bOwner b'" by blast
    with that(2) boards b have "b' = b" by (auto dest: inj_onD)
    with b' show ?thesis by simp
  qed
  from own [OF b] obtain m where m: "m \<in> set (dMembers db)" "mBoard m = bId b" "mUser m = bOwner b" by blast
  show ?thesis
  proof (rule ex1I [of _ m])
    show "m \<in> set (dMembers db) \<and> mBoard m = bId b \<and> mRole m = Owner" using m role by blast
  next
    fix m' assume "m' \<in> set (dMembers db) \<and> mBoard m' = bId b \<and> mRole m' = Owner"
    with m role [of m'] show "m' = m" by (intro inj_onD [OF keys]) auto
  qed
qed

text \<open>
  C13: Whatever calls the account service has answered, in whatever order, since the database was
  created, its tables are consistent: ids, login names, session and invitation token hashes and
  (board, user) memberships are unique, every session, board and membership refers to rows that exist,
  no invitation grants ownership, no invitation is both used and revoked, audit ids count up from 1
  without gaps; and every board has exactly one owner member.
\<close>
theorem accounts_consistent:
  assumes "auth_runs sv empty_adb db"
  shows "auth_ok db \<and>
    (\<forall>b\<in>set (dBoards db). \<exists>!m. m \<in> set (dMembers db) \<and> mBoard m = bId b \<and> mRole m = Owner)"
  using reachable_adb_ok [OF assms] one_owner by blast

theorem accounts_consistent_witness:
  "auth_runs demo_service empty_adb demo_db \<and> auth_ok demo_db \<and> length (dMembers demo_db) = 2"
  using demo_db_run demo_sizes accounts_consistent [OF demo_db_run] by simp

text \<open>
  A database never forgets: from any reachable database to any later one, the audit trail is only
  appended to; accounts keep id, login name, password hash and admin flag; boards stay and keep their
  owner; an invitation that was used or revoked stays exactly as it is; a session keeps its user, token
  and expiry, and once revoked stays revoked at the time it was.
\<close>
theorem accounts_evolve:
  assumes "auth_runs sv empty_adb db" and "auth_runs sv db db'"
  shows "auth_evolves db db'"
  using runs_evolve [OF reachable_adb_ok [OF assms(1)] assms(2)] by blast

lemma demo_off_run: "auth_runs demo_service demo_db demo_off"
  by (rule Step [OF Stop Disable [OF demo_off_result]])

theorem accounts_evolve_witness:
  "auth_runs demo_service demo_db demo_off \<and> auth_evolves demo_db demo_off \<and>
   length (dEvents demo_db) < length (dEvents demo_off)"
  using demo_off_run demo_sizes accounts_evolve [OF demo_db_run demo_off_run] by simp

section \<open>Invitations are used once\<close>

definition token_spent :: "service \<Rightarrow> string \<Rightarrow> adb \<Rightarrow> bool" where
  "token_spent sv tok db \<longleftrightarrow> (\<exists>i\<in>set (dInvitations db). iTokenHash i = cyHash (svCrypto sv) tok \<and>
     (iConsumedAt i \<noteq> None \<or> iRevokedAt i \<noteq> None))"

lemma spent_stays: "auth_evolves db db' \<Longrightarrow> token_spent sv tok db \<Longrightarrow> token_spent sv tok db'"
  unfolding token_spent_def auth_evolves_def invitations_evolve_def by metis

lemma spent_found:
  assumes "auth_ok db" and "token_spent sv tok db"
  obtains i where "getInvitationByTokenHash (cyHash (svCrypto sv) tok) db = Some i"
    and "iConsumedAt i \<noteq> None \<or> iRevokedAt i \<noteq> None"
proof -
  from assms(2) obtain i where i: "i \<in> set (dInvitations db)" "iTokenHash i = cyHash (svCrypto sv) tok"
    "iConsumedAt i \<noteq> None \<or> iRevokedAt i \<noteq> None" by (auto simp: token_spent_def)
  from assms(1) have "distinct (map iTokenHash (dInvitations db))" by (simp add: auth_ok_defs)
  from distinct_find [OF this i(1)] i(2) have "getInvitationByTokenHash (cyHash (svCrypto sv) tok) db = Some i"
    by (simp add: getInvitationByTokenHash_def)
  with i(3) that show thesis by blast
qed

lemma usable_fresh: "assertInvitationUsable i l now db = Inr x \<Longrightarrow> iConsumedAt i = None \<and> iRevokedAt i = None"
  by (auto simp: assertInvitationUsable_def res_simps)

lemma update_invitation_marks:
  assumes "update_invitation p f db = (db', True)" and "\<And>i. p i \<Longrightarrow> iId i = n" and "distinct (map iId (dInvitations db))"
    and "x \<in> set (dInvitations db)" and "iId x = n"
  shows "f x \<in> set (dInvitations db')"
proof -
  from assms(1) have "length (filter p (dInvitations db)) = 1" and db': "dInvitations db' = map (\<lambda>i. if p i then f i else i) (dInvitations db)"
    by (auto simp: update_invitation_def)
  then have "filter p (dInvitations db) \<noteq> []" by (metis length_0_conv zero_neq_one)
  then obtain y where y: "y \<in> set (dInvitations db)" "p y" by (auto simp: filter_empty_conv)
  with assms(2-5) have "y = x" by (auto simp: distinct_map dest: inj_onD)
  with y db' show ?thesis by force
qed

lemma consume_spends:
  assumes "auth_ok db" and "getInvitationByTokenHash (cyHash (svCrypto sv) tok) db = Some i"
    and "db_consumeInvitation (iId i) u now db = (db', True)"
  shows "token_spent sv tok db'"
proof -
  from assms(1) have "distinct (map iId (dInvitations db))" by (simp add: auth_ok_defs)
  from update_invitation_marks [OF assms(3) [unfolded db_consumeInvitation_def] _ this, of "iId i" i]
    getInvitation_Some [OF assms(2)]
  show ?thesis by (auto simp: token_spent_def intro!: bexI [of _ "i\<lparr>iConsumedAt := Some now, iConsumedBy := Some u\<rparr>"])
qed

lemma revoke_spends:
  assumes "auth_ok db" and "getInvitationByTokenHash (cyHash (svCrypto sv) tok) db = Some i"
    and "db_revokeInvitation (iId i) now db = (db', True)"
  shows "token_spent sv tok db'"
proof -
  from assms(1) have "distinct (map iId (dInvitations db))" by (simp add: auth_ok_defs)
  from update_invitation_marks [OF assms(3) [unfolded db_revokeInvitation_def] _ this, of "iId i" i]
    getInvitation_Some [OF assms(2)]
  show ?thesis by (auto simp: token_spent_def intro!: bexI [of _ "i\<lparr>iRevokedAt := Some now\<rparr>"])
qed

lemma event_invitations [simp]: "dInvitations (insertAccountEvent uuid type a s b m now db) = dInvitations db"
  by (simp add: insertAccountEvent_def)

lemma spent_cong: "dInvitations db' = dInvitations db \<Longrightarrow> token_spent sv tok db' = token_spent sv tok db"
  by (simp add: token_spent_def)

lemma upsert_invitations: "upsertBoardMember m db = Inr db' \<Longrightarrow> dInvitations db' = dInvitations db"
  by (auto simp: upsertBoardMember_def res_simps)

lemma apply_invitations: "applyInvitedMembership i u now db = Inr db' \<Longrightarrow> dInvitations db' = dInvitations db"
  by (auto simp: applyInvitedMembership_def dest: upsert_invitations split: option.splits if_splits)

lemma insertSession_invitations: "insertSession x db = Inr db' \<Longrightarrow> dInvitations db' = dInvitations db"
  by (auto simp: insertSession_def res_simps)

lemma insertUser_invitations: "insertUser x db = Inr db' \<Longrightarrow> dInvitations db' = dInvitations db"
  by (auto simp: insertUser_def res_simps)

lemma consumeInvitation_Inr:
  assumes "consumeInvitation sv dr now u tok db = Inr (db', r)"
  obtains i db1 db2 where "requireActiveUser u db \<in> range Inr"
    and "getInvitationByTokenHash (cyHash (svCrypto sv) tok) db = Some i"
    and "iConsumedAt i = None" "iRevokedAt i = None"
    and "db_consumeInvitation (iId i) u now db = (db1, True)"
    and "applyInvitedMembership i u now db1 = Inr db2" and "r = i\<lparr>iConsumedAt := Some now\<rparr>"
    and "db' = insertAccountEvent (drEvent dr) ''invitation.consumed'' (Some u) (Some u) (iBoard i)
               [(''invitationId'', JStr (iId i))] now db2"
proof -
  from assms obtain usr where usr: "requireActiveUser u db = Inr usr" by (auto simp: consumeInvitation_def res_simps)
  then have id: "uId usr = u" by (auto simp: requireActiveUser_def split: option.splits if_splits dest: getUserById_Some)
  from assms obtain i where i: "getInvitationByTokenHash (cyHash (svCrypto sv) tok) db = Some i"
    by (auto simp: consumeInvitation_def res_simps split: option.splits)
  obtain db1 okc where c: "db_consumeInvitation (iId i) u now db = (db1, okc)" by fastforce
  with assms usr id i that [of i db1] show thesis
    by (auto simp: consumeInvitation_def res_simps dest!: usable_fresh)
qed

lemma register_Inr:
  assumes "register_transaction sv dr now boot u (Some tok) db = Inr db'"
  obtains i db1 db2 where "getInvitationByTokenHash (cyHash (svCrypto sv) tok) db = Some i"
    and "iConsumedAt i = None" "iRevokedAt i = None"
    and "insertUser (u\<lparr>uIsAdmin := (countUsers db = 0)\<rparr>) db = Inr db1"
    and "db_consumeInvitation (iId i) (uId u) now db1 = (db2, True)" and "dInvitations db' = dInvitations db2"
proof -
  from assms obtain i where i: "getInvitationByTokenHash (cyHash (svCrypto sv) tok) db = Some i"
    by (auto simp: register_transaction_def Let_def res_simps split: option.splits if_splits)
  from assms obtain db1 where ins: "insertUser (u\<lparr>uIsAdmin := (countUsers db = 0)\<rparr>) db = Inr db1"
    by (auto simp: register_transaction_def Let_def res_simps)
  obtain db2 okc where c: "db_consumeInvitation (iId i) (uId u) now db1 = (db2, okc)" by fastforce
  from assms i ins c have "iConsumedAt i = None \<and> iRevokedAt i = None \<and> okc \<and> dInvitations db' = dInvitations db2"
    by (cases "validOpaqueToken tok")
      (auto simp: register_transaction_def Let_def res_simps dest!: usable_fresh insertSession_invitations apply_invitations)
  with i ins c that [of i db1 db2] show thesis by simp
qed

text \<open>A call that uses up the token it is given, and a call that would use it.\<close>

definition uses_up :: "service \<Rightarrow> string \<Rightarrow> adb \<Rightarrow> adb \<Rightarrow> bool" where
  "uses_up sv tok db db' \<longleftrightarrow>
     (\<exists>dr now u r. consumeInvitation sv dr now u tok db = Inr (db', r)) \<or>
     (\<exists>dr salt now boot inp r. rgInvitation inp = Some tok \<and>
        registerInternal sv dr salt now boot inp db = Inr (db', r)) \<or>
     (\<exists>dr now u. revokeInvitation sv dr now u tok db = Inr (db', True))"

lemma registerInternal_token:
  assumes "registerInternal sv dr salt now boot inp db = Inr (db', r)" and "rgInvitation inp = Some tok" and "tok \<noteq> []"
  obtains u where "register_transaction sv dr now boot u (Some tok) db = Inr db'"
  using assms by (auto simp: registerInternal_def truthy_def res_simps)

lemma revokeInvitation_True:
  assumes "revokeInvitation sv dr now u tok db = Inr (db', True)"
  obtains i db1 where "getInvitationByTokenHash (cyHash (svCrypto sv) tok) db = Some i"
    and "iConsumedAt i = None" "iRevokedAt i = None"
    and "db_revokeInvitation (iId i) now db = (db1, True)" and "dInvitations db' = dInvitations db1"
proof -
  from assms obtain i where i: "getInvitationByTokenHash (cyHash (svCrypto sv) tok) db = Some i"
    by (auto simp: revokeInvitation_def res_simps split: option.splits if_splits)
  obtain db1 okc where c: "db_revokeInvitation (iId i) now db = (db1, okc)" by fastforce
  from assms i c have "iConsumedAt i = None \<and> iRevokedAt i = None \<and> okc \<and> dInvitations db' = dInvitations db1"
    by (auto simp: revokeInvitation_def res_simps split: if_splits)
  with i c that [of i db1] show thesis by simp
qed

lemma uses_up_spends:
  assumes ok: "auth_ok db" and tok: "tok \<noteq> []" and use: "uses_up sv tok db db'"
  shows "token_spent sv tok db'"
proof -
  consider (consume) dr now u r where "consumeInvitation sv dr now u tok db = Inr (db', r)"
    | (register) dr salt now boot inp r where "rgInvitation inp = Some tok" "registerInternal sv dr salt now boot inp db = Inr (db', r)"
    | (revoke) dr now u where "revokeInvitation sv dr now u tok db = Inr (db', True)"
    using use unfolding uses_up_def by blast
  then show ?thesis
  proof cases
    case consume
    then obtain i db1 db2 where i: "getInvitationByTokenHash (cyHash (svCrypto sv) tok) db = Some i"
      and c: "db_consumeInvitation (iId i) u now db = (db1, True)" and ap: "applyInvitedMembership i u now db1 = Inr db2"
      and same: "dInvitations db' = dInvitations db2"
      by (rule consumeInvitation_Inr) simp
    from consume_spends [OF ok i c] show ?thesis
      using spent_cong [of db' db1] same apply_invitations [OF ap] by simp
  next
    case register
    from register(2,1) tok obtain u where "register_transaction sv dr now boot u (Some tok) db = Inr db'"
      by (rule registerInternal_token)
    then obtain i db1 db2 where i: "getInvitationByTokenHash (cyHash (svCrypto sv) tok) db = Some i"
      and ins: "insertUser (u\<lparr>uIsAdmin := (countUsers db = 0)\<rparr>) db = Inr db1"
      and c: "db_consumeInvitation (iId i) (uId u) now db1 = (db2, True)" and same: "dInvitations db' = dInvitations db2"
      by (rule register_Inr)
    from insertUser_safe [OF ins] ok have ok1: "auth_ok db1" by (simp add: auth_safe_def)
    have "getInvitationByTokenHash (cyHash (svCrypto sv) tok) db1 = Some i"
      using i insertUser_invitations [OF ins] by (simp add: getInvitationByTokenHash_def)
    from consume_spends [OF ok1 this c] show ?thesis using spent_cong same by blast
  next
    case revoke
    then obtain i db1 where i: "getInvitationByTokenHash (cyHash (svCrypto sv) tok) db = Some i"
      and c: "db_revokeInvitation (iId i) now db = (db1, True)" and same: "dInvitations db' = dInvitations db1"
      by (rule revokeInvitation_True)
    from revoke_spends [OF ok i c] show ?thesis using spent_cong same by blast
  qed
qed

lemma uses_up_safe: "uses_up sv tok db db' \<Longrightarrow> auth_safe db db'"
  unfolding uses_up_def by (auto dest: consumeInvitation_safe registerInternal_safe revokeInvitation_safe)

lemma spent_unusable:
  assumes ok: "auth_ok db" and spent: "token_spent sv tok db" and tok: "tok \<noteq> []"
  shows "\<not> uses_up sv tok db db'"
proof
  assume use: "uses_up sv tok db db'"
  from spent_found [OF ok spent] obtain i where i: "getInvitationByTokenHash (cyHash (svCrypto sv) tok) db = Some i"
    and used: "iConsumedAt i \<noteq> None \<or> iRevokedAt i \<noteq> None" .
  consider (consume) dr now u r where "consumeInvitation sv dr now u tok db = Inr (db', r)"
    | (register) dr salt now boot inp r where "rgInvitation inp = Some tok" "registerInternal sv dr salt now boot inp db = Inr (db', r)"
    | (revoke) dr now u where "revokeInvitation sv dr now u tok db = Inr (db', True)"
    using use unfolding uses_up_def by blast
  then show False
  proof cases
    case consume
    then show False by (rule consumeInvitation_Inr) (use i used in auto)
  next
    case register
    from register(2,1) tok obtain u where "register_transaction sv dr now boot u (Some tok) db = Inr db'"
      by (rule registerInternal_token)
    then show False by (rule register_Inr) (use i used in auto)
  next
    case revoke
    then show False by (rule revokeInvitation_True) (use i used in auto)
  qed
qed

text \<open>
  C14: An invitation works once. After a call that used its token up (an account redeemed it, somebody
  registered with it, or it was revoked), no later call, in any later state of the database, redeems
  it, registers with it or revokes it again.
\<close>
theorem invitation_single_use:
  assumes "auth_runs sv empty_adb db" and "tok \<noteq> []" and "uses_up sv tok db db1" and "auth_runs sv db1 db2"
  shows "\<not> uses_up sv tok db2 db3"
proof -
  have ok: "auth_ok db" by (rule reachable_adb_ok [OF assms(1)])
  with uses_up_safe [OF assms(3)] have ok1: "auth_ok db1" by (simp add: auth_safe_def)
  from runs_evolve [OF ok1 assms(4)] have "auth_ok db2" "auth_evolves db1 db2" by simp_all
  with uses_up_spends [OF ok assms(2,3)] show ?thesis
    by (intro spent_unusable) (auto intro: spent_stays simp: assms(2))
qed

lemma demo_uses_up: "uses_up demo_service (replicate 43 CHR ''c'') demo_open demo_db"
  using demo_second_result unfolding uses_up_def
  by (intro disjI2 disjI1 exI [of _ "demo_draws CHR ''d''"] exI [of _ "replicate 16 66"] exI [of _ 4000]
      exI [of _ False] exI conjI) (simp_all only: register_input.simps)

theorem invitation_single_use_witness:
  "uses_up demo_service (replicate 43 CHR ''c'') demo_open demo_db \<and>
   \<not> uses_up demo_service (replicate 43 CHR ''c'') demo_off empty_adb"
  using demo_uses_up invitation_single_use [OF demo_open_run _ demo_uses_up demo_off_run] by simp

section \<open>Sessions\<close>

lemma session_row:
  assumes "auth_ok db" and "s \<in> set (dSessions db)" and "sTokenHash s = h"
  shows "getSessionByTokenHash h db = Some s"
proof -
  from assms(1) have "distinct (map sTokenHash (dSessions db))" by (simp add: auth_ok_defs)
  from distinct_find [OF this assms(2)] assms(3) show ?thesis by (simp add: getSessionByTokenHash_def)
qed

lemma getSession_Some: "getSessionByTokenHash h db = Some s \<Longrightarrow> s \<in> set (dSessions db) \<and> sTokenHash s = h"
  by (auto simp: getSessionByTokenHash_def find_Some_iff)

text \<open>
  C15: A token authenticates exactly when it is well formed and its hash is that of a session row that
  is neither revoked nor expired and whose user is not disabled. The answer is that user with that
  session, seen now, and nothing but the time the session was seen changes.
\<close>
theorem session_sound:
  assumes "auth_runs sv empty_adb db"
  shows "snd (getCurrentSession sv now tok db) = Some (u, s') \<longleftrightarrow>
    validOpaqueToken tok \<and>
    (\<exists>s\<in>set (dSessions db). sTokenHash s = cyHash (svCrypto sv) tok \<and> sRevokedAt s = None \<and> now < sExpiresAt s \<and>
       u \<in> set (dUsers db) \<and> uId u = sUserId s \<and> uDisabledAt u = None \<and> s' = s\<lparr>sLastSeenAt := now\<rparr>)"
    (is "?l \<longleftrightarrow> ?r")
proof
  have ok: "auth_ok db" by (rule reachable_adb_ok [OF assms])
  show "?r" if ?l using that
    by (auto simp: getCurrentSession_def split: if_splits option.splits dest!: getSession_Some getUserById_Some)
  assume r: ?r
  then obtain s where s: "s \<in> set (dSessions db)" "sTokenHash s = cyHash (svCrypto sv) tok" "sRevokedAt s = None"
    "now < sExpiresAt s" "u \<in> set (dUsers db)" "uId u = sUserId s" "uDisabledAt u = None" "s' = s\<lparr>sLastSeenAt := now\<rparr>"
    by blast
  from ok have "distinct (map uId (dUsers db))" by (simp add: auth_ok_defs)
  from distinct_find [OF this s(5)] s(6) have "getUserById (sUserId s) db = Some u" by (simp add: getUserById_def)
  with session_row [OF ok s(1,2)] s r show ?l by (simp add: getCurrentSession_def)
qed

lemma demo_session: "snd (getCurrentSession demo_service 4500 (replicate 43 CHR ''d'') demo_db) =
    Some (dUsers demo_db ! 1, (dSessions demo_db ! 1)\<lparr>sLastSeenAt := 4500\<rparr>)"
  by code_simp

theorem session_sound_witness:
  "auth_runs demo_service empty_adb demo_db \<and>
   (\<exists>s\<in>set (dSessions demo_db). sRevokedAt s = None \<and> 4500 < sExpiresAt s)"
  using demo_db_run demo_session
    session_sound [OF demo_db_run, of 4500 "replicate 43 CHR ''d''" "dUsers demo_db ! 1"
      "(dSessions demo_db ! 1)\<lparr>sLastSeenAt := 4500\<rparr>"] by blast

lemma dead_session:
  assumes "auth_ok db" and "s \<in> set (dSessions db)" and "sRevokedAt s \<noteq> None" and "sTokenHash s = cyHash (svCrypto sv) tok"
  shows "snd (getCurrentSession sv now tok db) = None"
  using session_row [OF assms(1,2,4)] assms(3) by (simp add: getCurrentSession_def)

lemma session_persists:
  assumes "auth_evolves db db'" and "s \<in> set (dSessions db)" and "sRevokedAt s \<noteq> None"
  obtains s' where "s' \<in> set (dSessions db')" and "sTokenHash s' = sTokenHash s" and "sRevokedAt s' \<noteq> None"
proof -
  from assms(1,2) obtain s' where s': "s' \<in> set (dSessions db')" "sTokenHash s' = sTokenHash s"
    "sRevokedAt s \<noteq> None \<longrightarrow> sRevokedAt s' = sRevokedAt s"
    unfolding auth_evolves_def sessions_evolve_def by blast
  with assms(3) that show thesis by simp
qed

lemma event_sessions [simp]: "dSessions (insertAccountEvent uuid type a s b m now db) = dSessions db"
  by (simp add: insertAccountEvent_def)

lemma setUserDisabled_sessions:
  assumes "setUserDisabled dr now actor subject True db = Inr db'" and "s \<in> set (dSessions db)" and "sUserId s = subject"
  obtains s' where "s' \<in> set (dSessions db')" and "sTokenHash s' = sTokenHash s" and "sRevokedAt s' \<noteq> None"
proof -
  from assms(1) have same: "dSessions db' = dSessions (revokeSessionsForUser subject now db)"
    by (auto simp: setUserDisabled_def res_simps Let_def set_user_disabled_def update_user_def
        revokeSessionsForUser_def update_sessions_def split: option.splits)
  let ?f = "\<lambda>s. if sUserId s = subject \<and> sRevokedAt s = None then s\<lparr>sRevokedAt := Some now\<rparr> else s"
  have "?f s \<in> set (dSessions db')" using assms(2) unfolding same by (auto simp: revokeSessionsForUser_def update_sessions_def)
  moreover have "sTokenHash (?f s) = sTokenHash s" "sRevokedAt (?f s) \<noteq> None" using assms(3) by auto
  ultimately show thesis by (rule that)
qed

text \<open>
  C16: Disabling an account ends its sessions for good: no token of a session it had then authenticates
  in any later state, even after the account has been enabled again.
\<close>
theorem disabling_ends_sessions:
  assumes "auth_runs sv empty_adb db" and "setUserDisabled dr now actor subject True db = Inr db1"
    and "s \<in> set (dSessions db)" and "sUserId s = subject" and "sTokenHash s = cyHash (svCrypto sv) tok"
    and "auth_runs sv db1 db2"
  shows "snd (getCurrentSession sv later tok db2) = None"
proof -
  have ok: "auth_ok db" by (rule reachable_adb_ok [OF assms(1)])
  with setUserDisabled_safe [OF assms(2)] have ok1: "auth_ok db1" by (simp add: auth_safe_def)
  obtain s1 where s1: "s1 \<in> set (dSessions db1)" "sTokenHash s1 = sTokenHash s" "sRevokedAt s1 \<noteq> None"
    using setUserDisabled_sessions [OF assms(2-4)] by metis
  from runs_evolve [OF ok1 assms(6)] obtain s2 where "s2 \<in> set (dSessions db2)" "sTokenHash s2 = sTokenHash s1"
    "sRevokedAt s2 \<noteq> None" and "auth_ok db2" using session_persists [OF _ s1(1,3)] by metis
  with s1(2) assms(5) show ?thesis by (intro dead_session [of db2 s2]) simp_all
qed

lemma demo_row: "dSessions demo_db ! 1 \<in> set (dSessions demo_db)" "sUserId (dSessions demo_db ! 1) = ''user-d''"
  "sTokenHash (dSessions demo_db ! 1) = cyHash (svCrypto demo_service) (replicate 43 CHR ''d'')"
proof -
  have "length (dSessions demo_db) = 2" by code_simp
  then show "dSessions demo_db ! 1 \<in> set (dSessions demo_db)" by simp
  show "sUserId (dSessions demo_db ! 1) = ''user-d''" by code_simp
  show "sTokenHash (dSessions demo_db ! 1) = cyHash (svCrypto demo_service) (replicate 43 CHR ''d'')" by code_simp
qed

theorem disabling_ends_sessions_witness:
  "snd (getCurrentSession demo_service 4500 (replicate 43 CHR ''d'') demo_db) \<noteq> None \<and>
   snd (getCurrentSession demo_service 6000 (replicate 43 CHR ''d'') demo_off) = None"
  using demo_session disabling_ends_sessions [OF demo_db_run demo_off_result demo_row Stop] by simp

section \<open>Memberships\<close>

definition member_rank :: "string \<Rightarrow> string \<Rightarrow> adb \<Rightarrow> nat" where
  "member_rank b u db = (case getBoardMember b u db of None \<Rightarrow> 0 | Some m \<Rightarrow> role_rank (mRole m))"

lemma member_rank_cong: "dMembers db' = dMembers db \<Longrightarrow> member_rank b u db' = member_rank b u db"
  by (simp add: member_rank_def getBoardMember_def)

lemma event_members [simp]: "dMembers (insertAccountEvent uuid type a s b m now db) = dMembers db"
  by (simp add: insertAccountEvent_def)

lemma find_map_update:
  assumes "\<And>x. P x \<Longrightarrow> P (f x)" and "\<And>x. Q x \<Longrightarrow> \<not> P x \<Longrightarrow> P (f x) = False"
  shows "find P (map (\<lambda>x. if Q x then f x else x) xs) = map_option (\<lambda>x. if Q x then f x else x) (find P xs)"
  using assms by (induction xs) auto

lemma find_snoc: "find P (xs @ [x]) = (case find P xs of None \<Rightarrow> if P x then Some x else None | Some y \<Rightarrow> Some y)"
  by (induction xs) auto

lemma find_snoc_miss: "\<not> P x \<Longrightarrow> find P (xs @ [x]) = find P xs"
  by (induction xs) auto

lemma upsert_rank:
  assumes "upsertBoardMember m db = Inr db'"
  shows "member_rank b u db' = (if b = mBoard m \<and> u = mUser m then role_rank (mRole m) else member_rank b u db)"
proof (cases "getBoardMember (mBoard m) (mUser m) db")
  case None
  with assms have db': "db' = db\<lparr>dMembers := dMembers db @ [m]\<rparr>" by (auto simp: upsertBoardMember_def res_simps)
  show ?thesis
  proof (cases "b = mBoard m \<and> u = mUser m")
    case True
    with None show ?thesis unfolding db' by (simp add: member_rank_def getBoardMember_def find_snoc)
  next
    case False
    then have "find (\<lambda>x. mBoard x = b \<and> mUser x = u) (dMembers db @ [m]) = find (\<lambda>x. mBoard x = b \<and> mUser x = u) (dMembers db)"
      by (intro find_snoc_miss) auto
    with False show ?thesis unfolding db' by (auto simp: member_rank_def getBoardMember_def)
  qed
next
  case (Some y)
  let ?f = "\<lambda>x. x\<lparr>mRole := mRole m, mUpdatedAt := mUpdatedAt m\<rparr>"
  let ?Q = "\<lambda>x. mBoard x = mBoard m \<and> mUser x = mUser m"
  from Some assms have db': "db' = db\<lparr>dMembers := map (\<lambda>x. if ?Q x then ?f x else x) (dMembers db)\<rparr>"
    by (auto simp: upsertBoardMember_def res_simps)
  have "getBoardMember b u db' = map_option (\<lambda>x. if ?Q x then ?f x else x) (getBoardMember b u db)"
    unfolding db' getBoardMember_def by (simp add: find_map_update)
  with Some show ?thesis
    by (cases "getBoardMember b u db") (auto simp: member_rank_def dest: getBoardMember_Some)
qed

lemma apply_rank:
  assumes "applyInvitedMembership i u now db = Inr db'" and "(iBoard i = None) = (iRole i = None)"
  shows "member_rank b v db' = (if v = u \<and> iBoard i = Some b
    then max (member_rank b v db) (case iRole i of None \<Rightarrow> 0 | Some r \<Rightarrow> role_rank r) else member_rank b v db)"
proof (cases "iBoard i")
  case None
  with assms show ?thesis by (simp add: applyInvitedMembership_def)
next
  case (Some bd)
  with assms(2) obtain r where r: "iRole i = Some r" by auto
  have none: "member_rank bd u db = 0" if "getBoardMember bd u db = None" using that by (simp add: member_rank_def)
  have some: "member_rank bd u db = role_rank (mRole m)" if "getBoardMember bd u db = Some m" for m
    using that by (simp add: member_rank_def)
  show ?thesis
  proof (cases "getBoardMember bd u db")
    case None
    with assms(1) Some r none [OF None] show ?thesis
      by (auto simp: applyInvitedMembership_def dest!: upsert_rank [where b = b and u = v])
  next
    case found: (Some m)
    with assms(1) Some r some [OF found] show ?thesis
      by (cases "role_rank r \<le> role_rank (mRole m)")
        (auto simp: applyInvitedMembership_def max_def dest!: upsert_rank [where b = b and u = v])
  qed
qed

text \<open>
  C17: Redeeming an invitation never lowers a role and never makes an owner. On the invitation's board
  the redeeming account gets the higher of the role it had and the role invited to; every other
  membership is as it was, and exactly those who owned a board before own it after.
\<close>
theorem invited_role:
  assumes "auth_runs sv empty_adb db" and "consumeInvitation sv dr now u tok db = Inr (db', i)"
  shows "member_rank b v db' = (if v = u \<and> iBoard i = Some b
      then max (member_rank b v db) (case iRole i of None \<Rightarrow> 0 | Some r \<Rightarrow> role_rank r) else member_rank b v db) \<and>
    (member_rank b v db' = 3 \<longleftrightarrow> member_rank b v db = 3)"
proof -
  have ok: "auth_ok db" by (rule reachable_adb_ok [OF assms(1)])
  from assms(2) obtain x db1 db2 where x: "getInvitationByTokenHash (cyHash (svCrypto sv) tok) db = Some x"
    and c: "db_consumeInvitation (iId x) u now db = (db1, True)" and ap: "applyInvitedMembership x u now db1 = Inr db2"
    and i: "i = x\<lparr>iConsumedAt := Some now\<rparr>" and same: "dMembers db' = dMembers db2"
    by (rule consumeInvitation_Inr) simp
  from getInvitation_Some [OF x] ok have shape: "(iBoard x = None) = (iRole x = None)" "iRole x \<noteq> Some Owner"
    by (auto simp: auth_ok_def invitations_ok_def invitation_ok_def)
  from c have "dMembers db1 = dMembers db" by (auto simp: db_consumeInvitation_def update_invitation_def)
  then have rank1: "member_rank b v db1 = member_rank b v db" by (rule member_rank_cong)
  have rank: "member_rank b v db' = (if v = u \<and> iBoard x = Some b
      then max (member_rank b v db) (case iRole x of None \<Rightarrow> 0 | Some r \<Rightarrow> role_rank r) else member_rank b v db)"
    unfolding member_rank_cong [OF same] apply_rank [OF ap shape(1)] rank1 ..
  have "(case iRole x of None \<Rightarrow> 0 | Some r \<Rightarrow> role_rank r) \<le> 2"
    using shape(2) by (auto simp: role_rank_def split: option.split board_role.split)
  moreover have "member_rank b v db \<le> 3"
    by (auto simp: member_rank_def role_rank_def split: option.split board_role.split)
  ultimately have "member_rank b v db' = 3 \<longleftrightarrow> member_rank b v db = 3" unfolding rank by auto
  with rank show ?thesis unfolding i by simp
qed

definition demo_invite_owner :: "auth_error + (adb \<times> invitation_rec)" where
  "demo_invite_owner = consumeInvitation demo_service (demo_draws CHR ''f'') 4000 ''user-a'' (replicate 43 CHR ''c'') demo_open"

text \<open>The owner of the board redeems the editor invitation to it, and stays owner.\<close>

theorem invited_role_witness:
  "\<exists>db' i. consumeInvitation demo_service (demo_draws CHR ''f'') 4000 ''user-a'' (replicate 43 CHR ''c'') demo_open = Inr (db', i) \<and>
     member_rank ''board-1'' ''user-a'' db' = 3"
proof -
  have "is_Inr demo_invite_owner" by code_simp
  then obtain db' i where step: "consumeInvitation demo_service (demo_draws CHR ''f'') 4000 ''user-a''
      (replicate 43 CHR ''c'') demo_open = Inr (db', i)"
    unfolding demo_invite_owner_def by (metis is_InrE surj_pair)
  have "member_rank ''board-1'' ''user-a'' demo_open = 3" by code_simp
  with step invited_role [OF demo_open_run step, of "''board-1''" "''user-a''"] show ?thesis by blast
qed

lemma filter_map_other: "(\<And>x. Q x \<Longrightarrow> \<not> P x \<and> \<not> P (f x)) \<Longrightarrow> filter P (map (\<lambda>x. if Q x then f x else x) xs) = filter P xs"
  by (induction xs) auto

lemma update_board_frame: "(\<And>b. bId (f b) = bId b) \<Longrightarrow>
    filter (\<lambda>b. bId b \<noteq> i) (dBoards (update_board i f db)) = filter (\<lambda>b. bId b \<noteq> i) (dBoards db)"
  by (simp add: update_board_def filter_map_other)

lemma update_board_members: "dMembers (update_board i f db) = dMembers db"
  by (simp add: update_board_def)

lemma event_boards [simp]: "dBoards (insertAccountEvent uuid type a s b m now db) = dBoards db"
  by (simp add: insertAccountEvent_def)

lemma upsert_frame: "upsertBoardMember m db = Inr db' \<Longrightarrow> dBoards db' = dBoards db \<and>
    filter (\<lambda>x. mBoard x \<noteq> mBoard m) (dMembers db') = filter (\<lambda>x. mBoard x \<noteq> mBoard m) (dMembers db)"
  using filter_map_other [of "\<lambda>x. mBoard x = mBoard m \<and> mUser x = mUser m" "\<lambda>x. mBoard x \<noteq> mBoard m"
      "\<lambda>x. x\<lparr>mRole := mRole m, mUpdatedAt := mUpdatedAt m\<rparr>" "dMembers db"]
  by (auto simp: upsertBoardMember_def res_simps)

lemma remove_frame: "dBoards (removeBoardMember i u db) = dBoards db \<and>
    filter (\<lambda>x. mBoard x \<noteq> i) (dMembers (removeBoardMember i u db)) = filter (\<lambda>x. mBoard x \<noteq> i) (dMembers db)"
  by (auto simp: removeBoardMember_def intro!: filter_cong)

text \<open>What the calls of an owner leave alone.\<close>

definition other_boards_same :: "string \<Rightarrow> adb \<Rightarrow> adb \<Rightarrow> bool" where
  "other_boards_same i db db' \<longleftrightarrow>
     filter (\<lambda>b. bId b \<noteq> i) (dBoards db') = filter (\<lambda>b. bId b \<noteq> i) (dBoards db) \<and>
     filter (\<lambda>m. mBoard m \<noteq> i) (dMembers db') = filter (\<lambda>m. mBoard m \<noteq> i) (dMembers db)"

lemma renameBoard_frame: "renameBoard sv dr now u i name db = Inr db' \<Longrightarrow> other_boards_same i db db'"
  by (auto simp: renameBoard_def db_renameBoard_def other_boards_same_def update_board_frame update_board_members res_simps
      dest!: requireOwner_board)

lemma deleteBoard_frame: "deleteBoard dr now u i agent reason db = Inr db' \<Longrightarrow> other_boards_same i db db'"
  by (auto simp: deleteBoard_def setBoardDeleted_def Let_def other_boards_same_def update_board_frame update_board_members res_simps
      split: option.splits if_splits dest!: requireOwner_board)

lemma restoreBoard_frame: "restoreBoard dr now u i db = Inr db' \<Longrightarrow> other_boards_same i db db'"
  by (auto simp: restoreBoard_def setBoardDeleted_def other_boards_same_def update_board_frame update_board_members res_simps
      split: if_splits dest!: requireOwner_board)

lemma setBoardMemberRole_frame: "setBoardMemberRole dr now u i subject role db = Inr db' \<Longrightarrow> other_boards_same i db db'"
  by (auto simp: setBoardMemberRole_def other_boards_same_def remove_frame res_simps
      split: option.splits dest!: requireOwner_board upsert_frame)

lemmas owner_call_frames = renameBoard_frame deleteBoard_frame restoreBoard_frame setBoardMemberRole_frame

text \<open>
  C18: Only the active owner of a board renames, deletes, restores it or changes its members: when one
  of these calls succeeds, the board exists, the caller is its owner and is not disabled; and no board
  but that one has another name, deletion mark or membership afterwards.
\<close>
theorem owner_only:
  assumes "auth_runs sv empty_adb db"
    and "renameBoard sv dr now u i name db = Inr db' \<or> deleteBoard dr now u i agent reason db = Inr db' \<or>
      restoreBoard dr now u i db = Inr db' \<or> setBoardMemberRole dr now u i subject role db = Inr db'"
  shows "(\<exists>b\<in>set (dBoards db). bId b = i \<and> bOwner b = u) \<and>
    (\<exists>a\<in>set (dUsers db). uId a = u \<and> uDisabledAt a = None) \<and>
    other_boards_same i db db'"
proof -
  have ok: "auth_ok db" by (rule reachable_adb_ok [OF assms(1)])
  from assms(2) have "\<exists>d b. requireOwner u i d db = Inr b"
    by (auto simp: renameBoard_def deleteBoard_def restoreBoard_def setBoardMemberRole_def res_simps)
  then obtain d b where r: "requireOwner u i d db = Inr b" by blast
  from r have user: "requireActiveUser u db \<in> range Inr" and m: "\<exists>m\<in>set (dMembers db). mBoard m = i \<and> mUser m = u \<and> mRole m = Owner"
    by (auto simp: requireOwner_def requireBoardMember_def visible_board_def validateBoardId_def res_simps
        split: option.splits if_splits dest!: getBoardMember_Some)
  from m obtain mm where mm: "mm \<in> set (dMembers db)" "mBoard mm = i" "mUser mm = u" "mRole mm = Owner" by blast
  with ok obtain b where "b \<in> set (dBoards db)" "bId b = i" "bOwner b = u"
    unfolding auth_ok_def members_ok_def by metis
  then have own: "\<exists>b\<in>set (dBoards db). bId b = i \<and> bOwner b = u" by blast
  from user have act: "\<exists>a\<in>set (dUsers db). uId a = u \<and> uDisabledAt a = None"
    by (auto simp: requireActiveUser_def split: option.splits if_splits dest: getUserById_Some)
  from assms(2) have "other_boards_same i db db'" by (elim disjE) (erule owner_call_frames)+
  with own act show ?thesis by blast
qed

definition demo_rename :: "auth_error + adb" where
  "demo_rename = renameBoard demo_service (demo_draws CHR ''g'') 5000 ''user-a'' ''board-1'' ''Roadmap'' demo_db"

theorem owner_only_witness:
  "\<exists>db'. renameBoard demo_service (demo_draws CHR ''g'') 5000 ''user-a'' ''board-1'' ''Roadmap'' demo_db = Inr db' \<and>
     (\<exists>b\<in>set (dBoards demo_db). bId b = ''board-1'' \<and> bOwner b = ''user-a'')"
proof -
  have "is_Inr demo_rename" by code_simp
  then obtain db' where step: "renameBoard demo_service (demo_draws CHR ''g'') 5000 ''user-a'' ''board-1'' ''Roadmap'' demo_db = Inr db'"
    unfolding demo_rename_def by (metis is_InrE)
  from owner_only [OF demo_db_run disjI1 [OF step]] step show ?thesis by blast
qed

section \<open>Passwords\<close>

text \<open>
  What the password code relies on: base64url decodes to the bytes encoded and has no dollar sign,
  the decimal parameters are read back, scrypt returns 32 bytes or fails.
\<close>

definition is_bytes :: "nat list \<Rightarrow> bool" where
  "is_bytes bs \<longleftrightarrow> list_all (\<lambda>b. b < 256) bs"

definition crypto_ok :: "crypto \<Rightarrow> bool" where
  "crypto_ok cy \<longleftrightarrow>
     (\<forall>bs. is_bytes bs \<longrightarrow> cyDecode cy (cyEncode cy bs) = bs \<and> CHR ''$'' \<notin> set (cyEncode cy bs)) \<and>
     (\<forall>p s k. cyScrypt cy p s = Some k \<longrightarrow> is_bytes k \<and> length k = 32) \<and>
     cyNumber cy ''32768'' = Some 32768 \<and> cyNumber cy ''8'' = Some 8 \<and> cyNumber cy ''1'' = Some 1"

text \<open>
  C19: A stored hash accepts the password it was made from, and any other password of at most 1024
  characters exactly when scrypt derives the same key from it with the stored salt.
\<close>
theorem password_roundtrip:
  assumes "crypto_ok cy" and "is_bytes salt" and "16 \<le> length salt" and "length salt \<le> 32"
    and "hashPassword cy salt p = Inr e"
  shows "(verifyPassword cy q e \<longleftrightarrow> length q \<le> 1024 \<and> cyScrypt cy q salt = cyScrypt cy p salt) \<and>
    verifyPassword cy p e"
proof -
  from assms(5) obtain key where k: "cyScrypt cy p salt = Some key" and len: "length p \<le> 1024"
    and e: "e = ''scrypt$v1$32768$8$1$'' @ cyEncode cy salt @ ''$'' @ cyEncode cy key"
    by (auto simp: hashPassword_def validatePassword_def res_simps split: option.splits)
  from assms(1) k have key: "is_bytes key" "length key = 32" by (auto simp: crypto_ok_def)
  have enc: "cyDecode cy (cyEncode cy bs) = bs" "CHR ''$'' \<notin> set (cyEncode cy bs)" if "is_bytes bs" for bs
    using assms(1) that by (auto simp: crypto_ok_def)
  have parts: "split_on CHR ''$'' e = [''scrypt'', ''v1'', ''32768'', ''8'', ''1'', cyEncode cy salt, cyEncode cy key]"
    using enc(2) [OF assms(2)] enc(2) [OF key(1)] unfolding e by (simp add: split_on_append split_on_absent)
  have all: "verifyPassword cy q e \<longleftrightarrow> length q \<le> 1024 \<and> cyScrypt cy q salt = cyScrypt cy p salt" for q
    using assms(1,3,4) key enc(1) [OF assms(2)] enc(1) [OF key(1)] k unfolding verifyPassword_def parts
    by (simp add: crypto_ok_def)
  show ?thesis using all [of q] all [of p] len by simp
qed

lemma char_of_other: "b < 256 \<Longrightarrow> b \<noteq> 36 \<Longrightarrow> b \<noteq> 37 \<Longrightarrow> char_of b \<noteq> CHR ''$'' \<and> char_of b \<noteq> CHR ''%''"
  for b :: nat
proof -
  assume b: "b < 256" "b \<noteq> 36" "b \<noteq> 37"
  then have "(of_char (char_of b :: char) :: nat) = b" by simp
  moreover have "(of_char (CHR ''$'') :: nat) = 36" "(of_char (CHR ''%'') :: nat) = 37" by simp_all
  ultimately show ?thesis using b by metis
qed

lemma demo_decode_encode: "is_bytes bs \<Longrightarrow> demo_decode (demo_encode bs) = bs"
  by (induction bs) (auto simp: is_bytes_def demo_encode_def char_of_other)

lemma demo_encode_dollar: "is_bytes bs \<Longrightarrow> CHR ''$'' \<notin> set (demo_encode bs)"
  by (induction bs) (auto simp: is_bytes_def demo_encode_def char_of_other dest: sym)

lemma demo_crypto_ok: "crypto_ok demo_crypto"
proof -
  have "is_bytes (demo_pad 32 0 (map of_char p))" for p :: string
    by (auto simp: is_bytes_def demo_pad_def list_all_iff dest!: in_set_takeD)
  moreover have "length (demo_pad 32 (0 :: nat) xs) = 32" for xs
    by (simp add: demo_pad_def)
  ultimately show ?thesis
    by (auto simp: crypto_ok_def demo_crypto_def demo_decode_encode demo_encode_dollar)
qed

theorem password_roundtrip_witness:
  "\<exists>e. hashPassword demo_crypto (replicate 16 7) ''correct horse'' = Inr e \<and>
     verifyPassword demo_crypto ''correct horse'' e \<and> \<not> verifyPassword demo_crypto ''wrong'' e"
proof -
  let ?e = "''scrypt$v1$32768$8$1$'' @ demo_encode (replicate 16 7) @ ''$'' @ demo_encode (demo_pad 32 0 (map of_char ''correct horse''))"
  have hash: "hashPassword demo_crypto (replicate 16 7) ''correct horse'' = Inr ?e"
    by (simp add: hashPassword_def validatePassword_def res_simps demo_crypto_def)
  have salt: "is_bytes (replicate 16 7)" "16 \<le> length (replicate 16 (7::nat))" "length (replicate 16 (7::nat)) \<le> 32"
    by (simp_all add: is_bytes_def list_all_iff)
  have "cyScrypt demo_crypto ''wrong'' (replicate 16 7) \<noteq> cyScrypt demo_crypto ''correct horse'' (replicate 16 7)"
    by (simp add: demo_crypto_def demo_pad_def)
  with hash password_roundtrip [OF demo_crypto_ok salt hash] show ?thesis by blast
qed

section \<open>A login that overlaps the disabling of its account\<close>

text \<open>
  \<open>login\<close> checks the account before it waits for scrypt and does not look again: disabled meanwhile,
  the account still gets a session row, after its sessions were revoked, and this session authenticates
  as soon as the account is enabled again.
\<close>

definition race_login :: "auth_error + (adb \<times> string)" where
  "race_login = bindR (login_check demo_service ''grace'' ''battery staple'' demo_db)
     (\<lambda>u. login_commit demo_service (demo_draws CHR ''h'') 5500 u demo_off)"

definition race_enabled :: "auth_error + (adb \<times> string)" where
  "race_enabled = bindR race_login (\<lambda>(db, tok).
     bindR (setUserDisabled (demo_draws CHR ''i'') 6000 ''user-a'' ''user-d'' False db) (\<lambda>db'. Inr (db', tok)))"

lemma login_race:
  "case race_enabled of Inl _ \<Rightarrow> False
   | Inr (db, tok) \<Rightarrow> map_option (uId \<circ> fst) (snd (getCurrentSession demo_service 7000 tok db)) = Some ''user-d''"
  by code_simp

end
