(* ===== verification/Timestamps.thy ===== *)
theory Timestamps
  imports Prelude
begin

text \<open>
  UTC time stamps as the token store writes and reads them: \<open>Date.prototype.toISOString\<close> and the strict
  \<open>parseTimestamp\<close> of \<open>server/token-store.mjs\<close>, over the proleptic Gregorian calendar. Times are
  milliseconds since 1970. The calendar counts years from March, so that the leap day is the last.
\<close>

section \<open>The calendar\<close>

definition leap_year :: "int \<Rightarrow> bool" where
  "leap_year y \<longleftrightarrow> y mod 4 = 0 \<and> (y mod 100 \<noteq> 0 \<or> y mod 400 = 0)"

definition days_in_month :: "int \<Rightarrow> int \<Rightarrow> int" where
  "days_in_month y m = (if m = 2 then (if leap_year y then 29 else 28)
     else if m = 4 \<or> m = 6 \<or> m = 9 \<or> m = 11 then 30 else 31)"

definition era_day :: "int \<Rightarrow> int \<Rightarrow> int" where
  "era_day yoe doy = 365 * yoe + yoe div 4 - yoe div 100 + doy"

definition days_from_civil :: "int \<Rightarrow> int \<Rightarrow> int \<Rightarrow> int" where
  "days_from_civil y m d =
     (let y' = (if m \<le> 2 then y - 1 else y); mp = (if m \<le> 2 then m + 9 else m - 3)
      in (y' div 400) * 146097 + era_day (y' mod 400) ((153 * mp + 2) div 5 + d - 1) - 719468)"

definition year_of_era :: "int \<Rightarrow> int \<times> int" where
  "year_of_era doe =
     (let c = min 3 (doe div 36524); r = doe - c * 36524; q = r div 1461; s = r mod 1461; n = min 3 (s div 365)
      in (100 * c + 4 * q + n, s - 365 * n))"

definition civil_from_days :: "int \<Rightarrow> int \<times> int \<times> int" where
  "civil_from_days z =
     (case year_of_era ((z + 719468) mod 146097) of (yoe, doy) \<Rightarrow>
       let mp = (5 * doy + 2) div 153; m = (if mp < 10 then mp + 3 else mp - 9)
       in (yoe + 400 * ((z + 719468) div 146097) + (if m \<le> 2 then 1 else 0), m, doy - (153 * mp + 2) div 5 + 1))"

lemma div_bounds: "0 < k \<Longrightarrow> k * (x div k) \<le> x \<and> x < k * (x div k) + k" for x k :: int
  using mult_div_mod_eq [of k x] pos_mod_bound [of k x] pos_mod_sign [of k x] by linarith

lemma min_div:
  fixes x k b c :: int
  assumes "0 < k" and "0 \<le> x" and "0 \<le> b" and "x \<le> k * (b + 1)" and "c = min b (x div k)"
  shows "0 \<le> c \<and> c \<le> b \<and> 0 \<le> x - c * k \<and> (x - c * k < k \<or> (c = b \<and> x - c * k \<le> k))"
proof -
  have b: "k * (x div k) \<le> x" "x < k * (x div k) + k" using div_bounds [OF assms(1)] by simp_all
  have "0 \<le> x div k" using assms(1,2) by (simp add: pos_imp_zdiv_nonneg_iff)
  show ?thesis
  proof (cases "x div k \<le> b")
    case True
    then have "c = x div k" using assms(5) by simp
    with b True \<open>0 \<le> x div k\<close> show ?thesis by (simp add: mult.commute)
  next
    case False
    then have c: "c = b" using assms(5) by simp
    from False assms(1) have "k * (b + 1) \<le> k * (x div k)" by (simp add: mult_left_mono)
    with b assms c show ?thesis by (simp add: algebra_simps)
  qed
qed

lemma year_of_era:
  assumes "0 \<le> doe" and "doe < 146097" and "year_of_era doe = (yoe, doy)"
  shows "0 \<le> yoe \<and> yoe < 400 \<and> 0 \<le> doy \<and> doy \<le> 365 \<and> era_day yoe doy = doe \<and>
    (doy = 365 \<longrightarrow> leap_year (yoe + 1))"
proof -
  define c where "c = min 3 (doe div 36524)"
  define r where "r = doe - c * 36524"
  define q where "q = r div 1461"
  define s where "s = r mod 1461"
  define n where "n = min 3 (s div 365)"
  have yoe: "yoe = 100 * c + 4 * q + n" and doy: "doy = s - 365 * n"
    using assms(3) by (simp_all add: year_of_era_def Let_def c_def r_def q_def s_def n_def)
  have c: "0 \<le> c" "c \<le> 3" "0 \<le> r" "r \<le> 36524" "r < 36524 \<or> c = 3"
    using min_div [of 36524 doe 3 c] assms(1,2) by (auto simp: c_def r_def)
  have q: "0 \<le> q" "q \<le> 24" "r = 1461 * q + s" "0 \<le> s" "s \<le> 1460"
    using div_bounds [of 1461 r] c(3,4) pos_mod_bound [of 1461 r] pos_mod_sign [of 1461 r] unfolding q_def s_def
    by (simp_all add: pos_imp_zdiv_nonneg_iff)
  have n: "0 \<le> n" "n \<le> 3" "0 \<le> s - 365 * n" "s - 365 * n \<le> 365" "s - 365 * n = 365 \<longrightarrow> n = 3"
    using min_div [of 365 s 3 n] q(4,5) by (auto simp: n_def)
  have d4: "yoe div 4 = 25 * c + q" and d100: "yoe div 100 = c" and m100: "yoe mod 100 = 4 * q + n" and m4: "yoe mod 4 = n"
    using n(1,2) q(1,2) int_div_pos_eq [of yoe 4 "25 * c + q" n] int_mod_pos_eq [of yoe 4 "25 * c + q" n]
      int_div_pos_eq [of yoe 100 c "4 * q + n"] int_mod_pos_eq [of yoe 100 c "4 * q + n"] by (simp_all add: yoe)
  have day: "era_day yoe doy = doe" unfolding era_day_def d4 d100 unfolding yoe doy using q(3) r_def by simp
  have "leap_year (yoe + 1)" if "doy = 365"
  proof -
    from that n(5) have n3: "n = 3" by (simp add: doy)
    with that have s: "s = 1460" by (simp add: doy)
    have four: "(yoe + 1) mod 4 = 0" using m4 n3 by (simp add: mod_add_eq [of yoe 4 1, symmetric])
    have "(yoe + 1) mod 100 \<noteq> 0 \<or> (yoe + 1) mod 400 = 0"
    proof (cases "q = 24")
      case True
      with q(3) s c have "c = 3" by auto
      with True n3 have "yoe = 399" by (simp add: yoe)
      then show ?thesis by simp
    next
      case False
      with q(1,2) n3 have "(yoe + 1) mod 100 = 4 * q + 4" by (intro int_mod_pos_eq [of _ _ c]) (simp_all add: yoe)
      with q(1) show ?thesis by simp
    qed
    with four show ?thesis by (simp add: leap_year_def)
  qed
  with day n c q show ?thesis by (auto simp: yoe doy)
qed

lemma month_of_year:
  assumes "0 \<le> doy" and "doy \<le> (365::int)" and "mp = (5 * doy + 2) div 153"
  shows "0 \<le> mp \<and> mp \<le> 11 \<and> (153 * mp + 2) div 5 \<le> doy \<and>
    doy - (153 * mp + 2) div 5 + 1 \<le> (if mp = 11 then (if doy = 365 then 29 else 28)
      else if mp = 1 \<or> mp = 3 \<or> mp = 6 \<or> mp = 8 then 30 else 31)"
proof -
  have b: "153 * mp \<le> 5 * doy + 2" "5 * doy + 2 < 153 * mp + 153"
    using div_bounds [of 153 "5 * doy + 2"] unfolding assms(3) by simp_all
  with assms(1,2) have "0 \<le> mp" "mp \<le> 11" by linarith+
  then have mp: "mp = 0 \<or> mp = 1 \<or> mp = 2 \<or> mp = 3 \<or> mp = 4 \<or> mp = 5 \<or> mp = 6 \<or> mp = 7 \<or> mp = 8 \<or> mp = 9 \<or> mp = 10 \<or> mp = 11"
    by presburger
  from mp b assms(1,2) show ?thesis by auto
qed

lemma mod_400: "(y + 400 * k) mod 4 = y mod (4::int)" "(y + 400 * k) mod 100 = y mod (100::int)" "(y + 400 * k) mod 400 = y mod (400::int)"
  using mod_mult_self2 [of y 4 "100 * k"] mod_mult_self2 [of y 100 "4 * k"] by simp_all

lemma leap_year_shift: "leap_year (y + 400 * k) = leap_year y"
  by (simp add: leap_year_def mod_400)

lemma civil_from_days:
  assumes "civil_from_days z = (y, m, d)"
  shows "1 \<le> m \<and> m \<le> 12 \<and> 1 \<le> d \<and> d \<le> days_in_month y m \<and> days_from_civil y m d = z"
proof -
  define e where "e = z + 719468"
  obtain yoe doy where ye: "year_of_era (e mod 146097) = (yoe, doy)" by fastforce
  have r: "0 \<le> yoe" "yoe < 400" "0 \<le> doy" "doy \<le> 365" "era_day yoe doy = e mod 146097"
    "doy = 365 \<longrightarrow> leap_year (yoe + 1)" using year_of_era [OF _ _ ye] by simp_all
  define mp where "mp = (5 * doy + 2) div 153"
  have mp: "0 \<le> mp" "mp \<le> 11" "(153 * mp + 2) div 5 \<le> doy"
    "doy - (153 * mp + 2) div 5 + 1 \<le> (if mp = 11 then (if doy = 365 then 29 else 28)
      else if mp = 1 \<or> mp = 3 \<or> mp = 6 \<or> mp = 8 then 30 else 31)"
    using month_of_year [OF r(3,4) mp_def] by simp_all
  have m: "m = (if mp < 10 then mp + 3 else mp - 9)" and d: "d = doy - (153 * mp + 2) div 5 + 1"
    and y: "y = yoe + 400 * (e div 146097) + (if m \<le> 2 then 1 else 0)"
    using assms ye by (auto simp: civil_from_days_def Let_def e_def [symmetric] mp_def [symmetric])
  have range: "1 \<le> m" "m \<le> 12" "1 \<le> d" using mp(1-3) by (auto simp: m d)
  have shifted: "(if m \<le> 2 then y - 1 else y) = yoe + 400 * (e div 146097)" "(if m \<le> 2 then m + 9 else m - 3) = mp"
    using mp(1,2) by (auto simp: y m)
  have days: "days_from_civil y m d = z"
  proof -
    have "(yoe + 400 * (e div 146097)) div 400 = e div 146097" "(yoe + 400 * (e div 146097)) mod 400 = yoe"
      using r(1,2) by simp_all
    then have "days_from_civil y m d = (e div 146097) * 146097 + era_day yoe doy - 719468"
      unfolding days_from_civil_def Let_def shifted by (simp add: d)
    also have "\<dots> = z" using r(5) by (simp add: e_def)
    finally show ?thesis .
  qed
  have "d \<le> days_in_month y m"
  proof (cases "mp = 11")
    case True
    then have "m = 2" "y = (yoe + 1) + 400 * (e div 146097)" by (simp_all add: m y)
    then have "days_in_month y m = (if leap_year (yoe + 1) then 29 else 28)"
      unfolding days_in_month_def by (simp only: leap_year_shift) simp
    with mp(4) r(6) True show ?thesis by (auto simp: d split: if_splits)
  next
    case False
    with mp show ?thesis by (auto simp: d m days_in_month_def split: if_splits)
  qed
  with range days show ?thesis by simp
qed

section \<open>Text\<close>

definition digit_char :: "int \<Rightarrow> char" where
  "digit_char n = char_of (48 + nat n)"

definition digit_value :: "char \<Rightarrow> int" where
  "digit_value c = int (of_char c) - 48"

fun pad_number :: "nat \<Rightarrow> int \<Rightarrow> string" where
  "pad_number 0 n = []"
| "pad_number (Suc k) n = pad_number k (n div 10) @ [digit_char (n mod 10)]"

definition number_value :: "string \<Rightarrow> int" where
  "number_value s = foldl (\<lambda>n c. 10 * n + digit_value c) 0 s"

lemma digit_char_of: "0 \<le> n \<Longrightarrow> n < 10 \<Longrightarrow> of_char (digit_char n) = 48 + nat n"
  by (simp add: digit_char_def)

lemma digit_char_value: "0 \<le> n \<Longrightarrow> n < 10 \<Longrightarrow> digit_value (digit_char n) = n"
  by (simp add: digit_value_def digit_char_of)

lemma digit_char_digit: "0 \<le> n \<Longrightarrow> n < 10 \<Longrightarrow> is_digit (digit_char n)"
  by (simp add: is_digit_def char_in_def digit_char_of)

lemma pad_number_length [simp]: "length (pad_number k n) = k"
  by (induction k arbitrary: n) auto

lemma pad_number_digits: "0 \<le> n \<Longrightarrow> list_all is_digit (pad_number k n)"
  by (induction k arbitrary: n) (auto simp: digit_char_digit pos_imp_zdiv_nonneg_iff)

lemma pad_number_value: "0 \<le> n \<Longrightarrow> n < 10 ^ k \<Longrightarrow> number_value (pad_number k n) = n"
proof (induction k arbitrary: n)
  case 0
  then show ?case by (simp add: number_value_def)
next
  case (Suc k)
  then have "n div 10 < 10 ^ k" "0 \<le> n div 10" using div_bounds [of 10 n] by (simp_all add: pos_imp_zdiv_nonneg_iff)
  from Suc.IH [OF this(2,1)] show ?case by (simp add: number_value_def digit_char_value)
qed

definition toISOString :: "int \<Rightarrow> string" where
  "toISOString t =
     (case civil_from_days (t div 86400000) of (y, m, d) \<Rightarrow>
       let ms = t mod 86400000 in
       (if 0 \<le> y \<and> y \<le> 9999 then pad_number 4 y
        else (if y < 0 then ''-'' else ''+'') @ pad_number 6 \<bar>y\<bar>) @
       ''-'' @ pad_number 2 m @ ''-'' @ pad_number 2 d @ ''T'' @
       pad_number 2 (ms div 3600000) @ '':'' @ pad_number 2 (ms div 60000 mod 60) @ '':'' @
       pad_number 2 (ms div 1000 mod 60) @ ''.'' @ pad_number 3 (ms mod 1000) @ ''Z'')"

text \<open>\<open>v.slice(i, i + n)\<close>\<close>

definition text_slice :: "nat \<Rightarrow> nat \<Rightarrow> string \<Rightarrow> string" where
  "text_slice i n v = take n (drop i v)"

definition timestamp_format :: "string \<Rightarrow> bool" where
  "timestamp_format v \<longleftrightarrow>
     (length v = 20 \<or> 22 \<le> length v \<and> length v \<le> 24 \<and> text_slice 19 1 v = ''.'') \<and>
     list_all is_digit (text_slice 0 4 v) \<and> text_slice 4 1 v = ''-'' \<and> list_all is_digit (text_slice 5 2 v) \<and>
     text_slice 7 1 v = ''-'' \<and> list_all is_digit (text_slice 8 2 v) \<and> text_slice 10 1 v = ''T'' \<and>
     list_all is_digit (text_slice 11 2 v) \<and> text_slice 13 1 v = '':'' \<and> list_all is_digit (text_slice 14 2 v) \<and>
     text_slice 16 1 v = '':'' \<and> list_all is_digit (text_slice 17 2 v) \<and>
     list_all is_digit (text_slice 20 (length v - 21) v) \<and> text_slice (length v - 1) 1 v = ''Z''"

text \<open>
  \<open>Date.parse\<close> on such text gives a time or rolls an impossible day over; comparing the result with
  the text refuses what was rolled over, so what is left is a real date with a real time of day.
\<close>

definition parseTimestamp :: "string \<Rightarrow> int option" where
  "parseTimestamp v =
     (let y = number_value (text_slice 0 4 v); m = number_value (text_slice 5 2 v); d = number_value (text_slice 8 2 v);
          h = number_value (text_slice 11 2 v); mi = number_value (text_slice 14 2 v); s = number_value (text_slice 17 2 v);
          frac = text_slice 20 (length v - 21) v
      in if timestamp_format v \<and> 1 \<le> m \<and> m \<le> 12 \<and> 1 \<le> d \<and> d \<le> days_in_month y m \<and> h \<le> 23 \<and> mi \<le> 59 \<and> s \<le> 59
         then Some ((((days_from_civil y m d * 24 + h) * 60 + mi) * 60 + s) * 1000 +
                    number_value (take 3 (frac @ ''000'')))
         else None)"

lemma slice_append: "length a = i \<Longrightarrow> length b = n \<Longrightarrow> text_slice i n (a @ b @ c) = b"
  by (simp add: text_slice_def)

lemma day_time_split:
  fixes ms :: int
  assumes "0 \<le> ms" and "ms < 86400000"
  shows "((ms div 3600000 * 60 + ms div 60000 mod 60) * 60 + ms div 1000 mod 60) * 1000 + ms mod 1000 = ms"
    and "0 \<le> ms div 3600000" "ms div 3600000 < 24"
proof -
  have 1: "ms div 60000 div 60 = ms div 3600000" "ms div 1000 div 60 = ms div 60000"
    by (simp_all add: zdiv_zmult2_eq [symmetric])
  have "ms div 60000 = ms div 3600000 * 60 + ms div 60000 mod 60" "ms div 1000 = ms div 60000 * 60 + ms div 1000 mod 60"
    "ms = ms div 1000 * 1000 + ms mod 1000"
    using div_mult_mod_eq [of "ms div 60000" 60] div_mult_mod_eq [of "ms div 1000" 60] div_mult_mod_eq [of ms 1000] 1 by simp_all
  then show "((ms div 3600000 * 60 + ms div 60000 mod 60) * 60 + ms div 1000 mod 60) * 1000 + ms mod 1000 = ms" by simp
  show "0 \<le> ms div 3600000" "ms div 3600000 < 24"
    using div_bounds [of 3600000 ms] assms by (simp_all add: pos_imp_zdiv_nonneg_iff)
qed

definition four_digit_year :: "int \<Rightarrow> bool" where
  "four_digit_year t \<longleftrightarrow> (let y = fst (civil_from_days (t div 86400000)) in 0 \<le> y \<and> y \<le> 9999)"

lemma timestamp_roundtrip:
  assumes "four_digit_year t"
  shows "parseTimestamp (toISOString t) = Some t"
proof -
  obtain y m d where c: "civil_from_days (t div 86400000) = (y, m, d)" by (metis prod_cases3)
  define ms where "ms = t mod 86400000"
  have y: "0 \<le> y" "y \<le> 9999" using assms c by (simp_all add: four_digit_year_def)
  have cal: "1 \<le> m" "m \<le> 12" "1 \<le> d" "d \<le> days_in_month y m" "days_from_civil y m d = t div 86400000"
    using civil_from_days [OF c] by simp_all
  then have d31: "d \<le> 31" by (auto simp: days_in_month_def split: if_splits)
  have ms: "0 \<le> ms" "ms < 86400000" unfolding ms_def by simp_all
  note time = day_time_split [OF ms]
  define h mi s f where "h = ms div 3600000" and "mi = ms div 60000 mod 60" and "s = ms div 1000 mod 60" and "f = ms mod 1000"
  have hms: "0 \<le> h" "h < 24" "0 \<le> mi" "mi < 60" "0 \<le> s" "s < 60" "0 \<le> f" "f < 1000"
    using time(2,3) by (simp_all add: h_def mi_def s_def f_def)
  define v where "v = pad_number 4 y @ ''-'' @ pad_number 2 m @ ''-'' @ pad_number 2 d @ ''T'' @ pad_number 2 h @ '':'' @
    pad_number 2 mi @ '':'' @ pad_number 2 s @ ''.'' @ pad_number 3 f @ ''Z''"
  have v: "toISOString t = v"
    using c y by (simp add: toISOString_def Let_def ms_def [symmetric] h_def mi_def s_def f_def v_def)
  have len: "length v = 24" by (simp add: v_def)
  have sl: "text_slice 0 4 v = pad_number 4 y" "text_slice 4 1 v = ''-''" "text_slice 5 2 v = pad_number 2 m"
    "text_slice 7 1 v = ''-''" "text_slice 8 2 v = pad_number 2 d" "text_slice 10 1 v = ''T''"
    "text_slice 11 2 v = pad_number 2 h" "text_slice 13 1 v = '':''" "text_slice 14 2 v = pad_number 2 mi"
    "text_slice 16 1 v = '':''" "text_slice 17 2 v = pad_number 2 s" "text_slice 19 1 v = ''.''"
    "text_slice 20 3 v = pad_number 3 f" "text_slice 23 1 v = ''Z''"
    unfolding v_def by (simp_all add: text_slice_def numeral_eq_Suc)
  have vals: "number_value (pad_number 4 y) = y" "number_value (pad_number 2 m) = m" "number_value (pad_number 2 d) = d"
    "number_value (pad_number 2 h) = h" "number_value (pad_number 2 mi) = mi" "number_value (pad_number 2 s) = s"
    "number_value (pad_number 3 f) = f"
    using y cal d31 hms by (simp_all add: pad_number_value)
  have "timestamp_format v"
    using y cal hms sl by (simp add: timestamp_format_def len pad_number_digits)
  moreover have "((h * 60 + mi) * 60 + s) * 1000 + f = ms"
    using time(1) by (simp only: h_def mi_def s_def f_def)
  then have "(((t div 86400000 * 24 + h) * 60 + mi) * 60 + s) * 1000 + f = t div 86400000 * 86400000 + ms"
    by (simp only: distrib_right)
  then have "(((t div 86400000 * 24 + h) * 60 + mi) * 60 + s) * 1000 + f = t" unfolding ms_def by simp
  ultimately show ?thesis
    unfolding v using cal hms by (simp add: parseTimestamp_def len sl vals Let_def)
qed

end
