(* ===== verification/TokenStore.thy ===== *)
theory TokenStore
  imports Timestamps "HOL-Library.AList"
begin

text \<open>
  The machine-token file, \<open>server/token-store.mjs\<close>. A client is its raw JSON object, members in order,
  because mutations keep whatever they do not understand. The world of a mutation is the file, the lock
  and the backups; every file operation that can fail does so as the argument \<open>faults\<close> says. SHA-256 and
  the text JavaScript makes of a non-string hash are arguments.
\<close>

section \<open>The file\<close>

type_synonym client = "(string \<times> json) list"

definition cget :: "string \<Rightarrow> client \<Rightarrow> json option" where
  "cget k c = map_of c k"

definition cset :: "string \<Rightarrow> json \<Rightarrow> client \<Rightarrow> client" where
  "cset k v c = AList.update k v c"

lemma cget_cset: "cget k (cset k' v c) = (if k = k' then Some v else cget k c)"
  by (simp add: cget_def cset_def update_conv')

text \<open>\<open>accountClients\<close> may be absent, some other value, or an array.\<close>

record tstore =
  tsClients :: "client list"
  tsAccounts :: "(json + client list) option"
  tsExtra :: "(string \<times> json) list"

datatype tfile = NoFile | Garbage string | Stored tstore

datatype 'e terror =
    InvalidName | InvalidRooms | InvalidAccess | InvalidCreator | InvalidExpiry | InvalidDisplayName
  | InvalidStore | DuplicateName | StoreFull | NotFound | StaleReference | Locked | NoCapability | Expired
  | RoomLimit | RollbackFailed string | IOFault | TypeFault | Thrown 'e

definition max_rooms :: nat where "max_rooms = 50"
definition max_account_clients :: nat where "max_account_clients = 20"
definition max_clients :: nat where "max_clients = 100"
definition board_create :: string where "board_create = ''board:create''"

definition access_modes :: "(string \<times> string list) list" where
  "access_modes = [(''read'', [''read'']), (''write'', [''write'']), (''read-write'', [''read'', ''write'']),
     (''read-history'', [''read'', ''history'']), (''read-write-history'', [''read'', ''write'', ''history'']),
     (''full'', [''read'', ''write'', ''history'', ''restore''])]"

definition isValidClientName :: "string \<Rightarrow> bool" where
  "isValidClientName = matches_class is_id_char 1 64"

definition isValidRoomId :: "string \<Rightarrow> bool" where
  "isValidRoomId = matches_class is_id_char 1 80"

definition isAccessMode :: "string \<Rightarrow> bool" where
  "isAccessMode a \<longleftrightarrow> map_of access_modes a \<noteq> None"

definition accountClientsOf :: "tstore \<Rightarrow> client list" where
  "accountClientsOf s = (case tsAccounts s of Some (Inr cs) \<Rightarrow> cs | _ \<Rightarrow> [])"

definition allClients :: "tstore \<Rightarrow> client list" where
  "allClients s = tsClients s @ accountClientsOf s"

definition emptyStore :: tstore where
  "emptyStore = \<lparr>tsClients = [], tsAccounts = None, tsExtra = []\<rparr>"

section \<open>Expiry and fingerprints\<close>

datatype expiry_status = ExpNone | ExpActive | ExpExpired | ExpInvalid

definition evaluateExpiry :: "json option \<Rightarrow> int \<Rightarrow> expiry_status" where
  "evaluateExpiry e now = (case e of
       None \<Rightarrow> ExpNone
     | Some (JStr s) \<Rightarrow> (case parseTimestamp s of None \<Rightarrow> ExpInvalid | Some t \<Rightarrow> if t > now then ExpActive else ExpExpired)
     | Some _ \<Rightarrow> ExpInvalid)"

definition live_at :: "client \<Rightarrow> int \<Rightarrow> bool" where
  "live_at c now \<longleftrightarrow> evaluateExpiry (cget ''expiresAt'' c) now \<notin> {ExpExpired, ExpInvalid}"

record tparams =
  tpHash :: "string \<Rightarrow> string"
  tpText :: "json option \<Rightarrow> string"

definition clientFingerprint :: "tparams \<Rightarrow> json option \<Rightarrow> string" where
  "clientFingerprint tp h =
     take 16 (tpHash tp (''agent-ref:'' @ (case h of Some (JStr s) \<Rightarrow> s | _ \<Rightarrow> tpText tp h)))"

section \<open>Reading and replacing the file\<close>

record faults =
  ftOpen :: bool
  ftInit :: bool
  ftRead :: bool
  ftBackup :: bool
  ftBackupMode :: bool
  ftTemp :: bool
  ftMode :: bool
  ftReread :: bool
  ftRelease :: bool

record tworld =
  twFile :: tfile
  twLock :: bool
  twBackups :: "tfile list"

definition readStore :: "bool \<Rightarrow> tworld \<Rightarrow> 'e terror + (tstore \<times> tfile)" where
  "readStore fault w = (if fault then Inl IOFault else case twFile w of
       NoFile \<Rightarrow> Inr (emptyStore, Stored emptyStore)
     | Garbage _ \<Rightarrow> Inl InvalidStore
     | Stored s \<Rightarrow> Inr (s, Stored s))"

definition acquireMutationLock :: "faults \<Rightarrow> tworld \<Rightarrow> tworld \<times> ('e terror + unit)" where
  "acquireMutationLock ft w =
     (if ftOpen ft then (w, Inl IOFault)
      else if twLock w then (w, Inl Locked)
      else if ftInit ft then (w\<lparr>twLock := ftRelease ft\<rparr>, Inl IOFault)
      else (w\<lparr>twLock := True\<rparr>, Inr ()))"

definition release_lock :: "faults \<Rightarrow> tworld \<Rightarrow> tworld \<times> ('e terror + unit)" where
  "release_lock ft w = (if ftRelease ft then (w, Inl IOFault) else (w\<lparr>twLock := False\<rparr>, Inr ()))"

definition backUpStore :: "faults \<Rightarrow> tfile \<Rightarrow> tworld \<Rightarrow> tworld \<times> ('e terror + unit)" where
  "backUpStore ft source w =
     (if ftBackup ft then (w, Inl IOFault)
      else (w\<lparr>twBackups := twBackups w @ [source]\<rparr>, if ftBackupMode ft then Inl IOFault else Inr ()))"

definition writeStoreAtomically :: "faults \<Rightarrow> tstore \<Rightarrow> tworld \<Rightarrow> tworld \<times> ('e terror + unit)" where
  "writeStoreAtomically ft s w =
     (if ftTemp ft then (w, Inl IOFault)
      else (w\<lparr>twFile := Stored s\<rparr>, if ftMode ft then Inl IOFault else Inr ()))"

text \<open>\<open>lock; try \<dots> finally release\<close>: an error of the release replaces the result.\<close>

definition with_lock ::
    "faults \<Rightarrow> (tworld \<times> 'w \<Rightarrow> (tworld \<times> 'w) \<times> ('e terror + 'a)) \<Rightarrow> tworld \<times> 'w \<Rightarrow> (tworld \<times> 'w) \<times> ('e terror + 'a)" where
  "with_lock ft body wx = (case wx of (w, x) \<Rightarrow>
     (case acquireMutationLock ft w of
        (w1, Inl e) \<Rightarrow> ((w1, x), Inl e)
      | (w1, Inr _) \<Rightarrow> (case body (w1, x) of ((w2, x2), res) \<Rightarrow>
          (case release_lock ft w2 of
             (w3, Inl e) \<Rightarrow> ((w3, x2), Inl e)
           | (w3, Inr _) \<Rightarrow> ((w3, x2), res)))))"

definition persist :: "faults \<Rightarrow> tfile \<Rightarrow> tstore \<Rightarrow> tworld \<Rightarrow> tworld \<times> ('e terror + unit)" where
  "persist ft source s w = bindS (backUpStore ft source w) (\<lambda>_. writeStoreAtomically ft s)"

definition mutate_body ::
    "faults \<Rightarrow> (tstore \<Rightarrow> 'e terror + (tstore \<times> 'a)) \<Rightarrow> tworld \<Rightarrow> tworld \<times> ('e terror + 'a)" where
  "mutate_body ft mutate w =
     (case readStore (ftRead ft) w of
        Inl e \<Rightarrow> (w, Inl e)
      | Inr (s, source) \<Rightarrow> (case mutate s of
          Inl e \<Rightarrow> (w, Inl e)
        | Inr (s', r) \<Rightarrow> bindS (persist ft source s' w) (\<lambda>_ w'. (w', Inr r))))"

definition mutateStore ::
    "faults \<Rightarrow> (tstore \<Rightarrow> 'e terror + (tstore \<times> 'a)) \<Rightarrow> tworld \<Rightarrow> tworld \<times> ('e terror + 'a)" where
  "mutateStore ft mutate w =
     (case with_lock ft (\<lambda>(w1, u). case mutate_body ft mutate w1 of (w2, r) \<Rightarrow> ((w2, u), r)) (w, ()) of
        ((w', _), r) \<Rightarrow> (w', r))"

section \<open>Input\<close>

datatype expiry_input = NoExpiry | ExpiryDate "int option" | ExpiryValue json

definition expiry_time :: "expiry_input \<Rightarrow> int option" where
  "expiry_time v = (case v of NoExpiry \<Rightarrow> None | ExpiryDate t \<Rightarrow> t
     | ExpiryValue (JStr s) \<Rightarrow> parseTimestamp s | ExpiryValue _ \<Rightarrow> None)"

definition normaliseExpiry :: "expiry_input \<Rightarrow> int \<Rightarrow> 'e terror + string option" where
  "normaliseExpiry v now =
     (if v = NoExpiry then Inr None
      else case expiry_time v of
          None \<Rightarrow> Inl InvalidExpiry
        | Some t \<Rightarrow> if t \<le> now then Inl InvalidExpiry else Inr (Some (toISOString t)))"

definition normaliseDisplayName :: "json option \<Rightarrow> 'e terror + string option" where
  "normaliseDisplayName v = (case v of
       None \<Rightarrow> Inr None
     | Some j \<Rightarrow> (let t = (case j of JStr s \<Rightarrow> js_trim s | _ \<Rightarrow> []) in
         if length t < 1 \<or> length t > 80 \<or> has_control t then Inl InvalidDisplayName else Inr (Some t)))"

definition is_creator_char :: "char \<Rightarrow> bool" where
  "is_creator_char c \<longleftrightarrow> is_id_char c \<or> c = CHR '':'' \<or> c = CHR ''.''"

definition normaliseCreator :: "json option \<Rightarrow> 'e terror + string option" where
  "normaliseCreator v = (case v of
       None \<Rightarrow> Inr None
     | Some (JStr s) \<Rightarrow> if matches_class is_creator_char 1 128 s then Inr (Some s) else Inl InvalidCreator
     | Some _ \<Rightarrow> Inl InvalidCreator)"

definition opt_member :: "string \<Rightarrow> string option \<Rightarrow> client" where
  "opt_member k v = (case v of None \<Rightarrow> [] | Some s \<Rightarrow> [(k, JStr s)])"

definition perms_json :: "string list \<Rightarrow> json" where
  "perms_json ps = JArr (map JStr ps)"

definition mode_permissions :: "string \<Rightarrow> string list" where
  "mode_permissions a = (case map_of access_modes a of None \<Rightarrow> [] | Some ps \<Rightarrow> ps)"

section \<open>Creating\<close>

record client_request =
  rqName :: string
  rqRooms :: "string list"
  rqAccess :: string
  rqOwner :: "json option"
  rqExpires :: expiry_input
  rqDisplay :: "json option"
  rqCreator :: "json option"
  rqNow :: int

record client_grant =
  gtToken :: string
  gtName :: string
  gtRooms :: "json list"
  gtPermissions :: "json list"
  gtOwner :: "string option"
  gtFingerprint :: string
  gtCreatedAt :: "string option"
  gtExpiresAt :: "string option"
  gtRotatedAt :: "string option"

definition new_client ::
    "tparams \<Rightarrow> string \<Rightarrow> client_request \<Rightarrow> string option \<Rightarrow> string option \<Rightarrow> string option \<Rightarrow> client" where
  "new_client tp token rq expiresAt displayName createdBy =
     [(''name'', JStr (rqName rq)), (''tokenHash'', JStr (tpHash tp token)),
      (''rooms'', JArr (map JStr (rqRooms rq))), (''permissions'', perms_json (mode_permissions (rqAccess rq))),
      (''createdAt'', JStr (toISOString (rqNow rq)))] @
     opt_member ''expiresAt'' expiresAt @ opt_member ''displayName'' displayName @ opt_member ''createdByUserId'' createdBy"

definition name_taken :: "string \<Rightarrow> tstore \<Rightarrow> bool" where
  "name_taken name s \<longleftrightarrow> list_ex (\<lambda>c. cget ''name'' c = Some (JStr name)) (allClients s)"

definition add_client :: "client \<Rightarrow> string \<Rightarrow> tstore \<Rightarrow> 'e terror + (tstore \<times> unit)" where
  "add_client c name s =
     bindR (guardR (\<not> name_taken name s) DuplicateName) (\<lambda>_.
     bindR (guardR (length (tsClients s) < max_clients) StoreFull) (\<lambda>_.
     Inr (s\<lparr>tsClients := tsClients s @ [c]\<rparr>, ())))"

definition check_request ::
    "client_request \<Rightarrow> 'e terror + (string option \<times> string option \<times> string option)" where
  "check_request rq =
     bindR (normaliseExpiry (rqExpires rq) (rqNow rq)) (\<lambda>expiresAt.
     bindR (normaliseDisplayName (rqDisplay rq)) (\<lambda>displayName.
     bindR (normaliseCreator (rqCreator rq)) (\<lambda>createdBy.
     Inr (expiresAt, displayName, createdBy))))"

definition created_grant :: "tparams \<Rightarrow> string \<Rightarrow> client_request \<Rightarrow> string option \<Rightarrow> string option \<Rightarrow> client_grant" where
  "created_grant tp token rq owner expiresAt =
     \<lparr>gtToken = token, gtName = rqName rq, gtRooms = map JStr (rqRooms rq),
      gtPermissions = map JStr (mode_permissions (rqAccess rq)), gtOwner = owner,
      gtFingerprint = clientFingerprint tp (Some (JStr (tpHash tp token))),
      gtCreatedAt = Some (toISOString (rqNow rq)), gtExpiresAt = expiresAt, gtRotatedAt = None\<rparr>"

definition createClient ::
    "tparams \<Rightarrow> faults \<Rightarrow> string \<Rightarrow> client_request \<Rightarrow> tworld \<Rightarrow> tworld \<times> ('e terror + client_grant)" where
  "createClient tp ft token rq w =
     bindS (w, guardR (isValidClientName (rqName rq)) InvalidName) (\<lambda>_ w.
     bindS (w, guardR (1 \<le> length (rqRooms rq) \<and> length (rqRooms rq) \<le> max_rooms \<and> list_all isValidRoomId (rqRooms rq))
         InvalidRooms) (\<lambda>_ w.
     bindS (w, guardR (isAccessMode (rqAccess rq)) InvalidAccess) (\<lambda>_ w.
     bindS (w, check_request rq) (\<lambda>(expiresAt, displayName, createdBy) w.
     bindS (mutateStore ft (add_client (new_client tp token rq expiresAt displayName createdBy) (rqName rq)) w) (\<lambda>_ w.
     (w, Inr (created_grant tp token rq None expiresAt)))))))"

definition new_account_client ::
    "tparams \<Rightarrow> string \<Rightarrow> client_request \<Rightarrow> string \<Rightarrow> string option \<Rightarrow> string option \<Rightarrow> string option \<Rightarrow> client" where
  "new_account_client tp token rq owner expiresAt displayName createdBy =
     [(''name'', JStr (rqName rq)), (''tokenHash'', JStr (tpHash tp token)), (''ownerUserId'', JStr owner),
      (''accountPermissions'', JArr [JStr board_create]), (''permissions'', perms_json (mode_permissions (rqAccess rq))),
      (''rooms'', JArr []), (''createdAt'', JStr (toISOString (rqNow rq)))] @
     opt_member ''expiresAt'' expiresAt @ opt_member ''displayName'' displayName @ opt_member ''createdByUserId'' createdBy"

definition accounts_malformed :: "tstore \<Rightarrow> bool" where
  "accounts_malformed s \<longleftrightarrow> (case tsAccounts s of Some (Inl _) \<Rightarrow> True | _ \<Rightarrow> False)"

definition add_account_client :: "client \<Rightarrow> string \<Rightarrow> tstore \<Rightarrow> 'e terror + (tstore \<times> unit)" where
  "add_account_client c name s =
     bindR (guardR (\<not> accounts_malformed s) InvalidStore) (\<lambda>_.
     bindR (guardR (\<not> name_taken name s) DuplicateName) (\<lambda>_.
     bindR (guardR (length (accountClientsOf s) < max_account_clients) StoreFull) (\<lambda>_.
     Inr (s\<lparr>tsAccounts := Some (Inr (accountClientsOf s @ [c]))\<rparr>, ()))))"

definition createAccountClient ::
    "tparams \<Rightarrow> faults \<Rightarrow> string \<Rightarrow> client_request \<Rightarrow> tworld \<Rightarrow> tworld \<times> ('e terror + client_grant)" where
  "createAccountClient tp ft token rq w =
     bindS (w, guardR (isValidClientName (rqName rq)) InvalidName) (\<lambda>_ w.
     bindS (w, guardR (isAccessMode (rqAccess rq)) InvalidAccess) (\<lambda>_ w.
     bindS (w, normaliseCreator (rqOwner rq)) (\<lambda>own w.
     (case own of
        None \<Rightarrow> (w, Inl InvalidCreator)
      | Some owner \<Rightarrow>
        bindS (w, check_request rq) (\<lambda>(expiresAt, displayName, createdBy) w.
        bindS (mutateStore ft (add_account_client
            (new_account_client tp token rq owner expiresAt displayName createdBy) (rqName rq)) w) (\<lambda>_ w.
        (w, Inr (created_grant tp token (rq\<lparr>rqRooms := []\<rparr>) (Some owner) expiresAt))))))))"

section \<open>Revoking and rotating\<close>

text \<open>The records an action applies to, and what the caller's check learned of the last of them.\<close>

definition locateClients ::
    "tparams \<Rightarrow> string \<Rightarrow> string option \<Rightarrow> (client \<Rightarrow> 'e + 'a) option \<Rightarrow> tstore \<Rightarrow> 'e terror + (client list \<times> 'a option)" where
  "locateClients tp name fingerprint authorise s =
     (let named = filter (\<lambda>c. cget ''name'' c = Some (JStr name)) (allClients s) in
      bindR (guardR (named \<noteq> []) NotFound) (\<lambda>_.
      (let targets = (case fingerprint of None \<Rightarrow> named
          | Some f \<Rightarrow> filter (\<lambda>c. clientFingerprint tp (cget ''tokenHash'' c) = f) named) in
       bindR (guardR (targets \<noteq> []) StaleReference) (\<lambda>_.
       (case authorise of
          None \<Rightarrow> Inr (targets, None)
        | Some a \<Rightarrow> bindR (mapR (\<lambda>c. case a c of Inl e \<Rightarrow> Inl (Thrown e) | Inr r \<Rightarrow> Inr r) targets)
            (\<lambda>rs. Inr (targets, Some (last rs))))))))"

definition update_records :: "(client list \<Rightarrow> client list) \<Rightarrow> tstore \<Rightarrow> tstore" where
  "update_records f s = s\<lparr>tsClients := f (tsClients s),
     tsAccounts := map_option (map_sum (\<lambda>j. j) f) (tsAccounts s)\<rparr>"

definition drop_targets ::
    "tparams \<Rightarrow> string \<Rightarrow> string option \<Rightarrow> (client \<Rightarrow> 'e + 'a) option \<Rightarrow> tstore \<Rightarrow> 'e terror + (tstore \<times> 'a option)" where
  "drop_targets tp name fingerprint authorise s =
     bindR (locateClients tp name fingerprint authorise s) (\<lambda>(targets, seen).
     Inr (update_records (filter (\<lambda>c. c \<notin> set targets)) s, seen))"

definition revokeClient ::
    "tparams \<Rightarrow> faults \<Rightarrow> string \<Rightarrow> string option \<Rightarrow> (client \<Rightarrow> 'e + 'a) option \<Rightarrow> tworld \<Rightarrow> tworld \<times> ('e terror + 'a option)" where
  "revokeClient tp ft name fingerprint authorise w =
     bindS (w, guardR (isValidClientName name) InvalidName) (\<lambda>_.
     mutateStore ft (drop_targets tp name fingerprint authorise))"

text \<open>\<open>[...value]\<close>: the elements of an array, the characters of a text, an exception for the rest.\<close>

definition spread :: "json option \<Rightarrow> 'e terror + json list" where
  "spread v = (case v of Some (JArr xs) \<Rightarrow> Inr xs | Some (JStr s) \<Rightarrow> Inr (map (\<lambda>c. JStr [c]) s) | _ \<Rightarrow> Inl TypeFault)"

definition text_of :: "json option \<Rightarrow> string option" where
  "text_of v = (case v of Some (JStr s) \<Rightarrow> Some s | _ \<Rightarrow> None)"

definition rotated_client :: "tparams \<Rightarrow> string \<Rightarrow> int \<Rightarrow> string option \<Rightarrow> client \<Rightarrow> client" where
  "rotated_client tp token now expiresAt c =
     (let c1 = cset ''rotatedAt'' (JStr (toISOString now)) (cset ''tokenHash'' (JStr (tpHash tp token)) c)
      in case expiresAt of None \<Rightarrow> c1 | Some e \<Rightarrow> cset ''expiresAt'' (JStr e) c1)"

definition rotate_target ::
    "tparams \<Rightarrow> string \<Rightarrow> int \<Rightarrow> string \<Rightarrow> string option \<Rightarrow> string option \<Rightarrow> (client \<Rightarrow> 'e + 'a) option
       \<Rightarrow> tstore \<Rightarrow> 'e terror + (tstore \<times> client_grant \<times> 'a option)" where
  "rotate_target tp token now name fingerprint expiresAt authorise s =
     bindR (locateClients tp name fingerprint authorise s) (\<lambda>(targets, seen).
     (case targets of
        [c] \<Rightarrow>
          bindR (guardR (expiresAt \<noteq> None \<or> live_at c now) InvalidExpiry) (\<lambda>_.
          (let c' = rotated_client tp token now expiresAt c in
           bindR (spread (cget ''rooms'' c')) (\<lambda>rooms.
           bindR (spread (cget ''permissions'' c')) (\<lambda>permissions.
           Inr (update_records (map (\<lambda>x. if x = c then c' else x)) s,
                \<lparr>gtToken = token, gtName = name, gtRooms = rooms, gtPermissions = permissions, gtOwner = None,
                 gtFingerprint = clientFingerprint tp (Some (JStr (tpHash tp token))),
                 gtCreatedAt = text_of (cget ''createdAt'' c'), gtExpiresAt = text_of (cget ''expiresAt'' c'),
                 gtRotatedAt = Some (toISOString now)\<rparr>, seen)))))
      | _ \<Rightarrow> Inl DuplicateName))"

definition rotateClient ::
    "tparams \<Rightarrow> faults \<Rightarrow> string \<Rightarrow> int \<Rightarrow> string \<Rightarrow> string option \<Rightarrow> expiry_input \<Rightarrow> (client \<Rightarrow> 'e + 'a) option
       \<Rightarrow> tworld \<Rightarrow> tworld \<times> ('e terror + (client_grant \<times> 'a option))" where
  "rotateClient tp ft token now name fingerprint expires authorise w =
     bindS (w, guardR (isValidClientName name) InvalidName) (\<lambda>_ w.
     bindS (w, normaliseExpiry expires now) (\<lambda>expiresAt.
     mutateStore ft (rotate_target tp token now name fingerprint expiresAt authorise)))"

end
