(* ===== verification/TokenGrant.thy ===== *)
theory TokenGrant
  imports TokenStore
begin

text \<open>
  Granting a new board to a board-creating credential, and listing (\<open>server/token-store.mjs\<close>, second
  part). The board lives in another database: \<open>prepare\<close> and \<open>rollback\<close> are the caller's operations on
  its state \<open>'w\<close>, and the world of the operation is the pair of both.
\<close>

section \<open>Granting\<close>

definition grant_check :: "int \<Rightarrow> client \<Rightarrow> 'e terror + json list" where
  "grant_check now c =
     bindR (guardR (case cget ''accountPermissions'' c of Some (JArr ps) \<Rightarrow> JStr board_create \<in> set ps | _ \<Rightarrow> False)
         NoCapability) (\<lambda>_.
     bindR (guardR (live_at c now) Expired) (\<lambda>_.
     (case cget ''rooms'' c of
        Some (JArr rooms) \<Rightarrow> bindR (guardR (length rooms < max_rooms) RoomLimit) (\<lambda>_. Inr rooms)
      | _ \<Rightarrow> Inl InvalidStore)))"

definition grant_target ::
    "tparams \<Rightarrow> string \<Rightarrow> string \<Rightarrow> int \<Rightarrow> tstore \<Rightarrow> 'e terror + (client \<times> json list)" where
  "grant_target tp name fingerprint now s =
     bindR (guardR (\<not> accounts_malformed s) InvalidStore) (\<lambda>_.
     (let named = filter (\<lambda>c. cget ''name'' c = Some (JStr name)) (allClients s);
          targets = filter (\<lambda>c. cget ''name'' c = Some (JStr name) \<and>
            clientFingerprint tp (cget ''tokenHash'' c) = fingerprint) (accountClientsOf s) in
      bindR (guardR (named \<noteq> []) NotFound) (\<lambda>_.
      bindR (guardR (targets \<noteq> []) StaleReference) (\<lambda>_.
      (case (named, targets) of
         ([_], [c]) \<Rightarrow> bindR (grant_check now c) (\<lambda>rooms. Inr (c, rooms))
       | _ \<Rightarrow> Inl DuplicateName)))))"

definition grant_room :: "client \<Rightarrow> json list \<Rightarrow> string \<Rightarrow> tstore \<Rightarrow> tstore" where
  "grant_room c rooms board s =
     s\<lparr>tsAccounts := map_option (map_sum (\<lambda>j. j) (map (\<lambda>x. if x = c then cset ''rooms'' (JArr (rooms @ [JStr board])) x else x)))
        (tsAccounts s)\<rparr>"

definition grantIsPersisted :: "tparams \<Rightarrow> bool \<Rightarrow> string \<Rightarrow> string \<Rightarrow> string \<Rightarrow> tworld \<Rightarrow> bool" where
  "grantIsPersisted tp fault name fingerprint board w =
     (case readStore fault w :: unit terror + (tstore \<times> tfile) of
        Inl _ \<Rightarrow> False
      | Inr (s, _) \<Rightarrow> list_ex (\<lambda>c. cget ''name'' c = Some (JStr name) \<and> clientFingerprint tp (cget ''tokenHash'' c) = fingerprint \<and>
          (case cget ''rooms'' c of Some (JArr rs) \<Rightarrow> JStr board \<in> set rs | _ \<Rightarrow> False)) (accountClientsOf s))"

definition grant_body ::
    "tparams \<Rightarrow> faults \<Rightarrow> string \<Rightarrow> string \<Rightarrow> int \<Rightarrow> (client \<Rightarrow> 'w \<Rightarrow> 'w \<times> ('e + string)) \<Rightarrow> (string \<Rightarrow> 'w \<Rightarrow> 'w \<times> ('e + unit))
       \<Rightarrow> tworld \<times> 'w \<Rightarrow> (tworld \<times> 'w) \<times> ('e terror + (string \<times> json list))" where
  "grant_body tp ft name fingerprint now prepare rollback wx = (case wx of (w, x) \<Rightarrow>
     (case readStore (ftRead ft) w of
        Inl e \<Rightarrow> ((w, x), Inl e)
      | Inr (s, source) \<Rightarrow>
        (case grant_target tp name fingerprint now s of
           Inl e \<Rightarrow> ((w, x), Inl e)
         | Inr (c, rooms) \<Rightarrow>
           (case prepare c x of
              (x1, Inl e) \<Rightarrow> ((w, x1), Inl (Thrown e))
            | (x1, Inr board) \<Rightarrow>
              (if \<not> isValidRoomId board \<or> JStr board \<in> set rooms
               then (case rollback board x1 of
                       (x2, Inl e) \<Rightarrow> ((w, x2), Inl (Thrown e))
                     | (x2, Inr _) \<Rightarrow> ((w, x2), Inl TypeFault))
               else (case persist ft source (grant_room c rooms board s) w of
                       (w1, Inr _) \<Rightarrow> ((w1, x1), Inr (board, rooms @ [JStr board]))
                     | (w1, Inl e) \<Rightarrow>
                       (if grantIsPersisted tp (ftReread ft) name fingerprint board w1
                        then ((w1, x1), Inr (board, rooms @ [JStr board]))
                        else (case rollback board x1 of
                                (x2, Inl _) \<Rightarrow> ((w1, x2), Inl (RollbackFailed board))
                              | (x2, Inr _) \<Rightarrow> ((w1, x2), Inl e))))))))) "

definition grantNewBoard ::
    "tparams \<Rightarrow> faults \<Rightarrow> string \<Rightarrow> string \<Rightarrow> int \<Rightarrow> (client \<Rightarrow> 'w \<Rightarrow> 'w \<times> ('e + string)) \<Rightarrow> (string \<Rightarrow> 'w \<Rightarrow> 'w \<times> ('e + unit))
       \<Rightarrow> tworld \<times> 'w \<Rightarrow> (tworld \<times> 'w) \<times> ('e terror + (string \<times> json list))" where
  "grantNewBoard tp ft name fingerprint now prepare rollback wx =
     (if \<not> isValidClientName name then (wx, Inl InvalidName)
      else if fingerprint = [] then (wx, Inl TypeFault)
      else with_lock ft (grant_body tp ft name fingerprint now prepare rollback) wx)"

section \<open>Listing\<close>

record client_summary =
  smName :: "json option"
  smRooms :: "json option"
  smPermissions :: "json option"

definition summariseClients :: "tstore \<Rightarrow> client_summary list" where
  "summariseClients s = map (\<lambda>c. \<lparr>smName = cget ''name'' c, smRooms = cget ''rooms'' c,
     smPermissions = cget ''permissions'' c\<rparr>) (allClients s)"

definition listClients :: "bool \<Rightarrow> tworld \<Rightarrow> 'e terror + client_summary list" where
  "listClients fault w = bindR (readStore fault w) (\<lambda>(s, _). Inr (summariseClients s))"

record client_detail =
  cdName :: "json option"
  cdRooms :: "json option"
  cdPermissions :: "json option"
  cdCreatedAt :: "string option"
  cdExpiresAt :: "string option"
  cdDisplayName :: "string option"
  cdCreatedBy :: "string option"
  cdRotatedAt :: "string option"
  cdAccountPermissions :: "string list option"
  cdOwner :: "string option"
  cdFingerprint :: string
  cdStatus :: expiry_status

definition strings_of :: "json list \<Rightarrow> string list" where
  "strings_of js = concat (map (\<lambda>j. case j of JStr s \<Rightarrow> [s] | _ \<Rightarrow> []) js)"

definition describe_client :: "tparams \<Rightarrow> int \<Rightarrow> client \<Rightarrow> client_detail" where
  "describe_client tp now c =
     \<lparr>cdName = cget ''name'' c, cdRooms = cget ''rooms'' c, cdPermissions = cget ''permissions'' c,
      cdCreatedAt = text_of (cget ''createdAt'' c), cdExpiresAt = text_of (cget ''expiresAt'' c),
      cdDisplayName = text_of (cget ''displayName'' c), cdCreatedBy = text_of (cget ''createdByUserId'' c),
      cdRotatedAt = text_of (cget ''rotatedAt'' c),
      cdAccountPermissions = (case cget ''accountPermissions'' c of Some (JArr ps) \<Rightarrow> Some (strings_of ps) | _ \<Rightarrow> None),
      cdOwner = text_of (cget ''ownerUserId'' c), cdFingerprint = clientFingerprint tp (cget ''tokenHash'' c),
      cdStatus = evaluateExpiry (cget ''expiresAt'' c) now\<rparr>"

definition describeClients :: "tparams \<Rightarrow> bool \<Rightarrow> int \<Rightarrow> tworld \<Rightarrow> 'e terror + client_detail list" where
  "describeClients tp fault now w = bindR (readStore fault w) (\<lambda>(s, _). Inr (map (describe_client tp now) (allClients s)))"

end
