(* ===== verification/Tokens.thy ===== *)
theory Tokens
  imports TokenGrant
begin

text \<open>
  The reader of the machine-token file, \<open>server/tokens.ts\<close>: which bearer may do what on which board,
  and which may create boards. A file whose \<open>clients\<close> break the schema is refused as a whole; a
  board-creating record that breaks it is left out alone.
\<close>

definition string_items :: "(string \<Rightarrow> bool) \<Rightarrow> nat \<Rightarrow> nat \<Rightarrow> json option \<Rightarrow> string list option" where
  "string_items p lo hi v = (case v of
       Some (JArr xs) \<Rightarrow> (if lo \<le> length xs \<and> length xs \<le> hi \<and> list_all (\<lambda>j. case j of JStr s \<Rightarrow> p s | _ \<Rightarrow> False) xs
                         then Some (strings_of xs) else None)
     | _ \<Rightarrow> None)"

definition string_field :: "(string \<Rightarrow> bool) \<Rightarrow> json option \<Rightarrow> string option" where
  "string_field p v = (case v of Some (JStr s) \<Rightarrow> if p s then Some s else None | _ \<Rightarrow> None)"

definition is_token_hash :: "string \<Rightarrow> bool" where
  "is_token_hash = matches_class is_hex 64 64"

definition is_permission :: "string \<Rightarrow> bool" where
  "is_permission s \<longleftrightarrow> s \<in> set [''read'', ''write'', ''history'', ''restore'']"

definition is_owner_char :: "char \<Rightarrow> bool" where
  "is_owner_char c \<longleftrightarrow> is_id_char c \<or> c = CHR '':'' \<or> c = CHR ''.''"

record stored_client =
  scName :: string
  scHash :: string
  scRooms :: "string list"
  scPermissions :: "string list"
  scExpires :: "json option"
  scOwner :: string
  scAccount :: "string list"

definition clientSchema :: "client \<Rightarrow> stored_client option" where
  "clientSchema c =
     (case (string_field isValidClientName (cget ''name'' c), string_field is_token_hash (cget ''tokenHash'' c),
            string_items isValidRoomId 1 max_rooms (cget ''rooms'' c), string_items is_permission 1 4 (cget ''permissions'' c)) of
        (Some n, Some h, Some rs, Some ps) \<Rightarrow> Some \<lparr>scName = n, scHash = h, scRooms = rs, scPermissions = ps,
            scExpires = cget ''expiresAt'' c, scOwner = [], scAccount = []\<rparr>
      | _ \<Rightarrow> None)"

definition accountClientSchema :: "client \<Rightarrow> stored_client option" where
  "accountClientSchema c =
     (case (string_field isValidClientName (cget ''name'' c), string_field is_token_hash (cget ''tokenHash'' c),
            string_field (matches_class is_owner_char 1 128) (cget ''ownerUserId'' c),
            (case cget ''accountPermissions'' c of
               Some (JArr xs) \<Rightarrow> if list_all (\<lambda>j. case j of JStr _ \<Rightarrow> True | _ \<Rightarrow> False) xs then Some (strings_of xs) else None
             | _ \<Rightarrow> None),
            string_items is_permission 1 4 (cget ''permissions'' c), string_items isValidRoomId 0 max_rooms (cget ''rooms'' c)) of
        (Some n, Some h, Some u, Some a, Some ps, Some rs) \<Rightarrow> Some \<lparr>scName = n, scHash = h, scRooms = rs, scPermissions = ps,
            scExpires = cget ''expiresAt'' c, scOwner = u, scAccount = a\<rparr>
      | _ \<Rightarrow> None)"

definition all_some :: "'a option list \<Rightarrow> 'a list option" where
  "all_some xs = (if None \<in> set xs then None else Some (map the xs))"

definition loadStore :: "tfile \<Rightarrow> (stored_client list \<times> stored_client list) option" where
  "loadStore f = (case f of
       Stored s \<Rightarrow> (if length (tsClients s) \<le> max_clients
         then (case all_some (map clientSchema (tsClients s)) of
                 None \<Rightarrow> None
               | Some cs \<Rightarrow> Some (cs, List.map_filter accountClientSchema (accountClientsOf s)))
         else None)
     | _ \<Rightarrow> None)"

definition bearer_of :: "string option \<Rightarrow> string option" where
  "bearer_of header = (case header of
       Some h \<Rightarrow> (if take 7 h = ''Bearer '' \<and> matches_class is_id_char 32 128 (drop 7 h) then Some (drop 7 h) else None)
     | None \<Rightarrow> None)"

definition unexpired :: "stored_client \<Rightarrow> int \<Rightarrow> bool" where
  "unexpired c now \<longleftrightarrow> evaluateExpiry (scExpires c) now \<notin> {ExpExpired, ExpInvalid}"

definition authorizeApiToken ::
    "tparams \<Rightarrow> tfile \<Rightarrow> string option \<Rightarrow> string \<Rightarrow> string \<Rightarrow> int \<Rightarrow> string option" where
  "authorizeApiToken tp file header room permission now =
     (case bearer_of header of
        None \<Rightarrow> None
      | Some token \<Rightarrow> (case loadStore file of
          None \<Rightarrow> None
        | Some (cs, as) \<Rightarrow> map_option scName (find (\<lambda>c. scHash c = tpHash tp token \<and> room \<in> set (scRooms c) \<and>
              permission \<in> set (scPermissions c) \<and> unexpired c now) (cs @ as))))"

record creator =
  crName :: string
  crOwner :: string
  crPermissions :: "string list"
  crFingerprint :: string
  crRoomCount :: nat

datatype creator_auth = CreatorOk creator | CreatorForbidden | CreatorUnauthenticated

definition authenticateBoardCreator :: "tparams \<Rightarrow> tfile \<Rightarrow> string option \<Rightarrow> int \<Rightarrow> creator_auth" where
  "authenticateBoardCreator tp file header now =
     (case bearer_of header of
        None \<Rightarrow> CreatorUnauthenticated
      | Some token \<Rightarrow> (case loadStore file of
          None \<Rightarrow> CreatorUnauthenticated
        | Some (cs, as) \<Rightarrow> (case find (\<lambda>c. scHash c = tpHash tp token) cs of
            Some c \<Rightarrow> (if unexpired c now then CreatorForbidden else CreatorUnauthenticated)
          | None \<Rightarrow> (case find (\<lambda>c. scHash c = tpHash tp token) as of
              None \<Rightarrow> CreatorUnauthenticated
            | Some c \<Rightarrow>
              (if \<not> unexpired c now then CreatorUnauthenticated
               else if board_create \<notin> set (scAccount c) then CreatorForbidden
               else CreatorOk \<lparr>crName = scName c, crOwner = scOwner c, crPermissions = scPermissions c,
                      crFingerprint = clientFingerprint tp (Some (JStr (scHash c))), crRoomCount = length (scRooms c)\<rparr>)))))"

end
