(* ===== verification/TokenProofs.thy ===== *)
theory TokenProofs
  imports Tokens
begin

text \<open>
  What the token store keeps, and what each mutation does to the credentials the reader accepts.
  \<open>entries\<close> abstracts a store to its readable credentials; every mutation is a simple operation on them.
\<close>

section \<open>Mutation\<close>

definition store_of :: "tfile \<Rightarrow> tstore" where
  "store_of f = (case f of Stored s \<Rightarrow> s | _ \<Rightarrow> emptyStore)"

definition source_of :: "tfile \<Rightarrow> tfile" where
  "source_of f = (case f of NoFile \<Rightarrow> Stored emptyStore | _ \<Rightarrow> f)"

lemma readStore_Inr: "readStore fault w = Inr (s, src) \<Longrightarrow>
    \<not> fault \<and> s = store_of (twFile w) \<and> src = source_of (twFile w) \<and> (\<forall>g. twFile w \<noteq> Garbage g)"
  by (auto simp: readStore_def store_of_def source_of_def split: if_splits tfile.splits)

text \<open>What the steps under the lock do to the file: nothing, or the replacement after a backup.\<close>

definition replaced :: "tworld \<Rightarrow> tworld \<Rightarrow> tstore \<Rightarrow> bool" where
  "replaced w w' s \<longleftrightarrow> twFile w' = Stored s \<and> twBackups w' = twBackups w @ [source_of (twFile w)]"

lemma persist_cases:
  assumes "persist ft (source_of (twFile w)) s w = (w', res)"
  shows "(twFile w' = twFile w \<and> (\<exists>e. res = Inl e) \<or> replaced w w' s) \<and> twLock w' = twLock w"
  using assms by (auto simp: persist_def backUpStore_def writeStoreAtomically_def replaced_def split: if_splits)

lemma mutate_body_cases:
  assumes "mutate_body ft m w = (w', res)"
  shows "twLock w' = twLock w \<and>
    (twFile w' = twFile w \<and> (\<exists>e. res = Inl e) \<or>
     (\<exists>s r. m (store_of (twFile w)) = Inr (s, r) \<and> replaced w w' s \<and> (\<forall>x. res = Inr x \<longrightarrow> x = r)))"
proof (cases "readStore (ftRead ft) w :: 'a terror + (tstore \<times> tfile)")
  case (Inl e)
  with assms show ?thesis by (auto simp: mutate_body_def)
next
  case (Inr p)
  obtain s src where p: "p = (s, src)" by fastforce
  note read = readStore_Inr [OF Inr [unfolded p]]
  show ?thesis
  proof (cases "m s")
    case (Inl e)
    with assms Inr p show ?thesis by (auto simp: mutate_body_def)
  next
    case inr: (Inr q)
    obtain s' r where q: "q = (s', r)" by fastforce
    obtain w1 res1 where per: "persist ft src s' w = (w1, res1 :: 'a terror + unit)" by fastforce
    have "twLock w1 = twLock w \<and> (twFile w1 = twFile w \<and> (\<exists>e. res1 = Inl e) \<or> replaced w w1 s')"
      using persist_cases [of ft w s' w1 res1] per read by simp
    moreover have "w' = w1" "(\<exists>e. res1 = Inl e \<and> res = Inl e) \<or> res1 = Inr () \<and> res = Inr r"
      using assms Inr p inr q per by (auto simp: mutate_body_def bindS_def split: sum.splits)
    ultimately show ?thesis using inr q read by auto
  qed
qed

lemma mutateStore_cases:
  assumes "mutateStore ft m w = (w', res)"
  shows "twFile w' = twFile w \<and> (\<exists>e. res = Inl e) \<or>
    (\<exists>s r. m (store_of (twFile w)) = Inr (s, r) \<and> replaced w w' s \<and> (\<forall>x. res = Inr x \<longrightarrow> x = r \<and> \<not> twLock w'))"
proof (cases "acquireMutationLock ft w :: tworld \<times> ('a terror + unit)")
  case (Pair w1 r1)
  have same: "twFile w1 = twFile w" "twBackups w1 = twBackups w"
    using Pair by (auto simp: acquireMutationLock_def split: if_splits)
  show ?thesis
  proof (cases r1)
    case (Inl e)
    with assms Pair same show ?thesis by (auto simp: mutateStore_def with_lock_def)
  next
    case (Inr u)
    obtain w2 r2 where body: "mutate_body ft m w1 = (w2, r2)" by fastforce
    have "w' = w2\<lparr>twLock := False\<rparr> \<and> res = r2 \<or> w' = w2 \<and> res = Inl IOFault"
      using assms Pair Inr body by (cases "ftRelease ft") (auto simp: mutateStore_def with_lock_def release_lock_def)
    with mutate_body_cases [OF body] same show ?thesis by (auto simp: replaced_def)
  qed
qed

lemma mutateStore_Inr:
  assumes "mutateStore ft m w = (w', Inr x)"
  shows "\<exists>s. m (store_of (twFile w)) = Inr (s, x) \<and> twFile w' = Stored s"
  using mutateStore_cases [OF assms] by (auto simp: replaced_def)

lemma mutateStore_locked: "twLock w \<Longrightarrow> mutateStore ft m w = (w, Inl (if ftOpen ft then IOFault else Locked))"
  by (simp add: mutateStore_def with_lock_def acquireMutationLock_def)

section \<open>The invariant\<close>

definition store_ok :: "tstore \<Rightarrow> bool" where
  "store_ok s \<longleftrightarrow> length (tsClients s) \<le> max_clients \<and> list_all (\<lambda>c. clientSchema c \<noteq> None) (tsClients s) \<and>
     \<not> accounts_malformed s \<and> length (accountClientsOf s) \<le> max_account_clients \<and>
     list_all (\<lambda>c. accountClientSchema c \<noteq> None) (accountClientsOf s) \<and>
     distinct (map (cget ''name'') (allClients s)) \<and> distinct (map (cget ''tokenHash'') (allClients s))"

definition file_ok :: "tfile \<Rightarrow> bool" where
  "file_ok f \<longleftrightarrow> (case f of NoFile \<Rightarrow> True | Garbage _ \<Rightarrow> False | Stored s \<Rightarrow> store_ok s)"

lemma emptyStore_ok: "store_ok emptyStore"
  by (simp add: store_ok_def emptyStore_def accounts_malformed_def accountClientsOf_def allClients_def)

lemma file_ok_store: "file_ok f \<Longrightarrow> store_ok (store_of f)"
  by (cases f) (simp_all add: file_ok_def store_of_def emptyStore_ok)

definition entries :: "tstore \<Rightarrow> stored_client list" where
  "entries s = map (the \<circ> clientSchema) (tsClients s) @ map (the \<circ> accountClientSchema) (accountClientsOf s)"

lemma all_some_map: "list_all (\<lambda>x. f x \<noteq> None) xs \<Longrightarrow> all_some (map f xs) = Some (map (the \<circ> f) xs)"
  by (auto simp: all_some_def list_all_iff)

lemma map_filter_all: "list_all (\<lambda>x. f x \<noteq> None) xs \<Longrightarrow> List.map_filter f xs = map (the \<circ> f) xs"
  by (induction xs) (auto simp: List.map_filter_simps)

lemma loadStore_ok:
  assumes "store_ok s"
  shows "loadStore (Stored s) = Some (map (the \<circ> clientSchema) (tsClients s), map (the \<circ> accountClientSchema) (accountClientsOf s))"
  using assms by (auto simp: store_ok_def loadStore_def all_some_map map_filter_all)

lemma clientSchema_Some:
  assumes "clientSchema c = Some sc"
  shows "cget ''name'' c = Some (JStr (scName sc)) \<and> cget ''tokenHash'' c = Some (JStr (scHash sc)) \<and>
    scExpires sc = cget ''expiresAt'' c"
  using assms by (auto simp: clientSchema_def string_field_def split: option.splits json.splits if_splits)

lemma accountClientSchema_Some:
  assumes "accountClientSchema c = Some sc"
  shows "cget ''name'' c = Some (JStr (scName sc)) \<and> cget ''tokenHash'' c = Some (JStr (scHash sc)) \<and>
    scExpires sc = cget ''expiresAt'' c"
  using assms by (auto simp: accountClientSchema_def string_field_def split: option.splits json.splits if_splits)

definition well_shaped :: "tstore \<Rightarrow> bool" where
  "well_shaped s \<longleftrightarrow> length (tsClients s) \<le> max_clients \<and> list_all (\<lambda>c. clientSchema c \<noteq> None) (tsClients s) \<and>
     \<not> accounts_malformed s \<and> length (accountClientsOf s) \<le> max_account_clients \<and>
     list_all (\<lambda>c. accountClientSchema c \<noteq> None) (accountClientsOf s)"

lemma well_shaped_names:
  assumes "well_shaped s"
  shows "map (cget ''name'') (allClients s) = map (Some \<circ> JStr \<circ> scName) (entries s)"
    and "map (cget ''tokenHash'') (allClients s) = map (Some \<circ> JStr \<circ> scHash) (entries s)"
proof -
  have c: "\<exists>sc. clientSchema c = Some sc" if "c \<in> set (tsClients s)" for c
    using assms that by (auto simp: well_shaped_def list_all_iff)
  have a: "\<exists>sc. accountClientSchema c = Some sc" if "c \<in> set (accountClientsOf s)" for c
    using assms that by (auto simp: well_shaped_def list_all_iff)
  show "map (cget ''name'') (allClients s) = map (Some \<circ> JStr \<circ> scName) (entries s)"
    using clientSchema_Some accountClientSchema_Some by (fastforce simp: allClients_def entries_def dest: c a)
  show "map (cget ''tokenHash'') (allClients s) = map (Some \<circ> JStr \<circ> scHash) (entries s)"
    using clientSchema_Some accountClientSchema_Some by (fastforce simp: allClients_def entries_def dest: c a)
qed

lemma distinct_map_text: "distinct (map (\<lambda>x. Some (JStr (f x))) xs) = distinct (map f xs)"
  by (simp add: distinct_map inj_on_def)

lemma store_ok_iff:
  "store_ok s \<longleftrightarrow> well_shaped s \<and> distinct (map scName (entries s)) \<and> distinct (map scHash (entries s))"
proof (cases "well_shaped s")
  case True
  then show ?thesis using well_shaped_names [OF True]
    by (simp add: store_ok_def well_shaped_def comp_def distinct_map_text)
next
  case False
  then show ?thesis by (auto simp: store_ok_def well_shaped_def)
qed

lemma entries_distinct: "store_ok s \<Longrightarrow> distinct (map scName (entries s))" "store_ok s \<Longrightarrow> distinct (map scHash (entries s))"
  by (simp_all add: store_ok_iff)

text \<open>With distinct hashes, authorisation does not depend on the order of the file.\<close>

lemma authorize_entries:
  assumes ok: "file_ok f" and b: "bearer_of header = Some token"
  shows "authorizeApiToken tp f header room permission now = Some n \<longleftrightarrow>
    (\<exists>c\<in>set (entries (store_of f)). scHash c = tpHash tp token \<and> room \<in> set (scRooms c) \<and>
       permission \<in> set (scPermissions c) \<and> unexpired c now \<and> scName c = n)"
proof (cases f)
  case NoFile
  then show ?thesis using b by (simp add: authorizeApiToken_def loadStore_def store_of_def entries_def emptyStore_def accountClientsOf_def)
next
  case (Garbage g)
  with ok show ?thesis by (simp add: file_ok_def)
next
  case (Stored s)
  let ?P = "\<lambda>c. scHash c = tpHash tp token \<and> room \<in> set (scRooms c) \<and> permission \<in> set (scPermissions c) \<and> unexpired c now"
  from ok Stored have s: "store_ok s" by (simp add: file_ok_def)
  have eq: "authorizeApiToken tp f header room permission now = map_option scName (find ?P (entries s))"
    using b Stored loadStore_ok [OF s] by (simp add: authorizeApiToken_def entries_def)
  have inj: "inj_on scHash (set (entries s))" using entries_distinct(2) [OF s] by (simp add: distinct_map)
  have store: "store_of f = s" by (simp add: Stored store_of_def)
  show ?thesis unfolding eq store
  proof (cases "find ?P (entries s)")
    case None
    then have "\<not> ?P c" if "c \<in> set (entries s)" for c using that by (auto simp: find_None_iff)
    with None show "(map_option scName (find ?P (entries s)) = Some n) = (\<exists>c\<in>set (entries s). scHash c = tpHash tp token \<and>
        room \<in> set (scRooms c) \<and> permission \<in> set (scPermissions c) \<and> unexpired c now \<and> scName c = n)"
      by auto
  next
    case (Some c)
    then have c: "c \<in> set (entries s)" "?P c" by (auto simp: find_Some_iff)
    have "d = c" if "d \<in> set (entries s)" "?P d" for d using that c by (intro inj_onD [OF inj]) simp_all
    then have uniq: "(\<exists>d\<in>set (entries s). ?P d \<and> scName d = n) \<longleftrightarrow> scName c = n" using c by blast
    show "(map_option scName (find ?P (entries s)) = Some n) = (\<exists>c\<in>set (entries s). scHash c = tpHash tp token \<and>
        room \<in> set (scRooms c) \<and> permission \<in> set (scPermissions c) \<and> unexpired c now \<and> scName c = n)"
      unfolding Some using uniq by (simp add: conj_assoc)
  qed
qed

lemma name_taken_entries: "store_ok s \<Longrightarrow> name_taken n s \<longleftrightarrow> n \<in> scName ` set (entries s)"
proof -
  assume "store_ok s"
  then have "cget ''name'' ` set (allClients s) = (Some \<circ> JStr \<circ> scName) ` set (entries s)"
    using well_shaped_names(1) [of s] by (metis store_ok_iff list.set_map)
  then have "Some (JStr n) \<in> cget ''name'' ` set (allClients s) \<longleftrightarrow> n \<in> scName ` set (entries s)" by auto
  moreover have "name_taken n s \<longleftrightarrow> Some (JStr n) \<in> cget ''name'' ` set (allClients s)"
    unfolding name_taken_def list_ex_iff image_iff by metis
  ultimately show ?thesis by simp
qed

section \<open>Adding\<close>

lemma add_client_entries:
  assumes "add_client c n s = Inr (s', u)" and "store_ok s" and "clientSchema c = Some sc" and "scName sc = n"
    and "scHash sc \<notin> scHash ` set (entries s)"
  shows "store_ok s' \<and> set (entries s') = insert sc (set (entries s))"
proof -
  from assms(1,2) have s': "s' = s\<lparr>tsClients := tsClients s @ [c]\<rparr>" and "n \<notin> scName ` set (entries s)"
    and "length (tsClients s) < max_clients"
    by (auto simp: add_client_def res_simps name_taken_entries)
  moreover have "entries s' = map (the \<circ> clientSchema) (tsClients s) @ [sc] @ map (the \<circ> accountClientSchema) (accountClientsOf s)"
    using assms(3) by (simp add: s' entries_def accountClientsOf_def)
  moreover have "well_shaped s'"
    using assms(2,3) calculation(3) by (simp add: s' store_ok_iff well_shaped_def accounts_malformed_def accountClientsOf_def)
  ultimately show ?thesis
    using assms(2,4,5) by (auto simp: store_ok_iff entries_def)
qed

lemma add_account_client_entries:
  assumes "add_account_client c n s = Inr (s', u)" and "store_ok s" and "accountClientSchema c = Some sc" and "scName sc = n"
    and "scHash sc \<notin> scHash ` set (entries s)"
  shows "store_ok s' \<and> set (entries s') = insert sc (set (entries s))"
proof -
  from assms(1,2) have s': "s' = s\<lparr>tsAccounts := Some (Inr (accountClientsOf s @ [c]))\<rparr>" and "n \<notin> scName ` set (entries s)"
    and "length (accountClientsOf s) < max_account_clients"
    by (auto simp: add_account_client_def res_simps name_taken_entries)
  moreover have acc: "accountClientsOf s' = accountClientsOf s @ [c]" by (simp add: s' accountClientsOf_def)
  moreover have "entries s' = entries s @ [sc]" using assms(3) acc by (simp add: s' entries_def)
  moreover have "well_shaped s'"
    using assms(2,3) calculation(3) acc by (simp add: s' store_ok_iff well_shaped_def accounts_malformed_def)
  ultimately show ?thesis using assms(2,4,5) by (auto simp: store_ok_iff)
qed

section \<open>Changing records in place\<close>

lemma update_accounts: "\<not> accounts_malformed s \<Longrightarrow> accountClientsOf (update_records f s) = (if tsAccounts s = None then [] else f (accountClientsOf s))"
  by (auto simp: update_records_def accountClientsOf_def accounts_malformed_def split: option.splits sum.splits)

lemma update_records_map:
  assumes ok: "well_shaped s"
    and c: "\<And>c sc. c \<in> set (tsClients s) \<Longrightarrow> clientSchema c = Some sc \<Longrightarrow> clientSchema (g c) = Some (h sc)"
    and a: "\<And>c sc. c \<in> set (accountClientsOf s) \<Longrightarrow> accountClientSchema c = Some sc \<Longrightarrow> accountClientSchema (g c) = Some (h sc)"
  shows "well_shaped (update_records (map g) s) \<and> entries (update_records (map g) s) = map h (entries s)"
proof -
  let ?s = "update_records (map g) s"
  have acc: "accountClientsOf ?s = map g (accountClientsOf s)"
    using ok update_accounts [of s "map g"] by (auto simp: well_shaped_def accountClientsOf_def)
  have cl: "tsClients ?s = map g (tsClients s)" by (simp add: update_records_def)
  have 1: "\<exists>sc. clientSchema x = Some sc \<and> clientSchema (g x) = Some (h sc)" if "x \<in> set (tsClients s)" for x
    using ok c that by (fastforce simp: well_shaped_def list_all_iff)
  have 2: "\<exists>sc. accountClientSchema x = Some sc \<and> accountClientSchema (g x) = Some (h sc)" if "x \<in> set (accountClientsOf s)" for x
    using ok a that by (fastforce simp: well_shaped_def list_all_iff)
  have mal: "\<not> accounts_malformed ?s"
    using ok by (auto simp: well_shaped_def accounts_malformed_def update_records_def split: option.splits sum.splits)
  have "list_all (\<lambda>x. clientSchema x \<noteq> None) (map g (tsClients s))" "list_all (\<lambda>x. accountClientSchema x \<noteq> None) (map g (accountClientsOf s))"
    using 1 2 by (fastforce simp: list_all_iff)+
  then have shaped: "well_shaped ?s" using ok mal by (simp add: well_shaped_def acc cl)
  have "entries ?s = map h (entries s)"
    unfolding entries_def acc cl using 1 2 by (fastforce simp: comp_def)
  with shaped show ?thesis by simp
qed

lemma update_records_filter:
  assumes ok: "store_ok s" and p: "\<And>c. c \<in> set (allClients s) \<Longrightarrow> P c \<longleftrightarrow> cget ''name'' c \<noteq> Some (JStr n)"
  shows "store_ok (update_records (filter P) s) \<and>
    entries (update_records (filter P) s) = filter (\<lambda>e. scName e \<noteq> n) (entries s)"
proof -
  let ?s = "update_records (filter P) s"
  from ok have shaped: "well_shaped s" by (simp add: store_ok_iff)
  have acc: "accountClientsOf ?s = filter P (accountClientsOf s)"
    using shaped update_accounts [of s "filter P"] by (auto simp: well_shaped_def accountClientsOf_def)
  have cl: "tsClients ?s = filter P (tsClients s)" by (simp add: update_records_def)
  have 1: "P x \<longleftrightarrow> scName (the (clientSchema x)) \<noteq> n" if "x \<in> set (tsClients s)" for x
  proof -
    from that shaped obtain sc where "clientSchema x = Some sc" by (auto simp: well_shaped_def list_all_iff)
    with clientSchema_Some [OF this] p [of x] that show ?thesis by (simp add: allClients_def)
  qed
  have 2: "P x \<longleftrightarrow> scName (the (accountClientSchema x)) \<noteq> n" if "x \<in> set (accountClientsOf s)" for x
  proof -
    from that shaped obtain sc where "accountClientSchema x = Some sc" by (auto simp: well_shaped_def list_all_iff)
    with accountClientSchema_Some [OF this] p [of x] that show ?thesis by (simp add: allClients_def)
  qed
  have f1: "filter P (tsClients s) = filter (\<lambda>x. scName (the (clientSchema x)) \<noteq> n) (tsClients s)"
    using 1 by (rule filter_cong [OF refl])
  have f2: "filter P (accountClientsOf s) = filter (\<lambda>x. scName (the (accountClientSchema x)) \<noteq> n) (accountClientsOf s)"
    using 2 by (rule filter_cong [OF refl])
  have e: "entries ?s = filter (\<lambda>e. scName e \<noteq> n) (entries s)"
    unfolding entries_def acc cl f1 f2 by (simp add: filter_map comp_def)
  have mal: "\<not> accounts_malformed ?s"
    using shaped by (auto simp: well_shaped_def accounts_malformed_def update_records_def split: option.splits sum.splits)
  have "length (filter P (tsClients s)) \<le> max_clients" "length (filter P (accountClientsOf s)) \<le> max_account_clients"
    using shaped by (auto simp: well_shaped_def intro: order_trans [OF length_filter_le])
  then have "well_shaped ?s" using shaped mal by (auto simp: well_shaped_def acc cl list_all_iff)
  moreover have "distinct (map scName (entries ?s))" "distinct (map scHash (entries ?s))"
    using ok unfolding e store_ok_iff by (simp_all add: distinct_map inj_on_def)
  ultimately show ?thesis using e by (simp add: store_ok_iff)
qed

section \<open>Locating\<close>

lemma name_unique:
  assumes "store_ok s" and "c \<in> set (allClients s)" and "d \<in> set (allClients s)" and "cget ''name'' c = cget ''name'' d"
  shows "c = d"
proof -
  from assms(1) have "inj_on (cget ''name'') (set (allClients s))" by (simp add: store_ok_def distinct_map)
  with assms(2-4) show ?thesis by (meson inj_onD)
qed

lemma filter_single: "distinct xs \<Longrightarrow> x \<in> set xs \<Longrightarrow> filter (\<lambda>y. y = x) xs = [x]"
  by (induction xs) (auto simp: filter_empty_conv)

lemma named_single:
  assumes "store_ok s" and "c \<in> set (allClients s)" and "cget ''name'' c = Some (JStr n)"
  shows "filter (\<lambda>c. cget ''name'' c = Some (JStr n)) (allClients s) = [c]"
proof -
  from assms(1) have d: "distinct (map (cget ''name'') (allClients s))" by (simp add: store_ok_def)
  have "filter (\<lambda>x. cget ''name'' x = Some (JStr n)) (allClients s) = filter (\<lambda>x. x = c) (allClients s)"
    using name_unique [OF assms(1,2)] assms(3) by (intro filter_cong [OF refl]) auto
  also have "\<dots> = [c]"
    using d assms(2) by (intro filter_single) (simp_all add: distinct_map)
  finally show ?thesis .
qed

lemma locate_Inr:
  assumes "locateClients tp name fp auth s = Inr (targets, seen)" and "store_ok s"
  obtains c where "targets = [c]" and "c \<in> set (allClients s)" and "cget ''name'' c = Some (JStr name)"
    and "\<And>f. fp = Some f \<Longrightarrow> clientFingerprint tp (cget ''tokenHash'' c) = f"
    and "\<And>a. auth = Some a \<Longrightarrow> \<exists>r. a c = Inr r \<and> seen = Some r"
proof -
  let ?named = "filter (\<lambda>c. cget ''name'' c = Some (JStr name)) (allClients s)"
  from assms(1) have "?named \<noteq> []" by (auto simp: locateClients_def Let_def res_simps)
  then obtain c where c: "c \<in> set (allClients s)" "cget ''name'' c = Some (JStr name)" by (auto simp: filter_empty_conv)
  note named = named_single [OF assms(2) this]
  have t: "targets = [c] \<and> (\<forall>f. fp = Some f \<longrightarrow> clientFingerprint tp (cget ''tokenHash'' c) = f)"
    using assms(1) by (cases fp; cases auth) (auto simp: locateClients_def Let_def named res_simps split: if_splits)
  have "\<exists>r. a c = Inr r \<and> seen = Some r" if "auth = Some a" for a
    using assms(1) t that by (cases fp) (auto simp: locateClients_def Let_def named res_simps split: if_splits sum.splits)
  with t c that show thesis by blast
qed

lemma locate_missing:
  assumes "store_ok s" and "name \<notin> scName ` set (entries s)"
  shows "locateClients tp name fp auth s = Inl NotFound"
proof -
  have "filter (\<lambda>c. cget ''name'' c = Some (JStr name)) (allClients s) = []"
    using name_taken_entries [OF assms(1)] assms(2) by (auto simp: name_taken_def list_ex_iff filter_empty_conv)
  then show ?thesis by (simp add: locateClients_def)
qed

section \<open>Revoking, rotating, granting\<close>

lemma drop_entries:
  assumes "drop_targets tp name fp auth s = Inr (s', seen)" and "store_ok s"
  shows "store_ok s' \<and> entries s' = filter (\<lambda>e. scName e \<noteq> name) (entries s) \<and> name \<in> scName ` set (entries s)"
proof -
  from assms(1) obtain targets where loc: "locateClients tp name fp auth s = Inr (targets, seen)"
    and s': "s' = update_records (filter (\<lambda>c. c \<notin> set targets)) s"
    by (auto simp: drop_targets_def res_simps)
  obtain c where c: "targets = [c]" "c \<in> set (allClients s)" "cget ''name'' c = Some (JStr name)"
    using locate_Inr [OF loc assms(2)] by metis
  have "(x \<notin> set targets) = (cget ''name'' x \<noteq> Some (JStr name))" if "x \<in> set (allClients s)" for x
    using name_unique [OF assms(2) that c(2)] c(1,3) by auto
  from update_records_filter [OF assms(2) this] have "store_ok s' \<and> entries s' = filter (\<lambda>e. scName e \<noteq> name) (entries s)"
    unfolding s' by blast
  moreover have "name \<in> scName ` set (entries s)" using locate_missing [OF assms(2), of name tp fp auth] loc by auto
  ultimately show ?thesis by blast
qed

definition rotated_entry :: "string \<Rightarrow> string option \<Rightarrow> stored_client \<Rightarrow> stored_client" where
  "rotated_entry h expiresAt e =
     e\<lparr>scHash := h, scExpires := (case expiresAt of None \<Rightarrow> scExpires e | Some x \<Rightarrow> Some (JStr x))\<rparr>"

lemma rotated_client_get:
  "cget k (rotated_client tp token now expiresAt c) =
     (if k = ''expiresAt'' \<and> expiresAt \<noteq> None then Some (JStr (the expiresAt))
      else if k = ''rotatedAt'' then Some (JStr (toISOString now))
      else if k = ''tokenHash'' then Some (JStr (tpHash tp token)) else cget k c)"
  by (auto simp: rotated_client_def cget_cset Let_def split: option.splits)

lemma rotated_schema:
  assumes "is_token_hash (tpHash tp token)"
  shows "clientSchema c = Some e \<Longrightarrow> clientSchema (rotated_client tp token now expiresAt c) = Some (rotated_entry (tpHash tp token) expiresAt e)"
    and "accountClientSchema c = Some e \<Longrightarrow>
      accountClientSchema (rotated_client tp token now expiresAt c) = Some (rotated_entry (tpHash tp token) expiresAt e)"
  using assms
  by (auto simp: clientSchema_def accountClientSchema_def rotated_client_get rotated_entry_def string_field_def
      split: option.splits if_splits json.splits)

lemma distinct_map_change:
  assumes "distinct (map f xs)" and "y \<notin> f ` set xs" and "distinct (map k xs)"
  shows "distinct (map (\<lambda>x. if k x = n then y else f x) xs)"
  using assms by (induction xs) (auto simp: image_iff)

lemma rename_hash:
  assumes "store_ok s" and "well_shaped s'" and "entries s' = map (\<lambda>e. if scName e = name then rotated_entry h x e else e) (entries s)"
    and "h \<notin> scHash ` set (entries s)"
  shows "store_ok s'"
proof -
  have "map scName (entries s') = map scName (entries s)" unfolding assms(3) by (auto simp: rotated_entry_def)
  moreover have "map scHash (entries s') = map (\<lambda>e. if scName e = name then h else scHash e) (entries s)"
    unfolding assms(3) by (auto simp: rotated_entry_def)
  ultimately show ?thesis
    using assms(1,2,4) distinct_map_change [of scHash "entries s" h scName name] by (simp add: store_ok_iff)
qed

lemma update_one:
  assumes ok: "store_ok s" and c: "c \<in> set (allClients s)" "cget ''name'' c = Some (JStr name)"
    and sch: "\<And>e. clientSchema c = Some e \<Longrightarrow> clientSchema c' = Some (h e)"
      "\<And>e. accountClientSchema c = Some e \<Longrightarrow> accountClientSchema c' = Some (h e)"
  shows "well_shaped (update_records (map (\<lambda>x. if x = c then c' else x)) s) \<and>
    entries (update_records (map (\<lambda>x. if x = c then c' else x)) s) = map (\<lambda>e. if scName e = name then h e else e) (entries s)"
proof (rule update_records_map)
  show "well_shaped s" using ok by (simp add: store_ok_iff)
next
  fix x e assume x: "x \<in> set (tsClients s)" "clientSchema x = Some e"
  have "x = c \<longleftrightarrow> scName e = name"
    using name_unique [OF ok _ c(1), of x] x c clientSchema_Some [OF x(2)] by (auto simp: allClients_def)
  with x sch show "clientSchema (if x = c then c' else x) = Some (if scName e = name then h e else e)" by auto
next
  fix x e assume x: "x \<in> set (accountClientsOf s)" "accountClientSchema x = Some e"
  have "x = c \<longleftrightarrow> scName e = name"
    using name_unique [OF ok _ c(1), of x] x c accountClientSchema_Some [OF x(2)] by (auto simp: allClients_def)
  with x sch show "accountClientSchema (if x = c then c' else x) = Some (if scName e = name then h e else e)" by auto
qed

lemma rotate_target_Inr:
  assumes "rotate_target tp token now name fp expiresAt auth s = Inr (s', g, seen)" and ok: "store_ok s"
  obtains c where "locateClients tp name fp auth s = Inr ([c], seen)"
    and "c \<in> set (allClients s)" and "cget ''name'' c = Some (JStr name)" and "expiresAt \<noteq> None \<or> live_at c now"
    and "s' = update_records (map (\<lambda>x. if x = c then rotated_client tp token now expiresAt c else x)) s"
    and "gtToken g = token" and "gtName g = name"
proof (cases "locateClients tp name fp auth s")
  case (Inl e)
  with assms(1) show ?thesis by (simp add: rotate_target_def)
next
  case (Inr p)
  obtain targets seen0 where p: "p = (targets, seen0)" by fastforce
  obtain c where c: "targets = [c]" "c \<in> set (allClients s)" "cget ''name'' c = Some (JStr name)"
    using locate_Inr [OF Inr [unfolded p] ok] by metis
  from assms(1) Inr p c(1) have "seen0 = seen \<and> (expiresAt \<noteq> None \<or> live_at c now) \<and>
      s' = update_records (map (\<lambda>x. if x = c then rotated_client tp token now expiresAt c else x)) s \<and>
      gtToken g = token \<and> gtName g = name"
    by (auto simp: rotate_target_def Let_def res_simps)
  with Inr p c that [of c] show ?thesis by simp
qed

lemma rotate_entries:
  assumes "rotate_target tp token now name fp expiresAt auth s = Inr (s', g, seen)" and ok: "store_ok s"
    and "is_token_hash (tpHash tp token)" and "tpHash tp token \<notin> scHash ` set (entries s)"
  shows "store_ok s' \<and> name \<in> scName ` set (entries s) \<and>
    entries s' = map (\<lambda>e. if scName e = name then rotated_entry (tpHash tp token) expiresAt e else e) (entries s)"
proof -
  from assms(1) ok obtain c where loc: "locateClients tp name fp auth s = Inr ([c], seen)"
    and c: "c \<in> set (allClients s)" "cget ''name'' c = Some (JStr name)"
    and s': "s' = update_records (map (\<lambda>x. if x = c then rotated_client tp token now expiresAt c else x)) s"
    by (rule rotate_target_Inr)
  have e: "well_shaped s'" "entries s' = map (\<lambda>e. if scName e = name then rotated_entry (tpHash tp token) expiresAt e else e) (entries s)"
    using update_one [OF ok c, of "rotated_client tp token now expiresAt c" "rotated_entry (tpHash tp token) expiresAt"]
      rotated_schema [OF assms(3)] unfolding s' by blast+
  moreover have "name \<in> scName ` set (entries s)" using locate_missing [OF ok, of name tp fp auth] loc by auto
  ultimately show ?thesis using rename_hash [OF ok e assms(4)] by simp
qed

lemma grant_check_Inr:
  assumes "grant_check now c = Inr rooms"
  shows "live_at c now \<and> cget ''rooms'' c = Some (JArr rooms) \<and> length rooms < max_rooms"
  using assms by (cases "cget ''rooms'' c"; cases "the (cget ''rooms'' c)") (auto simp: grant_check_def res_simps)

lemma grant_target_Inr:
  assumes "grant_target tp name fp now s = Inr (c, rooms)" and ok: "store_ok s"
  shows "c \<in> set (accountClientsOf s) \<and> cget ''name'' c = Some (JStr name) \<and>
    clientFingerprint tp (cget ''tokenHash'' c) = fp \<and> live_at c now \<and>
    cget ''rooms'' c = Some (JArr rooms) \<and> length rooms < max_rooms"
proof -
  let ?targets = "filter (\<lambda>c. cget ''name'' c = Some (JStr name) \<and> clientFingerprint tp (cget ''tokenHash'' c) = fp) (accountClientsOf s)"
  let ?named = "filter (\<lambda>c. cget ''name'' c = Some (JStr name)) (allClients s)"
  from assms(1) have "?targets \<noteq> []" by (auto simp: grant_target_def Let_def res_simps)
  then obtain d where d: "d \<in> set (accountClientsOf s)" "cget ''name'' d = Some (JStr name)" by (auto simp: filter_empty_conv)
  have n: "?named = [d]" using d by (intro named_single [OF ok]) (simp_all add: allClients_def)
  obtain t ts where t: "?targets = t # ts" using \<open>?targets \<noteq> []\<close> by (cases ?targets) auto
  have tm: "t \<in> set (accountClientsOf s) \<and> cget ''name'' t = Some (JStr name) \<and> clientFingerprint tp (cget ''tokenHash'' t) = fp"
  proof -
    have "t \<in> set ?targets" unfolding t by simp
    then show ?thesis by simp
  qed
  have "ts = []" using assms(1) by (cases ts) (auto simp: grant_target_def Let_def n t res_simps)
  with assms(1) have "c = t \<and> live_at c now \<and> cget ''rooms'' c = Some (JArr rooms) \<and> length rooms < max_rooms"
    unfolding grant_target_def Let_def n t by (auto simp: res_simps dest: grant_check_Inr)
  with tm show ?thesis by blast
qed

definition with_room :: "string \<Rightarrow> stored_client \<Rightarrow> stored_client" where
  "with_room board e = e\<lparr>scRooms := scRooms e @ [board]\<rparr>"

lemma strings_of_simps [simp]: "strings_of [] = []" "strings_of (j # js) = (case j of JStr s \<Rightarrow> [s] | _ \<Rightarrow> []) @ strings_of js"
  by (simp_all add: strings_of_def)

lemma strings_of_append: "strings_of (xs @ ys) = strings_of xs @ strings_of ys"
  by (simp add: strings_of_def)

lemma granted_schema:
  assumes "accountClientSchema c = Some e" and "cget ''rooms'' c = Some (JArr rooms)" and "length rooms < max_rooms"
    and "isValidRoomId board"
  shows "accountClientSchema (cset ''rooms'' (JArr (rooms @ [JStr board])) c) = Some (with_room board e)"
  using assms
  by (auto simp: accountClientSchema_def cget_cset with_room_def string_items_def strings_of_append
      split: option.splits if_splits)

lemma granted_schema_client:
  assumes "clientSchema c = Some e" and "cget ''rooms'' c = Some (JArr rooms)" and "length rooms < max_rooms"
    and "isValidRoomId board"
  shows "clientSchema (cset ''rooms'' (JArr (rooms @ [JStr board])) c) = Some (with_room board e)"
  using assms
  by (auto simp: clientSchema_def cget_cset with_room_def string_items_def strings_of_append
      split: option.splits if_splits)

lemma grant_entries:
  assumes t: "grant_target tp name fp now s = Inr (c, rooms)" and ok: "store_ok s" and v: "isValidRoomId board"
  shows "store_ok (grant_room c rooms board s) \<and> name \<in> scName ` set (entries s) \<and>
    entries (grant_room c rooms board s) = map (\<lambda>e. if scName e = name then with_room board e else e) (entries s)"
proof -
  let ?c' = "cset ''rooms'' (JArr (rooms @ [JStr board])) c"
  note c = grant_target_Inr [OF t ok]
  have all: "c \<in> set (allClients s)" using c by (simp add: allClients_def)
  from ok have "distinct (map (cget ''name'') (allClients s))" by (simp add: store_ok_def)
  then have other: "x \<noteq> c" if "x \<in> set (tsClients s)" for x
    using that c by (auto simp: allClients_def)
  have f: "(\<lambda>x. if x = c then cset ''rooms'' (JArr (rooms @ [JStr board])) x else x) = (\<lambda>x. if x = c then ?c' else x)"
    by auto
  have "map (\<lambda>x. if x = c then ?c' else x) (tsClients s) = tsClients s"
    using other by (simp add: map_idI)
  then have room: "grant_room c rooms board s = update_records (map (\<lambda>x. if x = c then ?c' else x)) s"
    by (simp add: grant_room_def update_records_def f)
  have e: "well_shaped (grant_room c rooms board s)"
    "entries (grant_room c rooms board s) = map (\<lambda>e. if scName e = name then with_room board e else e) (entries s)"
    using update_one [OF ok all, of name ?c' "with_room board"] c v granted_schema [of c _ rooms board]
      granted_schema_client [of c _ rooms board] unfolding room by blast+
  have keys: "map scName (entries (grant_room c rooms board s)) = map scName (entries s)"
    "map scHash (entries (grant_room c rooms board s)) = map scHash (entries s)"
    unfolding e(2) by (auto simp: with_room_def)
  have "store_ok (grant_room c rooms board s)"
    unfolding store_ok_iff [of "grant_room c rooms board s"] keys using e(1) ok by (simp add: store_ok_iff)
  moreover have "name \<in> scName ` set (entries s)"
    using name_taken_entries [OF ok] all c by (auto simp: name_taken_def list_ex_iff)
  ultimately show ?thesis using e by blast
qed

end
