(* ===== verification/TokenSpec.thy ===== *)
theory TokenSpec
  imports TokenProofs
begin

text \<open>
  The operations of the token store against the reader: what \<open>createClient\<close>, \<open>createAccountClient\<close>,
  \<open>revokeClient\<close>, \<open>rotateClient\<close> and \<open>grantNewBoard\<close> do to the entries of the file.
\<close>

definition file_entries :: "tfile \<Rightarrow> stored_client list" where
  "file_entries f = entries (store_of f)"

lemma mutate_success:
  assumes "mutateStore ft m w = (w', Inr x)"
  obtains s where "m (store_of (twFile w)) = Inr (s, x)" and "twFile w' = Stored s"
  using mutateStore_cases [OF assms] by (auto simp: replaced_def)

lemma mutate_file_ok:
  assumes "mutateStore ft m w = (w', res)" and "file_ok (twFile w)"
    and "\<And>s' x. m (store_of (twFile w)) = Inr (s', x) \<Longrightarrow> store_ok s'"
  shows "file_ok (twFile w')"
  using mutateStore_cases [OF assms(1)] assms(2,3) by (auto simp: replaced_def file_ok_def [of "Stored _"])

section \<open>Creating\<close>

definition requested_expiry :: "expiry_input \<Rightarrow> json option" where
  "requested_expiry v = map_option (\<lambda>e. JStr (toISOString e)) (expiry_time v)"

definition new_entry :: "tparams \<Rightarrow> string \<Rightarrow> client_request \<Rightarrow> stored_client" where
  "new_entry tp token rq = \<lparr>scName = rqName rq, scHash = tpHash tp token, scRooms = rqRooms rq,
     scPermissions = mode_permissions (rqAccess rq), scExpires = requested_expiry (rqExpires rq), scOwner = [], scAccount = []\<rparr>"

lemma normaliseExpiry_requested:
  "normaliseExpiry v now = Inr x \<Longrightarrow> map_option JStr x = requested_expiry v"
  by (auto simp: normaliseExpiry_def requested_expiry_def expiry_time_def split: if_splits option.splits)

lemma all_strings: "list_all p xs \<Longrightarrow> list_all (\<lambda>j. case j of JStr s \<Rightarrow> p s | _ \<Rightarrow> False) (map JStr xs) \<and> strings_of (map JStr xs) = xs"
  by (induction xs) auto

lemma mode_permissions_ok: "isAccessMode a \<Longrightarrow> 1 \<le> length (mode_permissions a) \<and> length (mode_permissions a) \<le> 4 \<and>
    list_all is_permission (mode_permissions a)"
  by (auto simp: isAccessMode_def mode_permissions_def access_modes_def is_permission_def split: if_splits)

lemma perms_items: "isAccessMode a \<Longrightarrow> string_items is_permission 1 4 (Some (perms_json (mode_permissions a))) = Some (mode_permissions a)"
  using mode_permissions_ok [of a] all_strings [of is_permission "mode_permissions a"]
  by (simp add: string_items_def perms_json_def)

lemma opt_member_get: "map_of (opt_member k v) k' = (if k = k' then map_option JStr v else None)"
  by (auto simp: opt_member_def split: option.split)

lemma new_client_schema:
  assumes "isValidClientName (rqName rq)" and "1 \<le> length (rqRooms rq)" and "length (rqRooms rq) \<le> max_rooms"
    and "list_all isValidRoomId (rqRooms rq)" and "isAccessMode (rqAccess rq)" and "is_token_hash (tpHash tp token)"
    and "normaliseExpiry (rqExpires rq) (rqNow rq) = (Inr x :: 'e terror + string option)"
  shows "clientSchema (new_client tp token rq x d c) = Some (new_entry tp token rq)"
proof -
  have r: "string_items isValidRoomId 1 max_rooms (Some (JArr (map JStr (rqRooms rq)))) = Some (rqRooms rq)"
    using assms(2-4) all_strings [OF assms(4)] by (simp add: string_items_def)
  have "cget ''expiresAt'' (new_client tp token rq x d c) = requested_expiry (rqExpires rq)"
    using normaliseExpiry_requested [OF assms(7)]
    by (auto simp: cget_def new_client_def map_add_def opt_member_get split: option.split)
  moreover have "cget ''name'' (new_client tp token rq x d c) = Some (JStr (rqName rq))"
    "cget ''tokenHash'' (new_client tp token rq x d c) = Some (JStr (tpHash tp token))"
    "cget ''rooms'' (new_client tp token rq x d c) = Some (JArr (map JStr (rqRooms rq)))"
    "cget ''permissions'' (new_client tp token rq x d c) = Some (perms_json (mode_permissions (rqAccess rq)))"
    by (simp_all add: cget_def new_client_def)
  ultimately show ?thesis
    using assms(1,6) r perms_items [OF assms(5)] by (simp add: clientSchema_def string_field_def new_entry_def)
qed

lemma createClient_spec:
  assumes "createClient tp ft token rq w = (w', Inr g)" and ok: "file_ok (twFile w)"
    and h: "is_token_hash (tpHash tp token)" "tpHash tp token \<notin> scHash ` set (file_entries (twFile w))"
  shows "file_ok (twFile w') \<and> set (file_entries (twFile w')) = insert (new_entry tp token rq) (set (file_entries (twFile w)))"
proof -
  from assms(1) obtain x d c u where v: "isValidClientName (rqName rq)" "1 \<le> length (rqRooms rq)" "length (rqRooms rq) \<le> max_rooms"
      "list_all isValidRoomId (rqRooms rq)" "isAccessMode (rqAccess rq)"
    and chk: "check_request rq = (Inr (x, d, c) :: 'a terror + string option \<times> string option \<times> string option)"
    and m: "mutateStore ft (add_client (new_client tp token rq x d c) (rqName rq)) w = (w', Inr u :: 'a terror + unit)"
    by (fastforce simp: createClient_def bindS_def res_simps split: sum.splits prod.splits)
  from chk have e: "normaliseExpiry (rqExpires rq) (rqNow rq) = (Inr x :: 'a terror + string option)"
    by (auto simp: check_request_def res_simps)
  from mutate_success [OF m] obtain s where s: "add_client (new_client tp token rq x d c) (rqName rq) (store_of (twFile w)) = (Inr (s, u) :: 'a terror + tstore \<times> unit)"
    and f: "twFile w' = Stored s" by metis
  from add_client_entries [OF s file_ok_store [OF ok] new_client_schema [OF v h(1) e]] h(2) f show ?thesis
    by (simp add: file_entries_def file_ok_def store_of_def new_entry_def)
qed

definition new_account_entry :: "tparams \<Rightarrow> string \<Rightarrow> client_request \<Rightarrow> string \<Rightarrow> stored_client" where
  "new_account_entry tp token rq owner = \<lparr>scName = rqName rq, scHash = tpHash tp token, scRooms = [],
     scPermissions = mode_permissions (rqAccess rq), scExpires = requested_expiry (rqExpires rq), scOwner = owner,
     scAccount = [board_create]\<rparr>"

lemma new_account_schema:
  assumes "isValidClientName (rqName rq)" and "isAccessMode (rqAccess rq)" and "is_token_hash (tpHash tp token)"
    and "matches_class is_creator_char 1 128 owner"
    and "normaliseExpiry (rqExpires rq) (rqNow rq) = (Inr x :: 'e terror + string option)"
  shows "accountClientSchema (new_account_client tp token rq owner x d c) = Some (new_account_entry tp token rq owner)"
proof -
  have "cget ''expiresAt'' (new_account_client tp token rq owner x d c) = requested_expiry (rqExpires rq)"
    using normaliseExpiry_requested [OF assms(5)]
    by (auto simp: cget_def new_account_client_def map_add_def opt_member_get split: option.split)
  moreover have "cget ''name'' (new_account_client tp token rq owner x d c) = Some (JStr (rqName rq))"
    "cget ''tokenHash'' (new_account_client tp token rq owner x d c) = Some (JStr (tpHash tp token))"
    "cget ''ownerUserId'' (new_account_client tp token rq owner x d c) = Some (JStr owner)"
    "cget ''accountPermissions'' (new_account_client tp token rq owner x d c) = Some (JArr [JStr board_create])"
    "cget ''rooms'' (new_account_client tp token rq owner x d c) = Some (JArr [])"
    "cget ''permissions'' (new_account_client tp token rq owner x d c) = Some (perms_json (mode_permissions (rqAccess rq)))"
    by (simp_all add: cget_def new_account_client_def)
  moreover have "is_owner_char = is_creator_char" by (rule ext) (simp add: is_owner_char_def is_creator_char_def)
  ultimately show ?thesis
    using assms(1,3,4) perms_items [OF assms(2)]
    by (simp add: accountClientSchema_def string_field_def new_account_entry_def string_items_def [of _ 0])
qed

lemma createAccountClient_spec:
  assumes "createAccountClient tp ft token rq w = (w', Inr g)" and ok: "file_ok (twFile w)"
    and h: "is_token_hash (tpHash tp token)" "tpHash tp token \<notin> scHash ` set (file_entries (twFile w))"
  shows "\<exists>owner. rqOwner rq = Some (JStr owner) \<and> file_ok (twFile w') \<and>
    set (file_entries (twFile w')) = insert (new_account_entry tp token rq owner) (set (file_entries (twFile w)))"
proof -
  from assms(1) obtain x d c u owner where v: "isValidClientName (rqName rq)" "isAccessMode (rqAccess rq)"
    and own: "normaliseCreator (rqOwner rq) = (Inr (Some owner) :: 'a terror + string option)"
    and chk: "check_request rq = (Inr (x, d, c) :: 'a terror + string option \<times> string option \<times> string option)"
    and m: "mutateStore ft (add_account_client (new_account_client tp token rq owner x d c) (rqName rq)) w = (w', Inr u :: 'a terror + unit)"
    by (fastforce simp: createAccountClient_def bindS_def res_simps split: sum.splits prod.splits option.splits)
  from own have o: "rqOwner rq = Some (JStr owner)" "matches_class is_creator_char 1 128 owner"
    by (auto simp: normaliseCreator_def split: option.splits json.splits if_splits)
  from chk have e: "normaliseExpiry (rqExpires rq) (rqNow rq) = (Inr x :: 'a terror + string option)"
    by (auto simp: check_request_def res_simps)
  from mutate_success [OF m] obtain s where s: "add_account_client (new_account_client tp token rq owner x d c) (rqName rq)
      (store_of (twFile w)) = (Inr (s, u) :: 'a terror + tstore \<times> unit)"
    and f: "twFile w' = Stored s" by metis
  from add_account_client_entries [OF s file_ok_store [OF ok] new_account_schema [OF v h(1) o(2) e]] h(2) f o(1) show ?thesis
    by (simp add: file_entries_def file_ok_def store_of_def new_account_entry_def)
qed

section \<open>Revoking and rotating\<close>

lemma revokeClient_spec:
  assumes "revokeClient tp ft name fp auth w = (w', Inr seen)" and ok: "file_ok (twFile w)"
  shows "file_ok (twFile w') \<and> name \<in> scName ` set (file_entries (twFile w)) \<and>
    file_entries (twFile w') = filter (\<lambda>e. scName e \<noteq> name) (file_entries (twFile w))"
proof -
  from assms(1) have m: "mutateStore ft (drop_targets tp name fp auth) w = (w', Inr seen)"
    by (auto simp: revokeClient_def bindS_def res_simps split: sum.splits)
  from mutate_success [OF m] obtain s where s: "drop_targets tp name fp auth (store_of (twFile w)) = Inr (s, seen)"
    and f: "twFile w' = Stored s" by metis
  from drop_entries [OF s file_ok_store [OF ok]] f show ?thesis
    by (simp add: file_entries_def file_ok_def store_of_def)
qed

definition rotated_expiry :: "expiry_input \<Rightarrow> string option" where
  "rotated_expiry v = map_option toISOString (expiry_time v)"

lemma normaliseExpiry_rotated: "normaliseExpiry v now = Inr x \<Longrightarrow> x = rotated_expiry v"
  by (auto simp: normaliseExpiry_def rotated_expiry_def expiry_time_def split: if_splits option.splits)

lemma rotateClient_run:
  assumes "rotateClient tp ft token now name fp expires auth w = (w', Inr (g, seen))"
  obtains s where "rotate_target tp token now name fp (rotated_expiry expires) auth (store_of (twFile w)) = Inr (s, g, seen)"
    and "twFile w' = Stored s"
proof -
  from assms obtain x where x: "normaliseExpiry expires now = (Inr x :: 'a terror + string option)"
    and m: "mutateStore ft (rotate_target tp token now name fp x auth) w = (w', Inr (g, seen))"
    by (auto simp: rotateClient_def bindS_def res_simps split: sum.splits prod.splits)
  from mutate_success [OF m] normaliseExpiry_rotated [OF x] that show thesis by metis
qed

lemma rotateClient_spec:
  assumes run: "rotateClient tp ft token now name fp expires auth w = (w', Inr (g, seen))" and ok: "file_ok (twFile w)"
    and h: "is_token_hash (tpHash tp token)" "tpHash tp token \<notin> scHash ` set (file_entries (twFile w))"
  shows "file_ok (twFile w') \<and> name \<in> scName ` set (file_entries (twFile w)) \<and>
    file_entries (twFile w') = map (\<lambda>e. if scName e = name then rotated_entry (tpHash tp token) (rotated_expiry expires) e else e)
      (file_entries (twFile w))"
proof -
  from run obtain s where s: "rotate_target tp token now name fp (rotated_expiry expires) auth (store_of (twFile w)) = Inr (s, g, seen)"
    and f: "twFile w' = Stored s" by (rule rotateClient_run)
  from rotate_entries [OF s file_ok_store [OF ok] h(1)] h(2) f show ?thesis
    by (simp add: file_entries_def file_ok_def store_of_def)
qed

section \<open>Granting\<close>

text \<open>
  How a grant can end: nothing granted (and no board made, or the board made is removed again), or
  granted in the file with the board made kept.
\<close>

definition not_granted ::
    "tparams \<Rightarrow> string \<Rightarrow> string \<Rightarrow> int \<Rightarrow> (client \<Rightarrow> 'w \<Rightarrow> 'w \<times> ('e + string)) \<Rightarrow> (string \<Rightarrow> 'w \<Rightarrow> 'w \<times> ('e + unit))
      \<Rightarrow> tworld \<times> 'w \<Rightarrow> tworld \<times> 'w \<Rightarrow> bool" where
  "not_granted tp name fp now prepare rollback wx wx' \<longleftrightarrow> twFile (fst wx') = twFile (fst wx) \<and>
     (snd wx' = snd wx \<or>
      (\<exists>c old. grant_target tp name fp now (store_of (twFile (fst wx))) = (Inr (c, old) :: 'e terror + client \<times> json list) \<and>
        ((\<exists>e. prepare c (snd wx) = (snd wx', Inl e)) \<or>
         (\<exists>x1 board. prepare c (snd wx) = (x1, Inr board) \<and> snd wx' = fst (rollback board x1)))))"

definition granted ::
    "tparams \<Rightarrow> string \<Rightarrow> string \<Rightarrow> int \<Rightarrow> (client \<Rightarrow> 'w \<Rightarrow> 'w \<times> ('e + string)) \<Rightarrow> tworld \<times> 'w \<Rightarrow> tworld \<times> 'w \<Rightarrow> string \<Rightarrow> json list \<Rightarrow> bool" where
  "granted tp name fp now prepare wx wx' board rooms \<longleftrightarrow>
     (\<exists>c old. grant_target tp name fp now (store_of (twFile (fst wx))) = (Inr (c, old) :: 'e terror + client \<times> json list) \<and>
        prepare c (snd wx) = (snd wx', Inr board) \<and> rooms = old @ [JStr board] \<and> isValidRoomId board \<and> JStr board \<notin> set old \<and>
        twFile (fst wx') = Stored (grant_room c old board (store_of (twFile (fst wx)))))"

text \<open>
  The double fault: the file grants the board, but the mode change after the rename and the reread that
  was to notice the grant both failed, so the board made was handed to the rollback all the same.
\<close>

definition stranded ::
    "tparams \<Rightarrow> string \<Rightarrow> string \<Rightarrow> int \<Rightarrow> (client \<Rightarrow> 'w \<Rightarrow> 'w \<times> ('e + string)) \<Rightarrow> (string \<Rightarrow> 'w \<Rightarrow> 'w \<times> ('e + unit))
      \<Rightarrow> tworld \<times> 'w \<Rightarrow> tworld \<times> 'w \<Rightarrow> bool" where
  "stranded tp name fp now prepare rollback wx wx' \<longleftrightarrow>
     (\<exists>x1 board rooms. granted tp name fp now prepare wx (fst wx', x1) board rooms \<and> snd wx' = fst (rollback board x1))"

lemma not_persisted:
  assumes "grant_target tp name fp now s = Inr (c, rooms)" and "store_ok s" and "JStr board \<notin> set rooms"
    and "store_of (twFile w) = s"
  shows "\<not> grantIsPersisted tp fault name fp board w"
proof
  assume g: "grantIsPersisted tp fault name fp board w"
  then obtain s' src where r: "readStore fault w = (Inr (s', src) :: unit terror + tstore \<times> tfile)"
    by (auto simp: grantIsPersisted_def split: sum.splits)
  with readStore_Inr [OF r] assms(4) have s': "s' = s" by simp
  with g r obtain d where d: "d \<in> set (accountClientsOf s)" "cget ''name'' d = Some (JStr name)"
    "case cget ''rooms'' d of Some (JArr rs) \<Rightarrow> JStr board \<in> set rs | _ \<Rightarrow> False"
    by (auto simp: grantIsPersisted_def list_ex_iff)
  note c = grant_target_Inr [OF assms(1,2)]
  have "d = c" using name_unique [OF assms(2)] d(1,2) c by (auto simp: allClients_def)
  with d c assms(3) show False by simp
qed

lemma persisted:
  assumes "grant_target tp name fp now s = Inr (c, rooms)" and "store_ok s" and "twFile w = Stored (grant_room c rooms board s)"
  shows "grantIsPersisted tp False name fp board w"
proof -
  note c = grant_target_Inr [OF assms(1,2)]
  let ?c' = "cset ''rooms'' (JArr (rooms @ [JStr board])) c"
  have "\<exists>cs. tsAccounts s = Some (Inr cs) \<and> c \<in> set cs"
    using c by (cases "tsAccounts s"; cases "the (tsAccounts s)") (auto simp: accountClientsOf_def)
  then obtain cs where cs: "tsAccounts s = Some (Inr cs)" "c \<in> set cs" by blast
  have "?c' \<in> set (accountClientsOf (grant_room c rooms board s))"
    using cs by (force simp: grant_room_def accountClientsOf_def)
  with c assms(3) show ?thesis
    by (auto simp: grantIsPersisted_def readStore_def list_ex_iff cget_cset intro!: bexI [of _ ?c'])
qed

lemma grant_body_cases:
  assumes run: "grant_body tp ft name fp now prepare rollback (w, x) = ((w', x'), res)" and ok: "file_ok (twFile w)"
  shows "not_granted tp name fp now prepare rollback (w, x) (w', x') \<and> (\<exists>e. res = Inl e) \<or>
    (\<exists>board rooms. granted tp name fp now prepare (w, x) (w', x') board rooms \<and> res = Inr (board, rooms)) \<or>
    ftMode ft \<and> ftReread ft \<and> stranded tp name fp now prepare rollback (w, x) (w', x') \<and> (\<exists>e. res = Inl e)"
proof (cases "readStore (ftRead ft) w :: 'b terror + (tstore \<times> tfile)")
  case (Inl e)
  with run show ?thesis by (auto simp: grant_body_def not_granted_def)
next
  case rd: (Inr p)
  obtain s src where p: "p = (s, src)" by fastforce
  from readStore_Inr [OF rd [unfolded p]] have s: "s = store_of (twFile w)" "src = source_of (twFile w)" by simp_all
  have sok: "store_ok s" using file_ok_store [OF ok] s by simp
  show ?thesis
  proof (cases "grant_target tp name fp now s :: 'b terror + (client \<times> json list)")
    case (Inl e)
    with run rd p show ?thesis by (auto simp: grant_body_def not_granted_def)
  next
    case t: (Inr q)
    obtain c rooms where q: "q = (c, rooms)" by fastforce
    obtain x1 pr where prep: "prepare c x = (x1, pr)" by fastforce
    show ?thesis
    proof (cases pr)
      case (Inl e)
      with run rd p t q prep s show ?thesis by (auto simp: grant_body_def not_granted_def)
    next
      case board: (Inr board)
      obtain x2 rr where roll: "rollback board x1 = (x2, rr)" by fastforce
      have undone: "\<exists>c old. grant_target tp name fp now s = (Inr (c, old) :: 'b terror + client \<times> json list) \<and>
          (\<exists>x1 board. prepare c x = (x1, Inr board) \<and> x2 = fst (rollback board x1))"
        using prep board roll t q by (metis fst_conv)
      show ?thesis
      proof (cases "\<not> isValidRoomId board \<or> JStr board \<in> set rooms")
        case True
        with run rd p t q prep board roll undone s show ?thesis
          by (cases rr) (auto simp: grant_body_def not_granted_def)
      next
        case valid: False
        obtain w1 pe where per: "persist ft src (grant_room c rooms board s) w = (w1, pe :: 'b terror + unit)" by fastforce
        have cases: "twFile w1 = twFile w \<and> (\<exists>e. pe = Inl e) \<or> twFile w1 = Stored (grant_room c rooms board s)"
          using persist_cases [of ft w "grant_room c rooms board s" w1 pe] per s by (auto simp: replaced_def)
        have mode: "ftMode ft" if "twFile w1 = Stored (grant_room c rooms board s)" "pe = Inl e" "twFile w1 \<noteq> twFile w" for e
          using per that by (auto simp: persist_def backUpStore_def writeStoreAtomically_def split: if_splits)
        show ?thesis
        proof (cases pe)
          case (Inr u)
          with run rd p t q prep board valid per cases s show ?thesis
            by (auto simp: grant_body_def granted_def)
        next
          case err: (Inl e)
          show ?thesis
          proof (cases "twFile w1 = twFile w")
            case True
            then have "\<not> grantIsPersisted tp (ftReread ft) name fp board w1"
              using not_persisted [OF t [unfolded q] sok, of board w1] valid s by simp
            with run rd p t q prep board valid per err roll True undone s show ?thesis
              by (cases rr) (auto simp: grant_body_def not_granted_def)
          next
            case False
            with cases have f: "twFile w1 = Stored (grant_room c rooms board s)" by simp
            with mode err False have m: "ftMode ft" by blast
            show ?thesis
            proof (cases "ftReread ft")
              case True
              then have "\<not> grantIsPersisted tp (ftReread ft) name fp board w1"
                by (simp add: grantIsPersisted_def readStore_def)
              with run rd p t q prep board valid per err roll have r: "w' = w1" "x' = x2" "\<exists>e. res = Inl e"
                by (cases rr; auto simp: grant_body_def)+
              have "granted tp name fp now prepare (w, x) (w1, x1) board (rooms @ [JStr board])"
                using t q prep board valid f s by (auto simp: granted_def)
              with r roll have "stranded tp name fp now prepare rollback (w, x) (w', x')"
                by (auto simp: stranded_def) (metis fst_conv)
              with m True r(3) show ?thesis by blast
            next
              case False
              then have "grantIsPersisted tp (ftReread ft) name fp board w1"
                using persisted [OF t [unfolded q] sok f] by simp
              with run rd p t q prep board valid per err f s show ?thesis
                by (auto simp: grant_body_def granted_def)
            qed
          qed
        qed
      qed
    qed
  qed
qed

end
