(* ===== verification/TokenMachine.thy ===== *)
theory TokenMachine
  imports TokenSpec AuthDb
begin

text \<open>
  The token store as a state machine: one step is one call of an operation, under any faults of the
  file system. Every step keeps the file one the reader accepts.
\<close>

section \<open>Under the lock\<close>

lemma with_lock_cases:
  fixes res :: "'e terror + 'a"
  assumes "with_lock ft body (w, x) = ((w', x'), res)"
  shows "(twFile w' = twFile w \<and> x' = x \<and> (\<exists>e. res = Inl e)) \<or>
    (\<exists>w1 w2 r2. twFile w1 = twFile w \<and> body (w1, x) = ((w2, x'), r2) \<and> twFile w' = twFile w2 \<and>
       (res = r2 \<or> ftRelease ft \<and> res = Inl IOFault))"
proof -
  obtain w1 r1 where acq: "acquireMutationLock ft w = (w1, r1 :: 'e terror + unit)" by fastforce
  have same: "twFile w1 = twFile w" using acq by (auto simp: acquireMutationLock_def split: if_splits)
  obtain w2 x2 r2 where body: "body (w1, x) = ((w2, x2), r2)" by (metis surj_pair)
  show ?thesis
  proof (cases r1)
    case (Inl e)
    with assms acq same show ?thesis by (auto simp: with_lock_def)
  next
    case (Inr u)
    with assms acq body have "x2 = x' \<and> twFile w' = twFile w2 \<and> (res = r2 \<or> ftRelease ft \<and> res = Inl IOFault)"
      by (cases "ftRelease ft") (auto simp: with_lock_def release_lock_def)
    with body same show ?thesis by blast
  qed
qed

lemma granted_file_ok:
  fixes prepare :: "client \<Rightarrow> 'w \<Rightarrow> 'w \<times> ('e + string)"
  assumes "granted tp name fp now prepare (w, x) (w', x') board rooms" and "file_ok (twFile w)"
  shows "file_ok (twFile w')"
proof -
  from assms(1) obtain c old where t: "grant_target tp name fp now (store_of (twFile w)) = (Inr (c, old) :: 'e terror + client \<times> json list)"
    and v: "isValidRoomId board" and f: "twFile w' = Stored (grant_room c old board (store_of (twFile w)))"
    unfolding granted_def by auto
  from grant_entries [OF t file_ok_store [OF assms(2)] v] f show ?thesis by (simp add: file_ok_def)
qed

lemma outcome_cong:
  assumes "twFile w1 = twFile w" and "twFile w' = twFile w2"
  shows "not_granted tp name fp now prepare rollback (w1, x) (w2, x') = not_granted tp name fp now prepare rollback (w, x) (w', x')"
    and "granted tp name fp now prepare (w1, x) (w2, x') board rooms = granted tp name fp now prepare (w, x) (w', x') board rooms"
    and "stranded tp name fp now prepare rollback (w1, x) (w2, x') = stranded tp name fp now prepare rollback (w, x) (w', x')"
  using assms by (simp_all add: not_granted_def granted_def stranded_def)

section \<open>The invariant\<close>

text \<open>One call on the store, under any faults; a new token hashes to 64 hexadecimal digits no record has.\<close>

definition fresh_token :: "tparams \<Rightarrow> string \<Rightarrow> tworld \<Rightarrow> bool" where
  "fresh_token tp token w \<longleftrightarrow> is_token_hash (tpHash tp token) \<and> tpHash tp token \<notin> scHash ` set (file_entries (twFile w))"

inductive token_step :: "tparams \<Rightarrow> tworld \<Rightarrow> tworld \<Rightarrow> bool" for tp where
  Create: "fresh_token tp token w \<Longrightarrow> createClient tp ft token rq w = (w', (res :: unit terror + client_grant)) \<Longrightarrow> token_step tp w w'"
| CreateAccount: "fresh_token tp token w \<Longrightarrow> createAccountClient tp ft token rq w = (w', (res :: unit terror + client_grant)) \<Longrightarrow>
    token_step tp w w'"
| Revoke: "revokeClient tp ft name fp auth w = (w', (res :: unit terror + unit option)) \<Longrightarrow> token_step tp w w'"
| Rotate: "fresh_token tp token w \<Longrightarrow> rotateClient tp ft token now name fp expires auth w = (w', (res :: unit terror + (client_grant \<times> unit option))) \<Longrightarrow>
    token_step tp w w'"
| Grant: "grantNewBoard tp ft name fp now prepare rollback (w, (x :: adb)) = ((w', x'), (res :: auth_error terror + (string \<times> json list))) \<Longrightarrow>
    token_step tp w w'"

inductive token_runs :: "tparams \<Rightarrow> tworld \<Rightarrow> tworld \<Rightarrow> bool" for tp where
  TokStop: "token_runs tp w w"
| TokStep: "token_runs tp w w1 \<Longrightarrow> token_step tp w1 w2 \<Longrightarrow> token_runs tp w w2"

lemma bindS_fst: "fst (bindS m (\<lambda>x w. (w, g x))) = fst m"
  by (cases m; cases "snd m") (auto simp: bindS_def)

lemma createClient_ok:
  fixes res :: "'e terror + client_grant"
  assumes ok: "file_ok (twFile w)" and fresh: "fresh_token tp token w" and run: "createClient tp ft token rq w = (w', res)"
  shows "file_ok (twFile w')"
proof (cases "isValidClientName (rqName rq) \<and> 1 \<le> length (rqRooms rq) \<and> length (rqRooms rq) \<le> max_rooms \<and>
    list_all isValidRoomId (rqRooms rq) \<and> isAccessMode (rqAccess rq)")
  case False
  with run ok show ?thesis by (auto simp: createClient_def guardR_def split: if_splits)
next
  case v: True
  show ?thesis
  proof (cases "check_request rq :: 'e terror + _")
    case (Inl e)
    with run v ok show ?thesis by (auto simp: createClient_def guardR_def)
  next
    case (Inr p)
    obtain x d c where p: "p = (x, d, c)" by (metis prod_cases3)
    obtain w1 r1 where m: "mutateStore ft (add_client (new_client tp token rq x d c) (rqName rq)) w = (w1, r1 :: 'e terror + unit)" by fastforce
    have w1: "w' = w1" using run v Inr p m by (cases r1) (auto simp: createClient_def guardR_def)
    from Inr p have e: "normaliseExpiry (rqExpires rq) (rqNow rq) = (Inr x :: 'e terror + string option)"
      by (auto simp: check_request_def res_simps)
    have sch: "clientSchema (new_client tp token rq x d c) = Some (new_entry tp token rq)"
      using new_client_schema [OF _ _ _ _ _ _ e] v fresh by (simp add: fresh_token_def)
    have "store_ok s'" if "add_client (new_client tp token rq x d c) (rqName rq) (store_of (twFile w)) = (Inr (s', u) :: 'e terror + _)" for s' u
      using add_client_entries [OF that file_ok_store [OF ok] sch] fresh
      by (simp add: fresh_token_def file_entries_def new_entry_def)
    from mutate_file_ok [OF m ok this] w1 show ?thesis by simp
  qed
qed

lemma createAccountClient_ok:
  fixes res :: "'e terror + client_grant"
  assumes ok: "file_ok (twFile w)" and fresh: "fresh_token tp token w" and run: "createAccountClient tp ft token rq w = (w', res)"
  shows "file_ok (twFile w')"
proof (cases "isValidClientName (rqName rq) \<and> isAccessMode (rqAccess rq)")
  case False
  with run ok show ?thesis by (auto simp: createAccountClient_def guardR_def split: if_splits)
next
  case v: True
  show ?thesis
  proof (cases "\<exists>owner p. normaliseCreator (rqOwner rq) = (Inr (Some owner) :: 'e terror + _) \<and> check_request rq = (Inr p :: 'e terror + _)")
    case False
    with run v ok show ?thesis
      by (auto simp: createAccountClient_def guardR_def bindS_def split: sum.splits option.splits)
  next
    case True
    then obtain owner x d c where own: "normaliseCreator (rqOwner rq) = (Inr (Some owner) :: 'e terror + _)"
      and chk: "check_request rq = (Inr (x, d, c) :: 'e terror + _)" by (metis prod_cases3)
    obtain w1 r1 where m: "mutateStore ft (add_account_client (new_account_client tp token rq owner x d c) (rqName rq)) w = (w1, r1 :: 'e terror + unit)" by fastforce
    have w1: "w' = w1" using run v own chk m by (cases r1) (auto simp: createAccountClient_def guardR_def)
    from chk have e: "normaliseExpiry (rqExpires rq) (rqNow rq) = (Inr x :: 'e terror + string option)"
      by (auto simp: check_request_def res_simps)
    from own have "matches_class is_creator_char 1 128 owner"
      by (auto simp: normaliseCreator_def split: option.splits json.splits if_splits)
    then have sch: "accountClientSchema (new_account_client tp token rq owner x d c) = Some (new_account_entry tp token rq owner)"
      using new_account_schema [OF _ _ _ _ e] v fresh by (simp add: fresh_token_def)
    have "store_ok s'" if "add_account_client (new_account_client tp token rq owner x d c) (rqName rq) (store_of (twFile w)) =
        (Inr (s', u) :: 'e terror + _)" for s' u
      using add_account_client_entries [OF that file_ok_store [OF ok] sch] fresh
      by (simp add: fresh_token_def file_entries_def new_account_entry_def)
    from mutate_file_ok [OF m ok this] w1 show ?thesis by simp
  qed
qed

lemma revokeClient_ok:
  assumes ok: "file_ok (twFile w)" and run: "revokeClient tp ft name fp auth w = (w', res)"
  shows "file_ok (twFile w')"
proof (cases "isValidClientName name")
  case False
  with run ok show ?thesis by (simp add: revokeClient_def guardR_def)
next
  case True
  with run have m: "mutateStore ft (drop_targets tp name fp auth) w = (w', res)"
    by (simp add: revokeClient_def guardR_def)
  from mutate_file_ok [OF m ok] drop_entries [OF _ file_ok_store [OF ok]] show ?thesis by blast
qed

lemma rotateClient_ok:
  fixes res :: "'e terror + (client_grant \<times> 'a option)"
  assumes ok: "file_ok (twFile w)" and fresh: "fresh_token tp token w"
    and run: "rotateClient tp ft token now name fp expires auth w = (w', res)"
  shows "file_ok (twFile w')"
proof (cases "isValidClientName name \<and> (\<exists>x. normaliseExpiry expires now = (Inr x :: 'e terror + string option))")
  case False
  with run ok show ?thesis by (auto simp: rotateClient_def guardR_def bindS_def split: if_splits sum.splits)
next
  case True
  then obtain x where "normaliseExpiry expires now = (Inr x :: 'e terror + string option)" by blast
  with run True have m: "mutateStore ft (rotate_target tp token now name fp x auth) w = (w', res)"
    by (simp add: rotateClient_def guardR_def)
  have "store_ok s'" if "rotate_target tp token now name fp x auth (store_of (twFile w)) = Inr (s', g)" for s' g
    using rotate_entries [of tp token now name fp x auth _ s' "fst g" "snd g"] that file_ok_store [OF ok] fresh
    by (simp add: fresh_token_def file_entries_def)
  from mutate_file_ok [OF m ok this] show ?thesis by simp
qed

lemma grant_ok:
  assumes ok: "file_ok (twFile w)" and run: "grantNewBoard tp ft name fp now prepare rollback (w, x) = ((w', x'), res)"
  shows "file_ok (twFile w')"
proof (cases "isValidClientName name \<and> fp \<noteq> []")
  case False
  with run ok show ?thesis by (auto simp: grantNewBoard_def split: if_splits)
next
  case True
  with run have "with_lock ft (grant_body tp ft name fp now prepare rollback) (w, x) = ((w', x'), res)"
    by (simp add: grantNewBoard_def)
  from with_lock_cases [OF this] consider (refused) "twFile w' = twFile w"
    | (ran) w1 w2 r2 where "twFile w1 = twFile w" "grant_body tp ft name fp now prepare rollback (w1, x) = ((w2, x'), r2)"
        "twFile w' = twFile w2" by blast
  then show ?thesis
  proof cases
    case refused
    with ok show ?thesis by simp
  next
    case ran
    have "file_ok (twFile w1)" using ok ran(1) by simp
    from grant_body_cases [OF ran(2) this] consider
        "not_granted tp name fp now prepare rollback (w, x) (w', x')"
      | board rooms x1 where "granted tp name fp now prepare (w, x) (w', x1) board rooms"
      unfolding outcome_cong [OF ran(1,3)] by (auto simp: stranded_def)
    then show ?thesis
    proof cases
      case 1
      with ok show ?thesis by (simp add: not_granted_def)
    next
      case 2
      from granted_file_ok [OF this ok] show ?thesis .
    qed
  qed
qed

lemma token_step_ok: "token_step tp w w' \<Longrightarrow> file_ok (twFile w) \<Longrightarrow> file_ok (twFile w')"
proof (induction rule: token_step.induct)
  case (Create token w ft rq w' res)
  from createClient_ok [OF Create(3,1,2)] show ?case .
next
  case (CreateAccount token w ft rq w' res)
  from createAccountClient_ok [OF CreateAccount(3,1,2)] show ?case .
next
  case (Revoke ft name fp auth w w' res)
  from revokeClient_ok [OF Revoke(2,1)] show ?case .
next
  case (Rotate token w ft now name fp expires auth w' res)
  from rotateClient_ok [OF Rotate(3,1,2)] show ?case .
next
  case (Grant ft name fp now prepare rollback w x w' x' res)
  from grant_ok [OF Grant(2,1)] show ?case .
qed

lemma token_runs_ok: "token_runs tp w w' \<Longrightarrow> file_ok (twFile w) \<Longrightarrow> file_ok (twFile w')"
  by (induction rule: token_runs.induct) (simp_all add: token_step_ok)

lemma string_items_length: "string_items p lo hi v = Some rs \<Longrightarrow> length rs \<le> hi"
proof -
  assume r: "string_items p lo hi v = Some rs"
  have len: "length (strings_of xs) \<le> length xs" for xs
    by (induction xs) (auto split: json.split)
  from r obtain xs where "rs = strings_of xs" "length xs \<le> hi"
    by (auto simp: string_items_def split: option.splits json.splits if_splits)
  with len [of xs] show ?thesis by simp
qed

lemma schema_rooms:
  "clientSchema c = Some sc \<Longrightarrow> string_items isValidRoomId 1 max_rooms (cget ''rooms'' c) = Some (scRooms sc)"
  "accountClientSchema c = Some sc \<Longrightarrow> string_items isValidRoomId 0 max_rooms (cget ''rooms'' c) = Some (scRooms sc)"
  by (auto simp: clientSchema_def accountClientSchema_def split: option.splits)

lemma entry_rooms:
  assumes ok: "store_ok s" and e: "e \<in> set (entries s)"
  shows "length (scRooms e) \<le> max_rooms"
proof -
  have "(\<exists>x. clientSchema x = Some e) \<or> (\<exists>x. accountClientSchema x = Some e)"
    using ok e by (fastforce simp: entries_def store_ok_iff well_shaped_def list_all_iff)
  then show ?thesis using schema_rooms string_items_length by blast
qed

end
