(* ===== verification/TokenClaims.thy ===== *)
theory TokenClaims
  imports TokenMachine
begin

text \<open>The properties of the machine-token store: what a mutation, under any file fault, does to who may do what.\<close>

section \<open>Mutations\<close>

lemma mutate_body_reject: "m (store_of (twFile w)) = Inl e \<Longrightarrow> fst (mutate_body ft m w) = w"
  by (auto simp: mutate_body_def split: sum.split dest!: readStore_Inr)

lemma mutateStore_reject:
  assumes "m (store_of (twFile w)) = Inl e"
  shows "twFile (fst (mutateStore ft m w)) = twFile w \<and> twBackups (fst (mutateStore ft m w)) = twBackups w"
proof -
  have same: "fst (mutate_body ft m (w\<lparr>twLock := True\<rparr>)) = w\<lparr>twLock := True\<rparr>"
    using assms by (intro mutate_body_reject) simp
  then show ?thesis
    by (cases "mutate_body ft m (w\<lparr>twLock := True\<rparr>)")
      (auto simp: mutateStore_def with_lock_def acquireMutationLock_def release_lock_def)
qed

text \<open>
  C20: A mutation of the token file is all or nothing, whatever file operation fails. The file is
  either untouched or the store the mutation computed from what was there, written after exactly that
  content was backed up; success means it was written and the lock released; a mutation that refuses,
  or a lock held by somebody else, changes nothing, not even the backups.
\<close>
theorem mutation_atomic:
  assumes "mutateStore ft m w = (w', res)"
  shows "(twFile w' = twFile w \<or> (\<exists>s r. m (store_of (twFile w)) = Inr (s, r) \<and> replaced w w' s)) \<and>
    (\<forall>x. res = Inr x \<longrightarrow> (\<exists>s. m (store_of (twFile w)) = Inr (s, x) \<and> replaced w w' s) \<and> \<not> twLock w') \<and>
    (\<forall>e. m (store_of (twFile w)) = Inl e \<longrightarrow> twFile w' = twFile w \<and> twBackups w' = twBackups w \<and> (\<exists>e. res = Inl e)) \<and>
    (twLock w \<longrightarrow> w' = w \<and> (\<exists>e. res = Inl e))"
  using mutateStore_cases [OF assms] mutateStore_reject [of m w _ ft] mutateStore_locked [of w ft m] assms
  by (cases res) auto

definition no_faults :: faults where
  "no_faults = \<lparr>ftOpen = False, ftInit = False, ftRead = False, ftBackup = False, ftBackupMode = False,
     ftTemp = False, ftMode = False, ftReread = False, ftRelease = False\<rparr>"

definition empty_world :: tworld where
  "empty_world = \<lparr>twFile = NoFile, twLock = False, twBackups = []\<rparr>"

text \<open>Writing fails after the backup: the backup stays, the file does not change, the lock is released.\<close>

theorem mutation_atomic_witness:
  "mutateStore (no_faults\<lparr>ftTemp := True\<rparr>) (\<lambda>s. Inr (s\<lparr>tsExtra := [(''v'', JNull)]\<rparr>, ())) empty_world =
     (empty_world\<lparr>twBackups := [Stored emptyStore]\<rparr>, Inl IOFault) \<and> \<not> twLock (empty_world\<lparr>twBackups := [Stored emptyStore]\<rparr>)"
proof -
  have run: "mutateStore (no_faults\<lparr>ftTemp := True\<rparr>) (\<lambda>s. Inr (s\<lparr>tsExtra := [(''v'', JNull)]\<rparr>, ())) empty_world =
     (empty_world\<lparr>twBackups := [Stored emptyStore]\<rparr>, Inl IOFault)"
    by (simp add: mutateStore_def with_lock_def acquireMutationLock_def release_lock_def mutate_body_def readStore_def
        persist_def backUpStore_def writeStoreAtomically_def no_faults_def empty_world_def)
  from mutation_atomic [OF run] run show ?thesis by (simp add: empty_world_def)
qed

text \<open>The new store is live although writing it reports an error, when the mode change after the rename fails.\<close>

lemma replaced_despite_error:
  "mutateStore (no_faults\<lparr>ftMode := True\<rparr>) (\<lambda>s. Inr (s\<lparr>tsExtra := [(''v'', JNull)]\<rparr>, ())) empty_world =
     (empty_world\<lparr>twFile := Stored (emptyStore\<lparr>tsExtra := [(''v'', JNull)]\<rparr>), twBackups := [Stored emptyStore]\<rparr>, Inl IOFault)"
  by (simp add: mutateStore_def with_lock_def acquireMutationLock_def release_lock_def mutate_body_def readStore_def
      persist_def backUpStore_def writeStoreAtomically_def no_faults_def empty_world_def)

section \<open>Expiry\<close>

text \<open>
  An expiry is honoured as it was asked for: the text the store writes for it is read back as that
  instant, so the credential is active strictly before it and expired from it on.
\<close>
theorem expiry_roundtrip:
  assumes "normaliseExpiry v now = Inr (Some s)" and "expiry_time v = Some e" and "four_digit_year e"
  shows "evaluateExpiry (Some (JStr s)) t = (if t < e then ExpActive else ExpExpired) \<and> now < e"
proof -
  from assms(1,2) have "s = toISOString e" "now < e" by (auto simp: normaliseExpiry_def split: if_splits)
  with timestamp_roundtrip [OF assms(3)] show ?thesis by (simp add: evaluateExpiry_def)
qed

theorem expiry_roundtrip_witness:
  "evaluateExpiry (Some (JStr ''2027-01-31T00:00:00.000Z'')) 0 = ExpActive \<and>
   evaluateExpiry (Some (JStr ''2027-01-31T00:00:00.000Z'')) 1801353600000 = ExpExpired"
proof -
  have t: "expiry_time (ExpiryValue (JStr ''2027-01-31T00:00:00Z'')) = Some 1801353600000" by code_simp
  have n: "normaliseExpiry (ExpiryValue (JStr ''2027-01-31T00:00:00Z'')) 0 =
      (Inr (Some ''2027-01-31T00:00:00.000Z'') :: unit terror + string option)"
  proof -
    have "toISOString 1801353600000 = ''2027-01-31T00:00:00.000Z''" by code_simp
    then show ?thesis using t by (simp add: normaliseExpiry_def)
  qed
  have y: "four_digit_year 1801353600000" by code_simp
  from expiry_roundtrip [OF n t y, of 0] expiry_roundtrip [OF n t y, of 1801353600000] show ?thesis by simp
qed

section \<open>A concrete store\<close>

text \<open>A hash that keeps the hexadecimal characters of a token and pads it to 64; a fingerprint text for the rest.\<close>

definition demo_tp :: tparams where
  "demo_tp = \<lparr>tpHash = (\<lambda>t. take 64 (map (\<lambda>c. if is_hex c then c else CHR ''f'') t @ replicate 64 CHR ''0'')),
     tpText = (\<lambda>_. ''undefined'')\<rparr>"

definition demo_token :: "char \<Rightarrow> string" where
  "demo_token c = replicate 43 c"

definition demo_bearer :: "char \<Rightarrow> string option" where
  "demo_bearer c = Some (''Bearer '' @ demo_token c)"

definition demo_request :: "string \<Rightarrow> client_request" where
  "demo_request name = \<lparr>rqName = name, rqRooms = [''board-1''], rqAccess = ''read-write'', rqOwner = Some (JStr ''user-a''),
     rqExpires = ExpiryValue (JStr ''2027-01-31T00:00:00Z''), rqDisplay = Some (JStr ''Helper''), rqCreator = None, rqNow = 1000\<rparr>"

definition created :: "tworld \<times> (unit terror + client_grant)" where
  "created = createClient demo_tp no_faults (demo_token CHR ''a'') (demo_request ''agent'') empty_world"

definition demo_agent :: client where
  "demo_agent = [(''name'', JStr ''agent''), (''tokenHash'', JStr (tpHash demo_tp (demo_token CHR ''a''))),
     (''rooms'', JArr [JStr ''board-1'']), (''permissions'', JArr [JStr ''read'', JStr ''write'']),
     (''createdAt'', JStr ''1970-01-01T00:00:01.000Z''), (''note'', JStr ''kept'')]"

definition demo_maker :: client where
  "demo_maker = [(''name'', JStr ''maker''), (''tokenHash'', JStr (tpHash demo_tp (demo_token CHR ''b''))),
     (''ownerUserId'', JStr ''user-a''), (''accountPermissions'', JArr [JStr board_create]),
     (''permissions'', JArr [JStr ''read'']), (''rooms'', JArr []), (''createdAt'', JStr ''1970-01-01T00:00:01.000Z'')]"

definition demo_world :: tworld where
  "demo_world = \<lparr>twFile = Stored \<lparr>tsClients = [demo_agent], tsAccounts = Some (Inr [demo_maker]), tsExtra = [(''version'', JNum 2)]\<rparr>,
     twLock = False, twBackups = []\<rparr>"

definition rotated :: "tworld \<times> (unit terror + (client_grant \<times> unit option))" where
  "rotated = rotateClient demo_tp no_faults (demo_token CHR ''c'') 2000 ''agent'' None NoExpiry None demo_world"

definition revoked :: "tworld \<times> (unit terror + unit option)" where
  "revoked = revokeClient demo_tp no_faults ''agent'' None None demo_world"

lemma demo_world_ok: "file_ok (twFile demo_world)"
  by code_simp

lemma demo_store_runs: "is_Inr (snd created)" "is_Inr (snd rotated)" "is_Inr (snd revoked)"
  by code_simp+

lemma create_file: "twFile (fst created) \<noteq> NoFile"
  by code_simp

lemma demo_hashes: "is_token_hash (tpHash demo_tp (demo_token CHR ''a''))" "is_token_hash (tpHash demo_tp (demo_token CHR ''c''))"
  "tpHash demo_tp (demo_token CHR ''c'') \<notin> scHash ` set (file_entries (twFile demo_world))"
  "tpHash demo_tp (demo_token CHR ''a'') \<notin> scHash ` set (file_entries (twFile empty_world))"
  by code_simp+

lemma demo_bearers: "bearer_of (demo_bearer CHR ''a'') = Some (demo_token CHR ''a'')"
  "bearer_of (demo_bearer CHR ''c'') = Some (demo_token CHR ''c'')"
  by code_simp+

section \<open>Who may do what\<close>

lemma option_eqI: "(\<And>n. a = Some n \<longleftrightarrow> b = Some n) \<Longrightarrow> a = b"
  by (cases a; cases b) auto

lemma authorize_file_entries:
  assumes "file_ok f" and "bearer_of header = Some token"
  shows "authorizeApiToken tp f header room permission now = Some n \<longleftrightarrow>
    (\<exists>c\<in>set (file_entries f). scHash c = tpHash tp token \<and> room \<in> set (scRooms c) \<and>
       permission \<in> set (scPermissions c) \<and> unexpired c now \<and> scName c = n)"
  using authorize_entries [OF assms] by (simp add: file_entries_def)

definition not_expired :: "expiry_input \<Rightarrow> int \<Rightarrow> bool" where
  "not_expired v now \<longleftrightarrow> (case expiry_time v of None \<Rightarrow> True | Some e \<Rightarrow> now < e)"

definition sane_expiry :: "expiry_input \<Rightarrow> bool" where
  "sane_expiry v \<longleftrightarrow> (case expiry_time v of None \<Rightarrow> True | Some e \<Rightarrow> four_digit_year e)"

lemma unexpired_requested:
  "sane_expiry v \<Longrightarrow> scExpires c = requested_expiry v \<Longrightarrow> unexpired c now \<longleftrightarrow> not_expired v now"
  by (auto simp: unexpired_def requested_expiry_def not_expired_def sane_expiry_def evaluateExpiry_def timestamp_roundtrip
      split: option.splits)

text \<open>
  C21: A new credential may do exactly what was asked for, and nothing else changes: on the named
  boards, with the permissions of the access mode, until the expiry; every other bearer is answered as
  before, and the file stays one the reader accepts.
\<close>
theorem create_authority:
  assumes "file_ok (twFile w)" and "is_token_hash (tpHash tp token)"
    and "tpHash tp token \<notin> scHash ` set (file_entries (twFile w))"
    and "createClient tp ft token rq w = (w', Inr g)" and "sane_expiry (rqExpires rq)"
    and "bearer_of header = Some t"
  shows "file_ok (twFile w') \<and>
    authorizeApiToken tp (twFile w') header room permission now =
     (if tpHash tp t = tpHash tp token
      then (if room \<in> set (rqRooms rq) \<and> permission \<in> set (mode_permissions (rqAccess rq)) \<and> not_expired (rqExpires rq) now
            then Some (rqName rq) else None)
      else authorizeApiToken tp (twFile w) header room permission now)"
proof -
  from createClient_spec [OF assms(4,1-3)] have ok: "file_ok (twFile w')"
    and e: "set (file_entries (twFile w')) = insert (new_entry tp token rq) (set (file_entries (twFile w)))" by simp_all
  have "unexpired (new_entry tp token rq) now \<longleftrightarrow> not_expired (rqExpires rq) now"
    using unexpired_requested [OF assms(5)] by (simp add: new_entry_def)
  then have new: "(\<exists>c\<in>set (file_entries (twFile w')). scHash c = tpHash tp t \<and> room \<in> set (scRooms c) \<and>
      permission \<in> set (scPermissions c) \<and> unexpired c now \<and> scName c = n) \<longleftrightarrow>
    tpHash tp token = tpHash tp t \<and> room \<in> set (rqRooms rq) \<and> permission \<in> set (mode_permissions (rqAccess rq)) \<and>
      not_expired (rqExpires rq) now \<and> rqName rq = n \<or>
    (\<exists>c\<in>set (file_entries (twFile w)). scHash c = tpHash tp t \<and> room \<in> set (scRooms c) \<and>
      permission \<in> set (scPermissions c) \<and> unexpired c now \<and> scName c = n)" for n
    unfolding e bex_simps by (simp add: new_entry_def)
  have fresh: "scHash c \<noteq> tpHash tp token" if "c \<in> set (file_entries (twFile w))" for c
    using assms(3) that by (metis image_eqI)
  have iff: "authorizeApiToken tp (twFile w') header room permission now = Some n \<longleftrightarrow>
     (if tpHash tp t = tpHash tp token
      then (if room \<in> set (rqRooms rq) \<and> permission \<in> set (mode_permissions (rqAccess rq)) \<and> not_expired (rqExpires rq) now
            then Some (rqName rq) else None)
      else authorizeApiToken tp (twFile w) header room permission now) = Some n" for n
  proof (cases "tpHash tp t = tpHash tp token")
    case True
    with fresh show ?thesis unfolding authorize_file_entries [OF ok assms(6)] new by (simp add: bex_simps) blast
  next
    case False
    then have "tpHash tp token \<noteq> tpHash tp t" by simp
    with False show ?thesis
      unfolding authorize_file_entries [OF ok assms(6)] new by (simp add: authorize_file_entries [OF assms(1,6)])
  qed
  show ?thesis
  proof (rule conjI)
    show "file_ok (twFile w')" by (rule ok)
  qed (rule option_eqI, rule iff)
qed

theorem create_authority_witness:
  "authorizeApiToken demo_tp (twFile (fst created)) (demo_bearer CHR ''a'') ''board-1'' ''write'' 5000 = Some ''agent'' \<and>
   authorizeApiToken demo_tp (twFile (fst created)) (demo_bearer CHR ''a'') ''board-1'' ''restore'' 5000 = None"
proof -
  obtain g where run: "createClient demo_tp no_faults (demo_token CHR ''a'') (demo_request ''agent'') empty_world = (fst created, Inr g :: unit terror + client_grant)"
    using is_Inr_pair [OF demo_store_runs(1)] trans [OF created_def [symmetric]] by blast
  have ok: "file_ok (twFile empty_world)" by (simp add: file_ok_def empty_world_def)
  have sane: "sane_expiry (rqExpires (demo_request ''agent''))" by code_simp
  have live: "not_expired (rqExpires (demo_request ''agent'')) 5000" by code_simp
  note c = create_authority [OF ok demo_hashes(1,4) run sane demo_bearers(1), of "''board-1''" _ 5000]
  from c [of "''write''"] c [of "''restore''"] live show ?thesis
    by (simp add: demo_request_def mode_permissions_def access_modes_def)
qed

text \<open>
  C22: Revoking takes away exactly the named credential: no bearer is answered with that name any more,
  and every bearer that was answered with another name still is.
\<close>
theorem revoke_authority:
  assumes "file_ok (twFile w)" and "revokeClient tp ft name fp auth w = (w', Inr seen)" and "bearer_of header = Some t"
  shows "file_ok (twFile w') \<and>
    (authorizeApiToken tp (twFile w') header room permission now = Some n \<longleftrightarrow>
     n \<noteq> name \<and> authorizeApiToken tp (twFile w) header room permission now = Some n)"
proof -
  from revokeClient_spec [OF assms(2,1)] have ok: "file_ok (twFile w')"
    and e: "file_entries (twFile w') = filter (\<lambda>e. scName e \<noteq> name) (file_entries (twFile w))" by simp_all
  then show ?thesis by (auto simp: authorize_file_entries [OF ok assms(3)] authorize_file_entries [OF assms(1,3)])
qed

theorem revoke_authority_witness:
  "authorizeApiToken demo_tp (twFile demo_world) (demo_bearer CHR ''a'') ''board-1'' ''write'' 5000 = Some ''agent'' \<and>
   authorizeApiToken demo_tp (twFile (fst revoked)) (demo_bearer CHR ''a'') ''board-1'' ''write'' 5000 \<noteq> Some ''agent''"
proof -
  obtain seen where run: "revokeClient demo_tp no_faults ''agent'' None None demo_world = (fst revoked, Inr seen :: unit terror + unit option)"
    using is_Inr_pair [OF demo_store_runs(3)] trans [OF revoked_def [symmetric]] by blast
  have "authorizeApiToken demo_tp (twFile demo_world) (demo_bearer CHR ''a'') ''board-1'' ''write'' 5000 = Some ''agent''" by code_simp
  with revoke_authority [OF demo_world_ok run demo_bearers(1), of "''board-1''" "''write''" 5000 "''agent''"] show ?thesis by simp
qed

text \<open>
  C23: Rotating replaces one bearer by another: the new one is answered with the name exactly where the
  record's boards and permissions and its expiry (the new one if given) allow it, nobody else is answered
  with that name (so the old bearer is dead), and all other bearers are answered as before.
\<close>
theorem rotate_authority:
  assumes "file_ok (twFile w)" and "is_token_hash (tpHash tp token)"
    and "tpHash tp token \<notin> scHash ` set (file_entries (twFile w))"
    and "rotateClient tp ft token at' name fp expires auth w = (w', Inr (g, seen))" and "sane_expiry expires"
    and "bearer_of header = Some t"
  shows "file_ok (twFile w') \<and>
    (authorizeApiToken tp (twFile w') header room permission now = Some n \<longleftrightarrow>
     (if tpHash tp t = tpHash tp token
      then n = name \<and> (\<exists>e\<in>set (file_entries (twFile w)). scName e = name \<and> room \<in> set (scRooms e) \<and>
             permission \<in> set (scPermissions e) \<and>
             (if expiry_time expires = None then unexpired e now else not_expired expires now))
      else n \<noteq> name \<and> authorizeApiToken tp (twFile w) header room permission now = Some n))"
proof -
  let ?r = "rotated_entry (tpHash tp token) (rotated_expiry expires)"
  from rotateClient_spec [OF assms(4,1-3)] have ok: "file_ok (twFile w')"
    and e: "file_entries (twFile w') = map (\<lambda>e. if scName e = name then ?r e else e) (file_entries (twFile w))" by simp_all
  have live: "unexpired (?r e) now \<longleftrightarrow> (if expiry_time expires = None then unexpired e now else not_expired expires now)" for e
    using unexpired_requested [OF assms(5), of "?r e" now]
    by (cases "expiry_time expires") (simp_all add: rotated_entry_def rotated_expiry_def requested_expiry_def unexpired_def)
  have r: "scName (?r e) = scName e" "scHash (?r e) = tpHash tp token" "scRooms (?r e) = scRooms e"
    "scPermissions (?r e) = scPermissions e" for e by (simp_all add: rotated_entry_def)
  have fresh: "scHash e \<noteq> tpHash tp token" if "e \<in> set (file_entries (twFile w))" for e using assms(3) that by (metis image_eqI)
  let ?live = "\<lambda>e. room \<in> set (scRooms e) \<and> permission \<in> set (scPermissions e) \<and>
    (if expiry_time expires = None then unexpired e now else not_expired expires now)"
  let ?old = "\<lambda>c. scHash c = tpHash tp t \<and> room \<in> set (scRooms c) \<and> permission \<in> set (scPermissions c) \<and> unexpired c now \<and> scName c = n"
  have split: "(\<exists>c\<in>set (file_entries (twFile w')). ?old c) \<longleftrightarrow>
    (\<exists>e\<in>set (file_entries (twFile w)). if scName e = name
      then tpHash tp token = tpHash tp t \<and> ?live e \<and> name = n else ?old e)"
    unfolding e set_map bex_simps by (intro bex_cong refl) (simp add: r live)
  show ?thesis
  proof (cases "tpHash tp t = tpHash tp token")
    case True
    have "(\<exists>c\<in>set (file_entries (twFile w')). ?old c) \<longleftrightarrow>
        (\<exists>e\<in>set (file_entries (twFile w)). n = name \<and> scName e = name \<and> ?live e)"
      unfolding split using True fresh by (intro bex_cong refl) auto
    with True ok show ?thesis unfolding authorize_file_entries [OF ok assms(6)] by simp
  next
    case False
    then have "tpHash tp token \<noteq> tpHash tp t" by simp
    then have "(\<exists>c\<in>set (file_entries (twFile w')). ?old c) \<longleftrightarrow>
        (\<exists>e\<in>set (file_entries (twFile w)). n \<noteq> name \<and> ?old e)"
      unfolding split by (intro bex_cong refl) auto
    with False ok show ?thesis
      unfolding authorize_file_entries [OF ok assms(6)] authorize_file_entries [OF assms(1,6)] by simp
  qed
qed

theorem rotate_authority_witness:
  "authorizeApiToken demo_tp (twFile (fst rotated)) (demo_bearer CHR ''c'') ''board-1'' ''write'' 5000 = Some ''agent'' \<and>
   authorizeApiToken demo_tp (twFile (fst rotated)) (demo_bearer CHR ''a'') ''board-1'' ''write'' 5000 \<noteq> Some ''agent''"
proof -
  obtain g where run: "rotateClient demo_tp no_faults (demo_token CHR ''c'') 2000 ''agent'' None NoExpiry None demo_world =
      (fst rotated, Inr g :: unit terror + (client_grant \<times> unit option))"
    using is_Inr_pair [OF demo_store_runs(2)] trans [OF rotated_def [symmetric]] by blast
  obtain g1 g2 where g: "g = (g1, g2)" by fastforce
  have sane: "sane_expiry NoExpiry" by (simp add: sane_expiry_def expiry_time_def)
  have e: "\<exists>e\<in>set (file_entries (twFile demo_world)). scName e = ''agent'' \<and> ''board-1'' \<in> set (scRooms e) \<and>
      ''write'' \<in> set (scPermissions e) \<and> unexpired e 5000" by code_simp
  have "tpHash demo_tp (demo_token CHR ''a'') \<noteq> tpHash demo_tp (demo_token CHR ''c'')" by code_simp
  with rotate_authority [OF demo_world_ok demo_hashes(2,3) run [unfolded g] sane demo_bearers(2), of "''board-1''" "''write''" 5000 "''agent''"]
    rotate_authority [OF demo_world_ok demo_hashes(2,3) run [unfolded g] sane demo_bearers(1), of "''board-1''" "''write''" 5000 "''agent''"] e
  show ?thesis by (simp add: expiry_time_def)
qed

text \<open>
  Rotating keeps everything it does not understand: the rotated record keeps every member but its
  token hash, its rotation time and, when one was given, its expiry, and all other records, whatever
  they hold, and all other members of the file are as they were.
\<close>
theorem rotation_keeps_metadata:
  assumes "file_ok (twFile w)" and "rotateClient tp ft token now name fp expires auth w = (w', Inr (g, seen))"
  shows "\<exists>c c'. c \<in> set (allClients (store_of (twFile w))) \<and> cget ''name'' c = Some (JStr name) \<and>
    twFile w' = Stored (update_records (map (\<lambda>x. if x = c then c' else x)) (store_of (twFile w))) \<and>
    (\<forall>k. k \<noteq> ''tokenHash'' \<and> k \<noteq> ''rotatedAt'' \<and> (k \<noteq> ''expiresAt'' \<or> expires = NoExpiry) \<longrightarrow> cget k c' = cget k c)"
proof -
  from assms(2) obtain s where s: "rotate_target tp token now name fp (rotated_expiry expires) auth (store_of (twFile w)) = Inr (s, g, seen)"
    and f: "twFile w' = Stored s" by (rule rotateClient_run)
  from s file_ok_store [OF assms(1)] obtain c where c: "c \<in> set (allClients (store_of (twFile w)))" "cget ''name'' c = Some (JStr name)"
    and s': "s = update_records (map (\<lambda>x. if x = c then rotated_client tp token now (rotated_expiry expires) c else x)) (store_of (twFile w))"
    by (rule rotate_target_Inr)
  have "rotated_expiry NoExpiry = None" by (simp add: rotated_expiry_def expiry_time_def)
  then have "\<forall>k. k \<noteq> ''tokenHash'' \<and> k \<noteq> ''rotatedAt'' \<and> (k \<noteq> ''expiresAt'' \<or> expires = NoExpiry) \<longrightarrow>
      cget k (rotated_client tp token now (rotated_expiry expires) c) = cget k c"
    by (cases "expires = NoExpiry") (simp_all add: rotated_client_get)
  with c s' f show ?thesis by blast
qed

theorem rotation_keeps_metadata_witness:
  "\<exists>s. twFile (fst rotated) = Stored s \<and> tsExtra s = [(''version'', JNum 2)]"
proof -
  obtain g where run: "rotateClient demo_tp no_faults (demo_token CHR ''c'') 2000 ''agent'' None NoExpiry None demo_world =
      (fst rotated, Inr g :: unit terror + (client_grant \<times> unit option))"
    using is_Inr_pair [OF demo_store_runs(2)] trans [OF rotated_def [symmetric]] by blast
  obtain g1 g2 where g: "g = (g1, g2)" by fastforce
  have "tsExtra (store_of (twFile demo_world)) = [(''version'', JNum 2)]" by (simp add: demo_world_def store_of_def)
  then have "tsExtra (update_records f (store_of (twFile demo_world))) = [(''version'', JNum 2)]" for f
    by (simp add: update_records_def)
  moreover obtain c c' where "twFile (fst rotated) = Stored (update_records (map (\<lambda>x. if x = c then c' else x)) (store_of (twFile demo_world)))"
    using rotation_keeps_metadata [OF demo_world_ok run [unfolded g]] by blast
  ultimately show ?thesis by blast
qed

section \<open>Granting a new board\<close>

text \<open>
  Creating a board for a credential and granting it that board succeed or fail together, whatever
  single file operation fails. Either the file does not hold a new grant, the answer is an error, and no
  board was made or the board made was handed to the rollback; or the file grants exactly the board that
  was made, the board is kept, and the answer is success (unless releasing the lock fails). Only when a
  write fails after the rename and the reread fails too is the grant in the file and the board handed to
  the rollback.
\<close>
theorem grant_consistent:
  assumes "file_ok (twFile w)"
    and "grantNewBoard tp ft name fp now prepare rollback (w, x) = ((w', x'), res)"
  shows "file_ok (twFile w') \<and>
    (not_granted tp name fp now prepare rollback (w, x) (w', x') \<and> (\<exists>e. res = Inl e) \<or>
     (\<exists>board rooms. granted tp name fp now prepare (w, x) (w', x') board rooms \<and>
        (res = Inr (board, rooms) \<or> ftRelease ft \<and> res = Inl IOFault)) \<or>
     ftMode ft \<and> ftReread ft \<and> stranded tp name fp now prepare rollback (w, x) (w', x') \<and> (\<exists>e. res = Inl e))"
proof -
  have none: ?thesis if "twFile w' = twFile w" "x' = x" "\<exists>e. res = Inl e"
    using that assms(1) by (simp add: not_granted_def)
  show ?thesis
  proof (cases "isValidClientName name \<and> fp \<noteq> []")
    case False
    with assms(2) show ?thesis by (intro none) (auto simp: grantNewBoard_def split: if_splits)
  next
    case True
    with assms(2) have "with_lock ft (grant_body tp ft name fp now prepare rollback) (w, x) = ((w', x'), res)"
      by (simp add: grantNewBoard_def)
    from with_lock_cases [OF this] consider (refused) "twFile w' = twFile w" "x' = x" "\<exists>e. res = Inl e"
      | (ran) w1 w2 r2 where "twFile w1 = twFile w" "grant_body tp ft name fp now prepare rollback (w1, x) = ((w2, x'), r2)"
          "twFile w' = twFile w2" "res = r2 \<or> ftRelease ft \<and> res = Inl IOFault" by blast
    then show ?thesis
    proof cases
      case refused
      then show ?thesis by (rule none)
    next
      case ran
      have "file_ok (twFile w1)" using assms(1) ran(1) by simp
      from grant_body_cases [OF ran(2) this]
      consider (kept) e where "not_granted tp name fp now prepare rollback (w, x) (w', x')" "r2 = Inl e"
        | (gave) board rooms where "granted tp name fp now prepare (w, x) (w', x') board rooms" "r2 = Inr (board, rooms)"
        | (lost) e where "ftMode ft" "ftReread ft" "stranded tp name fp now prepare rollback (w, x) (w', x')" "r2 = Inl e"
        unfolding outcome_cong [OF ran(1,3)] by blast
      then show ?thesis
      proof cases
        case kept
        then have "file_ok (twFile w')" using assms(1) by (simp add: not_granted_def)
        with kept ran(4) show ?thesis by blast
      next
        case gave
        with granted_file_ok [OF gave(1) assms(1)] ran(4) show ?thesis by blast
      next
        case lost
        then obtain x1 board rooms where "granted tp name fp now prepare (w, x) (w', x1) board rooms" by (auto simp: stranded_def)
        from granted_file_ok [OF this assms(1)] lost ran(4) show ?thesis by blast
      qed
    qed
  qed
qed

text \<open>Boards as a list of ids: the new one is prepared as \<open>board-9\<close> and removed by its id.\<close>

definition demo_prepare :: "client \<Rightarrow> string list \<Rightarrow> string list \<times> (unit + string)" where
  "demo_prepare c bs = (bs @ [''board-9''], Inr ''board-9'')"

definition demo_rollback :: "string \<Rightarrow> string list \<Rightarrow> string list \<times> (unit + unit)" where
  "demo_rollback b bs = (filter (\<lambda>x. x \<noteq> b) bs, Inr ())"

definition demo_grant :: "faults \<Rightarrow> (tworld \<times> string list) \<times> (unit terror + (string \<times> json list))" where
  "demo_grant ft = grantNewBoard demo_tp ft ''maker'' (clientFingerprint demo_tp (cget ''tokenHash'' demo_maker)) 5000
     demo_prepare demo_rollback (demo_world, [''board-1''])"

lemma demo_grant_runs: "snd (fst (demo_grant no_faults)) = [''board-1'', ''board-9'']"
  "snd (fst (demo_grant (no_faults\<lparr>ftTemp := True\<rparr>))) = [''board-1'']"
  by code_simp+

theorem grant_consistent_witness:
  "\<exists>w' x' res. demo_grant no_faults = ((w', x'), res) \<and> x' = [''board-1'', ''board-9''] \<and> file_ok (twFile w')"
proof -
  obtain w' x' res where run: "demo_grant no_faults = ((w', x'), res)" by (metis surj_pair)
  then have g: "grantNewBoard demo_tp no_faults ''maker'' (clientFingerprint demo_tp (cget ''tokenHash'' demo_maker)) 5000
     demo_prepare demo_rollback (demo_world, [''board-1'']) = ((w', x'), res)" by (simp add: demo_grant_def)
  from grant_consistent [OF demo_world_ok g] run demo_grant_runs(1) show ?thesis by simp
qed

text \<open>
  With both faults, the mode change after the rename and the reread, the board is rolled back although
  the grant to it is in the file.
\<close>

lemma granted_and_rolled_back:
  "case demo_grant (no_faults\<lparr>ftMode := True, ftReread := True\<rparr>) of ((w, bs), res) \<Rightarrow>
     bs = [''board-1''] \<and> grantIsPersisted demo_tp False ''maker'' (clientFingerprint demo_tp (cget ''tokenHash'' demo_maker)) ''board-9'' w"
  by code_simp

section \<open>The invariant\<close>

lemma file_ok_bounds:
  assumes "file_ok f"
  shows "(f \<noteq> NoFile \<longrightarrow> loadStore f \<noteq> None) \<and> length (tsClients (store_of f)) \<le> max_clients \<and>
    length (accountClientsOf (store_of f)) \<le> max_account_clients \<and>
    (\<forall>e\<in>set (file_entries f). length (scRooms e) \<le> max_rooms) \<and>
    distinct (map scName (file_entries f)) \<and> distinct (map scHash (file_entries f))"
proof -
  from file_ok_store [OF assms] have s: "store_ok (store_of f)" .
  have "loadStore f \<noteq> None" if "f \<noteq> NoFile"
    using assms that loadStore_ok by (cases f) (auto simp: file_ok_def)
  with s entry_rooms [OF s] entries_distinct [OF s] show ?thesis
    by (simp add: file_entries_def store_ok_def)
qed

text \<open>
  C24: However the store has been used since the file was first written, and whatever file operations
  failed, the file is one the reader accepts as a whole: at most 100 clients and 20 board-creating
  credentials, every credential well formed and on at most 50 boards, and no two with one name or one
  hash. New tokens are assumed to hash to values not in the file.
\<close>
theorem token_store_bounded:
  assumes "token_runs tp w0 w" and "twFile w0 = NoFile"
  shows "file_ok (twFile w) \<and> (twFile w \<noteq> NoFile \<longrightarrow> loadStore (twFile w) \<noteq> None) \<and>
    length (tsClients (store_of (twFile w))) \<le> max_clients \<and>
    length (accountClientsOf (store_of (twFile w))) \<le> max_account_clients \<and>
    (\<forall>e\<in>set (file_entries (twFile w)). length (scRooms e) \<le> max_rooms) \<and>
    distinct (map scName (file_entries (twFile w))) \<and> distinct (map scHash (file_entries (twFile w)))"
proof -
  have ok: "file_ok (twFile w)" using token_runs_ok [OF assms(1)] assms(2) by (simp add: file_ok_def)
  from file_ok_bounds [OF ok] ok show ?thesis by blast
qed

theorem token_store_bounded_witness:
  "token_runs demo_tp empty_world (fst created) \<and> loadStore (twFile (fst created)) \<noteq> None"
proof -
  obtain g where run: "createClient demo_tp no_faults (demo_token CHR ''a'') (demo_request ''agent'') empty_world =
      (fst created, Inr g :: unit terror + client_grant)"
    using is_Inr_pair [OF demo_store_runs(1)] trans [OF created_def [symmetric]] by blast
  have fresh: "fresh_token demo_tp (demo_token CHR ''a'') empty_world"
    using demo_hashes(1,4) by (simp add: fresh_token_def)
  have runs: "token_runs demo_tp empty_world (fst created)"
    by (rule TokStep [OF TokStop Create [OF fresh run]])
  have "twFile empty_world = NoFile" by (simp add: empty_world_def)
  from token_store_bounded [OF runs this] runs create_file show ?thesis by blast
qed

end
