(* ===== verification/AccessJwt.thy ===== *)
theory AccessJwt
  imports Prelude
begin

text \<open>
  \<open>server/access-jwt.ts\<close>: the verification of the Cloudflare Access assertion. The verifier's state
  is the cached key map with the times of the last load and of the last attempt to load. A verification
  that has to fetch the keys is cut in two at its \<open>await\<close>: \<open>verify_begin\<close> runs up to the request and
  \<open>verify_end\<close> from the reply on, so that other verifications may run in between.

  Parameters (code that is not in the repository): decoding base64url and parsing JSON, importing a
  key, checking an RSA signature (the second and third may throw, as may the first: \<open>None\<close>), the reply
  of the key endpoint, and the clock, one named reading per call of \<open>now()\<close>.
\<close>

section \<open>Configuration\<close>

definition is_label_char :: "char \<Rightarrow> bool" where
  "is_label_char c \<longleftrightarrow> is_lower c \<or> is_digit c"

text \<open>\<open>[a-z0-9]([a-z0-9-]*[a-z0-9])?\<close>\<close>

definition is_label :: "string \<Rightarrow> bool" where
  "is_label s \<longleftrightarrow> s \<noteq> [] \<and> list_all (\<lambda>c. is_label_char c \<or> c = CHR ''-'') s \<and>
     is_label_char (hd s) \<and> is_label_char (last s)"

definition is_dns_name :: "string \<Rightarrow> bool" where
  "is_dns_name s \<longleftrightarrow> list_all is_label (split_on CHR ''.'' s)"

definition normalizeTeamDomain :: "string \<Rightarrow> string option" where
  "normalizeTeamDomain value =
     (let low = fold_case (js_trim value);
          bare = (if take 8 low = ''https://'' then drop 8 low else low);
          host = rev (dropWhile (\<lambda>c. c = CHR ''/'') (rev bare)) in
      if is_dns_name host \<and> 2 \<le> length (split_on CHR ''.'' host) then Some host else None)"

section \<open>State\<close>

record jwk =
  jwkKid :: "string option"
  jwkKty :: "string option"
  jwkN :: "string option"
  jwkE :: "string option"

record 'k jwt_world =
  jwJson :: "string \<Rightarrow> json option"
  jwPublicKey :: "jwk \<Rightarrow> 'k option"
  jwVerify :: "string \<Rightarrow> 'k \<Rightarrow> string \<Rightarrow> bool option"

record 'k verifier =
  vIssuer :: string
  vAudience :: string
  vKeys :: "(string \<times> 'k) list"
  vLoadedAt :: int
  vLastAttemptAt :: int

record readings =
  tmAge :: int
  tmGate :: int
  tmAttempt :: int
  tmLoaded :: int
  tmUse :: int
  tmVerdict :: int

datatype verdict = Accepted "string option" | Refused string

definition clock_skew_seconds :: int where "clock_skew_seconds = 30"
definition key_ttl_ms :: int where "key_ttl_ms = 60 * 60000"
definition min_refresh_interval_ms :: int where "min_refresh_interval_ms = 60000"
definition max_stale_grace_ms :: int where "max_stale_grace_ms = 24 * 60 * 60000"
definition max_assertion_length :: nat where "max_assertion_length = 8192"

definition createAccessVerifier :: "string \<Rightarrow> string \<Rightarrow> string + 'k verifier" where
  "createAccessVerifier teamDomain audience = (case normalizeTeamDomain teamDomain of
     None \<Rightarrow> Inl ''Invalid Cloudflare Access team domain''
   | Some team \<Rightarrow> (if js_trim audience = [] then Inl ''Cloudflare Access audience tag is required''
       else Inr \<lparr>vIssuer = ''https://'' @ team, vAudience = audience, vKeys = [], vLoadedAt = 0, vLastAttemptAt = 0\<rparr>))"

section \<open>The key cache\<close>

text \<open>The reply: \<open>None\<close> when the fetch throws, \<open>Some None\<close> when the document has no \<open>keys\<close>.\<close>

type_synonym jwks_reply = "jwk list option option"

fun usable_keys :: "'k jwt_world \<Rightarrow> jwk list \<Rightarrow> (string \<times> 'k) list \<Rightarrow> (string \<times> 'k) list" where
  "usable_keys w [] m = m"
| "usable_keys w (j # js) m =
     (if jwkKty j \<noteq> Some ''RSA'' then usable_keys w js m
      else (case jwkKid j of
          None \<Rightarrow> usable_keys w js m
        | Some kid \<Rightarrow> (if kid = [] then usable_keys w js m
            else (case jwPublicKey w j of
                None \<Rightarrow> usable_keys w js m
              | Some k \<Rightarrow> usable_keys w js (AList.update kid k m)))))"

definition refresh_begin :: "readings \<Rightarrow> 'k verifier \<Rightarrow> 'k verifier" where
  "refresh_begin tm v = v\<lparr>vLastAttemptAt := tmAttempt tm\<rparr>"

definition refresh_end :: "'k jwt_world \<Rightarrow> readings \<Rightarrow> jwks_reply \<Rightarrow> 'k verifier \<Rightarrow> 'k verifier" where
  "refresh_end w tm reply v = (case reply of
     None \<Rightarrow> v
   | Some doc \<Rightarrow> (let keys = usable_keys w (case doc of None \<Rightarrow> [] | Some js \<Rightarrow> js) [] in
       if keys = [] then v else v\<lparr>vKeys := keys, vLoadedAt := tmLoaded tm\<rparr>))"

definition key_in_grace :: "readings \<Rightarrow> string \<Rightarrow> 'k verifier \<Rightarrow> 'k option" where
  "key_in_grace tm kid v = (case map_of (vKeys v) kid of
     None \<Rightarrow> None
   | Some k \<Rightarrow> (if tmUse tm - vLoadedAt v < key_ttl_ms + max_stale_grace_ms then Some k else None))"

datatype 'k key_wait = KeyReady "'k option" | KeyAwaits

definition keyFor_begin :: "readings \<Rightarrow> string \<Rightarrow> 'k verifier \<Rightarrow> 'k verifier \<times> 'k key_wait" where
  "keyFor_begin tm kid v =
     (let fresh = (case map_of (vKeys v) kid of
            None \<Rightarrow> None
          | Some k \<Rightarrow> (if tmAge tm - vLoadedAt v < key_ttl_ms then Some k else None)) in
      if fresh \<noteq> None then (v, KeyReady fresh)
      else if min_refresh_interval_ms \<le> tmGate tm - vLastAttemptAt v then (refresh_begin tm v, KeyAwaits)
      else (v, KeyReady (key_in_grace tm kid v)))"

definition keyFor_end :: "'k jwt_world \<Rightarrow> readings \<Rightarrow> jwks_reply \<Rightarrow> string \<Rightarrow> 'k verifier \<Rightarrow> 'k verifier \<times> 'k option" where
  "keyFor_end w tm reply kid v = (let v' = refresh_end w tm reply v in (v', key_in_grace tm kid v'))"

section \<open>The verdict\<close>

fun isRecord :: "json \<Rightarrow> bool" where
  "isRecord (JObj ms) = True"
| "isRecord _ = False"

definition includes_audience :: "json option \<Rightarrow> string \<Rightarrow> bool" where
  "includes_audience aud audience = (case aud of
     Some (JArr items) \<Rightarrow> JStr audience \<in> set items
   | Some j \<Rightarrow> j = JStr audience
   | None \<Rightarrow> False)"

definition expired_at :: "json option \<Rightarrow> int \<Rightarrow> bool" where
  "expired_at claim seconds = (case claim of
     Some (JNum n) \<Rightarrow> n + of_int clock_skew_seconds < of_int seconds
   | _ \<Rightarrow> True)"

definition early_at :: "json option \<Rightarrow> int \<Rightarrow> bool" where
  "early_at claim seconds = (case claim of
     Some (JNum n) \<Rightarrow> of_int seconds < n - of_int clock_skew_seconds
   | _ \<Rightarrow> False)"

definition check_claims :: "'k verifier \<Rightarrow> int \<Rightarrow> json \<Rightarrow> verdict" where
  "check_claims v now claims =
     (let seconds = now div 1000 in
      if \<not> isRecord claims then Refused ''malformed claims''
      else if jmember claims ''iss'' \<noteq> Some (JStr (vIssuer v)) then Refused ''wrong issuer''
      else if \<not> includes_audience (jmember claims ''aud'') (vAudience v) then Refused ''wrong audience''
      else if expired_at (jmember claims ''exp'') seconds then Refused ''expired''
      else if early_at (jmember claims ''nbf'') seconds then Refused ''not yet valid''
      else Accepted (case jmember claims ''common_name'' of Some (JStr s) \<Rightarrow> Some s | _ \<Rightarrow> None))"

record assertion_parts =
  apHeader :: string
  apPayload :: string
  apSignature :: string
  apKid :: string

definition decide :: "'k jwt_world \<Rightarrow> readings \<Rightarrow> assertion_parts \<Rightarrow> 'k verifier \<Rightarrow> 'k option \<Rightarrow> verdict" where
  "decide w tm a v key = (case key of
     None \<Rightarrow> Refused ''unknown signing key''
   | Some k \<Rightarrow> (case jwVerify w (apHeader a @ ''.'' @ apPayload a) k (apSignature a) of
       None \<Rightarrow> Refused ''invalid assertion''
     | Some False \<Rightarrow> Refused ''bad signature''
     | Some True \<Rightarrow> (case jwJson w (apPayload a) of
         None \<Rightarrow> Refused ''invalid assertion''
       | Some claims \<Rightarrow> check_claims v (tmVerdict tm) claims)))"

definition header_kid :: "json \<Rightarrow> string option" where
  "header_kid j = (if \<not> isRecord j \<or> jmember j ''alg'' \<noteq> Some (JStr ''RS256'') then None
     else (case jmember j ''kid'' of Some (JStr kid) \<Rightarrow> Some kid | _ \<Rightarrow> None))"

definition read_assertion :: "'k jwt_world \<Rightarrow> string option \<Rightarrow> string + assertion_parts" where
  "read_assertion w assertion = (case assertion of
     None \<Rightarrow> Inl ''missing assertion''
   | Some s \<Rightarrow> (if s = [] \<or> max_assertion_length < length s then Inl ''missing assertion''
       else (case split_on CHR ''.'' s of
           [h, p, g] \<Rightarrow> (case jwJson w h of
               None \<Rightarrow> Inl ''invalid assertion''
             | Some j \<Rightarrow> (case header_kid j of
                 None \<Rightarrow> Inl ''unsupported algorithm''
               | Some kid \<Rightarrow> Inr \<lparr>apHeader = h, apPayload = p, apSignature = g, apKid = kid\<rparr>))
         | _ \<Rightarrow> Inl ''malformed assertion'')))"

datatype begun = Decided verdict | Awaiting assertion_parts

definition verify_begin :: "'k jwt_world \<Rightarrow> readings \<Rightarrow> string option \<Rightarrow> 'k verifier \<Rightarrow> 'k verifier \<times> begun" where
  "verify_begin w tm assertion v = (case read_assertion w assertion of
     Inl reason \<Rightarrow> (v, Decided (Refused reason))
   | Inr a \<Rightarrow> (case keyFor_begin tm (apKid a) v of
       (v', KeyReady key) \<Rightarrow> (v', Decided (decide w tm a v' key))
     | (v', KeyAwaits) \<Rightarrow> (v', Awaiting a)))"

definition verify_end :: "'k jwt_world \<Rightarrow> readings \<Rightarrow> jwks_reply \<Rightarrow> assertion_parts \<Rightarrow> 'k verifier \<Rightarrow> 'k verifier \<times> verdict" where
  "verify_end w tm reply a v = (let (v', key) = keyFor_end w tm reply (apKid a) v in (v', decide w tm a v' key))"

text \<open>A verification with nothing in between.\<close>

definition verify_assertion :: "'k jwt_world \<Rightarrow> readings \<Rightarrow> jwks_reply \<Rightarrow> string option \<Rightarrow> 'k verifier \<Rightarrow> 'k verifier \<times> verdict" where
  "verify_assertion w tm reply assertion v = (case verify_begin w tm assertion v of
     (v', Decided d) \<Rightarrow> (v', d)
   | (v', Awaiting a) \<Rightarrow> verify_end w tm reply a v')"

end
