(* ===== verification/AccessMachine.thy ===== *)
theory AccessMachine
  imports AccessJwt
begin

text \<open>
  Any number of verifications at once. A step starts a verification, which is decided or has sent a
  request for the keys, or ends one with the reply to its request; the clock does not go backwards.
  The state records, beside the verifier, the verifications that wait, the times of the requests, the
  documents received and the verdicts given.
\<close>

section \<open>The machine\<close>

record 'k jwt_state =
  jsVerifier :: "'k verifier"
  jsWaiting :: "(string option \<times> assertion_parts) list"
  jsClock :: int
  jsRequests :: "int list"
  jsDocuments :: "(int \<times> jwk list) list"
  jsVerdicts :: "(string option \<times> readings \<times> verdict) list"

definition jwt_initial :: "'k verifier \<Rightarrow> 'k jwt_state" where
  "jwt_initial v = \<lparr>jsVerifier = v, jsWaiting = [], jsClock = 0, jsRequests = [], jsDocuments = [], jsVerdicts = []\<rparr>"

definition document_of :: "readings \<Rightarrow> jwks_reply \<Rightarrow> (int \<times> jwk list) list" where
  "document_of tm reply = (case reply of Some (Some js) \<Rightarrow> [(tmLoaded tm, js)] | _ \<Rightarrow> [])"

inductive jwt_step :: "'k jwt_world \<Rightarrow> 'k jwt_state \<Rightarrow> 'k jwt_state \<Rightarrow> bool" for w where
  AtOnce: "jsClock s \<le> tmAge tm \<Longrightarrow> tmAge tm \<le> tmGate tm \<Longrightarrow> tmGate tm \<le> tmUse tm \<Longrightarrow> tmUse tm \<le> tmVerdict tm \<Longrightarrow>
    verify_begin w tm assertion (jsVerifier s) = (v, Decided d) \<Longrightarrow>
    jwt_step w s (s\<lparr>jsVerifier := v, jsClock := tmVerdict tm, jsVerdicts := (assertion, tm, d) # jsVerdicts s\<rparr>)"
| Request: "jsClock s \<le> tmAge tm \<Longrightarrow> tmAge tm \<le> tmGate tm \<Longrightarrow> tmGate tm \<le> tmAttempt tm \<Longrightarrow>
    verify_begin w tm assertion (jsVerifier s) = (v, Awaiting a) \<Longrightarrow>
    jwt_step w s (s\<lparr>jsVerifier := v, jsClock := tmAttempt tm, jsWaiting := (assertion, a) # jsWaiting s,
      jsRequests := tmAttempt tm # jsRequests s\<rparr>)"
| Reply: "(assertion, a) \<in> set (jsWaiting s) \<Longrightarrow>
    jsClock s \<le> tmLoaded tm \<Longrightarrow> tmLoaded tm \<le> tmUse tm \<Longrightarrow> tmUse tm \<le> tmVerdict tm \<Longrightarrow>
    verify_end w tm reply a (jsVerifier s) = (v, d) \<Longrightarrow>
    jwt_step w s (s\<lparr>jsVerifier := v, jsClock := tmVerdict tm, jsWaiting := remove1 (assertion, a) (jsWaiting s),
      jsDocuments := document_of tm reply @ jsDocuments s, jsVerdicts := (assertion, tm, d) # jsVerdicts s\<rparr>)"

inductive_cases jwt_stepE: "jwt_step w s s'"

inductive jwt_runs :: "'k jwt_world \<Rightarrow> 'k jwt_state \<Rightarrow> 'k jwt_state \<Rightarrow> bool" for w s where
  Start: "jwt_runs w s s"
| Step: "jwt_runs w s s' \<Longrightarrow> jwt_step w s' s'' \<Longrightarrow> jwt_runs w s s''"

section \<open>What an accepted assertion shows\<close>

text \<open>Some document received lists an RSA key of this identifier that imports as this key.\<close>

definition listed_key :: "'k jwt_world \<Rightarrow> (int \<times> jwk list) list \<Rightarrow> int \<Rightarrow> string \<Rightarrow> 'k \<Rightarrow> bool" where
  "listed_key w docs loaded kid k \<longleftrightarrow> (\<exists>js j. (loaded, js) \<in> set docs \<and> j \<in> set js \<and>
     jwkKty j = Some ''RSA'' \<and> jwkKid j = Some kid \<and> jwPublicKey w j = Some k)"

text \<open>
  The assertion is three parts; the header names RS256 and a key; that key was listed by a document
  loaded less than the time to live and the grace before the reading that looked it up; it verifies
  the signature of the first two parts; the payload is of this issuer, for this audience, and inside
  its validity, up to the clock skew.
\<close>

definition assertion_sound ::
  "'k jwt_world \<Rightarrow> 'k verifier \<Rightarrow> (int \<times> jwk list) list \<Rightarrow> string option \<Rightarrow> readings \<Rightarrow> string option \<Rightarrow> bool" where
  "assertion_sound w v docs assertion tm clientId \<longleftrightarrow>
     (\<exists>h p g header kid k loaded seen claims.
        assertion = Some (h @ ''.'' @ p @ ''.'' @ g) \<and>
        jwJson w h = Some header \<and> jmember header ''alg'' = Some (JStr ''RS256'') \<and> jmember header ''kid'' = Some (JStr kid) \<and>
        listed_key w docs loaded kid k \<and> seen \<in> {tmAge tm, tmUse tm} \<and> seen - loaded < key_ttl_ms + max_stale_grace_ms \<and>
        jwVerify w (h @ ''.'' @ p) k g = Some True \<and>
        jwJson w p = Some claims \<and> jmember claims ''iss'' = Some (JStr (vIssuer v)) \<and>
        includes_audience (jmember claims ''aud'') (vAudience v) \<and>
        \<not> expired_at (jmember claims ''exp'') (tmVerdict tm div 1000) \<and>
        \<not> early_at (jmember claims ''nbf'') (tmVerdict tm div 1000) \<and>
        (clientId = None \<or> jmember claims ''common_name'' = map_option JStr clientId))"

text \<open>Two requests to the key endpoint, of which the first is the later one.\<close>

definition spaced :: "int \<Rightarrow> int \<Rightarrow> bool" where
  "spaced later earlier \<longleftrightarrow> min_refresh_interval_ms \<le> later - earlier"

definition cache_ok :: "'k jwt_world \<Rightarrow> 'k jwt_state \<Rightarrow> bool" where
  "cache_ok w s \<longleftrightarrow> (\<forall>kid k. map_of (vKeys (jsVerifier s)) kid = Some k \<longrightarrow>
     listed_key w (jsDocuments s) (vLoadedAt (jsVerifier s)) kid k)"

definition requests_ok :: "'k jwt_state \<Rightarrow> bool" where
  "requests_ok s \<longleftrightarrow> sorted_wrt spaced (jsRequests s) \<and>
     (\<forall>t\<in>set (jsRequests s). t \<le> vLastAttemptAt (jsVerifier s))"

definition waiting_ok :: "'k jwt_world \<Rightarrow> 'k jwt_state \<Rightarrow> bool" where
  "waiting_ok w s \<longleftrightarrow> (\<forall>(assertion, a)\<in>set (jsWaiting s). read_assertion w assertion = Inr a)"

definition verdicts_ok :: "'k jwt_world \<Rightarrow> 'k jwt_state \<Rightarrow> bool" where
  "verdicts_ok w s \<longleftrightarrow> (\<forall>(assertion, tm, d)\<in>set (jsVerdicts s). \<forall>clientId. d = Accepted clientId \<longrightarrow>
     assertion_sound w (jsVerifier s) (jsDocuments s) assertion tm clientId)"

lemmas jwt_ok_defs = cache_ok_def requests_ok_def waiting_ok_def verdicts_ok_def

section \<open>Lemmas on the verifier\<close>

lemma usable_keys_listed:
  assumes "map_of (usable_keys w js m) kid = Some k"
  shows "map_of m kid = Some k \<or>
    (\<exists>j\<in>set js. jwkKty j = Some ''RSA'' \<and> jwkKid j = Some kid \<and> jwPublicKey w j = Some k)"
  using assms
  by (induction w js m rule: usable_keys.induct)
    (fastforce simp: update_conv' split: if_splits option.splits)+

lemma listed_key_mono: "listed_key w docs loaded kid k \<Longrightarrow> listed_key w (new @ docs) loaded kid k"
  by (auto simp: listed_key_def)

lemma assertion_sound_mono:
  assumes "assertion_sound w v docs assertion tm clientId" and "vIssuer v' = vIssuer v" and "vAudience v' = vAudience v"
  shows "assertion_sound w v' (new @ docs) assertion tm clientId"
  using assms listed_key_mono unfolding assertion_sound_def by metis

lemma verifier_config:
  "vIssuer (refresh_begin tm v) = vIssuer v" "vAudience (refresh_begin tm v) = vAudience v"
  "vKeys (refresh_begin tm v) = vKeys v" "vLoadedAt (refresh_begin tm v) = vLoadedAt v"
  "vLastAttemptAt (refresh_begin tm v) = tmAttempt tm"
  "vIssuer (refresh_end w tm reply v) = vIssuer v" "vAudience (refresh_end w tm reply v) = vAudience v"
  "vLastAttemptAt (refresh_end w tm reply v) = vLastAttemptAt v"
  by (auto simp: refresh_begin_def refresh_end_def Let_def split: option.splits)

lemma refresh_end_keys:
  assumes "map_of (vKeys (refresh_end w tm reply v)) kid = Some k"
  shows "(map_of (vKeys v) kid = Some k \<and> vLoadedAt (refresh_end w tm reply v) = vLoadedAt v) \<or>
    listed_key w (document_of tm reply) (vLoadedAt (refresh_end w tm reply v)) kid k"
proof (cases "refresh_end w tm reply v = v")
  case True
  with assms show ?thesis by simp
next
  case False
  then obtain js where reply: "reply = Some (Some js)" and keys: "usable_keys w js [] \<noteq> []"
    by (auto simp: refresh_end_def Let_def split: option.splits if_splits)
  with assms usable_keys_listed [of w js "[]" kid k] show ?thesis
    by (auto simp: refresh_end_def listed_key_def document_of_def)
qed

lemma split_three:
  assumes "split_on d s = [h, p, g]"
  shows "s = h @ d # p @ d # g"
  using assms
proof (induction s arbitrary: h)
  case Nil
  then show ?case by simp
next
  case (Cons c cs)
  show ?case
  proof (cases "c = d")
    case True
    with Cons.prems have h: "h = []" and two: "split_on d cs = [p, g]" by auto
    have "cs = p @ d # g"
      using two
    proof (induction cs arbitrary: p)
      case (Cons x xs)
      show ?case
      proof (cases "x = d")
        case True
        with Cons.prems have "p = []" "split_on d xs = [g]" by auto
        moreover have "split_on d xs = [g] \<Longrightarrow> xs = g"
          by (induction xs arbitrary: g) (auto split: if_splits list.splits)
        ultimately show ?thesis using True by simp
      next
        case False
        with Cons show ?thesis by (auto split: list.splits)
      qed
    qed simp
    with True h show ?thesis by simp
  next
    case False
    with Cons show ?thesis by (auto split: list.splits)
  qed
qed

lemma read_assertion_Inr:
  assumes "read_assertion w assertion = Inr a"
  shows "assertion = Some (apHeader a @ ''.'' @ apPayload a @ ''.'' @ apSignature a) \<and>
    (\<exists>header. jwJson w (apHeader a) = Some header \<and> jmember header ''alg'' = Some (JStr ''RS256'') \<and>
       jmember header ''kid'' = Some (JStr (apKid a)))"
proof -
  obtain s where s: "assertion = Some s" using assms by (auto simp: read_assertion_def split: option.splits)
  with assms obtain h p g where parts: "split_on CHR ''.'' s = [h, p, g]"
    by (auto simp: read_assertion_def split: if_splits list.splits)
  with assms s obtain j kid where j: "jwJson w h = Some j" "header_kid j = Some kid"
    and a: "a = \<lparr>apHeader = h, apPayload = p, apSignature = g, apKid = kid\<rparr>"
    by (auto simp: read_assertion_def split: if_splits option.splits)
  from j(2) have "jmember j ''alg'' = Some (JStr ''RS256'')" "jmember j ''kid'' = Some (JStr kid)"
    by (auto simp: header_kid_def split: if_splits option.splits json.splits)
  with split_three [OF parts] s j a show ?thesis by simp
qed

lemma decide_Accepted:
  assumes "decide w tm a v key = Accepted clientId"
  obtains k claims where "key = Some k" "jwVerify w (apHeader a @ ''.'' @ apPayload a) k (apSignature a) = Some True"
    "jwJson w (apPayload a) = Some claims" "jmember claims ''iss'' = Some (JStr (vIssuer v))"
    "includes_audience (jmember claims ''aud'') (vAudience v)"
    "\<not> expired_at (jmember claims ''exp'') (tmVerdict tm div 1000)"
    "\<not> early_at (jmember claims ''nbf'') (tmVerdict tm div 1000)"
    "clientId = None \<or> jmember claims ''common_name'' = map_option JStr clientId"
proof -
  from assms obtain k claims where k: "key = Some k"
    "jwVerify w (apHeader a @ ''.'' @ apPayload a) k (apSignature a) = Some True"
    "jwJson w (apPayload a) = Some claims" and c: "check_claims v (tmVerdict tm) claims = Accepted clientId"
    by (auto simp: decide_def split: option.splits bool.splits)
  from c have "clientId = (case jmember claims ''common_name'' of Some (JStr s) \<Rightarrow> Some s | _ \<Rightarrow> None)"
    by (auto simp: check_claims_def Let_def split: if_splits)
  then have "clientId = None \<or> jmember claims ''common_name'' = map_option JStr clientId"
    by (auto split: option.splits json.splits)
  with k c show ?thesis
    by (intro that) (auto simp: check_claims_def Let_def split: if_splits)
qed

lemma key_in_grace_Some:
  "key_in_grace tm kid v = Some k \<Longrightarrow>
     map_of (vKeys v) kid = Some k \<and> tmUse tm - vLoadedAt v < key_ttl_ms + max_stale_grace_ms"
  by (auto simp: key_in_grace_def split: option.splits if_splits)

lemma keyFor_begin_ready:
  assumes "keyFor_begin tm kid v = (v', KeyReady (Some k))"
  shows "v' = v \<and> map_of (vKeys v) kid = Some k \<and>
    (\<exists>seen\<in>{tmAge tm, tmUse tm}. seen - vLoadedAt v < key_ttl_ms + max_stale_grace_ms)"
proof -
  have "0 < max_stale_grace_ms" by (simp add: max_stale_grace_ms_def)
  with assms show ?thesis
    by (auto simp: keyFor_begin_def Let_def dest!: key_in_grace_Some split: option.splits if_splits)
qed

lemma keyFor_begin_state:
  assumes "keyFor_begin tm kid v = (v', wait)"
  shows "(v' = v \<and> wait \<noteq> KeyAwaits) \<or>
    (v' = refresh_begin tm v \<and> wait = KeyAwaits \<and> min_refresh_interval_ms \<le> tmGate tm - vLastAttemptAt v)"
  using assms by (auto simp: keyFor_begin_def Let_def split: if_splits)

text \<open>A verdict from a key the cache lists is sound.\<close>

lemma decide_sound:
  assumes "decide w tm a v key = Accepted clientId" and "read_assertion w assertion = Inr a"
    and "\<And>k. key = Some k \<Longrightarrow> listed_key w docs (vLoadedAt v) (apKid a) k"
    and "\<And>k. key = Some k \<Longrightarrow> \<exists>seen\<in>{tmAge tm, tmUse tm}. seen - vLoadedAt v < key_ttl_ms + max_stale_grace_ms"
  shows "assertion_sound w v docs assertion tm clientId"
proof -
  from assms(1) obtain k claims where k: "key = Some k"
    and facts: "jwVerify w (apHeader a @ ''.'' @ apPayload a) k (apSignature a) = Some True"
      "jwJson w (apPayload a) = Some claims" "jmember claims ''iss'' = Some (JStr (vIssuer v))"
      "includes_audience (jmember claims ''aud'') (vAudience v)"
      "\<not> expired_at (jmember claims ''exp'') (tmVerdict tm div 1000)"
      "\<not> early_at (jmember claims ''nbf'') (tmVerdict tm div 1000)"
      "clientId = None \<or> jmember claims ''common_name'' = map_option JStr clientId"
    by (rule decide_Accepted)
  from assms(3,4) [OF k] obtain seen where "listed_key w docs (vLoadedAt v) (apKid a) k" "seen \<in> {tmAge tm, tmUse tm}"
    "seen - vLoadedAt v < key_ttl_ms + max_stale_grace_ms" by blast
  with read_assertion_Inr [OF assms(2)] facts show ?thesis unfolding assertion_sound_def by metis
qed

end
