(* ===== verification/AccessClaims.thy ===== *)
theory AccessClaims
  imports AccessMachine
begin

text \<open>
  The invariant of the access verifier under any interleaving, and what it gives: accepted assertions
  are genuine, the requests to the key endpoint are a minute apart, and a verifier is never stuck.
\<close>

section \<open>The invariant\<close>

definition jwt_ok :: "'k jwt_world \<Rightarrow> 'k jwt_state \<Rightarrow> bool" where
  "jwt_ok w s \<longleftrightarrow> cache_ok w s \<and> requests_ok s \<and> waiting_ok w s \<and> verdicts_ok w s"

lemma verify_begin_config:
  assumes "verify_begin w tm assertion v = (v', b)"
  shows "vIssuer v' = vIssuer v \<and> vAudience v' = vAudience v \<and> vKeys v' = vKeys v \<and> vLoadedAt v' = vLoadedAt v"
  using assms keyFor_begin_state
  by (fastforce simp: verify_begin_def verifier_config split: sum.splits prod.splits key_wait.splits)

lemma verify_begin_Decided:
  assumes "verify_begin w tm assertion v = (v', Decided d)"
  shows "v' = v \<and> ((\<exists>reason. d = Refused reason) \<or>
    (\<exists>a key. read_assertion w assertion = Inr a \<and> keyFor_begin tm (apKid a) v = (v, KeyReady key) \<and> d = decide w tm a v key))"
proof (cases "read_assertion w assertion")
  case (Inl reason)
  with assms show ?thesis by (auto simp: verify_begin_def)
next
  case (Inr a)
  obtain u wait where k: "keyFor_begin tm (apKid a) v = (u, wait)" by force
  with assms Inr keyFor_begin_state [OF k] show ?thesis by (auto simp: verify_begin_def split: key_wait.splits)
qed

lemma verify_begin_Awaiting:
  assumes "verify_begin w tm assertion v = (v', Awaiting a)"
  shows "read_assertion w assertion = Inr a \<and> v' = refresh_begin tm v \<and>
    min_refresh_interval_ms \<le> tmGate tm - vLastAttemptAt v"
proof (cases "read_assertion w assertion")
  case (Inl reason)
  with assms show ?thesis by (auto simp: verify_begin_def)
next
  case (Inr b)
  obtain u wait where k: "keyFor_begin tm (apKid b) v = (u, wait)" by force
  with assms Inr keyFor_begin_state [OF k] show ?thesis by (auto simp: verify_begin_def split: key_wait.splits)
qed

lemma verify_end_eq:
  assumes "verify_end w tm reply a v = (v', d)"
  shows "v' = refresh_end w tm reply v \<and> d = decide w tm a v' (key_in_grace tm (apKid a) v')"
  using assms by (auto simp: verify_end_def keyFor_end_def Let_def)

lemma jwt_ok_initial:
  assumes "createAccessVerifier team audience = Inr v"
  shows "jwt_ok w (jwt_initial v)"
proof -
  from assms have "vKeys v = []" by (auto simp: createAccessVerifier_def split: option.splits if_splits)
  then show ?thesis by (simp add: jwt_ok_def jwt_ok_defs jwt_initial_def)
qed

lemma at_once_ok:
  assumes "jwt_ok w s" and "verify_begin w tm assertion (jsVerifier s) = (v, Decided d)"
  shows "jwt_ok w (s\<lparr>jsVerifier := v, jsClock := tmVerdict tm, jsVerdicts := (assertion, tm, d) # jsVerdicts s\<rparr>)"
proof -
  from verify_begin_Decided [OF assms(2)] have v: "v = jsVerifier s" by simp
  have "assertion_sound w v (jsDocuments s) assertion tm clientId" if d: "d = Accepted clientId" for clientId
  proof -
    from verify_begin_Decided [OF assms(2)] d obtain a key where a: "read_assertion w assertion = Inr a"
      and key: "keyFor_begin tm (apKid a) v = (v, KeyReady key)" and dec: "decide w tm a v key = Accepted clientId"
      using v by auto
    from dec a show ?thesis
    proof (rule decide_sound)
      fix k assume k: "key = Some k"
      from keyFor_begin_ready [OF key [unfolded k]] assms(1) v
      show "listed_key w (jsDocuments s) (vLoadedAt v) (apKid a) k" by (auto simp: jwt_ok_def cache_ok_def)
      from keyFor_begin_ready [OF key [unfolded k]]
      show "\<exists>seen\<in>{tmAge tm, tmUse tm}. seen - vLoadedAt v < key_ttl_ms + max_stale_grace_ms" by blast
    qed
  qed
  with assms(1) v show ?thesis by (auto simp: jwt_ok_def jwt_ok_defs)
qed

lemma request_ok:
  assumes "jwt_ok w s" and "verify_begin w tm assertion (jsVerifier s) = (v, Awaiting a)" and "tmGate tm \<le> tmAttempt tm"
  shows "jwt_ok w (s\<lparr>jsVerifier := v, jsClock := tmAttempt tm, jsWaiting := (assertion, a) # jsWaiting s,
      jsRequests := tmAttempt tm # jsRequests s\<rparr>)"
proof -
  from verify_begin_Awaiting [OF assms(2)] have a: "read_assertion w assertion = Inr a"
    and v: "v = refresh_begin tm (jsVerifier s)"
    and gate: "min_refresh_interval_ms \<le> tmGate tm - vLastAttemptAt (jsVerifier s)" by auto
  have "0 < min_refresh_interval_ms" by (simp add: min_refresh_interval_ms_def)
  with assms(1) gate assms(3) have "requests_ok (s\<lparr>jsVerifier := v, jsClock := tmAttempt tm,
      jsWaiting := (assertion, a) # jsWaiting s, jsRequests := tmAttempt tm # jsRequests s\<rparr>)"
    by (fastforce simp: jwt_ok_def requests_ok_def spaced_def v verifier_config)
  moreover have "assertion_sound w v (jsDocuments s) assertion' tm' clientId"
    if "assertion_sound w (jsVerifier s) (jsDocuments s) assertion' tm' clientId" for assertion' tm' clientId
    using assertion_sound_mono [OF that, of v "[]"] by (simp add: v verifier_config)
  ultimately show ?thesis using assms(1) a
    by (auto simp: jwt_ok_def cache_ok_def waiting_ok_def verdicts_ok_def v verifier_config)
qed

lemma cache_after_reply:
  assumes "cache_ok w s" and "map_of (vKeys (refresh_end w tm reply (jsVerifier s))) kid = Some k"
  shows "listed_key w (document_of tm reply @ jsDocuments s) (vLoadedAt (refresh_end w tm reply (jsVerifier s))) kid k"
proof -
  from refresh_end_keys [OF assms(2)] assms(1)
  have "listed_key w (jsDocuments s) (vLoadedAt (refresh_end w tm reply (jsVerifier s))) kid k \<or>
      listed_key w (document_of tm reply) (vLoadedAt (refresh_end w tm reply (jsVerifier s))) kid k"
    by (auto simp: cache_ok_def)
  then show ?thesis by (auto simp: listed_key_def)
qed

lemma reply_ok:
  assumes "jwt_ok w s" and "(assertion, a) \<in> set (jsWaiting s)" and "verify_end w tm reply a (jsVerifier s) = (v, d)"
  shows "jwt_ok w (s\<lparr>jsVerifier := v, jsClock := tmVerdict tm, jsWaiting := remove1 (assertion, a) (jsWaiting s),
      jsDocuments := document_of tm reply @ jsDocuments s, jsVerdicts := (assertion, tm, d) # jsVerdicts s\<rparr>)"
proof -
  from verify_end_eq [OF assms(3)] have v: "v = refresh_end w tm reply (jsVerifier s)"
    and d: "d = decide w tm a v (key_in_grace tm (apKid a) v)" by auto
  from assms(1) have cache: "cache_ok w s" by (simp add: jwt_ok_def)
  from assms(1,2) have a: "read_assertion w assertion = Inr a" by (auto simp: jwt_ok_def waiting_ok_def)
  have sound: "assertion_sound w v (document_of tm reply @ jsDocuments s) assertion tm clientId"
    if "d = Accepted clientId" for clientId
  proof (rule decide_sound [OF _ a])
    show "decide w tm a v (key_in_grace tm (apKid a) v) = Accepted clientId" using that d by simp
    fix k assume "key_in_grace tm (apKid a) v = Some k"
    then have k: "map_of (vKeys v) (apKid a) = Some k" "tmUse tm - vLoadedAt v < key_ttl_ms + max_stale_grace_ms"
      by (auto dest: key_in_grace_Some)
    from cache_after_reply [OF cache k(1) [unfolded v]]
    show "listed_key w (document_of tm reply @ jsDocuments s) (vLoadedAt v) (apKid a) k" by (simp add: v)
    from k(2) show "\<exists>seen\<in>{tmAge tm, tmUse tm}. seen - vLoadedAt v < key_ttl_ms + max_stale_grace_ms" by blast
  qed
  have old: "assertion_sound w v (document_of tm reply @ jsDocuments s) assertion' tm' clientId"
    if "assertion_sound w (jsVerifier s) (jsDocuments s) assertion' tm' clientId" for assertion' tm' clientId
    using assertion_sound_mono [OF that] by (simp add: v verifier_config)
  have "set (remove1 (assertion, a) (jsWaiting s)) \<subseteq> set (jsWaiting s)" by (rule set_remove1_subset)
  with assms(1) sound old cache_after_reply [OF cache] show ?thesis
    by (auto simp: jwt_ok_def jwt_ok_defs v verifier_config)
qed

lemma jwt_step_ok:
  assumes "jwt_step w s s'" and "jwt_ok w s"
  shows "jwt_ok w s' \<and> vIssuer (jsVerifier s') = vIssuer (jsVerifier s) \<and> vAudience (jsVerifier s') = vAudience (jsVerifier s)"
  using assms(1)
proof (cases rule: jwt_step.cases)
  case (AtOnce tm assertion v d)
  with at_once_ok [OF assms(2) AtOnce(6)] verify_begin_config [OF AtOnce(6)] show ?thesis by simp
next
  case (Request tm assertion v a)
  with request_ok [OF assms(2) Request(5,4)] verify_begin_config [OF Request(5)] show ?thesis by simp
next
  case (Reply assertion a tm reply v d)
  with reply_ok [OF assms(2) Reply(2,6)] verify_end_eq [OF Reply(6)] show ?thesis by (simp add: verifier_config)
qed

lemma jwt_runs_ok:
  assumes "jwt_runs w s s'" and "jwt_ok w s"
  shows "jwt_ok w s' \<and> vIssuer (jsVerifier s') = vIssuer (jsVerifier s) \<and> vAudience (jsVerifier s') = vAudience (jsVerifier s)"
  using assms
proof (induction rule: jwt_runs.induct)
  case Start
  then show ?case by simp
next
  case (Step s' s'')
  then show ?case using jwt_step_ok by metis
qed

section \<open>Soundness\<close>

text \<open>
  C26: Whatever verifications overlap, every assertion the verifier accepts is genuine (three parts, an
  RS256 signature by a key the endpoint listed and that was loaded at most the time to live and the grace
  before, this issuer and audience, inside its validity), and two requests to the key endpoint are at
  least a minute apart.
\<close>
theorem jwt_sound:
  assumes "createAccessVerifier team audience = Inr v" and "jwt_runs w (jwt_initial v) s"
  shows "(\<forall>assertion tm clientId. (assertion, tm, Accepted clientId) \<in> set (jsVerdicts s) \<longrightarrow>
      assertion_sound w v (jsDocuments s) assertion tm clientId) \<and>
    sorted_wrt spaced (jsRequests s)"
proof -
  from jwt_runs_ok [OF assms(2) jwt_ok_initial [OF assms(1)]]
  have ok: "jwt_ok w s" and cfg: "vIssuer (jsVerifier s) = vIssuer v" "vAudience (jsVerifier s) = vAudience v"
    by (auto simp: jwt_initial_def)
  have "assertion_sound w v (jsDocuments s) assertion tm clientId"
    if "(assertion, tm, Accepted clientId) \<in> set (jsVerdicts s)" for assertion tm clientId
  proof -
    from ok that have "assertion_sound w (jsVerifier s) (jsDocuments s) assertion tm clientId"
      by (auto simp: jwt_ok_def verdicts_ok_def)
    from assertion_sound_mono [OF this, of v "[]"] cfg show ?thesis by simp
  qed
  with ok show ?thesis by (auto simp: jwt_ok_def requests_ok_def)
qed

section \<open>No lock-out\<close>

lemma refresh_end_listed:
  assumes "map_of (usable_keys w js []) kid = Some k"
  shows "refresh_end w tm (Some (Some js)) v = v\<lparr>vKeys := usable_keys w js [], vLoadedAt := tmLoaded tm\<rparr>"
proof -
  have "usable_keys w js [] \<noteq> []" using assms by auto
  then show ?thesis by (simp add: refresh_end_def)
qed

lemma decide_genuine:
  assumes "jwVerify w (apHeader a @ ''.'' @ apPayload a) k (apSignature a) = Some True"
    and "jwJson w (apPayload a) = Some claims" and "check_claims v (tmVerdict tm) claims = Accepted clientId"
    and "vIssuer v' = vIssuer v" and "vAudience v' = vAudience v"
  shows "decide w tm a v' (Some k) = Accepted clientId"
proof -
  have "check_claims v' (tmVerdict tm) claims = check_claims v (tmVerdict tm) claims"
    unfolding check_claims_def assms(4,5) ..
  with assms(1-3) show ?thesis by (simp add: decide_def)
qed

text \<open>The key a verification uses without asking the endpoint: cached under the identifier and inside the time to live.\<close>

definition fresh_key :: "readings \<Rightarrow> string \<Rightarrow> 'k verifier \<Rightarrow> 'k option" where
  "fresh_key tm kid v = (if tmAge tm - vLoadedAt v < key_ttl_ms then map_of (vKeys v) kid else None)"

lemma keyFor_begin_fresh:
  "keyFor_begin tm kid v = (case fresh_key tm kid v of
     Some k \<Rightarrow> (v, KeyReady (Some k))
   | None \<Rightarrow> (if tmGate tm - vLastAttemptAt v < min_refresh_interval_ms then (v, KeyReady (key_in_grace tm kid v))
       else (refresh_begin tm v, KeyAwaits)))"
  by (auto simp: keyFor_begin_def fresh_key_def split: option.splits)

text \<open>
  C27: What happens to a genuine assertion, one whose claims hold and whose signature is by the key that
  the endpoint now lists under its identifier, once a minute has passed since the last request and the
  endpoint answers. In every state of the verifier with no key fresh in its cache under that identifier
  (nothing cached, or cached longer ago than the time to live, whichever key it is) it is accepted. When
  a key is fresh in the cache the endpoint is not asked: the assertion is accepted exactly if its
  signature also verifies under the cached key, so a key replaced under the same identifier is refused,
  but only until the time to live of the old one has passed.
\<close>
theorem jwt_accepts_genuine:
  assumes "read_assertion w assertion = Inr a"
    and "map_of (usable_keys w js []) (apKid a) = Some k"
    and "jwVerify w (apHeader a @ ''.'' @ apPayload a) k (apSignature a) = Some True"
    and "jwJson w (apPayload a) = Some claims" and "check_claims v (tmVerdict tm) claims = Accepted clientId"
    and "min_refresh_interval_ms \<le> tmGate tm - vLastAttemptAt v"
    and "tmUse tm - tmLoaded tm < key_ttl_ms + max_stale_grace_ms"
  shows "snd (verify_assertion w tm (Some (Some js)) assertion v) =
    (case fresh_key tm (apKid a) v of
       None \<Rightarrow> Accepted clientId
     | Some cached \<Rightarrow> (case jwVerify w (apHeader a @ ''.'' @ apPayload a) cached (apSignature a) of
         Some True \<Rightarrow> Accepted clientId
       | Some False \<Rightarrow> Refused ''bad signature''
       | None \<Rightarrow> Refused ''invalid assertion''))"
proof (cases "fresh_key tm (apKid a) v")
  case (Some cached)
  then have "verify_assertion w tm (Some (Some js)) assertion v = (v, decide w tm a v (Some cached))"
    using assms(1) by (simp add: verify_assertion_def verify_begin_def keyFor_begin_fresh)
  with Some assms(4,5) show ?thesis by (auto simp: decide_def split: option.split bool.split)
next
  case None
  with assms(6) have "keyFor_begin tm (apKid a) v = (refresh_begin tm v, KeyAwaits)"
    by (simp add: keyFor_begin_fresh)
  with assms(1) have b: "verify_begin w tm assertion v = (refresh_begin tm v, Awaiting a)"
    by (simp add: verify_begin_def)
  let ?v = "refresh_end w tm (Some (Some js)) (refresh_begin tm v)"
  have "key_in_grace tm (apKid a) ?v = Some k"
    using assms(2,7) by (simp add: refresh_end_listed [OF assms(2)] key_in_grace_def)
  moreover have "decide w tm a ?v (Some k) = Accepted clientId"
    using decide_genuine [where v' = ?v, OF assms(3-5)] by (simp add: verifier_config)
  ultimately show ?thesis
    using b None by (simp add: verify_assertion_def verify_end_def keyFor_end_def Let_def)
qed

section \<open>A concrete run\<close>

text \<open>Toy crypto: a key is a text, and a signature by it is that text.\<close>

definition demo_header :: json where
  "demo_header = JObj [(''alg'', JStr ''RS256''), (''kid'', JStr ''k1'')]"

definition demo_claims :: json where
  "demo_claims = JObj [(''aud'', JArr [JStr ''aud'']), (''exp'', JNum 2000), (''iss'', JStr ''https://t.example'')]"

definition demo_jwt_world :: "string jwt_world" where
  "demo_jwt_world = \<lparr>
     jwJson = (\<lambda>s. if s = ''h'' then Some demo_header else if s = ''p'' then Some demo_claims else None),
     jwPublicKey = jwkN, jwVerify = (\<lambda>text k g. Some (k = g))\<rparr>"

definition demo_jwk :: jwk where
  "demo_jwk = \<lparr>jwkKid = Some ''k1'', jwkKty = Some ''RSA'', jwkN = Some ''g'', jwkE = None\<rparr>"

definition demo_verifier :: "string verifier" where
  "demo_verifier = \<lparr>vIssuer = ''https://t.example'', vAudience = ''aud'', vKeys = [], vLoadedAt = 0, vLastAttemptAt = 0\<rparr>"

definition demo_readings :: readings where
  "demo_readings = \<lparr>tmAge = 1000000, tmGate = 1000000, tmAttempt = 1000000, tmLoaded = 1000100, tmUse = 1000100, tmVerdict = 1000200\<rparr>"

definition demo_parts :: assertion_parts where
  "demo_parts = \<lparr>apHeader = ''h'', apPayload = ''p'', apSignature = ''g'', apKid = ''k1''\<rparr>"

lemma demo_created: "createAccessVerifier ''t.example'' ''aud'' = Inr demo_verifier"
  by code_simp

lemma demo_read: "read_assertion demo_jwt_world (Some ''h.p.g'') = Inr demo_parts"
  by code_simp

lemma demo_check: "check_claims demo_verifier (tmVerdict demo_readings) demo_claims = Accepted None"
  by code_simp

lemma demo_keys: "map_of (usable_keys demo_jwt_world [demo_jwk] []) (apKid demo_parts) = Some ''g''"
  by (simp add: demo_jwt_world_def demo_jwk_def demo_parts_def)

text \<open>A verifier that holds another key under the same identifier, loaded fifteen minutes before.\<close>

definition demo_holding :: "string verifier" where
  "demo_holding = demo_verifier\<lparr>vKeys := [(''k1'', ''old'')], vLoadedAt := 100000, vLastAttemptAt := 100000\<rparr>"

lemma demo_cached_key:
  "fresh_key demo_readings (apKid demo_parts) demo_verifier = None"
  "fresh_key demo_readings (apKid demo_parts) demo_holding = Some ''old''"
  by (simp_all add: fresh_key_def demo_verifier_def demo_holding_def demo_readings_def demo_parts_def key_ttl_ms_def)

lemma demo_genuine_parts:
  "jwVerify demo_jwt_world (apHeader demo_parts @ ''.'' @ apPayload demo_parts) key (apSignature demo_parts) = Some (key = ''g'')"
  "jwJson demo_jwt_world (apPayload demo_parts) = Some demo_claims"
  "tmUse demo_readings - tmLoaded demo_readings < key_ttl_ms + max_stale_grace_ms"
  by (simp_all add: demo_jwt_world_def demo_parts_def key_ttl_ms_def max_stale_grace_ms_def demo_readings_def)

lemma demo_holding_check: "check_claims demo_holding (tmVerdict demo_readings) demo_claims = Accepted None"
  by code_simp

theorem jwt_accepts_genuine_witness:
  "snd (verify_assertion demo_jwt_world demo_readings (Some (Some [demo_jwk])) (Some ''h.p.g'') demo_verifier) = Accepted None \<and>
   snd (verify_assertion demo_jwt_world demo_readings (Some (Some [demo_jwk])) (Some ''h.p.g'') demo_holding) = Refused ''bad signature''"
proof
  have spaced: "min_refresh_interval_ms \<le> tmGate demo_readings - vLastAttemptAt demo_verifier"
    "min_refresh_interval_ms \<le> tmGate demo_readings - vLastAttemptAt demo_holding"
    by (simp_all add: min_refresh_interval_ms_def demo_readings_def demo_verifier_def demo_holding_def)
  have genuine: "jwVerify demo_jwt_world (apHeader demo_parts @ ''.'' @ apPayload demo_parts) ''g'' (apSignature demo_parts) = Some True"
    using demo_genuine_parts(1) [of "''g''"] by simp
  note accepts = jwt_accepts_genuine [OF demo_read demo_keys genuine demo_genuine_parts(2) _ _ demo_genuine_parts(3)]
  show "snd (verify_assertion demo_jwt_world demo_readings (Some (Some [demo_jwk])) (Some ''h.p.g'') demo_verifier) = Accepted None"
    using accepts [OF demo_check spaced(1)] by (simp add: demo_cached_key)
  show "snd (verify_assertion demo_jwt_world demo_readings (Some (Some [demo_jwk])) (Some ''h.p.g'') demo_holding) = Refused ''bad signature''"
    using accepts [OF demo_holding_check spaced(2)] unfolding demo_cached_key demo_genuine_parts(1) by simp
qed

lemma demo_begin:
  "verify_begin demo_jwt_world demo_readings (Some ''h.p.g'') demo_verifier =
     (refresh_begin demo_readings demo_verifier, Awaiting demo_parts)"
  by (simp add: verify_begin_def demo_read keyFor_begin_def demo_verifier_def min_refresh_interval_ms_def demo_readings_def)

lemma demo_end:
  "snd (verify_end demo_jwt_world demo_readings (Some (Some [demo_jwk])) demo_parts
     (refresh_begin demo_readings demo_verifier)) = Accepted None"
  by code_simp

lemma demo_jwt_run:
  "\<exists>s. jwt_runs demo_jwt_world (jwt_initial demo_verifier) s \<and>
     (Some ''h.p.g'', demo_readings, Accepted None) \<in> set (jsVerdicts s) \<and> jsRequests s = [1000000]"
proof -
  let ?s = "jwt_initial demo_verifier"
  let ?t = "?s\<lparr>jsVerifier := refresh_begin demo_readings demo_verifier, jsClock := tmAttempt demo_readings,
    jsWaiting := (Some ''h.p.g'', demo_parts) # jsWaiting ?s, jsRequests := tmAttempt demo_readings # jsRequests ?s\<rparr>"
  have "verify_begin demo_jwt_world demo_readings (Some ''h.p.g'') (jsVerifier ?s) =
      (refresh_begin demo_readings demo_verifier, Awaiting demo_parts)"
    using demo_begin by (simp add: jwt_initial_def)
  then have "jwt_step demo_jwt_world ?s ?t"
    by (rule jwt_step.Request [rotated 3]) (simp_all add: jwt_initial_def demo_readings_def)
  then have one: "jwt_runs demo_jwt_world ?s ?t" using jwt_runs.Start jwt_runs.Step by blast
  obtain v where fin: "verify_end demo_jwt_world demo_readings (Some (Some [demo_jwk])) demo_parts (jsVerifier ?t) = (v, Accepted None)"
    using demo_end by (cases "verify_end demo_jwt_world demo_readings (Some (Some [demo_jwk])) demo_parts (jsVerifier ?t)") simp
  let ?u = "?t\<lparr>jsVerifier := v, jsClock := tmVerdict demo_readings,
      jsWaiting := remove1 (Some ''h.p.g'', demo_parts) (jsWaiting ?t),
      jsDocuments := document_of demo_readings (Some (Some [demo_jwk])) @ jsDocuments ?t,
      jsVerdicts := (Some ''h.p.g'', demo_readings, Accepted None) # jsVerdicts ?t\<rparr>"
  have "jwt_step demo_jwt_world ?t ?u"
    by (rule jwt_step.Reply [OF _ _ _ _ fin]) (simp_all add: demo_readings_def)
  with one have "jwt_runs demo_jwt_world ?s ?u" by (rule jwt_runs.Step)
  moreover have "(Some ''h.p.g'', demo_readings, Accepted None) \<in> set (jsVerdicts ?u)" by simp
  moreover have "jsRequests ?u = [1000000]" by (simp add: jwt_initial_def demo_readings_def)
  ultimately show ?thesis by blast
qed

theorem jwt_sound_witness:
  "\<exists>s. jwt_runs demo_jwt_world (jwt_initial demo_verifier) s \<and>
     (Some ''h.p.g'', demo_readings, Accepted None) \<in> set (jsVerdicts s) \<and>
     assertion_sound demo_jwt_world demo_verifier (jsDocuments s) (Some ''h.p.g'') demo_readings None \<and>
     sorted_wrt spaced (jsRequests s)"
  using demo_jwt_run jwt_sound [OF demo_created] by blast

end
