(* ===== verification/Security.thy ===== *)
theory Security
  imports Prelude
begin

text \<open>
  \<open>server/security.ts\<close>: the session cookie, the origin allow-list, what is believed of a reverse
  proxy, the text comparison and the sliding-window rate limiter, whose state is the insertion-ordered
  \<open>Map\<close> from a key to the times of its counted calls. \<open>encodeURIComponent\<close> and
  \<open>decodeURIComponent\<close> are fields of a record (the second may throw: \<open>None\<close>); times are
  integers (milliseconds), read by the caller.
\<close>

section \<open>Cookies and origins\<close>

record uri_codec =
  ucEncode :: "string \<Rightarrow> string"
  ucDecode :: "string \<Rightarrow> string option"

definition session_cookie_name :: string where "session_cookie_name = ''canvas_session''"

text \<open>\<open>item.indexOf('=')\<close> splits an item into what precedes the first separator and what follows it.\<close>

fun cookie_pair :: "string \<Rightarrow> (string \<times> string) option" where
  "cookie_pair [] = None"
| "cookie_pair (c # cs) = (if c = CHR ''='' then Some ([], cs)
     else (case cookie_pair cs of None \<Rightarrow> None | Some (k, v) \<Rightarrow> Some (c # k, v)))"

fun cookie_lookup :: "uri_codec \<Rightarrow> string \<Rightarrow> string list \<Rightarrow> string option" where
  "cookie_lookup uc name [] = None"
| "cookie_lookup uc name (item # items) = (case cookie_pair item of
     None \<Rightarrow> cookie_lookup uc name items
   | Some (k, v) \<Rightarrow> (if js_trim k \<noteq> name then cookie_lookup uc name items else ucDecode uc (js_trim v)))"

definition readCookie :: "uri_codec \<Rightarrow> string \<Rightarrow> string option \<Rightarrow> string option" where
  "readCookie uc name header =
     cookie_lookup uc name (split_on CHR '';'' (case header of None \<Rightarrow> [] | Some h \<Rightarrow> h))"

definition secure_suffix :: "bool \<Rightarrow> string" where
  "secure_suffix secure = (if secure then ''; Secure'' else [])"

text \<open>The text of the maximal age is a parameter: the number printed by the template literal.\<close>

definition sessionCookie :: "uri_codec \<Rightarrow> string \<Rightarrow> bool \<Rightarrow> string \<Rightarrow> string" where
  "sessionCookie uc token secure maxAge = session_cookie_name @ ''='' @ ucEncode uc token
     @ ''; Path=/; HttpOnly; SameSite=Strict; Max-Age='' @ maxAge @ secure_suffix secure"

definition expiredSessionCookie :: "bool \<Rightarrow> string" where
  "expiredSessionCookie secure = session_cookie_name @ ''=; Path=/; HttpOnly; SameSite=Strict; Max-Age=0'' @ secure_suffix secure"

definition allowedOrigins :: "string option \<Rightarrow> string list" where
  "allowedOrigins raw = uniq (filter (\<lambda>s. s \<noteq> []) (map (\<lambda>s. drop_suffix_char CHR ''/'' (js_trim s))
     (case raw of None \<Rightarrow> [''http://127.0.0.1:8787'', ''http://localhost:8787'']
      | Some r \<Rightarrow> (if r = [] then [''http://127.0.0.1:8787'', ''http://localhost:8787''] else split_on CHR '','' r))))"

definition originAllowed :: "string option \<Rightarrow> string list \<Rightarrow> bool" where
  "originAllowed origin allowed = (case origin of
     None \<Rightarrow> False
   | Some s \<Rightarrow> (if s = [] then False else drop_suffix_char CHR ''/'' s \<in> set allowed))"

section \<open>Reverse proxies\<close>

text \<open>A header is absent, one text, or (as Node gives a repeated one) a list of texts.\<close>

datatype header = NoHeader | OneHeader string | ManyHeaders "string list"

record proxied_request =
  prProtocol :: string
  prIp :: string
  prForwardedProto :: header
  prConnectingIp :: header
  prForwardedFor :: header
  prRemoteAddress :: "string option"

definition isLoopbackAddress :: "string option \<Rightarrow> bool" where
  "isLoopbackAddress a \<longleftrightarrow> a = Some ''127.0.0.1'' \<or> a = Some ''::1'' \<or> a = Some ''::ffff:127.0.0.1''"

definition requestIsSecure :: "proxied_request \<Rightarrow> bool" where
  "requestIsSecure r = (if prProtocol r = ''https'' then True
     else if \<not> isLoopbackAddress (prRemoteAddress r) then False
     else (case prForwardedProto r of
       OneHeader h \<Rightarrow> fold_case (js_trim (hd (split_on CHR '','' h))) = ''https''
     | _ \<Rightarrow> False))"

definition clientAddress :: "proxied_request \<Rightarrow> string" where
  "clientAddress r =
     (let peer = (case prRemoteAddress r of None \<Rightarrow> prIp r | Some a \<Rightarrow> a);
          forwarded = (case prForwardedFor r of
            OneHeader h \<Rightarrow> (let first = js_trim (hd (split_on CHR '','' h)) in if first \<noteq> [] then first else peer)
          | _ \<Rightarrow> peer) in
      if \<not> isLoopbackAddress (Some peer) then peer
      else (case prConnectingIp r of
        OneHeader h \<Rightarrow> (if js_trim h \<noteq> [] then js_trim h else forwarded)
      | _ \<Rightarrow> forwarded))"

text \<open>\<open>Buffer.from\<close> gives the UTF-8 bytes, a parameter; \<open>timingSafeEqual\<close> compares two buffers of one length.\<close>

definition constantTimeTextEqual :: "(string \<Rightarrow> nat list) \<Rightarrow> string \<Rightarrow> string \<Rightarrow> bool" where
  "constantTimeTextEqual utf8 l r \<longleftrightarrow> length (utf8 l) = length (utf8 r) \<and> list_all2 (=) (utf8 l) (utf8 r)"

section \<open>The rate limiter\<close>

record limiter =
  rlLimit :: nat
  rlWindow :: int
  rlAttempts :: "(string \<times> int list) list"

definition recent_of :: "limiter \<Rightarrow> string \<Rightarrow> int \<Rightarrow> int list" where
  "recent_of l key now = filter (\<lambda>t. now - rlWindow l < t)
     (case map_of (rlAttempts l) key of None \<Rightarrow> [] | Some ts \<Rightarrow> ts)"

definition prune :: "int \<Rightarrow> limiter \<Rightarrow> limiter" where
  "prune now l = l\<lparr>rlAttempts := filter (\<lambda>(_, ts). list_ex (\<lambda>t. now - rlWindow l < t) ts) (rlAttempts l)\<rparr>"

definition allow :: "string \<Rightarrow> int \<Rightarrow> limiter \<Rightarrow> limiter \<times> bool" where
  "allow key now l =
     (let recent = recent_of l key now in
      if rlLimit l \<le> length recent
      then (l\<lparr>rlAttempts := AList.update key recent (rlAttempts l)\<rparr>, False)
      else (let l' = l\<lparr>rlAttempts := AList.update key (recent @ [now]) (rlAttempts l)\<rparr> in
        (if 5000 < length (rlAttempts l') then prune now l' else l', True)))"

definition wouldAllow :: "string \<Rightarrow> int \<Rightarrow> limiter \<Rightarrow> bool" where
  "wouldAllow key now l \<longleftrightarrow> length (recent_of l key now) < rlLimit l"

definition new_limiter :: "nat \<Rightarrow> int \<Rightarrow> limiter" where
  "new_limiter limit window = \<lparr>rlLimit = limit, rlWindow = window, rlAttempts = []\<rparr>"

text \<open>A run of calls, in order: the answers given.\<close>

fun allow_all :: "(string \<times> int) list \<Rightarrow> limiter \<Rightarrow> limiter \<times> bool list" where
  "allow_all [] l = (l, [])"
| "allow_all ((key, now) # calls) l =
     (let (l', b) = allow key now l; (l'', bs) = allow_all calls l' in (l'', b # bs))"

section \<open>The reference: what is counted\<close>

text \<open>
  The specification keeps no map: it remembers the calls it granted, newest first, and grants a call
  when fewer than \<open>limit\<close> of them are of this key and inside the window that ends now.
\<close>

definition granted_in :: "int \<Rightarrow> string \<Rightarrow> int \<Rightarrow> (string \<times> int) list \<Rightarrow> nat" where
  "granted_in window key now counted = length (filter (\<lambda>(k, t). k = key \<and> now - window < t) counted)"

fun spec_all :: "nat \<Rightarrow> int \<Rightarrow> (string \<times> int) list \<Rightarrow> (string \<times> int) list \<Rightarrow> bool list" where
  "spec_all limit window [] counted = []"
| "spec_all limit window ((key, now) # calls) counted =
     (if granted_in window key now counted < limit
      then True # spec_all limit window calls ((key, now) # counted)
      else False # spec_all limit window calls counted)"

text \<open>
  The abstraction relation at a time: per key, the limiter and the log have the same times inside the
  window. What the limiter has dropped is outside it, and stays outside as time goes on.
\<close>

definition agrees :: "limiter \<Rightarrow> int \<Rightarrow> (string \<times> int) list \<Rightarrow> bool" where
  "agrees l now counted \<longleftrightarrow> distinct (map fst (rlAttempts l)) \<and>
     (\<forall>key later. now \<le> later \<longrightarrow> length (recent_of l key later) = granted_in (rlWindow l) key later counted)"

lemma allow_config [simp]:
  "rlLimit (fst (allow key now l)) = rlLimit l" "rlWindow (fst (allow key now l)) = rlWindow l"
  by (auto simp: allow_def prune_def Let_def)

lemma recent_set:
  "recent_of (l\<lparr>rlAttempts := AList.update key ts (rlAttempts l)\<rparr>) k now =
     (if k = key then filter (\<lambda>t. now - rlWindow l < t) ts else recent_of l k now)"
  by (simp add: recent_of_def update_conv')

lemma recent_later:
  assumes "now \<le> later"
  shows "filter (\<lambda>t. later - rlWindow l < t) (recent_of l key now) = recent_of l key later"
  using assms by (auto simp: recent_of_def filter_filter intro!: filter_cong)

lemma recent_prune:
  assumes "distinct (map fst (rlAttempts l))" and "now \<le> later"
  shows "recent_of (prune now l) key later = recent_of l key later"
proof (cases "map_of (rlAttempts l) key")
  case None
  moreover from None have "map_of (filter (\<lambda>(_, ts). list_ex (\<lambda>t. now - rlWindow l < t) ts) (rlAttempts l)) key = None"
    by (auto simp: map_of_eq_None_iff)
  ultimately show ?thesis by (simp add: recent_of_def prune_def)
next
  case (Some ts)
  let ?keep = "\<lambda>(_, ts). list_ex (\<lambda>t. now - rlWindow l < t) ts"
  have dist: "distinct (map fst (filter ?keep (rlAttempts l)))"
    using assms(1) by (rule distinct_map_filter)
  show ?thesis
  proof (cases "?keep (key, ts)")
    case True
    with Some have "(key, ts) \<in> set (filter ?keep (rlAttempts l))" by (auto dest: map_of_SomeD)
    then have "map_of (filter ?keep (rlAttempts l)) key = Some ts" by (rule map_of_is_SomeI [OF dist])
    with Some show ?thesis by (simp add: recent_of_def prune_def)
  next
    case False
    have "map_of (filter ?keep (rlAttempts l)) key = None"
    proof (rule ccontr)
      assume "map_of (filter ?keep (rlAttempts l)) key \<noteq> None"
      then obtain us where us: "(key, us) \<in> set (filter ?keep (rlAttempts l))" by (auto dest: map_of_SomeD)
      then have "(key, us) \<in> set (rlAttempts l)" by simp
      then have "map_of (rlAttempts l) key = Some us" by (rule map_of_is_SomeI [OF assms(1)])
      with Some have "us = ts" by simp
      with us False show False by simp
    qed
    moreover from False assms(2) have "filter (\<lambda>t. later - rlWindow l < t) ts = []"
      by (auto simp: filter_empty_conv list_ex_iff)
    ultimately show ?thesis using Some by (simp add: recent_of_def prune_def)
  qed
qed

lemma agrees_new: "agrees (new_limiter limit window) now []"
  by (simp add: agrees_def new_limiter_def recent_of_def granted_in_def)

lemma agrees_later: "agrees l now counted \<Longrightarrow> now \<le> now' \<Longrightarrow> agrees l now' counted"
  by (auto simp: agrees_def)

lemma allow_answer:
  assumes "agrees l now counted"
  shows "snd (allow key now l) \<longleftrightarrow> granted_in (rlWindow l) key now counted < rlLimit l"
  using assms by (auto simp: allow_def agrees_def Let_def)

lemma agrees_refused:
  assumes "agrees l now counted" and "\<not> snd (allow key now l)"
  shows "agrees (fst (allow key now l)) now counted"
  using assms
  by (auto simp: allow_def agrees_def Let_def recent_set recent_later distinct_update split: if_splits)

lemma agrees_granted:
  assumes "agrees l now counted" and "snd (allow key now l)"
  shows "agrees (fst (allow key now l)) now ((key, now) # counted)"
proof -
  let ?l = "l\<lparr>rlAttempts := AList.update key (recent_of l key now @ [now]) (rlAttempts l)\<rparr>"
  have dist: "distinct (map fst (rlAttempts ?l))"
    using assms(1) by (simp add: agrees_def distinct_update)
  have l: "agrees ?l now ((key, now) # counted)"
    using assms(1) dist by (auto simp: agrees_def recent_set recent_later granted_in_def)
  then have "agrees (prune now ?l) now ((key, now) # counted)"
    using recent_prune [OF dist]
    by (auto simp: agrees_def prune_def distinct_map_filter)
  with l assms(2) show ?thesis by (auto simp: allow_def Let_def split: if_splits)
qed

lemma allow_all_spec:
  assumes "agrees l start counted" and "sorted (map snd calls)" and "\<forall>c\<in>set calls. start \<le> snd c"
  shows "snd (allow_all calls l) = spec_all (rlLimit l) (rlWindow l) calls counted"
  using assms
proof (induction calls arbitrary: l start counted)
  case Nil
  show ?case by simp
next
  case (Cons c calls)
  obtain key now where c: "c = (key, now)" by force
  have ag: "agrees l now counted" using Cons.prems(1,3) by (auto simp: c intro: agrees_later)
  have rest: "sorted (map snd calls)" "\<forall>c\<in>set calls. now \<le> snd c" using Cons.prems(2) by (auto simp: c)
  show ?case
  proof (cases "snd (allow key now l)")
    case True
    from Cons.IH [OF agrees_granted [OF ag True] rest] True allow_answer [OF ag, of key]
    show ?thesis by (auto simp: c split: prod.splits)
  next
    case False
    from Cons.IH [OF agrees_refused [OF ag False] rest] False allow_answer [OF ag, of key]
    show ?thesis by (auto simp: c split: prod.splits)
  qed
qed

section \<open>What the limiter guarantees\<close>

lemma wouldAllow_iff: "wouldAllow key now l \<longleftrightarrow> snd (allow key now l)"
  by (auto simp: wouldAllow_def allow_def Let_def)

text \<open>The calls of a run that were granted.\<close>

definition granted_calls :: "(string \<times> int) list \<Rightarrow> bool list \<Rightarrow> (string \<times> int) list" where
  "granted_calls calls answers = map fst (filter snd (zip calls answers))"

definition calls_between :: "string \<Rightarrow> int \<Rightarrow> int \<Rightarrow> (string \<times> int) list \<Rightarrow> nat" where
  "calls_between key lo hi calls = length (filter (\<lambda>(k, t). k = key \<and> lo < t \<and> t \<le> hi) calls)"

lemma calls_between_Cons:
  "calls_between key lo hi ((k, t) # calls) =
     (if k = key \<and> lo < t \<and> t \<le> hi then 1 else 0) + calls_between key lo hi calls"
  by (simp add: calls_between_def)

lemma calls_between_le_granted:
  assumes "now - window \<le> lo"
  shows "calls_between key lo hi counted \<le> granted_in window key now counted"
  using assms by (induction counted) (auto simp: calls_between_def granted_in_def)

lemma granted_calls_simps:
  "granted_calls (c # calls) (True # bs) = c # granted_calls calls bs"
  "granted_calls (c # calls) (False # bs) = granted_calls calls bs"
  by (simp_all add: granted_calls_def)

lemma spec_bound:
  assumes "\<And>lo. calls_between key lo (lo + window) counted \<le> limit"
  shows "calls_between key lo (lo + window) (granted_calls calls (spec_all limit window calls counted))
      + calls_between key lo (lo + window) counted \<le> limit"
  using assms
proof (induction calls arbitrary: counted)
  case Nil
  then show ?case by (simp add: granted_calls_def calls_between_def)
next
  case (Cons c calls)
  obtain k now where c: "c = (k, now)" by force
  show ?case
  proof (cases "granted_in window k now counted < limit")
    case False
    with Cons show ?thesis by (simp add: c granted_calls_simps)
  next
    case True
    have "calls_between key x (x + window) ((k, now) # counted) \<le> limit" for x
      using Cons.prems [of x] calls_between_le_granted [of now window x key "x + window" counted] True
      by (auto simp: calls_between_Cons)
    from Cons.IH [OF this] True show ?thesis by (simp add: c granted_calls_simps calls_between_Cons)
  qed
qed

text \<open>
  C25: The rate limiter, with its map of times and its pruning above 5000 keys, answers a run of calls
  whose clock does not go backwards exactly as the reference that remembers every granted call, so that
  no key is granted more than \<open>limit\<close> calls inside any window.
\<close>
theorem limiter_exact:
  assumes "sorted (map snd calls)"
  shows "snd (allow_all calls (new_limiter limit window)) = spec_all limit window calls [] \<and>
    calls_between key lo (lo + window)
      (granted_calls calls (snd (allow_all calls (new_limiter limit window)))) \<le> limit"
proof -
  have "\<exists>start. \<forall>c\<in>set calls. start \<le> snd c"
    using assms by (cases calls) auto
  then obtain start where start: "\<forall>c\<in>set calls. start \<le> snd c" ..
  have eq: "snd (allow_all calls (new_limiter limit window)) = spec_all limit window calls []"
    using allow_all_spec [OF agrees_new assms start, of limit window] by (simp add: new_limiter_def)
  from spec_bound [of key window "[]" limit lo calls] show ?thesis
    unfolding eq by (simp add: calls_between_def)
qed

definition demo_calls :: "(string \<times> int) list" where
  "demo_calls = [(''a'', 0), (''a'', 10), (''b'', 20), (''a'', 50), (''a'', 101)]"

theorem limiter_exact_witness:
  "snd (allow_all demo_calls (new_limiter 2 100)) = [True, True, True, False, True] \<and>
   spec_all 2 100 demo_calls [] = [True, True, True, False, True] \<and>
   calls_between ''a'' 0 (0 + 100) (granted_calls demo_calls (snd (allow_all demo_calls (new_limiter 2 100)))) \<le> 2"
proof -
  have "sorted (map snd demo_calls)" by (simp add: demo_calls_def)
  from limiter_exact [OF this, of 2 100 "''a''" 0]
  have main: "snd (allow_all demo_calls (new_limiter 2 100)) = spec_all 2 100 demo_calls []"
    "calls_between ''a'' 0 (0 + 100) (granted_calls demo_calls (snd (allow_all demo_calls (new_limiter 2 100)))) \<le> 2"
    by blast+
  have "spec_all 2 100 demo_calls [] = [True, True, True, False, True]"
    by (simp add: demo_calls_def granted_in_def)
  with main show ?thesis by simp
qed

end
