(* ===== verification/HostPolicy.thy ===== *)
theory HostPolicy
  imports Security AccessJwt
begin

text \<open>
  \<open>server/host-policy.ts\<close>: the classes of the \<open>Host\<close> header and the routes served on the machine
  hostname. The regular expressions of the routes are segment patterns: a path matches one when its
  segments between slashes do. The Access verifier is of any type here.
\<close>

section \<open>Host names\<close>

datatype host_class = MachineHost | HumanHost | PrivateHost | InvalidHost

record 'v host_config =
  hcPublicHost :: "string option"
  hcMachineHost :: "string option"
  hcVerifier :: "'v option"
  hcRequireAccess :: "bool option"

record 'v host_policy =
  hpPublicHost :: "string option"
  hpMachineHost :: "string option"
  hpVerifier :: "'v option"
  hpRequireAccess :: bool

definition is_bracket_char :: "char \<Rightarrow> bool" where
  "is_bracket_char c \<longleftrightarrow> is_hex c \<or> c = CHR '':'' \<or> c = CHR ''.''"

text \<open>\<open>replace(/^(\[[0-9a-f:.]+\]).*$/, '$1')\<close> and \<open>replace(/:\d{1,5}$/, '')\<close>\<close>

definition strip_after_bracket :: "string \<Rightarrow> string" where
  "strip_after_bracket s =
     (let body = takeWhile is_bracket_char (tl s); rest = dropWhile is_bracket_char (tl s) in
      if body \<noteq> [] \<and> rest \<noteq> [] \<and> hd rest = CHR '']'' then CHR ''['' # body @ '']'' else s)"

definition strip_port :: "string \<Rightarrow> string" where
  "strip_port s =
     (let digits = takeWhile is_digit (rev s); rest = dropWhile is_digit (rev s) in
      if 1 \<le> length digits \<and> length digits \<le> 5 \<and> rest \<noteq> [] \<and> hd rest = CHR '':'' then rev (tl rest) else s)"

definition is_bracketed :: "string \<Rightarrow> bool" where
  "is_bracketed s \<longleftrightarrow> 3 \<le> length s \<and> hd s = CHR ''['' \<and> last s = CHR '']'' \<and> list_all is_bracket_char (butlast (tl s))"

definition normalizeHost :: "header \<Rightarrow> string option" where
  "normalizeHost value = (case value of
     OneHeader v \<Rightarrow>
       (let trimmed = fold_case (js_trim v) in
        if trimmed = [] \<or> CHR '','' \<in> set trimmed \<or> list_ex is_space trimmed then None
        else (let withoutPort = (if hd trimmed = CHR ''['' then strip_after_bracket trimmed else strip_port trimmed);
                  host = drop_suffix_char CHR ''.'' withoutPort in
              if is_bracketed host \<or> is_dns_name host then Some host else None))
   | _ \<Rightarrow> None)"

text \<open>A configured text that is empty counts as absent.\<close>

definition configured :: "string option \<Rightarrow> string option" where
  "configured s = (if s = Some [] then None else s)"

definition configured_host :: "string option \<Rightarrow> string option" where
  "configured_host s = (case configured s of None \<Rightarrow> None | Some h \<Rightarrow> normalizeHost (OneHeader h))"

definition createHostPolicy :: "'v host_config \<Rightarrow> string + 'v host_policy" where
  "createHostPolicy cfg =
     (let publicHost = configured_host (hcPublicHost cfg); machineHost = configured_host (hcMachineHost cfg) in
      if configured (hcPublicHost cfg) \<noteq> None \<and> publicHost = None then Inl ''CANVAS_PUBLIC_HOST is not a valid hostname''
      else if configured (hcMachineHost cfg) \<noteq> None \<and> machineHost = None then Inl ''CANVAS_MACHINE_API_HOST is not a valid hostname''
      else if publicHost \<noteq> None \<and> machineHost \<noteq> None \<and> publicHost = machineHost
      then Inl ''The public and machine API hostnames must differ''
      else Inr \<lparr>hpPublicHost = publicHost, hpMachineHost = machineHost, hpVerifier = hcVerifier cfg,
        hpRequireAccess = (case hcRequireAccess cfg of None \<Rightarrow> True | Some b \<Rightarrow> b)\<rparr>)"

definition classify :: "'v host_policy \<Rightarrow> header \<Rightarrow> host_class" where
  "classify p hostHeader =
     (let host = normalizeHost hostHeader in
      if host = None \<and> (hpPublicHost p \<noteq> None \<or> hpMachineHost p \<noteq> None) then InvalidHost
      else if host \<noteq> None \<and> hpMachineHost p \<noteq> None \<and> host = hpMachineHost p then MachineHost
      else if host \<noteq> None \<and> hpPublicHost p \<noteq> None \<and> host = hpPublicHost p then HumanHost
      else PrivateHost)"

record host_env =
  heTeamDomain :: "string option"
  heAudience :: "string option"
  hePublicHost :: "string option"
  heMachineHost :: "string option"

definition hostPolicyFromEnv :: "host_env \<Rightarrow> (string \<Rightarrow> string \<Rightarrow> 'v) \<Rightarrow> string + 'v host_config" where
  "hostPolicyFromEnv env verifier =
     (let team = configured (map_option js_trim (heTeamDomain env));
          audience = configured (map_option js_trim (heAudience env)) in
      if team \<noteq> None \<and> normalizeTeamDomain (the team) = None then Inl ''CANVAS_ACCESS_TEAM_DOMAIN is not a valid hostname''
      else Inr \<lparr>hcPublicHost = configured (map_option js_trim (hePublicHost env)),
        hcMachineHost = configured (map_option js_trim (heMachineHost env)),
        hcVerifier = (case (team, audience) of (Some t, Some a) \<Rightarrow> Some (verifier t a) | _ \<Rightarrow> None),
        hcRequireAccess = None\<rparr>)"

section \<open>Machine routes\<close>

datatype segment = Lit string | IdSegment | EventSegment

fun segment_matches :: "segment \<Rightarrow> string \<Rightarrow> bool" where
  "segment_matches (Lit s) text \<longleftrightarrow> text = s"
| "segment_matches IdSegment text \<longleftrightarrow> matches_class is_id_char 1 80 text"
| "segment_matches EventSegment text \<longleftrightarrow> matches_class is_digit 1 15 text"

definition machine_routes :: "(string \<times> segment list) list" where
  "machine_routes = [
     (''GET'', [Lit ''api'', Lit ''health'']),
     (''GET'', [Lit ''api'', Lit ''rooms'', IdSegment, Lit ''canvas'']),
     (''POST'', [Lit ''api'', Lit ''rooms'', IdSegment, Lit ''actions'']),
     (''GET'', [Lit ''api'', Lit ''rooms'', IdSegment, Lit ''semantic-context'']),
     (''GET'', [Lit ''api'', Lit ''rooms'', IdSegment, Lit ''layout'']),
     (''POST'', [Lit ''api'', Lit ''rooms'', IdSegment, Lit ''ai'', Lit ''events'']),
     (''GET'', [Lit ''api'', Lit ''boards'', IdSegment, Lit ''history'']),
     (''GET'', [Lit ''api'', Lit ''boards'', IdSegment, Lit ''history'', EventSegment, Lit ''snapshot'']),
     (''GET'', [Lit ''api'', Lit ''boards'', IdSegment, Lit ''checkpoints'']),
     (''POST'', [Lit ''api'', Lit ''boards'', IdSegment, Lit ''checkpoints'']),
     (''POST'', [Lit ''api'', Lit ''boards'', IdSegment, Lit ''restore'']),
     (''POST'', [Lit ''api'', Lit ''agent-boards''])]"

definition path_of :: "string \<Rightarrow> string" where
  "path_of url = hd (split_on CHR ''?'' url)"

definition route_matches :: "segment list \<Rightarrow> string \<Rightarrow> bool" where
  "route_matches segs path \<longleftrightarrow> (case split_on CHR ''/'' path of
     [] \<Rightarrow> False
   | first # parts \<Rightarrow> first = [] \<and> list_all2 segment_matches segs parts)"

definition isMachineRoute :: "string \<Rightarrow> string \<Rightarrow> bool" where
  "isMachineRoute verb url \<longleftrightarrow>
     list_ex (\<lambda>(m, segs). m = verb \<and> route_matches segs (path_of url)) machine_routes"

section \<open>Normal forms\<close>

definition is_host_char :: "char \<Rightarrow> bool" where
  "is_host_char c \<longleftrightarrow> is_label_char c \<or> c = CHR ''-'' \<or> c = CHR ''.''"

lemma host_char_plain:
  assumes "is_host_char c \<or> is_bracket_char c \<or> c = CHR ''['' \<or> c = CHR '']''"
  shows "\<not> is_space c" "\<not> is_upper c" "c \<noteq> CHR '',''"
proof -
  let ?n = "of_char c :: nat"
  from assms have n: "(48 \<le> ?n \<and> ?n \<le> 57) \<or> (97 \<le> ?n \<and> ?n \<le> 122) \<or> ?n \<in> {45, 46, 58, 91, 93}"
    by (auto simp: is_host_char_def is_label_char_def is_bracket_char_def is_hex_def is_digit_def is_lower_def char_in_def)
  then show "\<not> is_space c" by (auto simp: is_space_def Let_def)
  from n show "\<not> is_upper c" by (auto simp: is_upper_def char_in_def)
  from n show "c \<noteq> CHR '',''" by auto
qed

lemma host_char_not:
  assumes "is_host_char c"
  shows "c \<noteq> CHR ''['' \<and> c \<noteq> CHR '':''"
proof -
  let ?n = "of_char c :: nat"
  from assms have "(48 \<le> ?n \<and> ?n \<le> 57) \<or> (97 \<le> ?n \<and> ?n \<le> 122) \<or> ?n \<in> {45, 46}"
    by (auto simp: is_host_char_def is_label_char_def is_digit_def is_lower_def char_in_def)
  then show ?thesis by auto
qed

lemma split_on_chars: "c \<in> set s \<Longrightarrow> c = d \<or> (\<exists>p\<in>set (split_on d s). c \<in> set p)"
  by (induction s) (auto split: list.splits)

lemma dns_name_chars:
  assumes "is_dns_name s"
  shows "\<forall>c\<in>set s. is_host_char c"
proof
  fix c assume "c \<in> set s"
  with split_on_chars [of c s "CHR ''.''"] obtain p where "c = CHR ''.'' \<or> (p \<in> set (split_on CHR ''.'' s) \<and> c \<in> set p)"
    by blast
  with assms show "is_host_char c"
    by (auto simp: is_dns_name_def list_all_iff is_label_def is_host_char_def)
qed

lemma split_on_snoc: "split_on d (s @ [d]) = split_on d s @ [[]]"
  by (induction s) (auto split: list.splits)

lemma dns_name_ends:
  assumes "is_dns_name s"
  shows "s \<noteq> [] \<and> last s \<noteq> CHR ''.''"
proof -
  have parts: "[] \<notin> set (split_on CHR ''.'' s)" using assms by (auto simp: is_dns_name_def list_all_iff is_label_def)
  then have "s \<noteq> []" by auto
  moreover have "last s \<noteq> CHR ''.''"
    using parts split_on_snoc [of "CHR ''.''" "butlast s"] append_butlast_last_id [OF \<open>s \<noteq> []\<close>] by auto
  ultimately show ?thesis ..
qed

lemma dropWhile_plain: "\<forall>c\<in>set s. \<not> P c \<Longrightarrow> dropWhile P s = s"
  by (cases s) auto

lemma js_trim_plain:
  assumes "\<forall>c\<in>set s. \<not> is_space c"
  shows "js_trim s = s"
  using assms by (simp add: js_trim_def dropWhile_plain)

lemma fold_case_plain:
  assumes "\<forall>c\<in>set s. \<not> is_upper c"
  shows "fold_case s = s"
  using assms unfolding fold_case_def by (intro map_idI) (simp add: to_lower_def)

lemma to_lower_space: "\<not> is_space (to_lower c) \<Longrightarrow> \<not> is_space c"
proof (cases "is_upper c")
  case True
  then have "65 \<le> (of_char c :: nat) \<and> (of_char c :: nat) \<le> 90" by (auto simp: is_upper_def char_in_def)
  then show "\<not> is_space c" by (auto simp: is_space_def Let_def)
qed (simp add: to_lower_def)

lemma strip_port_none:
  assumes "CHR '':'' \<notin> set s"
  shows "strip_port s = s"
proof -
  have "hd (dropWhile is_digit (rev s)) \<noteq> CHR '':''" if "dropWhile is_digit (rev s) \<noteq> []"
    using assms hd_in_set [OF that] set_dropWhileD [of _ is_digit "rev s"] by auto
  then show ?thesis by (auto simp: strip_port_def Let_def)
qed

lemma strip_port_some:
  assumes "matches_class is_digit 1 5 port"
  shows "strip_port (s @ CHR '':'' # port) = s"
proof -
  have digits: "\<forall>c\<in>set (rev port). is_digit c" and len: "1 \<le> length port" "length port \<le> 5"
    using assms by (auto simp: matches_class_def list_all_iff)
  have "\<not> is_digit CHR '':''" by code_simp
  then have "takeWhile is_digit (rev port @ CHR '':'' # rev s) = rev port"
    "dropWhile is_digit (rev port @ CHR '':'' # rev s) = CHR '':'' # rev s"
    using takeWhile_append2 [of "rev port" is_digit] dropWhile_append2 [of "rev port" is_digit] digits by simp_all
  with len show ?thesis by (simp add: strip_port_def)
qed

lemma bracketed_body:
  assumes "is_bracketed s"
  obtains body where "s = CHR ''['' # body @ '']''" "body \<noteq> []" "\<forall>c\<in>set body. is_bracket_char c"
proof
  let ?body = "butlast (tl s)"
  from assms have len: "3 \<le> length s" and ends: "hd s = CHR ''[''" "last s = CHR '']''"
    and body: "list_all is_bracket_char ?body" by (auto simp: is_bracketed_def)
  have t: "tl s \<noteq> []" and s: "s = hd s # tl s" using len by (cases s; auto)+
  with ends have "last (tl s) = CHR '']''" by (metis last_tl)
  with append_butlast_last_id [OF t] have "tl s = ?body @ '']''" by simp
  with s ends show "s = CHR ''['' # ?body @ '']''" by simp
  with len show "?body \<noteq> []" by auto
  from body show "\<forall>c\<in>set ?body. is_bracket_char c" by (simp add: list_all_iff)
qed

lemma strip_after_bracketed: "is_bracketed s \<Longrightarrow> strip_after_bracket s = s"
proof -
  assume "is_bracketed s"
  then obtain body where s: "s = CHR ''['' # body @ '']''" "body \<noteq> []" "\<forall>c\<in>set body. is_bracket_char c"
    by (rule bracketed_body)
  have "\<not> is_bracket_char CHR '']''" by code_simp
  then have "takeWhile is_bracket_char (body @ '']'') = body" "dropWhile is_bracket_char (body @ '']'') = '']''"
    using takeWhile_append2 [of body is_bracket_char] dropWhile_append2 [of body is_bracket_char] s(3) by simp_all
  with s(1,2) show ?thesis by (simp add: strip_after_bracket_def)
qed

lemma normalize_plain:
  assumes "\<forall>c\<in>set v. \<not> is_space (to_lower c) \<and> to_lower c \<noteq> CHR '',''" and "v \<noteq> []"
    and "hd (fold_case v) = CHR ''['' \<Longrightarrow> drop_suffix_char CHR ''.'' (strip_after_bracket (fold_case v)) = host"
    and "hd (fold_case v) \<noteq> CHR ''['' \<Longrightarrow> drop_suffix_char CHR ''.'' (strip_port (fold_case v)) = host"
    and "is_bracketed host \<or> is_dns_name host"
  shows "normalizeHost (OneHeader v) = Some host"
proof -
  have trim: "js_trim v = v" using assms(1) by (intro js_trim_plain) (blast dest: to_lower_space)
  have "\<not> list_ex is_space (fold_case v)" "CHR '','' \<notin> set (fold_case v)" "fold_case v \<noteq> []"
    using assms(1,2) by (auto simp: fold_case_def list_ex_iff)
  with trim assms(3-5) show ?thesis by (auto simp: normalizeHost_def Let_def)
qed

lemma normalize_dns:
  assumes "is_dns_name host" and "fold_case h = host" and "dot \<in> {[], ''.''}"
    and "port = [] \<or> (\<exists>ds. port = CHR '':'' # ds \<and> matches_class is_digit 1 5 ds)"
  shows "normalizeHost (OneHeader (h @ dot @ port)) = Some host"
proof -
  note chars = dns_name_chars [OF assms(1)]
  have "\<forall>c\<in>set port. is_bracket_char c"
    using assms(4) by (auto simp: matches_class_def list_all_iff is_bracket_char_def is_hex_def)
  then have port: "\<forall>c\<in>set port. \<not> is_space c \<and> \<not> is_upper c \<and> c \<noteq> CHR '',''"
    using host_char_plain by blast
  have dots: "\<forall>c\<in>set dot. is_host_char c" using assms(3) by (auto simp: is_host_char_def)
  then have dot: "\<forall>c\<in>set dot. \<not> is_space c \<and> \<not> is_upper c \<and> c \<noteq> CHR '',''"
    using host_char_plain by blast
  have low: "fold_case (h @ dot @ port) = host @ dot @ port"
    using fold_case_plain [of dot] fold_case_plain [of port] dot port assms(2) by (simp add: fold_case_def)
  have h: "to_lower c \<in> set host" if "c \<in> set h" for c
    using that assms(2) by (auto simp: fold_case_def)
  have hc: "\<not> is_space (to_lower c) \<and> to_lower c \<noteq> CHR '',''" if "c \<in> set h" for c
    using h [OF that] chars host_char_plain by blast
  have plain: "\<not> is_upper c \<Longrightarrow> to_lower c = c" for c by (simp add: to_lower_def)
  have ends: "host \<noteq> []" "last host \<noteq> CHR ''.''" using dns_name_ends [OF assms(1)] by auto
  show ?thesis
  proof (rule normalize_plain)
    show "\<forall>c\<in>set (h @ dot @ port). \<not> is_space (to_lower c) \<and> to_lower c \<noteq> CHR '',''"
      using hc plain dot port by simp (metis UnE)
    show "h @ dot @ port \<noteq> []" using ends(1) assms(2) by (auto simp: fold_case_def)
    have "hd host \<noteq> CHR ''[''" using chars ends(1) host_char_not by (metis hd_in_set)
    with low ends(1) show "hd (fold_case (h @ dot @ port)) = CHR ''['' \<Longrightarrow>
        drop_suffix_char CHR ''.'' (strip_after_bracket (fold_case (h @ dot @ port))) = host" by simp
    have colon: "CHR '':'' \<notin> set (host @ dot)" using chars host_char_not dots by (metis Un_iff set_append)
    have "strip_port (host @ dot @ port) = host @ dot"
      using assms(4)
    proof
      assume "port = []"
      with strip_port_none [OF colon] show ?thesis by simp
    next
      assume "\<exists>ds. port = CHR '':'' # ds \<and> matches_class is_digit 1 5 ds"
      then obtain ds where "port = CHR '':'' # ds" "matches_class is_digit 1 5 ds" by blast
      with strip_port_some [of ds "host @ dot"] show ?thesis by simp
    qed
    with low ends assms(3) show "drop_suffix_char CHR ''.'' (strip_port (fold_case (h @ dot @ port))) = host"
      by (auto simp: drop_suffix_char_def)
    show "is_bracketed host \<or> is_dns_name host" using assms(1) ..
  qed
qed

lemma normalize_bracketed:
  assumes "is_bracketed host"
  shows "normalizeHost (OneHeader host) = Some host"
proof -
  from assms obtain body where s: "host = CHR ''['' # body @ '']''" "\<forall>c\<in>set body. is_bracket_char c"
    by (rule bracketed_body)
  then have plain: "\<forall>c\<in>set host. \<not> is_space c \<and> \<not> is_upper c \<and> c \<noteq> CHR '',''"
    using host_char_plain by auto
  then have low: "fold_case host = host" by (simp add: fold_case_plain)
  show ?thesis
  proof (rule normalize_plain)
    show "\<forall>c\<in>set host. \<not> is_space (to_lower c) \<and> to_lower c \<noteq> CHR '',''"
      using plain by (auto simp: to_lower_def)
    show "host \<noteq> []" using s by simp
    show "drop_suffix_char CHR ''.'' (strip_after_bracket (fold_case host)) = host"
      unfolding low strip_after_bracketed [OF assms] using s(1) by (simp add: drop_suffix_char_def)
    show "hd (fold_case host) \<noteq> CHR ''['' \<Longrightarrow> drop_suffix_char CHR ''.'' (strip_port (fold_case host)) = host"
      unfolding low using s(1) by simp
    show "is_bracketed host \<or> is_dns_name host" using assms ..
  qed
qed

section \<open>The normal form is canonical\<close>

text \<open>
  The normal form of a host is its own normal form, and for a DNS name no change of case, no port
  and no trailing dot changes it, so none of them moves a request from one hostname class to another.
\<close>
theorem host_canonical:
  assumes "normalizeHost hdr = Some host"
  shows "normalizeHost (OneHeader host) = Some host \<and>
    (is_bracketed host \<or> (is_dns_name host \<and> (\<forall>h dot port. fold_case h = host \<and> dot \<in> {[], ''.''} \<and>
       (port = [] \<or> (\<exists>ds. port = CHR '':'' # ds \<and> matches_class is_digit 1 5 ds)) \<longrightarrow>
       classify p (OneHeader (h @ dot @ port)) = classify p hdr)))"
proof -
  from assms have kinds: "is_bracketed host \<or> is_dns_name host"
    by (auto simp: normalizeHost_def Let_def split: header.splits if_splits)
  have low: "fold_case host = host" if "is_dns_name host"
    using dns_name_chars [OF that] host_char_plain by (intro fold_case_plain) blast
  from kinds show ?thesis
  proof
    assume b: "is_bracketed host"
    with normalize_bracketed [OF b] show ?thesis by blast
  next
    assume d: "is_dns_name host"
    have same: "classify p (OneHeader v) = classify p hdr" if "normalizeHost (OneHeader v) = Some host" for v
      using that assms by (simp add: classify_def)
    from normalize_dns [OF d low [OF d], of "[]" "[]"] normalize_dns [OF d] same d show ?thesis by auto
  qed
qed

theorem host_canonical_witness:
  "normalizeHost (OneHeader '' Api.Example.org:8443 '') = Some ''api.example.org'' \<and>
   normalizeHost (OneHeader ''api.example.org'') = Some ''api.example.org''"
proof -
  have eq: "normalizeHost (OneHeader '' Api.Example.org:8443 '') = Some ''api.example.org''" by code_simp
  from eq host_canonical [OF eq] show ?thesis by blast
qed

end
