(* ===== verification/AgentAccess.thy ===== *)
theory AgentAccess
  imports AuthBoards Tokens Security HostPolicy
begin

text \<open>
  \<open>server/agent-access.ts\<close>: a signed-in owner lists, creates, rotates and revokes the agents of their
  boards. The handlers run on the account database, the token file and the caller's request budget, as
  \<open>app.ts\<close> wires them; the signed-in user is an argument, read from the session cookie. A refusal is
  its status code (the texts of the messages are not modelled); errors that reach the error handler of
  the application are refusals with the status it gives them.
\<close>

section \<open>Requests and replies\<close>

record agent_world =
  gwAccounts :: adb
  gwTokens :: tworld
  gwLimiter :: limiter

text \<open>What one attempt to create draws, and the faults it meets.\<close>

record attempt =
  atName :: string
  atToken :: string
  atFaults :: faults

record agent_env =
  geTokens :: tparams
  geNow :: int
  geUuid :: "nat \<Rightarrow> string"
  geConfigured :: bool
  geReadFault :: bool
  geFirst :: attempt
  geSecond :: attempt

datatype access_error = Denied nat | RoleFault auth_error

record agent_view =
  avRef :: string
  avName :: "json option"
  avCanCreateBoards :: bool
  avDisplayName :: "string option"
  avPermissions :: "json option"
  avRooms :: "json list"
  avSharedWithOtherBoards :: bool
  avCreatedAt :: "string option"
  avRotatedAt :: "string option"
  avExpiresAt :: "string option"
  avStatus :: expiry_status
  avCreatedByYou :: bool

datatype agent_reply = Refused nat | Agents "agent_view list" | Granted agent_view string | Removed

text \<open>The error handler: an \<open>AuthError\<close> carries its status, anything it does not know is 500.\<close>

fun auth_status :: "auth_error \<Rightarrow> nat" where
  "auth_status AccountDisabled = 403"
| "auth_status BoardExists = 409"
| "auth_status BoardNotFound = 404"
| "auth_status BootstrapComplete = 409"
| "auth_status Forbidden = 403"
| "auth_status InvalidCredentials = 401"
| "auth_status InvalidInput = 400"
| "auth_status InvalidInvitation = 400"
| "auth_status InvitationRequired = 403"
| "auth_status LoginTaken = 409"
| "auth_status UserNotFound = 404"
| "auth_status (Constraint _) = 500"

section \<open>Shared steps\<close>

definition referenceFor :: "string \<Rightarrow> string \<Rightarrow> string" where
  "referenceFor name fingerprint = name @ ''.'' @ fingerprint"

definition isBoardCreator :: "client \<Rightarrow> bool" where
  "isBoardCreator c \<longleftrightarrow> (case cget ''accountPermissions'' c of Some (JArr ps) \<Rightarrow> JStr board_create \<in> set ps | _ \<Rightarrow> False)"

definition agent_begin :: "agent_env \<Rightarrow> string option \<Rightarrow> agent_world \<Rightarrow> agent_world \<times> (agent_reply + string)" where
  "agent_begin env user w = (case user of
     None \<Rightarrow> (w, Inl (Refused 401))
   | Some u \<Rightarrow> (case allow (''agents:'' @ u) (geNow env) (gwLimiter w) of
       (l, ok) \<Rightarrow> (w\<lparr>gwLimiter := l\<rparr>, if ok then Inr u else Inl (Refused 429))))"

definition requireBoardOwner :: "string \<Rightarrow> string \<Rightarrow> adb \<Rightarrow> agent_reply + unit" where
  "requireBoardOwner user board db = (case getBoardRole user board False db of
     Inl e \<Rightarrow> Inl (Refused (auth_status e))
   | Inr None \<Rightarrow> Inl (Refused 404)
   | Inr (Some r) \<Rightarrow> guardR (r = Owner) (Refused 403))"

definition requireStore :: "agent_env \<Rightarrow> agent_reply + unit" where
  "requireStore env = guardR (geConfigured env) (Refused 503)"

text \<open>\<open>/^([A-Za-z0-9_-]{1,64})\.([0-9a-f]{16})$/\<close>\<close>

definition parseReference :: "string \<Rightarrow> agent_reply + (string \<times> string)" where
  "parseReference value = (case split_on CHR ''.'' value of
     [name, fingerprint] \<Rightarrow> (if isValidClientName name \<and> matches_class is_hex 16 16 fingerprint
       then Inr (name, fingerprint) else Inl (Refused 400))
   | _ \<Rightarrow> Inl (Refused 400))"

text \<open>The role of a room as the file has it: \<open>validateBoardId\<close> throws for one that is no text.\<close>

definition room_role :: "string \<Rightarrow> json \<Rightarrow> adb \<Rightarrow> auth_error + board_role option" where
  "room_role user room db = (case room of
     JStr r \<Rightarrow> getBoardRole user r True db
   | _ \<Rightarrow> bindR (requireActiveUser user db) (\<lambda>_. Inl InvalidInput))"

definition ownedRooms :: "string \<Rightarrow> json list \<Rightarrow> adb \<Rightarrow> auth_error + json list" where
  "ownedRooms user rooms db =
     bindR (mapR (\<lambda>room. bindR (room_role user room db) (\<lambda>role. Inr (room, role = Some Owner))) (uniq rooms)) (\<lambda>rs.
     Inr (map fst (filter snd rs)))"

record seen =
  seRooms :: "string list"
  seDisplayName :: "string option"
  seCreator :: bool

definition client_rooms :: "client \<Rightarrow> string list" where
  "client_rooms c = (case cget ''rooms'' c of Some (JArr rs) \<Rightarrow> uniq (strings_of rs) | _ \<Rightarrow> [])"

definition authoriseOwnership :: "string \<Rightarrow> adb \<Rightarrow> client \<Rightarrow> access_error + seen" where
  "authoriseOwnership user db c =
     (let rooms = client_rooms c;
          learned = \<lparr>seRooms = rooms, seDisplayName = text_of (cget ''displayName'' c), seCreator = isBoardCreator c\<rparr> in
      (case ownedRooms user (map JStr rooms) db of
         Inl e \<Rightarrow> Inl (RoleFault e)
       | Inr owned \<Rightarrow>
         (if isBoardCreator c then
            bindR (guardR (cget ''ownerUserId'' c = Some (JStr user)) (Denied 404)) (\<lambda>_.
            bindR (guardR (length rooms \<le> length owned) (Denied 403)) (\<lambda>_. Inr learned))
          else
            bindR (guardR (rooms \<noteq> [] \<and> owned \<noteq> []) (Denied 404)) (\<lambda>_.
            bindR (guardR (length rooms \<le> length owned) (Denied 403)) (\<lambda>_. Inr learned)))))"

definition record_agent_event :: "agent_env \<Rightarrow> string \<Rightarrow> string \<Rightarrow> string option \<Rightarrow> (string \<times> json) list \<Rightarrow> agent_world \<Rightarrow> agent_world" where
  "record_agent_event env type user board meta w =
     w\<lparr>gwAccounts := insertAccountEvent (geUuid env) type (Some user) None board meta (geNow env) (gwAccounts w)\<rparr>"

definition auditEach :: "agent_env \<Rightarrow> string \<Rightarrow> string \<Rightarrow> seen \<Rightarrow> (string \<times> json) list \<Rightarrow> agent_world \<Rightarrow> agent_world" where
  "auditEach env type user s meta w =
     fold (\<lambda>board. record_agent_event env type user board meta)
       (if seRooms s \<noteq> [] then map Some (seRooms s) else [None]) w"

fun failure :: "access_error terror \<Rightarrow> agent_reply" where
  "failure (Thrown (Denied n)) = Refused n"
| "failure (Thrown (RoleFault e)) = Refused (auth_status e)"
| "failure InvalidExpiry = Refused 422"
| "failure InvalidDisplayName = Refused 422"
| "failure StoreFull = Refused 409"
| "failure DuplicateName = Refused 409"
| "failure StaleReference = Refused 409"
| "failure NotFound = Refused 404"
| "failure Locked = Refused 503"
| "failure _ = Refused 500"

section \<open>Listing\<close>

definition can_create :: "client_detail \<Rightarrow> bool" where
  "can_create c \<longleftrightarrow> (case cdAccountPermissions c of Some ps \<Rightarrow> board_create \<in> set ps | None \<Rightarrow> False)"

definition agent_view_of :: "agent_env \<Rightarrow> string \<Rightarrow> json list \<Rightarrow> client_detail \<Rightarrow> agent_reply + agent_view" where
  "agent_view_of env user owned c = (case cdRooms c of
     Some (JArr rooms) \<Rightarrow> Inr
       \<lparr>avRef = referenceFor (case cdName c of Some (JStr n) \<Rightarrow> n | n \<Rightarrow> tpText (geTokens env) n) (cdFingerprint c),
        avName = cdName c, avCanCreateBoards = can_create c, avDisplayName = cdDisplayName c,
        avPermissions = cdPermissions c, avRooms = filter (\<lambda>r. r \<in> set owned) rooms,
        avSharedWithOtherBoards = list_ex (\<lambda>r. r \<notin> set owned) rooms, avCreatedAt = cdCreatedAt c,
        avRotatedAt = cdRotatedAt c, avExpiresAt = cdExpiresAt c, avStatus = cdStatus c,
        avCreatedByYou = (cdCreatedBy c = Some user)\<rparr>
   | _ \<Rightarrow> Inl (Refused 500))"

text \<open>\<open>clients.flatMap((client) => client.rooms)\<close>: what is no array is an element itself.\<close>

definition flat_rooms :: "client_detail \<Rightarrow> json list" where
  "flat_rooms c = (case cdRooms c of Some (JArr rooms) \<Rightarrow> rooms | Some j \<Rightarrow> [j] | None \<Rightarrow> [JNull])"

text \<open>\<open>client.rooms.includes(boardId)\<close>: of an array, of a text (a part of it), else an exception.\<close>

fun has_part :: "string \<Rightarrow> string \<Rightarrow> bool" where
  "has_part p [] \<longleftrightarrow> p = []"
| "has_part p (c # cs) \<longleftrightarrow> take (length p) (c # cs) = p \<or> has_part p cs"

definition rooms_include :: "string \<Rightarrow> client_detail \<Rightarrow> agent_reply + bool" where
  "rooms_include board c = (case cdRooms c of
     Some (JArr rooms) \<Rightarrow> Inr (JStr board \<in> set rooms)
   | Some (JStr s) \<Rightarrow> Inr (has_part board s)
   | _ \<Rightarrow> Inl (Refused 500))"

definition view_all :: "agent_env \<Rightarrow> string \<Rightarrow> client_detail list \<Rightarrow> adb \<Rightarrow> agent_reply" where
  "view_all env user cs db = (case ownedRooms user (concat (map flat_rooms cs)) db of
     Inl e \<Rightarrow> Refused (auth_status e)
   | Inr owned \<Rightarrow> (case mapR (agent_view_of env user owned) cs of Inl r \<Rightarrow> r | Inr vs \<Rightarrow> Agents vs))"

definition list_creators :: "agent_env \<Rightarrow> string \<Rightarrow> agent_world \<Rightarrow> agent_reply" where
  "list_creators env user w = (case requireStore env of
     Inl r \<Rightarrow> r
   | Inr _ \<Rightarrow> (case describeClients (geTokens env) (geReadFault env) (geNow env) (gwTokens w) :: access_error terror + client_detail list of
       Inl _ \<Rightarrow> Refused 500
     | Inr cs \<Rightarrow> view_all env user (filter (\<lambda>c. can_create c \<and> cdOwner c = Some user) cs) (gwAccounts w)))"

definition list_board :: "agent_env \<Rightarrow> string \<Rightarrow> header \<Rightarrow> agent_world \<Rightarrow> agent_reply" where
  "list_board env user boardId w = (case boardId of
     OneHeader board \<Rightarrow>
       (if \<not> isValidRoomId board then Refused 400
        else (case bindR (requireBoardOwner user board (gwAccounts w)) (\<lambda>_. requireStore env) of
            Inl r \<Rightarrow> r
          | Inr _ \<Rightarrow> (case describeClients (geTokens env) (geReadFault env) (geNow env) (gwTokens w) :: access_error terror + client_detail list of
              Inl _ \<Rightarrow> Refused 500
            | Inr cs \<Rightarrow> (case mapR (\<lambda>c. bindR (rooms_include board c) (\<lambda>has. Inr (c, has \<and> (can_create c \<longrightarrow> cdOwner c = Some user)))) cs of
                Inl r \<Rightarrow> r
              | Inr marked \<Rightarrow> view_all env user (map fst (filter snd marked)) (gwAccounts w)))))
   | _ \<Rightarrow> Refused 400)"

definition handle_list :: "agent_env \<Rightarrow> string option \<Rightarrow> header \<Rightarrow> header \<Rightarrow> agent_world \<Rightarrow> agent_world \<times> agent_reply" where
  "handle_list env user scope boardId w = (case agent_begin env user w of
     (w1, Inl r) \<Rightarrow> (w1, r)
   | (w1, Inr u) \<Rightarrow> (w1, if scope = OneHeader ''creators'' then list_creators env u w1 else list_board env u boardId w1))"

section \<open>Creating\<close>

record agent_body =
  abBoard :: "string option"
  abDisplayName :: string
  abAccess :: string
  abExpiresAt :: "string option"

text \<open>The strict schemas: \<open>createAgentSchema\<close>, \<open>createCreatorSchema\<close> and \<open>rotateAgentSchema\<close>.\<close>

definition only_members :: "string list \<Rightarrow> json \<Rightarrow> bool" where
  "only_members names j \<longleftrightarrow> (case j of JObj ms \<Rightarrow> list_all (\<lambda>(k, _). k \<in> set names) ms | _ \<Rightarrow> False)"

definition parse_expires :: "json \<Rightarrow> string option option" where
  "parse_expires j = (case jmember j ''expiresAt'' of
     None \<Rightarrow> Some None
   | Some (JStr s) \<Rightarrow> (if length s \<le> 40 then Some (Some s) else None)
   | Some _ \<Rightarrow> None)"

definition parse_display :: "json \<Rightarrow> string option" where
  "parse_display j = (case jmember j ''displayName'' of
     Some (JStr s) \<Rightarrow> (let t = js_trim s in if 1 \<le> length t \<and> length t \<le> 80 then Some t else None)
   | _ \<Rightarrow> None)"

definition parse_access :: "json \<Rightarrow> string option" where
  "parse_access j = (case jmember j ''access'' of Some (JStr s) \<Rightarrow> (if isAccessMode s then Some s else None) | _ \<Rightarrow> None)"

definition createAgentSchema :: "json \<Rightarrow> agent_body option" where
  "createAgentSchema j = (if \<not> only_members [''boardId'', ''displayName'', ''access'', ''expiresAt''] j then None
     else (case (jmember j ''boardId'', parse_display j, parse_access j, parse_expires j) of
         (Some (JStr b), Some d, Some a, Some x) \<Rightarrow> (if isValidRoomId b
           then Some \<lparr>abBoard = Some b, abDisplayName = d, abAccess = a, abExpiresAt = x\<rparr> else None)
       | _ \<Rightarrow> None))"

definition createCreatorSchema :: "json \<Rightarrow> agent_body option" where
  "createCreatorSchema j = (if \<not> only_members [''kind'', ''displayName'', ''access'', ''expiresAt''] j then None
     else (case (jmember j ''kind'', parse_display j, parse_access j, parse_expires j) of
         (Some (JStr k), Some d, Some a, Some x) \<Rightarrow> (if k = ''board-creator''
           then Some \<lparr>abBoard = None, abDisplayName = d, abAccess = a, abExpiresAt = x\<rparr> else None)
       | _ \<Rightarrow> None))"

definition rotateAgentSchema :: "json \<Rightarrow> string option option" where
  "rotateAgentSchema j = (if \<not> only_members [''expiresAt''] j then None else parse_expires j)"

definition agent_name :: "string \<Rightarrow> string" where "agent_name hex = ''agent-'' @ hex"

definition agent_request :: "agent_env \<Rightarrow> string \<Rightarrow> agent_body \<Rightarrow> attempt \<Rightarrow> client_request" where
  "agent_request env user body a =
     \<lparr>rqName = agent_name (atName a), rqRooms = (case abBoard body of None \<Rightarrow> [] | Some b \<Rightarrow> [b]),
      rqAccess = abAccess body, rqOwner = (case abBoard body of None \<Rightarrow> Some (JStr user) | Some _ \<Rightarrow> None),
      rqExpires = (case abExpiresAt body of None \<Rightarrow> NoExpiry | Some s \<Rightarrow> ExpiryValue (JStr s)),
      rqDisplay = Some (JStr (abDisplayName body)), rqCreator = Some (JStr user), rqNow = geNow env\<rparr>"

definition create_once :: "agent_env \<Rightarrow> string \<Rightarrow> agent_body \<Rightarrow> attempt \<Rightarrow> tworld \<Rightarrow> tworld \<times> (access_error terror + client_grant)" where
  "create_once env user body a t = (case abBoard body of
     None \<Rightarrow> createAccountClient (geTokens env) (atFaults a) (atToken a) (agent_request env user body a) t
   | Some _ \<Rightarrow> createClient (geTokens env) (atFaults a) (atToken a) (agent_request env user body a) t)"

definition createWithGeneratedName :: "agent_env \<Rightarrow> string \<Rightarrow> agent_body \<Rightarrow> tworld \<Rightarrow> tworld \<times> (access_error terror + client_grant)" where
  "createWithGeneratedName env user body t = (case create_once env user body (geFirst env) t of
     (t1, Inl DuplicateName) \<Rightarrow> create_once env user body (geSecond env) t1
   | r \<Rightarrow> r)"

definition opt_meta :: "string \<Rightarrow> string option \<Rightarrow> (string \<times> json) list" where
  "opt_meta k v = (case v of None \<Rightarrow> [] | Some s \<Rightarrow> [(k, JStr s)])"

definition created_meta :: "agent_body \<Rightarrow> client_grant \<Rightarrow> (string \<times> json) list" where
  "created_meta body g = [(''agent'', JStr (gtName g))] @
     (if abBoard body = None then [(''kind'', JStr ''board-creator'')] else []) @
     [(''fingerprint'', JStr (gtFingerprint g)), (''displayName'', JStr (abDisplayName body)), (''access'', JStr (abAccess body))] @
     opt_meta ''expiresAt'' (gtExpiresAt g)"

definition granted_status :: "client_grant \<Rightarrow> expiry_status" where
  "granted_status g = (if gtExpiresAt g = None then ExpNone else ExpActive)"

definition created_view :: "agent_body \<Rightarrow> client_grant \<Rightarrow> agent_view" where
  "created_view body g =
     \<lparr>avRef = referenceFor (gtName g) (gtFingerprint g), avName = Some (JStr (gtName g)),
      avCanCreateBoards = (abBoard body = None), avDisplayName = Some (abDisplayName body),
      avPermissions = Some (JArr (gtPermissions g)), avRooms = (case abBoard body of None \<Rightarrow> [] | Some b \<Rightarrow> [JStr b]),
      avSharedWithOtherBoards = False, avCreatedAt = gtCreatedAt g, avRotatedAt = None, avExpiresAt = gtExpiresAt g,
      avStatus = granted_status g, avCreatedByYou = True\<rparr>"

definition create_agent :: "agent_env \<Rightarrow> string \<Rightarrow> agent_body \<Rightarrow> agent_world \<Rightarrow> agent_world \<times> agent_reply" where
  "create_agent env user body w = (case createWithGeneratedName env user body (gwTokens w) of
     (t, Inl e) \<Rightarrow> (w\<lparr>gwTokens := t\<rparr>, failure e)
   | (t, Inr g) \<Rightarrow> (record_agent_event env ''agent.created'' user (abBoard body) (created_meta body g) (w\<lparr>gwTokens := t\<rparr>),
       Granted (created_view body g) (gtToken g)))"

definition createCreator :: "agent_env \<Rightarrow> string \<Rightarrow> json \<Rightarrow> agent_world \<Rightarrow> agent_world \<times> agent_reply" where
  "createCreator env user body w = (case createCreatorSchema body of
     None \<Rightarrow> (w, Refused 422)
   | Some b \<Rightarrow> (case requireStore env of Inl r \<Rightarrow> (w, r) | Inr _ \<Rightarrow> create_agent env user b w))"

definition handle_create :: "agent_env \<Rightarrow> string option \<Rightarrow> json \<Rightarrow> agent_world \<Rightarrow> agent_world \<times> agent_reply" where
  "handle_create env user body w = (case agent_begin env user w of
     (w1, Inl r) \<Rightarrow> (w1, r)
   | (w1, Inr u) \<Rightarrow>
     (if jmember body ''kind'' = Some (JStr ''board-creator'') then createCreator env u body w1
      else (case createAgentSchema body of
          None \<Rightarrow> (w1, Refused 422)
        | Some b \<Rightarrow> (case bindR (requireBoardOwner u (the (abBoard b)) (gwAccounts w1)) (\<lambda>_. requireStore env) of
            Inl r \<Rightarrow> (w1, r)
          | Inr _ \<Rightarrow> create_agent env u b w1))))"

section \<open>Rotating and revoking\<close>

definition creator_meta :: "seen \<Rightarrow> (string \<times> json) list" where
  "creator_meta s = (if seCreator s then [(''kind'', JStr ''board-creator'')] else [])"

definition rotated_view :: "seen \<Rightarrow> client_grant \<Rightarrow> agent_view" where
  "rotated_view s g =
     \<lparr>avRef = referenceFor (gtName g) (gtFingerprint g), avName = Some (JStr (gtName g)), avCanCreateBoards = seCreator s,
      avDisplayName = seDisplayName s, avPermissions = Some (JArr (gtPermissions g)), avRooms = gtRooms g,
      avSharedWithOtherBoards = False, avCreatedAt = gtCreatedAt g, avRotatedAt = gtRotatedAt g, avExpiresAt = gtExpiresAt g,
      avStatus = granted_status g, avCreatedByYou = False\<rparr>"

definition nothing_seen :: seen where "nothing_seen = \<lparr>seRooms = [], seDisplayName = None, seCreator = False\<rparr>"

definition rotate_agent :: "agent_env \<Rightarrow> string \<Rightarrow> string \<Rightarrow> string \<Rightarrow> string option \<Rightarrow> agent_world \<Rightarrow> agent_world \<times> agent_reply" where
  "rotate_agent env user name fingerprint expiresAt w =
     (case rotateClient (geTokens env) (atFaults (geFirst env)) (atToken (geFirst env)) (geNow env) name (Some fingerprint)
         (case expiresAt of None \<Rightarrow> NoExpiry | Some s \<Rightarrow> ExpiryValue (JStr s))
         (Some (authoriseOwnership user (gwAccounts w))) (gwTokens w) of
        (t, Inl e) \<Rightarrow> (w\<lparr>gwTokens := t\<rparr>, failure e)
      | (t, Inr (g, learned)) \<Rightarrow>
        (let s = (case learned of None \<Rightarrow> nothing_seen | Some s \<Rightarrow> s) in
         (auditEach env ''agent.rotated'' user s
            ([(''agent'', JStr name), (''previousFingerprint'', JStr fingerprint), (''fingerprint'', JStr (gtFingerprint g))] @
             creator_meta s @ opt_meta ''expiresAt'' (gtExpiresAt g)) (w\<lparr>gwTokens := t\<rparr>),
          Granted (rotated_view s g) (gtToken g))))"

text \<open>An absent body counts as \<open>{}\<close>.\<close>

definition handle_rotate :: "agent_env \<Rightarrow> string option \<Rightarrow> string \<Rightarrow> json \<Rightarrow> agent_world \<Rightarrow> agent_world \<times> agent_reply" where
  "handle_rotate env user ref body w = (case agent_begin env user w of
     (w1, Inl r) \<Rightarrow> (w1, r)
   | (w1, Inr u) \<Rightarrow> (case parseReference ref of
       Inl r \<Rightarrow> (w1, r)
     | Inr (name, fingerprint) \<Rightarrow> (case rotateAgentSchema (if body = JNull then JObj [] else body) of
         None \<Rightarrow> (w1, Refused 422)
       | Some expiresAt \<Rightarrow> (case requireStore env of
           Inl r \<Rightarrow> (w1, r)
         | Inr _ \<Rightarrow> rotate_agent env u name fingerprint expiresAt w1))))"

definition revoke_agent :: "agent_env \<Rightarrow> string \<Rightarrow> string \<Rightarrow> string \<Rightarrow> agent_world \<Rightarrow> agent_world \<times> agent_reply" where
  "revoke_agent env user name fingerprint w =
     (case revokeClient (geTokens env) (atFaults (geFirst env)) name (Some fingerprint)
         (Some (authoriseOwnership user (gwAccounts w))) (gwTokens w) of
        (t, Inl e) \<Rightarrow> (w\<lparr>gwTokens := t\<rparr>, failure e)
      | (t, Inr learned) \<Rightarrow>
        (let s = (case learned of None \<Rightarrow> nothing_seen | Some s \<Rightarrow> s) in
         (auditEach env ''agent.revoked'' user s
            ([(''agent'', JStr name), (''fingerprint'', JStr fingerprint)] @ creator_meta s) (w\<lparr>gwTokens := t\<rparr>), Removed)))"

definition handle_revoke :: "agent_env \<Rightarrow> string option \<Rightarrow> string \<Rightarrow> agent_world \<Rightarrow> agent_world \<times> agent_reply" where
  "handle_revoke env user ref w = (case agent_begin env user w of
     (w1, Inl r) \<Rightarrow> (w1, r)
   | (w1, Inr u) \<Rightarrow> (case bindR (parseReference ref) (\<lambda>target. bindR (requireStore env) (\<lambda>_. Inr target)) of
       Inl r \<Rightarrow> (w1, r)
     | Inr (name, fingerprint) \<Rightarrow> revoke_agent env u name fingerprint w1))"

end
