(* ===== verification/AgentClaims.thy ===== *)
theory AgentClaims
  imports AgentAccess AuthClaims TokenClaims
begin

text \<open>
  The agent routes: whatever they do to the token file is authorised by ownership of boards, on the
  record that is changed.
\<close>

section \<open>Ownership\<close>

definition owns :: "string \<Rightarrow> string \<Rightarrow> adb \<Rightarrow> bool" where
  "owns user board db \<longleftrightarrow> (\<exists>b\<in>set (dBoards db). bId b = board \<and> bOwner b = user)"

lemma role_owner:
  assumes "auth_ok db" and "getBoardRole user board d db = Inr (Some Owner)"
  shows "owns user board db"
proof -
  from assms(2) have "\<exists>m\<in>set (dMembers db). mBoard m = board \<and> mUser m = user \<and> mRole m = Owner"
    by (auto simp: getBoardRole_def getBoard_def visible_board_def validateBoardId_def res_simps
        split: option.splits if_splits dest!: getBoardMember_Some)
  then obtain m where "m \<in> set (dMembers db)" "mBoard m = board" "mUser m = user" "mRole m = Owner" by blast
  with assms(1) show ?thesis unfolding owns_def auth_ok_def members_ok_def by metis
qed

lemma mapR_marks:
  assumes "mapR (\<lambda>r. bindR (f r) (\<lambda>x. Inr (r, P x))) rooms = Inr rs"
  shows "map fst rs = rooms \<and> (\<forall>(r, b)\<in>set rs. b \<longrightarrow> (\<exists>x. f r = Inr x \<and> P x))"
  using assms by (induction rooms arbitrary: rs) (auto simp: res_simps)

lemma ownedRooms_Inr:
  assumes "ownedRooms user rooms db = Inr owned"
  shows "set owned \<subseteq> set rooms \<and> length owned \<le> length (uniq rooms) \<and>
    (\<forall>r\<in>set owned. room_role user r db = Inr (Some Owner)) \<and> (length owned = length (uniq rooms) \<longrightarrow> owned = uniq rooms)"
proof -
  from assms obtain rs where m: "mapR (\<lambda>room. bindR (room_role user room db) (\<lambda>role. Inr (room, role = Some Owner))) (uniq rooms) = Inr rs"
    and owned: "owned = map fst (filter snd rs)"
    by (auto simp: ownedRooms_def res_simps)
  from mapR_marks [OF m] have fst_rs: "map fst rs = uniq rooms"
    and own: "\<forall>(r, b)\<in>set rs. b \<longrightarrow> room_role user r db = Inr (Some Owner)" by auto
  have "set owned \<subseteq> set (map fst rs)" unfolding owned by auto
  moreover have "length owned \<le> length rs" unfolding owned by simp
  moreover have "length rs = length (uniq rooms)" using fst_rs by (metis length_map)
  moreover have "filter snd rs = rs" if "length owned = length rs"
    using that unfolding owned by (metis length_map filter_True length_filter_less linorder_neq_iff)
  ultimately show ?thesis using fst_rs own unfolding owned by auto
qed

lemma authorised:
  assumes "authoriseOwnership user db c = Inr s" and "auth_ok db"
  shows "(\<forall>b\<in>set (client_rooms c). owns user b db) \<and>
    (if isBoardCreator c then cget ''ownerUserId'' c = Some (JStr user) else client_rooms c \<noteq> [])"
proof -
  let ?rooms = "client_rooms c"
  from assms(1) obtain owned where owned: "ownedRooms user (map JStr ?rooms) db = Inr owned"
    and len: "length ?rooms \<le> length owned"
    and kind: "if isBoardCreator c then cget ''ownerUserId'' c = Some (JStr user) else ?rooms \<noteq> []"
    by (auto simp: authoriseOwnership_def Let_def res_simps split: sum.splits if_splits)
  have "distinct ?rooms" by (auto simp: client_rooms_def split: option.splits json.splits)
  then have u: "uniq (map JStr ?rooms) = map JStr ?rooms" by (intro uniq_distinct) (simp add: distinct_map inj_on_def)
  with ownedRooms_Inr [OF owned] len have "owned = map JStr ?rooms" by auto
  with ownedRooms_Inr [OF owned] have "\<forall>b\<in>set ?rooms. getBoardRole user b True db = Inr (Some Owner)"
    by (auto simp: room_role_def)
  with role_owner [OF assms(2)] kind show ?thesis by blast
qed

text \<open>What the check of an action was run on.\<close>

lemma locate_checked:
  assumes "locateClients tp name fp (Some a) s = Inr (targets, learned)" and "store_ok s"
  shows "\<exists>c l. targets = [c] \<and> c \<in> set (allClients s) \<and> a c = Inr l"
proof -
  from assms obtain c where "targets = [c]" "c \<in> set (allClients s)" "\<And>b. Some a = Some b \<Longrightarrow> \<exists>r. b c = Inr r \<and> learned = Some r"
    by (rule locate_Inr) blast
  then show ?thesis by blast
qed

section \<open>Changes of the file\<close>

definition record_added :: "string \<Rightarrow> adb \<Rightarrow> tfile \<Rightarrow> tfile \<Rightarrow> bool" where
  "record_added user db old new \<longleftrightarrow> (\<exists>c. set (allClients (store_of new)) = insert c (set (allClients (store_of old))) \<and>
     cget ''createdByUserId'' c = Some (JStr user) \<and>
     (if isBoardCreator c then cget ''rooms'' c = Some (JArr []) \<and> cget ''ownerUserId'' c = Some (JStr user)
      else (\<exists>b. cget ''rooms'' c = Some (JArr [JStr b]) \<and> owns user b db)))"

definition record_touched :: "string \<Rightarrow> adb \<Rightarrow> tfile \<Rightarrow> tfile \<Rightarrow> bool" where
  "record_touched user db old new \<longleftrightarrow> (\<exists>c\<in>set (allClients (store_of old)).
     (\<forall>b\<in>set (client_rooms c). owns user b db) \<and>
     (if isBoardCreator c then cget ''ownerUserId'' c = Some (JStr user) else client_rooms c \<noteq> []) \<and>
     filter (\<lambda>x. cget ''name'' x \<noteq> cget ''name'' c) (allClients (store_of new)) =
     filter (\<lambda>x. cget ''name'' x \<noteq> cget ''name'' c) (allClients (store_of old)))"

lemma mutate_change:
  assumes "mutateStore ft m t = (t', res)" and "twFile t' \<noteq> twFile t"
  obtains s r where "m (store_of (twFile t)) = Inr (s, r)" and "twFile t' = Stored s"
  using mutateStore_cases [OF assms(1)] assms(2) by (auto simp: replaced_def)

lemma store_of_Stored [simp]: "store_of (Stored s) = s"
  by (simp add: store_of_def)

lemma update_all:
  assumes "store_ok s" and "f [] = []"
  shows "allClients (update_records f s) = f (tsClients s) @ f (accountClientsOf s)"
proof -
  have "\<not> accounts_malformed s" using assms(1) by (simp add: store_ok_def)
  from update_accounts [OF this] assms(2) show ?thesis
    by (auto simp: allClients_def update_records_def accountClientsOf_def split: option.splits sum.splits)
qed

lemma rotate_change:
  assumes "rotateClient tp ft token now name fp x (Some (authoriseOwnership user db)) t = (t', res)"
    and "twFile t' \<noteq> twFile t" and "file_ok (twFile t)" and "auth_ok db"
  shows "record_touched user db (twFile t) (twFile t')"
proof -
  let ?a = "Some (authoriseOwnership user db)" and ?s = "store_of (twFile t)"
  note ok = file_ok_store [OF assms(3)]
  from assms(1,2) obtain e where m: "mutateStore ft (rotate_target tp token now name fp e ?a) t = (t', res)"
    by (auto simp: rotateClient_def bindS_def guardR_def split: sum.splits if_splits)
  from m assms(2) obtain s r where s: "rotate_target tp token now name fp e ?a ?s = Inr (s, r)" and f: "twFile t' = Stored s"
    by (rule mutate_change)
  obtain g learned where r: "r = (g, learned)" by force
  from s [unfolded r] ok obtain c where loc: "locateClients tp name fp ?a ?s = Inr ([c], learned)"
    and c: "c \<in> set (allClients ?s)" "cget ''name'' c = Some (JStr name)"
    and s': "s = update_records (map (\<lambda>y. if y = c then rotated_client tp token now e c else y)) ?s"
    by (rule rotate_target_Inr)
  obtain l where "authoriseOwnership user db c = Inr l"
    using locate_checked [OF loc ok] by auto
  from authorised [OF this assms(4)]
  have auth: "(\<forall>b\<in>set (client_rooms c). owns user b db) \<and>
    (if isBoardCreator c then cget ''ownerUserId'' c = Some (JStr user) else client_rooms c \<noteq> [])" .
  have keep: "cget ''name'' (rotated_client tp token now e c) = cget ''name'' c" by (simp add: rotated_client_get)
  have "filter (\<lambda>x. cget ''name'' x \<noteq> cget ''name'' c) (map (\<lambda>y. if y = c then rotated_client tp token now e c else y) cs) =
      filter (\<lambda>x. cget ''name'' x \<noteq> cget ''name'' c) cs" for cs
    using keep by (induction cs) auto
  then have "filter (\<lambda>x. cget ''name'' x \<noteq> cget ''name'' c) (allClients s) =
      filter (\<lambda>x. cget ''name'' x \<noteq> cget ''name'' c) (allClients ?s)"
    unfolding s' by (simp add: update_all [OF ok] allClients_def [of ?s])
  with auth c(1) f show ?thesis unfolding record_touched_def by auto
qed

lemma revoke_change:
  assumes "revokeClient tp ft name fp (Some (authoriseOwnership user db)) t = (t', res)"
    and "twFile t' \<noteq> twFile t" and "file_ok (twFile t)" and "auth_ok db"
  shows "record_touched user db (twFile t) (twFile t')"
proof -
  let ?a = "Some (authoriseOwnership user db)" and ?s = "store_of (twFile t)"
  note ok = file_ok_store [OF assms(3)]
  from assms(1,2) have m: "mutateStore ft (drop_targets tp name fp ?a) t = (t', res)"
    by (auto simp: revokeClient_def guardR_def split: if_splits)
  from m assms(2) obtain s learned where s: "drop_targets tp name fp ?a ?s = Inr (s, learned)" and f: "twFile t' = Stored s"
    by (rule mutate_change)
  from s obtain targets where loc: "locateClients tp name fp ?a ?s = Inr (targets, learned)"
    and s': "s = update_records (filter (\<lambda>c. c \<notin> set targets)) ?s"
    by (auto simp: drop_targets_def res_simps)
  obtain c l where c: "targets = [c]" "c \<in> set (allClients ?s)" and l: "authoriseOwnership user db c = Inr l"
    using locate_checked [OF loc ok] by auto
  have "filter (\<lambda>x. cget ''name'' x \<noteq> cget ''name'' c) (filter (\<lambda>c. c \<notin> set targets) cs) =
      filter (\<lambda>x. cget ''name'' x \<noteq> cget ''name'' c) cs" for cs
    unfolding c(1) filter_filter by (intro filter_cong refl) auto
  then have "filter (\<lambda>x. cget ''name'' x \<noteq> cget ''name'' c) (allClients s) =
      filter (\<lambda>x. cget ''name'' x \<noteq> cget ''name'' c) (allClients ?s)"
    unfolding s' by (simp add: update_all [OF ok] allClients_def [of ?s])
  with authorised [OF l assms(4)] c(2) f show ?thesis unfolding record_touched_def by auto
qed

section \<open>Creation\<close>

lemma persist_error: "persist ft src s t = (t', Inl e) \<Longrightarrow> e = IOFault"
  by (auto simp: persist_def backUpStore_def writeStoreAtomically_def bindS_def split: if_splits)

lemma mutate_duplicate:
  assumes "mutateStore ft m t = (t', Inl DuplicateName)"
  shows "twFile t' = twFile t"
proof -
  obtain t1 r1 where acq: "acquireMutationLock ft t = (t1, r1 :: 'a terror + unit)" by fastforce
  have same: "twFile t1 = twFile t" and r1: "r1 \<noteq> Inl DuplicateName"
    using acq by (auto simp: acquireMutationLock_def split: if_splits)
  obtain t2 r2 where body: "mutate_body ft m t1 = (t2, r2)" by fastforce
  from assms acq r1 body have r2: "r2 = Inl DuplicateName" and t': "twFile t' = twFile t2"
    by (auto simp: mutateStore_def with_lock_def release_lock_def split: sum.splits if_splits)
  from body r2 have "t2 = t1"
    by (auto simp: mutate_body_def bindS_def split: sum.splits prod.splits dest: persist_error)
  with same t' show ?thesis by simp
qed

lemma created_by:
  assumes "check_request (agent_request env user body a) = Inr (x, d, c)"
  shows "c = Some user"
  using assms by (auto simp: check_request_def agent_request_def normaliseCreator_def res_simps split: if_splits)

lemma create_once_change:
  assumes "create_once env user body a t = (t', res)" and "twFile t' \<noteq> twFile t"
    and "\<And>b. abBoard body = Some b \<Longrightarrow> owns user b db"
  shows "record_added user db (twFile t) (twFile t')"
proof (cases "abBoard body")
  case None
  let ?rq = "agent_request env user body a"
  have owner: "\<And>u. normaliseCreator (rqOwner ?rq) = (Inr (Some u) :: access_error terror + string option) \<Longrightarrow> u = user"
    using None by (auto simp: agent_request_def normaliseCreator_def split: if_splits)
  from assms(1,2) None obtain x d c where chk: "check_request ?rq = (Inr (x, d, c) :: access_error terror + string option \<times> string option \<times> string option)"
    and m: "\<exists>r. mutateStore (atFaults a) (add_account_client (new_account_client (geTokens env) (atToken a) ?rq user x d c) (rqName ?rq)) t
      = (t', r :: access_error terror + unit)"
    using owner by (fastforce simp: create_once_def createAccountClient_def bindS_def guardR_def
        split: sum.splits if_splits option.splits prod.splits)
  let ?c = "new_account_client (geTokens env) (atToken a) ?rq user x d c"
  from m obtain r where m: "mutateStore (atFaults a) (add_account_client ?c (rqName ?rq)) t = (t', r :: access_error terror + unit)" ..
  from m assms(2) obtain s u where s: "add_account_client ?c (rqName ?rq) (store_of (twFile t)) = (Inr (s, u) :: access_error terror + tstore \<times> unit)"
    and f: "twFile t' = Stored s" by (rule mutate_change)
  have "set (allClients s) = insert ?c (set (allClients (store_of (twFile t))))"
    using s by (auto simp: add_account_client_def res_simps allClients_def accountClientsOf_def)
  moreover have "isBoardCreator ?c" "cget ''rooms'' ?c = Some (JArr [])" "cget ''ownerUserId'' ?c = Some (JStr user)"
    by (simp_all add: isBoardCreator_def cget_def new_account_client_def)
  moreover have "cget ''createdByUserId'' ?c = Some (JStr user)"
    using created_by [OF chk] by (simp add: cget_def new_account_client_def map_add_def opt_member_get split: option.split)
  ultimately show ?thesis using f unfolding record_added_def by auto
next
  case (Some b)
  let ?rq = "agent_request env user body a"
  from assms(1,2) Some obtain x d c where chk: "check_request ?rq = (Inr (x, d, c) :: access_error terror + string option \<times> string option \<times> string option)"
    and m: "\<exists>r. mutateStore (atFaults a) (add_client (new_client (geTokens env) (atToken a) ?rq x d c) (rqName ?rq)) t
      = (t', r :: access_error terror + unit)"
    by (fastforce simp: create_once_def createClient_def bindS_def guardR_def split: sum.splits if_splits prod.splits)
  let ?c = "new_client (geTokens env) (atToken a) ?rq x d c"
  from m obtain r where m: "mutateStore (atFaults a) (add_client ?c (rqName ?rq)) t = (t', r :: access_error terror + unit)" ..
  from m assms(2) obtain s u where s: "add_client ?c (rqName ?rq) (store_of (twFile t)) = (Inr (s, u) :: access_error terror + tstore \<times> unit)"
    and f: "twFile t' = Stored s" by (rule mutate_change)
  have "set (allClients s) = insert ?c (set (allClients (store_of (twFile t))))"
    using s by (auto simp: add_client_def res_simps allClients_def accountClientsOf_def)
  moreover have "\<not> isBoardCreator ?c"
    by (simp add: isBoardCreator_def cget_def new_client_def map_add_def opt_member_get split: option.split)
  moreover have "cget ''rooms'' ?c = Some (JArr [JStr b])"
    using Some by (simp add: cget_def new_client_def agent_request_def)
  moreover have "cget ''createdByUserId'' ?c = Some (JStr user)"
    using created_by [OF chk] by (simp add: cget_def new_client_def map_add_def opt_member_get split: option.split)
  ultimately show ?thesis using f assms(3) [OF Some] unfolding record_added_def by auto
qed

lemma create_once_duplicate:
  assumes "create_once env user body a t = (t', Inl DuplicateName)"
  shows "twFile t' = twFile t"
proof (cases "abBoard body")
  case None
  with assms show ?thesis
    by (auto simp: create_once_def createAccountClient_def bindS_def guardR_def
        split: sum.splits if_splits option.splits prod.splits dest!: mutate_duplicate)
next
  case (Some b)
  with assms show ?thesis
    by (auto simp: create_once_def createClient_def bindS_def guardR_def
        split: sum.splits if_splits option.splits prod.splits dest!: mutate_duplicate)
qed

lemma create_change:
  assumes "createWithGeneratedName env user body t = (t', res)" and "twFile t' \<noteq> twFile t"
    and "\<And>b. abBoard body = Some b \<Longrightarrow> owns user b db"
  shows "record_added user db (twFile t) (twFile t')"
proof -
  obtain t1 r1 where one: "create_once env user body (geFirst env) t = (t1, r1)" by fastforce
  show ?thesis
  proof (cases "r1 = Inl DuplicateName")
    case True
    with one have same: "twFile t1 = twFile t" by (auto intro: create_once_duplicate)
    from True one assms(1) have "create_once env user body (geSecond env) t1 = (t', res)"
      by (simp add: createWithGeneratedName_def)
    from create_once_change [OF this _ assms(3)] assms(2) same show ?thesis by simp
  next
    case False
    with one assms(1) have "t' = t1"
      by (auto simp: createWithGeneratedName_def split: sum.splits terror.splits)
    with create_once_change [OF one _ assms(3)] assms(2) show ?thesis by simp
  qed
qed

section \<open>The routes\<close>

text \<open>One request to an agent route by a signed-in user, or by nobody.\<close>

inductive agent_call :: "string option \<Rightarrow> agent_world \<Rightarrow> agent_world \<Rightarrow> agent_reply \<Rightarrow> bool" where
  List: "handle_list env user scope board w = (w', r) \<Longrightarrow> agent_call user w w' r"
| Create: "handle_create env user body w = (w', r) \<Longrightarrow> agent_call user w w' r"
| Rotate: "handle_rotate env user ref body w = (w', r) \<Longrightarrow> agent_call user w w' r"
| Revoke: "handle_revoke env user ref w = (w', r) \<Longrightarrow> agent_call user w w' r"

inductive_cases agent_callE: "agent_call user w w' r"

lemma begin_frame:
  assumes "agent_begin env user w = (w1, b)"
  shows "gwTokens w1 = gwTokens w \<and> gwAccounts w1 = gwAccounts w \<and> (\<forall>u. b = Inr u \<longrightarrow> user = Some u)"
  using assms by (auto simp: agent_begin_def split: option.splits prod.splits if_splits)

lemma audit_frame: "gwTokens (auditEach env type user s meta w) = gwTokens w"
proof -
  have "gwTokens (fold (\<lambda>board. record_agent_event env type user board meta) bs w) = gwTokens w" for bs
    by (induction bs arbitrary: w) (simp_all add: record_agent_event_def)
  then show ?thesis by (simp add: auditEach_def)
qed

lemma create_agent_tokens:
  assumes "create_agent env user body w = (w', r)"
  obtains res where "createWithGeneratedName env user body (gwTokens w) = (gwTokens w', res)"
  using assms by (auto simp: create_agent_def record_agent_event_def split: prod.splits sum.splits)

lemma rotate_agent_tokens:
  assumes "rotate_agent env user name fp x w = (w', r)"
  obtains ft token now e tp res where "rotateClient tp ft token now name (Some fp) e
    (Some (authoriseOwnership user (gwAccounts w))) (gwTokens w) = (gwTokens w', res)"
  using assms by (auto simp: rotate_agent_def Let_def audit_frame split: prod.splits sum.splits)

lemma revoke_agent_tokens:
  assumes "revoke_agent env user name fp w = (w', r)"
  obtains ft tp res where "revokeClient tp ft name (Some fp)
    (Some (authoriseOwnership user (gwAccounts w))) (gwTokens w) = (gwTokens w', res)"
  using assms by (auto simp: revoke_agent_def Let_def audit_frame split: prod.splits sum.splits)

lemma handle_create_change:
  assumes "handle_create env user body w = (w', r)" and "twFile (gwTokens w') \<noteq> twFile (gwTokens w)"
    and "auth_ok (gwAccounts w)"
  shows "\<exists>u. user = Some u \<and> record_added u (gwAccounts w) (twFile (gwTokens w)) (twFile (gwTokens w'))"
proof -
  obtain w1 b where start: "agent_begin env user w = (w1, b)" by fastforce
  note frame = begin_frame [OF start]
  have "\<exists>u bd. b = Inr u \<and> create_agent env u bd w1 = (w', r) \<and>
      (\<forall>x. abBoard bd = Some x \<longrightarrow> getBoardRole u x False (gwAccounts w) = Inr (Some Owner))"
  proof (cases b)
    case (Inl r1)
    with assms(1,2) start frame show ?thesis by (simp add: handle_create_def)
  next
    case (Inr u)
    show ?thesis
    proof (cases "jmember body ''kind'' = Some (JStr ''board-creator'')")
      case True
      with assms(1,2) start frame Inr obtain bd where bd: "createCreatorSchema body = Some bd" "create_agent env u bd w1 = (w', r)"
        by (auto simp: handle_create_def createCreator_def split: option.splits sum.splits)
      from bd(1) have "abBoard bd = None"
        by (auto simp: createCreatorSchema_def split: if_splits option.splits json.splits)
      with bd(2) Inr show ?thesis by auto
    next
      case False
      with assms(1,2) start frame Inr obtain bd where bd: "create_agent env u bd w1 = (w', r)"
        and own: "requireBoardOwner u (the (abBoard bd)) (gwAccounts w) = Inr ()"
        by (auto simp: handle_create_def res_simps split: option.splits sum.splits)
      from own have "getBoardRole u (the (abBoard bd)) False (gwAccounts w) = Inr (Some Owner)"
        by (auto simp: requireBoardOwner_def guardR_def split: sum.splits option.splits if_splits)
      with bd Inr show ?thesis by auto
    qed
  qed
  then obtain u bd where b: "b = Inr u" and run: "create_agent env u bd w1 = (w', r)"
    and role: "\<And>x. abBoard bd = Some x \<Longrightarrow> getBoardRole u x False (gwAccounts w) = Inr (Some Owner)" by blast
  from b frame have u: "user = Some u" by simp
  have own: "owns u x (gwAccounts w)" if "abBoard bd = Some x" for x
    by (rule role_owner [OF assms(3) role [OF that]])
  from run obtain res where "createWithGeneratedName env u bd (gwTokens w1) = (gwTokens w', res)"
    by (rule create_agent_tokens)
  then have "createWithGeneratedName env u bd (gwTokens w) = (gwTokens w', res)" using frame by simp
  from create_change [OF this assms(2) own] u show ?thesis by simp
qed

text \<open>
  What an agent route does to the accounts is to add rows to the audit trail, so the states that agent
  routes leave behind are again reachable states of the account service.
\<close>

lemma audit_runs: "auth_runs sv (gwAccounts w) (gwAccounts (auditEach env type user s meta w))"
proof -
  have "auth_runs sv (gwAccounts w) (gwAccounts (fold (\<lambda>board. record_agent_event env type user board meta) bs w))" for bs
  proof (induction bs arbitrary: w)
    case Nil
    show ?case by (simp add: auth_runs.Stop)
  next
    case (Cons board bs)
    have "auth_runs sv (gwAccounts w) (gwAccounts (record_agent_event env type user board meta w))"
      by (auto simp: record_agent_event_def intro: auth_runs_step auth_step.Audit)
    from auth_runs_trans [OF this Cons.IH] show ?case by simp
  qed
  then show ?thesis by (simp add: auditEach_def)
qed

lemma record_runs: "auth_runs sv (gwAccounts w) (gwAccounts (record_agent_event env type user board meta w))"
  by (auto simp: record_agent_event_def intro: auth_runs_step auth_step.Audit)

lemma create_agent_runs:
  "create_agent env user body w = (w', r) \<Longrightarrow> auth_runs sv (gwAccounts w) (gwAccounts w')"
  using record_runs [of sv "w\<lparr>gwTokens := t\<rparr>" for t]
  by (auto simp: create_agent_def auth_runs.Stop split: prod.splits sum.splits)

lemma rotate_agent_runs:
  "rotate_agent env user name fp x w = (w', r) \<Longrightarrow> auth_runs sv (gwAccounts w) (gwAccounts w')"
  using audit_runs [of sv "w\<lparr>gwTokens := t\<rparr>" for t]
  by (auto simp: rotate_agent_def Let_def auth_runs.Stop split: prod.splits sum.splits)

lemma revoke_agent_runs:
  "revoke_agent env user name fp w = (w', r) \<Longrightarrow> auth_runs sv (gwAccounts w) (gwAccounts w')"
  using audit_runs [of sv "w\<lparr>gwTokens := t\<rparr>" for t]
  by (auto simp: revoke_agent_def Let_def auth_runs.Stop split: prod.splits sum.splits)

lemma agent_call_runs:
  assumes "agent_call user w w' r"
  shows "auth_runs sv (gwAccounts w) (gwAccounts w')"
  using assms
proof (cases rule: agent_call.cases)
  case (List env scope board)
  then show ?thesis
    by (auto simp: handle_list_def auth_runs.Stop split: prod.splits sum.splits dest!: begin_frame)
next
  case (Create env body)
  obtain w1 b where start: "agent_begin env user w = (w1, b)" by fastforce
  have same: "gwAccounts w = gwAccounts w1" using begin_frame [OF start] by simp
  from Create start show ?thesis unfolding same
    by (auto simp: handle_create_def createCreator_def auth_runs.Stop split: if_splits option.splits sum.splits
        dest!: create_agent_runs [where sv = sv])
next
  case (Rotate env ref body)
  obtain w1 b where start: "agent_begin env user w = (w1, b)" by fastforce
  have same: "gwAccounts w = gwAccounts w1" using begin_frame [OF start] by simp
  from Rotate start show ?thesis unfolding same
    by (auto simp: handle_rotate_def auth_runs.Stop split: option.splits sum.splits prod.splits
        dest!: rotate_agent_runs [where sv = sv])
next
  case (Revoke env ref)
  obtain w1 b where start: "agent_begin env user w = (w1, b)" by fastforce
  have same: "gwAccounts w = gwAccounts w1" using begin_frame [OF start] by simp
  from Revoke start show ?thesis unfolding same
    by (auto simp: handle_revoke_def auth_runs.Stop split: option.splits sum.splits prod.splits
        dest!: revoke_agent_runs [where sv = sv])
qed

lemma agent_call_reachable:
  "agent_call user w w' r \<Longrightarrow> auth_runs sv empty_adb (gwAccounts w) \<Longrightarrow> auth_runs sv empty_adb (gwAccounts w')"
  by (blast intro: auth_runs_trans agent_call_runs)

text \<open>
  C28: In every state of the accounts that calls of the account service and audit rows lead to, those of
  earlier agent requests included (\<open>agent_call_reachable\<close>): whenever a request to an agent route changes the
  token file, whatever its answer and whatever file operation failed, a user is signed in and either one
  record was added, for the one board of the request which the user owns or as a board creator of the user
  with no board, or one record was replaced or removed all of whose boards the user owns (and which, if it
  may create boards, is the user's), and every record of another name is as it was. A request is one step:
  in a creation the code awaits the token file between its ownership check and the write, so there the
  ownership is that at the check; in a rotation and a revocation the check is made under the lock.
\<close>
theorem agent_changes_authorised:
  assumes "auth_runs sv empty_adb (gwAccounts w)" and "file_ok (twFile (gwTokens w))"
    and "agent_call user w w' r" and "twFile (gwTokens w') \<noteq> twFile (gwTokens w)"
  shows "\<exists>u. user = Some u \<and> (record_added u (gwAccounts w) (twFile (gwTokens w)) (twFile (gwTokens w')) \<or>
    record_touched u (gwAccounts w) (twFile (gwTokens w)) (twFile (gwTokens w')))"
proof -
  have ok: "auth_ok (gwAccounts w)" by (rule reachable_adb_ok [OF assms(1)])
  from assms(3) show ?thesis
  proof (cases rule: agent_call.cases)
    case (List env scope board)
    with assms(4) show ?thesis by (auto simp: handle_list_def split: prod.splits sum.splits dest!: begin_frame)
  next
    case (Create env body)
    from handle_create_change [OF Create assms(4) ok] show ?thesis by blast
  next
    case (Rotate env ref body)
    obtain w1 b where start: "agent_begin env user w = (w1, b)" by fastforce
    note frame = begin_frame [OF start]
    from Rotate start frame assms(4) obtain u name fp x where "b = Inr u" and run: "rotate_agent env u name fp x w1 = (w', r)"
      by (auto simp: handle_rotate_def split: sum.splits prod.splits option.splits)
    with frame have u: "user = Some u" by simp
    from run obtain ft token now e tp res where "rotateClient tp ft token now name (Some fp) e
        (Some (authoriseOwnership u (gwAccounts w1))) (gwTokens w1) = (gwTokens w', res)"
      by (rule rotate_agent_tokens)
    with rotate_change frame assms(2,4) ok u show ?thesis by metis
  next
    case (Revoke env ref)
    obtain w1 b where start: "agent_begin env user w = (w1, b)" by fastforce
    note frame = begin_frame [OF start]
    from Revoke start frame assms(4) obtain u name fp where "b = Inr u" and run: "revoke_agent env u name fp w1 = (w', r)"
      by (auto simp: handle_revoke_def split: sum.splits prod.splits)
    with frame have u: "user = Some u" by simp
    from run obtain ft tp res where "revokeClient tp ft name (Some fp)
        (Some (authoriseOwnership u (gwAccounts w1))) (gwTokens w1) = (gwTokens w', res)"
      by (rule revoke_agent_tokens)
    with revoke_change frame assms(2,4) ok u show ?thesis by metis
  qed
qed

section \<open>A concrete request\<close>

definition demo_attempt :: attempt where
  "demo_attempt = \<lparr>atName = ''0a1b2c3d4e5f'', atToken = demo_token CHR ''c'', atFaults = no_faults\<rparr>"

definition demo_agent_env :: agent_env where
  "demo_agent_env = \<lparr>geTokens = demo_tp, geNow = 2000, geUuid = (\<lambda>n. ''event''), geConfigured = True, geReadFault = False,
     geFirst = demo_attempt, geSecond = demo_attempt\<rparr>"

definition demo_agent_world :: agent_world where
  "demo_agent_world = \<lparr>gwAccounts = demo_db, gwTokens = demo_world, gwLimiter = new_limiter 60 600000\<rparr>"

definition demo_ref :: string where
  "demo_ref = ''agent.'' @ clientFingerprint demo_tp (Some (JStr (tpHash demo_tp (demo_token CHR ''a''))))"

definition demo_revoke :: "agent_world \<times> agent_reply" where
  "demo_revoke = handle_revoke demo_agent_env (Some ''user-a'') demo_ref demo_agent_world"

definition demo_left :: "string list" where
  "demo_left = map scName (file_entries (twFile (gwTokens (fst demo_revoke))))"

lemma demo_revoke_result: "snd demo_revoke = Removed" "demo_left = [''maker'']"
  by code_simp+

lemma demo_before: "map scName (file_entries (twFile demo_world)) = [''agent'', ''maker'']"
  by code_simp

theorem agent_changes_authorised_witness:
  "snd demo_revoke = Removed \<and> demo_left = [''maker''] \<and>
   (\<exists>u. Some ''user-a'' = Some u \<and>
     (record_added u demo_db (twFile demo_world) (twFile (gwTokens (fst demo_revoke))) \<or>
      record_touched u demo_db (twFile demo_world) (twFile (gwTokens (fst demo_revoke)))))"
proof -
  have call: "agent_call (Some ''user-a'') demo_agent_world (fst demo_revoke) (snd demo_revoke)"
    by (rule agent_call.Revoke [of demo_agent_env _ demo_ref]) (simp add: demo_revoke_def)
  have accounts: "gwAccounts demo_agent_world = demo_db" and tokens: "gwTokens demo_agent_world = demo_world"
    by (simp_all add: demo_agent_world_def)
  have "twFile (gwTokens (fst demo_revoke)) \<noteq> twFile demo_world"
    using demo_revoke_result(2) demo_before unfolding demo_left_def by auto
  then show ?thesis
    using agent_changes_authorised [OF _ _ call, unfolded accounts tokens, OF demo_db_run demo_world_ok]
      demo_revoke_result by blast
qed

end
