(* ===== verification/LayoutText.thy ===== *)
theory LayoutText
  imports Prelude "HOL-Library.Word" "HOL-Library.List_Lexorder" "HOL-Library.Char_ord"
begin

unbundle bit_operations_syntax

text \<open>
  \<open>shared/layout.ts\<close>: the shared vocabulary of board layout. Constants, the measurement a browser
  reports, the fingerprint that ties a measurement to the content it measured, and the conservative
  estimator of text sizes.

  Page coordinates are \<open>real\<close>s where the program has doubles: the rounding of floating-point arithmetic
  is not modelled. The fingerprint hash is kept on 32-bit words, where it wraps. The decimal text of a
  number is the parameter \<open>numtext\<close>; nothing below depends on it.
\<close>

section \<open>Vocabulary\<close>

definition layout_gap :: real where "layout_gap = 64"
definition alignment_tolerance :: real where "alignment_tolerance = 2"
definition spacing_tolerance :: real where "spacing_tolerance = 1"
definition max_layout_shapes :: nat where "max_layout_shapes = 1500"

datatype bounds_source = Measured | DeclaredSize | EstimatedSize
datatype verification = Verified | Unverified

record rect =
  rX :: real
  rY :: real
  rW :: real
  rH :: real

record point =
  pX :: real
  pY :: real

record measurement =
  msId :: string
  msW :: real
  msH :: real
  msFp :: string

definition measured_shape_types :: "string set" where
  "measured_shape_types = {''text'', ''note''}"

section \<open>The content fingerprint\<close>

text \<open>\<open>String(value)\<close>; an array is its elements joined by commas, an absent or null element is empty.\<close>

definition js_join :: "string \<Rightarrow> string list \<Rightarrow> string" where
  "js_join sep xs = (case xs of [] \<Rightarrow> [] | y # ys \<Rightarrow> y @ concat (map (\<lambda>z. sep @ z) ys))"

fun js_string :: "(rat \<Rightarrow> string) \<Rightarrow> json \<Rightarrow> string" where
  "js_string numtext JNull = ''null''"
| "js_string numtext (JBool b) = (if b then ''true'' else ''false'')"
| "js_string numtext (JNum q) = numtext q"
| "js_string numtext (JStr s) = s"
| "js_string numtext (JArr xs) = js_join '','' (map (\<lambda>x. if x = JNull then [] else js_string numtext x) xs)"
| "js_string numtext (JObj ms) = ''[object Object]''"

definition string_of :: "(rat \<Rightarrow> string) \<Rightarrow> json option \<Rightarrow> string" where
  "string_of numtext v = (case v of None \<Rightarrow> ''undefined'' | Some j \<Rightarrow> js_string numtext j)"

text \<open>Hexadecimal text, and \<open>padStart\<close> with zeros.\<close>

definition hex_digit :: "nat \<Rightarrow> char" where
  "hex_digit n = char_of (if n < 10 then 48 + n else 87 + n)"

fun to_hex :: "nat \<Rightarrow> string" where
  "to_hex n = (if n < 16 then [hex_digit n] else to_hex (n div 16) @ [hex_digit (n mod 16)])"

declare to_hex.simps [simp del]

definition pad_start :: "nat \<Rightarrow> string \<Rightarrow> string" where
  "pad_start n s = replicate (n - length s) CHR ''0'' @ s"

text \<open>\<open>JSON.stringify\<close> of a scalar; control characters, quotes and backslashes are escaped.\<close>

definition escape_char :: "char \<Rightarrow> string" where
  "escape_char c = (let n = (of_char c :: nat) in
     if n = 34 \<or> n = 92 then [char_of (92 :: nat), c]
     else if n = 8 then [char_of (92 :: nat), CHR ''b'']
     else if n = 9 then [char_of (92 :: nat), CHR ''t'']
     else if n = 10 then [char_of (92 :: nat), CHR ''n'']
     else if n = 12 then [char_of (92 :: nat), CHR ''f'']
     else if n = 13 then [char_of (92 :: nat), CHR ''r'']
     else if n < 32 then char_of (92 :: nat) # CHR ''u'' # pad_start 4 (to_hex n)
     else [c])"

definition quote :: "string \<Rightarrow> string" where
  "quote s = char_of (34 :: nat) # concat (map escape_char s) @ [char_of (34 :: nat)]"

text \<open>A member that is \<open>undefined\<close> prints as \<open>null\<close>, as a member that is null does.\<close>

fun stableStringify :: "(rat \<Rightarrow> string) \<Rightarrow> json \<Rightarrow> string" where
  "stableStringify numtext JNull = ''null''"
| "stableStringify numtext (JBool b) = (if b then ''true'' else ''false'')"
| "stableStringify numtext (JNum q) = numtext q"
| "stableStringify numtext (JStr s) = quote s"
| "stableStringify numtext (JArr xs) = ''['' @ js_join '','' (map (stableStringify numtext) xs) @ '']''"
| "stableStringify numtext (JObj ms) = ''{'' @ js_join '',''
     (map snd (sort_key fst (map (\<lambda>(k, v). (k, quote k @ '':'' @ stableStringify numtext v)) ms))) @ ''}''"

text \<open>The two string hashes: \<open>Math.imul\<close> and \<open>>>> 0\<close> keep 32 bits.\<close>

definition hash_step :: "char \<Rightarrow> 32 word \<times> 32 word \<Rightarrow> 32 word \<times> 32 word" where
  "hash_step c ab = (let code = word_of_nat (of_char c) in
     ((fst ab XOR code) * 0x01000193, (snd ab * 33) XOR code))"

definition hash16 :: "string \<Rightarrow> string" where
  "hash16 text = (let ab = fold hash_step text (0x811c9dc5, 5381) in
     pad_start 8 (to_hex (unat (fst ab))) @ pad_start 8 (to_hex (unat (snd ab))))"

definition member_or_null :: "(string \<times> json) list \<Rightarrow> string \<Rightarrow> json" where
  "member_or_null p k = (case map_of p k of None \<Rightarrow> JNull | Some v \<Rightarrow> v)"

definition fingerprint_inputs :: "string \<Rightarrow> (string \<times> json) list \<Rightarrow> json" where
  "fingerprint_inputs ty p =
     (if ty = ''text'' then JObj [(''t'', JStr ''text''), (''richText'', member_or_null p ''richText''),
        (''size'', member_or_null p ''size''), (''font'', member_or_null p ''font''),
        (''scale'', member_or_null p ''scale''), (''autoSize'', member_or_null p ''autoSize''),
        (''w'', if jtruthy (map_of p ''autoSize'') then JNull else member_or_null p ''w'')]
      else if ty = ''note'' then JObj [(''t'', JStr ''note''), (''richText'', member_or_null p ''richText''),
        (''size'', member_or_null p ''size''), (''font'', member_or_null p ''font''),
        (''scale'', member_or_null p ''scale'')]
      else JObj [(''t'', JStr ty)])"

definition layoutFingerprint :: "(rat \<Rightarrow> string) \<Rightarrow> string \<Rightarrow> (string \<times> json) list \<Rightarrow> string" where
  "layoutFingerprint numtext ty p = hash16 (stableStringify numtext (fingerprint_inputs ty p))"

section \<open>Rich text\<close>

definition block_types :: "string list" where
  "block_types = [''paragraph'', ''bulletList'', ''orderedList'', ''listItem'', ''codeBlock'', ''heading'', ''blockquote'']"

text \<open>\<open>Array.isArray(item.content) ? item.content : []\<close>\<close>

definition content_of :: "json \<Rightarrow> json list" where
  "content_of item = (case jmember item ''content'' of Some (JArr xs) \<Rightarrow> xs | _ \<Rightarrow> [])"

lemma size_map_of: "map_of ms k = Some v \<Longrightarrow> size v < size (JObj ms)"
  by (induction ms) (auto split: if_splits)

lemma size_content_of: "child \<in> set (content_of item) \<Longrightarrow> size child < size item"
proof -
  assume child: "child \<in> set (content_of item)"
  then obtain ms xs where item: "item = JObj ms" and xs: "map_of ms ''content'' = Some (JArr xs)" "child \<in> set xs"
    by (cases item) (force simp: content_of_def split: option.splits json.splits)+
  have "size child < size (JArr xs)" using xs(2) by (induction xs) auto
  also have "\<dots> < size item" using size_map_of [OF xs(1)] by (simp add: item)
  finally show ?thesis .
qed

fun jobject :: "json \<Rightarrow> bool" where
  "jobject (JArr xs) = True"
| "jobject (JObj ms) = True"
| "jobject _ = False"

text \<open>\<open>item.type === 'text' && typeof item.text === 'string'\<close>\<close>

definition own_text :: "json \<Rightarrow> string option" where
  "own_text item = (if jmember item ''type'' = Some (JStr ''text'')
     then (case jmember item ''text'' of Some (JStr text) \<Rightarrow> Some text | _ \<Rightarrow> None) else None)"

function inline :: "json \<Rightarrow> string" where
  "inline node = (if \<not> jobject node then []
     else (case own_text node of
       Some text \<Rightarrow> text
     | None \<Rightarrow> if jmember node ''type'' = Some (JStr ''hardBreak'') then [CHR 0x0A]
         else concat (map inline (content_of node))))"
  by pat_completeness auto
termination by (relation "measure size") (auto intro: size_content_of)

declare inline.simps [simp del]

definition is_block :: "(rat \<Rightarrow> string) \<Rightarrow> json \<Rightarrow> bool" where
  "is_block numtext child \<longleftrightarrow> jobject child \<and> string_of numtext (jmember child ''type'') \<in> set block_types"

function block_lines :: "(rat \<Rightarrow> string) \<Rightarrow> json \<Rightarrow> string list" where
  "block_lines numtext node = (if \<not> jobject node then []
     else if jmember node ''type'' = Some (JStr ''doc'') \<or> list_ex (is_block numtext) (content_of node)
       then concat (map (block_lines numtext) (content_of node))
     else split_on CHR 0x0A (inline node))"
  by pat_completeness auto
termination by (relation "measure (size \<circ> snd)") (auto intro: size_content_of)

declare block_lines.simps [simp del]

definition richTextParagraphs :: "(rat \<Rightarrow> string) \<Rightarrow> json option \<Rightarrow> string list" where
  "richTextParagraphs numtext value = (let out = (case value of None \<Rightarrow> [] | Some v \<Rightarrow> block_lines numtext v)
     in if out = [] then [[]] else out)"

section \<open>The text estimator\<close>

definition base_font_px :: real where "base_font_px = 16"
definition line_height :: real where "line_height = 135 / 100"
definition wrap_slack :: real where "wrap_slack = 115 / 100"
definition label_padding :: real where "label_padding = 16"

definition text_size_em :: "(string \<times> real) list" where
  "text_size_em = [(''s'', 1125 / 1000), (''m'', 15 / 10), (''l'', 225 / 100), (''xl'', 275 / 100)]"

definition label_size_em :: "(string \<times> real) list" where
  "label_size_em = [(''s'', 1125 / 1000), (''m'', 1375 / 1000), (''l'', 1625 / 1000), (''xl'', 2)]"

definition average_glyph_em :: "(string \<times> real) list" where
  "average_glyph_em = [(''draw'', 65 / 100), (''sans'', 6 / 10), (''serif'', 6 / 10), (''mono'', 62 / 100)]"

text \<open>\<open>TABLE[key] ?? TABLE.default\<close>\<close>

definition lookup_or :: "(string \<times> real) list \<Rightarrow> real \<Rightarrow> string \<Rightarrow> real" where
  "lookup_or table fallback key = (case map_of table key of None \<Rightarrow> fallback | Some em \<Rightarrow> em)"

definition textFontPx :: "(rat \<Rightarrow> string) \<Rightarrow> json option \<Rightarrow> real" where
  "textFontPx numtext sz = base_font_px * lookup_or text_size_em (15 / 10) (string_of numtext sz)"

definition labelFontPx :: "(rat \<Rightarrow> string) \<Rightarrow> json option \<Rightarrow> real" where
  "labelFontPx numtext sz = base_font_px * lookup_or label_size_em (1375 / 1000) (string_of numtext sz)"

record text_estimate =
  teW :: real
  teH :: real
  teLines :: int

definition glyph_px :: "(rat \<Rightarrow> string) \<Rightarrow> real \<Rightarrow> json option \<Rightarrow> real" where
  "glyph_px numtext fontPx font = fontPx * lookup_or average_glyph_em (65 / 100) (string_of numtext font)"

definition paragraph_lines :: "real \<Rightarrow> real option \<Rightarrow> string \<Rightarrow> int" where
  "paragraph_lines glyph fixedWidth paragraph = (case fixedWidth of None \<Rightarrow> 1
     | Some width \<Rightarrow> max 1 \<lceil>real (length paragraph) * glyph * wrap_slack / max 1 width\<rceil>)"

definition estimateText :: "(rat \<Rightarrow> string) \<Rightarrow> string list \<Rightarrow> real \<Rightarrow> json option \<Rightarrow> real option \<Rightarrow> text_estimate" where
  "estimateText numtext paragraphs fontPx font fixedWidth =
     (let glyph = glyph_px numtext fontPx font;
          (lines, longest) = fold (\<lambda>paragraph (lines, longest).
             (lines + paragraph_lines glyph fixedWidth paragraph, max longest (real (length paragraph) * glyph)))
             paragraphs (0, 0)
      in \<lparr>teW = (case fixedWidth of Some width \<Rightarrow> width | None \<Rightarrow> max fontPx (of_int (\<lceil>longest\<rceil> + 1))),
          teH = max fontPx (of_int \<lceil>of_int lines * (fontPx * line_height)\<rceil>), teLines = lines\<rparr>)"

definition estimateLabelNeed :: "(rat \<Rightarrow> string) \<Rightarrow> string list \<Rightarrow> real \<Rightarrow> json option \<Rightarrow> json option \<Rightarrow> real" where
  "estimateLabelNeed numtext paragraphs boxWidth sz font =
     (if list_all (\<lambda>line. line = []) paragraphs then 0
      else teH (estimateText numtext paragraphs (labelFontPx numtext sz) font (Some (max 1 (boxWidth - label_padding * 2))))
        + label_padding * 2)"

section \<open>Facts\<close>

text \<open>
  The hash is always a fingerprint of the shape a measurement report must have: sixteen lower-case
  hexadecimal digits.
\<close>

lemma hex_digit_is_hex: "n < 16 \<Longrightarrow> is_hex (hex_digit n)"
  by (auto simp: hex_digit_def is_hex_def is_digit_def char_in_def)

lemma to_hex_is_hex: "list_all is_hex (to_hex n)"
  by (induction n rule: to_hex.induct) (subst to_hex.simps, auto simp: hex_digit_is_hex)

lemma length_to_hex: "n < 16 ^ k \<Longrightarrow> 0 < k \<Longrightarrow> length (to_hex n) \<le> k"
proof (induction k arbitrary: n)
  case 0
  then show ?case by simp
next
  case (Suc k)
  show ?case
  proof (cases "n < 16")
    case True
    then show ?thesis by (subst to_hex.simps) simp
  next
    case False
    with Suc.prems(1) have "n div 16 < 16 ^ k" "0 < k"
      by (simp_all add: div_less_iff_less_mult) (cases k, auto)
    from Suc.IH [OF this] False show ?thesis by (subst to_hex.simps) simp
  qed
qed

lemma hex_word32: "length (pad_start 8 (to_hex (unat (w :: 32 word)))) = 8 \<and> list_all is_hex (pad_start 8 (to_hex (unat w)))"
proof -
  have "unat w < 16 ^ 8" using unsigned_less [of w] by simp
  then have "length (to_hex (unat w)) \<le> 8" by (rule length_to_hex) simp
  moreover have "is_hex CHR ''0''" by (simp add: is_hex_def is_digit_def char_in_def)
  ultimately show ?thesis using to_hex_is_hex [of "unat w"] by (auto simp: pad_start_def list_all_iff)
qed

lemma hash16_shape: "matches_class is_hex 16 16 (hash16 text)"
  using hex_word32 by (simp add: hash16_def Let_def matches_class_def)

text \<open>A paragraph list is never empty, and the estimate grows with every paragraph.\<close>

lemma richTextParagraphs_ne: "richTextParagraphs numtext value \<noteq> []"
  by (simp add: richTextParagraphs_def Let_def)

lemma estimateText_height_pos: "0 < fontPx \<Longrightarrow> 0 < teH (estimateText numtext ps fontPx font fixed)"
  by (simp add: estimateText_def Let_def case_prod_beta' less_max_iff_disj)

lemma lookup_pos: "list_all (\<lambda>p. 0 < snd p) table \<Longrightarrow> 0 < d \<Longrightarrow> 0 < lookup_or table d key"
  by (auto simp: lookup_or_def list_all_iff split: option.splits dest!: map_of_SomeD)

lemma textFontPx_pos: "0 < textFontPx numtext sz"
  by (simp add: textFontPx_def base_font_px_def lookup_pos text_size_em_def)

end
