(* ===== verification/LayoutGeometry.thy ===== *)
theory LayoutGeometry
  imports LayoutText
begin

text \<open>
  \<open>shared/layout-geometry.ts\<close>: tldraw records in, page-space geometry out. Rectangles and affine
  transforms, the size of each kind of shape, where arrows end, and \<open>computeLayout\<close>: the walk over the
  parent tree that fixes the paint order, then three passes over it (plain shapes, arrows, groups).

  A record's \<open>props\<close> are JSON; the nested objects read from it (points, segments, anchors) are taken to be
  objects, as the schema of the board guarantees, and a missing member reads as \<open>undefined\<close>. Coordinates are
  finite, so that \<open>num\<close> only has to reject what is not a number.
\<close>

section \<open>Records\<close>

record shape_record =
  srId :: string
  srType :: string
  srX :: real
  srY :: real
  srRotation :: real
  srIndex :: string
  srParent :: string
  srProps :: "(string \<times> json) list"
  srMeta :: "json option"
  srLocked :: bool

record binding_record =
  brType :: "string option"
  brFrom :: string
  brTo :: string
  brProps :: "(string \<times> json) list"

record arrow_layout =
  alStart :: point
  alEnd :: point
  alStartBoundTo :: "string option"
  alEndBoundTo :: "string option"
  alConnection :: "(string \<times> string) option"
  alManaged :: bool

record shape_layout =
  slId :: string
  slType :: string
  slParent :: string
  slIndex :: string
  slZ :: nat
  slRotation :: real
  slBounds :: rect
  slSource :: bounds_source
  slVerification :: verification
  slLocalW :: real
  slLocalH :: real
  slLocked :: bool
  slLabelMayOverflow :: bool
  slMeasurementStale :: bool
  slUnknownType :: bool
  slArrow :: "arrow_layout option"

record page_layout =
  plPage :: string
  plShapes :: "shape_layout list"
  plById :: "(string \<times> shape_layout) list"
  plChildrenOf :: "(string \<times> string list) list"
  plExtent :: "rect option"

record layout_input =
  liPage :: string
  liShapes :: "shape_record list"
  liBindings :: "binding_record list"
  liMeasurements :: "(string \<times> measurement) list"

section \<open>Rectangles\<close>

definition rectRight :: "rect \<Rightarrow> real" where "rectRight r = rX r + rW r"
definition rectBottom :: "rect \<Rightarrow> real" where "rectBottom r = rY r + rH r"

text \<open>\<open>Math.min(...xs)\<close> and \<open>Math.max(...xs)\<close> of a list that is not empty.\<close>

fun min_of :: "real list \<Rightarrow> real" where
  "min_of [] = 0"
| "min_of [x] = x"
| "min_of (x # y # xs) = min x (min_of (y # xs))"

fun max_of :: "real list \<Rightarrow> real" where
  "max_of [] = 0"
| "max_of [x] = x"
| "max_of (x # y # xs) = max x (max_of (y # xs))"

definition rectUnion :: "rect list \<Rightarrow> rect option" where
  "rectUnion rects = (if rects = [] then None else
     (let minX = min_of (map rX rects); minY = min_of (map rY rects);
          maxX = max_of (map rectRight rects); maxY = max_of (map rectBottom rects)
      in Some \<lparr>rX = minX, rY = minY, rW = maxX - minX, rH = maxY - minY\<rparr>))"

definition rectsCloserThan :: "rect \<Rightarrow> rect \<Rightarrow> real \<Rightarrow> bool" where
  "rectsCloserThan a b gap \<longleftrightarrow> rX a < rectRight b + gap \<and> rX b < rectRight a + gap \<and>
     rY a < rectBottom b + gap \<and> rY b < rectBottom a + gap"

definition overlapArea :: "rect \<Rightarrow> rect \<Rightarrow> real" where
  "overlapArea a b = (let w = min (rectRight a) (rectRight b) - max (rX a) (rX b);
                          h = min (rectBottom a) (rectBottom b) - max (rY a) (rY b)
                      in if 0 < w \<and> 0 < h then w * h else 0)"

section \<open>Transforms\<close>

record matrix =
  mA :: real
  mB :: real
  mC :: real
  mD :: real
  mE :: real
  mF :: real

definition identity_matrix :: matrix where
  "identity_matrix = \<lparr>mA = 1, mB = 0, mC = 0, mD = 1, mE = 0, mF = 0\<rparr>"

definition local_matrix :: "shape_record \<Rightarrow> matrix" where
  "local_matrix s = (let c = cos (srRotation s); n = sin (srRotation s)
     in \<lparr>mA = c, mB = n, mC = - n, mD = c, mE = srX s, mF = srY s\<rparr>)"

definition compose :: "matrix \<Rightarrow> matrix \<Rightarrow> matrix" where
  "compose p q = \<lparr>mA = mA p * mA q + mC p * mB q, mB = mB p * mA q + mD p * mB q,
     mC = mA p * mC q + mC p * mD q, mD = mB p * mC q + mD p * mD q,
     mE = mA p * mE q + mC p * mF q + mE p, mF = mB p * mE q + mD p * mF q + mF p\<rparr>"

definition apply_matrix :: "matrix \<Rightarrow> point \<Rightarrow> point" where
  "apply_matrix m p = \<lparr>pX = mA m * pX p + mC m * pY p + mE m, pY = mB m * pX p + mD m * pY p + mF m\<rparr>"

definition aabb :: "matrix \<Rightarrow> rect \<Rightarrow> rect" where
  "aabb m r = (let corners = map (apply_matrix m)
       [\<lparr>pX = rX r, pY = rY r\<rparr>, \<lparr>pX = rX r + rW r, pY = rY r\<rparr>,
        \<lparr>pX = rX r, pY = rY r + rH r\<rparr>, \<lparr>pX = rX r + rW r, pY = rY r + rH r\<rparr>];
       xs = map pX corners; ys = map pY corners
     in \<lparr>rX = min_of xs, rY = min_of ys, rW = max_of xs - min_of xs, rH = max_of ys - min_of ys\<rparr>)"

definition num :: "real \<Rightarrow> json option \<Rightarrow> real" where
  "num fallback v = (case v of Some (JNum q) \<Rightarrow> of_rat q | _ \<Rightarrow> fallback)"

definition point_of :: "real \<Rightarrow> json option \<Rightarrow> point" where
  "point_of fallback v = (case v of None \<Rightarrow> \<lparr>pX = fallback, pY = fallback\<rparr>
     | Some j \<Rightarrow> \<lparr>pX = num fallback (jmember j ''x''), pY = num fallback (jmember j ''y'')\<rparr>)"

definition centre :: "rect \<Rightarrow> point" where
  "centre r = \<lparr>pX = rX r + rW r / 2, pY = rY r + rH r / 2\<rparr>"

definition edgePoint :: "rect \<Rightarrow> point \<Rightarrow> bool \<Rightarrow> point" where
  "edgePoint bounds toward ellipse = (let c = centre bounds; dx = pX toward - pX c; dy = pY toward - pY c in
     if dx = 0 \<and> dy = 0 then c
     else (let rx = max (rW bounds / 2) 1; ry = max (rH bounds / 2) 1;
               scale = (if ellipse then 1 / sqrt ((dx / rx)\<^sup>2 + (dy / ry)\<^sup>2) else 1 / max (\<bar>dx\<bar> / rx) (\<bar>dy\<bar> / ry))
           in \<lparr>pX = pX c + dx * scale, pY = pY c + dy * scale\<rparr>))"

section \<open>The size of a shape\<close>

record sized =
  szRect :: rect
  szSource :: bounds_source
  szVerification :: verification
  szLabelMayOverflow :: bool
  szMeasurementStale :: bool
  szUnknownType :: bool

definition stored_size_types :: "string set" where
  "stored_size_types = {''frame'', ''image'', ''video'', ''bookmark'', ''embed''}"

definition box :: "real \<Rightarrow> real \<Rightarrow> rect" where
  "box w h = \<lparr>rX = 0, rY = 0, rW = w, rH = h\<rparr>"

definition declared :: "rect \<Rightarrow> sized" where
  "declared r = \<lparr>szRect = r, szSource = DeclaredSize, szVerification = Verified,
     szLabelMayOverflow = False, szMeasurementStale = False, szUnknownType = False\<rparr>"

definition unknown_size :: sized where
  "unknown_size = \<lparr>szRect = box 0 0, szSource = EstimatedSize, szVerification = Unverified,
     szLabelMayOverflow = False, szMeasurementStale = False, szUnknownType = True\<rparr>"

definition boxOfPoints :: "point list \<Rightarrow> real \<Rightarrow> sized" where
  "boxOfPoints points scale = (if points = [] then declared (box 1 1)
     else (let xs = map (\<lambda>p. pX p * scale) points; ys = map (\<lambda>p. pY p * scale) points
           in declared \<lparr>rX = min_of xs, rY = min_of ys,
                rW = max 1 (max_of xs - min_of xs), rH = max 1 (max_of ys - min_of ys)\<rparr>))"

definition draw_points :: "json option \<Rightarrow> point list" where
  "draw_points segments = (case segments of Some (JArr ss) \<Rightarrow>
       concat (map (\<lambda>s. case jmember s ''points'' of Some (JArr ps) \<Rightarrow> map (\<lambda>p. point_of 0 (Some p)) ps | _ \<Rightarrow> []) ss)
     | _ \<Rightarrow> [])"

definition line_points :: "json option \<Rightarrow> point list" where
  "line_points points = (case points of Some (JObj ms) \<Rightarrow> map (\<lambda>m. point_of 0 (Some (snd m))) ms
     | Some (JArr ps) \<Rightarrow> map (\<lambda>p. point_of 0 (Some p)) ps | _ \<Rightarrow> [])"

definition size_geo :: "(rat \<Rightarrow> string) \<Rightarrow> (string \<times> json) list \<Rightarrow> sized" where
  "size_geo numtext p = (let w = max 1 (num 0 (map_of p ''w''));
       h = max 1 (num 0 (map_of p ''h'') + num 0 (map_of p ''growY''));
       needed = estimateLabelNeed numtext (richTextParagraphs numtext (map_of p ''richText'')) w
                  (map_of p ''size'') (map_of p ''font'')
     in if h + 1 < needed then (declared (box w h))\<lparr>szLabelMayOverflow := True, szVerification := Unverified\<rparr>
        else declared (box w h))"

definition size_note :: "(string \<times> json) list \<Rightarrow> real \<Rightarrow> bool \<Rightarrow> sized" where
  "size_note p scale stale =
     (declared (box (200 * scale) ((200 + num 0 (map_of p ''growY'')) * scale)))\<lparr>szMeasurementStale := stale\<rparr>"

definition size_text :: "(rat \<Rightarrow> string) \<Rightarrow> (string \<times> json) list \<Rightarrow> real \<Rightarrow> bool \<Rightarrow> sized" where
  "size_text numtext p scale stale =
     (let fixed = (if map_of p ''autoSize'' = Some (JBool False) then Some (max 16 (of_int \<lfloor>num 200 (map_of p ''w'')\<rfloor>)) else None);
          estimate = estimateText numtext (richTextParagraphs numtext (map_of p ''richText''))
                       (textFontPx numtext (map_of p ''size'')) (map_of p ''font'') fixed;
          w = (case fixed of Some f \<Rightarrow> f | None \<Rightarrow> max (teW estimate) (num 0 (map_of p ''w''))) * scale
      in \<lparr>szRect = box w (teH estimate * scale), szSource = EstimatedSize, szVerification = Unverified,
          szLabelMayOverflow = False, szMeasurementStale = stale, szUnknownType = False\<rparr>)"

definition size_measured :: "(rat \<Rightarrow> string) \<Rightarrow> shape_record \<Rightarrow> (string \<times> measurement) list \<Rightarrow> sized" where
  "size_measured numtext s measurements =
     (let p = srProps s; scale = max (1 / 100) (num 1 (map_of p ''scale''));
          guess = (\<lambda>stale. if srType s = ''note'' then size_note p scale stale else size_text numtext p scale stale)
      in case map_of measurements (srId s) of
           Some m \<Rightarrow> (if msFp m = layoutFingerprint numtext (srType s) p
             then \<lparr>szRect = box (msW m) (msH m), szSource = Measured, szVerification = Verified,
                   szLabelMayOverflow = False, szMeasurementStale = False, szUnknownType = False\<rparr>
             else guess True)
         | None \<Rightarrow> guess False)"

definition sizeOf :: "(rat \<Rightarrow> string) \<Rightarrow> shape_record \<Rightarrow> (string \<times> measurement) list \<Rightarrow> sized option" where
  "sizeOf numtext s measurements = (let p = srProps s in
     if srType s = ''geo'' then Some (size_geo numtext p)
     else if srType s \<in> stored_size_types
       then Some (declared (box (max 1 (num 1 (map_of p ''w''))) (max 1 (num 1 (map_of p ''h'')))))
     else if srType s = ''text'' \<or> srType s = ''note'' then Some (size_measured numtext s measurements)
     else if srType s = ''draw'' \<or> srType s = ''highlight''
       then Some (boxOfPoints (draw_points (map_of p ''segments'')) (num 1 (map_of p ''scale'')))
     else if srType s = ''line'' then Some (boxOfPoints (line_points (map_of p ''points'')) (num 1 (map_of p ''scale'')))
     else None)"

section \<open>The walk in paint order\<close>

text \<open>\<open>children.get(parentId) ?? []\<close>: the records under a parent, stably sorted by fractional index.\<close>

definition children_of :: "shape_record list \<Rightarrow> string \<Rightarrow> shape_record list" where
  "children_of shapes parentId = sort_key srIndex (filter (\<lambda>s. srParent s = parentId) shapes)"

record walk_state =
  wkMatrix :: "(string \<times> matrix) list"
  wkRotation :: "(string \<times> real) list"
  wkOrdered :: "shape_record list"

definition enter :: "shape_record \<Rightarrow> string \<Rightarrow> walk_state \<Rightarrow> walk_state" where
  "enter s parentId st = \<lparr>
     wkMatrix = AList.update (srId s) (compose (case map_of (wkMatrix st) parentId of Some m \<Rightarrow> m | None \<Rightarrow> identity_matrix)
                  (local_matrix s)) (wkMatrix st),
     wkRotation = AList.update (srId s) ((case map_of (wkRotation st) parentId of Some r \<Rightarrow> r | None \<Rightarrow> 0) + srRotation s)
                    (wkRotation st),
     wkOrdered = wkOrdered st @ [s]\<rparr>"

text \<open>\<open>walk(parentId, depth)\<close>; the first argument is how many more levels may be entered, \<open>31 - depth\<close>.\<close>

fun walk :: "nat \<Rightarrow> shape_record list \<Rightarrow> string \<Rightarrow> walk_state \<Rightarrow> walk_state" where
  "walk 0 shapes parentId st = st"
| "walk (Suc levels) shapes parentId st =
     fold (\<lambda>s st. if map_of (wkMatrix st) (srId s) \<noteq> None then st
                  else walk levels shapes (srId s) (enter s parentId st)) (children_of shapes parentId) st"

definition walk_start :: "string \<Rightarrow> walk_state" where
  "walk_start pageId = \<lparr>wkMatrix = [(pageId, identity_matrix)], wkRotation = [(pageId, 0)], wkOrdered = []\<rparr>"

definition walk_page :: "layout_input \<Rightarrow> walk_state" where
  "walk_page inp = walk 31 (liShapes inp) (liPage inp) (walk_start (liPage inp))"

section \<open>The three passes\<close>

type_synonym layouts = "(string \<times> shape_layout) list"

definition z_of :: "shape_record list \<Rightarrow> string \<Rightarrow> nat" where
  "z_of ordered i = (case map_of (map_of_entries (zip (map srId ordered) [0..<length ordered])) i of
     Some z \<Rightarrow> z | None \<Rightarrow> 0)"

definition make_layout :: "walk_state \<Rightarrow> shape_record \<Rightarrow> sized \<Rightarrow> matrix \<Rightarrow> shape_layout" where
  "make_layout st s sz m = \<lparr>slId = srId s, slType = srType s, slParent = srParent s, slIndex = srIndex s,
     slZ = z_of (wkOrdered st) (srId s),
     slRotation = (case map_of (wkRotation st) (srId s) of Some r \<Rightarrow> r | None \<Rightarrow> 0),
     slBounds = aabb m (szRect sz), slSource = szSource sz, slVerification = szVerification sz,
     slLocalW = rW (szRect sz), slLocalH = rH (szRect sz), slLocked = srLocked s,
     slLabelMayOverflow = szLabelMayOverflow sz, slMeasurementStale = szMeasurementStale sz,
     slUnknownType = szUnknownType sz, slArrow = None\<rparr>"

definition matrix_of :: "walk_state \<Rightarrow> string \<Rightarrow> matrix" where
  "matrix_of st i = (case map_of (wkMatrix st) i of Some m \<Rightarrow> m | None \<Rightarrow> identity_matrix)"

definition place_plain :: "(rat \<Rightarrow> string) \<Rightarrow> layout_input \<Rightarrow> walk_state \<Rightarrow> shape_record \<Rightarrow> layouts \<Rightarrow> layouts" where
  "place_plain numtext inp st s ls = (if srType s = ''arrow'' \<or> srType s = ''group'' then ls
     else (let sz = (case sizeOf numtext s (liMeasurements inp) of Some sz \<Rightarrow> sz | None \<Rightarrow> unknown_size)
           in AList.update (srId s) (make_layout st s sz (matrix_of st (srId s))) ls))"

text \<open>The terminals of an arrow: the last usable binding of each end.\<close>

definition bound_by :: "binding_record list \<Rightarrow> string \<Rightarrow> binding_record list" where
  "bound_by bindings i = filter (\<lambda>b. (brType b = None \<or> brType b = Some ''arrow'') \<and> brFrom b = i) bindings"

definition terminal_of :: "layout_input \<Rightarrow> layouts \<Rightarrow> string \<Rightarrow> string \<Rightarrow> (binding_record \<times> shape_layout) option" where
  "terminal_of inp ls i terminal = fold (\<lambda>b found. case map_of ls (brTo b) of
       Some target \<Rightarrow> (if map_of (brProps b) ''terminal'' = Some (JStr terminal) then Some (b, target) else found)
     | None \<Rightarrow> found) (bound_by (liBindings inp) i) None"

definition is_ellipse :: "(string \<times> json) list \<Rightarrow> bool" where
  "is_ellipse p \<longleftrightarrow> map_of p ''geo'' = Some (JStr ''ellipse'') \<or> map_of p ''geo'' = Some (JStr ''oval'')"

definition by_record :: "layout_input \<Rightarrow> string \<Rightarrow> shape_record option" where
  "by_record inp i = map_of (map_of_entries (map (\<lambda>s. (srId s, s)) (liShapes inp))) i"

text \<open>Where a bound end is: at its precise anchor, or on the edge of the target toward \<open>toward\<close>.\<close>

definition bound_point :: "layout_input \<Rightarrow> point \<Rightarrow> binding_record \<times> shape_layout \<Rightarrow> point" where
  "bound_point inp toward bt = (let b = fst bt; target = snd bt; bounds = slBounds target;
       anchor = map_of (brProps b) ''normalizedAnchor''
     in if map_of (brProps b) ''isPrecise'' = Some (JBool True) \<and> jtruthy anchor
        then (let a = point_of (1 / 2) anchor
              in \<lparr>pX = rX bounds + pX a * rW bounds, pY = rY bounds + pY a * rH bounds\<rparr>)
        else edgePoint bounds toward (slType target = ''geo'' \<and>
               (case by_record inp (slId target) of Some r \<Rightarrow> is_ellipse (srProps r) | None \<Rightarrow> False)))"

definition arrow_end :: "layout_input \<Rightarrow> point \<Rightarrow> point \<Rightarrow> (binding_record \<times> shape_layout) option
    \<Rightarrow> (binding_record \<times> shape_layout) option \<Rightarrow> point" where
  "arrow_end inp here there terminal opposite = (case terminal of None \<Rightarrow> here
     | Some bt \<Rightarrow> bound_point inp (case opposite of Some (_, other) \<Rightarrow> centre (slBounds other) | None \<Rightarrow> there) bt)"

definition bound_to :: "(binding_record \<times> shape_layout) option \<Rightarrow> string option" where
  "bound_to terminal = (case terminal of None \<Rightarrow> None | Some (b, _) \<Rightarrow> if brTo b = [] then None else Some (brTo b))"

definition connection_of :: "json option \<Rightarrow> (string \<times> string) option" where
  "connection_of c = (case c of None \<Rightarrow> None | Some j \<Rightarrow>
     (case (jmember j ''fromId'', jmember j ''toId'') of (Some (JStr f), Some (JStr t)) \<Rightarrow> Some (f, t) | _ \<Rightarrow> None))"

definition place_arrow :: "layout_input \<Rightarrow> walk_state \<Rightarrow> shape_record \<Rightarrow> layouts \<Rightarrow> layouts" where
  "place_arrow inp st s ls = (if srType s \<noteq> ''arrow'' then ls
     else (let p = srProps s; m = matrix_of st (srId s);
               start = apply_matrix m (point_of 0 (map_of p ''start''));
               end' = apply_matrix m (point_of 0 (map_of p ''end''));
               t1 = terminal_of inp ls (srId s) ''start''; t2 = terminal_of inp ls (srId s) ''end'';
               a = arrow_end inp start end' t1 t2; e = arrow_end inp end' start t2 t1;
               bend = \<bar>num 0 (map_of p ''bend'')\<bar>;
               w = \<bar>pX e - pX a\<bar>; h = \<bar>pY e - pY a\<bar>;
               connection = (case srMeta s of None \<Rightarrow> None | Some j \<Rightarrow> jmember j ''canvasApiConnection'')
           in AList.update (srId s) \<lparr>slId = srId s, slType = ''arrow'', slParent = srParent s, slIndex = srIndex s,
                slZ = z_of (wkOrdered st) (srId s), slRotation = 0,
                slBounds = \<lparr>rX = min (pX a) (pX e) - bend, rY = min (pY a) (pY e) - bend,
                  rW = w + bend * 2, rH = h + bend * 2\<rparr>,
                slSource = DeclaredSize, slVerification = Verified, slLocalW = w, slLocalH = h,
                slLocked = srLocked s, slLabelMayOverflow = False, slMeasurementStale = False, slUnknownType = False,
                slArrow = Some \<lparr>alStart = a, alEnd = e, alStartBoundTo = bound_to t1, alEndBoundTo = bound_to t2,
                  alConnection = connection_of connection, alManaged = jtruthy connection\<rparr>\<rparr> ls))"

definition weakest_source :: "shape_layout list \<Rightarrow> bounds_source" where
  "weakest_source members = (if list_ex (\<lambda>m. slSource m = EstimatedSize) members then EstimatedSize
     else if list_ex (\<lambda>m. slSource m = DeclaredSize) members then DeclaredSize else Measured)"

definition place_group :: "layout_input \<Rightarrow> walk_state \<Rightarrow> shape_record \<Rightarrow> layouts \<Rightarrow> layouts" where
  "place_group inp st g ls =
     (let members = List.map_filter (\<lambda>c. map_of ls (srId c)) (children_of (liShapes inp) (srId g));
          m = matrix_of st (srId g);
          union = (case rectUnion (map slBounds members) of Some r \<Rightarrow> r
            | None \<Rightarrow> \<lparr>rX = mE m, rY = mF m, rW = 0, rH = 0\<rparr>)
      in AList.update (srId g) \<lparr>slId = srId g, slType = ''group'', slParent = srParent g, slIndex = srIndex g,
           slZ = z_of (wkOrdered st) (srId g),
           slRotation = (case map_of (wkRotation st) (srId g) of Some r \<Rightarrow> r | None \<Rightarrow> 0),
           slBounds = union, slSource = (if members = [] then EstimatedSize else weakest_source members),
           slVerification = (if list_all (\<lambda>m. slVerification m = Verified) members \<and> members \<noteq> []
             then Verified else Unverified),
           slLocalW = rW union, slLocalH = rH union, slLocked = srLocked g, slLabelMayOverflow = False,
           slMeasurementStale = False, slUnknownType = False, slArrow = None\<rparr> ls)"

definition place_all :: "(rat \<Rightarrow> string) \<Rightarrow> layout_input \<Rightarrow> walk_state \<Rightarrow> layouts" where
  "place_all numtext inp st = (let ordered = wkOrdered st;
       plain = fold (place_plain numtext inp st) ordered [];
       arrows = fold (place_arrow inp st) ordered plain
     in fold (place_group inp st) (rev (filter (\<lambda>s. srType s = ''group'') ordered)) arrows)"

text \<open>\<open>childIds\<close>: the listed ids under each parent, parents in the order of their first child.\<close>

definition push_child :: "shape_record \<Rightarrow> (string \<times> string list) list \<Rightarrow> (string \<times> string list) list" where
  "push_child s m = AList.update (srParent s)
     ((case map_of m (srParent s) of Some xs \<Rightarrow> xs | None \<Rightarrow> []) @ [srId s]) m"

definition computeLayout :: "(rat \<Rightarrow> string) \<Rightarrow> layout_input \<Rightarrow> page_layout" where
  "computeLayout numtext inp =
     (let st = walk_page inp; ls = place_all numtext inp st;
          shapes = List.map_filter (\<lambda>s. map_of ls (srId s)) (wkOrdered st)
      in \<lparr>plPage = liPage inp, plShapes = shapes,
          plById = map_of_entries (map (\<lambda>s. (slId s, s)) shapes),
          plChildrenOf = fold push_child (wkOrdered st) [],
          plExtent = rectUnion (map slBounds (filter (\<lambda>s. slType s \<noteq> ''arrow'' \<and> slParent s = liPage inp) shapes))\<rparr>)"

section \<open>Containment\<close>

definition child_ids :: "page_layout \<Rightarrow> string \<Rightarrow> string list" where
  "child_ids l i = (case map_of (plChildrenOf l) i of Some xs \<Rightarrow> xs | None \<Rightarrow> [])"

text \<open>\<open>visit(parent, depth)\<close> with \<open>31 - depth\<close> levels left; the set is a list here, its order is never read.\<close>

fun visit :: "nat \<Rightarrow> page_layout \<Rightarrow> string \<Rightarrow> string list" where
  "visit 0 l parent = []"
| "visit (Suc levels) l parent = concat (map (\<lambda>c. c # visit levels l c) (child_ids l parent))"

definition descendantsOf :: "page_layout \<Rightarrow> string \<Rightarrow> string list" where
  "descendantsOf l i = visit 31 l i"

text \<open>At most thirty steps up, ending at a shape of the page.\<close>

fun climb :: "nat \<Rightarrow> page_layout \<Rightarrow> shape_layout option \<Rightarrow> string list" where
  "climb 0 l current = []"
| "climb (Suc steps) l None = []"
| "climb (Suc steps) l (Some s) = (if slParent s = plPage l then []
     else slParent s # climb steps l (map_of (plById l) (slParent s)))"

definition ancestorsOf :: "page_layout \<Rightarrow> string \<Rightarrow> string list" where
  "ancestorsOf l i = climb 30 l (map_of (plById l) i)"

end
