(* ===== verification/LayoutEngine.thy ===== *)
theory LayoutEngine
  imports LayoutGeometry "HOL-Library.Product_Lexorder"
begin

text \<open>
  \<open>shared/layout-engine.ts\<close>: deterministic placement and verification over a computed page layout.
  A placement answers moves (page-space deltas) or a \<open>LayoutError\<close> with its status; reading a property
  of the missing union of an empty selection is the \<open>TypeError\<close> it is in the source.
\<close>

section \<open>Blockers and sliding\<close>

record move =
  mvId :: string
  mvDx :: real
  mvDy :: real

record blocker =
  bkId :: string
  bkRect :: rect

datatype layout_error = LayoutError nat | NullUnion

datatype axis = AxisX | AxisY

text \<open>Neither an arrow nor a group: what a placement must avoid, and what the verification compares.\<close>

definition solid :: "shape_layout \<Rightarrow> bool" where
  "solid s \<longleftrightarrow> slType s \<noteq> ''arrow'' \<and> slType s \<noteq> ''group''"

definition skip_of :: "page_layout \<Rightarrow> string \<Rightarrow> string list" where
  "skip_of l i = i # descendantsOf l i @ ancestorsOf l i"

definition blockersFor :: "page_layout \<Rightarrow> string list \<Rightarrow> blocker list" where
  "blockersFor l moving = (let skip = concat (map (skip_of l) moving)
     in map (\<lambda>s. \<lparr>bkId = slId s, bkRect = slBounds s\<rparr>) (filter (\<lambda>s. solid s \<and> slId s \<notin> set skip) (plShapes l)))"

record slid =
  sdX :: real
  sdY :: real
  sdMoved :: bool

definition hits_at :: "blocker list \<Rightarrow> real \<Rightarrow> real \<Rightarrow> real \<Rightarrow> point \<Rightarrow> blocker list" where
  "hits_at blockers w h gap p =
     filter (\<lambda>b. rectsCloserThan \<lparr>rX = pX p, rY = pY p, rW = w, rH = h\<rparr> (bkRect b) gap) blockers"

definition past_hits :: "axis \<Rightarrow> real \<Rightarrow> blocker list \<Rightarrow> point \<Rightarrow> point" where
  "past_hits ax gap hits p = (case ax of
     AxisY \<Rightarrow> p\<lparr>pY := max_of (map (\<lambda>b. rectBottom (bkRect b)) hits) + gap\<rparr>
   | AxisX \<Rightarrow> p\<lparr>pX := max_of (map (\<lambda>b. rectRight (bkRect b)) hits) + gap\<rparr>)"

fun slide_loop :: "nat \<Rightarrow> blocker list \<Rightarrow> real \<Rightarrow> real \<Rightarrow> point \<Rightarrow> axis \<Rightarrow> real \<Rightarrow> point \<Rightarrow> slid" where
  "slide_loop 0 blockers w h start ax gap p = \<lparr>sdX = pX p, sdY = pY p, sdMoved = True\<rparr>"
| "slide_loop (Suc n) blockers w h start ax gap p =
     (let hits = hits_at blockers w h gap p in
      if hits = [] then \<lparr>sdX = pX p, sdY = pY p, sdMoved = (pX p \<noteq> pX start \<or> pY p \<noteq> pY start)\<rparr>
      else slide_loop n blockers w h start ax gap (past_hits ax gap hits p))"

definition slideClear :: "blocker list \<Rightarrow> real \<Rightarrow> real \<Rightarrow> point \<Rightarrow> axis \<Rightarrow> real \<Rightarrow> slid" where
  "slideClear blockers w h start ax gap = slide_loop 500 blockers w h start ax gap start"

datatype direction = GoBelow | GoRight | GoAny

record free_region =
  frX :: real
  frY :: real
  frW :: real
  frH :: real
  frTravel :: real
  frBelow :: bool

definition or_else :: "'a option \<Rightarrow> 'a \<Rightarrow> 'a" where
  "or_else v d = (case v of Some x \<Rightarrow> x | None \<Rightarrow> d)"

definition hypot :: "real \<Rightarrow> real \<Rightarrow> real" where
  "hypot a b = sqrt (a\<^sup>2 + b\<^sup>2)"

definition findFreeRegion :: "page_layout \<Rightarrow> real \<Rightarrow> real \<Rightarrow> point option \<Rightarrow> direction option \<Rightarrow> real option
    \<Rightarrow> string list \<Rightarrow> free_region" where
  "findFreeRegion l w h anchor dir gap moving =
     (let g = or_else gap layout_gap; blockers = blockersFor l moving;
          a = or_else anchor (case plExtent l of Some e \<Rightarrow> \<lparr>pX = rX e, pY = rectBottom e + g\<rparr> | None \<Rightarrow> \<lparr>pX = 0, pY = 0\<rparr>);
          d = or_else dir GoAny;
          below = slideClear blockers w h a AxisY g; right = slideClear blockers w h a AxisX g;
          belowTravel = hypot (sdX below - pX a) (sdY below - pY a);
          rightTravel = hypot (sdX right - pX a) (sdY right - pY a);
          useBelow = (d = GoBelow \<or> (d = GoAny \<and> belowTravel \<le> rightTravel));
          chosen = (if useBelow then below else right)
      in \<lparr>frX = sdX chosen, frY = sdY chosen, frW = w, frH = h,
          frTravel = (if useBelow then belowTravel else rightTravel), frBelow = useBelow\<rparr>)"

section \<open>Placement next to a shape\<close>

definition boundsOf :: "page_layout \<Rightarrow> string \<Rightarrow> layout_error + shape_layout" where
  "boundsOf l i = (case map_of (plById l) i of Some s \<Rightarrow> Inr s | None \<Rightarrow> Inl (LayoutError 404))"

definition move_to :: "shape_layout \<Rightarrow> real \<Rightarrow> real \<Rightarrow> move" where
  "move_to s x y = \<lparr>mvId = slId s, mvDx = x - rX (slBounds s), mvDy = y - rY (slBounds s)\<rparr>"

datatype align3 = AlignStart | AlignCenter | AlignEnd

fun offset :: "real \<Rightarrow> real \<Rightarrow> align3 \<Rightarrow> real" where
  "offset container item AlignStart = 0"
| "offset container item AlignCenter = (container - item) / 2"
| "offset container item AlignEnd = container - item"

definition placeBelow :: "page_layout \<Rightarrow> string \<Rightarrow> string \<Rightarrow> real option \<Rightarrow> align3 option \<Rightarrow> layout_error + move list" where
  "placeBelow l i targetId gap al = (let g = or_else gap layout_gap in
     bindR (boundsOf l i) (\<lambda>shape. bindR (boundsOf l targetId) (\<lambda>target.
     bindR (guardR (slId shape \<noteq> slId target) (LayoutError 422)) (\<lambda>_.
       let sb = slBounds shape; tb = slBounds target;
           wantedX = rX tb + offset (rW tb) (rW sb) (or_else al AlignStart);
           cleared = slideClear (blockersFor l [slId shape]) (rW sb) (rH sb) \<lparr>pX = wantedX, pY = rectBottom tb + g\<rparr> AxisY g
       in Inr [move_to shape (sdX cleared) (sdY cleared)]))))"

definition placeRightOf :: "page_layout \<Rightarrow> string \<Rightarrow> string \<Rightarrow> real option \<Rightarrow> align3 option \<Rightarrow> layout_error + move list" where
  "placeRightOf l i targetId gap al = (let g = or_else gap layout_gap in
     bindR (boundsOf l i) (\<lambda>shape. bindR (boundsOf l targetId) (\<lambda>target.
     bindR (guardR (slId shape \<noteq> slId target) (LayoutError 422)) (\<lambda>_.
       let sb = slBounds shape; tb = slBounds target;
           wantedY = rY tb + offset (rH tb) (rH sb) (or_else al AlignStart);
           cleared = slideClear (blockersFor l [slId shape]) (rW sb) (rH sb) \<lparr>pX = rectRight tb + g, pY = wantedY\<rparr> AxisX g
       in Inr [move_to shape (sdX cleared) (sdY cleared)]))))"

section \<open>Aligning and distributing\<close>

datatype align_axis = ALeft | ACenterX | ARight | ATop | ACenterY | ABottom

definition align_move :: "rect \<Rightarrow> align_axis \<Rightarrow> shape_layout \<Rightarrow> move" where
  "align_move sel ax s = (let b = slBounds s; across = (\<lambda>d. \<lparr>mvId = slId s, mvDx = d, mvDy = 0\<rparr>);
       down = (\<lambda>d. \<lparr>mvId = slId s, mvDx = 0, mvDy = d\<rparr>)
     in case ax of
       ALeft \<Rightarrow> across (rX sel - rX b)
     | ARight \<Rightarrow> across (rectRight sel - rectRight b)
     | ACenterX \<Rightarrow> across (rX sel + rW sel / 2 - (rX b + rW b / 2))
     | ATop \<Rightarrow> down (rY sel - rY b)
     | ABottom \<Rightarrow> down (rectBottom sel - rectBottom b)
     | ACenterY \<Rightarrow> down (rY sel + rH sel / 2 - (rY b + rH b / 2)))"

definition alignMoves :: "page_layout \<Rightarrow> string list \<Rightarrow> align_axis \<Rightarrow> layout_error + move list" where
  "alignMoves l ids ax = bindR (mapR (boundsOf l) (uniq ids)) (\<lambda>shapes.
     Inr (case rectUnion (map slBounds shapes) of None \<Rightarrow> [] | Some sel \<Rightarrow> map (align_move sel ax) shapes))"

definition extent_along :: "bool \<Rightarrow> shape_layout \<Rightarrow> real" where
  "extent_along horizontal s = (if horizontal then rW (slBounds s) else rH (slBounds s))"

definition start_along :: "bool \<Rightarrow> shape_layout \<Rightarrow> real" where
  "start_along horizontal s = (if horizontal then rX (slBounds s) else rY (slBounds s))"

fun spread_out :: "bool \<Rightarrow> real \<Rightarrow> real \<Rightarrow> shape_layout list \<Rightarrow> move list" where
  "spread_out horizontal stride cursor [] = []"
| "spread_out horizontal stride cursor (s # ss) = (let delta = cursor - start_along horizontal s in
     (if horizontal then \<lparr>mvId = slId s, mvDx = delta, mvDy = 0\<rparr> else \<lparr>mvId = slId s, mvDx = 0, mvDy = delta\<rparr>)
     # spread_out horizontal stride (cursor + (extent_along horizontal s + stride)) ss)"

definition distributeMoves :: "page_layout \<Rightarrow> string list \<Rightarrow> bool \<Rightarrow> real option \<Rightarrow> layout_error + move list" where
  "distributeMoves l ids horizontal gap = bindR (mapR (boundsOf l) (uniq ids)) (\<lambda>found.
     let shapes = sort_key (\<lambda>s. (start_along horizontal s, start_along (\<not> horizontal) s, slId s)) found in
     if shapes = [] then Inl NullUnion
     else (let start = start_along horizontal (hd shapes);
               final = start_along horizontal (last shapes) + extent_along horizontal (last shapes);
               stride = or_else gap ((final - start - sum_list (map (extent_along horizontal) shapes)) / (real (length shapes) - 1))
           in Inr (spread_out horizontal stride start shapes)))"

section \<open>Rows, stacks and grids\<close>

record block_options =
  boGap :: "real option"
  boX :: "real option"
  boY :: "real option"
  boAvoidCollisions :: "bool option"

definition moved_rect :: "rect \<Rightarrow> move \<Rightarrow> rect" where
  "moved_rect b m = \<lparr>rX = rX b + mvDx m, rY = rY b + mvDy m, rW = rW b, rH = rH b\<rparr>"

definition shift_move :: "real \<Rightarrow> real \<Rightarrow> move \<Rightarrow> move" where
  "shift_move dx dy m = m\<lparr>mvDx := mvDx m + dx, mvDy := mvDy m + dy\<rparr>"

definition clearBlock :: "page_layout \<Rightarrow> move list \<Rightarrow> block_options \<Rightarrow> real \<Rightarrow> layout_error + move list" where
  "clearBlock l moves options gap = (if boAvoidCollisions options = Some False then Inr moves else
     bindR (mapR (\<lambda>m. bindR (boundsOf l (mvId m)) (\<lambda>s. Inr (moved_rect (slBounds s) m))) moves) (\<lambda>rects.
     case rectUnion rects of None \<Rightarrow> Inl NullUnion
     | Some block \<Rightarrow>
         (let cleared = slideClear (blockersFor l (map mvId moves)) (rW block) (rH block) \<lparr>pX = rX block, pY = rY block\<rparr> AxisY gap;
              dx = sdX cleared - rX block; dy = sdY cleared - rY block
          in Inr (if dx \<noteq> 0 \<or> dy \<noteq> 0 then map (shift_move dx dy) moves else moves))))"

definition origin :: "page_layout \<Rightarrow> string list \<Rightarrow> block_options \<Rightarrow> layout_error + point" where
  "origin l ids options = bindR (mapR (boundsOf l) ids) (\<lambda>shapes.
     case (boX options, boY options, rectUnion (map slBounds shapes)) of
       (Some x, Some y, _) \<Rightarrow> Inr \<lparr>pX = x, pY = y\<rparr>
     | (_, _, None) \<Rightarrow> Inl NullUnion
     | (x, y, Some u) \<Rightarrow> Inr \<lparr>pX = or_else x (rX u), pY = or_else y (rY u)\<rparr>)"

fun line_up :: "(shape_layout \<Rightarrow> real \<Rightarrow> move) \<Rightarrow> (shape_layout \<Rightarrow> real) \<Rightarrow> real \<Rightarrow> real \<Rightarrow> shape_layout list \<Rightarrow> move list" where
  "line_up place extent gap cursor [] = []"
| "line_up place extent gap cursor (s # ss) = place s cursor # line_up place extent gap (cursor + (extent s + gap)) ss"

definition rowMoves :: "page_layout \<Rightarrow> string list \<Rightarrow> block_options \<Rightarrow> align3 \<Rightarrow> layout_error + move list" where
  "rowMoves l ids options al = (let gap = or_else (boGap options) layout_gap in
     bindR (mapR (boundsOf l) (uniq ids)) (\<lambda>shapes. bindR (origin l ids options) (\<lambda>start.
     let rowHeight = max_of (map (\<lambda>s. rH (slBounds s)) shapes);
         moves = line_up (\<lambda>s x. move_to s x (pY start + offset rowHeight (rH (slBounds s)) al))
                   (\<lambda>s. rW (slBounds s)) gap (pX start) shapes
     in clearBlock l moves options gap)))"

definition stackMoves :: "page_layout \<Rightarrow> string list \<Rightarrow> block_options \<Rightarrow> align3 \<Rightarrow> layout_error + move list" where
  "stackMoves l ids options al = (let gap = or_else (boGap options) layout_gap in
     bindR (mapR (boundsOf l) (uniq ids)) (\<lambda>shapes. bindR (origin l ids options) (\<lambda>start.
     let stackWidth = max_of (map (\<lambda>s. rW (slBounds s)) shapes);
         moves = line_up (\<lambda>s y. move_to s (pX start + offset stackWidth (rW (slBounds s)) al) y)
                   (\<lambda>s. rH (slBounds s)) gap (pY start) shapes
     in clearBlock l moves options gap)))"

text \<open>The columns are as wide, and the rows as tall, as their largest member; \<open>columns\<close> is at least 1.\<close>

definition grid_sizes :: "nat \<Rightarrow> shape_layout list \<Rightarrow> real list \<times> real list" where
  "grid_sizes columns shapes =
     (let rows = (length shapes + columns - 1) div columns
      in fold (\<lambda>(index, s) (widths, heights).
           (widths[index mod columns := max (widths ! (index mod columns)) (rW (slBounds s))],
            heights[index div columns := max (heights ! (index div columns)) (rH (slBounds s))]))
         (List.enumerate 0 shapes) (replicate columns 0, replicate rows 0))"

definition starts_of :: "real \<Rightarrow> real \<Rightarrow> real list \<Rightarrow> nat \<Rightarrow> real" where
  "starts_of start gap sizes k = start + fold (\<lambda>size total. total + size + gap) (take k sizes) 0"

definition gridMoves :: "page_layout \<Rightarrow> string list \<Rightarrow> nat \<Rightarrow> block_options \<Rightarrow> real option \<Rightarrow> real option \<Rightarrow> layout_error + move list" where
  "gridMoves l ids columns options colGap rGap =
     bindR (mapR (boundsOf l) (uniq ids)) (\<lambda>shapes.
     let gap = or_else (boGap options) layout_gap; columnGap = or_else colGap gap; rowGap = or_else rGap gap in
     bindR (origin l ids options) (\<lambda>start.
     let (widths, heights) = grid_sizes columns shapes;
         moves = map (\<lambda>(index, s). move_to s (starts_of (pX start) columnGap widths (index mod columns))
                        (starts_of (pY start) rowGap heights (index div columns))) (List.enumerate 0 shapes)
     in clearBlock l moves options (max columnGap rowGap)))"

end
