(* ===== verification/LayoutTree.thy ===== *)
theory LayoutTree
  imports LayoutGeometry
begin

text \<open>
  What \<open>computeLayout\<close> guarantees of the layout it builds: the walk lists each shape that hangs from the
  page once, after its parent, at most thirty-one levels down; the three passes give each of them its
  entry, with a size that is never negative and never called verified when it is a guess; and the depth
  guards of \<open>descendantsOf\<close> and \<open>ancestorsOf\<close> never cut a listed shape off.
\<close>

section \<open>The parent relation\<close>

definition parent_rel :: "shape_record list \<Rightarrow> (string \<times> string) set" where
  "parent_rel xs = (\<lambda>s. (srId s, srParent s)) ` set xs"

lemma parent_rel_mono: "set xs \<subseteq> set ys \<Longrightarrow> parent_rel xs \<subseteq> parent_rel ys"
  by (auto simp: parent_rel_def)

lemma relpow_mono: "r \<subseteq> s \<Longrightarrow> p \<in> r ^^ n \<Longrightarrow> p \<in> s ^^ n"
  for r s :: "('a \<times> 'a) set"
proof (induction n arbitrary: p)
  case 0
  then show ?case by simp
next
  case (Suc n)
  then show ?case by (cases p) (auto simp: relcomp_unfold)
qed

lemma parent_relI: "s \<in> set xs \<Longrightarrow> (srId s, srParent s) \<in> parent_rel xs"
  by (auto simp: parent_rel_def)

lemma parent_relE:
  assumes "(a, b) \<in> parent_rel xs"
  obtains s where "s \<in> set xs" "srId s = a" "srParent s = b"
  using assms by (auto simp: parent_rel_def)

text \<open>\<open>ids\<close> are the entries of the tree so far, the page included.\<close>

definition entered :: "string \<Rightarrow> shape_record list \<Rightarrow> string set" where
  "entered page xs = insert page (srId ` set xs)"

lemma entered_append [simp]: "entered page (xs @ ys) = entered page xs \<union> srId ` set ys"
  by (auto simp: entered_def)

definition walk_inv :: "string \<Rightarrow> shape_record list \<Rightarrow> walk_state \<Rightarrow> bool" where
  "walk_inv page shapes st \<longleftrightarrow>
     map fst (wkMatrix st) = page # map srId (wkOrdered st) \<and>
     distinct (page # map srId (wkOrdered st)) \<and> set (wkOrdered st) \<subseteq> set shapes \<and>
     (\<forall>k<length (wkOrdered st). srParent (wkOrdered st ! k) \<in> entered page (take k (wkOrdered st))) \<and>
     (\<forall>s\<in>set (wkOrdered st). \<exists>n\<le>31. (srId s, page) \<in> parent_rel (wkOrdered st) ^^ n)"

lemma visited_iff: "walk_inv page shapes st \<Longrightarrow> map_of (wkMatrix st) i \<noteq> None \<longleftrightarrow> i \<in> entered page (wkOrdered st)"
  by (auto simp: walk_inv_def map_of_eq_None_iff entered_def image_set simp del: set_map)

lemma keys_update_new: "k \<notin> set (map fst m) \<Longrightarrow> map fst (AList.update k v m) = map fst m @ [k]"
  by (induction m) auto

lemma walk_inv_enter:
  assumes inv: "walk_inv page shapes st" and s: "s \<in> set shapes" "srId s \<notin> entered page (wkOrdered st)"
    and p: "srParent s = parent" "parent \<in> entered page (wkOrdered st)"
    and n: "(parent, page) \<in> parent_rel (wkOrdered st) ^^ n" "n < 31"
  shows "walk_inv page shapes (enter s parent st)" and "wkOrdered (enter s parent st) = wkOrdered st @ [s]"
    and "(srId s, page) \<in> parent_rel (wkOrdered (enter s parent st)) ^^ Suc n"
proof -
  show order: "wkOrdered (enter s parent st) = wkOrdered st @ [s]" by (simp add: enter_def)
  let ?new = "wkOrdered st @ [s]"
  have mono: "parent_rel (wkOrdered st) \<subseteq> parent_rel ?new" by (rule parent_rel_mono) auto
  have step: "(srId s, parent) \<in> parent_rel ?new" using parent_relI [of s ?new] p(1) by simp
  have path: "(srId s, page) \<in> parent_rel ?new ^^ Suc n"
    by (rule relpow_Suc_I2 [OF step relpow_mono [OF mono n(1)]])
  then show "(srId s, page) \<in> parent_rel (wkOrdered (enter s parent st)) ^^ Suc n" by (simp only: order)
  have keys: "map fst (wkMatrix (enter s parent st)) = page # map srId ?new"
    using inv s(2) by (simp add: enter_def keys_update_new walk_inv_def entered_def)
  have "srParent (?new ! k) \<in> entered page (take k ?new)" if "k < length ?new" for k
  proof (cases "k < length (wkOrdered st)")
    case True
    with inv show ?thesis by (simp add: walk_inv_def nth_append)
  next
    case False
    with that have "k = length (wkOrdered st)" by simp
    with p show ?thesis by (simp add: nth_append)
  qed
  moreover have "\<exists>n\<le>31. (srId x, page) \<in> parent_rel ?new ^^ n" if "x \<in> set ?new" for x
  proof (cases "x \<in> set (wkOrdered st)")
    case True
    with inv obtain j where "j \<le> 31" "(srId x, page) \<in> parent_rel (wkOrdered st) ^^ j"
      by (auto simp: walk_inv_def)
    then show ?thesis using relpow_mono [OF mono] by blast
  next
    case False
    with that have "x = s" by simp
    moreover have "Suc n \<le> 31" using n(2) by simp
    ultimately show ?thesis using path by blast
  qed
  ultimately show "walk_inv page shapes (enter s parent st)"
    using inv s keys order by (auto simp: walk_inv_def entered_def)
qed

section \<open>The walk\<close>

text \<open>What a walk below \<open>p\<close> adds hangs from \<open>p\<close>, directly or through other additions.\<close>

definition walk_adds :: "string \<Rightarrow> walk_state \<Rightarrow> walk_state \<Rightarrow> bool" where
  "walk_adds p st st' \<longleftrightarrow> (\<exists>new. wkOrdered st' = wkOrdered st @ new \<and>
     (\<forall>s\<in>set new. srParent s = p \<or> srParent s \<in> srId ` set new))"

lemma walk_adds_refl: "walk_adds p st st"
  by (auto simp: walk_adds_def)

lemma walk_adds_trans: "walk_adds p st st' \<Longrightarrow> walk_adds p st' st'' \<Longrightarrow> walk_adds p st st''"
  unfolding walk_adds_def by (elim exE conjE) (auto 4 4)

lemma walk_adds_child:
  assumes "wkOrdered st' = wkOrdered st @ [s]" and "srParent s = p" and "walk_adds (srId s) st' st''"
  shows "walk_adds p st st''"
proof -
  from assms(3) obtain new where new: "wkOrdered st'' = wkOrdered st' @ new"
    "\<And>x. x \<in> set new \<Longrightarrow> srParent x = srId s \<or> srParent x \<in> srId ` set new"
    by (auto simp: walk_adds_def)
  have "wkOrdered st'' = wkOrdered st @ (s # new)" using assms(1) new(1) by simp
  moreover have "\<forall>x\<in>set (s # new). srParent x = p \<or> srParent x \<in> srId ` set (s # new)"
    using assms(2) new(2) by auto
  ultimately show ?thesis unfolding walk_adds_def by blast
qed

definition walk_step :: "nat \<Rightarrow> shape_record list \<Rightarrow> string \<Rightarrow> shape_record \<Rightarrow> walk_state \<Rightarrow> walk_state" where
  "walk_step levels shapes p s st = (if map_of (wkMatrix st) (srId s) \<noteq> None then st
     else walk levels shapes (srId s) (enter s p st))"

lemma walk_step_simps:
  assumes "walk_inv page shapes st"
  shows "srId s \<in> entered page (wkOrdered st) \<Longrightarrow> walk_step levels shapes p s st = st"
    and "srId s \<notin> entered page (wkOrdered st) \<Longrightarrow>
      walk_step levels shapes p s st = walk levels shapes (srId s) (enter s p st)"
  unfolding walk_step_def visited_iff [OF assms] by simp_all

lemma walk_Suc: "walk (Suc levels) shapes p st = fold (walk_step levels shapes p) (children_of shapes p) st"
  by (simp add: walk_step_def [abs_def])

lemma set_children_of: "set (children_of shapes p) = {s \<in> set shapes. srParent s = p}"
  by (auto simp: children_of_def)

lemma walk_adds_mono: "walk_adds p st st' \<Longrightarrow> set (wkOrdered st) \<subseteq> set (wkOrdered st')"
  by (auto simp: walk_adds_def)

lemma walk_sound:
  assumes "walk_inv page shapes st" and "(p, page) \<in> parent_rel (wkOrdered st) ^^ n"
    and "p \<in> entered page (wkOrdered st)" and "n + levels \<le> 31"
  shows "walk_inv page shapes (walk levels shapes p st) \<and> walk_adds p st (walk levels shapes p st)"
  using assms
proof (induction levels arbitrary: p st n)
  case 0
  then show ?case by (simp add: walk_adds_refl)
next
  case (Suc levels)
  have "walk_inv page shapes (fold (walk_step levels shapes p) cs st') \<and> walk_adds p st (fold (walk_step levels shapes p) cs st')"
    if "set cs \<subseteq> {s \<in> set shapes. srParent s = p}" "walk_inv page shapes st'" "walk_adds p st st'" for cs st'
    using that
  proof (induction cs arbitrary: st')
    case Nil
    then show ?case by simp
  next
    case (Cons c cs)
    show ?case
    proof (cases "srId c \<in> entered page (wkOrdered st')")
      case True
      then have "walk_step levels shapes p c st' = st'" by (rule walk_step_simps(1) [OF Cons.prems(2)])
      with Cons show ?thesis by simp
    next
      case False
      have mono: "set (wkOrdered st) \<subseteq> set (wkOrdered st')" by (rule walk_adds_mono [OF Cons.prems(3)])
      have path: "(p, page) \<in> parent_rel (wkOrdered st') ^^ n"
        by (rule relpow_mono [OF parent_rel_mono [OF mono] Suc.prems(2)])
      have p: "p \<in> entered page (wkOrdered st')" using Suc.prems(3) mono by (auto simp: entered_def)
      from Cons.prems(1) have c: "c \<in> set shapes" "srParent c = p" by auto
      have n: "n < 31" using Suc.prems(4) by simp
      note e = walk_inv_enter [OF Cons.prems(2) c(1) False c(2) p path n]
      let ?st = "walk levels shapes (srId c) (enter c p st')"
      have "srId c \<in> entered page (wkOrdered (enter c p st'))" by (simp add: e(2))
      from Suc.IH [OF e(1) e(3) this] Suc.prems(4)
      have w: "walk_inv page shapes ?st" "walk_adds (srId c) (enter c p st') ?st" by simp_all
      have "walk_adds p st ?st"
        by (rule walk_adds_trans [OF Cons.prems(3) walk_adds_child [OF e(2) c(2) w(2)]])
      moreover have "walk_step levels shapes p c st' = ?st"
        by (rule walk_step_simps(2) [OF Cons.prems(2) False])
      ultimately show ?thesis using Cons.IH [OF _ w(1)] Cons.prems(1) by simp
    qed
  qed
  from this [OF _ Suc.prems(1) walk_adds_refl] show ?case by (simp add: walk_Suc set_children_of del: walk.simps)
qed

lemma walk_start_inv: "walk_inv page shapes (walk_start page)"
  by (simp add: walk_inv_def walk_start_def)

lemma walk_page_inv: "walk_inv (liPage inp) (liShapes inp) (walk_page inp)"
  unfolding walk_page_def
  by (rule conjunct1 [OF walk_sound [OF walk_start_inv, of _ _ 0]]) (simp_all add: entered_def)

text \<open>With distinct record ids the walk misses nothing that hangs from \<open>p\<close> within its levels.\<close>

definition reached :: "shape_record list \<Rightarrow> nat \<Rightarrow> string \<Rightarrow> walk_state \<Rightarrow> bool" where
  "reached shapes levels p st \<longleftrightarrow> (\<forall>x\<in>set shapes. \<forall>k<levels. (srId x, p) \<in> parent_rel shapes ^^ Suc k \<longrightarrow> x \<in> set (wkOrdered st))"

lemma reached_mono: "reached shapes levels p st \<Longrightarrow> set (wkOrdered st) \<subseteq> set (wkOrdered st') \<Longrightarrow> reached shapes levels p st'"
  unfolding reached_def by blast

text \<open>A subtree none of which has been listed.\<close>

definition fresh :: "string \<Rightarrow> string \<Rightarrow> walk_state \<Rightarrow> bool" where
  "fresh page i st \<longleftrightarrow> i \<notin> entered page (wkOrdered st) \<and> i \<notin> srParent ` set (wkOrdered st)"

lemma fresh_after_walk:
  assumes ids: "inj_on srId (set shapes)" and inv: "walk_inv page shapes st''"
    and enter: "wkOrdered st' = wkOrdered st @ [c]" and adds: "walk_adds (srId c) st' st''"
    and c: "srParent c = p" "srId c \<notin> entered page (wkOrdered st)" and p: "p \<in> entered page (wkOrdered st)"
    and d: "d \<in> set shapes" "srParent d = p" "srId d \<noteq> srId c" "fresh page (srId d) st"
  shows "fresh page (srId d) st''"
proof -
  from adds obtain new where new: "wkOrdered st'' = wkOrdered st @ c # new"
    "\<And>x. x \<in> set new \<Longrightarrow> srParent x = srId c \<or> srParent x \<in> srId ` set new"
    by (auto simp: walk_adds_def enter)
  have p_new: "p \<notin> srId ` set (c # new)"
  proof -
    have "distinct (page # map srId (wkOrdered st) @ map srId (c # new))"
      using inv by (simp add: walk_inv_def new(1))
    then have "entered page (wkOrdered st) \<inter> srId ` set (c # new) = {}"
      by (simp only: distinct.simps distinct_append entered_def set_append set_map) blast
    with p show ?thesis by blast
  qed
  have d_new: "srId d \<notin> srId ` set (c # new)"
  proof
    assume "srId d \<in> srId ` set (c # new)"
    then obtain x where x: "x \<in> set new" "srId x = srId d" using d(3) by auto
    then have "x \<in> set shapes" using inv by (auto simp: walk_inv_def new(1))
    with ids d(1) x(2) have "x = d" by (auto dest: inj_onD)
    with new(2) [OF x(1)] d(2) p_new show False by auto
  qed
  moreover have "srId d \<notin> srParent ` set (c # new)"
  proof
    assume "srId d \<in> srParent ` set (c # new)"
    then consider "srParent c = srId d" | x where "x \<in> set new" "srParent x = srId d" by auto
    then show False
    proof cases
      case 1
      with c(1) p d(4) show False by (auto simp: fresh_def)
    next
      case 2
      from new(2) [OF this(1)] this(2) d(3) d_new show False by auto
    qed
  qed
  ultimately show ?thesis using d(4) by (auto simp: fresh_def new(1) entered_def)
qed

lemma walk_complete:
  assumes ids: "distinct (map srId shapes)" and "walk_inv page shapes st"
    and "(p, page) \<in> parent_rel (wkOrdered st) ^^ n" "p \<in> entered page (wkOrdered st)" "n + levels \<le> 31"
    and "p \<notin> srParent ` set (wkOrdered st)" and root: "page \<notin> srId ` set shapes"
  shows "reached shapes levels p (walk levels shapes p st)"
  using assms(2-6)
proof (induction levels arbitrary: p st n)
  case 0
  then show ?case by (simp add: reached_def)
next
  case (Suc levels)
  have inj: "inj_on srId (set shapes)" using ids by (simp add: distinct_map)
  have main: "walk_inv page shapes st' \<Longrightarrow> walk_adds p st st' \<Longrightarrow> \<forall>c\<in>set cs. fresh page (srId c) st' \<Longrightarrow>
      \<forall>c\<in>set cs. c \<in> set (wkOrdered (fold (walk_step levels shapes p) cs st')) \<and>
        reached shapes levels (srId c) (fold (walk_step levels shapes p) cs st') \<and>
        set (wkOrdered st') \<subseteq> set (wkOrdered (fold (walk_step levels shapes p) cs st'))"
    if "set cs \<subseteq> {s \<in> set shapes. srParent s = p}" "distinct (map srId cs)" for cs st'
    using that
  proof (induction cs arbitrary: st')
    case Nil
    then show ?case by simp
  next
    case (Cons c cs)
    note inv = Cons.prems(1) and adds = Cons.prems(2)
    have mono: "set (wkOrdered st) \<subseteq> set (wkOrdered st')" by (rule walk_adds_mono [OF adds])
    have path: "(p, page) \<in> parent_rel (wkOrdered st') ^^ n"
      by (rule relpow_mono [OF parent_rel_mono [OF mono] Suc.prems(2)])
    have p: "p \<in> entered page (wkOrdered st')" using Suc.prems(3) mono by (auto simp: entered_def)
    from Cons.prems(4) have c: "c \<in> set shapes" "srParent c = p" by auto
    have new: "srId c \<notin> entered page (wkOrdered st')" "srId c \<notin> srParent ` set (wkOrdered st')"
      using Cons.prems(3) by (auto simp: fresh_def)
    have n: "n < 31" using Suc.prems(4) by simp
    note e = walk_inv_enter [OF inv c(1) new(1) c(2) p path n]
    let ?st = "walk levels shapes (srId c) (enter c p st')"
    have c_in: "srId c \<in> entered page (wkOrdered (enter c p st'))" by (simp add: e(2))
    have lev: "Suc n + levels \<le> 31" using Suc.prems(4) by simp
    have w: "walk_inv page shapes ?st" "walk_adds (srId c) (enter c p st') ?st"
      using walk_sound [OF e(1) e(3) c_in lev] by simp_all
    have "srId c \<notin> srParent ` set (wkOrdered (enter c p st'))"
      using new c(2) p by (auto simp: e(2) entered_def)
    then have done_c: "reached shapes levels (srId c) ?st" by (rule Suc.IH [OF e(1) e(3) c_in lev])
    have adds': "walk_adds p st ?st"
      by (rule walk_adds_trans [OF adds walk_adds_child [OF e(2) c(2) w(2)]])
    have fresh': "\<forall>d\<in>set cs. fresh page (srId d) ?st"
    proof
      fix d assume d: "d \<in> set cs"
      then have "srId d \<in> srId ` set cs" by (rule imageI)
      with Cons.prems(5) have "srId d \<noteq> srId c" by auto
      with d Cons.prems(3,4) show "fresh page (srId d) ?st"
        by (intro fresh_after_walk [OF inj w(1) e(2) w(2) c(2) new(1) p]) auto
    qed
    have step: "walk_step levels shapes p c st' = ?st" by (rule walk_step_simps(2) [OF inv new(1)])
    let ?fin = "fold (walk_step levels shapes p) cs ?st"
    have rest: "\<forall>d\<in>set cs. d \<in> set (wkOrdered ?fin) \<and> reached shapes levels (srId d) ?fin \<and>
        set (wkOrdered ?st) \<subseteq> set (wkOrdered ?fin)"
      by (rule Cons.IH [OF w(1) adds' fresh']) (use Cons.prems(4,5) in auto)
    have up: "set (wkOrdered ?st) \<subseteq> set (wkOrdered ?fin)"
    proof (cases cs)
      case Nil
      then show ?thesis by simp
    next
      case (Cons d ds)
      with rest show ?thesis by auto
    qed
    have "set (wkOrdered st') \<union> {c} \<subseteq> set (wkOrdered ?st)"
      using walk_adds_mono [OF w(2)] by (simp add: e(2))
    with up rest reached_mono [OF done_c up] show ?case by (auto simp: step)
  qed
  let ?cs = "children_of shapes p"
  let ?fin = "fold (walk_step levels shapes p) ?cs st"
  have "\<forall>c\<in>set ?cs. fresh page (srId c) st"
  proof
    fix c assume "c \<in> set ?cs"
    then have c: "c \<in> set shapes" "srParent c = p" by (auto simp: set_children_of)
    have "c \<notin> set (wkOrdered st)" using c(2) Suc.prems(5) by auto
    then have "srId c \<notin> srId ` set (wkOrdered st)"
      using inj c(1) Suc.prems(1) by (auto simp: walk_inv_def dest!: inj_onD)
    moreover have "srId c \<noteq> page" using root c(1) by auto
    ultimately have new: "srId c \<notin> entered page (wkOrdered st)" by (simp add: entered_def)
    have "srParent s \<in> entered page (wkOrdered st)" if "s \<in> set (wkOrdered st)" for s
    proof -
      from that obtain k where k: "k < length (wkOrdered st)" "wkOrdered st ! k = s" by (auto simp: in_set_conv_nth)
      with Suc.prems(1) have "srParent s \<in> entered page (take k (wkOrdered st))" by (auto simp: walk_inv_def)
      then show ?thesis by (auto simp: entered_def dest: in_set_takeD)
    qed
    with new show "fresh page (srId c) st" by (auto simp: fresh_def)
  qed
  moreover have "distinct (map srId ?cs)"
    using ids by (simp add: children_of_def distinct_map inj_on_def)
  ultimately have all: "\<forall>c\<in>set ?cs. c \<in> set (wkOrdered ?fin) \<and> reached shapes levels (srId c) ?fin"
    using main [OF _ _ Suc.prems(1) walk_adds_refl] by (simp add: set_children_of)
  have "reached shapes (Suc levels) p ?fin"
    unfolding reached_def
  proof (intro ballI allI impI)
    fix x k assume x: "x \<in> set shapes" and k: "k < Suc levels" and path: "(srId x, p) \<in> parent_rel shapes ^^ Suc k"
    from path obtain i where i: "(srId x, i) \<in> parent_rel shapes ^^ k" "(i, p) \<in> parent_rel shapes"
      by (auto simp: relcomp_unfold)
    from i(2) obtain c where c: "c \<in> set shapes" "srId c = i" "srParent c = p" by (rule parent_relE)
    with all have c': "c \<in> set (wkOrdered ?fin)" "reached shapes levels (srId c) ?fin"
      by (auto simp: set_children_of)
    show "x \<in> set (wkOrdered ?fin)"
    proof (cases k)
      case 0
      with i(1) c(2) have "srId x = srId c" by simp
      with inj x c(1) have "x = c" by (auto dest: inj_onD)
      with c'(1) show ?thesis by simp
    next
      case (Suc j)
      with i(1) c(2) c'(2) x k show ?thesis by (auto simp: reached_def simp del: relpow.simps)
    qed
  qed
  then show ?case by (simp add: walk_Suc del: walk.simps)
qed

lemma walk_page_complete:
  assumes "distinct (map srId (liShapes inp))" and "liPage inp \<notin> srId ` set (liShapes inp)"
  shows "reached (liShapes inp) 31 (liPage inp) (walk_page inp)"
  unfolding walk_page_def
  by (rule walk_complete [OF assms(1) walk_start_inv, of _ _ 0])
     (use assms(2) in \<open>simp_all add: entered_def walk_start_def\<close>)

end
