(* ===== verification/LayoutWf.thy ===== *)
theory LayoutWf
  imports LayoutTree
begin

text \<open>
  The entries of a computed layout. Every pass writes entries of listed shapes only, under their own id;
  after the three passes each listed shape has one. An entry's box is never of negative size, a guess is
  never called verified, and a group is the hull of its members.
\<close>

section \<open>Minima and maxima\<close>

lemma min_of_le: "x \<in> set xs \<Longrightarrow> min_of xs \<le> x"
  by (induction xs rule: min_of.induct) (auto simp: min_le_iff_disj)

lemma max_of_ge: "x \<in> set xs \<Longrightarrow> x \<le> max_of xs"
  by (induction xs rule: max_of.induct) (auto simp: le_max_iff_disj)

lemma max_of_in: "xs \<noteq> [] \<Longrightarrow> max_of xs \<in> set xs"
  by (induction xs rule: max_of.induct) (auto simp: max_def)

lemma min_of_in: "xs \<noteq> [] \<Longrightarrow> min_of xs \<in> set xs"
  by (induction xs rule: min_of.induct) (auto simp: min_def)

lemma min_of_le_max_of: "min_of xs \<le> max_of xs"
proof (cases xs)
  case (Cons x ys)
  have "min_of xs \<le> x" "x \<le> max_of xs" by (auto simp: Cons intro: min_of_le max_of_ge)
  then show ?thesis by linarith
qed simp

definition proper :: "rect \<Rightarrow> bool" where
  "proper r \<longleftrightarrow> 0 \<le> rW r \<and> 0 \<le> rH r"

definition encloses :: "rect \<Rightarrow> rect \<Rightarrow> bool" where
  "encloses a b \<longleftrightarrow> rX a \<le> rX b \<and> rY a \<le> rY b \<and> rectRight b \<le> rectRight a \<and> rectBottom b \<le> rectBottom a"

lemma aabb_proper: "proper (aabb m r)"
  using min_of_le_max_of by (simp add: aabb_def Let_def proper_def del: min_of.simps max_of.simps)

lemma rectUnion_encloses:
  assumes "rectUnion rs = Some u" and "r \<in> set rs"
  shows "encloses u r"
proof -
  from assms(2) have "min_of (map rX rs) \<le> rX r" "min_of (map rY rs) \<le> rY r"
    "rectRight r \<le> max_of (map rectRight rs)" "rectBottom r \<le> max_of (map rectBottom rs)"
    by (auto intro: min_of_le max_of_ge)
  moreover have "u = \<lparr>rX = min_of (map rX rs), rY = min_of (map rY rs),
      rW = max_of (map rectRight rs) - min_of (map rX rs), rH = max_of (map rectBottom rs) - min_of (map rY rs)\<rparr>"
    using assms by (auto simp: rectUnion_def Let_def split: if_splits)
  ultimately show ?thesis by (simp add: encloses_def rectRight_def rectBottom_def)
qed

lemma rectUnion_proper:
  assumes "rectUnion rs = Some u" and "\<forall>r\<in>set rs. proper r"
  shows "proper u"
proof (cases rs)
  case Nil
  with assms(1) show ?thesis by (simp add: rectUnion_def)
next
  case (Cons r rest)
  then have "encloses u r" "proper r" using rectUnion_encloses [OF assms(1)] assms(2) by auto
  then show ?thesis by (auto simp: encloses_def proper_def rectRight_def rectBottom_def)
qed

lemma rectUnion_None: "rectUnion rs = None \<longleftrightarrow> rs = []"
  by (simp add: rectUnion_def Let_def)

section \<open>Entries\<close>

definition entry_ok :: "walk_state \<Rightarrow> shape_record \<Rightarrow> shape_layout \<Rightarrow> bool" where
  "entry_ok st s l \<longleftrightarrow> slId l = srId s \<and> slType l = srType s \<and> slParent l = srParent s \<and> slIndex l = srIndex s \<and>
     slZ l = z_of (wkOrdered st) (srId s) \<and> proper (slBounds l) \<and>
     (slSource l = EstimatedSize \<longrightarrow> slVerification l = Unverified)"

definition entries_ok :: "walk_state \<Rightarrow> layouts \<Rightarrow> bool" where
  "entries_ok st ls \<longleftrightarrow> (\<forall>i l. map_of ls i = Some l \<longrightarrow> (\<exists>s\<in>set (wkOrdered st). srId s = i \<and> entry_ok st s l))"

lemma entries_ok_update:
  assumes "entries_ok st ls" and "s \<in> set (wkOrdered st)" and "entry_ok st s l"
  shows "entries_ok st (AList.update (srId s) l ls)"
  using assms by (auto simp: entries_ok_def js.look_put)

lemma sized_honest: "sizeOf numtext s ms = Some sz \<Longrightarrow> szSource sz = EstimatedSize \<Longrightarrow> szVerification sz = Unverified"
  by (auto simp: sizeOf_def size_geo_def size_measured_def size_note_def size_text_def boxOfPoints_def declared_def
      Let_def split: if_splits option.splits)

lemma place_plain_ok:
  assumes "entries_ok st ls" and "s \<in> set (wkOrdered st)"
  shows "entries_ok st (place_plain numtext inp st s ls)"
proof (cases "srType s = ''arrow'' \<or> srType s = ''group''")
  case True
  with assms(1) show ?thesis by (simp add: place_plain_def)
next
  case False
  define sz where "sz = (case sizeOf numtext s (liMeasurements inp) of Some sz \<Rightarrow> sz | None \<Rightarrow> unknown_size)"
  have "szSource sz = EstimatedSize \<Longrightarrow> szVerification sz = Unverified"
    by (auto simp: sz_def unknown_size_def split: option.splits dest: sized_honest)
  then have "entry_ok st s (make_layout st s sz (matrix_of st (srId s)))"
    by (simp add: entry_ok_def make_layout_def aabb_proper)
  with assms False show ?thesis
    by (simp add: place_plain_def Let_def entries_ok_update flip: sz_def)
qed

lemma place_arrow_ok:
  assumes "entries_ok st ls" and "s \<in> set (wkOrdered st)"
  shows "entries_ok st (place_arrow inp st s ls)"
proof (cases "srType s = ''arrow''")
  case False
  with assms(1) show ?thesis by (simp add: place_arrow_def)
next
  case True
  show ?thesis
    unfolding place_arrow_def Let_def
    using assms True by (simp add: entries_ok_update entry_ok_def proper_def)
qed

definition group_members :: "layout_input \<Rightarrow> shape_record \<Rightarrow> layouts \<Rightarrow> shape_layout list" where
  "group_members inp g ls = List.map_filter (\<lambda>c. map_of ls (srId c)) (children_of (liShapes inp) (srId g))"

lemma weakest_source_estimated: "weakest_source ms = EstimatedSize \<longleftrightarrow> (\<exists>m\<in>set ms. slSource m = EstimatedSize)"
  by (auto simp: weakest_source_def list_ex_iff)

lemma group_members_ok:
  assumes "entries_ok st ls" and "m \<in> set (group_members inp g ls)"
  shows "proper (slBounds m)" and "slSource m = EstimatedSize \<Longrightarrow> slVerification m = Unverified"
proof -
  from assms(2) obtain i where "map_of ls i = Some m" by (auto simp: group_members_def map_filter_def)
  with assms(1) obtain s where "entry_ok st s m" unfolding entries_ok_def by blast
  then show "proper (slBounds m)" and "slSource m = EstimatedSize \<Longrightarrow> slVerification m = Unverified"
    by (simp_all add: entry_ok_def)
qed

lemma place_group_ok:
  assumes "entries_ok st ls" and "g \<in> set (wkOrdered st)" and "srType g = ''group''"
  shows "entries_ok st (place_group inp st g ls)"
proof -
  let ?ms = "group_members inp g ls"
  let ?u = "case rectUnion (map slBounds ?ms) of Some r \<Rightarrow> r
    | None \<Rightarrow> \<lparr>rX = mE (matrix_of st (srId g)), rY = mF (matrix_of st (srId g)), rW = 0, rH = 0\<rparr>"
  have "proper ?u"
    using group_members_ok(1) [OF assms(1)]
    by (auto simp: proper_def [of "rect_ext _ _ _ _ _"] split: option.splits dest!: rectUnion_proper)
  moreover have "\<not> list_all (\<lambda>m. slVerification m = Verified) ?ms" if "weakest_source ?ms = EstimatedSize"
  proof -
    from that obtain m where m: "m \<in> set ?ms" "slSource m = EstimatedSize" by (auto simp: weakest_source_estimated)
    have "slVerification m = Unverified" by (rule group_members_ok(2) [OF assms(1) m])
    with m(1) show ?thesis by (auto simp: list_all_iff intro!: bexI [of _ m])
  qed
  ultimately show ?thesis
    unfolding place_group_def Let_def
    by (intro entries_ok_update [OF assms(1,2)])
       (auto simp add: entry_ok_def assms(3) simp flip: group_members_def)
qed

lemma fold_ok:
  assumes "entries_ok st ls" and "set xs \<subseteq> set (wkOrdered st)"
    and "\<And>s ls. s \<in> set xs \<Longrightarrow> entries_ok st ls \<Longrightarrow> entries_ok st (f s ls)"
  shows "entries_ok st (fold f xs ls)"
  using assms by (induction xs arbitrary: ls) auto

lemma place_all_ok: "entries_ok st (place_all numtext inp st)"
  unfolding place_all_def Let_def
  by (intro fold_ok place_plain_ok place_arrow_ok place_group_ok) (auto simp: entries_ok_def)

section \<open>Every listed shape has an entry\<close>

lemma dom_place:
  "dom (map_of (place_plain numtext inp st s ls)) = dom (map_of ls) \<union>
     (if srType s = ''arrow'' \<or> srType s = ''group'' then {} else {srId s})"
  "dom (map_of (place_arrow inp st s ls)) = dom (map_of ls) \<union> (if srType s = ''arrow'' then {srId s} else {})"
  "dom (map_of (place_group inp st s ls)) = insert (srId s) (dom (map_of ls))"
  by (auto simp: place_plain_def place_arrow_def place_group_def Let_def js.look_put)

lemma dom_fold:
  assumes "\<And>s ls. dom (map_of (f s ls)) = dom (map_of ls) \<union> (if P s then {srId s} else {})"
  shows "dom (map_of (fold f xs ls)) = dom (map_of ls) \<union> srId ` {s \<in> set xs. P s}"
  by (induction xs arbitrary: ls) (auto simp: assms)

lemma place_all_dom: "dom (map_of (place_all numtext inp st)) = srId ` set (wkOrdered st)"
proof -
  have plain: "dom (map_of (fold (place_plain numtext inp st) xs ls)) =
      dom (map_of ls) \<union> srId ` {s \<in> set xs. srType s \<noteq> ''arrow'' \<and> srType s \<noteq> ''group''}" for xs ls
    by (rule dom_fold) (auto simp: dom_place)
  have arrow: "dom (map_of (fold (place_arrow inp st) xs ls)) =
      dom (map_of ls) \<union> srId ` {s \<in> set xs. srType s = ''arrow''}" for xs ls
    by (rule dom_fold) (auto simp: dom_place)
  have group: "dom (map_of (fold (place_group inp st) xs ls)) = dom (map_of ls) \<union> srId ` {s \<in> set xs. True}" for xs ls
    by (rule dom_fold) (auto simp: dom_place)
  show ?thesis by (auto simp: place_all_def Let_def plain arrow group)
qed

lemma place_all_entry:
  assumes "inj_on srId (set (wkOrdered st))" and "s \<in> set (wkOrdered st)"
  shows "\<exists>l. map_of (place_all numtext inp st) (srId s) = Some l \<and> entry_ok st s l"
proof -
  from assms(2) place_all_dom [of numtext inp st] obtain l where l: "map_of (place_all numtext inp st) (srId s) = Some l"
    by (metis domD imageI)
  with place_all_ok [of st numtext inp] obtain s' where "s' \<in> set (wkOrdered st)" "srId s' = srId s" "entry_ok st s' l"
    unfolding entries_ok_def by blast
  with assms have "s' = s" by (auto dest: inj_onD)
  with l \<open>entry_ok st s' l\<close> show ?thesis by blast
qed

section \<open>Groups are hulls\<close>

lemma parent_before:
  assumes "walk_inv page shapes st" and "wkOrdered st = pre @ s # post"
  shows "srParent s \<in> entered page pre"
proof -
  have "length pre < length (wkOrdered st)" by (simp add: assms(2))
  with assms(1) have "srParent (wkOrdered st ! length pre) \<in> entered page (take (length pre) (wkOrdered st))"
    unfolding walk_inv_def by blast
  then show ?thesis by (simp add: assms(2))
qed

lemma walk_distinct: "walk_inv page shapes st \<Longrightarrow> distinct (page # map srId (wkOrdered st))"
  by (simp add: walk_inv_def)

lemma walk_inj: "walk_inv page shapes st \<Longrightarrow> inj_on srId (set (wkOrdered st))"
  by (simp add: walk_inv_def distinct_map)

lemma child_after:
  assumes inv: "walk_inv page shapes st" and split: "wkOrdered st = pre @ g # post"
    and c: "c \<in> set (wkOrdered st)" "srParent c = srId g"
  shows "c \<in> set post"
proof (rule ccontr)
  assume "c \<notin> set post"
  with c(1) have "c \<in> set (pre @ [g])" by (auto simp: split)
  then obtain a b where ab: "pre @ [g] = a @ c # b" by (auto dest: split_list)
  have "wkOrdered st = a @ c # (b @ post)" using ab by (simp add: split)
  from parent_before [OF inv this] have "srId g \<in> entered page a" by (simp add: c(2))
  moreover have "set a \<subseteq> set pre"
    using ab by (cases b rule: rev_cases) auto
  ultimately have "srId g \<in> entered page pre" by (auto simp: entered_def)
  with walk_distinct [OF inv] show False by (auto simp: split entered_def)
qed

definition is_hull :: "walk_state \<Rightarrow> layouts \<Rightarrow> shape_record \<Rightarrow> bool" where
  "is_hull st ls g \<longleftrightarrow> (\<forall>c\<in>set (wkOrdered st). srParent c = srId g \<longrightarrow> (\<exists>eg ec. map_of ls (srId g) = Some eg \<and>
     map_of ls (srId c) = Some ec \<and> encloses (slBounds eg) (slBounds ec)))"

lemma hull_place_other:
  assumes "is_hull st ls d" and "srId g \<noteq> srId d" and "srParent g \<noteq> srId d" and "inj_on srId (set (wkOrdered st))"
    and "g \<in> set (wkOrdered st)"
  shows "is_hull st (place_group inp st g ls) d"
proof -
  have "map_of (place_group inp st g ls) i = map_of ls i" if "i \<noteq> srId g" for i
    using that by (simp add: place_group_def Let_def js.look_put)
  moreover have "srId c \<noteq> srId g" if "c \<in> set (wkOrdered st)" "srParent c = srId d" for c
    using that assms(3-5) by (auto dest: inj_onD)
  ultimately show ?thesis using assms(1,2) by (auto simp: is_hull_def)
qed

lemma hull_place_same:
  assumes "\<And>c. c \<in> set (wkOrdered st) \<Longrightarrow> srParent c = srId g \<Longrightarrow> srId c \<noteq> srId g \<and> srId c \<in> dom (map_of ls)"
    and "set (wkOrdered st) \<subseteq> set (liShapes inp)"
  shows "is_hull st (place_group inp st g ls) g"
  unfolding is_hull_def
proof (intro ballI impI)
  fix c assume c: "c \<in> set (wkOrdered st)" "srParent c = srId g"
  from assms(1) [OF c] obtain ec where ec: "map_of ls (srId c) = Some ec" "srId c \<noteq> srId g" by auto
  let ?ms = "group_members inp g ls"
  from c assms(2) have "c \<in> set (children_of (liShapes inp) (srId g))" by (auto simp: set_children_of)
  with ec(1) have m: "ec \<in> set ?ms" by (force simp: group_members_def map_filter_def)
  then obtain u where u: "rectUnion (map slBounds ?ms) = Some u"
    by (cases "rectUnion (map slBounds ?ms)") (auto simp: rectUnion_None)
  from m have "encloses u (slBounds ec)" by (intro rectUnion_encloses [OF u]) auto
  moreover have "\<exists>eg. map_of (place_group inp st g ls) (srId g) = Some eg \<and> slBounds eg = u"
    using u by (simp add: place_group_def Let_def flip: group_members_def)
  moreover have "map_of (place_group inp st g ls) (srId c) = Some ec"
    using ec by (simp add: place_group_def Let_def js.look_put)
  ultimately show "\<exists>eg ec. map_of (place_group inp st g ls) (srId g) = Some eg \<and>
      map_of (place_group inp st g ls) (srId c) = Some ec \<and> encloses (slBounds eg) (slBounds ec)"
    by blast
qed

lemma groups_hull:
  assumes inv: "walk_inv (liPage inp) (liShapes inp) st" and split: "wkOrdered st = pre @ xs"
    and plain: "\<And>s. s \<in> set (wkOrdered st) \<Longrightarrow> srType s \<noteq> ''group'' \<Longrightarrow> srId s \<in> dom (map_of ls)"
  shows "(\<forall>g\<in>set xs. srType g = ''group'' \<longrightarrow>
      is_hull st (fold (place_group inp st) (rev (filter (\<lambda>s. srType s = ''group'') xs)) ls) g) \<and>
    srId ` set xs \<union> dom (map_of ls) \<subseteq>
      dom (map_of (fold (place_group inp st) (rev (filter (\<lambda>s. srType s = ''group'') xs)) ls))"
  using split
proof (induction xs arbitrary: pre)
  case Nil
  then show ?case by simp
next
  case (Cons g post)
  let ?ls = "fold (place_group inp st) (rev (filter (\<lambda>s. srType s = ''group'') post)) ls"
  have split': "wkOrdered st = (pre @ [g]) @ post" using Cons.prems by simp
  note IH = Cons.IH [OF split']
  have g: "g \<in> set (wkOrdered st)" by (simp add: Cons.prems)
  note inj = walk_inj [OF inv]
  have dist: "distinct (liPage inp # map srId (pre @ g # post))" using walk_distinct [OF inv] by (simp add: Cons.prems)
  show ?case
  proof (cases "srType g = ''group''")
    case False
    with IH plain [OF g] show ?thesis by auto
  next
    case True
    have others: "is_hull st (place_group inp st g ?ls) d" if "d \<in> set post" "srType d = ''group''" for d
    proof -
      have "srParent g \<in> entered (liPage inp) pre" by (rule parent_before [OF inv Cons.prems])
      then have "srParent g \<noteq> srId d" using dist that(1) by (auto simp: entered_def)
      moreover have "srId d \<in> srId ` set post" using that(1) by (rule imageI)
      then have "srId g \<noteq> srId d" using dist by auto
      moreover have "is_hull st ?ls d" using IH that by blast
      ultimately show ?thesis by (intro hull_place_other inj g)
    qed
    have "is_hull st (place_group inp st g ?ls) g"
    proof (rule hull_place_same)
      fix c assume c: "c \<in> set (wkOrdered st)" "srParent c = srId g"
      from child_after [OF inv Cons.prems c] have post: "c \<in> set post" .
      then have "srId c \<in> srId ` set post" by (rule imageI)
      with dist have "srId c \<noteq> srId g" by auto
      with post IH show "srId c \<noteq> srId g \<and> srId c \<in> dom (map_of ?ls)" by blast
    next
      show "set (wkOrdered st) \<subseteq> set (liShapes inp)" using inv by (simp add: walk_inv_def)
    qed
    with others IH True show ?thesis by (auto simp: dom_place)
  qed
qed

lemma place_all_hull:
  assumes "walk_inv (liPage inp) (liShapes inp) st" and "g \<in> set (wkOrdered st)" and "srType g = ''group''"
  shows "is_hull st (place_all numtext inp st) g"
proof -
  let ?plain = "fold (place_plain numtext inp st) (wkOrdered st) []"
  let ?ls = "fold (place_arrow inp st) (wkOrdered st) ?plain"
  have "srId s \<in> dom (map_of ?ls)" if s: "s \<in> set (wkOrdered st)" "srType s \<noteq> ''group''" for s
  proof -
    have plain: "dom (map_of (fold (place_plain numtext inp st) xs ls)) =
        dom (map_of ls) \<union> srId ` {s \<in> set xs. srType s \<noteq> ''arrow'' \<and> srType s \<noteq> ''group''}" for xs ls
      by (rule dom_fold) (auto simp: dom_place)
    have arrow: "dom (map_of (fold (place_arrow inp st) xs ls)) =
        dom (map_of ls) \<union> srId ` {s \<in> set xs. srType s = ''arrow''}" for xs ls
      by (rule dom_fold) (auto simp: dom_place)
    from s show ?thesis by (cases "srType s = ''arrow''") (auto simp: plain arrow)
  qed
  from groups_hull [OF assms(1) _ this, of "[]" "wkOrdered st"] assms(2,3)
  show ?thesis by (simp add: place_all_def Let_def)
qed

end
