(* ===== verification/LayoutSlide.thy ===== *)
theory LayoutSlide
  imports LayoutEngine LayoutWf
begin

text \<open>
  \<open>slideClear\<close>. Every iteration passes for good at least the blocker that ends furthest among those it
  hits, so as many iterations as there are blockers ahead are enough; and every position it jumps over is
  too close to that blocker, so the position it stops at is the first clear one.
\<close>

definition along :: "axis \<Rightarrow> point \<Rightarrow> real" where
  "along ax p = (case ax of AxisX \<Rightarrow> pX p | AxisY \<Rightarrow> pY p)"

definition at_along :: "axis \<Rightarrow> real \<Rightarrow> point \<Rightarrow> point" where
  "at_along ax t p = (case ax of AxisX \<Rightarrow> p\<lparr>pX := t\<rparr> | AxisY \<Rightarrow> p\<lparr>pY := t\<rparr>)"

definition far :: "axis \<Rightarrow> blocker \<Rightarrow> real" where
  "far ax b = (case ax of AxisX \<Rightarrow> rectRight (bkRect b) | AxisY \<Rightarrow> rectBottom (bkRect b))"

definition stop_of :: "slid \<Rightarrow> point" where
  "stop_of s = \<lparr>pX = sdX s, pY = sdY s\<rparr>"

lemma along_at [simp]: "along ax (at_along ax t p) = t"
  by (cases ax) (simp_all add: along_def at_along_def)

lemma at_at [simp]: "at_along ax t (at_along ax u p) = at_along ax t p"
  by (cases ax) (simp_all add: at_along_def)

lemma at_self [simp]: "at_along ax (along ax p) p = p"
  by (cases ax) (simp_all add: at_along_def along_def)

definition ahead :: "axis \<Rightarrow> real \<Rightarrow> blocker list \<Rightarrow> point \<Rightarrow> blocker list" where
  "ahead ax gap blockers p = filter (\<lambda>b. along ax p < far ax b + gap) blockers"

lemma past_hits_eq: "past_hits ax gap hits p = at_along ax (max_of (map (far ax) hits) + gap) p"
  by (cases ax) (simp_all add: past_hits_def at_along_def far_def [abs_def])

lemma hit_ahead: "b \<in> set (hits_at blockers w h gap p) \<Longrightarrow> along ax p < far ax b + gap"
  by (cases ax) (auto simp: hits_at_def rectsCloserThan_def along_def far_def)

lemma hit_while_ahead:
  assumes "b \<in> set (hits_at blockers w h gap p)" and "along ax p \<le> t" and "t < far ax b + gap"
  shows "b \<in> set (hits_at blockers w h gap (at_along ax t p))"
  using assms
  by (cases ax) (auto simp: hits_at_def rectsCloserThan_def along_def at_along_def far_def rectRight_def rectBottom_def)

lemma filter_shrinks:
  fixes a c :: real
  assumes "a < c" and "b \<in> set bs" and "a < f b" and "f b \<le> c"
  shows "length (filter (\<lambda>b. c < f b) bs) < length (filter (\<lambda>b. a < f b) bs)"
proof -
  have "filter (\<lambda>b. c < f b) bs = filter (\<lambda>b. c < f b) (filter (\<lambda>b. a < f b) bs)"
    using assms(1) by (auto intro: filter_cong)
  also have "length \<dots> < length (filter (\<lambda>b. a < f b) bs)"
    by (rule length_filter_less [of b]) (use assms in auto)
  finally show ?thesis .
qed

lemma slide_step:
  assumes "hits_at blockers w h gap p \<noteq> []" (is "?hits \<noteq> []")
  shows "along ax p < along ax (past_hits ax gap ?hits p)"
    and "along ax p \<le> t \<Longrightarrow> t < along ax (past_hits ax gap ?hits p) \<Longrightarrow> hits_at blockers w h gap (at_along ax t p) \<noteq> []"
    and "length (ahead ax gap blockers (past_hits ax gap ?hits p)) < length (ahead ax gap blockers p)"
proof -
  have "max_of (map (far ax) ?hits) \<in> far ax ` set ?hits" using max_of_in [of "map (far ax) ?hits"] assms by simp
  then obtain b where b: "b \<in> set ?hits" "max_of (map (far ax) ?hits) = far ax b" by auto
  then have stop: "past_hits ax gap ?hits p = at_along ax (far ax b + gap) p" by (simp add: past_hits_eq)
  show up: "along ax p < along ax (past_hits ax gap ?hits p)" using hit_ahead [OF b(1)] by (simp add: stop)
  show "hits_at blockers w h gap (at_along ax t p) \<noteq> []"
    if "along ax p \<le> t" "t < along ax (past_hits ax gap ?hits p)"
    using hit_while_ahead [OF b(1) that(1)] that(2) by (auto simp: stop)
  have "b \<in> set blockers" using b(1) by (simp add: hits_at_def)
  then show "length (ahead ax gap blockers (past_hits ax gap ?hits p)) < length (ahead ax gap blockers p)"
    unfolding ahead_def
    by (rule filter_shrinks [OF up, of b]) (use hit_ahead [OF b(1), of ax] in \<open>simp_all add: stop\<close>)
qed

lemma no_hits_behind: "ahead ax gap blockers p = [] \<Longrightarrow> hits_at blockers w h gap p = []"
  using hit_ahead [of _ blockers w h gap p ax]
  by (metis ahead_def filter_empty_conv hits_at_def list.set_intros(1) filter_is_subset neq_Nil_conv subsetD)

lemma slide_loop_clear:
  assumes "length (ahead ax gap blockers p) \<le> n" and "p = start \<Longrightarrow> 0 < n" and "along ax start \<le> along ax p"
  shows "\<exists>t. along ax p \<le> t \<and> stop_of (slide_loop n blockers w h start ax gap p) = at_along ax t p \<and>
    hits_at blockers w h gap (at_along ax t p) = [] \<and>
    (\<forall>u. along ax p \<le> u \<and> u < t \<longrightarrow> hits_at blockers w h gap (at_along ax u p) \<noteq> []) \<and>
    sdMoved (slide_loop n blockers w h start ax gap p) = (at_along ax t p \<noteq> start)"
  using assms
proof (induction n arbitrary: p)
  case 0
  then have "hits_at blockers w h gap p = []" by (intro no_hits_behind) simp
  with 0 show ?case by (intro exI [of _ "along ax p"]) (auto simp: stop_of_def)
next
  case (Suc n)
  show ?case
  proof (cases "hits_at blockers w h gap p = []")
    case True
    then show ?thesis
      by (intro exI [of _ "along ax p"]) (auto simp: stop_of_def)
  next
    case False
    let ?q = "past_hits ax gap (hits_at blockers w h gap p) p"
    note step = slide_step [OF False, of ax]
    have "length (ahead ax gap blockers ?q) \<le> n" using step(3) Suc.prems(1) by linarith
    moreover have "?q \<noteq> start" using step(1) Suc.prems(3) by auto
    moreover have "along ax start \<le> along ax ?q" using step(1) Suc.prems(3) by linarith
    ultimately obtain t where t: "along ax ?q \<le> t" "stop_of (slide_loop n blockers w h start ax gap ?q) = at_along ax t ?q"
      "hits_at blockers w h gap (at_along ax t ?q) = []"
      "\<And>u. along ax ?q \<le> u \<Longrightarrow> u < t \<Longrightarrow> hits_at blockers w h gap (at_along ax u ?q) \<noteq> []"
      "sdMoved (slide_loop n blockers w h start ax gap ?q) = (at_along ax t ?q \<noteq> start)"
      using Suc.IH by blast
    have same: "at_along ax u ?q = at_along ax u p" for u by (simp add: past_hits_eq)
    have "hits_at blockers w h gap (at_along ax u p) \<noteq> []" if "along ax p \<le> u" "u < t" for u
    proof (cases "u < along ax ?q")
      case True
      then show ?thesis by (rule step(2) [OF that(1)])
    next
      case False
      with t(4) [of u] that(2) show ?thesis by (simp add: same)
    qed
    with t step(1) False show ?thesis by (intro exI [of _ t]) (auto simp: same Let_def)
  qed
qed

lemma slideClear_clear:
  assumes "length blockers \<le> 500"
  shows "\<exists>t. along ax start \<le> t \<and> stop_of (slideClear blockers w h start ax gap) = at_along ax t start \<and>
    hits_at blockers w h gap (at_along ax t start) = [] \<and>
    (\<forall>u. along ax start \<le> u \<and> u < t \<longrightarrow> hits_at blockers w h gap (at_along ax u start) \<noteq> []) \<and>
    sdMoved (slideClear blockers w h start ax gap) = (at_along ax t start \<noteq> start)"
proof -
  have "length (ahead ax gap blockers start) \<le> 500"
    unfolding ahead_def by (rule order.trans [OF length_filter_le assms])
  then show ?thesis unfolding slideClear_def by (intro slide_loop_clear) simp_all
qed

section \<open>The cap\<close>

text \<open>A staircase of unit blockers, each of which is hit exactly when its predecessor has been passed.\<close>

definition staircase :: "nat \<Rightarrow> blocker list" where
  "staircase n = map (\<lambda>k. \<lparr>bkId = [], bkRect = \<lparr>rX = 0, rY = real k, rW = 1, rH = 1\<rparr>\<rparr>) [0..<n]"

lemma staircase_hits:
  assumes "k < n"
  shows "hits_at (staircase n) 1 1 0 \<lparr>pX = 0, pY = real k\<rparr> =
     [\<lparr>bkId = [], bkRect = \<lparr>rX = 0, rY = real k, rW = 1, rH = 1\<rparr>\<rparr>]"
proof -
  have "filter (\<lambda>j. real k < real j + 1 \<and> real j < real k + 1) [0..<n] = [k]"
  proof -
    have split: "[0..<n] = [0..<k] @ k # [Suc k..<n]"
      using assms upt_add_eq_append [of 0 k "n - k"] by (simp add: upt_conv_Cons)
    have "(real k < real j + 1 \<and> real j < real k + 1) = (j = k)" for j by linarith
    then have "filter (\<lambda>j. real k < real j + 1 \<and> real j < real k + 1) [0..<n] = filter (\<lambda>j. j = k) [0..<n]" by simp
    also have "\<dots> = [k]" unfolding split by (simp add: filter_empty_conv)
    finally show ?thesis .
  qed
  then show ?thesis
    by (simp add: hits_at_def staircase_def filter_map comp_def rectsCloserThan_def rectRight_def rectBottom_def)
qed

lemma staircase_slide:
  assumes "k + n \<le> m"
  shows "slide_loop n (staircase m) 1 1 \<lparr>pX = 0, pY = 0\<rparr> AxisY 0 \<lparr>pX = 0, pY = real k\<rparr> =
    \<lparr>sdX = 0, sdY = real (k + n), sdMoved = True\<rparr>"
  using assms
proof (induction n arbitrary: k)
  case 0
  then show ?case by simp
next
  case (Suc n)
  then have "k < m" by simp
  then have "slide_loop (Suc n) (staircase m) 1 1 \<lparr>pX = 0, pY = 0\<rparr> AxisY 0 \<lparr>pX = 0, pY = real k\<rparr> =
      slide_loop n (staircase m) 1 1 \<lparr>pX = 0, pY = 0\<rparr> AxisY 0 \<lparr>pX = 0, pY = real (Suc k)\<rparr>"
    by (simp add: staircase_hits past_hits_def rectBottom_def add.commute)
  with Suc.IH [of "Suc k"] Suc.prems show ?case by simp
qed

text \<open>One blocker more than the cap, and the position answered is not clear.\<close>

lemma cap_reached:
  "slideClear (staircase 501) 1 1 \<lparr>pX = 0, pY = 0\<rparr> AxisY 0 = \<lparr>sdX = 0, sdY = 500, sdMoved = True\<rparr>"
  "hits_at (staircase 501) 1 1 0 \<lparr>pX = 0, pY = 500\<rparr> \<noteq> []"
  using staircase_slide [of 0 500 501] staircase_hits [of 500 501] by (simp_all add: slideClear_def del: slide_loop.simps)

end
