(* ===== verification/LayoutContain.thy ===== *)
theory LayoutContain
  imports LayoutWf
begin

text \<open>
  The finished page layout: its lists and maps describe one tree, and the depth-limited searches for the
  descendants and the ancestors of a shape are exact on it.
\<close>

section \<open>The layout and the walk\<close>

lemma shapes_of_walk:
  assumes "walk_inv page shapes st"
  shows "List.map_filter (\<lambda>s. map_of (place_all numtext inp st) (srId s)) (wkOrdered st) =
      map (\<lambda>s. the (map_of (place_all numtext inp st) (srId s))) (wkOrdered st)"
    and "s \<in> set (wkOrdered st) \<Longrightarrow> entry_ok st s (the (map_of (place_all numtext inp st) (srId s)))"
proof -
  have entry: "\<exists>l. map_of (place_all numtext inp st) (srId s) = Some l \<and> entry_ok st s l"
    if "s \<in> set (wkOrdered st)" for s
    by (rule place_all_entry [OF walk_inj [OF assms] that])
  then have "filter (\<lambda>s. map_of (place_all numtext inp st) (srId s) \<noteq> None) (wkOrdered st) = wkOrdered st"
    by (auto simp: filter_id_conv)
  then show "List.map_filter (\<lambda>s. map_of (place_all numtext inp st) (srId s)) (wkOrdered st) =
      map (\<lambda>s. the (map_of (place_all numtext inp st) (srId s))) (wkOrdered st)"
    by (simp add: map_filter_def comp_def)
  show "s \<in> set (wkOrdered st) \<Longrightarrow> entry_ok st s (the (map_of (place_all numtext inp st) (srId s)))"
    using entry by fastforce
qed

definition walked :: "layout_input \<Rightarrow> shape_record list" where
  "walked inp = wkOrdered (walk_page inp)"

lemma plShapes_compute:
  "\<exists>f. plShapes (computeLayout numtext inp) = map f (walked inp) \<and> (\<forall>s\<in>set (walked inp).
     f s = the (map_of (place_all numtext inp (walk_page inp)) (srId s)) \<and> entry_ok (walk_page inp) s (f s))"
  by (intro exI [of _ "\<lambda>s. the (map_of (place_all numtext inp (walk_page inp)) (srId s))"])
     (simp add: computeLayout_def Let_def walked_def shapes_of_walk [OF walk_page_inv])

lemma plShapes_ids:
  "map slId (plShapes (computeLayout numtext inp)) = map srId (walked inp)"
  "map slParent (plShapes (computeLayout numtext inp)) = map srParent (walked inp)"
proof -
  obtain f where f: "plShapes (computeLayout numtext inp) = map f (walked inp)"
    "\<And>s. s \<in> set (walked inp) \<Longrightarrow> entry_ok (walk_page inp) s (f s)"
    using plShapes_compute [of numtext inp] by blast
  show "map slId (plShapes (computeLayout numtext inp)) = map srId (walked inp)"
    and "map slParent (plShapes (computeLayout numtext inp)) = map srParent (walked inp)"
    using f by (auto simp: entry_ok_def)
qed

lemma walked_distinct: "distinct (liPage inp # map srId (walked inp))"
  using walk_distinct [OF walk_page_inv] by (simp add: walked_def)

lemma look_push_child:
  "map_of (push_child s m) p = (if srParent s = p
     then Some ((case map_of m p of Some old \<Rightarrow> old | None \<Rightarrow> []) @ [srId s]) else map_of m p)"
  by (simp add: push_child_def js.look_put)

lemma push_children:
  "map_of (fold push_child xs m) p = (case map srId (filter (\<lambda>s. srParent s = p) xs) of [] \<Rightarrow> map_of m p
     | ids \<Rightarrow> Some ((case map_of m p of Some old \<Rightarrow> old | None \<Rightarrow> []) @ ids))"
proof (induction xs arbitrary: m)
  case Nil
  then show ?case by simp
next
  case (Cons s xs)
  show ?case
    by (simp add: Cons.IH look_push_child split: list.splits option.splits)
qed

lemma child_ids_compute:
  "child_ids (computeLayout numtext inp) p = map srId (filter (\<lambda>s. srParent s = p) (walked inp))"
  by (simp add: child_ids_def computeLayout_def Let_def push_children walked_def split: list.splits option.splits)

section \<open>A well-formed layout\<close>

definition contained_in :: "page_layout \<Rightarrow> (string \<times> string) set" where
  "contained_in l = (\<lambda>s. (slId s, slParent s)) ` set (plShapes l)"

definition layout_wf :: "page_layout \<Rightarrow> bool" where
  "layout_wf l \<longleftrightarrow>
     distinct (plPage l # map slId (plShapes l)) \<and>
     map_of (plById l) = map_of (map (\<lambda>s. (slId s, s)) (plShapes l)) \<and>
     (\<forall>p. child_ids l p = map slId (filter (\<lambda>s. slParent s = p) (plShapes l))) \<and>
     (\<forall>k<length (plShapes l). slZ (plShapes l ! k) = k \<and>
        slParent (plShapes l ! k) \<in> insert (plPage l) (slId ` set (take k (plShapes l)))) \<and>
     (\<forall>s\<in>set (plShapes l). proper (slBounds s) \<and>
        (slSource s = EstimatedSize \<longrightarrow> slVerification s = Unverified) \<and>
        (slType s = ''group'' \<longrightarrow> (\<forall>c\<in>set (plShapes l). slParent c = slId s \<longrightarrow> encloses (slBounds s) (slBounds c))))"

lemma z_of_nth:
  assumes "distinct (map srId xs)" and "k < length xs"
  shows "z_of xs (srId (xs ! k)) = k"
proof -
  have "map_of (map_of_entries (zip (map srId xs) [0..<length xs])) = map_of (zip (map srId xs) [0..<length xs])"
    by (rule map_of_entries_look) (simp add: assms(1))
  moreover have "map_of (zip (map srId xs) [0..<length xs]) (srId (xs ! k)) = Some k"
    using map_of_zip_nth [of "map srId xs" "[0..<length xs]" k] assms by simp
  ultimately show ?thesis by (simp add: z_of_def)
qed

lemma contained_in_compute: "contained_in (computeLayout numtext inp) = parent_rel (walked inp)"
proof -
  have "contained_in l = set (zip (map slId (plShapes l)) (map slParent (plShapes l)))" for l
    by (simp add: contained_in_def zip_map_map zip_same_conv_map image_image)
  moreover have "parent_rel xs = set (zip (map srId xs) (map srParent xs))" for xs
    by (simp add: parent_rel_def zip_map_map zip_same_conv_map image_image)
  ultimately show ?thesis by (simp only: plShapes_ids)
qed

lemma computeLayout_wf: "layout_wf (computeLayout numtext inp)"
proof -
  let ?l = "computeLayout numtext inp" and ?st = "walk_page inp" and ?xs = "walked inp"
  let ?ls = "place_all numtext inp ?st"
  obtain f where f: "plShapes ?l = map f ?xs" "\<And>s. s \<in> set ?xs \<Longrightarrow> f s = the (map_of ?ls (srId s))"
    "\<And>s. s \<in> set ?xs \<Longrightarrow> entry_ok ?st s (f s)"
    using plShapes_compute [of numtext inp] by blast
  have page: "plPage ?l = liPage inp" by (simp add: computeLayout_def Let_def)
  have dist: "distinct (plPage ?l # map slId (plShapes ?l))"
    using walked_distinct by (simp add: page plShapes_ids)
  have ids: "slId (f s) = srId s" "slParent (f s) = srParent s" "slType (f s) = srType s"
    "slZ (f s) = z_of ?xs (srId s)" "proper (slBounds (f s))"
    "slSource (f s) = EstimatedSize \<Longrightarrow> slVerification (f s) = Unverified" if "s \<in> set ?xs" for s
    using f(3) [OF that] by (simp_all add: entry_ok_def walked_def)
  have "plById ?l = map_of_entries (map (\<lambda>s. (slId s, s)) (plShapes ?l))"
    by (simp add: computeLayout_def Let_def)
  moreover have "distinct (map fst (map (\<lambda>s. (slId s, s)) (plShapes ?l)))" using dist by (simp add: comp_def)
  ultimately have byId: "map_of (plById ?l) = map_of (map (\<lambda>s. (slId s, s)) (plShapes ?l))"
    by (simp only: map_of_entries_look)
  have kids: "child_ids ?l p = map slId (filter (\<lambda>s. slParent s = p) (plShapes ?l))" for p
    unfolding child_ids_compute f(1) using ids by (simp add: filter_map comp_def cong: filter_cong)
  have order: "slZ (plShapes ?l ! k) = k \<and> slParent (plShapes ?l ! k) \<in> insert (plPage ?l) (slId ` set (take k (plShapes ?l)))"
    if "k < length (plShapes ?l)" for k
  proof -
    from that have k: "k < length ?xs" "?xs ! k \<in> set ?xs" by (simp_all add: f(1))
    have "srParent (?xs ! k) \<in> entered (liPage inp) (take k ?xs)"
      using walk_page_inv [of inp] k(1) unfolding walk_inv_def walked_def by blast
    moreover have "slId ` set (take k (plShapes ?l)) = srId ` set (take k ?xs)"
      using arg_cong [OF plShapes_ids(1) [of numtext inp], of "\<lambda>ids. set (take k ids)"] by (simp add: take_map)
    ultimately show ?thesis
      using k ids z_of_nth [of ?xs k] walked_distinct [of inp] by (simp add: f(1) page entered_def)
  qed
  have "encloses (slBounds (f g)) (slBounds (f c))" if "g \<in> set ?xs" "srType g = ''group''" "c \<in> set ?xs" "srParent c = srId g" for g c
  proof -
    from place_all_hull [OF walk_page_inv, of g inp numtext] that
    have "is_hull ?st ?ls g" by (simp add: walked_def)
    with that show ?thesis by (auto simp: is_hull_def f(2) walked_def)
  qed
  then have "\<forall>s\<in>set (plShapes ?l). proper (slBounds s) \<and> (slSource s = EstimatedSize \<longrightarrow> slVerification s = Unverified) \<and>
      (slType s = ''group'' \<longrightarrow> (\<forall>c\<in>set (plShapes ?l). slParent c = slId s \<longrightarrow> encloses (slBounds s) (slBounds c)))"
    using ids by (simp add: f(1))
  with dist byId kids order show ?thesis unfolding layout_wf_def by blast
qed

section \<open>Containment\<close>

lemma walked_functional: "single_valued (parent_rel (walked inp))"
  using walk_inj [OF walk_page_inv [of inp]]
  by (auto simp: single_valued_def parent_rel_def walked_def dest: inj_onD)

lemma single_valued_relpow:
  fixes r :: "('a \<times> 'a) set"
  assumes "single_valued r" and "(x, y) \<in> r ^^ n" and "(x, z) \<in> r ^^ n"
  shows "y = z"
  using assms(2,3)
proof (induction n arbitrary: y z)
  case 0
  then show ?case by simp
next
  case (Suc n)
  then obtain u v where "(x, u) \<in> r ^^ n" "(u, y) \<in> r" "(x, v) \<in> r ^^ n" "(v, z) \<in> r" by auto
  with Suc.IH [of u v] assms(1) show ?case by (auto dest: single_valuedD)
qed

text \<open>Every path upwards from a listed shape is a beginning of its path to the page, of at most 31 steps.\<close>

lemma path_bounded:
  assumes "(i, a) \<in> parent_rel (walked inp) ^^ k" and "0 < k"
  shows "k \<le> 31" and "k = 31 \<Longrightarrow> a = liPage inp"
proof -
  let ?r = "parent_rel (walked inp)"
  from assms obtain b where "(i, b) \<in> ?r" by (cases k) (auto dest: relpow_Suc_D2 simp del: relpow.simps(2))
  then obtain s where s: "s \<in> set (walked inp)" "srId s = i" by (rule parent_relE)
  then obtain n where n: "n \<le> 31" "(i, liPage inp) \<in> ?r ^^ n"
    using walk_page_inv [of inp] unfolding walk_inv_def walked_def by blast
  have top: "(liPage inp, x) \<notin> ?r" for x
    using walked_distinct [of inp] by (auto simp: parent_rel_def)
  show "k \<le> 31"
  proof (rule ccontr)
    assume "\<not> k \<le> 31"
    then obtain j where j: "k = n + Suc j" using n(1) by (metis add_Suc_right less_imp_Suc_add not_le order_le_less_trans)
    from assms(1) obtain y where y: "(i, y) \<in> ?r ^^ n" "(y, a) \<in> ?r ^^ Suc j"
      unfolding j relpow_add by auto
    have "y = liPage inp" by (rule single_valued_relpow [OF walked_functional y(1) n(2)])
    with y(2) top show False by (auto dest!: relpow_Suc_D2 simp del: relpow.simps(2))
  qed
  show "a = liPage inp" if "k = 31"
  proof (cases "n = 31")
    case True
    with that assms(1) n(2) show ?thesis by (auto intro: single_valued_relpow [OF walked_functional])
  next
    case False
    with n(1) that obtain j where j: "k = n + Suc j" by (metis less_imp_Suc_add le_neq_implies_less add_Suc_right)
    from assms(1) obtain y where y: "(i, y) \<in> ?r ^^ n" "(y, a) \<in> ?r ^^ Suc j"
      unfolding j relpow_add by auto
    have "y = liPage inp" by (rule single_valued_relpow [OF walked_functional y(1) n(2)])
    with y(2) top show ?thesis by (auto dest!: relpow_Suc_D2 simp del: relpow.simps(2))
  qed
qed

lemma visit_exact:
  "set (visit levels (computeLayout numtext inp) p) =
     {d. \<exists>k. 0 < k \<and> k \<le> levels \<and> (d, p) \<in> parent_rel (walked inp) ^^ k}"
proof (induction levels arbitrary: p)
  case 0
  then show ?case by auto
next
  case (Suc levels)
  let ?r = "parent_rel (walked inp)"
  have kids: "set (child_ids (computeLayout numtext inp) p) = {c. (c, p) \<in> ?r}"
    by (auto simp: child_ids_compute parent_rel_def)
  have "(\<exists>k. 0 < k \<and> k \<le> Suc levels \<and> (d, p) \<in> ?r ^^ k) \<longleftrightarrow>
      (\<exists>c. (c, p) \<in> ?r \<and> (d = c \<or> (\<exists>k. 0 < k \<and> k \<le> levels \<and> (d, c) \<in> ?r ^^ k)))" for d
  proof
    assume "\<exists>k. 0 < k \<and> k \<le> Suc levels \<and> (d, p) \<in> ?r ^^ k"
    then obtain k c where "k \<le> levels" "(d, c) \<in> ?r ^^ k" "(c, p) \<in> ?r" by (auto elim!: lessE simp: gr0_conv_Suc)
    then show "\<exists>c. (c, p) \<in> ?r \<and> (d = c \<or> (\<exists>k. 0 < k \<and> k \<le> levels \<and> (d, c) \<in> ?r ^^ k))"
      by (cases k) (auto simp del: relpow.simps(2))
  next
    assume "\<exists>c. (c, p) \<in> ?r \<and> (d = c \<or> (\<exists>k. 0 < k \<and> k \<le> levels \<and> (d, c) \<in> ?r ^^ k))"
    then obtain c where c: "(c, p) \<in> ?r" "d = c \<or> (\<exists>k. 0 < k \<and> k \<le> levels \<and> (d, c) \<in> ?r ^^ k)" by blast
    then obtain k where "k \<le> levels" "(d, c) \<in> ?r ^^ k" by (auto intro: relpow_0_I)
    with c(1) have "Suc k \<le> Suc levels" "(d, p) \<in> ?r ^^ Suc k" by auto
    then show "\<exists>k. 0 < k \<and> k \<le> Suc levels \<and> (d, p) \<in> ?r ^^ k" by blast
  qed
  then show ?case by (auto simp: kids Suc.IH)
qed

lemma descendants_exact:
  "set (descendantsOf (computeLayout numtext inp) i) = {d. (d, i) \<in> (contained_in (computeLayout numtext inp))\<^sup>+}"
  using path_bounded(1) by (auto simp: descendantsOf_def visit_exact contained_in_compute trancl_power)

lemma climb_exact:
  assumes "l = computeLayout numtext inp"
  shows "set (climb steps l (map_of (plById l) i)) =
     {a. a \<noteq> liPage inp \<and> (\<exists>k. 0 < k \<and> k \<le> steps \<and> (i, a) \<in> parent_rel (walked inp) ^^ k)}"
proof (induction steps arbitrary: i)
  case 0
  then show ?case by auto
next
  case (Suc steps)
  let ?r = "parent_rel (walked inp)"
  have page: "plPage l = liPage inp" by (simp add: assms computeLayout_def Let_def)
  have wf: "distinct (map slId (plShapes l))" "map_of (plById l) = map_of (map (\<lambda>s. (slId s, s)) (plShapes l))"
    using computeLayout_wf [of numtext inp] by (simp_all add: layout_wf_def flip: assms)
  have rel: "?r = contained_in l" by (simp add: assms contained_in_compute)
  show ?case
  proof (cases "map_of (plById l) i")
    case None
    then have "(i, b) \<notin> ?r" for b by (force simp: rel contained_in_def wf(2) map_of_eq_None_iff)
    then have "(i, a) \<notin> ?r ^^ k" if "0 < k" for a k using that by (cases k) (auto dest!: relpow_Suc_D2 simp del: relpow.simps(2))
    with None show ?thesis by auto
  next
    case (Some s)
    then have s: "s \<in> set (plShapes l)" "slId s = i" by (auto simp: wf(2) dest!: map_of_SomeD)
    then have up: "(i, slParent s) \<in> ?r" by (auto simp: rel contained_in_def)
    have uniq: "b = slParent s" if "(i, b) \<in> ?r" for b
      using up that walked_functional [of inp] by (auto dest: single_valuedD)
    have path: "(i, a) \<in> ?r ^^ Suc k \<longleftrightarrow> (slParent s, a) \<in> ?r ^^ k" for a k
    proof
      assume "(i, a) \<in> ?r ^^ Suc k"
      then obtain b where "(i, b) \<in> ?r" "(b, a) \<in> ?r ^^ k" by (rule relpow_Suc_E2) 
      with uniq show "(slParent s, a) \<in> ?r ^^ k" by blast
    next
      assume "(slParent s, a) \<in> ?r ^^ k"
      with up show "(i, a) \<in> ?r ^^ Suc k" by (rule relpow_Suc_I2)
    qed
    have "(\<exists>k. 0 < k \<and> k \<le> Suc steps \<and> (i, a) \<in> ?r ^^ k) \<longleftrightarrow>
        a = slParent s \<or> (\<exists>k. 0 < k \<and> k \<le> steps \<and> (slParent s, a) \<in> ?r ^^ k)" for a
    proof
      assume "\<exists>k. 0 < k \<and> k \<le> Suc steps \<and> (i, a) \<in> ?r ^^ k"
      then obtain k where "k \<le> steps" "(i, a) \<in> ?r ^^ Suc k" by (auto simp: gr0_conv_Suc simp del: relpow.simps(2))
      then show "a = slParent s \<or> (\<exists>k. 0 < k \<and> k \<le> steps \<and> (slParent s, a) \<in> ?r ^^ k)"
        unfolding path by (cases k) (auto simp del: relpow.simps(2))
    next
      assume "a = slParent s \<or> (\<exists>k. 0 < k \<and> k \<le> steps \<and> (slParent s, a) \<in> ?r ^^ k)"
      then obtain k where "k \<le> steps" "(slParent s, a) \<in> ?r ^^ k" by (auto intro: relpow_0_I)
      with path [of a k] show "\<exists>k. 0 < k \<and> k \<le> Suc steps \<and> (i, a) \<in> ?r ^^ k" by (intro exI [of _ "Suc k"]) simp
    qed
    moreover have "(slParent s, a) \<notin> ?r ^^ k" if "slParent s = liPage inp" "0 < k" for a k
      using that walked_distinct [of inp] by (cases k) (auto simp: parent_rel_def simp del: relpow.simps(2) dest!: relpow_Suc_D2)
    ultimately show ?thesis by (auto simp: Some page Suc.IH)
  qed
qed

lemma ancestors_exact:
  "set (ancestorsOf (computeLayout numtext inp) i) =
     {a. a \<noteq> liPage inp \<and> (i, a) \<in> (contained_in (computeLayout numtext inp))\<^sup>+}"
proof -
  have "k \<le> 30" if "0 < k" "(i, a) \<in> parent_rel (walked inp) ^^ k" "a \<noteq> liPage inp" for k a
    using path_bounded [OF that(2,1)] that(3) by (cases "k = 31") auto
  then show ?thesis
    by (auto simp: ancestorsOf_def climb_exact [OF refl] contained_in_compute trancl_power)
qed

end
