(* ===== verification/LayoutVerify.thy ===== *)
theory LayoutVerify
  imports LayoutEngine
begin

text \<open>
  \<open>verifyLayout\<close> of \<open>shared/layout-engine.ts\<close>: what a recomputed layout says about the shapes a layout
  action touched. \<open>Math.round\<close> is the floor of the half-shifted value. When none of the ids of an alignment
  check is on the page the source computes minus infinity, which its JSON reply prints as \<open>null\<close>: here the
  deviation is absent.
\<close>

datatype unverified_reason = Estimated | LabelMayOverflow | MeasurementStale

datatype verification_status = AllVerified | PartiallyUnverified | Overlaps

record verified_item =
  viId :: string
  viType :: string
  viBounds :: rect
  viSource :: bounds_source
  viVerification :: verification

record expectation =
  exPairs :: "(string \<times> string) list"
  exRequestedGap :: "real option"
  exAlignAxis :: "align_axis option"
  exAlignIds :: "string list option"

record layout_verification =
  lvStatus :: verification_status
  lvItems :: "verified_item list"
  lvOverlaps :: "(string \<times> string \<times> int) list"
  lvTooClose :: "(string \<times> string \<times> real) list"
  lvMinimum :: "real option"
  lvSpacingOk :: bool
  lvDeviation :: "real option"
  lvAlignmentOk :: bool
  lvUnverified :: "(string \<times> unverified_reason) list"

definition js_round :: "real \<Rightarrow> int" where "js_round x = \<lfloor>x + 1 / 2\<rfloor>"

definition round_to :: "real \<Rightarrow> real \<Rightarrow> real" where "round_to k x = of_int (js_round (x * k)) / k"

definition roundRect :: "rect \<Rightarrow> rect" where
  "roundRect r = \<lparr>rX = round_to 100 (rX r), rY = round_to 100 (rY r), rW = round_to 100 (rW r), rH = round_to 100 (rH r)\<rparr>"

definition gapBetween :: "rect \<Rightarrow> rect \<Rightarrow> real" where
  "gapBetween a b = (let dx = max (max (rX a - rectRight b) (rX b - rectRight a)) 0;
                         dy = max (max (rY a - rectBottom b) (rY b - rectBottom a)) 0 in max dx dy)"

definition reasonFor :: "shape_layout \<Rightarrow> unverified_reason option" where
  "reasonFor s = (if slLabelMayOverflow s then Some LabelMayOverflow
     else if slMeasurementStale s then Some MeasurementStale
     else if slSource s = EstimatedSize \<or> slVerification s = Unverified then Some Estimated else None)"

record pair_report =
  prReported :: "string list"
  prOverlaps :: "(string \<times> string \<times> int) list"
  prTooClose :: "(string \<times> string \<times> real) list"
  prRelevant :: "string list"

definition pair_key :: "string \<Rightarrow> string \<Rightarrow> string" where
  "pair_key a b = (if a < b then a @ ''|'' @ b else b @ ''|'' @ a)"

text \<open>One touched item against one other shape of the page.\<close>

definition check_pair :: "real option \<Rightarrow> string list \<Rightarrow> shape_layout \<Rightarrow> shape_layout \<Rightarrow> pair_report \<Rightarrow> pair_report" where
  "check_pair requested touched item other r =
     (let key = pair_key (slId item) (slId other); area = overlapArea (slBounds item) (slBounds other);
          gap = gapBetween (slBounds item) (slBounds other)
      in if key \<in> set (prReported r) then r
         else if 1 < area then r\<lparr>prReported := prReported r @ [key],
           prOverlaps := prOverlaps r @ [(slId item, slId other, js_round area)], prRelevant := prRelevant r @ [slId other]\<rparr>
         else (let r' = (if gap < layout_gap * 2 then r\<lparr>prRelevant := prRelevant r @ [slId other]\<rparr> else r)
           in case requested of None \<Rightarrow> r'
              | Some g \<Rightarrow> (if gap < g - spacing_tolerance \<and> slId other \<in> set touched
                  then r'\<lparr>prReported := prReported r' @ [key],
                    prTooClose := prTooClose r' @ [(slId item, slId other, round_to 10 gap)]\<rparr> else r')))"

definition check_item :: "page_layout \<Rightarrow> real option \<Rightarrow> string list \<Rightarrow> shape_layout \<Rightarrow> pair_report \<Rightarrow> pair_report" where
  "check_item l requested touched item r = (if \<not> solid item then r
     else (let skip = skip_of l (slId item)
           in fold (check_pair requested touched item) (filter (\<lambda>s. solid s \<and> slId s \<notin> set skip) (plShapes l)) r))"

definition note_unverified :: "page_layout \<Rightarrow> string \<Rightarrow> (string \<times> unverified_reason) list \<Rightarrow> (string \<times> unverified_reason) list" where
  "note_unverified l i found = (case map_of (plById l) i of None \<Rightarrow> found
     | Some s \<Rightarrow> (case reasonFor s of None \<Rightarrow> found
        | Some reason \<Rightarrow> if slType s \<noteq> ''arrow'' \<and> i \<notin> set (map fst found) then found @ [(i, reason)] else found))"

definition closest_pair :: "page_layout \<Rightarrow> string \<times> string \<Rightarrow> real option \<Rightarrow> real option" where
  "closest_pair l ab minimum = (case (map_of (plById l) (fst ab), map_of (plById l) (snd ab)) of
     (Some a, Some b) \<Rightarrow> Some (case minimum of None \<Rightarrow> gapBetween (slBounds a) (slBounds b)
        | Some m \<Rightarrow> min m (gapBetween (slBounds a) (slBounds b)))
   | _ \<Rightarrow> minimum)"

definition align_value :: "align_axis \<Rightarrow> rect \<Rightarrow> real" where
  "align_value ax b = (case ax of ALeft \<Rightarrow> rX b | ARight \<Rightarrow> rectRight b | ACenterX \<Rightarrow> rX b + rW b / 2
     | ATop \<Rightarrow> rY b | ABottom \<Rightarrow> rectBottom b | ACenterY \<Rightarrow> rY b + rH b / 2)"

definition deviation_of :: "page_layout \<Rightarrow> expectation \<Rightarrow> real option" where
  "deviation_of l ex = (case (exAlignAxis ex, exAlignIds ex) of
     (Some ax, Some ids) \<Rightarrow> (let values = map (\<lambda>s. align_value ax (slBounds s)) (List.map_filter (map_of (plById l)) ids)
        in if length ids \<le> 1 \<or> values = [] then None else Some (round_to 100 (max_of values - min_of values)))
   | _ \<Rightarrow> None)"

definition verifyLayout :: "page_layout \<Rightarrow> string list \<Rightarrow> expectation \<Rightarrow> layout_verification" where
  "verifyLayout l touched ex =
     (let ids = filter (\<lambda>i. map_of (plById l) i \<noteq> None) (uniq touched);
          items = List.map_filter (map_of (plById l)) ids;
          requested = exRequestedGap ex;
          r = fold (check_item l requested ids) items
                \<lparr>prReported = [], prOverlaps = [], prTooClose = [], prRelevant = []\<rparr>;
          unverified = fold (note_unverified l) (ids @ uniq (prRelevant r)) [];
          minimum = fold (closest_pair l) (exPairs ex) None;
          spacingOk = (case (requested, minimum) of (Some g, Some m) \<Rightarrow> g - spacing_tolerance \<le> m | _ \<Rightarrow> True);
          deviation = deviation_of l ex
      in \<lparr>lvStatus = (if prOverlaps r \<noteq> [] then Overlaps else if unverified \<noteq> [] then PartiallyUnverified else AllVerified),
          lvItems = map (\<lambda>s. \<lparr>viId = slId s, viType = slType s, viBounds = roundRect (slBounds s),
            viSource = slSource s, viVerification = slVerification s\<rparr>) items,
          lvOverlaps = prOverlaps r, lvTooClose = prTooClose r, lvMinimum = map_option (round_to 10) minimum,
          lvSpacingOk = (spacingOk \<and> prTooClose r = []), lvDeviation = deviation,
          lvAlignmentOk = (case deviation of None \<Rightarrow> True | Some d \<Rightarrow> d \<le> alignment_tolerance),
          lvUnverified = unverified\<rparr>)"

section \<open>What a verified report means\<close>

text \<open>The pairs a report covers: a touched shape and another one, neither within the other.\<close>

definition compared :: "page_layout \<Rightarrow> string list \<Rightarrow> shape_layout \<Rightarrow> shape_layout \<Rightarrow> bool" where
  "compared l touched a b \<longleftrightarrow> map_of (plById l) (slId a) = Some a \<and> slId a \<in> set touched \<and> solid a \<and>
     b \<in> set (plShapes l) \<and> solid b \<and> slId b \<notin> set (skip_of l (slId a))"

definition quiet :: "pair_report \<Rightarrow> bool" where
  "quiet r \<longleftrightarrow> prOverlaps r = [] \<and> prTooClose r = []"

text \<open>Nothing is marked as reported before something is reported.\<close>

definition unmarked :: "pair_report \<Rightarrow> bool" where
  "unmarked r \<longleftrightarrow> (quiet r \<longrightarrow> prReported r = [])"

definition pair_good :: "real option \<Rightarrow> string list \<Rightarrow> pair_report \<Rightarrow> shape_layout \<Rightarrow> shape_layout \<Rightarrow> bool" where
  "pair_good requested touched r a b \<longleftrightarrow> overlapArea (slBounds a) (slBounds b) \<le> 1 \<and>
     (\<forall>g. requested = Some g \<longrightarrow> slId b \<in> set touched \<longrightarrow> g - spacing_tolerance \<le> gapBetween (slBounds a) (slBounds b)) \<and>
     (gapBetween (slBounds a) (slBounds b) < layout_gap * 2 \<longrightarrow> slId b \<in> set (prRelevant r))"

lemma pair_good_mono: "pair_good q t r a b \<Longrightarrow> set (prRelevant r) \<subseteq> set (prRelevant r') \<Longrightarrow> pair_good q t r' a b"
  by (auto simp: pair_good_def)

lemma check_pair_quiet:
  assumes "unmarked r"
  shows "unmarked (check_pair q t a b r)" and "quiet (check_pair q t a b r) \<Longrightarrow> quiet r"
    and "quiet (check_pair q t a b r) \<Longrightarrow> pair_good q t (check_pair q t a b r) a b"
  using assms
  by (auto simp: check_pair_def quiet_def unmarked_def pair_good_def Let_def split: if_splits option.splits)

lemma check_pair_relevant: "set (prRelevant r) \<subseteq> set (prRelevant (check_pair q t a b r))"
  by (auto simp: check_pair_def Let_def split: option.splits)

lemma fold_quiet:
  assumes "\<And>x r. unmarked r \<Longrightarrow> unmarked (f x r)" and "\<And>x r. unmarked r \<Longrightarrow> quiet (f x r) \<Longrightarrow> quiet r"
    and "\<And>x r. unmarked r \<Longrightarrow> quiet (f x r) \<Longrightarrow> P x (f x r)"
    and "\<And>x r. set (prRelevant r) \<subseteq> set (prRelevant (f x r))"
    and "\<And>x r r'. P x r \<Longrightarrow> set (prRelevant r) \<subseteq> set (prRelevant r') \<Longrightarrow> P x r'"
    and "unmarked r"
  shows "unmarked (fold f xs r) \<and> set (prRelevant r) \<subseteq> set (prRelevant (fold f xs r)) \<and>
    (quiet (fold f xs r) \<longrightarrow> quiet r \<and> (\<forall>x\<in>set xs. P x (fold f xs r)))"
  using assms(6)
proof (induction xs arbitrary: r)
  case Nil
  then show ?case by simp
next
  case (Cons x xs)
  note IH = Cons.IH [OF assms(1) [OF Cons.prems]]
  show ?case
  proof (intro conjI impI)
    show "unmarked (fold f (x # xs) r)" using IH by simp
    show "set (prRelevant r) \<subseteq> set (prRelevant (fold f (x # xs) r))" using IH assms(4) [of r x] by auto
  next
    assume "quiet (fold f (x # xs) r)"
    with IH have q: "quiet (f x r)" "\<forall>y\<in>set xs. P y (fold f xs (f x r))" by simp_all
    then show "quiet r" using assms(2) [OF Cons.prems] by simp
    have "P x (fold f xs (f x r))" by (rule assms(5) [OF assms(3) [OF Cons.prems q(1)]]) (use IH in simp)
    with q(2) show "\<forall>y\<in>set (x # xs). P y (fold f (x # xs) r)" by simp
  qed
qed

definition item_good :: "page_layout \<Rightarrow> real option \<Rightarrow> string list \<Rightarrow> shape_layout \<Rightarrow> pair_report \<Rightarrow> bool" where
  "item_good l q t a r \<longleftrightarrow> (solid a \<longrightarrow> (\<forall>b\<in>set (plShapes l). solid b \<longrightarrow> slId b \<notin> set (skip_of l (slId a)) \<longrightarrow> pair_good q t r a b))"

lemma fold_pairs:
  assumes "unmarked r"
  shows "unmarked (fold (check_pair q t a) bs r) \<and> set (prRelevant r) \<subseteq> set (prRelevant (fold (check_pair q t a) bs r)) \<and>
    (quiet (fold (check_pair q t a) bs r) \<longrightarrow> quiet r \<and> (\<forall>b\<in>set bs. pair_good q t (fold (check_pair q t a) bs r) a b))"
  by (rule fold_quiet [OF _ _ _ _ _ assms])
     (fact check_pair_quiet(1) check_pair_quiet(2) check_pair_quiet(3) check_pair_relevant pair_good_mono)+

lemma check_item_quiet:
  "unmarked r \<Longrightarrow> unmarked (check_item l q t a r)"
  "unmarked r \<Longrightarrow> quiet (check_item l q t a r) \<Longrightarrow> quiet r"
  "unmarked r \<Longrightarrow> quiet (check_item l q t a r) \<Longrightarrow> item_good l q t a (check_item l q t a r)"
  using fold_pairs [of r q t a "filter (\<lambda>s. solid s \<and> slId s \<notin> set (skip_of l (slId a))) (plShapes l)"]
  by (auto simp: check_item_def item_good_def Let_def split: if_splits)

lemma check_item_relevant: "set (prRelevant r) \<subseteq> set (prRelevant (check_item l q t a r))"
proof -
  have "set (prRelevant r) \<subseteq> set (prRelevant (fold (check_pair q t a) bs r))" for bs
    by (induction bs arbitrary: r) (simp, metis check_pair_relevant fold_simps(2) subset_trans)
  then show ?thesis by (simp add: check_item_def Let_def)
qed

lemma item_good_mono:
  "item_good l q t a r \<Longrightarrow> set (prRelevant r) \<subseteq> set (prRelevant r') \<Longrightarrow> item_good l q t a r'"
  unfolding item_good_def using pair_good_mono by blast

lemma fold_items:
  assumes "unmarked r"
  shows "unmarked (fold (check_item l q t) xs r) \<and> set (prRelevant r) \<subseteq> set (prRelevant (fold (check_item l q t) xs r)) \<and>
    (quiet (fold (check_item l q t) xs r) \<longrightarrow> quiet r \<and> (\<forall>a\<in>set xs. item_good l q t a (fold (check_item l q t) xs r)))"
  by (rule fold_quiet [OF _ _ _ _ _ assms])
     (fact check_item_quiet(1) check_item_quiet(2) check_item_quiet(3) check_item_relevant item_good_mono)+

text \<open>No shape a report says nothing about has a reason to be doubted.\<close>

lemma note_unverified_grows: "set found \<subseteq> set (note_unverified l i found)"
  by (auto simp: note_unverified_def split: option.splits)

lemma fold_note_grows: "set found \<subseteq> set (fold (note_unverified l) ids found)"
  by (induction ids arbitrary: found) (simp, metis note_unverified_grows fold_simps(2) subset_trans)

lemma note_unverified_complete:
  assumes "fold (note_unverified l) ids found = []" and "i \<in> set ids"
    and "map_of (plById l) i = Some s" and "slType s \<noteq> ''arrow''"
  shows "reasonFor s = None"
  using assms(1,2)
proof (induction ids arbitrary: found)
  case Nil
  then show ?case by simp
next
  case (Cons j ids)
  have none: "note_unverified l j found = []"
    using fold_note_grows [of "note_unverified l j found" l ids] Cons.prems(1) by simp
  show ?case
  proof (cases "i = j")
    case True
    with none assms(3,4) show ?thesis
      by (auto simp: note_unverified_def split: option.splits if_splits)
  next
    case False
    with Cons show ?thesis by simp
  qed
qed

text \<open>
  A report without a complaint: no compared pair overlaps by more than one unit of area, touched shapes
  keep the requested distance up to the tolerance, and neither a touched shape nor a neighbour closer
  than twice the default gap rests on a guess.
\<close>

lemma verify_sound:
  assumes "lvStatus (verifyLayout l touched ex) = AllVerified" and "lvTooClose (verifyLayout l touched ex) = []"
    and "compared l touched a b"
  shows "overlapArea (slBounds a) (slBounds b) \<le> 1"
    and "exRequestedGap ex = Some g \<Longrightarrow> slId b \<in> set touched \<Longrightarrow> map_of (plById l) (slId b) = Some b \<Longrightarrow>
      g - spacing_tolerance \<le> gapBetween (slBounds a) (slBounds b)"
    and "reasonFor a = None"
    and "gapBetween (slBounds a) (slBounds b) < layout_gap * 2 \<Longrightarrow> map_of (plById l) (slId b) = Some b \<Longrightarrow>
      reasonFor b = None"
proof -
  define ids where "ids = filter (\<lambda>i. map_of (plById l) i \<noteq> None) (uniq touched)"
  define r where "r = fold (check_item l (exRequestedGap ex) ids) (List.map_filter (map_of (plById l)) ids)
      \<lparr>prReported = [], prOverlaps = [], prTooClose = [], prRelevant = []\<rparr>"
  have "unmarked \<lparr>prReported = [], prOverlaps = [], prTooClose = [], prRelevant = []\<rparr>" by (simp add: unmarked_def)
  note items = fold_items [OF this, of l "exRequestedGap ex" ids "List.map_filter (map_of (plById l)) ids", folded r_def]
  have quiet: "quiet r" and doubts: "fold (note_unverified l) (ids @ uniq (prRelevant r)) [] = []"
  proof -
    have "lvStatus (verifyLayout l touched ex) = (if prOverlaps r \<noteq> [] then Overlaps
        else if fold (note_unverified l) (ids @ uniq (prRelevant r)) [] \<noteq> [] then PartiallyUnverified else AllVerified)"
      and "lvTooClose (verifyLayout l touched ex) = prTooClose r"
      unfolding verifyLayout_def Let_def r_def ids_def by (simp_all only: layout_verification.simps)
    with assms(1,2) show "quiet r" and "fold (note_unverified l) (ids @ uniq (prRelevant r)) [] = []"
      by (auto simp: quiet_def split: if_splits)
  qed
  have a: "map_of (plById l) (slId a) = Some a" "slId a \<in> set ids" "solid a"
    using assms(3) by (auto simp: compared_def ids_def)
  then have "a \<in> set (List.map_filter (map_of (plById l)) ids)" by (force simp: map_filter_def)
  with items quiet a(3) assms(3) have good: "pair_good (exRequestedGap ex) ids r a b"
    by (auto simp: item_good_def compared_def)
  then show "overlapArea (slBounds a) (slBounds b) \<le> 1" by (simp add: pair_good_def)
  show "exRequestedGap ex = Some g \<Longrightarrow> slId b \<in> set touched \<Longrightarrow> map_of (plById l) (slId b) = Some b \<Longrightarrow>
      g - spacing_tolerance \<le> gapBetween (slBounds a) (slBounds b)"
    using good by (auto simp: pair_good_def ids_def)
  show "reasonFor a = None"
    by (rule note_unverified_complete [OF doubts _ a(1)]) (use a in \<open>simp_all add: solid_def\<close>)
  show "reasonFor b = None" if "gapBetween (slBounds a) (slBounds b) < layout_gap * 2" "map_of (plById l) (slId b) = Some b"
  proof (rule note_unverified_complete [OF doubts _ that(2)])
    show "slId b \<in> set (ids @ uniq (prRelevant r))" using good that(1) by (simp add: pair_good_def)
    show "slType b \<noteq> ''arrow''" using assms(3) by (simp add: compared_def solid_def)
  qed
qed

end
