(* ===== verification/LayoutPlacement.thy ===== *)
theory LayoutPlacement
  imports LayoutSlide LayoutContain LayoutVerify
begin

text \<open>
  Rows, stacks and grids: the boxes of the members after the moves, their distances from each other, and
  the slide of the whole block past what it would land on.
\<close>

section \<open>Boxes after a move\<close>

definition after_move :: "page_layout \<Rightarrow> move \<Rightarrow> rect" where
  "after_move l m = moved_rect (slBounds (the (map_of (plById l) (mvId m)))) m"

definition lo :: "axis \<Rightarrow> rect \<Rightarrow> real" where
  "lo ax r = (case ax of AxisX \<Rightarrow> rX r | AxisY \<Rightarrow> rY r)"

definition hi :: "axis \<Rightarrow> rect \<Rightarrow> real" where
  "hi ax r = (case ax of AxisX \<Rightarrow> rectRight r | AxisY \<Rightarrow> rectBottom r)"

text \<open>Separated along one axis is separated.\<close>

lemma apart: "hi ax a + gap \<le> lo ax b \<Longrightarrow> \<not> rectsCloserThan a b gap \<and> \<not> rectsCloserThan b a gap"
  by (cases ax) (auto simp: lo_def hi_def rectsCloserThan_def)

lemma closer_sym: "rectsCloserThan a b gap = rectsCloserThan b a gap"
  by (auto simp: rectsCloserThan_def)

lemma closer_mono: "rectsCloserThan a b gap \<Longrightarrow> gap \<le> gap' \<Longrightarrow> rectsCloserThan a b gap'"
  by (auto simp: rectsCloserThan_def)

lemma closer_encloses: "encloses u r \<Longrightarrow> rectsCloserThan r b gap \<Longrightarrow> rectsCloserThan u b gap"
  by (auto simp: encloses_def rectsCloserThan_def)

definition shift_rect :: "real \<Rightarrow> rect \<Rightarrow> rect" where
  "shift_rect dy r = r\<lparr>rY := rY r + dy\<rparr>"

lemma shift_rect_simps [simp]:
  "rX (shift_rect dy r) = rX r" "rY (shift_rect dy r) = rY r + dy" "rW (shift_rect dy r) = rW r" "rH (shift_rect dy r) = rH r"
  "rectRight (shift_rect dy r) = rectRight r" "rectBottom (shift_rect dy r) = rectBottom r + dy"
  by (simp_all add: shift_rect_def rectRight_def rectBottom_def)

lemma after_shift: "after_move l (shift_move 0 dy m) = shift_rect dy (after_move l m)"
  by (simp add: after_move_def shift_move_def moved_rect_def shift_rect_def)

lemma closer_shift: "rectsCloserThan (shift_rect dy a) (shift_rect dy b) gap = rectsCloserThan a b gap"
  by (simp add: rectsCloserThan_def)

lemma encloses_shift: "encloses (shift_rect dy a) (shift_rect dy b) = encloses a b"
  by (simp add: encloses_def)

lemma lo_hi_shift: "lo ax (shift_rect dy r) = lo ax r + (case ax of AxisX \<Rightarrow> 0 | AxisY \<Rightarrow> dy)"
  "hi ax (shift_rect dy r) = hi ax r + (case ax of AxisX \<Rightarrow> 0 | AxisY \<Rightarrow> dy)"
  by (cases ax; simp add: lo_def hi_def)+

section \<open>Sliding a block\<close>

definition on_page :: "page_layout \<Rightarrow> string list \<Rightarrow> bool" where
  "on_page l ids \<longleftrightarrow> (\<forall>i\<in>set ids. map_of (plById l) i \<noteq> None)"

lemma boundsOf_on_page: "map_of (plById l) i \<noteq> None \<Longrightarrow> boundsOf l i = Inr (the (map_of (plById l) i))"
  by (auto simp: boundsOf_def)

lemma mapR_Inr: "(\<And>x. x \<in> set xs \<Longrightarrow> f x = Inr (g x)) \<Longrightarrow> mapR f xs = Inr (map g xs)"
  by (induction xs) auto

lemma mapR_boundsOf: "on_page l ids \<Longrightarrow> mapR (boundsOf l) ids = Inr (map (\<lambda>i. the (map_of (plById l) i)) ids)"
  by (intro mapR_Inr boundsOf_on_page) (auto simp: on_page_def)

lemma blockersFor_few: "length (plShapes l) \<le> 500 \<Longrightarrow> length (blockersFor l ids) \<le> 500"
  unfolding blockersFor_def Let_def by (simp add: order.trans [OF length_filter_le])

lemma no_hits_iff: "hits_at blockers w h gap p = [] \<longleftrightarrow>
    (\<forall>b\<in>set blockers. \<not> rectsCloserThan \<lparr>rX = pX p, rY = pY p, rW = w, rH = h\<rparr> (bkRect b) gap)"
  by (auto simp: hits_at_def filter_empty_conv)

lemma shift_zero: "shift_move 0 0 = (\<lambda>m. m)"
  by (rule ext) (simp add: shift_move_def)

lemma clearBlock_shifts:
  assumes "length (plShapes l) \<le> 500" and "moves \<noteq> []" and "on_page l (map mvId moves)"
  shows "\<exists>dy. clearBlock l moves options gap = Inr (map (shift_move 0 dy) moves) \<and> 0 \<le> dy \<and>
    (boAvoidCollisions options \<noteq> Some False \<longrightarrow> (\<forall>m\<in>set moves. \<forall>b\<in>set (blockersFor l (map mvId moves)).
       \<not> rectsCloserThan (after_move l (shift_move 0 dy m)) (bkRect b) gap))"
proof (cases "boAvoidCollisions options = Some False")
  case True
  then show ?thesis by (intro exI [of _ 0]) (simp add: clearBlock_def shift_zero)
next
  case False
  let ?bs = "blockersFor l (map mvId moves)"
  have rects: "mapR (\<lambda>m. bindR (boundsOf l (mvId m)) (\<lambda>s. Inr (moved_rect (slBounds s) m))) moves = Inr (map (after_move l) moves)"
    using assms(3) by (intro mapR_Inr) (auto simp: on_page_def boundsOf_on_page after_move_def)
  from assms(2) obtain u where u: "rectUnion (map (after_move l) moves) = Some u"
    by (cases "rectUnion (map (after_move l) moves)") (auto simp: rectUnion_None)
  let ?c = "slideClear ?bs (rW u) (rH u) \<lparr>pX = rX u, pY = rY u\<rparr> AxisY gap"
  obtain t where t: "rY u \<le> t" "stop_of ?c = \<lparr>pX = rX u, pY = t\<rparr>"
      "hits_at ?bs (rW u) (rH u) gap \<lparr>pX = rX u, pY = t\<rparr> = []"
    using slideClear_clear [OF blockersFor_few [OF assms(1), where ids = "map mvId moves"], where ax = AxisY
        and start = "\<lparr>pX = rX u, pY = rY u\<rparr>" and w = "rW u" and h = "rH u" and gap = gap]
    by (auto simp: along_def at_along_def)
  let ?dy = "t - rY u"
  have at: "sdX ?c = rX u" "sdY ?c = t" using t(2) by (simp_all add: stop_of_def)
  have "clearBlock l moves options gap = Inr (if ?dy \<noteq> 0 then map (shift_move 0 ?dy) moves else moves)"
    using False by (simp add: clearBlock_def rects u Let_def at)
  also have "\<dots> = Inr (map (shift_move 0 ?dy) moves)" by (simp add: shift_zero)
  finally have res: "clearBlock l moves options gap = Inr (map (shift_move 0 ?dy) moves)" .
  have "\<not> rectsCloserThan (after_move l (shift_move 0 ?dy m)) (bkRect b) gap" if "m \<in> set moves" "b \<in> set ?bs" for m b
  proof
    assume close: "rectsCloserThan (after_move l (shift_move 0 ?dy m)) (bkRect b) gap"
    have "encloses u (after_move l m)" by (rule rectUnion_encloses [OF u]) (use that(1) in simp)
    then have "encloses (shift_rect ?dy u) (after_move l (shift_move 0 ?dy m))" by (simp add: after_shift encloses_shift)
    then have "rectsCloserThan (shift_rect ?dy u) (bkRect b) gap" by (rule closer_encloses [OF _ close])
    moreover have "shift_rect ?dy u = \<lparr>rX = rX u, rY = t, rW = rW u, rH = rH u\<rparr>" by (simp add: shift_rect_def)
    ultimately show False using t(3) that(2) by (auto simp: no_hits_iff)
  qed
  with res t(1) show ?thesis by (intro exI [of _ ?dy]) simp
qed

section \<open>Members in a line\<close>

definition gap_spaced :: "axis \<Rightarrow> real \<Rightarrow> rect list \<Rightarrow> bool" where
  "gap_spaced ax gap rs \<longleftrightarrow> (\<forall>k. Suc k < length rs \<longrightarrow> lo ax (rs ! Suc k) = hi ax (rs ! k) + gap)"

lemma lo_le_hi: "proper r \<Longrightarrow> lo ax r \<le> hi ax r"
  by (cases ax) (simp_all add: proper_def lo_def hi_def rectRight_def rectBottom_def)

lemma gap_spaced_apart:
  assumes "gap_spaced ax gap rs" and "0 \<le> gap" and "\<forall>r\<in>set rs. proper r" and "i < j" and "j < length rs"
  shows "hi ax (rs ! i) + gap \<le> lo ax (rs ! j)"
  using assms(4,5)
proof (induction j)
  case 0
  then show ?case by simp
next
  case (Suc j)
  have step: "lo ax (rs ! Suc j) = hi ax (rs ! j) + gap" using assms(1) Suc.prems(2) by (simp add: gap_spaced_def)
  show ?case
  proof (cases "i = j")
    case True
    with step show ?thesis by simp
  next
    case False
    have "proper (rs ! j)" using assms(3) Suc.prems(2) by simp
    from lo_le_hi [OF this, of ax] Suc.IH Suc.prems False step assms(2) show ?thesis by simp
  qed
qed

lemma gap_spaced_shift: "gap_spaced ax gap (map (shift_rect dy) rs) = gap_spaced ax gap rs"
  by (simp add: gap_spaced_def lo_hi_shift)

lemma line_up_spaced:
  assumes "\<And>s c. s \<in> set ss \<Longrightarrow> lo ax (f (place s c)) = c \<and> hi ax (f (place s c)) = c + extent s"
  shows "gap_spaced ax gap (map f (line_up place extent gap cursor ss))"
  using assms
proof (induction ss arbitrary: cursor)
  case Nil
  then show ?case by (simp add: gap_spaced_def)
next
  case (Cons s ss)
  have rest: "gap_spaced ax gap (map f (line_up place extent gap (cursor + (extent s + gap)) ss))"
    by (rule Cons.IH) (use Cons.prems in simp)
  show ?case
    unfolding gap_spaced_def
  proof (intro allI impI)
    fix k assume k: "Suc k < length (map f (line_up place extent gap cursor (s # ss)))"
    show "lo ax (map f (line_up place extent gap cursor (s # ss)) ! Suc k) =
        hi ax (map f (line_up place extent gap cursor (s # ss)) ! k) + gap"
    proof (cases k)
      case 0
      with k obtain s' ss' where "ss = s' # ss'" by (cases ss) auto
      with 0 Cons.prems [of s] Cons.prems [of s'] show ?thesis by simp
    next
      case (Suc j)
      with k rest show ?thesis by (simp add: gap_spaced_def)
    qed
  qed
qed

lemma line_up_ids: "(\<And>s c. mvId (place s c) = slId s) \<Longrightarrow> map mvId (line_up place extent gap cursor ss) = map slId ss"
  by (induction ss arbitrary: cursor) simp_all

lemma line_up_all: "m \<in> set (line_up place extent gap cursor ss) \<Longrightarrow> \<exists>s\<in>set ss. \<exists>c. m = place s c"
  by (induction ss arbitrary: cursor) auto

section \<open>Arranged blocks\<close>

definition arranged :: "page_layout \<Rightarrow> string list \<Rightarrow> block_options \<Rightarrow> real \<Rightarrow> real \<Rightarrow> move list \<Rightarrow> bool" where
  "arranged l ids options gap clearance moves \<longleftrightarrow> map mvId moves = uniq ids \<and>
     (\<forall>i j. i < j \<and> j < length moves \<longrightarrow> \<not> rectsCloserThan (after_move l (moves ! i)) (after_move l (moves ! j)) gap) \<and>
     (boAvoidCollisions options \<noteq> Some False \<longrightarrow> (\<forall>m\<in>set moves. \<forall>b\<in>set (blockersFor l (uniq ids)).
        \<not> rectsCloserThan (after_move l m) (bkRect b) clearance))"

text \<open>A block that was arranged before its slide is arranged after it.\<close>

lemma clearBlock_arranged:
  assumes few: "length (plShapes l) \<le> 500" and "moves \<noteq> []" and page: "on_page l (map mvId moves)" and ids: "map mvId moves = uniq ids"
    and apart: "\<And>i j. i < j \<Longrightarrow> j < length moves \<Longrightarrow> \<not> rectsCloserThan (after_move l (moves ! i)) (after_move l (moves ! j)) gap"
  shows "\<exists>dy. clearBlock l moves options clearance = Inr (map (shift_move 0 dy) moves) \<and>
    arranged l ids options gap clearance (map (shift_move 0 dy) moves)"
proof -
  obtain dy where dy: "clearBlock l moves options clearance = Inr (map (shift_move 0 dy) moves)"
    "boAvoidCollisions options \<noteq> Some False \<longrightarrow> (\<forall>m\<in>set moves. \<forall>b\<in>set (blockersFor l (map mvId moves)).
       \<not> rectsCloserThan (after_move l (shift_move 0 dy m)) (bkRect b) clearance)"
    using clearBlock_shifts [OF few assms(2) page] by blast
  have "map mvId (map (shift_move 0 dy) moves) = uniq ids" using ids by (simp add: shift_move_def comp_def)
  moreover have "\<not> rectsCloserThan (after_move l (map (shift_move 0 dy) moves ! i)) (after_move l (map (shift_move 0 dy) moves ! j)) gap"
    if "i < j" "j < length moves" for i j
    using apart [OF that] that by (simp add: after_shift closer_shift)
  ultimately have "arranged l ids options gap clearance (map (shift_move 0 dy) moves)"
    using dy(2) ids unfolding arranged_def by (simp del: map_map)
  with dy(1) show ?thesis by blast
qed

lemma after_move_to:
  assumes "map_of (plById l) (slId s) = Some s"
  shows "after_move l (move_to s x y) = \<lparr>rX = x, rY = y, rW = rW (slBounds s), rH = rH (slBounds s)\<rparr>"
  using assms by (simp add: after_move_def move_to_def moved_rect_def)

lemma origin_defined:
  assumes "on_page l ids" and "ids \<noteq> []"
  shows "\<exists>start. origin l ids options = Inr start"
proof -
  from assms(2) obtain u where "rectUnion (map slBounds (map (\<lambda>i. the (map_of (plById l) i)) ids)) = Some u"
    by (cases "rectUnion (map slBounds (map (\<lambda>i. the (map_of (plById l) i)) ids))") (auto simp: rectUnion_None)
  then show ?thesis
    by (auto simp: origin_def mapR_boundsOf [OF assms(1)] split: option.splits)
qed

text \<open>What a well-formed layout says of the shapes under distinct ids of the page.\<close>

definition members :: "page_layout \<Rightarrow> string list \<Rightarrow> shape_layout list" where
  "members l ids = map (\<lambda>i. the (map_of (plById l) i)) (uniq ids)"

lemma members_facts:
  assumes "layout_wf l" and "on_page l ids"
  shows "map slId (members l ids) = uniq ids"
    and "s \<in> set (members l ids) \<Longrightarrow> map_of (plById l) (slId s) = Some s \<and> proper (slBounds s)"
    and "mapR (boundsOf l) (uniq ids) = Inr (members l ids)" and "on_page l (uniq ids)"
proof -
  have look: "slId s = i \<and> s \<in> set (plShapes l)" if "map_of (plById l) i = Some s" for i s
    using that assms(1) by (auto simp: layout_wf_def dest!: map_of_SomeD)
  have some: "\<exists>s. map_of (plById l) i = Some s" if "i \<in> set ids" for i using that assms(2) by (auto simp: on_page_def)
  show "map slId (members l ids) = uniq ids"
    using some look by (fastforce simp: members_def intro: map_idI)
  show "map_of (plById l) (slId s) = Some s \<and> proper (slBounds s)" if "s \<in> set (members l ids)"
  proof -
    from that some obtain i where "map_of (plById l) i = Some s" by (fastforce simp: members_def)
    with look [OF this] assms(1) show ?thesis by (auto simp: layout_wf_def)
  qed
  show uniq: "on_page l (uniq ids)" using assms(2) by (simp add: on_page_def)
  show "mapR (boundsOf l) (uniq ids) = Inr (members l ids)" by (simp add: mapR_boundsOf [OF uniq] members_def)
qed

text \<open>
  The line of a row (\<open>AxisX\<close>) or of a stack (\<open>AxisY\<close>): consecutive members exactly the gap apart, and
  every member aligned across the line.
\<close>

definition across_value :: "axis \<Rightarrow> align3 \<Rightarrow> rect \<Rightarrow> real" where
  "across_value ax al b = align_value (case (ax, al) of
     (AxisX, AlignStart) \<Rightarrow> ATop | (AxisX, AlignCenter) \<Rightarrow> ACenterY | (AxisX, AlignEnd) \<Rightarrow> ABottom
   | (AxisY, AlignStart) \<Rightarrow> ALeft | (AxisY, AlignCenter) \<Rightarrow> ACenterX | (AxisY, AlignEnd) \<Rightarrow> ARight) b"

definition in_line :: "axis \<Rightarrow> align3 \<Rightarrow> real \<Rightarrow> rect list \<Rightarrow> bool" where
  "in_line ax al gap rs \<longleftrightarrow> gap_spaced ax gap rs \<and> (\<exists>v. \<forall>r\<in>set rs. across_value ax al r = v)"

lemma in_line_shift: "in_line ax al gap rs \<Longrightarrow> in_line ax al gap (map (shift_rect dy) rs)"
proof -
  assume "in_line ax al gap rs"
  then obtain v where v: "gap_spaced ax gap rs" "\<forall>r\<in>set rs. across_value ax al r = v" by (auto simp: in_line_def)
  have "across_value ax al (shift_rect dy r) = across_value ax al r + (case ax of AxisX \<Rightarrow> dy | AxisY \<Rightarrow> 0)" for r
    by (cases ax; cases al) (simp_all add: across_value_def align_value_def)
  with v show ?thesis by (auto simp: in_line_def gap_spaced_shift)
qed

lemma line_arranged:
  assumes wf: "layout_wf l" and few: "length (plShapes l) \<le> 500" and ids: "ids \<noteq> []" "on_page l ids" and gap: "0 \<le> gap"
    and ids_of: "\<And>s c. mvId (place s c) = slId s"
    and box: "\<And>s c. s \<in> set (members l ids) \<Longrightarrow> lo ax (after_move l (place s c)) = c \<and>
      hi ax (after_move l (place s c)) = c + extent s \<and> proper (after_move l (place s c)) \<and>
      across_value ax al (after_move l (place s c)) = v"
  shows "\<exists>moves. clearBlock l (line_up place extent gap cursor (members l ids)) options gap = Inr moves \<and>
    arranged l ids options gap gap moves \<and> in_line ax al gap (map (after_move l) moves)"
proof -
  let ?moves = "line_up place extent gap cursor (members l ids)"
  note facts = members_facts [OF wf ids(2)]
  have idl: "map mvId ?moves = uniq ids" by (simp add: line_up_ids [OF ids_of] facts(1))
  then have ne: "?moves \<noteq> []" using ids(1) by (metis list.map_disc_iff set_empty set_uniq)
  have gap_spaced: "gap_spaced ax gap (map (after_move l) ?moves)" by (rule line_up_spaced) (use box in blast)
  have all: "proper r \<and> across_value ax al r = v" if "r \<in> set (map (after_move l) ?moves)" for r
    using that box by (auto dest!: line_up_all)
  have "\<not> rectsCloserThan (after_move l (?moves ! i)) (after_move l (?moves ! j)) gap" if "i < j" "j < length ?moves" for i j
    using gap_spaced_apart [OF gap_spaced gap _ that(1)] all that by (auto dest: apart)
  with clearBlock_arranged [OF few ne _ idl] facts(4) idl obtain dy where
    dy: "clearBlock l ?moves options gap = Inr (map (shift_move 0 dy) ?moves)"
      "arranged l ids options gap gap (map (shift_move 0 dy) ?moves)" by metis
  have "in_line ax al gap (map (after_move l) ?moves)" using gap_spaced all by (auto simp: in_line_def)
  then have "in_line ax al gap (map (after_move l) (map (shift_move 0 dy) ?moves))"
    using in_line_shift [of ax al gap "map (after_move l) ?moves" dy] by (simp add: comp_def after_shift)
  with dy show ?thesis by blast
qed

lemma offset_value:
  "y + offset c h AlignStart = y" "y + offset c h AlignEnd + h = y + c" "y + offset c h AlignCenter + h / 2 = y + c / 2"
  by (simp_all add: field_simps)

lemma rowMoves_line:
  assumes "layout_wf l" "length (plShapes l) \<le> 500" "ids \<noteq> []" "on_page l ids" "0 \<le> or_else (boGap options) layout_gap"
  shows "\<exists>moves. rowMoves l ids options al = Inr moves \<and>
    arranged l ids options (or_else (boGap options) layout_gap) (or_else (boGap options) layout_gap) moves \<and>
    in_line AxisX al (or_else (boGap options) layout_gap) (map (after_move l) moves)"
proof -
  obtain start where start: "origin l ids options = Inr start" using origin_defined [OF assms(4,3)] by blast
  let ?rh = "max_of (map (\<lambda>s. rH (slBounds s)) (members l ids))"
  let ?v = "pY start + (case al of AlignStart \<Rightarrow> 0 | AlignCenter \<Rightarrow> ?rh / 2 | AlignEnd \<Rightarrow> ?rh)"
  show ?thesis
    unfolding rowMoves_def Let_def members_facts(3) [OF assms(1,4)] bindR_Inr start
  proof (rule line_arranged [OF assms])
    fix s c assume "s \<in> set (members l ids)"
    then have s: "map_of (plById l) (slId s) = Some s" "proper (slBounds s)" using members_facts(2) [OF assms(1,4)] by blast+
    show "lo AxisX (after_move l (move_to s c (pY start + offset ?rh (rH (slBounds s)) al))) = c \<and>
        hi AxisX (after_move l (move_to s c (pY start + offset ?rh (rH (slBounds s)) al))) = c + rW (slBounds s) \<and>
        proper (after_move l (move_to s c (pY start + offset ?rh (rH (slBounds s)) al))) \<and>
        across_value AxisX al (after_move l (move_to s c (pY start + offset ?rh (rH (slBounds s)) al))) = ?v"
      using s(2) by (cases al) (simp_all add: after_move_to [OF s(1)] lo_def hi_def rectRight_def rectBottom_def proper_def
          across_value_def align_value_def field_simps)
  qed (simp add: move_to_def)
qed

lemma stackMoves_line:
  assumes "layout_wf l" "length (plShapes l) \<le> 500" "ids \<noteq> []" "on_page l ids" "0 \<le> or_else (boGap options) layout_gap"
  shows "\<exists>moves. stackMoves l ids options al = Inr moves \<and>
    arranged l ids options (or_else (boGap options) layout_gap) (or_else (boGap options) layout_gap) moves \<and>
    in_line AxisY al (or_else (boGap options) layout_gap) (map (after_move l) moves)"
proof -
  obtain start where start: "origin l ids options = Inr start" using origin_defined [OF assms(4,3)] by blast
  let ?sw = "max_of (map (\<lambda>s. rW (slBounds s)) (members l ids))"
  let ?v = "pX start + (case al of AlignStart \<Rightarrow> 0 | AlignCenter \<Rightarrow> ?sw / 2 | AlignEnd \<Rightarrow> ?sw)"
  show ?thesis
    unfolding stackMoves_def Let_def members_facts(3) [OF assms(1,4)] bindR_Inr start
  proof (rule line_arranged [OF assms])
    fix s c assume "s \<in> set (members l ids)"
    then have s: "map_of (plById l) (slId s) = Some s" "proper (slBounds s)" using members_facts(2) [OF assms(1,4)] by blast+
    show "lo AxisY (after_move l (move_to s (pX start + offset ?sw (rW (slBounds s)) al) c)) = c \<and>
        hi AxisY (after_move l (move_to s (pX start + offset ?sw (rW (slBounds s)) al) c)) = c + rH (slBounds s) \<and>
        proper (after_move l (move_to s (pX start + offset ?sw (rW (slBounds s)) al) c)) \<and>
        across_value AxisY al (after_move l (move_to s (pX start + offset ?sw (rW (slBounds s)) al) c)) = ?v"
      using s(2) by (cases al) (simp_all add: after_move_to [OF s(1)] lo_def hi_def rectRight_def rectBottom_def proper_def
          across_value_def align_value_def field_simps)
  qed (simp add: move_to_def)
qed

section \<open>Grids\<close>

definition grid_step :: "nat \<Rightarrow> nat \<times> shape_layout \<Rightarrow> real list \<times> real list \<Rightarrow> real list \<times> real list" where
  "grid_step columns = (\<lambda>(index, s) (widths, heights).
     (widths[index mod columns := max (widths ! (index mod columns)) (rW (slBounds s))],
      heights[index div columns := max (heights ! (index div columns)) (rH (slBounds s))]))"

lemma grid_sizes_fold: "grid_sizes columns shapes = fold (grid_step columns) (List.enumerate 0 shapes)
    (replicate columns 0, replicate ((length shapes + columns - 1) div columns) 0)"
  by (simp add: grid_sizes_def grid_step_def Let_def)

definition wider :: "real list \<Rightarrow> real list \<Rightarrow> bool" where
  "wider xs ys \<longleftrightarrow> length xs = length ys \<and> (\<forall>i<length xs. xs ! i \<le> ys ! i)"

lemma wider_trans: "wider xs ys \<Longrightarrow> wider ys zs \<Longrightarrow> wider xs zs"
  by (fastforce simp: wider_def)

lemma wider_update: "wider xs (xs[i := max (xs ! i) x])"
  by (cases "i < length xs") (auto simp: wider_def nth_list_update)

lemma grid_fold_covers:
  assumes "fold (grid_step columns) (List.enumerate n ss) (W, H) = (W', H')"
  shows "wider W W' \<and> wider H H' \<and> (\<forall>k<length ss.
    ((n + k) mod columns < length W \<longrightarrow> rW (slBounds (ss ! k)) \<le> W' ! ((n + k) mod columns)) \<and>
    ((n + k) div columns < length H \<longrightarrow> rH (slBounds (ss ! k)) \<le> H' ! ((n + k) div columns)))"
  using assms
proof (induction ss arbitrary: n W H)
  case Nil
  then show ?case by (simp add: wider_def)
next
  case (Cons s ss)
  let ?W = "W[n mod columns := max (W ! (n mod columns)) (rW (slBounds s))]"
  let ?H = "H[n div columns := max (H ! (n div columns)) (rH (slBounds s))]"
  have "fold (grid_step columns) (List.enumerate (Suc n) ss) (?W, ?H) = (W', H')"
    using Cons.prems by (simp add: grid_step_def)
  note IH = Cons.IH [OF this]
  have grow: "wider W W'" "wider H H'"
    using IH wider_update wider_trans by blast+
  have first: "n mod columns < length W \<longrightarrow> rW (slBounds s) \<le> W' ! (n mod columns)"
    "n div columns < length H \<longrightarrow> rH (slBounds s) \<le> H' ! (n div columns)"
    using IH by (force simp: wider_def)+
  show ?case
  proof (intro conjI grow allI impI)
    fix k assume "k < length (s # ss)" and col: "(n + k) mod columns < length W"
    then show "rW (slBounds ((s # ss) ! k)) \<le> W' ! ((n + k) mod columns)"
      using first(1) IH by (cases k) auto
  next
    fix k assume "k < length (s # ss)" and row: "(n + k) div columns < length H"
    then show "rH (slBounds ((s # ss) ! k)) \<le> H' ! ((n + k) div columns)"
      using first(2) IH by (cases k) auto
  qed
qed

lemma grid_sizes_cover:
  assumes "grid_sizes columns ss = (W, H)" and "0 < columns"
  shows "length W = columns" and "\<forall>w\<in>set W. 0 \<le> w" and "\<forall>h\<in>set H. 0 \<le> h"
    and "k < length ss \<Longrightarrow> k div columns < length H \<and> rW (slBounds (ss ! k)) \<le> W ! (k mod columns) \<and>
      rH (slBounds (ss ! k)) \<le> H ! (k div columns)"
proof -
  let ?rows = "(length ss + columns - 1) div columns"
  from assms(1) have cover: "wider (replicate columns 0) W \<and> wider (replicate ?rows 0) H \<and> (\<forall>k<length ss.
    (k mod columns < columns \<longrightarrow> rW (slBounds (ss ! k)) \<le> W ! (k mod columns)) \<and>
    (k div columns < ?rows \<longrightarrow> rH (slBounds (ss ! k)) \<le> H ! (k div columns)))"
    using grid_fold_covers [of columns 0 ss "replicate columns 0" "replicate ?rows 0" W H] by (simp add: grid_sizes_fold)
  then have len: "length W = columns" "length H = ?rows" by (auto simp: wider_def)
  then show "length W = columns" by simp
  show "\<forall>w\<in>set W. 0 \<le> w" "\<forall>h\<in>set H. 0 \<le> h"
    using cover by (auto simp: wider_def in_set_conv_nth)
  show "k div columns < length H \<and> rW (slBounds (ss ! k)) \<le> W ! (k mod columns) \<and> rH (slBounds (ss ! k)) \<le> H ! (k div columns)"
    if "k < length ss"
  proof -
    have "k div columns < Suc (k div columns)" by simp
    also have "\<dots> = (k + columns) div columns" using assms(2) by simp
    also have "\<dots> \<le> ?rows" using that by (intro div_le_mono) simp
    finally have "k div columns < ?rows" .
    with that cover assms(2) len show ?thesis by simp
  qed
qed

lemma grid_fold_attained:
  assumes "fold (grid_step columns) (List.enumerate n ss) (W, H) = (W', H')"
  shows "(c < length W \<longrightarrow> W' ! c = W ! c \<or> (\<exists>k<length ss. (n + k) mod columns = c \<and> W' ! c = rW (slBounds (ss ! k)))) \<and>
    (r < length H \<longrightarrow> H' ! r = H ! r \<or> (\<exists>k<length ss. (n + k) div columns = r \<and> H' ! r = rH (slBounds (ss ! k))))"
  using assms
proof (induction ss arbitrary: n W H)
  case Nil
  then show ?case by simp
next
  case (Cons s ss)
  let ?W = "W[n mod columns := max (W ! (n mod columns)) (rW (slBounds s))]"
  let ?H = "H[n div columns := max (H ! (n div columns)) (rH (slBounds s))]"
  have rest: "fold (grid_step columns) (List.enumerate (Suc n) ss) (?W, ?H) = (W', H')"
    using Cons.prems by (simp add: grid_step_def)
  have later: "(\<exists>k<length ss. P (Suc n + k) (ss ! k)) \<Longrightarrow> \<exists>k<length (s # ss). P (n + k) ((s # ss) ! k)" for P
    by (metis Suc_less_eq add_Suc_right add_Suc_shift length_Cons nth_Cons_Suc)
  have now: "P n s \<Longrightarrow> \<exists>k<length (s # ss). P (n + k) ((s # ss) ! k)" for P
    by (rule exI [of _ 0]) simp
  have w: "?W ! c = W ! c \<or> n mod columns = c \<and> ?W ! c = rW (slBounds s)" if "c < length W"
    using that by (cases "n mod columns = c") auto
  have h: "?H ! r = H ! r \<or> n div columns = r \<and> ?H ! r = rH (slBounds s)" if "r < length H"
    using that by (cases "n div columns = r") auto
  show ?case
  proof (intro conjI impI)
    assume c: "c < length W"
    then have "W' ! c = ?W ! c \<or> (\<exists>k<length ss. (Suc n + k) mod columns = c \<and> W' ! c = rW (slBounds (ss ! k)))"
      using Cons.IH [OF rest] by simp
    then show "W' ! c = W ! c \<or> (\<exists>k<length (s # ss). (n + k) mod columns = c \<and> W' ! c = rW (slBounds ((s # ss) ! k)))"
      using w [OF c] later [of "\<lambda>i x. i mod columns = c \<and> W' ! c = rW (slBounds x)"]
        now [of "\<lambda>i x. i mod columns = c \<and> W' ! c = rW (slBounds x)"] by argo
  next
    assume r: "r < length H"
    then have "H' ! r = ?H ! r \<or> (\<exists>k<length ss. (Suc n + k) div columns = r \<and> H' ! r = rH (slBounds (ss ! k)))"
      using Cons.IH [OF rest] by simp
    then show "H' ! r = H ! r \<or> (\<exists>k<length (s # ss). (n + k) div columns = r \<and> H' ! r = rH (slBounds ((s # ss) ! k)))"
      using h [OF r] later [of "\<lambda>i x. i div columns = r \<and> H' ! r = rH (slBounds x)"]
        now [of "\<lambda>i x. i div columns = r \<and> H' ! r = rH (slBounds x)"] by argo
  qed
qed

text \<open>A column is exactly as wide as its widest member, and a row as high as its highest.\<close>

definition largest :: "(rect \<Rightarrow> real) \<Rightarrow> (nat \<Rightarrow> bool) \<Rightarrow> rect list \<Rightarrow> real" where
  "largest f P rs = Max {f (rs ! k) |k. k < length rs \<and> P k}"

lemma largest_eq:
  assumes "\<forall>k<length rs. P k \<longrightarrow> f (rs ! k) \<le> m" and "\<exists>k<length rs. P k \<and> f (rs ! k) = m"
  shows "largest f P rs = m"
  unfolding largest_def
proof (rule Max_eqI)
  show "finite {f (rs ! k) |k. k < length rs \<and> P k}" by simp
qed (use assms in auto)

lemma grid_sizes_exact:
  assumes sizes: "grid_sizes columns ss = (W, H)" "0 < columns" and i: "i < length ss"
    and proper: "\<forall>s\<in>set ss. proper (slBounds s)"
  shows "W ! (i mod columns) = largest rW (\<lambda>k. k mod columns = i mod columns) (map slBounds ss)"
    and "H ! (i div columns) = largest rH (\<lambda>k. k div columns = i div columns) (map slBounds ss)"
proof -
  let ?rows = "(length ss + columns - 1) div columns"
  note cover = grid_sizes_cover [OF sizes]
  have pos: "0 \<le> rW (slBounds (ss ! i))" "0 \<le> rH (slBounds (ss ! i))" using proper i by (auto simp: proper_def)
  have run: "fold (grid_step columns) (List.enumerate 0 ss) (replicate columns 0, replicate ?rows 0) = (W, H)"
    using sizes(1) by (simp add: grid_sizes_fold)
  have rows: "length H = ?rows"
    using conjunct1 [OF conjunct2 [OF grid_fold_covers [OF run]]] unfolding wider_def length_replicate by (rule sym [OF conjunct1])
  have "W ! (i mod columns) = 0 \<or> (\<exists>k<length ss. k mod columns = i mod columns \<and> W ! (i mod columns) = rW (slBounds (ss ! k)))"
    using conjunct1 [OF grid_fold_attained [OF run, of "i mod columns" 0]] sizes(2) by simp
  then have "\<exists>k<length ss. k mod columns = i mod columns \<and> W ! (i mod columns) = rW (slBounds (ss ! k))"
    using cover(4) [OF i] pos(1) i by fastforce
  then show "W ! (i mod columns) = largest rW (\<lambda>k. k mod columns = i mod columns) (map slBounds ss)"
    using cover(4) by (intro largest_eq [symmetric]) (auto, metis)
  have "H ! (i div columns) = 0 \<or> (\<exists>k<length ss. k div columns = i div columns \<and> H ! (i div columns) = rH (slBounds (ss ! k)))"
    using conjunct2 [OF grid_fold_attained [OF run, of 0 "i div columns"]] cover(4) [OF i] rows by simp
  then have "\<exists>k<length ss. k div columns = i div columns \<and> H ! (i div columns) = rH (slBounds (ss ! k))"
    using cover(4) [OF i] pos(2) i by fastforce
  then show "H ! (i div columns) = largest rH (\<lambda>k. k div columns = i div columns) (map slBounds ss)"
    using cover(4) by (intro largest_eq [symmetric]) (auto, metis)
qed

lemma starts_of_Suc: "k < length sizes \<Longrightarrow> starts_of start gap sizes (Suc k) = starts_of start gap sizes k + sizes ! k + gap"
  by (simp add: starts_of_def take_Suc_conv_app_nth)

lemma starts_apart:
  assumes "\<forall>x\<in>set sizes. 0 \<le> x" and "0 \<le> gap" and "i < j" and "j < length sizes"
  shows "starts_of start gap sizes i + sizes ! i + gap \<le> starts_of start gap sizes j"
  using assms(3,4)
proof (induction j)
  case 0
  then show ?case by simp
next
  case (Suc j)
  have step: "starts_of start gap sizes (Suc j) = starts_of start gap sizes j + sizes ! j + gap"
    using Suc.prems(2) by (simp add: starts_of_Suc)
  show ?case
  proof (cases "i = j")
    case True
    with step show ?thesis by simp
  next
    case False
    have "0 \<le> sizes ! j" using assms(1) Suc.prems(2) by simp
    with Suc False step assms(2) show ?thesis by simp
  qed
qed

text \<open>Two cells of the grid lie in different columns or in different rows.\<close>

lemma grid_cells_apart:
  assumes sizes: "grid_sizes columns ss = (W, H)" "0 < columns" and gaps: "0 \<le> cg" "0 \<le> rg"
    and place: "\<And>k. k < length ss \<Longrightarrow> place k = \<lparr>rX = starts_of x cg W (k mod columns), rY = starts_of y rg H (k div columns),
      rW = rW (slBounds (ss ! k)), rH = rH (slBounds (ss ! k))\<rparr>"
    and ij: "i < length ss" "j < length ss" "i \<noteq> j"
  shows "\<not> rectsCloserThan (place i) (place j) (min cg rg)"
proof -
  note cover = grid_sizes_cover [OF sizes]
  have column: "hi AxisX (place a) + min cg rg \<le> lo AxisX (place b)"
    if "a < length ss" "b < length ss" "a mod columns < b mod columns" for a b
  proof -
    have "b mod columns < length W" using cover(1) sizes(2) by simp
    from starts_apart [OF cover(2) gaps(1) that(3) this, of x] cover(4) [OF that(1)]
    show ?thesis by (simp add: place that lo_def hi_def rectRight_def min_def)
  qed
  have row: "hi AxisY (place a) + min cg rg \<le> lo AxisY (place b)"
    if "a < length ss" "b < length ss" "a div columns < b div columns" for a b
  proof -
    have "b div columns < length H" using cover(4) [OF that(2)] by simp
    from starts_apart [OF cover(3) gaps(2) that(3) this, of y] cover(4) [OF that(1)]
    show ?thesis by (simp add: place that lo_def hi_def rectBottom_def min_def)
  qed
  have "i mod columns \<noteq> j mod columns \<or> i div columns \<noteq> j div columns"
    using ij(3) by (metis div_mult_mod_eq)
  then consider "i mod columns < j mod columns" | "j mod columns < i mod columns"
    | "i div columns < j div columns" | "j div columns < i div columns" by linarith
  then show ?thesis
  proof cases
    case 1
    with ij column [of i j] show ?thesis by (auto dest: apart)
  next
    case 2
    with ij column [of j i] show ?thesis by (auto dest: apart)
  next
    case 3
    with ij row [of i j] show ?thesis by (auto dest: apart)
  next
    case 4
    with ij row [of j i] show ?thesis by (auto dest: apart)
  qed
qed

text \<open>
  The boxes \<open>rs\<close> fill the grid row by row: the one with index \<open>k\<close> is in column \<open>k mod columns\<close> and row
  \<open>k div columns\<close>. The members of a column have one left edge and those of a row one top edge; the next
  column begins a column gap after the widest member of a column, the next row a row gap below the highest of
  a row.
\<close>

definition in_grid :: "nat \<Rightarrow> real \<Rightarrow> real \<Rightarrow> rect list \<Rightarrow> bool" where
  "in_grid columns cg rg rs \<longleftrightarrow> (\<forall>i<length rs. \<forall>j<length rs.
     (i mod columns = j mod columns \<longrightarrow> rX (rs ! i) = rX (rs ! j)) \<and>
     (i div columns = j div columns \<longrightarrow> rY (rs ! i) = rY (rs ! j)) \<and>
     (Suc (i mod columns) = j mod columns \<longrightarrow>
       rX (rs ! j) = rX (rs ! i) + largest rW (\<lambda>k. k mod columns = i mod columns) rs + cg) \<and>
     (Suc (i div columns) = j div columns \<longrightarrow>
       rY (rs ! j) = rY (rs ! i) + largest rH (\<lambda>k. k div columns = i div columns) rs + rg))"

lemma largest_cong:
  assumes "length rs = length qs" and "\<And>k. k < length qs \<Longrightarrow> f (rs ! k) = f (qs ! k)"
  shows "largest f P rs = largest f P qs"
proof -
  have "{f (rs ! k) |k. k < length rs \<and> P k} = {f (qs ! k) |k. k < length qs \<and> P k}"
    using assms by force
  then show ?thesis by (simp add: largest_def)
qed

lemma in_grid_shift:
  assumes "in_grid columns cg rg rs"
  shows "in_grid columns cg rg (map (shift_rect dy) rs)"
proof -
  have "largest rW P (map (shift_rect dy) rs) = largest rW P rs" "largest rH P (map (shift_rect dy) rs) = largest rH P rs" for P
    by (rule largest_cong; simp)+
  note same = this
  have "(a + dy = b + dy + c + d) = (a = b + c + d)" for a b c d :: real by auto
  then have "in_grid columns cg rg (map (shift_rect dy) rs) = in_grid columns cg rg rs"
    unfolding in_grid_def length_map same by (intro all_cong) simp
  with assms show ?thesis by simp
qed

lemma grid_cells_in_grid:
  assumes sizes: "grid_sizes columns ss = (W, H)" "0 < columns" and proper: "\<forall>s\<in>set ss. proper (slBounds s)"
    and len: "length rs = length ss"
    and place: "\<And>k. k < length ss \<Longrightarrow> rs ! k = \<lparr>rX = starts_of x cg W (k mod columns), rY = starts_of y rg H (k div columns),
      rW = rW (slBounds (ss ! k)), rH = rH (slBounds (ss ! k))\<rparr>"
  shows "in_grid columns cg rg rs"
proof -
  note cover = grid_sizes_cover [OF sizes]
  have same: "largest rW P rs = largest rW P (map slBounds ss)" "largest rH P rs = largest rH P (map slBounds ss)" for P
    by (rule largest_cong; simp add: len place)+
  note exact = grid_sizes_exact [OF sizes _ proper, folded same]
  have column: "rX (rs ! j) = rX (rs ! i) + largest rW (\<lambda>k. k mod columns = i mod columns) rs + cg"
    if "i < length ss" "j < length ss" "Suc (i mod columns) = j mod columns" for i j
  proof -
    have "i mod columns < length W" using cover(1) sizes(2) by simp
    then have "starts_of x cg W (j mod columns) = starts_of x cg W (i mod columns) + W ! (i mod columns) + cg"
      unfolding that(3) [symmetric] by (rule starts_of_Suc)
    with exact(1) [OF that(1)] show ?thesis by (simp add: place that(1,2))
  qed
  have row: "rY (rs ! j) = rY (rs ! i) + largest rH (\<lambda>k. k div columns = i div columns) rs + rg"
    if "i < length ss" "j < length ss" "Suc (i div columns) = j div columns" for i j
  proof -
    have "i div columns < length H" using cover(4) [OF that(1)] by simp
    then have "starts_of y rg H (j div columns) = starts_of y rg H (i div columns) + H ! (i div columns) + rg"
      unfolding that(3) [symmetric] by (rule starts_of_Suc)
    with exact(2) [OF that(1)] show ?thesis by (simp add: place that(1,2))
  qed
  show ?thesis
    unfolding in_grid_def len
  proof (intro allI impI conjI)
    fix i j assume ij: "i < length ss" "j < length ss"
    show "rX (rs ! i) = rX (rs ! j)" if "i mod columns = j mod columns" using that by (simp add: place ij)
    show "rY (rs ! i) = rY (rs ! j)" if "i div columns = j div columns" using that by (simp add: place ij)
    show "rX (rs ! j) = rX (rs ! i) + largest rW (\<lambda>k. k mod columns = i mod columns) rs + cg"
      if "Suc (i mod columns) = j mod columns" using column [OF ij that] .
    show "rY (rs ! j) = rY (rs ! i) + largest rH (\<lambda>k. k div columns = i div columns) rs + rg"
      if "Suc (i div columns) = j div columns" using row [OF ij that] .
  qed
qed

lemma gridMoves_cells:
  assumes wf: "layout_wf l" and few: "length (plShapes l) \<le> 500" and ids: "ids \<noteq> []" "on_page l ids" and cols: "0 < columns"
    and gaps: "cg = or_else colGap (or_else (boGap options) layout_gap)" "rg = or_else rGap (or_else (boGap options) layout_gap)"
      "0 \<le> cg" "0 \<le> rg"
  shows "\<exists>moves. gridMoves l ids columns options colGap rGap = Inr moves \<and>
    arranged l ids options (min cg rg) (max cg rg) moves \<and> in_grid columns cg rg (map (after_move l) moves)"
proof -
  obtain start where start: "origin l ids options = Inr start" using origin_defined [OF ids(2,1)] by blast
  note facts = members_facts [OF wf ids(2)]
  let ?ss = "members l ids"
  obtain W H where sizes: "grid_sizes columns ?ss = (W, H)" by fastforce
  define cell where "cell = (\<lambda>(index, s). move_to s (starts_of (pX start) cg W (index mod columns))
    (starts_of (pY start) rg H (index div columns)))"
  let ?moves = "map cell (List.enumerate 0 ?ss)"
  have nth: "?moves ! k = cell (k, ?ss ! k)" if "k < length ?ss" for k
    using that by (simp add: nth_enumerate_eq)
  have "map mvId ?moves = map slId ?ss"
    by (rule nth_equalityI) (simp_all add: nth_enumerate_eq cell_def move_to_def)
  with facts(1) have idl: "map mvId ?moves = uniq ids" by simp
  then have ne: "?moves \<noteq> []" using ids(1) by (metis list.map_disc_iff set_empty set_uniq)
  have box: "after_move l (?moves ! k) = \<lparr>rX = starts_of (pX start) cg W (k mod columns),
      rY = starts_of (pY start) rg H (k div columns), rW = rW (slBounds (?ss ! k)), rH = rH (slBounds (?ss ! k))\<rparr>"
    if "k < length ?ss" for k
    using facts(2) [of "?ss ! k"] that by (simp add: nth_enumerate_eq cell_def after_move_to)
  have apart: "\<not> rectsCloserThan (after_move l (?moves ! i)) (after_move l (?moves ! j)) (min cg rg)" if "i < j" "j < length ?moves" for i j
    by (rule grid_cells_apart [OF sizes cols gaps(3,4) box]) (use that in simp_all)
  have "on_page l (map mvId ?moves)" unfolding idl by (rule facts(4))
  from clearBlock_arranged [OF few ne this idl apart] obtain dy where
    "clearBlock l ?moves options (max cg rg) = Inr (map (shift_move 0 dy) ?moves)"
    "arranged l ids options (min cg rg) (max cg rg) (map (shift_move 0 dy) ?moves)" by blast
  moreover have "gridMoves l ids columns options colGap rGap = clearBlock l ?moves options (max cg rg)"
    by (simp add: gridMoves_def facts(3) start sizes Let_def cell_def gaps(1,2) case_prod_beta')
  moreover have "in_grid columns cg rg (map (after_move l) (map (shift_move 0 dy) ?moves))"
  proof -
    have "in_grid columns cg rg (map (after_move l) ?moves)"
    proof (rule grid_cells_in_grid [OF sizes cols])
      show "\<forall>s\<in>set ?ss. proper (slBounds s)" using facts(2) by blast
      show "map (after_move l) ?moves ! k = \<lparr>rX = starts_of (pX start) cg W (k mod columns),
          rY = starts_of (pY start) rg H (k div columns), rW = rW (slBounds (?ss ! k)), rH = rH (slBounds (?ss ! k))\<rparr>"
        if "k < length ?ss" for k
        using box [OF that] that by (simp del: map_map)
    qed simp
    from in_grid_shift [OF this, of dy] show ?thesis by (simp add: comp_def after_shift)
  qed
  ultimately show ?thesis by (intro exI conjI) (simp_all del: map_map)
qed

end
