(* ===== verification/LayoutClaims.thy ===== *)
theory LayoutClaims
  imports LayoutPlacement
begin

text \<open>
  The properties of board layout: the computed page layout, sliding, arranging and verifying.
\<close>

section \<open>A small board\<close>

definition demo_record :: "string \<Rightarrow> string \<Rightarrow> string \<Rightarrow> shape_record" where
  "demo_record i ty parent = \<lparr>srId = i, srType = ty, srX = 0, srY = 0, srRotation = 0, srIndex = ''a1'',
     srParent = parent, srProps = [], srMeta = None, srLocked = False\<rparr>"

definition demo_input :: layout_input where
  "demo_input = \<lparr>liPage = ''page'', liShapes = [demo_record ''inner'' ''geo'' ''frame'', demo_record ''lost'' ''geo'' ''nowhere'',
     demo_record ''frame'' ''frame'' ''page''], liBindings = [], liMeasurements = []\<rparr>"

definition demo_shape :: "string \<Rightarrow> nat \<Rightarrow> real \<Rightarrow> shape_layout" where
  "demo_shape i z x = \<lparr>slId = i, slType = ''geo'', slParent = ''page'', slIndex = ''a1'', slZ = z, slRotation = 0,
     slBounds = \<lparr>rX = x, rY = 0, rW = 100, rH = 50\<rparr>, slSource = DeclaredSize, slVerification = Verified,
     slLocalW = 100, slLocalH = 50, slLocked = False, slLabelMayOverflow = False, slMeasurementStale = False,
     slUnknownType = False, slArrow = None\<rparr>"

definition demo_page :: page_layout where
  "demo_page = \<lparr>plPage = ''page'', plShapes = [demo_shape ''a'' 0 0, demo_shape ''b'' 1 300],
     plById = [(''a'', demo_shape ''a'' 0 0), (''b'', demo_shape ''b'' 1 300)],
     plChildrenOf = [(''page'', [''a'', ''b''])], plExtent = Some \<lparr>rX = 0, rY = 0, rW = 400, rH = 50\<rparr>\<rparr>"

definition no_options :: block_options where
  "no_options = \<lparr>boGap = None, boX = None, boY = None, boAvoidCollisions = None\<rparr>"

lemma demo_page_wf: "layout_wf demo_page"
  by (simp add: layout_wf_def demo_page_def demo_shape_def child_ids_def proper_def less_Suc_eq)

lemma demo_page_parts:
  "plShapes demo_page = [demo_shape ''a'' 0 0, demo_shape ''b'' 1 300]"
  "plById demo_page = [(''a'', demo_shape ''a'' 0 0), (''b'', demo_shape ''b'' 1 300)]"
  "skip_of demo_page ''a'' = [''a'']" "skip_of demo_page ''b'' = [''b'']"
  by (simp_all add: skip_of_def descendantsOf_def ancestorsOf_def demo_page_def demo_shape_def child_ids_def eval_nat_numeral)

lemma demo_fields:
  "slId (demo_shape i z x) = i" "solid (demo_shape i z x)" "slBounds (demo_shape i z x) = \<lparr>rX = x, rY = 0, rW = 100, rH = 50\<rparr>"
  "reasonFor (demo_shape i z x) = None"
  by (simp_all add: demo_shape_def solid_def reasonFor_def)

section \<open>Properties\<close>

text \<open>
  C30: The page layout computed from any records, parent loops and duplicates included, is well formed: each
  shape once, the maps agree with the list, every shape after its parent and at its place in the paint order,
  no box of negative size, nothing estimated called verified, every group enclosing its members. Its searches
  are exact in spite of their depth guards: \<open>descendantsOf\<close> gives the strict descendants, and \<open>ancestorsOf\<close> the
  strict ancestors (the comment in the source counts the shape itself among them; the code does not). When the
  records have distinct ids, exactly the shapes at most thirty-one steps below the page are listed (the comment
  in the source says every shape under the page).
\<close>

theorem layout_tree:
  "layout_wf (computeLayout numtext inp) \<and>
   (\<forall>i. set (descendantsOf (computeLayout numtext inp) i) = {d. (d, i) \<in> (contained_in (computeLayout numtext inp))\<^sup>+} \<and>
     set (ancestorsOf (computeLayout numtext inp) i) =
       {a. a \<noteq> liPage inp \<and> (i, a) \<in> (contained_in (computeLayout numtext inp))\<^sup>+}) \<and>
   (distinct (liPage inp # map srId (liShapes inp)) \<longrightarrow> (\<forall>s\<in>set (liShapes inp).
     srId s \<in> slId ` set (plShapes (computeLayout numtext inp)) \<longleftrightarrow>
     (\<exists>n\<le>31. (srId s, liPage inp) \<in> parent_rel (liShapes inp) ^^ n)))"
proof (intro conjI allI impI ballI)
  show "layout_wf (computeLayout numtext inp)" by (rule computeLayout_wf)
next
  fix i
  show "set (descendantsOf (computeLayout numtext inp) i) = {d. (d, i) \<in> (contained_in (computeLayout numtext inp))\<^sup>+}"
    by (rule descendants_exact)
  show "set (ancestorsOf (computeLayout numtext inp) i) =
      {a. a \<noteq> liPage inp \<and> (i, a) \<in> (contained_in (computeLayout numtext inp))\<^sup>+}"
    by (rule ancestors_exact)
next
  fix s assume ids: "distinct (liPage inp # map srId (liShapes inp))" and s: "s \<in> set (liShapes inp)"
  note inv = walk_page_inv [of inp]
  have listed: "slId ` set (plShapes (computeLayout numtext inp)) = srId ` set (walked inp)"
    using plShapes_ids(1) [of numtext inp] by (metis set_map)
  show "srId s \<in> slId ` set (plShapes (computeLayout numtext inp)) \<longleftrightarrow>
      (\<exists>n\<le>31. (srId s, liPage inp) \<in> parent_rel (liShapes inp) ^^ n)"
  proof
    assume "srId s \<in> slId ` set (plShapes (computeLayout numtext inp))"
    then obtain x where "x \<in> set (walked inp)" "srId x = srId s" by (auto simp: listed)
    with inv obtain n where "n \<le> 31" "(srId s, liPage inp) \<in> parent_rel (walked inp) ^^ n"
      unfolding walk_inv_def walked_def by metis
    moreover have "parent_rel (walked inp) \<subseteq> parent_rel (liShapes inp)"
      using inv by (intro parent_rel_mono) (simp add: walk_inv_def walked_def)
    ultimately show "\<exists>n\<le>31. (srId s, liPage inp) \<in> parent_rel (liShapes inp) ^^ n"
      using relpow_mono by blast
  next
    assume "\<exists>n\<le>31. (srId s, liPage inp) \<in> parent_rel (liShapes inp) ^^ n"
    then obtain n where n: "n \<le> 31" "(srId s, liPage inp) \<in> parent_rel (liShapes inp) ^^ n" by blast
    have "srId s \<noteq> liPage inp" using ids imageI [OF s, of srId] by auto
    with n(2) obtain k where k: "n = Suc k" by (cases n) auto
    have "reached (liShapes inp) 31 (liPage inp) (walk_page inp)"
      by (rule walk_page_complete) (use ids in auto)
    moreover have "k < 31" using n(1) k by simp
    moreover have "(srId s, liPage inp) \<in> parent_rel (liShapes inp) ^^ Suc k" using n(2) k by (simp only:)
    ultimately have "s \<in> set (walked inp)" using s unfolding reached_def walked_def by blast
    then show "srId s \<in> slId ` set (plShapes (computeLayout numtext inp))" by (simp add: listed)
  qed
qed

theorem layout_tree_witness:
  "''inner'' \<in> slId ` set (plShapes (computeLayout (\<lambda>_. []) demo_input))"
proof -
  have ids: "distinct (liPage demo_input # map srId (liShapes demo_input))"
    by (simp add: demo_input_def demo_record_def)
  have "(''inner'', ''page'') \<in> parent_rel (liShapes demo_input) ^^ Suc (Suc 0)"
    by (auto simp: demo_input_def demo_record_def parent_rel_def relcomp_unfold)
  then have "\<exists>n\<le>31. (''inner'', liPage demo_input) \<in> parent_rel (liShapes demo_input) ^^ n"
    by (intro exI [of _ "Suc (Suc 0)"] conjI) (simp_all add: demo_input_def del: relpow.simps)
  moreover have "demo_record ''inner'' ''geo'' ''frame'' \<in> set (liShapes demo_input)" by (simp add: demo_input_def)
  moreover have "srId (demo_record ''inner'' ''geo'' ''frame'') = ''inner''" by (simp add: demo_record_def)
  ultimately show ?thesis
    using mp [OF conjunct2 [OF conjunct2 [OF layout_tree [where numtext = "\<lambda>_. []" and inp = demo_input]]] ids] by (metis (no_types, lifting))
qed

text \<open>
  C31: On a page with at most 500 blockers \<open>slideClear\<close> ends at the first clear position: it keeps the other
  coordinate, moves only forwards, answers a position at least the gap away from every blocker, and every
  position it passed over was too close to one; it says that it moved exactly when it did. The 500 iterations
  are exactly enough for that: a staircase of 501 blockers ends on one of them.
\<close>

theorem slide_first_clear:
  "(length blockers \<le> 500 \<longrightarrow>
     (\<exists>t\<ge>along ax start. stop_of (slideClear blockers w h start ax gap) = at_along ax t start \<and>
        hits_at blockers w h gap (at_along ax t start) = [] \<and>
        (\<forall>u. along ax start \<le> u \<and> u < t \<longrightarrow> hits_at blockers w h gap (at_along ax u start) \<noteq> []) \<and>
        sdMoved (slideClear blockers w h start ax gap) = (at_along ax t start \<noteq> start))) \<and>
   hits_at (staircase 501) 1 1 0 (stop_of (slideClear (staircase 501) 1 1 \<lparr>pX = 0, pY = 0\<rparr> AxisY 0)) \<noteq> []"
proof
  show "length blockers \<le> 500 \<longrightarrow> (\<exists>t\<ge>along ax start. stop_of (slideClear blockers w h start ax gap) = at_along ax t start \<and>
      hits_at blockers w h gap (at_along ax t start) = [] \<and>
      (\<forall>u. along ax start \<le> u \<and> u < t \<longrightarrow> hits_at blockers w h gap (at_along ax u start) \<noteq> []) \<and>
      sdMoved (slideClear blockers w h start ax gap) = (at_along ax t start \<noteq> start))"
    using slideClear_clear [of blockers ax start w h gap] by blast
  show "hits_at (staircase 501) 1 1 0 (stop_of (slideClear (staircase 501) 1 1 \<lparr>pX = 0, pY = 0\<rparr> AxisY 0)) \<noteq> []"
    using cap_reached by (simp add: stop_of_def)
qed

theorem slide_first_clear_witness:
  "\<exists>t\<ge>0. stop_of (slideClear [\<lparr>bkId = ''b'', bkRect = \<lparr>rX = 0, rY = 20, rW = 100, rH = 50\<rparr>\<rparr>] 10 10 \<lparr>pX = 5, pY = 0\<rparr> AxisY 64)
     = \<lparr>pX = 5, pY = t\<rparr> \<and> t = 134"
proof -
  let ?b = "\<lparr>bkId = ''b'', bkRect = \<lparr>rX = 0, rY = 20, rW = 100, rH = 50\<rparr>\<rparr>"
  have "length [?b] \<le> 500" by simp
  then obtain t where t: "0 \<le> t" "stop_of (slideClear [?b] 10 10 \<lparr>pX = 5, pY = 0\<rparr> AxisY 64) = \<lparr>pX = 5, pY = t\<rparr>"
      "hits_at [?b] 10 10 64 \<lparr>pX = 5, pY = t\<rparr> = []"
      "\<And>u. 0 \<le> u \<Longrightarrow> u < t \<Longrightarrow> hits_at [?b] 10 10 64 \<lparr>pX = 5, pY = u\<rparr> \<noteq> []"
    using slide_first_clear [of "[?b]" AxisY "\<lparr>pX = 5, pY = 0\<rparr>" 10 10 64]
    by (auto simp: along_def at_along_def)
  have hits: "hits_at [?b] 10 10 64 \<lparr>pX = 5, pY = u\<rparr> = [] \<longleftrightarrow> u \<ge> 134" if "0 \<le> u" for u
    using that by (auto simp: hits_at_def rectsCloserThan_def rectRight_def rectBottom_def)
  from t(1,3) hits have "134 \<le> t" by blast
  moreover have "\<not> 134 < t" using t(4) [of 134] hits [of 134] by auto
  ultimately show ?thesis using t(1,2) by (intro exI [of _ t]) simp
qed

text \<open>
  C32: On a well-formed page of at most 500 shapes, with gaps that are not negative and a grid of at least one
  column, arranging any shapes of the page succeeds and moves each of them once, in the order given. In a row and
  in a stack consecutive members end exactly the gap apart and all members are aligned. A grid is filled row by
  row: member \<open>k\<close> is in column \<open>k mod columns\<close> and row \<open>k div columns\<close>, the members of a column have one left
  edge and those of a row one top edge, and the next column or row begins its gap after the widest or highest
  member of the one before; no two members are closer than the smaller gap. Unless the caller switched
  collisions off (\<open>avoidCollisions: false\<close>), no member ends closer than the gap, in a grid the larger gap, to a
  shape that was not moved and is neither inside nor around a member. With more than 500 shapes the slide to a
  clear place may give up (C31). Coordinates are real numbers, so the exact distances are those before the
  rounding of doubles.
\<close>

theorem blocks_arranged:
  assumes "layout_wf l" and "length (plShapes l) \<le> 500" and "ids \<noteq> []" and "on_page l ids"
    and "gap = or_else (boGap options) layout_gap" "cg = or_else colGap gap" "rg = or_else rGap gap"
    and "0 \<le> gap" "0 \<le> cg" "0 \<le> rg" and "0 < columns"
  shows "\<exists>row stack grid. rowMoves l ids options al = Inr row \<and> stackMoves l ids options al = Inr stack \<and>
    gridMoves l ids columns options colGap rGap = Inr grid \<and>
    arranged l ids options gap gap row \<and> in_line AxisX al gap (map (after_move l) row) \<and>
    arranged l ids options gap gap stack \<and> in_line AxisY al gap (map (after_move l) stack) \<and>
    arranged l ids options (min cg rg) (max cg rg) grid \<and> in_grid columns cg rg (map (after_move l) grid)"
  using rowMoves_line [OF assms(1-4), of options al] stackMoves_line [OF assms(1-4), of options al]
    gridMoves_cells [OF assms(1-4,11), of cg colGap options rg rGap] assms(5-10)
  by metis

theorem blocks_arranged_witness:
  "\<exists>row stack grid. rowMoves demo_page [''b'', ''a''] no_options AlignCenter = Inr row \<and>
    stackMoves demo_page [''b'', ''a''] no_options AlignCenter = Inr stack \<and>
    gridMoves demo_page [''b'', ''a''] 2 no_options (Some 10) None = Inr grid \<and>
    arranged demo_page [''b'', ''a''] no_options 64 64 row \<and> arranged demo_page [''b'', ''a''] no_options 10 64 grid \<and>
    in_grid 2 10 64 (map (after_move demo_page) grid)"
proof -
  have "length (plShapes demo_page) \<le> 500" "on_page demo_page [''b'', ''a'']"
    by (simp_all add: demo_page_def on_page_def)
  from blocks_arranged [OF demo_page_wf this(1) _ this(2), of 64 no_options 10 "Some 10" 64 None 2 AlignCenter]
  show ?thesis by (auto simp: no_options_def or_else_def layout_gap_def)
qed

text \<open>
  C33: A verification report without a complaint is true. When the status is \<open>verified\<close> and no pair is too
  close, a touched shape overlaps no other shape of the page by more than one unit of area (containers and
  contents apart), touched shapes keep the requested distance up to the tolerance, and neither the touched
  shape nor a neighbour closer than twice the default gap has estimated, stale or overflowing bounds.
\<close>

theorem verified_report_true:
  assumes "layout_wf l" and "lvStatus (verifyLayout l touched ex) = AllVerified" and "lvTooClose (verifyLayout l touched ex) = []"
    and "a \<in> set (plShapes l)" "slId a \<in> set touched" "solid a"
    and "b \<in> set (plShapes l)" "solid b" "slId b \<notin> set (skip_of l (slId a))"
  shows "overlapArea (slBounds a) (slBounds b) \<le> 1 \<and> reasonFor a = None \<and>
    (slId b \<in> set touched \<longrightarrow> (\<forall>g. exRequestedGap ex = Some g \<longrightarrow> g - spacing_tolerance \<le> gapBetween (slBounds a) (slBounds b))) \<and>
    (gapBetween (slBounds a) (slBounds b) < layout_gap * 2 \<longrightarrow> reasonFor b = None)"
proof -
  have look: "map_of (plById l) (slId s) = Some s" if "s \<in> set (plShapes l)" for s
    using assms(1) that by (auto simp: layout_wf_def comp_def intro!: map_of_is_SomeI)
  have "compared l touched a b" using assms(4-9) look by (simp add: compared_def)
  from verify_sound [OF assms(2,3) this] look [OF assms(7)] show ?thesis by blast
qed

theorem verified_report_true_witness:
  "overlapArea (slBounds (demo_shape ''a'' 0 0)) (slBounds (demo_shape ''b'' 1 300)) \<le> 1 \<and>
    64 - spacing_tolerance \<le> gapBetween (slBounds (demo_shape ''a'' 0 0)) (slBounds (demo_shape ''b'' 1 300))"
proof -
  let ?ex = "\<lparr>exPairs = [(''a'', ''b'')], exRequestedGap = Some 64, exAlignAxis = Some ATop, exAlignIds = Some [''a'', ''b'']\<rparr>"
  let ?v = "verifyLayout demo_page [''a'', ''b''] ?ex"
  have eqs: "lvStatus ?v = AllVerified" "lvTooClose ?v = []"
    by (simp_all add: verifyLayout_def Let_def check_item_def check_pair_def demo_page_parts demo_fields uniq_def
        overlapArea_def gapBetween_def rectRight_def rectBottom_def layout_gap_def spacing_tolerance_def
        note_unverified_def map_filter_simps)
  show ?thesis
    using verified_report_true [OF demo_page_wf eqs, of "demo_shape ''a'' 0 0" "demo_shape ''b'' 1 300"]
    by (simp add: demo_page_parts demo_fields)
qed

end
