(* ===== verification/LayoutService.thy ===== *)
theory LayoutService
  imports LayoutVerify LayoutContain
begin

text \<open>
  The server's side of layout: \<open>server/layout-service.ts\<close> (reading a layout, moving a record by a
  page-space delta, re-routing the arrows the API drew) and \<open>server/layout-measurements.ts\<close> (the table of
  sizes that browsers reported).
\<close>

section \<open>Reading a layout\<close>

record layout_query =
  lqIds :: "string list option"
  lqTypes :: "string list option"

datatype query_error = QueryError nat

definition is_shape_id :: "string \<Rightarrow> bool" where
  "is_shape_id s \<longleftrightarrow> take 6 s = ''shape:'' \<and> matches_class is_id_char 1 80 (drop 6 s)"

definition is_type_name :: "string \<Rightarrow> bool" where
  "is_type_name s \<longleftrightarrow> (case s of [] \<Rightarrow> False
     | c # cs \<Rightarrow> is_lower c \<and> matches_class (\<lambda>d. is_lower d \<or> is_digit d \<or> d = CHR ''_'' \<or> d = CHR ''-'') 0 39 cs)"

definition query_list :: "(string \<Rightarrow> bool) \<Rightarrow> string option \<Rightarrow> query_error + string list option" where
  "query_list pattern value = (case value of None \<Rightarrow> Inr None
     | Some text \<Rightarrow> if text = [] then Inr None else
         (let parts = filter (\<lambda>p. p \<noteq> []) (map js_trim (split_on CHR '','' text))
          in bindR (guardR (length parts \<le> 500) (QueryError 400)) (\<lambda>_.
             bindR (guardR (list_all pattern parts) (QueryError 400)) (\<lambda>_. Inr (Some parts)))))"

definition parseLayoutQuery :: "string option \<Rightarrow> string option \<Rightarrow> query_error + layout_query" where
  "parseLayoutQuery ids types = bindR (query_list is_shape_id ids) (\<lambda>i.
     bindR (query_list is_type_name types) (\<lambda>t. Inr \<lparr>lqIds = i, lqTypes = t\<rparr>))"

definition entryOf :: "shape_layout \<Rightarrow> shape_layout" where
  "entryOf s = (let rnd = round_to 1000; pt = (\<lambda>p. \<lparr>pX = rnd (pX p), pY = rnd (pY p)\<rparr>)
     in s\<lparr>slBounds := roundRect (slBounds s), slRotation := rnd (slRotation s),
          slArrow := map_option (\<lambda>a. a\<lparr>alStart := pt (alStart a), alEnd := pt (alEnd a)\<rparr>) (slArrow s)\<rparr>)"

record layout_reply =
  lrPage :: string
  lrGap :: real
  lrBounds :: "rect option"
  lrMeasured :: nat
  lrDeclared :: nat
  lrEstimated :: nat
  lrUnverified :: nat
  lrShapes :: "shape_layout list"

definition selected :: "layout_query \<Rightarrow> shape_layout \<Rightarrow> bool" where
  "selected q s \<longleftrightarrow> (case lqIds q of None \<Rightarrow> True | Some ids \<Rightarrow> slId s \<in> set ids) \<and>
     (case lqTypes q of None \<Rightarrow> True | Some types \<Rightarrow> slType s \<in> set types)"

definition describeLayout :: "page_layout \<Rightarrow> layout_query \<Rightarrow> query_error + layout_reply" where
  "describeLayout l q = (let chosen = filter (selected q) (plShapes l);
       count = (\<lambda>P. length (filter P chosen))
     in bindR (guardR (length chosen \<le> max_layout_shapes) (QueryError 422)) (\<lambda>_. Inr
       \<lparr>lrPage = plPage l, lrGap = layout_gap, lrBounds = map_option roundRect (plExtent l),
        lrMeasured = count (\<lambda>s. slSource s = Measured), lrDeclared = count (\<lambda>s. slSource s = DeclaredSize),
        lrEstimated = count (\<lambda>s. slSource s = EstimatedSize), lrUnverified = count (\<lambda>s. slVerification s = Unverified),
        lrShapes = map entryOf chosen\<rparr>))"

lemma describe_counts:
  assumes "describeLayout l q = Inr r"
  shows "lrMeasured r + lrDeclared r + lrEstimated r = length (lrShapes r)" and "length (lrShapes r) \<le> 1500"
proof -
  have "length (filter (\<lambda>s. slSource s = Measured) xs) + length (filter (\<lambda>s. slSource s = DeclaredSize) xs) +
      length (filter (\<lambda>s. slSource s = EstimatedSize) xs) = length xs" for xs
  proof (induction xs)
    case (Cons s xs)
    then show ?case by (cases "slSource s") simp_all
  qed simp
  from this [of "filter (selected q) (plShapes l)"] assms show "lrMeasured r + lrDeclared r + lrEstimated r = length (lrShapes r)"
    by (auto simp: describeLayout_def Let_def res_simps)
  show "length (lrShapes r) \<le> 1500"
    using assms by (auto simp: describeLayout_def Let_def res_simps max_layout_shapes_def)
qed

section \<open>Moving a record\<close>

definition translateShape :: "shape_record \<Rightarrow> move \<Rightarrow> page_layout \<Rightarrow> shape_record" where
  "translateShape s delta l = (let rotation = (case map_of (plById l) (srParent s) of Some p \<Rightarrow> slRotation p | None \<Rightarrow> 0);
       c = cos (- rotation); n = sin (- rotation);
       dx = mvDx delta * c - mvDy delta * n; dy = mvDx delta * n + mvDy delta * c
     in s\<lparr>srX := srX s + dx, srY := srY s + dy\<rparr>)"

text \<open>The transforms of the walk are rigid: a rotation by the accumulated angle, and a translation.\<close>

definition rotates_by :: "real \<Rightarrow> matrix \<Rightarrow> bool" where
  "rotates_by r m \<longleftrightarrow> mA m = cos r \<and> mB m = sin r \<and> mC m = - sin r \<and> mD m = cos r"

lemma rotates_compose: "rotates_by r p \<Longrightarrow> rotates_by (r + srRotation s) (compose p (local_matrix s))"
  by (auto simp: rotates_by_def compose_def local_matrix_def Let_def cos_add sin_add algebra_simps)

lemma rotates_identity: "rotates_by 0 identity_matrix"
  by (simp add: rotates_by_def identity_matrix_def)

definition rigid :: "walk_state \<Rightarrow> bool" where
  "rigid st \<longleftrightarrow> (\<forall>i m. map_of (wkMatrix st) i = Some m \<longrightarrow> (\<exists>r. map_of (wkRotation st) i = Some r \<and> rotates_by r m))"

lemma rigid_enter: "rigid st \<Longrightarrow> p \<in> dom (map_of (wkMatrix st)) \<Longrightarrow> rigid (enter s p st)"
  by (fastforce simp: rigid_def enter_def js.look_put intro: rotates_compose)

lemma dom_walk_mono: "dom (map_of (wkMatrix st)) \<subseteq> dom (map_of (wkMatrix (walk levels shapes p st)))"
proof (induction levels arbitrary: p st)
  case 0
  show ?case by simp
next
  case (Suc levels)
  have enter: "dom (map_of (wkMatrix st)) \<subseteq> dom (map_of (wkMatrix (enter c p st)))" for c st
    by (auto simp: enter_def js.look_put)
  have "dom (map_of (wkMatrix st)) \<subseteq> dom (map_of (wkMatrix (walk_step levels shapes p c st)))" for c st
    using enter [of st c] Suc.IH [of "enter c p st" "srId c"] by (auto simp: walk_step_def)
  then have "dom (map_of (wkMatrix st)) \<subseteq> dom (map_of (wkMatrix (fold (walk_step levels shapes p) cs st)))" for cs
  proof (induction cs arbitrary: st)
    case (Cons c cs)
    from Cons.prems have "dom (map_of (wkMatrix st)) \<subseteq> dom (map_of (wkMatrix (walk_step levels shapes p c st)))" .
    also have "\<dots> \<subseteq> dom (map_of (wkMatrix (fold (walk_step levels shapes p) cs (walk_step levels shapes p c st))))"
      by (rule Cons.IH) (fact Cons.prems)
    finally show ?case by simp
  qed simp
  then show ?case by (simp add: walk_Suc del: walk.simps)
qed

lemma rigid_walk: "rigid st \<Longrightarrow> p \<in> dom (map_of (wkMatrix st)) \<Longrightarrow> rigid (walk levels shapes p st)"
proof (induction levels arbitrary: p st)
  case 0
  then show ?case by simp
next
  case (Suc levels)
  have step: "rigid (walk_step levels shapes p c st') \<and> dom (map_of (wkMatrix st')) \<subseteq> dom (map_of (wkMatrix (walk_step levels shapes p c st')))"
    if "rigid st'" "p \<in> dom (map_of (wkMatrix st'))" for c st'
  proof -
    have "srId c \<in> dom (map_of (wkMatrix (enter c p st')))" by (simp add: enter_def js.look_put)
    moreover have "dom (map_of (wkMatrix st')) \<subseteq> dom (map_of (wkMatrix (enter c p st')))"
      by (auto simp: enter_def js.look_put)
    ultimately have "rigid (walk levels shapes (srId c) (enter c p st'))"
      "dom (map_of (wkMatrix st')) \<subseteq> dom (map_of (wkMatrix (walk levels shapes (srId c) (enter c p st'))))"
      using Suc.IH [OF rigid_enter [OF that, of c]] dom_walk_mono [of "enter c p st'" levels shapes "srId c"]
      by (blast, blast)
    with that(1) show ?thesis by (simp add: walk_step_def)
  qed
  have "rigid (fold (walk_step levels shapes p) cs st')" if "rigid st'" "p \<in> dom (map_of (wkMatrix st'))" for cs st'
    using that
  proof (induction cs arbitrary: st')
    case Nil
    then show ?case by simp
  next
    case (Cons c cs)
    with step [OF Cons.prems, of c] show ?case by auto
  qed
  with Suc.prems show ?case by (simp add: walk_Suc del: walk.simps)
qed

lemma rigid_page: "rigid (walk_page inp)"
  unfolding walk_page_def
  by (rule rigid_walk) (auto simp: walk_start_def rigid_def rotates_identity)

text \<open>
  Turning a page-space delta back into the parent's frame moves the shape's page-space transform by exactly
  that delta.
\<close>

lemma rotate_back:
  fixes c n x y :: real
  assumes "c\<^sup>2 + n\<^sup>2 = 1"
  shows "c * (x * c + y * n) - n * (y * c - x * n) = x" and "n * (x * c + y * n) + c * (y * c - x * n) = y"
proof -
  have "c * (x * c + y * n) - n * (y * c - x * n) = x * (c\<^sup>2 + n\<^sup>2)" by (simp add: algebra_simps power2_eq_square)
  then show "c * (x * c + y * n) - n * (y * c - x * n) = x" by (simp add: assms)
  have "n * (x * c + y * n) + c * (y * c - x * n) = y * (c\<^sup>2 + n\<^sup>2)" by (simp add: algebra_simps power2_eq_square)
  then show "n * (x * c + y * n) + c * (y * c - x * n) = y" by (simp add: assms)
qed

lemma translate_exact:
  assumes "rotates_by r p" and "r = (case map_of (plById l) (srParent s) of Some q \<Rightarrow> slRotation q | None \<Rightarrow> 0)"
  shows "compose p (local_matrix (translateShape s d l)) =
    (let m = compose p (local_matrix s) in m\<lparr>mE := mE m + mvDx d, mF := mF m + mvDy d\<rparr>)"
proof -
  have trig: "(cos r)\<^sup>2 + (sin r)\<^sup>2 = 1" by simp
  have same: "srRotation (translateShape s d l) = srRotation s" by (simp add: translateShape_def Let_def)
  have pos: "srX (translateShape s d l) = srX s + (mvDx d * cos r + mvDy d * sin r)"
    "srY (translateShape s d l) = srY s + (mvDy d * cos r - mvDx d * sin r)"
    by (simp_all add: translateShape_def Let_def flip: assms(2))
  have "mE (compose p (local_matrix (translateShape s d l))) = mE (compose p (local_matrix s)) + mvDx d"
    "mF (compose p (local_matrix (translateShape s d l))) = mF (compose p (local_matrix s)) + mvDy d"
    using rotate_back [OF trig, of "mvDx d" "mvDy d"] assms(1)
    by (simp_all add: compose_def local_matrix_def Let_def pos rotates_by_def algebra_simps)
  then show ?thesis by (simp add: compose_def local_matrix_def Let_def same)
qed

section \<open>Re-routing the arrows of the API\<close>

definition is_ellipse_record :: "shape_record option \<Rightarrow> bool" where
  "is_ellipse_record r = (case r of None \<Rightarrow> False | Some s \<Rightarrow> is_ellipse (srProps s))"

definition reroute_one :: "page_layout \<Rightarrow> (string \<times> shape_record) list \<Rightarrow> string list \<Rightarrow> shape_layout
    \<Rightarrow> (shape_record \<times> point \<times> point) option" where
  "reroute_one l records affected s = (case (slArrow s, map_of records (slId s)) of
     (Some a, Some r) \<Rightarrow> (case alConnection a of None \<Rightarrow> None
       | Some (fromId, toId) \<Rightarrow>
         (if slType s \<noteq> ''arrow'' \<or> (fromId \<notin> set affected \<and> toId \<notin> set affected) then None
          else (case (map_of (plById l) fromId, map_of (plById l) toId) of
            (Some f, Some t) \<Rightarrow> (if srParent r \<noteq> plPage l then None else
              (let start = edgePoint (slBounds f) (centre (slBounds t)) (is_ellipse_record (map_of records fromId));
                   end' = edgePoint (slBounds t) (centre (slBounds f)) (is_ellipse_record (map_of records toId))
               in Some (r\<lparr>srX := pX start, srY := pY start\<rparr>, \<lparr>pX = 0, pY = 0\<rparr>,
                    \<lparr>pX = pX end' - pX start, pY = pY end' - pY start\<rparr>)))
          | _ \<Rightarrow> None)))
   | _ \<Rightarrow> None)"

text \<open>The updated records with their new \<open>start\<close> and \<open>end\<close> points.\<close>

definition rerouteManagedArrows :: "page_layout \<Rightarrow> (string \<times> shape_record) list \<Rightarrow> string list
    \<Rightarrow> (shape_record \<times> point \<times> point) list" where
  "rerouteManagedArrows l records affected = List.map_filter (reroute_one l records affected) (plShapes l)"

section \<open>Reported measurements\<close>

record measurement_row =
  mrMeasurement :: measurement
  mrReportedAt :: int
  mrReportedBy :: string

record current_shape =
  csType :: string
  csProps :: "(string \<times> json) list"

record measurement_outcome =
  moAccepted :: nat
  moStale :: nat
  moIgnored :: nat

definition readMeasurements :: "(string \<times> measurement_row) list \<Rightarrow> (string \<times> measurement) list" where
  "readMeasurements table = map (\<lambda>(i, row). (i, mrMeasurement row)) table"

definition save_one :: "(rat \<Rightarrow> string) \<Rightarrow> (string \<times> current_shape) list \<Rightarrow> string \<Rightarrow> int \<Rightarrow> measurement
    \<Rightarrow> (string \<times> measurement_row) list \<times> measurement_outcome \<Rightarrow> (string \<times> measurement_row) list \<times> measurement_outcome" where
  "save_one numtext current reportedBy now item = (\<lambda>(table, out). case map_of current (msId item) of
     None \<Rightarrow> (table, out\<lparr>moIgnored := moIgnored out + 1\<rparr>)
   | Some s \<Rightarrow> if csType s \<notin> measured_shape_types then (table, out\<lparr>moIgnored := moIgnored out + 1\<rparr>)
       else if layoutFingerprint numtext (csType s) (csProps s) \<noteq> msFp item then (table, out\<lparr>moStale := moStale out + 1\<rparr>)
       else (AList.update (msId item) \<lparr>mrMeasurement = item, mrReportedAt = now, mrReportedBy = reportedBy\<rparr> table,
             out\<lparr>moAccepted := moAccepted out + 1\<rparr>))"

definition saveMeasurements :: "(rat \<Rightarrow> string) \<Rightarrow> (string \<times> measurement_row) list \<Rightarrow> measurement list
    \<Rightarrow> (string \<times> current_shape) list \<Rightarrow> string \<Rightarrow> int \<Rightarrow> (string \<times> measurement_row) list \<times> measurement_outcome" where
  "saveMeasurements numtext table report current reportedBy now =
     (let (table', out) = fold (save_one numtext current reportedBy now) report
            (table, \<lparr>moAccepted = 0, moStale = 0, moIgnored = 0\<rparr>)
      in (filter (\<lambda>(i, row). i \<in> set (map fst current)) table', out))"

text \<open>
  After a report the table speaks of current shapes only, and each of its rows was there before or describes
  the content its shape has now.
\<close>

definition row_current :: "(rat \<Rightarrow> string) \<Rightarrow> (string \<times> current_shape) list \<Rightarrow> string \<Rightarrow> measurement_row \<Rightarrow> bool" where
  "row_current numtext current i row \<longleftrightarrow> msId (mrMeasurement row) = i \<and> (\<exists>s. map_of current i = Some s \<and>
     csType s \<in> measured_shape_types \<and> msFp (mrMeasurement row) = layoutFingerprint numtext (csType s) (csProps s))"

lemma save_rows:
  assumes "saveMeasurements numtext table report current reportedBy now = (table', out)" and "(i, row) \<in> set table'"
  shows "i \<in> fst ` set current" and "(i, row) \<in> set table \<or> row_current numtext current i row"
proof -
  obtain full where full: "fold (save_one numtext current reportedBy now) report
      (table, \<lparr>moAccepted = 0, moStale = 0, moIgnored = 0\<rparr>) = (full, out)"
    "table' = filter (\<lambda>(i, row). i \<in> set (map fst current)) full"
    using assms(1) by (auto simp: saveMeasurements_def Let_def split: prod.splits)
  show "i \<in> fst ` set current" using assms(2) by (auto simp: full(2))
  have "\<forall>p\<in>set (fst (fold (save_one numtext current reportedBy now) report (t, outc))).
      p \<in> set t \<or> row_current numtext current (fst p) (snd p)" for t outc
  proof (induction report arbitrary: t outc)
    case Nil
    show ?case by simp
  next
    case (Cons item report)
    obtain t' o' where step: "save_one numtext current reportedBy now item (t, outc) = (t', o')" by fastforce
    have "\<forall>p\<in>set t'. p \<in> set t \<or> row_current numtext current (fst p) (snd p)"
      using step
      by (simp add: save_one_def split: option.splits if_splits)
         (elim conjE, hypsubst, rule ball_AList_update, simp_all add: row_current_def)
    with Cons.IH [of t' o'] step show ?case by fastforce
  qed
  from this [of table "\<lparr>moAccepted = 0, moStale = 0, moIgnored = 0\<rparr>"] assms(2)
  show "(i, row) \<in> set table \<or> row_current numtext current i row" by (auto simp: full)
qed

lemma save_counts:
  assumes "saveMeasurements numtext table report current reportedBy now = (table', out)"
  shows "moAccepted out + moStale out + moIgnored out = length report"
proof -
  have "moAccepted (snd (fold (save_one numtext current reportedBy now) report to)) +
      moStale (snd (fold (save_one numtext current reportedBy now) report to)) +
      moIgnored (snd (fold (save_one numtext current reportedBy now) report to)) =
      moAccepted (snd to) + moStale (snd to) + moIgnored (snd to) + length report" for to
  proof (induction report arbitrary: to)
    case Nil
    show ?case by simp
  next
    case (Cons item report)
    show ?case
      by (simp add: Cons.IH) (simp add: save_one_def case_prod_beta' split: option.splits)
  qed
  from this [of "(table, \<lparr>moAccepted = 0, moStale = 0, moIgnored = 0\<rparr>)"] assms
  show ?thesis by (simp add: saveMeasurements_def Let_def case_prod_beta')
qed

end
