(* ===== verification/AgentBoards.thy ===== *)
theory AgentBoards
  imports AgentAccess
begin

text \<open>
  \<open>server/agent-boards.ts\<close> with the dependencies \<open>app.ts\<close> hands it: a machine credential that may create
  boards makes one for the account it names, and is granted exactly that board. The handler runs on the
  account database, the token file and the two hourly budgets. The board made so far is a variable the
  handler closes over; it is the second part of the state of \<open>prepare\<close> and \<open>rollback\<close>. Writing an audit row
  does not fail.
\<close>

section \<open>State and replies\<close>

record creation_env =
  ceService :: service
  ceDraws :: draws
  ceTokens :: tparams
  ceNow :: int
  ceUuid :: string
  ceConfigured :: bool
  ceFaults :: faults

record creation_world =
  cwAccounts :: adb
  cwTokens :: tworld
  cwCredentials :: limiter
  cwOwners :: limiter

datatype creation_reply = NotCreated nat | Created string string

section \<open>The budgets\<close>

datatype spent = Spent | CredentialLimit | OwnerLimit

definition credential_key :: "string \<Rightarrow> string" where
  "credential_key name = ''credential:'' @ name"

definition owner_key :: "string \<Rightarrow> string" where
  "owner_key user = ''owner:'' @ user"

definition spend :: "int \<Rightarrow> string \<Rightarrow> string \<Rightarrow> creation_world \<Rightarrow> creation_world \<times> spent" where
  "spend now clientName ownerUserId w =
     (if \<not> wouldAllow (credential_key clientName) now (cwCredentials w) then (w, CredentialLimit)
      else if \<not> wouldAllow (owner_key ownerUserId) now (cwOwners w) then (w, OwnerLimit)
      else (w\<lparr>cwCredentials := fst (allow (credential_key clientName) now (cwCredentials w)),
              cwOwners := fst (allow (owner_key ownerUserId) now (cwOwners w))\<rparr>, Spent))"

section \<open>Making and removing the board\<close>

type_synonym board_state = "adb \<times> (string \<times> string) option"

text \<open>\<open>String(client.ownerUserId)\<close>\<close>

definition owner_text :: "tparams \<Rightarrow> client \<Rightarrow> string" where
  "owner_text tp c = (case cget ''ownerUserId'' c of Some (JStr s) \<Rightarrow> s | j \<Rightarrow> tpText tp j)"

definition prepare_board :: "creation_env \<Rightarrow> string \<Rightarrow> string \<Rightarrow> client \<Rightarrow> board_state \<Rightarrow> board_state \<times> (auth_error + string)" where
  "prepare_board env name agent c x =
     (case createBoard (ceService env) (ceDraws env) (ceNow env) (owner_text (ceTokens env) c) name (ceUuid env) (Some agent) (fst x) of
        Inl e \<Rightarrow> (x, Inl e)
      | Inr (db, b) \<Rightarrow> ((db, Some (bId b, bName b)), Inr (bId b)))"

definition remove_board :: "creation_env \<Rightarrow> string \<Rightarrow> string \<Rightarrow> string \<Rightarrow> board_state \<Rightarrow> board_state \<times> (auth_error + unit)" where
  "remove_board env owner agent board x =
     (case deleteBoard (ceDraws env) (ceNow env) owner board (Some agent) (Some ''grant-not-persisted'') (fst x) of
        Inl e \<Rightarrow> (x, Inl e)
      | Inr db \<Rightarrow> ((db, snd x), Inr ()))"

section \<open>The handler\<close>

definition creation_event :: "creation_env \<Rightarrow> string \<Rightarrow> creator \<Rightarrow> string \<Rightarrow> string \<Rightarrow> creation_world \<Rightarrow> creation_world" where
  "creation_event env type cr board name w = w\<lparr>cwAccounts := insertAccountEvent (drEvent (ceDraws env)) type None None (Some board)
     [(''actorKind'', JStr ''agent''), (''agentName'', JStr (crName cr)), (''ownerUserId'', JStr (crOwner cr)),
      (''boardId'', JStr board), (''name'', JStr name)] (ceNow env) (cwAccounts w)\<rparr>"

text \<open>
  The \<open>catch\<close>: the status, and whether the error falls through to the audit row of a rollback on its
  way to the error handler.
\<close>

fun creation_failure :: "auth_error terror \<Rightarrow> nat \<times> bool" where
  "creation_failure (Thrown e) = (if e = AccountDisabled \<or> e = UserNotFound then (403, False) else (auth_status e, True))"
| "creation_failure Locked = (503, False)"
| "creation_failure RoomLimit = (409, False)"
| "creation_failure NotFound = (401, False)"
| "creation_failure StaleReference = (401, False)"
| "creation_failure Expired = (401, False)"
| "creation_failure NoCapability = (403, False)"
| "creation_failure (RollbackFailed board) = (500, False)"
| "creation_failure _ = (500, True)"

definition fail_creation :: "creation_env \<Rightarrow> creator \<Rightarrow> nat \<times> bool \<Rightarrow> (string \<times> string) option \<Rightarrow> creation_world \<Rightarrow> creation_world \<times> creation_reply" where
  "fail_creation env cr failed created w =
     (case created of
        Some (board, name) \<Rightarrow> if snd failed then creation_event env ''agent.board_creation_rolled_back'' cr board name w else w
      | None \<Rightarrow> w, NotCreated (fst failed))"

definition create_and_grant :: "creation_env \<Rightarrow> creator \<Rightarrow> string \<Rightarrow> creation_world \<Rightarrow> creation_world \<times> creation_reply" where
  "create_and_grant env cr name w =
     (case grantNewBoard (ceTokens env) (ceFaults env) (crName cr) (crFingerprint cr) (ceNow env)
         (prepare_board env name (crName cr)) (remove_board env (crOwner cr) (crName cr)) (cwTokens w, (cwAccounts w, None)) of
       ((t, (db, created)), res) \<Rightarrow>
         (let w1 = w\<lparr>cwTokens := t, cwAccounts := db\<rparr> in
          (case res of
             Inl e \<Rightarrow> fail_creation env cr (creation_failure e) created w1
           | Inr (board, rooms) \<Rightarrow> (case created of
               Some (i, n) \<Rightarrow> if i = board then (creation_event env ''agent.board_created'' cr i n w1, Created i n)
                 else fail_creation env cr (500, True) created w1
             | None \<Rightarrow> fail_creation env cr (500, True) created w1))))"

definition agentBoardSchema :: "json \<Rightarrow> string option" where
  "agentBoardSchema j = (if \<not> only_members [''name''] j then None
     else (case jmember j ''name'' of Some (JStr s) \<Rightarrow> if 1 \<le> length s \<and> length s \<le> 120 then Some s else None | _ \<Rightarrow> None))"

definition handle_agent_board :: "creation_env \<Rightarrow> string option \<Rightarrow> json option \<Rightarrow> creation_world \<Rightarrow> creation_world \<times> creation_reply" where
  "handle_agent_board env header body w =
     (case authenticateBoardCreator (ceTokens env) (twFile (cwTokens w)) header (ceNow env) of
        CreatorUnauthenticated \<Rightarrow> (w, NotCreated 401)
      | CreatorForbidden \<Rightarrow> (w, NotCreated 403)
      | CreatorOk cr \<Rightarrow>
        (case Option.bind body agentBoardSchema of
           None \<Rightarrow> (w, NotCreated 422)
         | Some name \<Rightarrow>
           (if \<not> ceConfigured env then (w, NotCreated 503)
            else if max_rooms \<le> crRoomCount cr then (w, NotCreated 409)
            else (case spend (ceNow env) (crName cr) (crOwner cr) w of
                (w1, CredentialLimit) \<Rightarrow> (w1, NotCreated 429)
              | (w1, OwnerLimit) \<Rightarrow> (w1, NotCreated 429)
              | (w1, Spent) \<Rightarrow> create_and_grant env cr name w1))))"

end
