(* ===== verification/AgentBoardClaims.thy ===== *)
theory AgentBoardClaims
  imports AgentBoards AgentClaims
begin

text \<open>
  Creating a board with a machine credential: the board and the grant exist together, or no live board is
  left behind.
\<close>

section \<open>The record behind a credential\<close>

lemma creator_record:
  assumes "file_ok f" and "authenticateBoardCreator tp f header now = CreatorOk cr"
  shows "\<exists>d\<in>set (accountClientsOf (store_of f)). cget ''name'' d = Some (JStr (crName cr)) \<and>
    cget ''ownerUserId'' d = Some (JStr (crOwner cr))"
proof -
  from assms(2) obtain s where f: "f = Stored s"
    by (cases f) (auto simp: authenticateBoardCreator_def loadStore_def split: option.splits)
  with assms(1) have ok: "store_ok s" by (simp add: file_ok_def)
  from assms(2) f loadStore_ok [OF ok] obtain token sc where
      "find (\<lambda>c. scHash c = tpHash tp token) (map (the \<circ> accountClientSchema) (accountClientsOf s)) = Some sc"
      and cr: "crName cr = scName sc" "crOwner cr = scOwner sc"
    by (auto simp: authenticateBoardCreator_def split: option.splits if_splits)
  then have "sc \<in> set (map (the \<circ> accountClientSchema) (accountClientsOf s))" by (auto simp: find_Some_iff)
  then obtain d where d: "d \<in> set (accountClientsOf s)" "sc = the (accountClientSchema d)" by auto
  with ok have sc: "accountClientSchema d = Some sc" by (auto simp: store_ok_def list_all_iff)
  from sc have "cget ''ownerUserId'' d = Some (JStr (scOwner sc))"
    by (auto simp: accountClientSchema_def string_field_def split: option.splits json.splits if_splits)
  with accountClientSchema_Some [OF sc] d(1) cr f show ?thesis by (auto simp: store_of_def)
qed

lemma target_owner:
  assumes "file_ok f" and "authenticateBoardCreator tp f header now = CreatorOk cr"
    and "grant_target tp (crName cr) fp now (store_of f) = Inr (c, old)"
  shows "c \<in> set (accountClientsOf (store_of f)) \<and> cget ''name'' c = Some (JStr (crName cr)) \<and>
    cget ''ownerUserId'' c = Some (JStr (crOwner cr)) \<and> cget ''rooms'' c = Some (JArr old) \<and> length old < max_rooms \<and>
    owner_text tp c = crOwner cr"
proof -
  note ok = file_ok_store [OF assms(1)]
  note c = grant_target_Inr [OF assms(3) ok]
  from creator_record [OF assms(1,2)] obtain d where d: "d \<in> set (accountClientsOf (store_of f))"
    "cget ''name'' d = Some (JStr (crName cr))" "cget ''ownerUserId'' d = Some (JStr (crOwner cr))" by blast
  have "d = c" using name_unique [OF ok] d(1,2) c by (auto simp: allClients_def)
  with c d show ?thesis by (simp add: owner_text_def)
qed

section \<open>Making a board and removing it again\<close>

lemma insertAccountEvent_frame [simp]:
  "dBoards (insertAccountEvent uuid type actor subject board meta now db) = dBoards db"
  "dMembers (insertAccountEvent uuid type actor subject board meta now db) = dMembers db"
  "dUsers (insertAccountEvent uuid type actor subject board meta now db) = dUsers db"
  by (simp_all add: insertAccountEvent_def)

lemma upsert_owner:
  assumes "upsertBoardMember m db = Inr db'"
  shows "dBoards db' = dBoards db \<and> dUsers db' = dUsers db \<and>
    (\<exists>x. getBoardMember (mBoard m) (mUser m) db' = Some x \<and> mRole x = mRole m)"
proof (cases "getBoardMember (mBoard m) (mUser m) db")
  case None
  with assms have db': "db' = db\<lparr>dMembers := dMembers db @ [m]\<rparr>" by (auto simp: upsertBoardMember_def res_simps)
  have "find P (xs @ [y]) = Some y" if "find P xs = None" "P y" for P and xs :: "member_rec list" and y
    using that by (induction xs) (auto split: if_splits)
  with None show ?thesis unfolding db' by (simp add: getBoardMember_def)
next
  case (Some x)
  have "\<exists>z. find (\<lambda>x. mBoard x = b \<and> mUser x = u) (map (\<lambda>x. if mBoard x = b \<and> mUser x = u
        then x\<lparr>mRole := r, mUpdatedAt := t\<rparr> else x) xs) = Some z \<and> mRole z = r"
    if "find (\<lambda>x. mBoard x = b \<and> mUser x = u) xs = Some y" for b u r t and xs :: "member_rec list" and y
    using that by (induction xs) (auto split: if_splits)
  with Some assms show ?thesis by (auto simp: upsertBoardMember_def getBoardMember_def res_simps)
qed

lemma created_board:
  assumes "createBoard sv dr now user name i agent db = Inr (db', b)"
  shows "dBoards db' = dBoards db @ [b] \<and> bId b = i \<and> bOwner b = user \<and> bDeletedAt b = None \<and> getBoardById i db = None \<and>
    requireActiveUser user db' = requireActiveUser user db \<and> (\<exists>u. requireActiveUser user db = Inr u) \<and>
    validateBoardId i = Inr i \<and> (\<exists>m. getBoardMember i user db' = Some m \<and> mRole m = Owner)"
proof -
  from assms obtain u clean db0 db1 where run: "requireActiveUser user db = Inr u" "validateBoardId i = Inr i"
      "getBoardById i db = None"
    and b: "b = \<lparr>bId = i, bName = clean, bOwner = user, bCreatedAt = now, bUpdatedAt = now, bDeletedAt = None\<rparr>"
    and ins: "insertBoard b db = Inr db0"
    and up: "upsertBoardMember \<lparr>mBoard = i, mUser = user, mRole = Owner, mCreatedAt = now, mUpdatedAt = now\<rparr> db0 = Inr db1"
    and db': "dBoards db' = dBoards db1" "dMembers db' = dMembers db1" "dUsers db' = dUsers db1"
    by (auto simp: createBoard_def insert_owned_board_def validateBoardId_def Let_def res_simps split: option.splits)
  from ins have ins: "db0 = db\<lparr>dBoards := dBoards db @ [b]\<rparr>" by (auto simp: insertBoard_def res_simps)
  from upsert_owner [OF up] ins db' run b show ?thesis
    by (auto simp: requireActiveUser_def getUserById_def getBoardMember_def)
qed

lemma removed_board:
  assumes "createBoard sv dr now user name i agent db = Inr (db', b)"
  shows "\<exists>db''. deleteBoard dr' now' user i agent' reason db' = Inr db'' \<and>
    dBoards db'' = dBoards db @ [b\<lparr>bDeletedAt := Some now', bUpdatedAt := now'\<rparr>]"
proof -
  note made = created_board [OF assms]
  then obtain u m where u: "requireActiveUser user db' = Inr u" and m: "getBoardMember i user db' = Some m" "mRole m = Owner" by auto
  from made have b: "getBoardById i db' = Some b" by (simp add: getBoardById_def find_snoc)
  from made have "i \<notin> bId ` set (dBoards db)" using getBoardById_None [of i db] by blast
  then have "\<forall>x\<in>set (dBoards db). bId x \<noteq> i" by blast
  then have "map (\<lambda>x. if bId x = i then f x else x) (dBoards db) = dBoards db" for f
    by (intro map_idI) simp
  with made u m b show ?thesis
    by (auto simp: deleteBoard_def requireOwner_def requireBoardMember_def visible_board_def setBoardDeleted_def update_board_def
        Let_def split: option.splits)
qed

section \<open>All or nothing\<close>

text \<open>The token file differs only in that the record of the credential, found by name, has \<open>i\<close> as its last room.\<close>

definition room_gained :: "creator \<Rightarrow> creation_world \<Rightarrow> creation_world \<Rightarrow> string \<Rightarrow> bool" where
  "room_gained cr w w' i \<longleftrightarrow>
     (\<exists>c\<in>set (accountClientsOf (store_of (twFile (cwTokens w)))). \<exists>old.
        cget ''name'' c = Some (JStr (crName cr)) \<and> cget ''ownerUserId'' c = Some (JStr (crOwner cr)) \<and>
        cget ''rooms'' c = Some (JArr old) \<and> length old < max_rooms \<and>
        twFile (cwTokens w') = Stored (grant_room c old i (store_of (twFile (cwTokens w)))))"

text \<open>
  The board \<open>i\<close> is new, live and of the account that the credential names, and the token file differs only
  in that this credential's record has it as its last room.
\<close>

definition creation_done :: "creator \<Rightarrow> creation_world \<Rightarrow> creation_world \<Rightarrow> string \<Rightarrow> bool" where
  "creation_done cr w w' i \<longleftrightarrow> room_gained cr w w' i \<and>
     (\<exists>b. dBoards (cwAccounts w') = dBoards (cwAccounts w) @ [b] \<and> bId b = i \<and> bOwner b = crOwner cr \<and>
        bDeletedAt b = None \<and> getBoardById i (cwAccounts w) = None)"

text \<open>The file is as it was, and a board that was not there before is deleted.\<close>

definition creation_undone :: "creation_world \<Rightarrow> creation_world \<Rightarrow> bool" where
  "creation_undone w w' \<longleftrightarrow> twFile (cwTokens w') = twFile (cwTokens w) \<and>
     (dBoards (cwAccounts w') = dBoards (cwAccounts w) \<or>
      (\<exists>b. dBoards (cwAccounts w') = dBoards (cwAccounts w) @ [b] \<and> bDeletedAt b \<noteq> None))"

text \<open>The file grants the new board, but the board is deleted.\<close>

definition creation_stranded :: "creator \<Rightarrow> creation_world \<Rightarrow> creation_world \<Rightarrow> string \<Rightarrow> bool" where
  "creation_stranded cr w w' i \<longleftrightarrow> room_gained cr w w' i \<and>
     (\<exists>b. dBoards (cwAccounts w') = dBoards (cwAccounts w) @ [b] \<and> bId b = i \<and> bOwner b = crOwner cr \<and>
        bDeletedAt b \<noteq> None)"

lemma prepare_Inr:
  assumes "prepare_board env name agent c (db, None) = (x, Inr board)"
  shows "\<exists>db' b. createBoard (ceService env) (ceDraws env) (ceNow env) (owner_text (ceTokens env) c) name (ceUuid env) (Some agent) db
      = Inr (db', b) \<and> x = (db', Some (bId b, bName b)) \<and> board = bId b"
  using assms by (auto simp: prepare_board_def split: sum.splits)

lemma not_granted_undone:
  assumes "file_ok (twFile (cwTokens w))" and "authenticateBoardCreator (ceTokens env) (twFile (cwTokens w)) header (ceNow env) = CreatorOk cr"
    and "not_granted (ceTokens env) (crName cr) (crFingerprint cr) (ceNow env) (prepare_board env name (crName cr))
      (remove_board env (crOwner cr) (crName cr)) (cwTokens w, (cwAccounts w, None)) (t, (db, mk))"
  shows "twFile t = twFile (cwTokens w) \<and> (dBoards db = dBoards (cwAccounts w) \<or>
    (\<exists>b. dBoards db = dBoards (cwAccounts w) @ [b] \<and> bDeletedAt b \<noteq> None))"
proof -
  from assms(3) have f: "twFile t = twFile (cwTokens w)" by (simp add: not_granted_def)
  from assms(3) consider (same) "(db, mk) = (cwAccounts w, None)"
    | (refused) c e where "prepare_board env name (crName cr) c (cwAccounts w, None) = ((db, mk), Inl e)"
    | (removed) c old x1 board where
        "grant_target (ceTokens env) (crName cr) (crFingerprint cr) (ceNow env) (store_of (twFile (cwTokens w))) = (Inr (c, old) :: auth_error terror + client \<times> json list)"
        "prepare_board env name (crName cr) c (cwAccounts w, None) = (x1, Inr board)"
        "(db, mk) = fst (remove_board env (crOwner cr) (crName cr) board x1)"
    unfolding not_granted_def by auto
  then show ?thesis
  proof cases
    case same
    with f show ?thesis by simp
  next
    case refused
    with f show ?thesis by (auto simp: prepare_board_def split: sum.splits)
  next
    case removed
    from target_owner [OF assms(1,2) removed(1)] have own: "owner_text (ceTokens env) c = crOwner cr" by simp
    from prepare_Inr [OF removed(2)] obtain db1 b where
        made: "createBoard (ceService env) (ceDraws env) (ceNow env) (crOwner cr) name (ceUuid env) (Some (crName cr)) (cwAccounts w) = Inr (db1, b)"
        and x1: "x1 = (db1, Some (bId b, bName b))" "board = bId b" unfolding own by blast
    have i: "bId b = ceUuid env" using created_board [OF made] by simp
    from removed_board [OF made, of "ceDraws env" "ceNow env" "Some (crName cr)" "Some ''grant-not-persisted''"]
    obtain db2 where "deleteBoard (ceDraws env) (ceNow env) (crOwner cr) (bId b) (Some (crName cr)) (Some ''grant-not-persisted'') db1 = Inr db2"
        "dBoards db2 = dBoards (cwAccounts w) @ [b\<lparr>bDeletedAt := Some (ceNow env), bUpdatedAt := ceNow env\<rparr>]"
      unfolding i by blast
    with removed(3) x1 f show ?thesis by (simp add: remove_board_def)
  qed
qed

lemma granted_room:
  assumes "file_ok (twFile (cwTokens w))" and "authenticateBoardCreator (ceTokens env) (twFile (cwTokens w)) header (ceNow env) = CreatorOk cr"
    and "granted (ceTokens env) (crName cr) (crFingerprint cr) (ceNow env) (prepare_board env name (crName cr))
      (cwTokens w, (cwAccounts w, None)) (t, x) board rooms"
    and "twFile (cwTokens w') = twFile t"
  shows "room_gained cr w w' board"
proof -
  from assms(3) obtain c old where t: "grant_target (ceTokens env) (crName cr) (crFingerprint cr) (ceNow env) (store_of (twFile (cwTokens w))) = (Inr (c, old) :: auth_error terror + client \<times> json list)"
    and f: "twFile t = Stored (grant_room c old board (store_of (twFile (cwTokens w))))"
    unfolding granted_def by auto
  with target_owner [OF assms(1,2) t] assms(4) show ?thesis unfolding room_gained_def by auto
qed

lemma granted_done:
  assumes "file_ok (twFile (cwTokens w))" and "authenticateBoardCreator (ceTokens env) (twFile (cwTokens w)) header (ceNow env) = CreatorOk cr"
    and "granted (ceTokens env) (crName cr) (crFingerprint cr) (ceNow env) (prepare_board env name (crName cr))
      (cwTokens w, (cwAccounts w, None)) (t, (db, mk)) board rooms"
  shows "mk \<noteq> None \<and> fst (the mk) = board \<and>
    (\<forall>w'. twFile (cwTokens w') = twFile t \<and> dBoards (cwAccounts w') = dBoards db \<longrightarrow> creation_done cr w w' board)"
proof -
  from assms(3) obtain c old where t: "grant_target (ceTokens env) (crName cr) (crFingerprint cr) (ceNow env) (store_of (twFile (cwTokens w))) = (Inr (c, old) :: auth_error terror + client \<times> json list)"
    and prep: "prepare_board env name (crName cr) c (cwAccounts w, None) = ((db, mk), Inr board)"
    and f: "twFile t = Stored (grant_room c old board (store_of (twFile (cwTokens w))))"
    unfolding granted_def by auto
  note own = target_owner [OF assms(1,2) t]
  from prepare_Inr [OF prep] own obtain db1 b where
      made: "createBoard (ceService env) (ceDraws env) (ceNow env) (crOwner cr) name (ceUuid env) (Some (crName cr)) (cwAccounts w) = Inr (db1, b)"
      and x: "(db, mk) = (db1, Some (bId b, bName b))" "board = bId b" by auto
  from created_board [OF made] have b: "dBoards db1 = dBoards (cwAccounts w) @ [b]" "bOwner b = crOwner cr" "bDeletedAt b = None"
    "getBoardById (bId b) (cwAccounts w) = None" by auto
  have "creation_done cr w w' board" if "twFile (cwTokens w') = twFile t" "dBoards (cwAccounts w') = dBoards db" for w'
    unfolding creation_done_def using granted_room [OF assms(1,2,3) that(1)] b x that(2) by auto
  with x show ?thesis by auto
qed

lemma stranded_outcome:
  assumes "file_ok (twFile (cwTokens w))" and "authenticateBoardCreator (ceTokens env) (twFile (cwTokens w)) header (ceNow env) = CreatorOk cr"
    and "stranded (ceTokens env) (crName cr) (crFingerprint cr) (ceNow env) (prepare_board env name (crName cr))
      (remove_board env (crOwner cr) (crName cr)) (cwTokens w, (cwAccounts w, None)) (t, (db, mk))"
    and "twFile (cwTokens w') = twFile t" and "dBoards (cwAccounts w') = dBoards db"
  shows "\<exists>i. creation_stranded cr w w' i"
proof -
  from assms(3) obtain x1 board rooms where gave: "granted (ceTokens env) (crName cr) (crFingerprint cr) (ceNow env)
      (prepare_board env name (crName cr)) (cwTokens w, (cwAccounts w, None)) (t, x1) board rooms"
    and undone: "(db, mk) = fst (remove_board env (crOwner cr) (crName cr) board x1)" by (auto simp: stranded_def)
  obtain db1 mk1 where x1: "x1 = (db1, mk1)" by force
  from gave obtain c old where t: "grant_target (ceTokens env) (crName cr) (crFingerprint cr) (ceNow env) (store_of (twFile (cwTokens w))) = (Inr (c, old) :: auth_error terror + client \<times> json list)"
    and prep: "prepare_board env name (crName cr) c (cwAccounts w, None) = (x1, Inr board)"
    unfolding granted_def by auto
  have own: "owner_text (ceTokens env) c = crOwner cr" using target_owner [OF assms(1,2) t] by simp
  from prepare_Inr [OF prep] obtain b where
      made: "createBoard (ceService env) (ceDraws env) (ceNow env) (crOwner cr) name (ceUuid env) (Some (crName cr)) (cwAccounts w) = Inr (db1, b)"
      and board: "board = bId b" unfolding own x1 by auto
  have i: "bId b = ceUuid env" "bOwner b = crOwner cr" using created_board [OF made] by auto
  from removed_board [OF made, of "ceDraws env" "ceNow env" "Some (crName cr)" "Some ''grant-not-persisted''"]
  obtain db2 where "deleteBoard (ceDraws env) (ceNow env) (crOwner cr) (bId b) (Some (crName cr)) (Some ''grant-not-persisted'') db1 = Inr db2"
      and db2: "dBoards db2 = dBoards (cwAccounts w) @ [b\<lparr>bDeletedAt := Some (ceNow env), bUpdatedAt := ceNow env\<rparr>]"
    unfolding i(1) by blast
  with undone board x1 have "db = db2" by (simp add: remove_board_def)
  moreover have "room_gained cr w w' board" by (rule granted_room [OF assms(1,2) gave assms(4)])
  ultimately show ?thesis using assms(5) db2 i(2) board unfolding creation_stranded_def by auto
qed

lemma creation_event_frame [simp]:
  "cwTokens (creation_event env type cr i n w) = cwTokens w"
  "dBoards (cwAccounts (creation_event env type cr i n w)) = dBoards (cwAccounts w)"
  by (simp_all add: creation_event_def)

lemma fail_creation_frame:
  assumes "fail_creation env cr failed mk w = (w', r)"
  shows "cwTokens w' = cwTokens w \<and> dBoards (cwAccounts w') = dBoards (cwAccounts w) \<and> r = NotCreated (fst failed)"
  using assms by (auto simp: fail_creation_def split: option.splits)

lemma spend_Spent:
  assumes "spend now name user w = (w1, a)"
  shows "cwTokens w1 = cwTokens w \<and> cwAccounts w1 = cwAccounts w \<and>
    (a = Spent \<longrightarrow> wouldAllow (credential_key name) now (cwCredentials w) \<and> wouldAllow (owner_key user) now (cwOwners w))"
  using assms by (auto simp: spend_def split: if_splits)

text \<open>How a creation that passed the checks ends when the file changed.\<close>

definition creation_ended :: "creation_env \<Rightarrow> creator \<Rightarrow> creation_world \<Rightarrow> creation_world \<Rightarrow> creation_reply \<Rightarrow> bool" where
  "creation_ended env cr w w' r \<longleftrightarrow>
     (\<exists>i. creation_done cr w w' i \<and> ((\<exists>n. r = Created i n) \<or> ftRelease (ceFaults env) \<and> r = NotCreated 500)) \<or>
     ftMode (ceFaults env) \<and> ftReread (ceFaults env) \<and> (\<exists>i. creation_stranded cr w w' i) \<and> (\<exists>code. r = NotCreated code)"

lemma create_and_grant_outcome:
  assumes "file_ok (twFile (cwTokens w))"
    and auth: "authenticateBoardCreator (ceTokens env) (twFile (cwTokens w)) header (ceNow env) = CreatorOk cr"
    and run: "create_and_grant env cr name w = (w', r)"
  shows "file_ok (twFile (cwTokens w')) \<and>
    (creation_ended env cr w w' r \<or> creation_undone w w' \<and> (\<exists>code. r = NotCreated code))"
proof -
  obtain t db mk res where g: "grantNewBoard (ceTokens env) (ceFaults env) (crName cr) (crFingerprint cr) (ceNow env)
      (prepare_board env name (crName cr)) (remove_board env (crOwner cr) (crName cr)) (cwTokens w, (cwAccounts w, None)) = ((t, (db, mk)), res)"
    by (metis surj_pair)
  let ?w1 = "w\<lparr>cwTokens := t, cwAccounts := db\<rparr>"
  from grant_consistent [OF assms(1) g] consider
      (none) e where "not_granted (ceTokens env) (crName cr) (crFingerprint cr) (ceNow env) (prepare_board env name (crName cr))
        (remove_board env (crOwner cr) (crName cr)) (cwTokens w, (cwAccounts w, None)) (t, (db, mk))" "res = Inl e"
    | (gave) board rooms where "granted (ceTokens env) (crName cr) (crFingerprint cr) (ceNow env) (prepare_board env name (crName cr))
        (cwTokens w, (cwAccounts w, None)) (t, (db, mk)) board rooms" "res = Inr (board, rooms) \<or> ftRelease (ceFaults env) \<and> res = Inl IOFault"
    | (lost) e where "ftMode (ceFaults env)" "ftReread (ceFaults env)" "stranded (ceTokens env) (crName cr) (crFingerprint cr) (ceNow env)
        (prepare_board env name (crName cr)) (remove_board env (crOwner cr) (crName cr)) (cwTokens w, (cwAccounts w, None)) (t, (db, mk))" "res = Inl e"
    by blast
  then have "twFile (cwTokens w') = twFile t \<and>
    (creation_ended env cr w w' r \<or> creation_undone w w' \<and> (\<exists>code. r = NotCreated code))"
  proof cases
    case none
    with run g have "fail_creation env cr (creation_failure e) mk ?w1 = (w', r)" by (simp add: create_and_grant_def)
    from fail_creation_frame [OF this] not_granted_undone [OF assms(1) auth none(1)] show ?thesis
      by (auto simp: creation_undone_def)
  next
    case gave
    note fin = granted_done [OF assms(1) auth gave(1)]
    then obtain n where mk: "mk = Some (board, n)" by (cases mk) auto
    from gave(2) show ?thesis
    proof (elim disjE conjE)
      assume "res = Inr (board, rooms)"
      with run g mk have "w' = creation_event env ''agent.board_created'' cr board n ?w1 \<and> r = Created board n"
        by (simp add: create_and_grant_def)
      with fin show ?thesis by (auto simp: creation_ended_def)
    next
      assume rel: "ftRelease (ceFaults env)" "res = Inl IOFault"
      with run g have "fail_creation env cr (500, True) mk ?w1 = (w', r)" by (simp add: create_and_grant_def)
      from fail_creation_frame [OF this] fin rel show ?thesis by (auto simp: creation_ended_def)
    qed
  next
    case lost
    with run g have "fail_creation env cr (creation_failure e) mk ?w1 = (w', r)" by (simp add: create_and_grant_def)
    note frame = fail_creation_frame [OF this]
    then obtain i where "creation_stranded cr w w' i"
      using stranded_outcome [OF assms(1) auth lost(3)] by auto
    with frame lost(1,2) show ?thesis by (auto simp: creation_ended_def)
  qed
  with grant_consistent [OF assms(1) g] show ?thesis by auto
qed

text \<open>
  C29: How a request to create a board with a machine credential can end, under any faults of the file
  system. Either the bearer is that of a credential that may create boards, both hourly budgets had room,
  there is exactly one new board, live and owned by the account the credential names, and that
  credential's record alone gained it; then the answer is that it was made (or 500 when releasing the
  lock fails). Or the token file is as it was, no new board is live, and the answer is a refusal. Under
  any single fault these are the only ends, so the board and its grant exist together or not at all. The
  one other end needs two faults, a mode change that fails after the rename and a reread that fails as
  well: then the record has gained the new board, the board is deleted, and the answer is a refusal. The
  request is one step on the accounts: no other request changes them between the creation of the board and
  its removal (an owner disabled in between would make the removal fail, which the code answers as
  \<open>rollback-failed\<close>, with a board and no grant).
\<close>
theorem agent_board_all_or_nothing:
  assumes "file_ok (twFile (cwTokens w))" and "handle_agent_board env header body w = (w', r)"
  shows "file_ok (twFile (cwTokens w')) \<and>
    ((\<exists>cr i. authenticateBoardCreator (ceTokens env) (twFile (cwTokens w)) header (ceNow env) = CreatorOk cr \<and>
        wouldAllow (credential_key (crName cr)) (ceNow env) (cwCredentials w) \<and>
        wouldAllow (owner_key (crOwner cr)) (ceNow env) (cwOwners w) \<and>
        (creation_done cr w w' i \<and> ((\<exists>n. r = Created i n) \<or> ftRelease (ceFaults env) \<and> r = NotCreated 500) \<or>
         creation_stranded cr w w' i \<and> ftMode (ceFaults env) \<and> ftReread (ceFaults env) \<and> (\<exists>code. r = NotCreated code))) \<or>
     creation_undone w w' \<and> (\<exists>code. r = NotCreated code))"
proof -
  have same: ?thesis if "cwTokens w' = cwTokens w" "cwAccounts w' = cwAccounts w" "\<exists>code. r = NotCreated code"
    using that assms(1) by (simp add: creation_undone_def)
  show ?thesis
  proof (cases "\<exists>cr name w1. authenticateBoardCreator (ceTokens env) (twFile (cwTokens w)) header (ceNow env) = CreatorOk cr \<and>
      spend (ceNow env) (crName cr) (crOwner cr) w = (w1, Spent) \<and> create_and_grant env cr name w1 = (w', r)")
    case True
    then obtain cr name w1 where cr: "authenticateBoardCreator (ceTokens env) (twFile (cwTokens w)) header (ceNow env) = CreatorOk cr"
      and sp: "spend (ceNow env) (crName cr) (crOwner cr) w = (w1, Spent)" and run: "create_and_grant env cr name w1 = (w', r)" by blast
    note frame = spend_Spent [OF sp]
    have same: "creation_ended env cr w1 w' r = creation_ended env cr w w' r" "creation_undone w1 w' = creation_undone w w'"
      using frame by (simp_all add: creation_ended_def creation_done_def creation_stranded_def room_gained_def creation_undone_def)
    have "file_ok (twFile (cwTokens w')) \<and> (creation_ended env cr w w' r \<or> creation_undone w w' \<and> (\<exists>code. r = NotCreated code))"
      using create_and_grant_outcome [OF _ _ run, of header] assms(1) cr frame unfolding same by simp
    with cr frame show ?thesis unfolding creation_ended_def by blast
  next
    case False
    have "cwTokens w' = cwTokens w \<and> cwAccounts w' = cwAccounts w \<and> (\<exists>code. r = NotCreated code)"
    proof (cases "authenticateBoardCreator (ceTokens env) (twFile (cwTokens w)) header (ceNow env)")
      case (CreatorOk cr)
      obtain w1 a where sp: "spend (ceNow env) (crName cr) (crOwner cr) w = (w1, a)" by fastforce
      from spend_Spent [OF sp] False assms(2) CreatorOk sp show ?thesis
        by (cases a) (auto simp: handle_agent_board_def split: option.splits if_splits)
    qed (use assms(2) in \<open>auto simp: handle_agent_board_def\<close>)
    then show ?thesis using same by blast
  qed
qed

section \<open>What a creation does to the accounts\<close>

text \<open>
  A creation changes the accounts by calls and audit rows of the account service, so the state it leaves
  is again reachable, and the properties of reachable states hold after it.
\<close>

lemma prepare_runs: "auth_runs (ceService env) (fst x) (fst (fst (prepare_board env name agent c x)))"
  by (auto simp: prepare_board_def auth_runs.Stop split: sum.split intro: auth_runs_step auth_step.Create)

lemma remove_runs: "auth_runs (ceService env) (fst x) (fst (fst (remove_board env owner agent board x)))"
  by (auto simp: remove_board_def auth_runs.Stop split: sum.split intro: auth_runs_step auth_step.Delete)

lemma event_runs: "auth_runs sv (cwAccounts w) (cwAccounts (creation_event env type cr i n w))"
  by (auto simp: creation_event_def intro: auth_runs_step auth_step.Audit)

lemma fail_runs: "fail_creation env cr failed mk w = (w', r) \<Longrightarrow> auth_runs sv (cwAccounts w) (cwAccounts w')"
  by (auto simp: fail_creation_def event_runs auth_runs.Stop split: option.splits if_splits)

lemma grant_runs:
  assumes "file_ok (twFile t)"
    and "grantNewBoard tp ft cn fp now (prepare_board env name agent) (remove_board env owner agent) (t, x) = ((t', x'), res)"
  shows "auth_runs (ceService env) (fst x) (fst x')"
proof -
  have moved: "auth_runs (ceService env) (fst x) (fst x1)" if "prepare_board env name agent c x = (x1, q)" for c x1 q
    using prepare_runs [of env x name agent c] that by simp
  have removed: "auth_runs (ceService env) (fst x) (fst (fst (remove_board env owner agent board x1)))"
    if "prepare_board env name agent c x = (x1, q)" for c x1 q board
    by (rule auth_runs_trans [OF moved [OF that] remove_runs])
  from grant_consistent [OF assms] show ?thesis
    by (auto simp: not_granted_def granted_def stranded_def auth_runs.Stop moved dest: removed)
qed

lemma handle_agent_board_runs:
  assumes "file_ok (twFile (cwTokens w))" and "handle_agent_board env header body w = (w', r)"
  shows "auth_runs (ceService env) (cwAccounts w) (cwAccounts w')"
proof -
  have created: "auth_runs (ceService env) (cwAccounts w1) (cwAccounts w')"
    if run: "create_and_grant env cr name w1 = (w', r)" and ok: "file_ok (twFile (cwTokens w1))" for cr name w1
  proof -
    obtain t db mk res where g: "grantNewBoard (ceTokens env) (ceFaults env) (crName cr) (crFingerprint cr) (ceNow env)
        (prepare_board env name (crName cr)) (remove_board env (crOwner cr) (crName cr)) (cwTokens w1, (cwAccounts w1, None)) = ((t, (db, mk)), res)"
      by (metis surj_pair)
    let ?w = "w1\<lparr>cwTokens := t, cwAccounts := db\<rparr>"
    from run g have "auth_runs (ceService env) (cwAccounts ?w) (cwAccounts w')"
      using fail_runs [of env cr _ mk ?w w' r] event_runs [of "ceService env" ?w env]
      by (auto simp: create_and_grant_def Let_def split: sum.splits option.splits if_splits prod.splits)
    with auth_runs_trans [OF grant_runs [OF ok g]] show ?thesis by simp
  qed
  show ?thesis
  proof (cases "authenticateBoardCreator (ceTokens env) (twFile (cwTokens w)) header (ceNow env)")
    case (CreatorOk cr)
    obtain w1 a where sp: "spend (ceNow env) (crName cr) (crOwner cr) w = (w1, a)" by fastforce
    with spend_Spent [OF sp] assms CreatorOk show ?thesis
      using created [of cr _ w1]
      by (cases a) (auto simp: handle_agent_board_def auth_runs.Stop split: option.splits if_splits)
  qed (use assms(2) in \<open>auto simp: handle_agent_board_def auth_runs.Stop\<close>)
qed

section \<open>A concrete request\<close>

definition demo_creation_env :: "faults \<Rightarrow> creation_env" where
  "demo_creation_env ft = \<lparr>ceService = demo_service, ceDraws = demo_draws CHR ''b'', ceTokens = demo_tp, ceNow = 5000,
     ceUuid = ''board-9'', ceConfigured = True, ceFaults = ft\<rparr>"

definition demo_creation_world :: creation_world where
  "demo_creation_world = \<lparr>cwAccounts = demo_db, cwTokens = demo_world, cwCredentials = new_limiter 10 3600000,
     cwOwners = new_limiter 20 3600000\<rparr>"

definition demo_creation :: "faults \<Rightarrow> creation_world \<times> creation_reply" where
  "demo_creation ft = handle_agent_board (demo_creation_env ft) (demo_bearer CHR ''b'')
     (Some (JObj [(''name'', JStr ''Roadmap'')])) demo_creation_world"

lemma demo_creation_result: "snd (demo_creation no_faults) = Created ''board-9'' ''Roadmap''"
  by code_simp

theorem agent_board_all_or_nothing_witness:
  "snd (demo_creation no_faults) = Created ''board-9'' ''Roadmap'' \<and>
   (\<exists>cr. creation_done cr demo_creation_world (fst (demo_creation no_faults)) ''board-9'')"
proof -
  have run: "handle_agent_board (demo_creation_env no_faults) (demo_bearer CHR ''b'') (Some (JObj [(''name'', JStr ''Roadmap'')]))
      demo_creation_world = (fst (demo_creation no_faults), snd (demo_creation no_faults))"
    by (simp add: demo_creation_def)
  have ok: "file_ok (twFile (cwTokens demo_creation_world))" using demo_world_ok by (simp add: demo_creation_world_def)
  have "\<not> ftRelease (ceFaults (demo_creation_env no_faults))" by (simp add: demo_creation_env_def no_faults_def)
  with agent_board_all_or_nothing [OF ok run] demo_creation_result show ?thesis by auto
qed

text \<open>The two faults together: the credential holds the new board, and the board is deleted.\<close>

lemma board_deleted_grant_kept:
  "case demo_creation (no_faults\<lparr>ftMode := True, ftReread := True\<rparr>) of (w, r) \<Rightarrow>
     r = NotCreated 500 \<and> map bDeletedAt (filter (\<lambda>b. bId b = ''board-9'') (dBoards (cwAccounts w))) = [Some 5000] \<and>
     grantIsPersisted demo_tp False ''maker'' (clientFingerprint demo_tp (cget ''tokenHash'' demo_maker)) ''board-9'' (cwTokens w)"
  by code_simp

text \<open>
  When releasing the lock fails after the grant is written, the board is live and granted, and the answer is
  500; the last row of the audit trail says that the creation was rolled back.
\<close>

lemma release_failure_audited_as_rollback:
  "case demo_creation (no_faults\<lparr>ftRelease := True\<rparr>) of (w, r) \<Rightarrow>
     r = NotCreated 500 \<and> map bDeletedAt (filter (\<lambda>b. bId b = ''board-9'') (dBoards (cwAccounts w))) = [None] \<and>
     grantIsPersisted demo_tp False ''maker'' (clientFingerprint demo_tp (cget ''tokenHash'' demo_maker)) ''board-9'' (cwTokens w) \<and>
     aeType (last (dEvents (cwAccounts w))) = ''agent.board_creation_rolled_back''"
  by code_simp

end
