(* ===== verification/AppAccess.thy ===== *)
theory AppAccess
  imports AgentBoards AccessMachine
begin

text \<open>
  \<open>server/app.ts\<close>, first part: what stands between a request and a handler. The hostname hook, the
  origin hook, the two kinds of identity (session cookie, machine bearer) and the access of a request to
  a board, over the account database, the token file, the Access verifier and the request budgets.

  A request is what the hooks and handlers read of it; a body is the parsed JSON. A refusal is its status
  code. One request is one step: the Access verifier, which awaits, is treated with its overlapping in
  AccessMachine, and here runs to its verdict.
\<close>

section \<open>Requests and state\<close>

record request =
  rqMethod :: string
  rqUrl :: string
  rqHost :: header
  rqOrigin :: "string option"
  rqAuthorization :: "string option"
  rqCookie :: "string option"
  rqAssertion :: header
  rqBody :: "json option"
  rqIsBuffer :: bool
  rqQuery :: "(string \<times> string) list"
  rqProxied :: proxied_request

record 'k app_env =
  aeService :: service
  aeDraws :: draws
  aeTokens :: tparams
  aeUri :: uri_codec
  aeAllowed :: "string list"
  aePolicy :: "unit host_policy"
  aeJwt :: "'k jwt_world"
  aeReadings :: readings
  aeReply :: jwks_reply
  aeNow :: int
  aeSalt :: "nat list"
  aeUuid :: string
  aeConfigured :: bool
  aeReadFault :: bool
  aeFirst :: attempt
  aeSecond :: attempt
  aeFaults :: faults
  aeRoomFiles :: "string list option"
  aeBytes :: "json \<Rightarrow> nat"

text \<open>The rooms' sockets are told to close; the order of these calls is kept.\<close>

datatype closing = CloseBoard string | CloseUserOnBoard string string | CloseUser string

record 'k app_world =
  awAccounts :: adb
  awTokens :: tworld
  awVerifier :: "'k verifier option"
  awFiles :: "string list"
  awClosings :: "closing list"
  awGate :: limiter
  awLogins :: limiter
  awRegistrations :: limiter
  awWrites :: limiter
  awSnapshots :: limiter
  awInvitations :: limiter
  awUploads :: limiter
  awAssetReads :: limiter
  awMachineReads :: limiter
  awAgents :: limiter
  awLayoutReports :: limiter
  awCredentialBoards :: limiter
  awOwnerBoards :: limiter

text \<open>The limits and windows of production, as \<open>limiterFor\<close> builds them without overrides.\<close>

definition limiterFor :: "(nat \<times> int) option \<Rightarrow> nat \<Rightarrow> int \<Rightarrow> limiter" where
  "limiterFor setting limit windowMs = (case setting of None \<Rightarrow> new_limiter limit windowMs | Some (l, w) \<Rightarrow> new_limiter l w)"

definition new_app_world :: "adb \<Rightarrow> tworld \<Rightarrow> 'k verifier option \<Rightarrow> 'k app_world" where
  "new_app_world accounts tokens verifier = \<lparr>awAccounts = accounts, awTokens = tokens, awVerifier = verifier,
     awFiles = [], awClosings = [], awGate = limiterFor None 3000 60000, awLogins = limiterFor None 10 (15 * 60000),
     awRegistrations = limiterFor None 10 (15 * 60000), awWrites = limiterFor None 120 60000,
     awSnapshots = limiterFor None 20 (5 * 60000), awInvitations = limiterFor None 30 (60 * 60000),
     awUploads = limiterFor None 60 (15 * 60000), awAssetReads = limiterFor None 600 60000,
     awMachineReads = limiterFor None 300 60000, awAgents = limiterFor None 60 (10 * 60000), awLayoutReports = limiterFor None 120 60000,
     awCredentialBoards = limiterFor None 10 (60 * 60000), awOwnerBoards = limiterFor None 20 (60 * 60000)\<rparr>"

section \<open>The hostname hook\<close>

definition is_api :: "string \<Rightarrow> bool" where
  "is_api url \<longleftrightarrow> take 5 (path_of url) = ''/api/''"

definition access_gate :: "'k app_env \<Rightarrow> request \<Rightarrow> 'k app_world \<Rightarrow> 'k app_world \<times> (nat + unit)" where
  "access_gate env rq w = (if \<not> hpRequireAccess (aePolicy env) then (w, Inr ())
     else (case awVerifier w of
       None \<Rightarrow> (w, Inl 503)
     | Some v \<Rightarrow> (case verify_assertion (aeJwt env) (aeReadings env) (aeReply env)
           (case rqAssertion rq of OneHeader a \<Rightarrow> Some a | _ \<Rightarrow> None) v of
         (v', AccessJwt.verdict.Accepted c) \<Rightarrow> (w\<lparr>awVerifier := Some v'\<rparr>, Inr ())
       | (v', AccessJwt.verdict.Refused r) \<Rightarrow> (w\<lparr>awVerifier := Some v'\<rparr>, Inl 403))))"

definition host_hook :: "'k app_env \<Rightarrow> request \<Rightarrow> 'k app_world \<Rightarrow> 'k app_world \<times> (nat + request)" where
  "host_hook env rq w = (case classify (aePolicy env) (rqHost rq) of
     PrivateHost \<Rightarrow> (w, Inr rq)
   | InvalidHost \<Rightarrow> (w, Inl 400)
   | HumanHost \<Rightarrow> (w, if is_api (rqUrl rq) \<and> rqAuthorization rq \<noteq> None then Inl 401 else Inr rq)
   | MachineHost \<Rightarrow>
       (let (gate, ok) = allow ''machine-host'' (aeNow env) (awGate w); w1 = w\<lparr>awGate := gate\<rparr> in
        if \<not> ok then (w1, Inl 429)
        else bindS (access_gate env rq w1) (\<lambda>_ w2.
          if isMachineRoute (rqMethod rq) (rqUrl rq) then (w2, Inr (rq\<lparr>rqCookie := None\<rparr>)) else (w2, Inl 404))))"

section \<open>Bearers\<close>

definition all_permissions :: "string list" where
  "all_permissions = [''read'', ''write'', ''history'', ''restore'']"

definition bearer_step :: "tparams \<Rightarrow> tfile \<Rightarrow> string option \<Rightarrow> string \<Rightarrow> int \<Rightarrow> string
    \<Rightarrow> string option \<times> string list \<Rightarrow> string option \<times> string list" where
  "bearer_step tp file header board now permission = (\<lambda>(name, permissions).
     case authorizeApiToken tp file header board permission now of
       None \<Rightarrow> (name, permissions)
     | Some matched \<Rightarrow> (case name of None \<Rightarrow> Some matched | Some n \<Rightarrow> Some n, permissions @ [permission]))"

definition bearerPermissions :: "'k app_env \<Rightarrow> 'k app_world \<Rightarrow> request \<Rightarrow> string \<Rightarrow> (string \<times> string list) option" where
  "bearerPermissions env w rq board =
     (if rqAuthorization rq = None \<or> rqAuthorization rq = Some [] then None
      else (case fold (bearer_step (aeTokens env) (twFile (awTokens w)) (rqAuthorization rq) board (aeNow env))
              all_permissions (None, []) of
        (Some name, permissions) \<Rightarrow> Some (name, permissions)
      | (None, _) \<Rightarrow> None))"

definition parseRoomId :: "string \<Rightarrow> string option" where
  "parseRoomId v = (if matches_class is_id_char 1 80 v then Some v else None)"

text \<open>\<open>/^\/api\/(?:rooms|boards)\/([^/]+)/\<close> on the path: its third segment.\<close>

definition boardIdFromPath :: "string \<Rightarrow> string option" where
  "boardIdFromPath url = (case split_on CHR ''/'' (path_of url) of
     first # api # kind # i # rest \<Rightarrow>
       (if first = [] \<and> api = ''api'' \<and> (kind = ''rooms'' \<or> kind = ''boards'') \<and> i \<noteq> [] then parseRoomId i else None)
   | _ \<Rightarrow> None)"

section \<open>The origin hook\<close>

definition changes_state :: "string \<Rightarrow> bool" where
  "changes_state verb \<longleftrightarrow> verb \<in> {''POST'', ''PUT'', ''PATCH'', ''DELETE''}"

definition bearer_for_path :: "'k app_env \<Rightarrow> 'k app_world \<Rightarrow> request \<Rightarrow> bool" where
  "bearer_for_path env w rq \<longleftrightarrow> bearer_of (rqAuthorization rq) \<noteq> None \<and>
     (case boardIdFromPath (rqUrl rq) of None \<Rightarrow> False | Some board \<Rightarrow> bearerPermissions env w rq board \<noteq> None)"

definition creator_for_route :: "'k app_env \<Rightarrow> 'k app_world \<Rightarrow> request \<Rightarrow> bool" where
  "creator_for_route env w rq \<longleftrightarrow> bearer_of (rqAuthorization rq) \<noteq> None \<and> rqMethod rq = ''POST'' \<and>
     path_of (rqUrl rq) = ''/api/agent-boards'' \<and>
     (case authenticateBoardCreator (aeTokens env) (twFile (awTokens w)) (rqAuthorization rq) (aeNow env) of
        CreatorOk _ \<Rightarrow> True | _ \<Rightarrow> False)"

definition origin_hook :: "'k app_env \<Rightarrow> 'k app_world \<Rightarrow> request \<Rightarrow> nat + request" where
  "origin_hook env w rq =
     (if \<not> changes_state (rqMethod rq) then Inr rq
      else if originAllowed (rqOrigin rq) (aeAllowed env) then Inr rq
      else if bearer_for_path env w rq then Inr rq
      else if creator_for_route env w rq then Inr rq
      else Inl 403)"

definition hooks :: "'k app_env \<Rightarrow> request \<Rightarrow> 'k app_world \<Rightarrow> 'k app_world \<times> (nat + request)" where
  "hooks env rq w = bindS (host_hook env rq w) (\<lambda>rq' w'. (w', origin_hook env w' rq'))"

section \<open>Sessions and access to a board\<close>

definition currentSession :: "'k app_env \<Rightarrow> request \<Rightarrow> 'k app_world \<Rightarrow> 'k app_world \<times> (user_rec \<times> session_rec) option" where
  "currentSession env rq w = (case readCookie (aeUri env) session_cookie_name (rqCookie rq) of
     None \<Rightarrow> (w, None)
   | Some token \<Rightarrow> if token = [] then (w, None)
       else (case getCurrentSession (aeService env) (aeNow env) token (awAccounts w) of
         (db, r) \<Rightarrow> (w\<lparr>awAccounts := db\<rparr>, r)))"

datatype board_access =
    UserAccess string string board_role
  | TokenAccess string "string list"
  | NotMember
  | Anonymous

definition resolveBoardAccess :: "'k app_env \<Rightarrow> request \<Rightarrow> string \<Rightarrow> 'k app_world \<Rightarrow> 'k app_world \<times> (nat + board_access)" where
  "resolveBoardAccess env rq board w =
     (case bearerPermissions env w rq board of
        Some (name, permissions) \<Rightarrow> (w, Inr (case getBoardById board (awAccounts w) of
            None \<Rightarrow> NotMember
          | Some b \<Rightarrow> if bDeletedAt b \<noteq> None then NotMember else TokenAccess name permissions))
      | None \<Rightarrow>
        (if rqAuthorization rq \<noteq> None \<and> rqAuthorization rq \<noteq> Some [] then (w, Inr Anonymous)
         else (case currentSession env rq w of
           (w1, None) \<Rightarrow> (w1, Inr Anonymous)
         | (w1, Some (u, s)) \<Rightarrow> (w1, (case getBoardRole (uId u) board False (awAccounts w1) of
             Inl e \<Rightarrow> Inl (auth_status e)
           | Inr None \<Rightarrow> Inr NotMember
           | Inr (Some role) \<Rightarrow> Inr (UserAccess (uId u) (uDisplayName u) role))))))"

definition userRoleHasWrite :: "board_role \<Rightarrow> bool" where
  "userRoleHasWrite role \<longleftrightarrow> role = Owner \<or> role = Editor"

fun denyAccess :: "board_access \<Rightarrow> nat" where
  "denyAccess Anonymous = 401"
| "denyAccess NotMember = 404"
| "denyAccess (UserAccess u d r) = 403"
| "denyAccess (TokenAccess n p) = 403"

text \<open>Attribution and budget key; the source throws for the other two kinds, which never get here.\<close>

fun historyActor :: "board_access \<Rightarrow> (string \<times> string) option" where
  "historyActor (TokenAccess name permissions) = Some (''token:'' @ name, name)"
| "historyActor (UserAccess u displayName role) = Some (''user:'' @ u, displayName)"
| "historyActor _ = None"

fun accessRateKey :: "board_access \<Rightarrow> string \<Rightarrow> string \<Rightarrow> string option" where
  "accessRateKey (TokenAccess name permissions) scope board = Some (''token:'' @ name @ '':'' @ scope @ '':'' @ board)"
| "accessRateKey (UserAccess u displayName role) scope board = Some (''user:'' @ u @ '':'' @ scope @ '':'' @ board)"
| "accessRateKey _ scope board = None"

fun requireHistoryView :: "board_access \<Rightarrow> bool" where
  "requireHistoryView (TokenAccess name permissions) = (''history'' \<in> set permissions)"
| "requireHistoryView (UserAccess u displayName role) = True"
| "requireHistoryView _ = False"

end
