(* ===== verification/EvidenceTables.thy ===== *)
theory EvidenceTables
  imports AgentAccess
begin

text \<open>
  \<open>shared/evidence-tables.ts\<close>: the structural validation of a result table before it becomes an asset of a
  board. A schema is a function to an optional parsed value; the strict ones reject unknown members.
\<close>

definition max_columns :: nat where "max_columns = 20"
definition max_rows :: nat where "max_rows = 2000"
definition max_cell_length :: nat where "max_cell_length = 200"
definition max_serialized_bytes :: nat where "max_serialized_bytes = 500000"
definition max_table_artifacts :: nat where "max_table_artifacts = 200"

record table_column =
  tcKey :: string
  tcLabel :: string
  tcUnit :: "string option"

record evidence_table =
  etColumns :: "table_column list"
  etRows :: "(string \<times> json) list list"

definition is_column_key :: "string \<Rightarrow> bool" where
  "is_column_key k \<longleftrightarrow> 1 \<le> length k \<and> length k \<le> 60 \<and> (is_upper (hd k) \<or> is_lower (hd k)) \<and>
     list_all (\<lambda>c. is_alnum c \<or> c = CHR ''_'') k"

definition text_between :: "nat \<Rightarrow> nat \<Rightarrow> json option \<Rightarrow> string option" where
  "text_between lo hi j = (case j of Some (JStr s) \<Rightarrow> if lo \<le> length s \<and> length s \<le> hi then Some s else None | _ \<Rightarrow> None)"

definition optional_text :: "nat \<Rightarrow> nat \<Rightarrow> json option \<Rightarrow> string option option" where
  "optional_text lo hi j = (case j of None \<Rightarrow> Some None | Some _ \<Rightarrow> map_option Some (text_between lo hi j))"

definition evidenceTableColumn :: "json \<Rightarrow> table_column option" where
  "evidenceTableColumn j = (if \<not> only_members [''key'', ''label'', ''unit''] j then None
     else (case (text_between 1 60 (jmember j ''key''), text_between 1 100 (jmember j ''label''), optional_text 1 20 (jmember j ''unit'')) of
       (Some k, Some l, Some u) \<Rightarrow> if is_column_key k then Some \<lparr>tcKey = k, tcLabel = l, tcUnit = u\<rparr> else None
     | _ \<Rightarrow> None))"

fun evidenceTableCell :: "json \<Rightarrow> bool" where
  "evidenceTableCell (JStr s) = (length s \<le> max_cell_length)"
| "evidenceTableCell (JNum q) = True"
| "evidenceTableCell (JBool b) = True"
| "evidenceTableCell JNull = True"
| "evidenceTableCell _ = False"

definition table_row :: "json \<Rightarrow> (string \<times> json) list option" where
  "table_row j = (case j of JObj ms \<Rightarrow> if list_all (\<lambda>(k, v). evidenceTableCell v) ms then Some ms else None | _ \<Rightarrow> None)"

definition evidenceTableSchema :: "json \<Rightarrow> evidence_table option" where
  "evidenceTableSchema j =
     (if \<not> only_members [''version'', ''columns'', ''rows''] j \<or> jmember j ''version'' \<noteq> Some (JNum 1) then None
      else (case (jmember j ''columns'', jmember j ''rows'') of
        (Some (JArr cs), Some (JArr rs)) \<Rightarrow>
          (case (all_some (map evidenceTableColumn cs), all_some (map table_row rs)) of
            (Some columns, Some rows) \<Rightarrow>
              (if 1 \<le> length columns \<and> length columns \<le> max_columns \<and> distinct (map tcKey columns) \<and>
                  length rows \<le> max_rows \<and>
                  list_all (list_all (\<lambda>(k, v). k \<in> set (map tcKey columns))) rows
               then Some \<lparr>etColumns = columns, etRows = rows\<rparr> else None)
          | _ \<Rightarrow> None)
      | _ \<Rightarrow> None))"

definition summaryForTable :: "evidence_table \<Rightarrow> nat \<times> string list" where
  "summaryForTable t = (length (etRows t), map tcLabel (etColumns t))"

definition evidenceTableArtifactId :: "string \<Rightarrow> string" where
  "evidenceTableArtifactId uuid = ''evidence-table-'' @ uuid @ ''.json''"

text \<open>Every cell of an accepted table belongs to a declared column, and the table is within the limits.\<close>

lemma evidence_table_sound:
  assumes "evidenceTableSchema j = Some t"
  shows "distinct (map tcKey (etColumns t))" and "1 \<le> length (etColumns t) \<and> length (etColumns t) \<le> 20"
    and "length (etRows t) \<le> 2000" and "row \<in> set (etRows t) \<Longrightarrow> (k, v) \<in> set row \<Longrightarrow> k \<in> tcKey ` set (etColumns t)"
  using assms
  by (auto simp: evidenceTableSchema_def max_columns_def max_rows_def list_all_iff split: if_splits option.splits json.splits)
     (drule (1) bspec, drule (1) bspec, simp)

end
