(* ===== verification/AppRoutes.thy ===== *)
theory AppRoutes
  imports AppAccess EvidenceTables HistoryStore
begin

text \<open>
  \<open>server/app.ts\<close>, second part: the handlers. The account routes run to their answer. A route that works
  on the content of a board runs up to the point where it calls the room: it answers \<open>Admitted\<close> with the
  operation, the board and the access under which the room is told to act, or the refusal. What the room
  then does is modelled in the history theories.
\<close>

section \<open>Schemas\<close>

definition board_id_text :: "json option \<Rightarrow> string option option" where
  "board_id_text j = (case j of None \<Rightarrow> Some None
     | Some (JStr s) \<Rightarrow> if matches_class is_id_char 1 80 s then Some (Some s) else None | _ \<Rightarrow> None)"

text \<open>\<open>z.number().int()\<close>: a safe integer.\<close>

definition safe_integer :: "json option \<Rightarrow> int option" where
  "safe_integer j = (case j of Some (JNum q) \<Rightarrow>
     if q = of_int \<lfloor>q\<rfloor> \<and> \<bar>\<lfloor>q\<rfloor>\<bar> \<le> 9007199254740991 then Some \<lfloor>q\<rfloor> else None | _ \<Rightarrow> None)"

definition settings_of :: "json option \<Rightarrow> (string \<times> json) list option" where
  "settings_of j = (case j of Some (JObj ms) \<Rightarrow> Some ms | _ \<Rightarrow> None)"

definition loginSchema :: "json \<Rightarrow> (string \<times> string) option" where
  "loginSchema j = (if \<not> only_members [''login'', ''password''] j then None
     else (case (text_between 1 80 (jmember j ''login''), text_between 1 1024 (jmember j ''password'')) of
       (Some l, Some p) \<Rightarrow> Some (l, p) | _ \<Rightarrow> None))"

definition registerSchema :: "json \<Rightarrow> register_input option" where
  "registerSchema j = (if \<not> only_members [''login'', ''displayName'', ''password'', ''invitationToken'', ''settings''] j then None
     else (case (text_between 1 80 (jmember j ''login''), text_between 1 100 (jmember j ''displayName''),
         text_between 1 1024 (jmember j ''password'')) of
       (Some l, Some d, Some p) \<Rightarrow>
         (case (jmember j ''invitationToken'', jmember j ''settings'') of
            (None, None) \<Rightarrow> Some \<lparr>rgLogin = l, rgDisplayName = d, rgPassword = p, rgInvitation = None, rgSettings = None\<rparr>
          | (Some (JStr t), None) \<Rightarrow> if t = [] then None
              else Some \<lparr>rgLogin = l, rgDisplayName = d, rgPassword = p, rgInvitation = Some t, rgSettings = None\<rparr>
          | (None, Some (JObj ms)) \<Rightarrow> Some \<lparr>rgLogin = l, rgDisplayName = d, rgPassword = p, rgInvitation = None, rgSettings = Some ms\<rparr>
          | (Some (JStr t), Some (JObj ms)) \<Rightarrow> if t = [] then None
              else Some \<lparr>rgLogin = l, rgDisplayName = d, rgPassword = p, rgInvitation = Some t, rgSettings = Some ms\<rparr>
          | _ \<Rightarrow> None)
     | _ \<Rightarrow> None))"

definition settingsSchema :: "json \<Rightarrow> (string \<times> json) list option" where
  "settingsSchema j = (if \<not> only_members [''settings''] j then None else settings_of (jmember j ''settings''))"

definition createBoardSchema :: "json \<Rightarrow> (string \<times> string option) option" where
  "createBoardSchema j = (if \<not> only_members [''name'', ''id''] j then None
     else (case (text_between 1 120 (jmember j ''name''), board_id_text (jmember j ''id'')) of
       (Some n, Some i) \<Rightarrow> Some (n, i) | _ \<Rightarrow> None))"

definition renameBoardSchema :: "json \<Rightarrow> string option" where
  "renameBoardSchema j = (if \<not> only_members [''name''] j then None else text_between 1 120 (jmember j ''name''))"

definition role_text :: "json option \<Rightarrow> board_role option" where
  "role_text j = (case j of Some (JStr s) \<Rightarrow>
     if s = ''editor'' then Some Editor else if s = ''viewer'' then Some Viewer else None | _ \<Rightarrow> None)"

definition memberRoleSchema :: "json \<Rightarrow> board_role option option" where
  "memberRoleSchema j = (if \<not> only_members [''role''] j then None
     else if jmember j ''role'' = Some JNull then Some None else map_option Some (role_text (jmember j ''role'')))"

definition createInvitationSchema :: "json \<Rightarrow> invitation_input option" where
  "createInvitationSchema j =
     (let role = (if jmember j ''role'' = None then Some None else map_option Some (role_text (jmember j ''role'')));
          expires = (if jmember j ''expiresInMs'' = None then Some None
            else (case safe_integer (jmember j ''expiresInMs'') of Some t \<Rightarrow> if 0 < t then Some (Some t) else None | None \<Rightarrow> None))
      in if \<not> only_members [''boardId'', ''role'', ''invitedLogin'', ''expiresInMs''] j then None
         else (case (board_id_text (jmember j ''boardId''), role, optional_text 1 80 (jmember j ''invitedLogin''), expires) of
           (Some b, Some r, Some l, Some t) \<Rightarrow> Some \<lparr>niBoard = b, niRole = r, niLogin = l, niExpiresIn = t\<rparr> | _ \<Rightarrow> None))"

definition invitationTokenSchema :: "json \<Rightarrow> string option" where
  "invitationTokenSchema j = (if \<not> only_members [''token''] j then None else text_between 1 128 (jmember j ''token''))"

definition checkpointCreateSchema :: "json \<Rightarrow> string option option" where
  "checkpointCreateSchema j = (if \<not> only_members [''label''] j then None else optional_text 1 120 (jmember j ''label''))"

definition historyRestoreSchema :: "json \<Rightarrow> (int \<times> int) option" where
  "historyRestoreSchema j = (if \<not> only_members [''eventId'', ''expectedClock''] j then None
     else (case (safe_integer (jmember j ''eventId''), safe_integer (jmember j ''expectedClock'')) of
       (Some e, Some c) \<Rightarrow> if 0 < e \<and> 0 \<le> c then Some (e, c) else None | _ \<Rightarrow> None))"

definition ai_event_types :: "string list" where
  "ai_event_types = [''ai.requested'', ''ai.suggestion_generated'', ''ai.suggestion_accepted'', ''ai.suggestion_rejected'',
     ''ai.request_cancelled'', ''ai.object_created'']"

definition aiEventSchema :: "json \<Rightarrow> (string \<times> (string \<times> json) list) option" where
  "aiEventSchema j = (if \<not> only_members [''eventType'', ''metadata''] j then None
     else (case (jmember j ''eventType'', if jmember j ''metadata'' = None then Some [] else settings_of (jmember j ''metadata'')) of
       (Some (JStr t), Some ms) \<Rightarrow> if t \<in> set ai_event_types then Some (t, ms) else None | _ \<Rightarrow> None))"

section \<open>Sanitising\<close>

definition short_text :: "json \<Rightarrow> bool" where
  "short_text j \<longleftrightarrow> (case j of JStr s \<Rightarrow> length s \<le> 100 | _ \<Rightarrow> False)"

definition ai_metadata_kept :: "string \<times> json \<Rightarrow> bool" where
  "ai_metadata_kept kv = (case kv of (k, v) \<Rightarrow>
     if k = ''objectIds'' then (case v of JArr xs \<Rightarrow> length xs \<le> 50 \<and> list_all short_text xs | _ \<Rightarrow> False)
     else if k = ''count'' then short_text v \<or> (case safe_integer (Some v) of Some n \<Rightarrow> 0 \<le> n \<and> n \<le> 1000000 | None \<Rightarrow> False)
     else k \<in> {''provider'', ''model'', ''proposalId'', ''actionType'', ''status'', ''summary''} \<and> short_text v)"

definition sanitizeAiMetadata :: "(string \<times> json) list \<Rightarrow> (string \<times> json) list" where
  "sanitizeAiMetadata metadata = filter ai_metadata_kept metadata"

text \<open>\<open>undefined\<close>, a filter, or \<open>null\<close> for an invalid one; \<open>Number(text)\<close> is the parameter of the service.\<close>

datatype filter_number = NoFilter | FilterAt int | BadFilter

definition parseHistoryFilterNumber :: "(string \<Rightarrow> int option) \<Rightarrow> string option \<Rightarrow> filter_number" where
  "parseHistoryFilterNumber number value = (case value of None \<Rightarrow> NoFilter
     | Some text \<Rightarrow> (case number text of
         Some n \<Rightarrow> if 0 \<le> n \<and> n \<le> 9007199254740991 then FilterAt n else BadFilter
       | None \<Rightarrow> BadFilter))"

section \<open>Replies\<close>

datatype board_op =
    OpenSocket string
  | ReadCanvas "string option"
  | ReadLayout "(string \<times> string) list"
  | ReportMeasurements
  | ApplyActions
  | ReadSemantics "(string \<times> string) list"
  | AppendAiEvent string "(string \<times> json) list"
  | ReadHistory filters
  | ReadSnapshot int
  | ListCheckpoints "int option"
  | CreateCheckpoint "string option"
  | RestoreVersion int int

datatype app_reply =
    Failed nat
  | Done
  | SessionReply user_rec session_rec
  | GrantReply string int
  | BoardsReply "(board_rec \<times> board_role) list"
  | BoardReply "board_rec \<times> board_role"
  | BoardCreated board_rec
  | BoardChanged string
  | MembersReply "(member_rec \<times> string option) list"
  | InvitationReply invitation_rec string
  | InvitationConsumed invitation_rec
  | InvitationRevoked bool
  | AgentReply agent_reply
  | CreationReply creation_reply
  | TableStored string "nat \<times> string list"
  | AssetStream string
  | ClientFile string
  | Admitted board_op string board_access

type_synonym 'k handler = "'k app_world \<Rightarrow> 'k app_world \<times> app_reply"

definition with_session :: "'k app_env \<Rightarrow> request \<Rightarrow> (user_rec \<Rightarrow> session_rec \<Rightarrow> 'k handler) \<Rightarrow> 'k handler" where
  "with_session env rq f w = (case currentSession env rq w of
     (w1, None) \<Rightarrow> (w1, Failed 401)
   | (w1, Some (u, s)) \<Rightarrow> f u s w1)"

definition with_body :: "(json \<Rightarrow> 'b option) \<Rightarrow> request \<Rightarrow> ('b \<Rightarrow> 'k handler) \<Rightarrow> 'k handler" where
  "with_body schema rq f w = (case (case rqBody rq of None \<Rightarrow> None | Some j \<Rightarrow> schema j) of
     None \<Rightarrow> (w, Failed 422)
   | Some b \<Rightarrow> f b w)"

definition on_accounts :: "(adb \<Rightarrow> auth_error + (adb \<times> 'b)) \<Rightarrow> ('b \<Rightarrow> app_reply) \<Rightarrow> 'k handler" where
  "on_accounts f reply w = (case f (awAccounts w) of
     Inl e \<Rightarrow> (w, Failed (auth_status e))
   | Inr (db, b) \<Rightarrow> (w\<lparr>awAccounts := db\<rparr>, reply b))"

definition only_db :: "auth_error + adb \<Rightarrow> auth_error + (adb \<times> unit)" where
  "only_db r = bindR r (\<lambda>db. Inr (db, ()))"

text \<open>What follows a successful call only: closing sockets.\<close>

definition closing_on_success :: "closing list \<Rightarrow> 'k app_world \<times> app_reply \<Rightarrow> 'k app_world \<times> app_reply" where
  "closing_on_success cs r = (case snd r of Failed e \<Rightarrow> r | _ \<Rightarrow> ((fst r)\<lparr>awClosings := awClosings (fst r) @ cs\<rparr>, snd r))"

section \<open>Accounts\<close>

text \<open>The names in the rooms directory that are legacy boards; an error of reading them is swallowed.\<close>

definition legacy_suffix :: string where "legacy_suffix = ''.sqlite''"

definition discoverLegacyRooms :: "string list \<Rightarrow> (string \<times> string option) list" where
  "discoverLegacyRooms names = map (\<lambda>n. (take (length n - length legacy_suffix) n, None))
     (filter (\<lambda>n. length legacy_suffix \<le> length n \<and> drop (length n - length legacy_suffix) n = legacy_suffix \<and>
        matches_class is_id_char 1 80 (take (length n - length legacy_suffix) n)) names)"

definition adoptLegacyBoardsForAdmin :: "'k app_env \<Rightarrow> string \<Rightarrow> adb \<Rightarrow> adb" where
  "adoptLegacyBoardsForAdmin env user db = (case aeRoomFiles env of
     None \<Rightarrow> db
   | Some names \<Rightarrow> (if discoverLegacyRooms names = [] then db
       else (case adoptLegacyBoards (aeService env) (aeDraws env) (aeNow env) user (discoverLegacyRooms names) db of
         Inl e \<Rightarrow> db | Inr (db', bs) \<Rightarrow> db')))"

definition adopt_if_admin :: "'k app_env \<Rightarrow> user_rec option \<Rightarrow> adb \<Rightarrow> adb" where
  "adopt_if_admin env user db = (case user of
     Some u \<Rightarrow> if uIsAdmin u then adoptLegacyBoardsForAdmin env (uId u) db else db
   | None \<Rightarrow> db)"

definition session_max_age :: "int \<Rightarrow> int \<Rightarrow> int" where
  "session_max_age expiresAt now = max 1 (\<lfloor>of_int (expiresAt - now) / 1000 + (1 / 2 :: rat)\<rfloor>)"

definition get_me :: "'k app_env \<Rightarrow> request \<Rightarrow> 'k handler" where
  "get_me env rq = with_session env rq (\<lambda>u s w. (w, SessionReply u s))"

definition post_register :: "'k app_env \<Rightarrow> request \<Rightarrow> 'k handler" where
  "post_register env rq w = (case allow (clientAddress (rqProxied rq)) (aeNow env) (awRegistrations w) of
     (l, ok) \<Rightarrow> (let w1 = w\<lparr>awRegistrations := l\<rparr> in
       if \<not> ok then (w1, Failed 429)
       else with_body registerSchema rq (\<lambda>inp w2.
         (case registerInternal (aeService env) (aeDraws env) (aeSalt env) (aeNow env) False inp (awAccounts w2) of
            Inl e \<Rightarrow> (w2, Failed (auth_status e))
          | Inr (db, token) \<Rightarrow>
            (w2\<lparr>awAccounts := adopt_if_admin env (getUserById (drUser (aeDraws env)) db) db\<rparr>, GrantReply token (session_max_age (aeNow env + acSessionTtl (svConfig (aeService env))) (aeNow env))))) w1))"

definition login_key :: "'k app_env \<Rightarrow> string \<Rightarrow> request \<Rightarrow> string" where
  "login_key env login rq = (let uc = svUnicode (aeService env) in
     ucLower uc (js_trim (ucNfkc uc login)) @ '':'' @ clientAddress (rqProxied rq))"

definition post_login :: "'k app_env \<Rightarrow> request \<Rightarrow> 'k handler" where
  "post_login env rq = with_body loginSchema rq (\<lambda>(login, password) w.
     (case allow (login_key env login rq) (aeNow env) (awLogins w) of
        (l, ok) \<Rightarrow> (let w1 = w\<lparr>awLogins := l\<rparr> in
          if \<not> ok then (w1, Failed 429)
          else (case bindR (login_check (aeService env) login password (awAccounts w1)) (\<lambda>u.
              bindR (login_commit (aeService env) (aeDraws env) (aeNow env) u (awAccounts w1)) (\<lambda>(db, token).
              Inr (adopt_if_admin env (Some u) db, token))) of
            Inl e \<Rightarrow> (w1, Failed (auth_status e))
          | Inr (db, token) \<Rightarrow> (w1\<lparr>awAccounts := db\<rparr>, GrantReply token (session_max_age (aeNow env + acSessionTtl (svConfig (aeService env))) (aeNow env)))))))"

definition post_logout :: "'k app_env \<Rightarrow> request \<Rightarrow> 'k handler" where
  "post_logout env rq w = (case currentSession env rq w of
     (w1, session) \<Rightarrow>
       (let w2 = (case readCookie (aeUri env) session_cookie_name (rqCookie rq) of
              None \<Rightarrow> w1
            | Some token \<Rightarrow> if token = [] then w1
                else w1\<lparr>awAccounts := fst (logout (aeService env) (aeDraws env) (aeNow env) token (awAccounts w1))\<rparr>);
            w3 = (case session of None \<Rightarrow> w2 | Some (u, s) \<Rightarrow> w2\<lparr>awClosings := awClosings w2 @ [CloseUser (uId u)]\<rparr>)
        in (w3, Done)))"

definition put_settings :: "'k app_env \<Rightarrow> request \<Rightarrow> 'k handler" where
  "put_settings env rq = with_session env rq (\<lambda>u s. with_body settingsSchema rq (\<lambda>ms.
     on_accounts (\<lambda>db. only_db (updateSettings (aeService env) (aeDraws env) (aeNow env) (uId u) ms db)) (\<lambda>_. Done)))"

section \<open>Boards\<close>

definition query :: "request \<Rightarrow> string \<Rightarrow> string option" where
  "query rq k = map_of (rqQuery rq) k"

definition get_boards :: "'k app_env \<Rightarrow> request \<Rightarrow> 'k handler" where
  "get_boards env rq = with_session env rq (\<lambda>u s.
     on_accounts (\<lambda>db. bindR (listBoards (uId u) (query rq ''includeDeleted'' = Some ''true'') db) (\<lambda>bs. Inr (db, bs))) BoardsReply)"

definition post_board :: "'k app_env \<Rightarrow> request \<Rightarrow> 'k handler" where
  "post_board env rq = with_session env rq (\<lambda>u s. with_body createBoardSchema rq (\<lambda>(name, i).
     on_accounts (createBoard (aeService env) (aeDraws env) (aeNow env) (uId u) name
       (case i of None \<Rightarrow> aeUuid env | Some i \<Rightarrow> i) None) BoardCreated))"

definition get_board :: "'k app_env \<Rightarrow> request \<Rightarrow> string \<Rightarrow> 'k handler" where
  "get_board env rq board = with_session env rq (\<lambda>u s w.
     (case getBoard (uId u) board False (awAccounts w) of
        Inl e \<Rightarrow> (w, Failed (auth_status e))
      | Inr None \<Rightarrow> (w, Failed 404)
      | Inr (Some b) \<Rightarrow> (w, BoardReply b)))"

definition patch_board :: "'k app_env \<Rightarrow> request \<Rightarrow> string \<Rightarrow> 'k handler" where
  "patch_board env rq board = with_session env rq (\<lambda>u s. with_body renameBoardSchema rq (\<lambda>name.
     on_accounts (\<lambda>db. only_db (renameBoard (aeService env) (aeDraws env) (aeNow env) (uId u) board name db)) (\<lambda>_. BoardChanged board)))"

definition delete_board :: "'k app_env \<Rightarrow> request \<Rightarrow> string \<Rightarrow> 'k handler" where
  "delete_board env rq board = with_session env rq (\<lambda>u s w. closing_on_success [CloseBoard board]
     (on_accounts (\<lambda>db. only_db (deleteBoard (aeDraws env) (aeNow env) (uId u) board None None db)) (\<lambda>_. BoardChanged board) w))"

definition get_members :: "'k app_env \<Rightarrow> request \<Rightarrow> string \<Rightarrow> 'k handler" where
  "get_members env rq board = with_session env rq (\<lambda>u s.
     on_accounts (\<lambda>db. bindR (listBoardMembers (uId u) board db) (\<lambda>ms.
       Inr (db, map (\<lambda>m. (m, map_option uDisplayName (getUserById (mUser m) db))) ms))) MembersReply)"

definition put_member :: "'k app_env \<Rightarrow> request \<Rightarrow> string \<Rightarrow> string \<Rightarrow> 'k handler" where
  "put_member env rq board user = with_session env rq (\<lambda>u s. with_body memberRoleSchema rq (\<lambda>role w.
     closing_on_success [CloseUserOnBoard board user]
       (on_accounts (\<lambda>db. only_db (setBoardMemberRole (aeDraws env) (aeNow env) (uId u) board user role db)) (\<lambda>_. BoardChanged board) w)))"

section \<open>Invitations\<close>

definition post_invitation :: "'k app_env \<Rightarrow> request \<Rightarrow> 'k handler" where
  "post_invitation env rq = with_session env rq (\<lambda>u s w.
     (case allow (''user:'' @ uId u) (aeNow env) (awInvitations w) of
        (l, ok) \<Rightarrow> (let w1 = w\<lparr>awInvitations := l\<rparr> in
          if \<not> ok then (w1, Failed 429)
          else with_body createInvitationSchema rq (\<lambda>inp.
            on_accounts (createInvitation (aeService env) (aeDraws env) (aeNow env) (uId u) inp) (\<lambda>(i, token). InvitationReply i token)) w1)))"

definition post_consume :: "'k app_env \<Rightarrow> request \<Rightarrow> 'k handler" where
  "post_consume env rq = with_session env rq (\<lambda>u s. with_body invitationTokenSchema rq (\<lambda>token w.
     (case consumeInvitation (aeService env) (aeDraws env) (aeNow env) (uId u) token (awAccounts w) of
        Inl e \<Rightarrow> (w, Failed (auth_status e))
      | Inr (db, i) \<Rightarrow> (w\<lparr>awAccounts := db,
          awClosings := awClosings w @ (case truthy (iBoard i) of None \<Rightarrow> [] | Some b \<Rightarrow> [CloseUserOnBoard b (uId u)])\<rparr>,
          InvitationConsumed i))))"

definition post_revoke :: "'k app_env \<Rightarrow> request \<Rightarrow> 'k handler" where
  "post_revoke env rq = with_session env rq (\<lambda>u s. with_body invitationTokenSchema rq (\<lambda>token.
     on_accounts (revokeInvitation (aeService env) (aeDraws env) (aeNow env) (uId u) token) InvitationRevoked))"

end
