(* ===== verification/AppBoards.thy ===== *)
theory AppBoards
  imports AppRoutes
begin

text \<open>
  \<open>server/app.ts\<close>, third part: the routes of one board (content, history, checkpoints, uploads, tables,
  assets), the wiring of the agent routes, the table of routes and the whole request. Which route serves
  a method and a path is the router of Fastify, a parameter.
\<close>

section \<open>Access and budgets\<close>

definition with_access :: "'k app_env \<Rightarrow> request \<Rightarrow> string \<Rightarrow> (string \<Rightarrow> board_access \<Rightarrow> 'k handler) \<Rightarrow> 'k handler" where
  "with_access env rq raw f w = (case parseRoomId raw of
     None \<Rightarrow> (w, Failed 400)
   | Some board \<Rightarrow> (case resolveBoardAccess env rq board w of
       (w1, Inl e) \<Rightarrow> (w1, Failed e)
     | (w1, Inr access) \<Rightarrow> f board access w1))"

text \<open>The lens of one limiter of the state.\<close>

type_synonym 'k lens = "('k app_world \<Rightarrow> limiter) \<times> (limiter \<Rightarrow> 'k app_world \<Rightarrow> 'k app_world)"

definition budget :: "'k lens \<Rightarrow> int \<Rightarrow> string option \<Rightarrow> 'k handler \<Rightarrow> 'k handler" where
  "budget lens now key f w = (case key of
     None \<Rightarrow> (w, Failed 500)
   | Some k \<Rightarrow> (case allow k now (fst lens w) of
       (l, ok) \<Rightarrow> if ok then f (snd lens l w) else (snd lens l w, Failed 429)))"

definition writes_lens :: "'k lens" where "writes_lens = (awWrites, \<lambda>l w. w\<lparr>awWrites := l\<rparr>)"
definition snapshots_lens :: "'k lens" where "snapshots_lens = (awSnapshots, \<lambda>l w. w\<lparr>awSnapshots := l\<rparr>)"
definition uploads_lens :: "'k lens" where "uploads_lens = (awUploads, \<lambda>l w. w\<lparr>awUploads := l\<rparr>)"
definition asset_reads_lens :: "'k lens" where "asset_reads_lens = (awAssetReads, \<lambda>l w. w\<lparr>awAssetReads := l\<rparr>)"
definition machine_reads_lens :: "'k lens" where "machine_reads_lens = (awMachineReads, \<lambda>l w. w\<lparr>awMachineReads := l\<rparr>)"
definition layout_reports_lens :: "'k lens" where "layout_reports_lens = (awLayoutReports, \<lambda>l w. w\<lparr>awLayoutReports := l\<rparr>)"

lemmas lens_defs = writes_lens_def snapshots_lens_def uploads_lens_def asset_reads_lens_def machine_reads_lens_def layout_reports_lens_def

fun has_permissions :: "string list \<Rightarrow> board_access \<Rightarrow> bool" where
  "has_permissions needed (TokenAccess name permissions) \<longleftrightarrow> set needed \<subseteq> set permissions"
| "has_permissions needed (UserAccess u displayName role) \<longleftrightarrow> userRoleHasWrite role"
| "has_permissions needed _ \<longleftrightarrow> False"

definition is_token :: "board_access \<Rightarrow> bool" where
  "is_token access \<longleftrightarrow> (case access of TokenAccess n p \<Rightarrow> True | _ \<Rightarrow> False)"

definition deny :: "board_access \<Rightarrow> 'k handler" where
  "deny access w = (w, Failed (denyAccess access))"

definition admit :: "board_op \<Rightarrow> string \<Rightarrow> board_access \<Rightarrow> 'k handler" where
  "admit op board access w = (w, Admitted op board access)"

section \<open>Content of a board\<close>

text \<open>\<open>canvas\<close>, \<open>layout\<close> and \<open>semantic-context\<close> have the same guard.\<close>

definition read_board :: "'k app_env \<Rightarrow> request \<Rightarrow> board_op \<Rightarrow> string \<Rightarrow> 'k handler" where
  "read_board env rq op raw = with_access env rq raw (\<lambda>board access.
     (case access of
        TokenAccess name permissions \<Rightarrow>
          (if ''read'' \<notin> set permissions then deny access
           else budget machine_reads_lens (aeNow env) (accessRateKey access ''read'' board) (admit op board access))
      | UserAccess u displayName role \<Rightarrow> admit op board access
      | _ \<Rightarrow> deny access))"

definition get_canvas :: "'k app_env \<Rightarrow> request \<Rightarrow> string \<Rightarrow> 'k handler" where
  "get_canvas env rq = read_board env rq (ReadCanvas (query rq ''pageId''))"

definition get_layout :: "'k app_env \<Rightarrow> request \<Rightarrow> string \<Rightarrow> 'k handler" where
  "get_layout env rq = read_board env rq (ReadLayout (rqQuery rq))"

definition get_semantics :: "'k app_env \<Rightarrow> request \<Rightarrow> string \<Rightarrow> 'k handler" where
  "get_semantics env rq = read_board env rq (ReadSemantics (rqQuery rq))"

definition post_measurements :: "'k app_env \<Rightarrow> request \<Rightarrow> string \<Rightarrow> 'k handler" where
  "post_measurements env rq raw = with_access env rq raw (\<lambda>board access.
     if is_token access \<or> \<not> has_permissions [] access then deny access
     else budget layout_reports_lens (aeNow env) (accessRateKey access ''layout-report'' board) (admit ReportMeasurements board access))"

definition post_actions :: "'k app_env \<Rightarrow> request \<Rightarrow> string \<Rightarrow> 'k handler" where
  "post_actions env rq raw = with_access env rq raw (\<lambda>board access.
     if \<not> has_permissions [''write''] access then deny access
     else budget writes_lens (aeNow env) (accessRateKey access ''actions'' board) (admit ApplyActions board access))"

definition post_ai_event :: "'k app_env \<Rightarrow> request \<Rightarrow> string \<Rightarrow> 'k handler" where
  "post_ai_event env rq raw = with_access env rq raw (\<lambda>board access.
     if \<not> has_permissions [''write''] access then deny access
     else budget writes_lens (aeNow env) (accessRateKey access ''ai-events'' board)
       (with_body aiEventSchema rq (\<lambda>(type, metadata).
          (let clean = sanitizeAiMetadata metadata in
           if 4096 < aeBytes env (JObj clean) then (\<lambda>w. (w, Failed 422)) else admit (AppendAiEvent type clean) board access))))"

section \<open>History\<close>

definition number_of :: "'k app_env \<Rightarrow> string \<Rightarrow> int option" where
  "number_of env = cyNumber (svCrypto (aeService env))"

definition words_of :: "string \<Rightarrow> string list" where
  "words_of s = filter (\<lambda>p. p \<noteq> []) (split_on CHR '','' s)"

definition source_words :: "string \<Rightarrow> history_source list" where
  "source_words s = List.map_filter (\<lambda>p. if p = ''human'' then Some Human else if p = ''ai'' then Some AI
     else if p = ''system'' then Some System else None) (split_on CHR '','' s)"

definition nonempty :: "string option \<Rightarrow> string option" where
  "nonempty q = (case q of Some s \<Rightarrow> if s = [] then None else Some s | None \<Rightarrow> None)"

fun the_filter :: "filter_number \<Rightarrow> int option" where
  "the_filter (FilterAt n) = Some n"
| "the_filter _ = None"

definition history_filters :: "'k app_env \<Rightarrow> request \<Rightarrow> filters option" where
  "history_filters env rq =
     (let number = (\<lambda>k. parseHistoryFilterNumber (number_of env) (query rq k)) in
      if BadFilter \<in> number ` set [''from'', ''to'', ''after'', ''before'', ''limit''] then None
      else Some \<lparr>fiUser = nonempty (query rq ''userId''), fiSource = map_option source_words (nonempty (query rq ''source'')),
        fiType = map_option words_of (nonempty (query rq ''eventType'')), fiEntityType = nonempty (query rq ''entityType''),
        fiEntityId = nonempty (query rq ''entityId''), fiFrom = the_filter (number ''from''), fiTo = the_filter (number ''to''),
        fiAfter = the_filter (number ''after''), fiBefore = the_filter (number ''before''), fiAsc = (query rq ''order'' = Some ''asc''),
        fiLimit = the_filter (number ''limit'')\<rparr>)"

text \<open>A token's reads of history spend a budget; a user's do not.\<close>

definition history_read :: "'k app_env \<Rightarrow> request \<Rightarrow> string \<Rightarrow> 'k lens \<Rightarrow> string \<Rightarrow> board_op option \<Rightarrow> 'k handler" where
  "history_read env rq raw lens scope op = with_access env rq raw (\<lambda>board access.
     (let answer = (case op of None \<Rightarrow> (\<lambda>w. (w, Failed 400)) | Some op \<Rightarrow> admit op board access) in
      if \<not> requireHistoryView access then deny access
      else if is_token access then budget lens (aeNow env) (accessRateKey access scope board) answer
      else answer))"

definition get_history :: "'k app_env \<Rightarrow> request \<Rightarrow> string \<Rightarrow> 'k handler" where
  "get_history env rq raw = history_read env rq raw machine_reads_lens ''history-read'' (map_option ReadHistory (history_filters env rq))"

definition positive_number :: "'k app_env \<Rightarrow> string \<Rightarrow> int option" where
  "positive_number env s = (case number_of env s of
     Some n \<Rightarrow> if 1 \<le> n \<and> n \<le> 9007199254740991 then Some n else None | None \<Rightarrow> None)"

definition get_snapshot :: "'k app_env \<Rightarrow> request \<Rightarrow> string \<Rightarrow> string \<Rightarrow> 'k handler" where
  "get_snapshot env rq raw event = history_read env rq raw snapshots_lens ''snapshot-read''
     (map_option ReadSnapshot (positive_number env event))"

definition get_checkpoints :: "'k app_env \<Rightarrow> request \<Rightarrow> string \<Rightarrow> 'k handler" where
  "get_checkpoints env rq raw = history_read env rq raw machine_reads_lens ''history-read''
     (case query rq ''limit'' of None \<Rightarrow> Some (ListCheckpoints None)
      | Some s \<Rightarrow> map_option (\<lambda>n. ListCheckpoints (Some n)) (positive_number env s))"

definition post_checkpoint :: "'k app_env \<Rightarrow> request \<Rightarrow> string \<Rightarrow> 'k handler" where
  "post_checkpoint env rq raw = with_access env rq raw (\<lambda>board access.
     if \<not> has_permissions [''history'', ''write''] access then deny access
     else budget snapshots_lens (aeNow env) (accessRateKey access ''checkpoints'' board)
       (with_body checkpointCreateSchema rq (\<lambda>label. admit (CreateCheckpoint label) board access)))"

definition names_version :: "json option \<Rightarrow> bool" where
  "names_version body \<longleftrightarrow> (case body of
     Some (JObj ms) \<Rightarrow> list_ex (\<lambda>(k, _). k = ''eventId'' \<or> k = ''checkpointId'' \<or> k = ''timestamp'') ms | _ \<Rightarrow> False)"

text \<open>Restoring a version of the content, or (without one in the body) the deleted board itself.\<close>

definition post_restore :: "'k app_env \<Rightarrow> request \<Rightarrow> string \<Rightarrow> 'k handler" where
  "post_restore env rq raw = (case parseRoomId raw of
     None \<Rightarrow> (\<lambda>w. (w, Failed 400))
   | Some board \<Rightarrow>
     (if names_version (rqBody rq) then
        with_body historyRestoreSchema rq (\<lambda>(event, clock). with_access env rq board (\<lambda>board access.
          if \<not> has_permissions [''restore''] access then deny access
          else budget snapshots_lens (aeNow env) (accessRateKey access ''restore'' board)
            (admit (RestoreVersion event clock) board access)))
      else with_session env rq (\<lambda>u s.
        on_accounts (\<lambda>db. only_db (restoreBoard (aeDraws env) (aeNow env) (uId u) board db)) (\<lambda>_. BoardChanged board))))"

text \<open>The actors named in a page of events; the order of display names (\<open>localeCompare\<close>) is an argument.\<close>

definition actor_entry :: "adb \<Rightarrow> string \<Rightarrow> (string \<times> string) option" where
  "actor_entry db actor =
     (if take 5 actor = ''user:'' then Some (actor, case getUserById (drop 5 actor) db of
          Some u \<Rightarrow> uDisplayName u | None \<Rightarrow> ''User '' @ take 8 (drop 5 actor))
      else if take 6 actor = ''token:'' then Some (actor, drop 6 actor)
      else None)"

fun insert_actor :: "(string \<Rightarrow> string \<Rightarrow> bool) \<Rightarrow> string \<times> string \<Rightarrow> (string \<times> string) list \<Rightarrow> (string \<times> string) list" where
  "insert_actor le a [] = [a]"
| "insert_actor le a (b # bs) = (if le (snd a) (snd b) then a # b # bs else b # insert_actor le a bs)"

definition resolveActors :: "(string \<Rightarrow> string \<Rightarrow> bool) \<Rightarrow> adb \<Rightarrow> hevent list \<Rightarrow> (string \<times> string) list" where
  "resolveActors le db events = foldr (insert_actor le)
     (List.map_filter (actor_entry db) (uniq (List.map_filter (\<lambda>e. truthy (evActor e)) events))) []"

section \<open>The socket\<close>

definition connect_socket :: "'k app_env \<Rightarrow> request \<Rightarrow> string \<Rightarrow> 'k handler" where
  "connect_socket env rq raw w = (case (parseRoomId raw, nonempty (query rq ''sessionId'')) of
     (Some board, Some sessionId) \<Rightarrow> (case currentSession env rq w of
         (w1, None) \<Rightarrow> (w1, Failed 1008)
       | (w1, Some (u, s)) \<Rightarrow>
           if \<not> originAllowed (rqOrigin rq) (aeAllowed env) then (w1, Failed 1008)
           else (case getBoardRole (uId u) board False (awAccounts w1) of
               Inr (Some role) \<Rightarrow> (w1, Admitted (OpenSocket sessionId) board (UserAccess (uId u) (uDisplayName u) role))
             | _ \<Rightarrow> (w1, Failed 1008)))
   | _ \<Rightarrow> (w, Failed 1008))"

section \<open>Uploads, tables, assets\<close>

definition is_upload_char :: "char \<Rightarrow> bool" where
  "is_upload_char c \<longleftrightarrow> is_id_char c \<or> c = CHR ''.''"

definition valid_upload_id :: "string \<Rightarrow> bool" where
  "valid_upload_id i \<longleftrightarrow> matches_class is_upload_char 1 180 i \<and> \<not> has_part ''..'' i"

definition upload_key :: "string \<Rightarrow> string \<Rightarrow> string" where
  "upload_key user board = ''user:'' @ user @ '':'' @ board"

definition with_writer :: "'k app_env \<Rightarrow> user_rec \<Rightarrow> string \<Rightarrow> 'k handler \<Rightarrow> 'k handler" where
  "with_writer env u board f w = (case getBoardRole (uId u) board False (awAccounts w) of
     Inl e \<Rightarrow> (w, Failed (auth_status e))
   | Inr None \<Rightarrow> (w, Failed 404)
   | Inr (Some role) \<Rightarrow> (if \<not> userRoleHasWrite role then (w, Failed 403)
       else budget uploads_lens (aeNow env) (Some (upload_key (uId u) board)) f w))"

definition post_upload :: "'k app_env \<Rightarrow> request \<Rightarrow> string \<Rightarrow> string \<Rightarrow> 'k handler" where
  "post_upload env rq board upload = with_session env rq (\<lambda>u s w.
     (if \<not> valid_upload_id upload \<or> \<not> rqIsBuffer rq then (w, Failed 400)
      else with_writer env u board (\<lambda>w.
        (if upload \<in> set (awFiles w) then (w, Failed 409)
         else on_accounts (\<lambda>db. only_db (registerBoardAsset board upload db)) (\<lambda>_. Done)
           (w\<lparr>awFiles := awFiles w @ [upload]\<rparr>))) w))"

definition column_json :: "table_column \<Rightarrow> json" where
  "column_json c = JObj ([(''key'', JStr (tcKey c)), (''label'', JStr (tcLabel c))] @
     (case tcUnit c of None \<Rightarrow> [] | Some u \<Rightarrow> [(''unit'', JStr u)]))"

definition table_json :: "evidence_table \<Rightarrow> json" where
  "table_json t = JObj [(''version'', JNum 1), (''columns'', JArr (map column_json (etColumns t))),
     (''rows'', JArr (map JObj (etRows t)))]"

definition post_evidence_table :: "'k app_env \<Rightarrow> request \<Rightarrow> string \<Rightarrow> 'k handler" where
  "post_evidence_table env rq board = with_session env rq (\<lambda>u s. with_writer env u board
     (with_body evidenceTableSchema rq (\<lambda>t w.
        (if max_serialized_bytes < aeBytes env (table_json t) then (w, Failed 422)
         else (let upload = evidenceTableArtifactId (aeUuid env); w1 = w\<lparr>awFiles := awFiles w @ [upload]\<rparr> in
           if upload \<in> set (awFiles w) then (w, Failed 500)
           else (case registerBoardAssetIfUnderCap board upload ''evidence-table-'' max_table_artifacts (awAccounts w1) of
               Inl e \<Rightarrow> (w1, Failed (auth_status e))
             | Inr (db, registered) \<Rightarrow>
               (if registered then (w1\<lparr>awAccounts := db\<rparr>, TableStored upload (summaryForTable t))
                else (w, Failed 422))))))))"

definition get_asset :: "'k app_env \<Rightarrow> request \<Rightarrow> string \<Rightarrow> string \<Rightarrow> 'k handler" where
  "get_asset env rq board upload = with_session env rq (\<lambda>u s w.
     (if parseRoomId board = None \<or> \<not> valid_upload_id upload then (w, Failed 400)
      else (case getBoardRole (uId u) board False (awAccounts w) of
          Inl e \<Rightarrow> (w, Failed (auth_status e))
        | Inr None \<Rightarrow> (w, Failed 404)
        | Inr (Some role) \<Rightarrow> budget asset_reads_lens (aeNow env) (Some (upload_key (uId u) board)) (\<lambda>w.
            (if \<not> canReadAsset (uId u) board upload (awAccounts w) then (w, Failed 404)
             else if upload \<notin> set (awFiles w) then (w, Failed 404)
             else (w, AssetStream upload))) w)))"

section \<open>Agents\<close>

definition agent_env_of :: "'k app_env \<Rightarrow> agent_env" where
  "agent_env_of env = \<lparr>geTokens = aeTokens env, geNow = aeNow env, geUuid = drEvent (aeDraws env),
     geConfigured = aeConfigured env, geReadFault = aeReadFault env, geFirst = aeFirst env, geSecond = aeSecond env\<rparr>"

definition agent_route :: "'k app_env \<Rightarrow> request \<Rightarrow>
    (agent_env \<Rightarrow> string option \<Rightarrow> agent_world \<Rightarrow> agent_world \<times> agent_reply) \<Rightarrow> 'k handler" where
  "agent_route env rq f w = (case currentSession env rq w of
     (w1, session) \<Rightarrow>
       (case f (agent_env_of env) (map_option (\<lambda>(u, s). uId u) session)
          \<lparr>gwAccounts = awAccounts w1, gwTokens = awTokens w1, gwLimiter = awAgents w1\<rparr> of
        (g, r) \<Rightarrow> (w1\<lparr>awAccounts := gwAccounts g, awTokens := gwTokens g, awAgents := gwLimiter g\<rparr>, AgentReply r)))"

definition query_header :: "request \<Rightarrow> string \<Rightarrow> header" where
  "query_header rq k = (case query rq k of None \<Rightarrow> NoHeader | Some v \<Rightarrow> OneHeader v)"

definition body_or_null :: "request \<Rightarrow> json" where
  "body_or_null rq = (case rqBody rq of None \<Rightarrow> JNull | Some j \<Rightarrow> j)"

definition creation_env_of :: "'k app_env \<Rightarrow> creation_env" where
  "creation_env_of env = \<lparr>ceService = aeService env, ceDraws = aeDraws env, ceTokens = aeTokens env, ceNow = aeNow env,
     ceUuid = aeUuid env, ceConfigured = aeConfigured env, ceFaults = aeFaults env\<rparr>"

definition creation_route :: "'k app_env \<Rightarrow> request \<Rightarrow> 'k handler" where
  "creation_route env rq w = (case handle_agent_board (creation_env_of env) (rqAuthorization rq) (rqBody rq)
       \<lparr>cwAccounts = awAccounts w, cwTokens = awTokens w, cwCredentials = awCredentialBoards w, cwOwners = awOwnerBoards w\<rparr> of
     (c, r) \<Rightarrow> (w\<lparr>awAccounts := cwAccounts c, awTokens := cwTokens c, awCredentialBoards := cwCredentials c,
       awOwnerBoards := cwOwners c\<rparr>, CreationReply r))"

section \<open>Routes and the whole request\<close>

datatype app_route =
    ToHealth | ToUnfurl | ToMe | ToRegister | ToLogin | ToLogout | ToSettings
  | ToBoards | ToNewBoard | ToBoard string | ToRename string | ToDelete string | ToRestore string
  | ToMembers string | ToMember string string
  | ToAgents | ToNewAgent | ToRotateAgent string | ToRevokeAgent string | ToAgentBoard
  | ToNewInvitation | ToConsume | ToRevoke
  | ToSocket string | ToCanvas string | ToLayout string | ToMeasurements string | ToActions string
  | ToSemantics string | ToAiEvents string | ToHistory string | ToSnapshot string string
  | ToCheckpoints string | ToNewCheckpoint string
  | ToUpload string string | ToTables string | ToAsset string string
  | ToClientFile string

fun run_route :: "'k app_env \<Rightarrow> request \<Rightarrow> app_route \<Rightarrow> 'k handler" where
  "run_route env rq ToHealth = (\<lambda>w. (w, Done))"
| "run_route env rq ToUnfurl = (\<lambda>w. (w, Done))"
| "run_route env rq ToMe = get_me env rq"
| "run_route env rq ToRegister = post_register env rq"
| "run_route env rq ToLogin = post_login env rq"
| "run_route env rq ToLogout = post_logout env rq"
| "run_route env rq ToSettings = put_settings env rq"
| "run_route env rq ToBoards = get_boards env rq"
| "run_route env rq ToNewBoard = post_board env rq"
| "run_route env rq (ToBoard b) = get_board env rq b"
| "run_route env rq (ToRename b) = patch_board env rq b"
| "run_route env rq (ToDelete b) = delete_board env rq b"
| "run_route env rq (ToRestore b) = post_restore env rq b"
| "run_route env rq (ToMembers b) = get_members env rq b"
| "run_route env rq (ToMember b u) = put_member env rq b u"
| "run_route env rq ToAgents = agent_route env rq (\<lambda>ge user. handle_list ge user (query_header rq ''scope'') (query_header rq ''boardId''))"
| "run_route env rq ToNewAgent = agent_route env rq (\<lambda>ge user. handle_create ge user (body_or_null rq))"
| "run_route env rq (ToRotateAgent ref) = agent_route env rq (\<lambda>ge user. handle_rotate ge user ref (body_or_null rq))"
| "run_route env rq (ToRevokeAgent ref) = agent_route env rq (\<lambda>ge user. handle_revoke ge user ref)"
| "run_route env rq ToAgentBoard = creation_route env rq"
| "run_route env rq ToNewInvitation = post_invitation env rq"
| "run_route env rq ToConsume = post_consume env rq"
| "run_route env rq ToRevoke = post_revoke env rq"
| "run_route env rq (ToSocket b) = connect_socket env rq b"
| "run_route env rq (ToCanvas b) = get_canvas env rq b"
| "run_route env rq (ToLayout b) = get_layout env rq b"
| "run_route env rq (ToMeasurements b) = post_measurements env rq b"
| "run_route env rq (ToActions b) = post_actions env rq b"
| "run_route env rq (ToSemantics b) = get_semantics env rq b"
| "run_route env rq (ToAiEvents b) = post_ai_event env rq b"
| "run_route env rq (ToHistory b) = get_history env rq b"
| "run_route env rq (ToSnapshot b e) = get_snapshot env rq b e"
| "run_route env rq (ToCheckpoints b) = get_checkpoints env rq b"
| "run_route env rq (ToNewCheckpoint b) = post_checkpoint env rq b"
| "run_route env rq (ToUpload b i) = post_upload env rq b i"
| "run_route env rq (ToTables b) = post_evidence_table env rq b"
| "run_route env rq (ToAsset b i) = get_asset env rq b i"
| "run_route env rq (ToClientFile f) = (\<lambda>w. (w, ClientFile f))"

text \<open>The headers the \<open>preHandler\<close> hook puts on every reply.\<close>

definition single_quoted :: "string \<Rightarrow> string" where
  "single_quoted s = CHR 0x27 # s @ [CHR 0x27]"

definition reply_headers :: "request \<Rightarrow> (string \<times> string) list" where
  "reply_headers rq =
     (if is_api (rqUrl rq) then [(''Cache-Control'', ''no-store'')] else []) @
     [(''Content-Security-Policy'', ''frame-ancestors '' @ single_quoted ''none''), (''Referrer-Policy'', ''no-referrer''),
      (''X-Content-Type-Options'', ''nosniff''), (''X-Frame-Options'', ''DENY'')] @
     (if requestIsSecure (rqProxied rq) then [(''Strict-Transport-Security'', ''max-age=31536000'')] else [])"

text \<open>\<open>setNotFoundHandler\<close>, with or without the built client.\<close>

definition not_found :: "bool \<Rightarrow> request \<Rightarrow> 'k handler" where
  "not_found staticActive rq w = (w, if \<not> is_api (rqUrl rq) \<and> staticActive then ClientFile ''index.html'' else Failed 404)"

type_synonym router = "string \<Rightarrow> string \<Rightarrow> app_route option"

definition handle_request :: "'k app_env \<Rightarrow> router \<Rightarrow> bool \<Rightarrow> request \<Rightarrow> 'k handler" where
  "handle_request env route staticActive rq w = (case hooks env rq w of
     (w1, Inl code) \<Rightarrow> (w1, Failed code)
   | (w1, Inr rq') \<Rightarrow> (case route (rqMethod rq') (rqUrl rq') of
       None \<Rightarrow> not_found staticActive rq' w1
     | Some r \<Rightarrow> run_route env rq' r w1))"

end
