(* ===== verification/AppClaims.thy ===== *)
theory AppClaims
  imports AppBoards AgentBoardClaims AccessClaims
begin

text \<open>
  The whole server: what a request must carry to be let through to the content of a board, and what any
  run of requests does to the account database.
\<close>

section \<open>What each operation needs\<close>

text \<open>
  The specification, per operation on a board: the permissions a machine token needs (none: a token never
  may), and whether a signed-in user needs to be an editor or owner.
\<close>

fun token_needs :: "board_op \<Rightarrow> string list option" where
  "token_needs (OpenSocket i) = None"
| "token_needs (ReadCanvas p) = Some [''read'']"
| "token_needs (ReadLayout q) = Some [''read'']"
| "token_needs ReportMeasurements = None"
| "token_needs ApplyActions = Some [''write'']"
| "token_needs (ReadSemantics q) = Some [''read'']"
| "token_needs (AppendAiEvent t m) = Some [''write'']"
| "token_needs (ReadHistory f) = Some [''history'']"
| "token_needs (ReadSnapshot e) = Some [''history'']"
| "token_needs (ListCheckpoints l) = Some [''history'']"
| "token_needs (CreateCheckpoint l) = Some [''history'', ''write'']"
| "token_needs (RestoreVersion e c) = Some [''restore'']"

fun needs_writer :: "board_op \<Rightarrow> bool" where
  "needs_writer (OpenSocket i) \<longleftrightarrow> False"
| "needs_writer (ReadCanvas p) \<longleftrightarrow> False"
| "needs_writer (ReadLayout q) \<longleftrightarrow> False"
| "needs_writer ReportMeasurements \<longleftrightarrow> True"
| "needs_writer ApplyActions \<longleftrightarrow> True"
| "needs_writer (ReadSemantics q) \<longleftrightarrow> False"
| "needs_writer (AppendAiEvent t m) \<longleftrightarrow> True"
| "needs_writer (ReadHistory f) \<longleftrightarrow> False"
| "needs_writer (ReadSnapshot e) \<longleftrightarrow> False"
| "needs_writer (ListCheckpoints l) \<longleftrightarrow> False"
| "needs_writer (CreateCheckpoint l) \<longleftrightarrow> True"
| "needs_writer (RestoreVersion e c) \<longleftrightarrow> True"

fun op_allows :: "board_op \<Rightarrow> board_access \<Rightarrow> bool" where
  "op_allows op (UserAccess u d role) \<longleftrightarrow> (needs_writer op \<longrightarrow> role = Owner \<or> role = Editor)"
| "op_allows op (TokenAccess n ps) \<longleftrightarrow> (\<exists>ns. token_needs op = Some ns \<and> set ns \<subseteq> set ps)"
| "op_allows op _ \<longleftrightarrow> False"

definition is_socket :: "board_op \<Rightarrow> bool" where
  "is_socket op \<longleftrightarrow> (case op of OpenSocket i \<Rightarrow> True | _ \<Rightarrow> False)"

section \<open>Whose access it is\<close>

definition live_board :: "string \<Rightarrow> adb \<Rightarrow> bool" where
  "live_board board db \<longleftrightarrow> (\<exists>b\<in>set (dBoards db). bId b = board \<and> bDeletedAt b = None)"

text \<open>The cookie names an unexpired, unrevoked session of an active user who is a member of the live board.\<close>

definition user_authentic :: "'k app_env \<Rightarrow> string option \<Rightarrow> adb \<Rightarrow> string \<Rightarrow> string \<Rightarrow> board_role \<Rightarrow> string \<Rightarrow> bool" where
  "user_authentic env cookie db u d role board \<longleftrightarrow>
     (\<exists>token. readCookie (aeUri env) session_cookie_name cookie = Some token \<and>
       (\<exists>s\<in>set (dSessions db). sTokenHash s = cyHash (svCrypto (aeService env)) token \<and> sUserId s = u \<and>
          sRevokedAt s = None \<and> aeNow env < sExpiresAt s)) \<and>
     (\<exists>x\<in>set (dUsers db). uId x = u \<and> uDisplayName x = d \<and> uDisabledAt x = None) \<and>
     (\<exists>m\<in>set (dMembers db). mBoard m = board \<and> mUser m = u \<and> mRole m = role) \<and> live_board board db"

text \<open>The bearer has each permission on the live board in the token file.\<close>

definition token_authentic :: "'k app_env \<Rightarrow> string option \<Rightarrow> tworld \<Rightarrow> adb \<Rightarrow> string \<Rightarrow> string list \<Rightarrow> string \<Rightarrow> bool" where
  "token_authentic env header tokens db name ps board \<longleftrightarrow>
     (\<exists>p. authorizeApiToken (aeTokens env) (twFile tokens) header board p (aeNow env) = Some name) \<and>
     (\<forall>p\<in>set ps. authorizeApiToken (aeTokens env) (twFile tokens) header board p (aeNow env) \<noteq> None) \<and>
     live_board board db"

definition no_bearer :: "request \<Rightarrow> bool" where
  "no_bearer rq \<longleftrightarrow> rqAuthorization rq = None \<or> rqAuthorization rq = Some []"

section \<open>Sessions\<close>

lemma session_user:
  assumes "currentSession env rq w = (w1, Some (u, s))"
  shows "(\<exists>token. readCookie (aeUri env) session_cookie_name (rqCookie rq) = Some token \<and>
      (\<exists>s\<in>set (dSessions (awAccounts w)). sTokenHash s = cyHash (svCrypto (aeService env)) token \<and> sUserId s = uId u \<and>
         sRevokedAt s = None \<and> aeNow env < sExpiresAt s)) \<and>
    u \<in> set (dUsers (awAccounts w)) \<and> uDisabledAt u = None"
  using assms
  by (auto simp: currentSession_def getCurrentSession_def getSessionByTokenHash_def find_Some_iff
      split: option.splits if_splits dest!: getUserById_Some)

lemma session_frame:
  assumes "currentSession env rq w = (w1, r)"
  shows "dUsers (awAccounts w1) = dUsers (awAccounts w) \<and> dBoards (awAccounts w1) = dBoards (awAccounts w) \<and>
    dMembers (awAccounts w1) = dMembers (awAccounts w) \<and> awTokens w1 = awTokens w"
  using assms
  by (auto simp: currentSession_def getCurrentSession_def revokeSessionByTokenHash_def touchSession_def update_sessions_def
      split: option.splits if_splits prod.splits)

lemma role_row:
  assumes "getBoardRole user board False db = Inr (Some role)"
  shows "matches_class is_id_char 1 80 board \<and> live_board board db \<and>
    (\<exists>m\<in>set (dMembers db). mBoard m = board \<and> mUser m = user \<and> mRole m = role)"
  using assms
  by (auto simp: getBoardRole_def getBoard_def visible_board_def validateBoardId_def live_board_def res_simps
      split: option.splits if_splits dest!: getBoardMember_Some getBoardById_Some)

lemma user_access_authentic:
  assumes "currentSession env rq w = (w1, Some (u, s))" and "getBoardRole (uId u) board False (awAccounts w1) = Inr (Some role)"
  shows "user_authentic env (rqCookie rq) (awAccounts w) (uId u) (uDisplayName u) role board"
  using session_user [OF assms(1)] role_row [OF assms(2)] session_frame [OF assms(1)]
  unfolding user_authentic_def live_board_def by auto

section \<open>Bearers\<close>

lemma bearer_fold:
  assumes "fold (bearer_step tp file header board now) qs (n, ps) = (n', ps')"
  shows "(\<forall>p\<in>set ps'. p \<in> set ps \<or> authorizeApiToken tp file header board p now \<noteq> None) \<and>
    (n' = n \<or> (\<exists>p name. n' = Some name \<and> authorizeApiToken tp file header board p now = Some name))"
  using assms
proof (induction qs arbitrary: n ps)
  case Nil
  then show ?case by simp
next
  case (Cons q qs)
  obtain n1 ps1 where st: "bearer_step tp file header board now q (n, ps) = (n1, ps1)" by fastforce
  from Cons.prems st have run: "fold (bearer_step tp file header board now) qs (n1, ps1) = (n', ps')" by simp
  have one: "(\<forall>p\<in>set ps1. p \<in> set ps \<or> authorizeApiToken tp file header board p now \<noteq> None) \<and>
      (n1 = n \<or> (\<exists>p name. n1 = Some name \<and> authorizeApiToken tp file header board p now = Some name))"
    using st by (auto simp: bearer_step_def split: option.splits)
  from Cons.IH [OF run] one show ?case by blast
qed

lemma bearer_sound:
  assumes "bearerPermissions env w rq board = Some (name, ps)"
  shows "(\<exists>p. authorizeApiToken (aeTokens env) (twFile (awTokens w)) (rqAuthorization rq) board p (aeNow env) = Some name) \<and>
    (\<forall>p\<in>set ps. authorizeApiToken (aeTokens env) (twFile (awTokens w)) (rqAuthorization rq) board p (aeNow env) \<noteq> None)"
proof -
  from assms have "fold (bearer_step (aeTokens env) (twFile (awTokens w)) (rqAuthorization rq) board (aeNow env))
      all_permissions (None, []) = (Some name, ps)"
    by (auto simp: bearerPermissions_def split: if_splits prod.splits option.splits)
  from bearer_fold [OF this] show ?thesis by auto
qed

definition access_authentic :: "'k app_env \<Rightarrow> request \<Rightarrow> 'k app_world \<Rightarrow> string \<Rightarrow> board_access \<Rightarrow> bool" where
  "access_authentic env rq w board access \<longleftrightarrow> (case access of
     UserAccess u d role \<Rightarrow> user_authentic env (rqCookie rq) (awAccounts w) u d role board \<and> no_bearer rq
   | TokenAccess n ps \<Rightarrow> token_authentic env (rqAuthorization rq) (awTokens w) (awAccounts w) n ps board
   | _ \<Rightarrow> True)"

lemma resolve_authentic:
  assumes "resolveBoardAccess env rq board w = (w1, Inr access)"
  shows "access_authentic env rq w board access"
proof (cases "bearerPermissions env w rq board")
  case (Some np)
  obtain name ps where np: "np = (name, ps)" by fastforce
  from assms Some np have "access = (case getBoardById board (awAccounts w) of None \<Rightarrow> NotMember
      | Some b \<Rightarrow> if bDeletedAt b \<noteq> None then NotMember else TokenAccess name ps)"
    by (auto simp: resolveBoardAccess_def)
  with bearer_sound [OF Some [unfolded np]] show ?thesis
    by (auto simp: access_authentic_def token_authentic_def live_board_def split: option.splits dest!: getBoardById_Some)
next
  case None
  show ?thesis
  proof (cases access)
    case (UserAccess u d role)
    with assms None obtain x s where "currentSession env rq w = (w1, Some (x, s))" "u = uId x" "d = uDisplayName x"
        "getBoardRole (uId x) board False (awAccounts w1) = Inr (Some role)" and "no_bearer rq"
      by (auto simp: resolveBoardAccess_def no_bearer_def split: if_splits option.splits prod.splits sum.splits)
    with UserAccess user_access_authentic show ?thesis by (auto simp: access_authentic_def)
  next
    case (TokenAccess n ps)
    with assms None show ?thesis
      by (auto simp: resolveBoardAccess_def split: if_splits option.splits prod.splits sum.splits)
  qed (simp_all add: access_authentic_def)
qed

section \<open>Handlers let through what their operation allows\<close>

named_theorems admitted \<open>what a handler that admits a request has checked\<close>

lemma with_access_Admitted [admitted]:
  "with_access env rq raw f w = (w', Admitted op b a) \<longleftrightarrow>
     (\<exists>board access w1. parseRoomId raw = Some board \<and> resolveBoardAccess env rq board w = (w1, Inr access) \<and>
        f board access w1 = (w', Admitted op b a))"
  by (auto simp: with_access_def split: option.splits prod.splits sum.splits)

lemma with_body_Admitted [admitted]:
  "with_body schema rq f w = (w', Admitted op b a) \<longleftrightarrow> (\<exists>x. Option.bind (rqBody rq) schema = Some x \<and> f x w = (w', Admitted op b a))"
  by (auto simp: with_body_def split: option.splits)

lemma with_session_Admitted [admitted]:
  "with_session env rq f w = (w', Admitted op b a) \<longleftrightarrow>
     (\<exists>w1 u s. currentSession env rq w = (w1, Some (u, s)) \<and> f u s w1 = (w', Admitted op b a))"
  by (auto simp: with_session_def split: prod.splits option.splits)

lemma budget_Admitted:
  "budget lens now key f w = (w', Admitted op b a) \<Longrightarrow> \<exists>w1. f w1 = (w', Admitted op b a)"
  by (auto simp: budget_def split: option.splits prod.splits if_splits)

lemma on_accounts_Admitted:
  "on_accounts f reply w = (w', Admitted op b a) \<Longrightarrow> \<exists>x. reply x = Admitted op b a"
  by (auto simp: on_accounts_def split: sum.splits prod.splits)

lemma closing_Admitted [admitted]:
  "closing_on_success cs r = (w', Admitted op b a) \<Longrightarrow> snd r = Admitted op b a"
  by (auto simp: closing_on_success_def split: app_reply.splits)

lemma admit_Admitted [admitted]:
  "admit op' board access w = (w', Admitted op b a) \<longleftrightarrow> w' = w \<and> op' = op \<and> board = b \<and> access = a"
  by (auto simp: admit_def)

lemma deny_Admitted [admitted]: "\<not> deny access w = (w', Admitted op b a)"
  by (simp add: deny_def)

text \<open>The form of the guard of a content route.\<close>

definition let_through :: "'k app_env \<Rightarrow> request \<Rightarrow> 'k app_world \<Rightarrow> board_op \<Rightarrow> string \<Rightarrow> board_access \<Rightarrow> bool" where
  "let_through env rq w op board access \<longleftrightarrow> matches_class is_id_char 1 80 board \<and> access_authentic env rq w board access \<and>
     op_allows op access \<and> \<not> is_socket op"

lemma let_throughI:
  assumes "with_access env rq raw f w = (w', Admitted op b a)"
    and "\<And>board access w1. f board access w1 = (w', Admitted op b a) \<Longrightarrow> board = b \<and> access = a \<and> op_allows op a \<and> \<not> is_socket op"
  shows "let_through env rq w op b a"
proof -
  from assms(1) obtain board access w1 where p: "parseRoomId raw = Some board" and r: "resolveBoardAccess env rq board w = (w1, Inr access)"
    and f: "f board access w1 = (w', Admitted op b a)" by (auto simp: admitted)
  from assms(2) [OF f] resolve_authentic [OF r] p show ?thesis
    by (auto simp: let_through_def parseRoomId_def split: if_splits)
qed

lemma read_board_through:
  assumes "read_board env rq op' raw w = (w', Admitted op b a)"
    and "op' = ReadCanvas p \<or> op' = ReadLayout q \<or> op' = ReadSemantics q"
  shows "let_through env rq w op b a"
  using assms(1) unfolding read_board_def
  by (rule let_throughI)
    (use assms(2) in \<open>auto simp: admitted is_socket_def split: board_access.splits if_splits dest!: budget_Admitted\<close>)

lemma op_allows_permissions:
  "op_allows ApplyActions access = has_permissions [''write''] access"
  "op_allows (AppendAiEvent t m) access = has_permissions [''write''] access"
  "op_allows (CreateCheckpoint l) access = has_permissions [''history'', ''write''] access"
  "op_allows (RestoreVersion e c) access = has_permissions [''restore''] access"
  by (cases access; auto simp: userRoleHasWrite_def)+

lemma measurements_through:
  assumes "post_measurements env rq raw w = (w', Admitted op b a)"
  shows "let_through env rq w op b a"
  using assms unfolding post_measurements_def
proof (rule let_throughI)
  fix board access w1
  assume "(if is_token access \<or> \<not> has_permissions [] access then deny access
     else budget layout_reports_lens (aeNow env) (accessRateKey access ''layout-report'' board) (admit ReportMeasurements board access)) w1
    = (w', Admitted op b a)"
  then show "board = b \<and> access = a \<and> op_allows op a \<and> \<not> is_socket op"
    by (cases access) (auto simp: admitted is_token_def is_socket_def userRoleHasWrite_def split: if_splits dest!: budget_Admitted)
qed

lemma actions_through:
  assumes "post_actions env rq raw w = (w', Admitted op b a)"
  shows "let_through env rq w op b a"
  using assms unfolding post_actions_def
  by (rule let_throughI) (auto simp: admitted is_socket_def op_allows_permissions split: if_splits dest!: budget_Admitted)

lemma ai_event_through:
  assumes "post_ai_event env rq raw w = (w', Admitted op b a)"
  shows "let_through env rq w op b a"
  using assms unfolding post_ai_event_def
  by (rule let_throughI)
    (auto simp: admitted is_socket_def op_allows_permissions Let_def split: if_splits dest!: budget_Admitted)

lemma checkpoint_through:
  assumes "post_checkpoint env rq raw w = (w', Admitted op b a)"
  shows "let_through env rq w op b a"
  using assms unfolding post_checkpoint_def
  by (rule let_throughI)
    (auto simp: admitted is_socket_def op_allows_permissions split: if_splits dest!: budget_Admitted)

lemma history_read_through:
  assumes "history_read env rq raw lens scope op' w = (w', Admitted op b a)"
    and "\<And>o1. op' = Some o1 \<Longrightarrow> token_needs o1 = Some [''history''] \<and> \<not> needs_writer o1 \<and> \<not> is_socket o1"
  shows "let_through env rq w op b a"
  using assms(1) unfolding history_read_def
proof (rule let_throughI)
  fix board access w1
  let ?answer = "case op' of None \<Rightarrow> (\<lambda>w. (w, Failed 400)) | Some op \<Rightarrow> admit op board access"
  assume run: "(let answer = ?answer in
      if \<not> requireHistoryView access then deny access
      else if is_token access then budget lens (aeNow env) (accessRateKey access scope board) answer
      else answer) w1 = (w', Admitted op b a)"
  then have view: "requireHistoryView access" by (auto simp: admitted Let_def split: if_splits)
  with run obtain w2 where "?answer w2 = (w', Admitted op b a)"
    by (auto simp: Let_def split: if_splits dest!: budget_Admitted)
  then obtain o1 where "op' = Some o1" "admit o1 board access w2 = (w', Admitted op b a)" by (cases op') auto
  with assms(2) view show "board = b \<and> access = a \<and> op_allows op a \<and> \<not> is_socket op"
    by (cases access) (auto simp: admitted)
qed

lemma restore_through:
  assumes "post_restore env rq raw w = (w', Admitted op b a)"
  shows "let_through env rq w op b a"
proof (cases "parseRoomId raw")
  case None
  with assms show ?thesis by (simp add: post_restore_def)
next
  case (Some board)
  show ?thesis
  proof (cases "names_version (rqBody rq)")
    case False
    with assms Some show ?thesis by (auto simp: post_restore_def with_session_Admitted dest!: on_accounts_Admitted)
  next
    case True
    with assms Some obtain event clock where
        "with_access env rq board (\<lambda>board access.
            if \<not> has_permissions [''restore''] access then deny access
            else budget snapshots_lens (aeNow env) (accessRateKey access ''restore'' board)
              (admit (RestoreVersion event clock) board access)) w = (w', Admitted op b a)"
      by (auto simp: post_restore_def with_body_Admitted split: prod.splits)
    then show ?thesis
      by (rule let_throughI)
        (auto simp: admitted is_socket_def op_allows_permissions split: if_splits dest!: budget_Admitted)
  qed
qed

text \<open>The socket is for people: the cookie, an allowed origin, and any role on the board.\<close>

lemma socket_through:
  assumes "connect_socket env rq raw w = (w', Admitted op b a)"
  shows "is_socket op \<and> matches_class is_id_char 1 80 b \<and> originAllowed (rqOrigin rq) (aeAllowed env) \<and>
    (\<exists>u d role. a = UserAccess u d role \<and> user_authentic env (rqCookie rq) (awAccounts w) u d role b)"
proof -
  from assms obtain w1 u s role where "currentSession env rq w = (w1, Some (u, s))"
      "getBoardRole (uId u) b False (awAccounts w1) = Inr (Some role)" and a: "a = UserAccess (uId u) (uDisplayName u) role"
      and rest: "is_socket op" "originAllowed (rqOrigin rq) (aeAllowed env)" and b: "parseRoomId raw = Some b"
    by (auto simp: connect_socket_def is_socket_def split: option.splits prod.splits if_splits sum.splits)
  from user_access_authentic [OF this(1,2)] a b rest show ?thesis by (auto simp: parseRoomId_def split: if_splits)
qed

section \<open>Every other route\<close>

lemma account_routes_admit_nothing:
  "\<not> get_me env rq w = (w', Admitted op b a)" "\<not> post_register env rq w = (w', Admitted op b a)"
  "\<not> post_login env rq w = (w', Admitted op b a)" "\<not> post_logout env rq w = (w', Admitted op b a)"
  "\<not> put_settings env rq w = (w', Admitted op b a)"
  by (auto simp: get_me_def post_register_def post_login_def post_logout_def put_settings_def admitted Let_def
      split: prod.splits sum.splits if_splits dest!: on_accounts_Admitted)

lemma board_routes_admit_nothing:
  "\<not> get_boards env rq w = (w', Admitted op b a)" "\<not> post_board env rq w = (w', Admitted op b a)"
  "\<not> get_board env rq i w = (w', Admitted op b a)" "\<not> patch_board env rq i w = (w', Admitted op b a)"
  "\<not> get_members env rq i w = (w', Admitted op b a)"
  by (auto simp: get_boards_def post_board_def get_board_def patch_board_def get_members_def admitted
      split: prod.splits sum.splits option.splits dest!: on_accounts_Admitted)

lemma snd_on_accounts: "snd (on_accounts f reply w) = Admitted op b a \<Longrightarrow> \<exists>x. reply x = Admitted op b a"
  by (cases "on_accounts f reply w") (auto dest: on_accounts_Admitted)

lemma closing_routes_admit_nothing:
  "\<not> delete_board env rq i w = (w', Admitted op b a)" "\<not> put_member env rq i u w = (w', Admitted op b a)"
  by (auto simp: delete_board_def put_member_def with_session_Admitted with_body_Admitted
      dest!: closing_Admitted snd_on_accounts)

lemma invitation_routes_admit_nothing:
  "\<not> post_invitation env rq w = (w', Admitted op b a)" "\<not> post_consume env rq w = (w', Admitted op b a)"
  "\<not> post_revoke env rq w = (w', Admitted op b a)"
  by (auto simp: post_invitation_def post_consume_def post_revoke_def admitted Let_def
      split: prod.splits sum.splits if_splits dest!: on_accounts_Admitted)

lemma with_writer_Admitted:
  "with_writer env u i f w = (w', Admitted op b a) \<Longrightarrow> \<exists>w1. f w1 = (w', Admitted op b a)"
  by (auto simp: with_writer_def split: sum.splits option.splits if_splits dest!: budget_Admitted)

lemma asset_routes_admit_nothing:
  "\<not> post_upload env rq i j w = (w', Admitted op b a)" "\<not> post_evidence_table env rq i w = (w', Admitted op b a)"
  "\<not> get_asset env rq i j w = (w', Admitted op b a)"
  by (auto simp: post_upload_def post_evidence_table_def get_asset_def with_session_Admitted with_body_Admitted Let_def
      split: if_splits sum.splits option.splits prod.splits dest!: with_writer_Admitted budget_Admitted on_accounts_Admitted)

lemma agent_routes_admit_nothing:
  "\<not> agent_route env rq f w = (w', Admitted op b a)" "\<not> creation_route env rq w = (w', Admitted op b a)"
  by (auto simp: agent_route_def creation_route_def split: prod.splits)

lemmas admit_nothing = account_routes_admit_nothing board_routes_admit_nothing closing_routes_admit_nothing
  invitation_routes_admit_nothing asset_routes_admit_nothing agent_routes_admit_nothing

section \<open>One request\<close>

definition request_entered :: "'k app_env \<Rightarrow> request \<Rightarrow> 'k app_world \<Rightarrow> board_op \<Rightarrow> string \<Rightarrow> board_access \<Rightarrow> bool" where
  "request_entered env rq w op board access \<longleftrightarrow> matches_class is_id_char 1 80 board \<and> op_allows op access \<and>
     (case access of
        UserAccess u d role \<Rightarrow> user_authentic env (rqCookie rq) (awAccounts w) u d role board \<and>
          (if is_socket op then originAllowed (rqOrigin rq) (aeAllowed env) else no_bearer rq)
      | TokenAccess n ps \<Rightarrow> token_authentic env (rqAuthorization rq) (awTokens w) (awAccounts w) n ps board
      | _ \<Rightarrow> False)"

lemma let_through_entered: "let_through env rq w op b a \<Longrightarrow> request_entered env rq w op b a"
  by (cases a) (auto simp: let_through_def request_entered_def access_authentic_def)

lemma socket_entered: "connect_socket env rq raw w = (w', Admitted op b a) \<Longrightarrow> request_entered env rq w op b a"
  by (drule socket_through) (auto simp: request_entered_def is_socket_def split: board_op.splits)

lemma history_through:
  "get_history env rq i w = (w', Admitted op b a) \<Longrightarrow> let_through env rq w op b a"
  "get_snapshot env rq i e w = (w', Admitted op b a) \<Longrightarrow> let_through env rq w op b a"
  "get_checkpoints env rq i w = (w', Admitted op b a) \<Longrightarrow> let_through env rq w op b a"
  by (auto simp: get_history_def get_snapshot_def get_checkpoints_def is_socket_def split: option.splits
      elim!: history_read_through)

lemma run_route_entered:
  assumes "run_route env rq r w = (w', Admitted op b a)"
  shows "request_entered env rq w op b a"
proof (cases r)
  case (ToSocket i)
  with assms show ?thesis by (auto intro: socket_entered)
next
  case (ToCanvas i)
  with assms show ?thesis by (auto simp: get_canvas_def intro: let_through_entered read_board_through)
next
  case (ToLayout i)
  with assms show ?thesis by (auto simp: get_layout_def intro: let_through_entered read_board_through)
next
  case (ToSemantics i)
  with assms show ?thesis by (auto simp: get_semantics_def intro: let_through_entered read_board_through)
qed (use assms in \<open>auto simp: admit_nothing intro: let_through_entered measurements_through actions_through ai_event_through
    checkpoint_through restore_through history_through\<close>)

lemma host_hook_passes:
  assumes "host_hook env rq w = (w1, Inr rq1)"
  shows "awAccounts w1 = awAccounts w \<and> awTokens w1 = awTokens w \<and>
    (case classify (aePolicy env) (rqHost rq) of
       PrivateHost \<Rightarrow> rq1 = rq
     | HumanHost \<Rightarrow> rq1 = rq \<and> (is_api (rqUrl rq) \<longrightarrow> rqAuthorization rq = None)
     | MachineHost \<Rightarrow> rq1 = rq\<lparr>rqCookie := None\<rparr> \<and> isMachineRoute (rqMethod rq) (rqUrl rq) \<and>
         snd (allow ''machine-host'' (aeNow env) (awGate w)) \<and>
         (hpRequireAccess (aePolicy env) \<longrightarrow> (\<exists>v v' c. awVerifier w = Some v \<and>
            verify_assertion (aeJwt env) (aeReadings env) (aeReply env)
              (case rqAssertion rq of OneHeader a \<Rightarrow> Some a | _ \<Rightarrow> None) v = (v', AccessJwt.verdict.Accepted c)))
     | InvalidHost \<Rightarrow> False)"
proof (cases "classify (aePolicy env) (rqHost rq)")
  case MachineHost
  obtain gate ok where g: "allow ''machine-host'' (aeNow env) (awGate w) = (gate, ok)" by fastforce
  with assms MachineHost have ok: ok
    and run: "bindS (access_gate env rq (w\<lparr>awGate := gate\<rparr>)) (\<lambda>_ w2.
          if isMachineRoute (rqMethod rq) (rqUrl rq) then (w2, Inr (rq\<lparr>rqCookie := None\<rparr>)) else (w2, Inl 404)) = (w1, Inr rq1)"
    by (auto simp: host_hook_def Let_def split: if_splits)
  obtain w2 x where a: "access_gate env rq (w\<lparr>awGate := gate\<rparr>) = (w2, x)" by fastforce
  with run obtain u where x: "x = Inr u" by (cases x) auto
  with run a have "w1 = w2" "rq1 = rq\<lparr>rqCookie := None\<rparr>" "isMachineRoute (rqMethod rq) (rqUrl rq)" by (auto split: if_splits)
  with a x g ok MachineHost show ?thesis
    by (auto simp: access_gate_def split: if_splits option.splits prod.splits verdict.splits)
qed (use assms in \<open>auto simp: host_hook_def split: if_splits\<close>)

lemma no_cookie: "readCookie uc name None = None"
  by (simp add: readCookie_def)

lemma no_header: "authorizeApiToken tp file None board p now = None"
  by (simp add: authorizeApiToken_def bearer_of_def)

lemma no_bearer_of: "no_bearer rq \<Longrightarrow> bearer_of (rqAuthorization rq) = None"
  by (auto simp: no_bearer_def bearer_of_def)

lemma origin_passes:
  assumes "origin_hook env w rq = Inr rq1"
  shows "rq1 = rq \<and> (changes_state (rqMethod rq) \<longrightarrow> originAllowed (rqOrigin rq) (aeAllowed env) \<or> \<not> no_bearer rq)"
  using assms no_bearer_of [of rq]
  by (auto simp: origin_hook_def bearer_for_path_def creator_for_route_def split: if_splits)

text \<open>
  C34: A request is let through to an operation on the content of a board only on the access that operation
  needs. As a user: the cookie names a live session of an active member of the live board, whose role is
  editor or owner when the operation changes something; no bearer is sent, the host is not the machine
  hostname, and a changing request (and a socket) comes from an allowed origin. As a machine: the token
  file gives that bearer every permission the operation needs on that live board, sockets and measurement
  reports are out of reach, and on the browser hostname the path as sent does not start with
  \<open>/api/\<close>. On the machine hostname, besides, the request is within the gate's budget, its route is in the
  allow-list, and Access vouched for it where it is required. The router is any function.
\<close>
theorem board_admission_authorised:
  assumes "handle_request env route staticActive rq w = (w', Admitted op board access)"
  shows "matches_class is_id_char 1 80 board \<and> op_allows op access \<and>
    (case access of
       UserAccess u d role \<Rightarrow>
         user_authentic env (rqCookie rq) (awAccounts w) u d role board \<and>
         classify (aePolicy env) (rqHost rq) \<in> {PrivateHost, HumanHost} \<and> (is_socket op \<or> no_bearer rq) \<and>
         (is_socket op \<or> changes_state (rqMethod rq) \<longrightarrow> originAllowed (rqOrigin rq) (aeAllowed env))
     | TokenAccess n ps \<Rightarrow>
         token_authentic env (rqAuthorization rq) (awTokens w) (awAccounts w) n ps board \<and>
         (classify (aePolicy env) (rqHost rq) = HumanHost \<longrightarrow> \<not> is_api (rqUrl rq))
     | _ \<Rightarrow> False) \<and>
    classify (aePolicy env) (rqHost rq) \<noteq> InvalidHost \<and>
    (classify (aePolicy env) (rqHost rq) = MachineHost \<longrightarrow>
       isMachineRoute (rqMethod rq) (rqUrl rq) \<and> snd (allow ''machine-host'' (aeNow env) (awGate w)) \<and>
       (hpRequireAccess (aePolicy env) \<longrightarrow> (\<exists>v v' c. awVerifier w = Some v \<and>
          verify_assertion (aeJwt env) (aeReadings env) (aeReply env)
            (case rqAssertion rq of OneHeader a \<Rightarrow> Some a | _ \<Rightarrow> None) v = (v', AccessJwt.verdict.Accepted c))))"
proof -
  obtain w1 h where hk: "hooks env rq w = (w1, h)" by fastforce
  with assms obtain rq1 where h: "h = Inr rq1" by (cases h) (auto simp: handle_request_def)
  with assms hk obtain r where "run_route env rq1 r w1 = (w', Admitted op board access)"
    by (auto simp: handle_request_def not_found_def split: option.splits if_splits)
  then have run: "request_entered env rq1 w1 op board access" by (rule run_route_entered)
  from hk h obtain rq0 where host: "host_hook env rq w = (w1, Inr rq0)" and orig: "origin_hook env w1 rq0 = Inr rq1"
    by (auto simp: hooks_def bindS_def split: prod.splits sum.splits)
  note passed = host_hook_passes [OF host]
  from origin_passes [OF orig] have rq1: "rq1 = rq0"
    and origin: "changes_state (rqMethod rq0) \<Longrightarrow> no_bearer rq0 \<Longrightarrow> originAllowed (rqOrigin rq0) (aeAllowed env)" by auto
  from passed have same: "rqOrigin rq0 = rqOrigin rq" "rqMethod rq0 = rqMethod rq" "rqAuthorization rq0 = rqAuthorization rq"
    and nb: "no_bearer rq0 = no_bearer rq"
    and db: "awAccounts w1 = awAccounts w" "awTokens w1 = awTokens w"
    by (auto simp: no_bearer_def split: host_class.splits)
  from run have main: "matches_class is_id_char 1 80 board" "op_allows op access" by (simp_all add: request_entered_def)
  show ?thesis
  proof (cases access)
    case (UserAccess u d role)
    from run UserAccess have user: "user_authentic env (rqCookie rq0) (awAccounts w) u d role board"
      and guard: "if is_socket op then originAllowed (rqOrigin rq0) (aeAllowed env) else no_bearer rq0"
      by (simp_all add: request_entered_def rq1 db)
    have cookie: "rqCookie rq0 \<noteq> None"
    proof
      assume "rqCookie rq0 = None"
      with user show False by (simp add: user_authentic_def no_cookie)
    qed
    have host_class: "classify (aePolicy env) (rqHost rq) \<in> {PrivateHost, HumanHost} \<and> rq0 = rq"
      using passed cookie by (auto split: host_class.splits)
    then show ?thesis using main user guard origin passed same nb UserAccess by (auto split: if_splits)
  next
    case (TokenAccess n ps)
    with run have tok: "token_authentic env (rqAuthorization rq) (awTokens w) (awAccounts w) n ps board"
      by (simp add: request_entered_def rq1 db same)
    have header: "rqAuthorization rq \<noteq> None"
    proof
      assume "rqAuthorization rq = None"
      with tok show False by (simp add: token_authentic_def no_header)
    qed
    show ?thesis using main tok header passed TokenAccess by (auto split: host_class.splits)
  qed (use run in \<open>simp_all add: request_entered_def\<close>)
qed

section \<open>Concrete requests\<close>

definition demo_policy :: "unit host_policy" where
  "demo_policy = \<lparr>hpPublicHost = Some ''b.example'', hpMachineHost = Some ''m.example'', hpVerifier = None, hpRequireAccess = True\<rparr>"

definition demo_app_env :: "string app_env" where
  "demo_app_env = \<lparr>aeService = demo_service, aeDraws = demo_draws CHR ''x'', aeTokens = demo_tp,
     aeUri = \<lparr>ucEncode = (\<lambda>s. s), ucDecode = Some\<rparr>, aeAllowed = [''https://b.example''], aePolicy = demo_policy,
     aeJwt = demo_jwt_world, aeReadings = demo_readings, aeReply = Some (Some [demo_jwk]), aeNow = 5000, aeSalt = [],
     aeUuid = ''board-7'', aeConfigured = True, aeReadFault = False, aeFirst = demo_attempt, aeSecond = demo_attempt,
     aeFaults = no_faults, aeRoomFiles = Some [], aeBytes = (\<lambda>_. 0)\<rparr>"

definition demo_app_world :: "string app_world" where
  "demo_app_world = new_app_world demo_db demo_world (Some demo_verifier)"

definition demo_get :: "string \<Rightarrow> string \<Rightarrow> request" where
  "demo_get host url = \<lparr>rqMethod = ''GET'', rqUrl = url, rqHost = OneHeader host, rqOrigin = None, rqAuthorization = None,
     rqCookie = None, rqAssertion = NoHeader, rqBody = None, rqIsBuffer = False, rqQuery = [],
     rqProxied = \<lparr>prProtocol = ''http'', prIp = ''127.0.0.1'', prForwardedProto = NoHeader, prConnectingIp = NoHeader,
       prForwardedFor = NoHeader, prRemoteAddress = Some ''127.0.0.1''\<rparr>\<rparr>"

definition demo_route :: router where
  "demo_route verb url = (if verb = ''POST'' then Some (ToActions ''board-1'') else Some (ToCanvas ''board-1''))"

text \<open>An agent edits a board on the machine hostname.\<close>

definition demo_edit :: request where
  "demo_edit = (demo_get ''m.example'' ''/api/rooms/board-1/actions'')\<lparr>rqMethod := ''POST'',
     rqAuthorization := demo_bearer CHR ''a'', rqAssertion := OneHeader ''h.p.g''\<rparr>"

abbreviation demo_answer :: "request \<Rightarrow> string app_world \<times> app_reply" where
  "demo_answer rq \<equiv> handle_request demo_app_env demo_route False rq demo_app_world"

lemma demo_authorised:
  "authorizeApiToken demo_tp (twFile demo_world) (demo_bearer CHR ''a'') ''board-1'' ''read'' 5000 = Some ''agent''"
  "authorizeApiToken demo_tp (twFile demo_world) (demo_bearer CHR ''a'') ''board-1'' ''write'' 5000 = Some ''agent''"
  "authorizeApiToken demo_tp (twFile demo_world) (demo_bearer CHR ''a'') ''board-1'' ''history'' 5000 = None"
  "authorizeApiToken demo_tp (twFile demo_world) (demo_bearer CHR ''a'') ''board-1'' ''restore'' 5000 = None"
  by code_simp+

lemma demo_environment:
  "aeTokens demo_app_env = demo_tp" "aeNow demo_app_env = 5000" "aePolicy demo_app_env = demo_policy"
  "aeJwt demo_app_env = demo_jwt_world" "aeReadings demo_app_env = demo_readings" "aeReply demo_app_env = Some (Some [demo_jwk])"
  "aeAllowed demo_app_env = [''https://b.example'']"
  "awTokens demo_app_world = demo_world" "awAccounts demo_app_world = demo_db" "awVerifier demo_app_world = Some demo_verifier"
  by (simp_all add: demo_app_env_def demo_app_world_def new_app_world_def)

lemma demo_permissions:
  assumes "awTokens w = demo_world" and "rqAuthorization rq = demo_bearer CHR ''a''"
  shows "bearerPermissions demo_app_env w rq ''board-1'' = Some (''agent'', [''read'', ''write''])"
  using assms demo_authorised
  by (simp add: bearerPermissions_def demo_environment all_permissions_def bearer_step_def) (simp add: demo_bearer_def)

lemma demo_token_access:
  assumes "awTokens w = demo_world" and "awAccounts w = demo_db" and "rqAuthorization rq = demo_bearer CHR ''a''"
  shows "resolveBoardAccess demo_app_env rq ''board-1'' w = (w, Inr (TokenAccess ''agent'' [''read'', ''write'']))"
proof -
  have "getBoardById ''board-1'' demo_db = Some demo_board_row" "bDeletedAt demo_board_row = None" by code_simp+
  with assms show ?thesis by (simp add: resolveBoardAccess_def demo_permissions)
qed

lemma demo_checks:
  "classify demo_policy (OneHeader ''m.example'') = MachineHost" "classify demo_policy (OneHeader ''b.example'') = HumanHost"
  "isMachineRoute ''POST'' ''/api/rooms/board-1/actions''"
  "\<exists>v. verify_assertion demo_jwt_world demo_readings (Some (Some [demo_jwk])) (Some ''h.p.g'') demo_verifier = (v, Accepted None)"
  "boardIdFromPath ''/api/rooms/board-1/actions'' = Some ''board-1''" "parseRoomId ''board-1'' = Some ''board-1''"
  "bearer_of (demo_bearer CHR ''a'') \<noteq> None" "hpRequireAccess demo_policy"
  "is_api ''/api/rooms/board-1/canvas''" "\<not> is_api ''/%61pi/rooms/board-1/canvas''"
proof -
  have "snd (verify_assertion demo_jwt_world demo_readings (Some (Some [demo_jwk])) (Some ''h.p.g'') demo_verifier) = Accepted None"
    by code_simp
  then show "\<exists>v. verify_assertion demo_jwt_world demo_readings (Some (Some [demo_jwk])) (Some ''h.p.g'') demo_verifier = (v, Accepted None)"
    by (metis prod.collapse)
qed code_simp+

lemma first_allowed: "0 < rlLimit l \<Longrightarrow> rlAttempts l = [] \<Longrightarrow> snd (allow key now l)"
  by (auto simp: allow_def recent_of_def Let_def)

lemma demo_fresh:
  "snd (allow key now (awGate demo_app_world))" "snd (allow key now (awWrites demo_app_world))"
  "snd (allow key now (awMachineReads demo_app_world))"
  by (simp_all add: first_allowed demo_app_world_def new_app_world_def limiterFor_def new_limiter_def)

text \<open>Which requests pass the hooks, in terms of what they carry.\<close>

lemma demo_machine_passes:
  "\<exists>w1. hooks demo_app_env demo_edit demo_app_world = (w1, Inr (demo_edit\<lparr>rqCookie := None\<rparr>)) \<and>
     awTokens w1 = demo_world \<and> awAccounts w1 = demo_db \<and> awWrites w1 = awWrites demo_app_world"
proof -
  let ?rq = "demo_edit\<lparr>rqCookie := None\<rparr>"
  obtain v where v: "verify_assertion demo_jwt_world demo_readings (Some (Some [demo_jwk])) (Some ''h.p.g'') demo_verifier = (v, Accepted None)"
    using demo_checks(4) by blast
  obtain gate where gate: "allow ''machine-host'' 5000 (awGate demo_app_world) = (gate, True)"
    using demo_fresh(1) [of "''machine-host''" 5000] by (cases "allow ''machine-host'' 5000 (awGate demo_app_world)") auto
  let ?w = "demo_app_world\<lparr>awGate := gate, awVerifier := Some v\<rparr>"
  have "host_hook demo_app_env demo_edit demo_app_world = (?w, Inr ?rq)"
    using v gate by (simp add: host_hook_def access_gate_def demo_environment demo_checks demo_edit_def demo_get_def)
  moreover have "bearer_for_path demo_app_env ?w ?rq"
    using demo_permissions [of ?w ?rq] demo_checks by (simp add: bearer_for_path_def demo_edit_def demo_get_def demo_environment)
  then have "origin_hook demo_app_env ?w ?rq = Inr ?rq"
    by (simp add: origin_hook_def)
  ultimately show ?thesis by (simp add: hooks_def demo_environment)
qed

lemma demo_edit_admitted:
  "snd (demo_answer demo_edit) = Admitted ApplyActions ''board-1'' (TokenAccess ''agent'' [''read'', ''write''])"
proof -
  let ?rq = "demo_edit\<lparr>rqCookie := None\<rparr>"
  obtain w1 where h: "hooks demo_app_env demo_edit demo_app_world = (w1, Inr ?rq)"
    and w1: "awTokens w1 = demo_world" "awAccounts w1 = demo_db" "awWrites w1 = awWrites demo_app_world"
    using demo_machine_passes by blast
  have rq: "rqAuthorization ?rq = demo_bearer CHR ''a''" "rqMethod ?rq = ''POST''" by (simp_all add: demo_edit_def demo_get_def)
  have acc: "resolveBoardAccess demo_app_env ?rq ''board-1'' w1 = (w1, Inr (TokenAccess ''agent'' [''read'', ''write'']))"
    by (rule demo_token_access [OF w1(1,2) rq(1)])
  show ?thesis
    using h acc rq w1 demo_fresh(2) demo_checks(6)
    by (simp add: handle_request_def demo_route_def post_actions_def with_access_def budget_def lens_defs admit_def split: prod.split)
      (metis snd_conv)
qed

text \<open>On the browser hostname a bearer is refused under \<open>/api/\<close>.\<close>

definition demo_carried :: "string \<Rightarrow> request" where
  "demo_carried url = (demo_get ''b.example'' url)\<lparr>rqAuthorization := demo_bearer CHR ''a''\<rparr>"

lemma demo_bearer_refused: "snd (demo_answer (demo_carried ''/api/rooms/board-1/canvas'')) = Failed 401"
  using demo_checks(2,9)
  by (simp add: handle_request_def hooks_def host_hook_def demo_environment demo_carried_def demo_get_def demo_bearer_def)

text \<open>
  With the path percent-encoded, and a router that decodes it before it looks for the route, the hook does
  not see an API path and the bearer is accepted on the browser hostname.
\<close>

lemma encoded_path_admits_bearer:
  "snd (demo_answer (demo_carried ''/%61pi/rooms/board-1/canvas'')) =
     Admitted (ReadCanvas None) ''board-1'' (TokenAccess ''agent'' [''read'', ''write''])"
proof -
  let ?rq = "demo_carried ''/%61pi/rooms/board-1/canvas''"
  have "hooks demo_app_env ?rq demo_app_world = (demo_app_world, Inr ?rq)"
    using demo_checks(2,10)
    by (simp add: hooks_def host_hook_def origin_hook_def changes_state_def demo_environment demo_carried_def demo_get_def)
  moreover have "rqMethod ?rq = ''GET''" "rqQuery ?rq = []" by (simp_all add: demo_carried_def demo_get_def)
  moreover have "resolveBoardAccess demo_app_env ?rq ''board-1'' demo_app_world =
      (demo_app_world, Inr (TokenAccess ''agent'' [''read'', ''write'']))"
    by (rule demo_token_access) (simp_all add: demo_environment demo_carried_def)
  ultimately show ?thesis
    using demo_fresh(3) demo_checks(6)
    by (simp add: handle_request_def demo_route_def get_canvas_def read_board_def with_access_def budget_def lens_defs admit_def
        query_def split: prod.split) (metis snd_conv)
qed

theorem board_admission_authorised_witness:
  "snd (demo_answer demo_edit) = Admitted ApplyActions ''board-1'' (TokenAccess ''agent'' [''read'', ''write'']) \<and>
   token_authentic demo_app_env (demo_bearer CHR ''a'') demo_world demo_db ''agent'' [''read'', ''write''] ''board-1'' \<and>
   isMachineRoute ''POST'' ''/api/rooms/board-1/actions''"
proof -
  have run: "demo_answer demo_edit = (fst (demo_answer demo_edit), Admitted ApplyActions ''board-1'' (TokenAccess ''agent'' [''read'', ''write'']))"
    using demo_edit_admitted by (metis prod.collapse)
  have machine: "classify (aePolicy demo_app_env) (rqHost demo_edit) = MachineHost"
    using demo_checks(1) by (simp add: demo_environment demo_edit_def demo_get_def)
  have parts: "rqAuthorization demo_edit = demo_bearer CHR ''a''" "rqMethod demo_edit = ''POST''"
    "rqUrl demo_edit = ''/api/rooms/board-1/actions''" by (simp_all add: demo_edit_def demo_get_def)
  note state = demo_environment
  from board_admission_authorised [OF run] machine parts state demo_edit_admitted show ?thesis by simp
qed

end
