(* ===== verification/Entities.thy ===== *)
theory Entities
  imports EvidenceTables
begin

text \<open>
  \<open>shared/entities.ts\<close>: the engineering entities of a board and the actions on them. An entity is its JSON
  members; a schema is the list of its fields, each with a parser that rejects or normalises (trims) a
  value, and the strict schemas refuse members they do not name. Numbers of JSON are finite.
\<close>

type_synonym members = "(string \<times> json) list"

section \<open>Parsers\<close>

type_synonym parser = "json \<Rightarrow> json option"

definition safe_int :: "json \<Rightarrow> int option" where
  "safe_int j = (case j of JNum q \<Rightarrow> if q = of_int \<lfloor>q\<rfloor> \<and> \<bar>\<lfloor>q\<rfloor>\<bar> \<le> 9007199254740991 then Some \<lfloor>q\<rfloor> else None | _ \<Rightarrow> None)"

definition keep_if :: "(json \<Rightarrow> bool) \<Rightarrow> parser" where
  "keep_if P j = (if P j then Some j else None)"

definition keep_text :: "(string \<Rightarrow> bool) \<Rightarrow> parser" where
  "keep_text P j = (case j of JStr s \<Rightarrow> if P s then Some j else None | _ \<Rightarrow> None)"

text \<open>\<open>z.string().trim().min(lo).max(hi)\<close>\<close>

definition trimmed_text :: "nat \<Rightarrow> nat \<Rightarrow> parser" where
  "trimmed_text lo hi j = (case j of JStr s \<Rightarrow>
     (let t = js_trim s in if lo \<le> length t \<and> length t \<le> hi then Some (JStr t) else None) | _ \<Rightarrow> None)"

definition one_of :: "string list \<Rightarrow> parser" where
  "one_of names = keep_text (\<lambda>s. s \<in> set names)"

definition exactly :: "string \<Rightarrow> parser" where
  "exactly name = keep_text (\<lambda>s. s = name)"

definition array_upto :: "nat \<Rightarrow> parser \<Rightarrow> parser" where
  "array_upto hi p j = (case j of JArr xs \<Rightarrow>
     (if length xs \<le> hi then map_option JArr (all_some (map p xs)) else None) | _ \<Rightarrow> None)"

text \<open>A strict object: the fields in the order of the schema, an absent one only where it is optional.\<close>

record field =
  fdName :: string
  fdOptional :: bool
  fdParser :: parser

definition required :: "string \<Rightarrow> parser \<Rightarrow> field" where
  "required n p = \<lparr>fdName = n, fdOptional = False, fdParser = p\<rparr>"

definition optional :: "string \<Rightarrow> parser \<Rightarrow> field" where
  "optional n p = \<lparr>fdName = n, fdOptional = True, fdParser = p\<rparr>"

fun read_fields :: "field list \<Rightarrow> members \<Rightarrow> members option" where
  "read_fields [] ms = Some []"
| "read_fields (f # fs) ms = (case map_of ms (fdName f) of
     None \<Rightarrow> if fdOptional f then read_fields fs ms else None
   | Some j \<Rightarrow> (case (fdParser f j, read_fields fs ms) of
       (Some v, Some rest) \<Rightarrow> Some ((fdName f, v) # rest) | _ \<Rightarrow> None))"

definition strict_object :: "field list \<Rightarrow> members \<Rightarrow> members option" where
  "strict_object fs ms = (if list_all (\<lambda>(k, v). k \<in> fdName ` set fs) ms then read_fields fs ms else None)"

definition strict_json :: "field list \<Rightarrow> parser" where
  "strict_json fs j = (case j of JObj ms \<Rightarrow> map_option JObj (strict_object fs ms) | _ \<Rightarrow> None)"

section \<open>Names\<close>

definition is_entity_char :: "char \<Rightarrow> bool" where
  "is_entity_char c \<longleftrightarrow> is_lower c \<or> is_digit c \<or> c = CHR ''_'' \<or> c = CHR ''-''"

definition entity_prefix :: string where "entity_prefix = ''engineering_entity:''"

definition is_entity_id :: "string \<Rightarrow> bool" where
  "is_entity_id s \<longleftrightarrow> take (length entity_prefix) s = entity_prefix \<and>
     matches_class is_entity_char 1 80 (drop (length entity_prefix) s)"

definition entity_id :: parser where "entity_id = keep_text is_entity_id"

definition is_shape_ref :: "string \<Rightarrow> bool" where
  "is_shape_ref s \<longleftrightarrow> take 6 s = ''shape:'' \<and> matches_class is_id_char 1 80 (drop 6 s)"

definition title_text :: parser where "title_text = trimmed_text 1 200"
definition short_trimmed :: parser where "short_trimmed = trimmed_text 0 2000"
definition audit_actor :: parser where "audit_actor = trimmed_text 1 120"

definition timestamp :: parser where
  "timestamp = keep_if (\<lambda>j. case safe_int j of Some n \<Rightarrow> 0 \<le> n | None \<Rightarrow> False)"

definition entity_types :: "string list" where
  "entity_types = [''component'', ''interface'', ''requirement'', ''task'', ''experiment'', ''decision'', ''risk'', ''evidence'']"

definition relation_types :: "string list" where
  "relation_types = [''contains'', ''connects_to'', ''satisfies'', ''tests'', ''blocks'', ''depends_on'', ''mitigates'', ''supported_by'']"

definition relation_fields :: "field list" where
  "relation_fields = [required ''type'' (one_of relation_types), required ''targetId'' entity_id]"

definition max_relations :: nat where "max_relations = 20"

definition relations_parser :: parser where
  "relations_parser = array_upto max_relations (strict_json relation_fields)"

definition test_types :: "string list" where "test_types = [''simulation'', ''physical'']"

definition evidence_kinds :: "string list" where
  "evidence_kinds = [''git_commit'', ''file_path'', ''cad_file'', ''simulation_file'', ''image'', ''graph'', ''document'', ''url'', ''table'']"

section \<open>Evidence references and scalar maps\<close>

definition is_scheme_char :: "char \<Rightarrow> bool" where
  "is_scheme_char c \<longleftrightarrow> is_alnum c \<or> c = CHR ''+'' \<or> c = CHR ''.'' \<or> c = CHR ''-''"

text \<open>\<open>/^[a-z][a-z0-9+.-]*:/i\<close> and \<open>/^https:\/\//i\<close>\<close>

definition has_scheme :: "string \<Rightarrow> bool" where
  "has_scheme s \<longleftrightarrow> (case s of [] \<Rightarrow> False | c # cs \<Rightarrow>
     (is_lower c \<or> is_upper c) \<and> (case dropWhile is_scheme_char cs of [] \<Rightarrow> False | d # ds \<Rightarrow> d = CHR '':''))"

definition is_https :: "string \<Rightarrow> bool" where
  "is_https s \<longleftrightarrow> fold_case (take 8 s) = ''https://''"

definition safe_reference :: "string \<Rightarrow> bool" where
  "safe_reference t \<longleftrightarrow> list_all (\<lambda>c. 32 \<le> (of_char c :: nat)) t \<and> (has_scheme t \<longrightarrow> is_https t)"

definition evidence_reference :: parser where
  "evidence_reference j = Option.bind (trimmed_text 1 2000 j) (keep_text safe_reference)"

fun is_scalar :: "nat \<Rightarrow> json \<Rightarrow> bool" where
  "is_scalar hi (JStr s) = (length s \<le> hi)"
| "is_scalar hi (JNum q) = True"
| "is_scalar hi (JBool b) = True"
| "is_scalar hi JNull = True"
| "is_scalar hi _ = False"

definition scalar_map :: "nat \<Rightarrow> json \<Rightarrow> bool" where
  "scalar_map hi j \<longleftrightarrow> (case j of JObj ms \<Rightarrow>
     list_all (\<lambda>(k, v). 1 \<le> length k \<and> length k \<le> 60 \<and> is_scalar hi v) ms \<and> length ms \<le> 30 | _ \<Rightarrow> False)"

definition bounded_scalar_map :: parser where "bounded_scalar_map = keep_if (scalar_map 500)"

section \<open>Entities\<close>

definition status_by_type :: "(string \<times> string list) list" where
  "status_by_type = [
     (''component'', [''proposed'', ''active'', ''deprecated'', ''archived'']),
     (''interface'', [''proposed'', ''active'', ''deprecated'', ''archived'']),
     (''requirement'', [''draft'', ''approved'', ''satisfied'', ''violated'', ''archived'']),
     (''task'', [''open'', ''in_progress'', ''blocked'', ''done'', ''archived'']),
     (''experiment'', [''planned'', ''running'', ''completed'', ''inconclusive'', ''archived'']),
     (''decision'', [''proposed'', ''decided'', ''superseded'', ''archived'']),
     (''risk'', [''open'', ''mitigated'', ''accepted'', ''closed'', ''archived'']),
     (''evidence'', [''active'', ''archived''])]"

definition archived_status :: string where "archived_status = ''archived''"

definition statusValuesFor :: "string \<Rightarrow> string list" where
  "statusValuesFor t = (case map_of status_by_type t of Some ss \<Rightarrow> ss | None \<Rightarrow> [])"

definition defaultStatusFor :: "string \<Rightarrow> string" where
  "defaultStatusFor t = hd (statusValuesFor t)"

definition baseFields :: "string \<Rightarrow> field list" where
  "baseFields t = [required ''typeName'' (exactly ''engineering_entity''), required ''id'' entity_id,
     required ''entityType'' (exactly t), optional ''shapeId'' (keep_text is_shape_ref), required ''title'' title_text,
     required ''status'' (one_of (statusValuesFor t)), required ''relations'' relations_parser,
     required ''createdBy'' audit_actor, required ''updatedBy'' audit_actor, required ''createdAt'' timestamp,
     required ''updatedAt'' timestamp]"

definition table_summary :: parser where
  "table_summary = strict_json [required ''rows'' timestamp,
     required ''columns'' (array_upto 20 (keep_text (\<lambda>s. length s \<le> 100)))]"

definition risk_levels :: "string list" where "risk_levels = [''low'', ''medium'', ''high'']"

definition interface_kinds :: "string list" where
  "interface_kinds = [''mechanical'', ''electrical'', ''data'', ''power'', ''control'']"

definition own_fields :: "(string \<times> field list) list" where
  "own_fields = [
     (''component'', [optional ''subsystem'' (trimmed_text 0 80), optional ''description'' short_trimmed]),
     (''interface'', [optional ''kind'' (one_of interface_kinds), optional ''description'' short_trimmed]),
     (''requirement'', [optional ''statement'' short_trimmed]),
     (''task'', [optional ''owner'' (trimmed_text 0 120), optional ''description'' short_trimmed]),
     (''experiment'', [optional ''objective'' short_trimmed, optional ''hypothesis'' short_trimmed,
        optional ''testType'' (one_of test_types), optional ''parameters'' bounded_scalar_map,
        optional ''metrics'' bounded_scalar_map, optional ''passCriteria'' short_trimmed, optional ''result'' short_trimmed]),
     (''decision'', [optional ''rationale'' short_trimmed]),
     (''risk'', [optional ''likelihood'' (one_of risk_levels), optional ''impact'' (one_of risk_levels),
        optional ''mitigation'' short_trimmed]),
     (''evidence'', [required ''kind'' (one_of evidence_kinds), required ''reference'' evidence_reference,
        optional ''note'' short_trimmed, optional ''tableSummary'' table_summary])]"

definition entity_fields :: "string \<Rightarrow> field list" where
  "entity_fields t = baseFields t @ (case map_of own_fields t of Some fs \<Rightarrow> fs | None \<Rightarrow> [])"

text \<open>The union, discriminated by \<open>entityType\<close>.\<close>

definition engineeringEntitySchema :: "members \<Rightarrow> members option" where
  "engineeringEntitySchema ms = (case map_of ms ''entityType'' of
     Some (JStr t) \<Rightarrow> if t \<in> set entity_types then strict_object (entity_fields t) ms else None
   | _ \<Rightarrow> None)"

section \<open>Semantic actions\<close>

definition generic_value :: "json \<Rightarrow> bool" where
  "generic_value j \<longleftrightarrow> is_scalar 2000 j \<or> scalar_map 2000 j \<or> array_upto 20 entity_id j \<noteq> None"

definition generic_fields :: "json \<Rightarrow> bool" where
  "generic_fields j \<longleftrightarrow> (case j of JObj ms \<Rightarrow>
     list_all (\<lambda>(k, v). 1 \<le> length k \<and> length k \<le> 60 \<and> generic_value v) ms \<and> length ms \<le> 30 | _ \<Rightarrow> False)"

definition genericFields :: parser where "genericFields = keep_if generic_fields"

definition status_text :: parser where "status_text = keep_text (\<lambda>s. length s \<le> 40)"

definition nullable :: "parser \<Rightarrow> parser" where
  "nullable p j = (if j = JNull then Some JNull else p j)"

definition action_fields :: "(string \<times> field list) list" where
  "action_fields = [
     (''create_entity'', [required ''id'' entity_id, required ''entityType'' (one_of entity_types),
        optional ''shapeId'' (keep_text is_shape_ref), required ''title'' title_text, optional ''status'' status_text,
        optional ''fields'' genericFields, optional ''tableSummary'' table_summary]),
     (''update_entity'', [required ''id'' entity_id, optional ''title'' title_text, optional ''status'' status_text,
        optional ''shapeId'' (nullable (keep_text is_shape_ref)), optional ''fields'' genericFields,
        optional ''tableSummary'' table_summary]),
     (''link_entities'', [required ''id'' entity_id, required ''relationType'' (one_of relation_types),
        required ''targetId'' entity_id]),
     (''unlink_entities'', [required ''id'' entity_id, required ''relationType'' (one_of relation_types),
        required ''targetId'' entity_id]),
     (''record_experiment_result'', [required ''id'' entity_id, required ''result'' short_trimmed,
        optional ''status'' (one_of (statusValuesFor ''experiment''))]),
     (''attach_evidence'', [required ''id'' entity_id, required ''evidenceId'' entity_id]),
     (''update_status'', [required ''id'' entity_id, required ''status'' status_text])]"

definition semantic_fields :: "string \<Rightarrow> field list option" where
  "semantic_fields tool = map_option (\<lambda>fs. required ''tool'' (exactly tool) # fs) (map_of action_fields tool)"

definition member_text :: "members \<Rightarrow> string \<Rightarrow> string" where
  "member_text ms k = (case map_of ms k of Some (JStr s) \<Rightarrow> s | _ \<Rightarrow> [])"

definition text_opt :: "members \<Rightarrow> string \<Rightarrow> string option" where
  "text_opt ms k = (case map_of ms k of Some (JStr s) \<Rightarrow> Some s | _ \<Rightarrow> None)"

definition object_opt :: "members \<Rightarrow> string \<Rightarrow> members option" where
  "object_opt ms k = (case map_of ms k of Some (JObj os) \<Rightarrow> Some os | _ \<Rightarrow> None)"

record create_entity =
  ceId :: string
  ceType :: string
  ceShape :: "string option"
  ceTitle :: string
  ceStatus :: "string option"
  ceFields :: "members option"
  ceTable :: "json option"

text \<open>\<open>paShape\<close>: absent, \<open>null\<close> (clear it), or a shape.\<close>

record entity_patch =
  paTitle :: "string option"
  paStatus :: "string option"
  paShape :: "string option option"
  paFields :: "members option"
  paTable :: "json option"

datatype semantic_action =
    CreateEntity create_entity
  | UpdateEntity string entity_patch
  | LinkEntities string string string
  | UnlinkEntities string string string
  | RecordExperimentResult string string "string option"
  | AttachEvidence string string
  | UpdateStatus string string

definition read_action :: "members \<Rightarrow> semantic_action option" where
  "read_action ms = (let tool = member_text ms ''tool''; i = member_text ms ''id'' in
     if tool = ''create_entity'' then Some (CreateEntity \<lparr>ceId = i, ceType = member_text ms ''entityType'',
       ceShape = text_opt ms ''shapeId'', ceTitle = member_text ms ''title'', ceStatus = text_opt ms ''status'',
       ceFields = object_opt ms ''fields'', ceTable = map_of ms ''tableSummary''\<rparr>)
     else if tool = ''update_entity'' then Some (UpdateEntity i \<lparr>paTitle = text_opt ms ''title'', paStatus = text_opt ms ''status'',
       paShape = map_option (\<lambda>_. text_opt ms ''shapeId'') (map_of ms ''shapeId''),
       paFields = object_opt ms ''fields'', paTable = map_of ms ''tableSummary''\<rparr>)
     else if tool = ''link_entities'' then Some (LinkEntities i (member_text ms ''relationType'') (member_text ms ''targetId''))
     else if tool = ''unlink_entities'' then Some (UnlinkEntities i (member_text ms ''relationType'') (member_text ms ''targetId''))
     else if tool = ''record_experiment_result'' then Some (RecordExperimentResult i (member_text ms ''result'') (text_opt ms ''status''))
     else if tool = ''attach_evidence'' then Some (AttachEvidence i (member_text ms ''evidenceId''))
     else if tool = ''update_status'' then Some (UpdateStatus i (member_text ms ''status''))
     else None)"

definition semanticActionSchema :: "json \<Rightarrow> semantic_action option" where
  "semanticActionSchema j = (case j of JObj ms \<Rightarrow> (case map_of ms ''tool'' of
       Some (JStr tool) \<Rightarrow> (case semantic_fields tool of None \<Rightarrow> None
         | Some fs \<Rightarrow> Option.bind (strict_object fs ms) read_action) | _ \<Rightarrow> None) | _ \<Rightarrow> None)"

section \<open>Budgets and the read request\<close>

definition max_entities :: nat where "max_entities = 200"
definition max_relationship_edges :: nat where "max_relationship_edges = 400"
definition max_referenced_summaries :: nat where "max_referenced_summaries = 50"
definition max_context_bytes :: nat where "max_context_bytes = 200000"
definition max_entity_bytes :: nat where "max_entity_bytes = 8000"
definition max_entities_per_board :: nat where "max_entities_per_board = 2000"

record context_request =
  crTypes :: "string list option"
  crStatus :: "string list option"
  crIds :: "string list option"
  crRelationsFor :: "string option"
  crArchived :: bool

definition context_fields :: "field list" where
  "context_fields = [optional ''entityTypes'' (array_upto (length entity_types) (one_of entity_types)),
     optional ''status'' (array_upto 20 status_text), optional ''ids'' (array_upto max_entities entity_id),
     optional ''relationsFor'' entity_id, optional ''includeArchived'' (keep_if (\<lambda>j. case j of JBool b \<Rightarrow> True | _ \<Rightarrow> False))]"

definition texts_opt :: "members \<Rightarrow> string \<Rightarrow> string list option" where
  "texts_opt ms k = (case map_of ms k of Some (JArr xs) \<Rightarrow> Some (map (\<lambda>j. case j of JStr s \<Rightarrow> s | _ \<Rightarrow> []) xs) | _ \<Rightarrow> None)"

definition semanticContextRequestSchema :: "json \<Rightarrow> context_request option" where
  "semanticContextRequestSchema j = (case j of JObj raw \<Rightarrow> map_option (\<lambda>ms.
       \<lparr>crTypes = texts_opt ms ''entityTypes'', crStatus = texts_opt ms ''status'', crIds = texts_opt ms ''ids'',
        crRelationsFor = text_opt ms ''relationsFor'', crArchived = (map_of ms ''includeArchived'' = Some (JBool True))\<rparr>)
       (strict_object context_fields raw) | _ \<Rightarrow> None)"

section \<open>The form metadata\<close>

datatype field_kind = TextField | LongText | EnumField "string list" | ScalarMapField

definition ENTITY_FIELD_SPECS :: "(string \<times> (string \<times> field_kind \<times> bool) list) list" where
  "ENTITY_FIELD_SPECS = [
     (''component'', [(''subsystem'', TextField, False), (''description'', LongText, False)]),
     (''interface'', [(''kind'', EnumField interface_kinds, False), (''description'', LongText, False)]),
     (''requirement'', [(''statement'', LongText, False)]),
     (''task'', [(''owner'', TextField, False), (''description'', LongText, False)]),
     (''experiment'', [(''objective'', LongText, False), (''hypothesis'', LongText, False),
        (''testType'', EnumField test_types, False), (''parameters'', ScalarMapField, False),
        (''metrics'', ScalarMapField, False), (''passCriteria'', LongText, False), (''result'', LongText, False)]),
     (''decision'', [(''rationale'', LongText, False)]),
     (''risk'', [(''likelihood'', EnumField risk_levels, False), (''impact'', EnumField risk_levels, False),
        (''mitigation'', LongText, False)]),
     (''evidence'', [(''kind'', EnumField evidence_kinds, True), (''reference'', TextField, True), (''note'', LongText, False)])]"

end
