(* ===== verification/SemanticActions.thy ===== *)
theory SemanticActions
  imports Entities LayoutGeometry
begin

text \<open>
  \<open>server/canvas-api.ts\<close>, the semantic layer: the store a transaction works on, the actions on engineering
  entities and the compact context read. The store is the map of the transaction, by record id, in its
  order. \<open>bytes\<close> is \<open>byteSize\<close> (the UTF-8 length of \<open>JSON.stringify\<close>), \<open>in_board\<close> is the optional
  \<open>isAssetInBoard\<close>; both are parameters, and so is the clock.
\<close>

section \<open>The store of a transaction\<close>

datatype canvas_record =
    PageRecord string string
  | ShapeRecord shape_record
  | BindingRecord binding_record
  | EntityRecord "(string \<times> json) list"
  | OtherRecord string

type_synonym store = "(string \<times> canvas_record) list"

datatype canvas_error = CanvasError nat | SchemaError | InternalError

fun entity_of :: "canvas_record \<Rightarrow> members option" where
  "entity_of (EntityRecord ms) = Some ms"
| "entity_of _ = None"

definition entities :: "store \<Rightarrow> members list" where
  "entities st = List.map_filter (\<lambda>(k, r). entity_of r) st"

definition parse_entity :: "members \<Rightarrow> canvas_error + members" where
  "parse_entity candidate = (case engineeringEntitySchema candidate of None \<Rightarrow> Inl SchemaError | Some e \<Rightarrow> Inr e)"

definition set_entity :: "members \<Rightarrow> store \<Rightarrow> store" where
  "set_entity e st = AList.update (member_text e ''id'') (EntityRecord e) st"

text \<open>\<open>{...base, ...over}\<close>\<close>

definition overlay :: "members \<Rightarrow> members \<Rightarrow> members" where
  "overlay base over = fold (\<lambda>p. AList.update (fst p) (snd p)) over base"

definition given :: "string \<Rightarrow> json option \<Rightarrow> members" where
  "given k v = (case v of None \<Rightarrow> [] | Some j \<Rightarrow> [(k, j)])"

record actor =
  acUserId :: string
  acName :: string

section \<open>The actions\<close>

definition assertTableReferenceInBoard :: "(string \<Rightarrow> bool) option \<Rightarrow> members \<Rightarrow> canvas_error + unit" where
  "assertTableReferenceInBoard in_board candidate = (case in_board of None \<Rightarrow> Inr ()
     | Some registered \<Rightarrow>
       if map_of candidate ''entityType'' \<noteq> Some (JStr ''evidence'') \<or> map_of candidate ''kind'' \<noteq> Some (JStr ''table'') then Inr ()
       else (case map_of candidate ''reference'' of Some (JStr r) \<Rightarrow> guardR (registered r) (CanvasError 404) | _ \<Rightarrow> Inr ()))"

definition created_base :: "actor \<Rightarrow> int \<Rightarrow> create_entity \<Rightarrow> members" where
  "created_base who now a =
     [(''typeName'', JStr ''engineering_entity''), (''id'', JStr (ceId a)), (''entityType'', JStr (ceType a))]
       @ given ''shapeId'' (map_option JStr (ceShape a))
       @ [(''title'', JStr (ceTitle a)),
          (''status'', JStr (case ceStatus a of Some s \<Rightarrow> s | None \<Rightarrow> defaultStatusFor (ceType a))),
          (''relations'', JArr []), (''createdBy'', JStr (acUserId who)), (''updatedBy'', JStr (acUserId who)),
          (''createdAt'', JNum (of_int now)), (''updatedAt'', JNum (of_int now))]"

definition created_candidate :: "actor \<Rightarrow> int \<Rightarrow> create_entity \<Rightarrow> members" where
  "created_candidate who now a = overlay (overlay (created_base who now a)
     (case ceFields a of None \<Rightarrow> [] | Some fs \<Rightarrow> fs)) (given ''tableSummary'' (ceTable a))"

definition applyCreateEntity :: "(json \<Rightarrow> nat) \<Rightarrow> (string \<Rightarrow> bool) option \<Rightarrow> actor \<Rightarrow> int \<Rightarrow> create_entity \<Rightarrow> store \<times> nat
    \<Rightarrow> canvas_error + store \<times> nat" where
  "applyCreateEntity bytes in_board who now a = (\<lambda>(st, count).
     bindR (guardR (map_of st (ceId a) = None) (CanvasError 409)) (\<lambda>_.
     bindR (guardR (count < max_entities_per_board) (CanvasError 422)) (\<lambda>_.
     let candidate = created_candidate who now a in
     bindR (assertTableReferenceInBoard in_board candidate) (\<lambda>_.
     bindR (parse_entity candidate) (\<lambda>e.
     bindR (guardR (bytes (JObj e) \<le> max_entity_bytes) (CanvasError 422)) (\<lambda>_.
     Inr (set_entity e st, count + 1)))))))"

definition findEntity :: "store \<Rightarrow> string \<Rightarrow> canvas_error + members" where
  "findEntity st i = (case map_of st i of Some (EntityRecord e) \<Rightarrow> Inr e | _ \<Rightarrow> Inl (CanvasError 404))"

definition stamp :: "actor \<Rightarrow> int \<Rightarrow> members" where
  "stamp who now = [(''updatedBy'', JStr (acUserId who)), (''updatedAt'', JNum (of_int now))]"

definition patched_shape :: "string option option \<Rightarrow> members \<Rightarrow> members" where
  "patched_shape p e = (case p of None \<Rightarrow> e | Some None \<Rightarrow> AList.delete ''shapeId'' e
     | Some (Some s) \<Rightarrow> AList.update ''shapeId'' (JStr s) e)"

definition updated_candidate :: "actor \<Rightarrow> int \<Rightarrow> entity_patch \<Rightarrow> members \<Rightarrow> members" where
  "updated_candidate who now p e =
     overlay (overlay (overlay (patched_shape (paShape p)
       (overlay e (given ''title'' (map_option JStr (paTitle p)) @ given ''status'' (map_option JStr (paStatus p)))))
       (case paFields p of None \<Rightarrow> [] | Some fs \<Rightarrow> fs)) (given ''tableSummary'' (paTable p))) (stamp who now)"

definition applyUpdateEntity :: "(json \<Rightarrow> nat) \<Rightarrow> (string \<Rightarrow> bool) option \<Rightarrow> actor \<Rightarrow> int \<Rightarrow> string \<Rightarrow> entity_patch \<Rightarrow> store
    \<Rightarrow> canvas_error + store" where
  "applyUpdateEntity bytes in_board who now i p st = bindR (findEntity st i) (\<lambda>existing.
     let candidate = updated_candidate who now p existing in
     bindR (assertTableReferenceInBoard in_board candidate) (\<lambda>_.
     bindR (parse_entity candidate) (\<lambda>e.
     bindR (guardR (bytes (JObj e) \<le> max_entity_bytes) (CanvasError 422)) (\<lambda>_. Inr (set_entity e st)))))"

definition relations_of :: "members \<Rightarrow> json list" where
  "relations_of e = (case map_of e ''relations'' of Some (JArr rs) \<Rightarrow> rs | _ \<Rightarrow> [])"

definition is_relation :: "string \<Rightarrow> string \<Rightarrow> json \<Rightarrow> bool" where
  "is_relation t target r \<longleftrightarrow> jmember r ''type'' = Some (JStr t) \<and> jmember r ''targetId'' = Some (JStr target)"

definition relation :: "string \<Rightarrow> string \<Rightarrow> json" where
  "relation t target = JObj [(''type'', JStr t), (''targetId'', JStr target)]"

definition with_relations :: "actor \<Rightarrow> int \<Rightarrow> json list \<Rightarrow> members \<Rightarrow> members" where
  "with_relations who now rs e = overlay (AList.update ''relations'' (JArr rs) e) (stamp who now)"

definition applyLinkEntities :: "actor \<Rightarrow> int \<Rightarrow> string \<Rightarrow> string \<Rightarrow> string \<Rightarrow> store \<Rightarrow> canvas_error + store" where
  "applyLinkEntities who now i t target st = bindR (findEntity st i) (\<lambda>existing.
     bindR (findEntity st target) (\<lambda>_.
     if list_ex (is_relation t target) (relations_of existing) then Inr st
     else bindR (parse_entity (with_relations who now (relations_of existing @ [relation t target]) existing))
       (\<lambda>e. Inr (set_entity e st))))"

definition applyUnlinkEntities :: "actor \<Rightarrow> int \<Rightarrow> string \<Rightarrow> string \<Rightarrow> string \<Rightarrow> store \<Rightarrow> canvas_error + store" where
  "applyUnlinkEntities who now i t target st = bindR (findEntity st i) (\<lambda>existing.
     bindR (parse_entity (with_relations who now (filter (\<lambda>r. \<not> is_relation t target r) (relations_of existing)) existing))
       (\<lambda>e. Inr (set_entity e st)))"

definition empty_patch :: entity_patch where
  "empty_patch = \<lparr>paTitle = None, paStatus = None, paShape = None, paFields = None, paTable = None\<rparr>"

definition applySemanticAction :: "(json \<Rightarrow> nat) \<Rightarrow> (string \<Rightarrow> bool) option \<Rightarrow> actor \<Rightarrow> int \<Rightarrow> semantic_action \<Rightarrow> store \<times> nat
    \<Rightarrow> canvas_error + store \<times> nat" where
  "applySemanticAction bytes in_board who now action s = (case action of
     CreateEntity a \<Rightarrow> applyCreateEntity bytes in_board who now a s
   | UpdateEntity i p \<Rightarrow> bindR (applyUpdateEntity bytes in_board who now i p (fst s)) (\<lambda>st. Inr (st, snd s))
   | LinkEntities i t target \<Rightarrow> bindR (applyLinkEntities who now i t target (fst s)) (\<lambda>st. Inr (st, snd s))
   | UnlinkEntities i t target \<Rightarrow> bindR (applyUnlinkEntities who now i t target (fst s)) (\<lambda>st. Inr (st, snd s))
   | RecordExperimentResult i result status \<Rightarrow>
       bindR (applyUpdateEntity bytes in_board who now i (empty_patch\<lparr>paStatus := status, paFields := Some [(''result'', JStr result)]\<rparr>) (fst s))
         (\<lambda>st. Inr (st, snd s))
   | AttachEvidence i ev \<Rightarrow> bindR (findEntity (fst s) ev) (\<lambda>evidence.
       bindR (guardR (map_of evidence ''entityType'' = Some (JStr ''evidence'')) (CanvasError 422)) (\<lambda>_.
       bindR (applyLinkEntities who now i ''supported_by'' ev (fst s)) (\<lambda>st. Inr (st, snd s))))
   | UpdateStatus i status \<Rightarrow>
       bindR (applyUpdateEntity bytes in_board who now i (empty_patch\<lparr>paStatus := Some status\<rparr>) (fst s)) (\<lambda>st. Inr (st, snd s)))"

definition apply_semantic :: "(json \<Rightarrow> nat) \<Rightarrow> (string \<Rightarrow> bool) option \<Rightarrow> actor \<Rightarrow> int \<Rightarrow> semantic_action list \<Rightarrow> store
    \<Rightarrow> canvas_error + store \<times> nat" where
  "apply_semantic bytes in_board who now actions st =
     foldR (\<lambda>s a. applySemanticAction bytes in_board who now a s) (st, length (entities st)) actions"

section \<open>The compact context\<close>

record edge =
  egFrom :: string
  egType :: string
  egTo :: string

record semantic_context =
  scClock :: nat
  scEntities :: "members list"
  scEdges :: "edge list"
  scReferenced :: "members list"

definition edge_json :: "edge \<Rightarrow> json" where
  "edge_json g = JObj [(''from'', JStr (egFrom g)), (''type'', JStr (egType g)), (''to'', JStr (egTo g))]"

definition context_json :: "semantic_context \<Rightarrow> json" where
  "context_json c = JObj [(''clock'', JNum (of_nat (scClock c))), (''entities'', JArr (map JObj (scEntities c))),
     (''relationships'', JArr (map edge_json (scEdges c))), (''referenced'', JArr (map JObj (scReferenced c)))]"

text \<open>\<open>request.x?.length\<close>: a missing or empty list does not filter.\<close>

definition narrowed :: "string list option \<Rightarrow> string \<Rightarrow> members list \<Rightarrow> members list" where
  "narrowed choice k es = (case choice of None \<Rightarrow> es
     | Some names \<Rightarrow> if names = [] then es else filter (\<lambda>e. member_text e k \<in> set names) es)"

definition relation_text :: "string \<Rightarrow> json \<Rightarrow> string" where
  "relation_text k r = (case jmember r k of Some (JStr s) \<Rightarrow> s | _ \<Rightarrow> [])"

definition edge_of :: "members \<Rightarrow> json \<Rightarrow> edge" where
  "edge_of e r = \<lparr>egFrom = member_text e ''id'', egType = relation_text ''type'' r, egTo = relation_text ''targetId'' r\<rparr>"

definition edges_around :: "members list \<Rightarrow> string \<Rightarrow> edge list" where
  "edges_around es i = (case find (\<lambda>e. member_text e ''id'' = i) es of None \<Rightarrow> [] | Some e \<Rightarrow> map (edge_of e) (relations_of e)) @
     concat (map (\<lambda>e. map (edge_of e) (filter (\<lambda>r. relation_text ''targetId'' r = i) (relations_of e)))
       (filter (\<lambda>e. member_text e ''id'' \<noteq> i) es))"

definition neighbours :: "edge list \<Rightarrow> string \<Rightarrow> string list" where
  "neighbours gs i = filter (\<lambda>k. k \<noteq> i) (concat (map (\<lambda>g. [egFrom g, egTo g]) gs))"

definition selected_entities :: "members list \<Rightarrow> context_request \<Rightarrow> members list" where
  "selected_entities es q = narrowed (crIds q) ''id'' (narrowed (crStatus q) ''status'' (narrowed (crTypes q) ''entityType''
     (if crArchived q then es else filter (\<lambda>e. member_text e ''status'' \<noteq> archived_status) es)))"

definition readRoomSemantics :: "(json \<Rightarrow> nat) \<Rightarrow> store \<Rightarrow> nat \<Rightarrow> json \<Rightarrow> canvas_error + semantic_context" where
  "readRoomSemantics bytes st clock raw = (case semanticContextRequestSchema raw of None \<Rightarrow> Inl SchemaError
     | Some q \<Rightarrow> let es = entities st; chosen = selected_entities es q in
       bindR (guardR (length chosen \<le> max_entities) (CanvasError 422)) (\<lambda>_.
       bindR (case crRelationsFor q of None \<Rightarrow> Inr ([], [])
         | Some i \<Rightarrow> let gs = edges_around es i in
             bindR (guardR (length gs \<le> max_relationship_edges) (CanvasError 422)) (\<lambda>_.
             Inr (gs, take max_referenced_summaries (filter (\<lambda>e. member_text e ''id'' \<in> set (neighbours gs i)) es))))
       (\<lambda>(gs, refs). let c = \<lparr>scClock = clock, scEntities = chosen, scEdges = gs, scReferenced = refs\<rparr> in
       bindR (guardR (bytes (context_json c) \<le> max_context_bytes) (CanvasError 422)) (\<lambda>_. Inr c))))"

end
