(* ===== verification/CanvasVocab.thy ===== *)
theory CanvasVocab
  imports Entities LayoutService
begin

text \<open>
  The requests that change a board: \<open>shared/ai.ts\<close> (the eight visual actions and \<open>validateReferences\<close>), the layout
  actions of \<open>shared/layout.ts\<close>, and the combined request of \<open>server/canvas-api.ts\<close>.
\<close>

section \<open>Visual actions\<close>

definition number_in :: "rat \<Rightarrow> rat \<Rightarrow> parser" where
  "number_in low high = keep_if (\<lambda>j. case j of JNum q \<Rightarrow> low \<le> q \<and> q \<le> high | _ \<Rightarrow> False)"

definition shape_ref :: parser where "shape_ref = keep_text is_shape_ref"
definition coordinate :: parser where "coordinate = number_in (- 100000) 100000"
definition dimension :: parser where "dimension = number_in 10 5000"
definition label_text :: parser where "label_text = trimmed_text 1 500"

definition number_member :: "members \<Rightarrow> string \<Rightarrow> rat" where
  "number_member ms k = (case map_of ms k of Some (JNum q) \<Rightarrow> q | _ \<Rightarrow> 0)"

definition number_opt :: "members \<Rightarrow> string \<Rightarrow> rat option" where
  "number_opt ms k = (case map_of ms k of Some (JNum q) \<Rightarrow> Some q | _ \<Rightarrow> None)"

datatype canvas_action =
    CreateShape string string string rat rat rat rat
  | CreateText string string rat rat "rat option"
  | CreateArrow string rat rat rat rat
  | UpdateText string string
  | MoveShape string rat rat
  | ResizeShape string rat rat
  | DeleteShape string
  | ConnectShapes string string string

definition canvas_fields :: "(string \<times> field list) list" where
  "canvas_fields = [
     (''create_shape'', [required ''id'' shape_ref, required ''type'' (one_of [''rectangle'', ''ellipse'']), required ''text'' label_text,
        required ''x'' coordinate, required ''y'' coordinate, required ''width'' dimension, required ''height'' dimension]),
     (''create_text'', [required ''id'' shape_ref, required ''text'' label_text, required ''x'' coordinate, required ''y'' coordinate,
        optional ''width'' (number_in 20 5000)]),
     (''create_arrow'', [required ''id'' shape_ref, required ''x'' coordinate, required ''y'' coordinate, required ''endX'' coordinate,
        required ''endY'' coordinate]),
     (''update_text'', [required ''id'' shape_ref, required ''text'' label_text]),
     (''move_shape'', [required ''id'' shape_ref, required ''x'' coordinate, required ''y'' coordinate]),
     (''resize_shape'', [required ''id'' shape_ref, required ''width'' dimension, required ''height'' dimension]),
     (''delete_shape'', [required ''id'' shape_ref]),
     (''connect_shapes'', [required ''id'' shape_ref, required ''fromId'' shape_ref, required ''toId'' shape_ref])]"

definition read_canvas :: "members \<Rightarrow> canvas_action option" where
  "read_canvas ms = (let tool = member_text ms ''tool''; i = member_text ms ''id''; t = member_text ms; n = number_member ms in
     if tool = ''create_shape'' then Some (CreateShape i (t ''type'') (t ''text'') (n ''x'') (n ''y'') (n ''width'') (n ''height''))
     else if tool = ''create_text'' then Some (CreateText i (t ''text'') (n ''x'') (n ''y'') (number_opt ms ''width''))
     else if tool = ''create_arrow'' then Some (CreateArrow i (n ''x'') (n ''y'') (n ''endX'') (n ''endY''))
     else if tool = ''update_text'' then Some (UpdateText i (t ''text''))
     else if tool = ''move_shape'' then Some (MoveShape i (n ''x'') (n ''y''))
     else if tool = ''resize_shape'' then Some (ResizeShape i (n ''width'') (n ''height''))
     else if tool = ''delete_shape'' then Some (DeleteShape i)
     else if tool = ''connect_shapes'' then Some (ConnectShapes i (t ''fromId'') (t ''toId''))
     else None)"

text \<open>\<open>z.discriminatedUnion('tool', ...)\<close>\<close>

definition tool_union :: "(string \<times> field list) list \<Rightarrow> (members \<Rightarrow> 'a option) \<Rightarrow> json \<Rightarrow> 'a option" where
  "tool_union tools read j = (case j of JObj ms \<Rightarrow> (case map_of ms ''tool'' of
       Some (JStr tool) \<Rightarrow> (case map_of tools tool of None \<Rightarrow> None
         | Some fs \<Rightarrow> Option.bind (strict_object (required ''tool'' (exactly tool) # fs) ms) read) | _ \<Rightarrow> None) | _ \<Rightarrow> None)"

definition canvasActionSchema :: "json \<Rightarrow> canvas_action option" where
  "canvasActionSchema = tool_union canvas_fields read_canvas"

definition array_between :: "nat \<Rightarrow> nat \<Rightarrow> parser \<Rightarrow> parser" where
  "array_between low high p j = (case j of JArr xs \<Rightarrow> if low \<le> length xs then array_upto high p j else None | _ \<Rightarrow> None)"

section \<open>Objects of a page, and references between actions\<close>

definition canvas_object_fields :: "field list" where
  "canvas_object_fields = [required ''id'' shape_ref, required ''type'' (keep_text (\<lambda>s. length s \<le> 40)),
     required ''text'' (keep_text (\<lambda>s. length s \<le> 500)), required ''x'' coordinate, required ''y'' coordinate,
     required ''width'' (number_in 0 5000), required ''height'' (number_in 0 5000), optional ''startX'' coordinate,
     optional ''startY'' coordinate, optional ''endX'' coordinate, optional ''endY'' coordinate,
     optional ''fromId'' shape_ref, optional ''toId'' shape_ref]"

text \<open>\<open>aiRequestSchema\<close>; the default of \<open>mode\<close> is filled in.\<close>

definition ai_request_fields :: "field list" where
  "ai_request_fields = [required ''roomId'' (keep_text (matches_class is_id_char 1 80)), required ''prompt'' (trimmed_text 1 2000),
     required ''objects'' (array_upto 500 (strict_json canvas_object_fields)), optional ''mode'' (one_of [''auto'', ''mock''])]"

definition aiRequestSchema :: "json \<Rightarrow> members option" where
  "aiRequestSchema j = (case j of JObj raw \<Rightarrow> map_option (\<lambda>ms.
     if map_of ms ''mode'' = None then ms @ [(''mode'', JStr ''auto'')] else ms) (strict_object ai_request_fields raw) | _ \<Rightarrow> None)"

fun canvas_id :: "canvas_action \<Rightarrow> string" where
  "canvas_id (CreateShape i ty tx x y w h) = i"
| "canvas_id (CreateText i tx x y w) = i"
| "canvas_id (CreateArrow i x y ex ey) = i"
| "canvas_id (UpdateText i tx) = i"
| "canvas_id (MoveShape i x y) = i"
| "canvas_id (ResizeShape i w h) = i"
| "canvas_id (DeleteShape i) = i"
| "canvas_id (ConnectShapes i f t) = i"

fun creates :: "canvas_action \<Rightarrow> bool" where
  "creates (CreateShape i ty tx x y w h) = True"
| "creates (CreateText i tx x y w) = True"
| "creates (CreateArrow i x y ex ey) = True"
| "creates (ConnectShapes i f t) = True"
| "creates _ = False"

definition known_after :: "canvas_action \<Rightarrow> string list \<Rightarrow> string list option" where
  "known_after a known =
     (if creates a then (if canvas_id a \<in> set known then None
        else (case a of ConnectShapes i f t \<Rightarrow> if f \<notin> set known \<or> t \<notin> set known then None else Some (known @ [i])
          | _ \<Rightarrow> Some (known @ [canvas_id a])))
      else if canvas_id a \<notin> set known then None
      else (case a of DeleteShape i \<Rightarrow> Some (filter (\<lambda>k. k \<noteq> i) known) | _ \<Rightarrow> Some known))"

text \<open>\<open>None\<close> where the source throws.\<close>

fun validateReferences :: "canvas_action list \<Rightarrow> string list \<Rightarrow> canvas_action list option" where
  "validateReferences [] known = Some []"
| "validateReferences (a # as) known = (case known_after a known of None \<Rightarrow> None
     | Some known' \<Rightarrow> map_option (\<lambda>r. a # r) (validateReferences as known'))"

section \<open>Layout actions\<close>

datatype layout_action =
    PlaceBelow string string "real option" "align3 option"
  | PlaceRightOf string string "real option" "align3 option"
  | FindFreeRegion real real "string option" "direction option" "real option"
  | AlignShapes "string list" align_axis
  | Distribute "string list" bool "real option"
  | Row "string list" "align3 option" block_options
  | Stack "string list" "align3 option" block_options
  | Grid "string list" nat "real option" "real option" block_options

definition gap_number :: parser where "gap_number = number_in 0 2000"

definition shape_ids :: "nat \<Rightarrow> parser" where "shape_ids low = array_between low 60 shape_ref"

definition boolean :: parser where "boolean = keep_if (\<lambda>j. case j of JBool b \<Rightarrow> True | _ \<Rightarrow> False)"

definition block_fields :: "field list" where
  "block_fields = [optional ''x'' coordinate, optional ''y'' coordinate, optional ''avoidCollisions'' boolean]"

definition layout_fields :: "(string \<times> field list) list" where
  "layout_fields = [
     (''place_below'', [required ''id'' shape_ref, required ''targetId'' shape_ref, optional ''gap'' gap_number,
        optional ''align'' (one_of [''start'', ''center'', ''end''])]),
     (''place_right_of'', [required ''id'' shape_ref, required ''targetId'' shape_ref, optional ''gap'' gap_number,
        optional ''align'' (one_of [''start'', ''center'', ''end''])]),
     (''find_free_region'', [required ''width'' dimension, required ''height'' dimension, optional ''near'' shape_ref,
        optional ''direction'' (one_of [''below'', ''right'', ''any'']), optional ''gap'' gap_number]),
     (''align'', [required ''ids'' (shape_ids 2), required ''axis'' (one_of [''left'', ''center-x'', ''right'', ''top'', ''center-y'', ''bottom''])]),
     (''distribute'', [required ''ids'' (shape_ids 3), required ''direction'' (one_of [''horizontal'', ''vertical'']), optional ''gap'' gap_number]),
     (''row'', [required ''ids'' (shape_ids 1), optional ''gap'' gap_number, optional ''align'' (one_of [''top'', ''center'', ''bottom''])] @ block_fields),
     (''stack'', [required ''ids'' (shape_ids 1), optional ''gap'' gap_number, optional ''align'' (one_of [''left'', ''center'', ''right''])] @ block_fields),
     (''grid'', [required ''ids'' (shape_ids 1), required ''columns'' (keep_if (\<lambda>j. case safe_int j of Some n \<Rightarrow> 1 \<le> n \<and> n \<le> 12 | None \<Rightarrow> False)),
        optional ''gap'' gap_number, optional ''columnGap'' gap_number, optional ''rowGap'' gap_number] @ block_fields)]"

definition real_opt :: "members \<Rightarrow> string \<Rightarrow> real option" where
  "real_opt ms k = map_option of_rat (number_opt ms k)"

definition align3_of :: "string \<Rightarrow> align3" where
  "align3_of s = (if s = ''center'' then AlignCenter else if s = ''end'' \<or> s = ''bottom'' \<or> s = ''right'' then AlignEnd else AlignStart)"

definition direction_of :: "string \<Rightarrow> direction" where
  "direction_of s = (if s = ''below'' then GoBelow else if s = ''right'' then GoRight else GoAny)"

definition axis_of :: "string \<Rightarrow> align_axis" where
  "axis_of s = (if s = ''left'' then ALeft else if s = ''center-x'' then ACenterX else if s = ''right'' then ARight
     else if s = ''top'' then ATop else if s = ''center-y'' then ACenterY else ABottom)"

definition read_block :: "members \<Rightarrow> block_options" where
  "read_block ms = \<lparr>boGap = real_opt ms ''gap'', boX = real_opt ms ''x'', boY = real_opt ms ''y'',
     boAvoidCollisions = (case map_of ms ''avoidCollisions'' of Some (JBool b) \<Rightarrow> Some b | _ \<Rightarrow> None)\<rparr>"

definition read_layout :: "members \<Rightarrow> layout_action option" where
  "read_layout ms = (let tool = member_text ms ''tool''; t = member_text ms; gap = real_opt ms ''gap'';
       al = map_option align3_of (text_opt ms ''align'');
       ids = (case texts_opt ms ''ids'' of Some xs \<Rightarrow> xs | None \<Rightarrow> []) in
     if tool = ''place_below'' then Some (PlaceBelow (t ''id'') (t ''targetId'') gap al)
     else if tool = ''place_right_of'' then Some (PlaceRightOf (t ''id'') (t ''targetId'') gap al)
     else if tool = ''find_free_region'' then Some (FindFreeRegion (of_rat (number_member ms ''width'')) (of_rat (number_member ms ''height''))
       (text_opt ms ''near'') (map_option direction_of (text_opt ms ''direction'')) gap)
     else if tool = ''align'' then Some (AlignShapes ids (axis_of (t ''axis'')))
     else if tool = ''distribute'' then Some (Distribute ids (t ''direction'' = ''horizontal'') gap)
     else if tool = ''row'' then Some (Row ids al (read_block ms))
     else if tool = ''stack'' then Some (Stack ids al (read_block ms))
     else if tool = ''grid'' then Some (Grid ids (nat \<lfloor>number_member ms ''columns''\<rfloor>) (real_opt ms ''columnGap'') (real_opt ms ''rowGap'') (read_block ms))
     else None)"

definition layoutActionSchema :: "json \<Rightarrow> layout_action option" where
  "layoutActionSchema = tool_union layout_fields read_layout"

section \<open>The request\<close>

datatype board_action = Visual canvas_action | Semantic semantic_action | Layout layout_action

definition combinedActionSchema :: "json \<Rightarrow> board_action option" where
  "combinedActionSchema j = (case canvasActionSchema j of Some a \<Rightarrow> Some (Visual a) | None \<Rightarrow>
     (case semanticActionSchema j of Some a \<Rightarrow> Some (Semantic a) | None \<Rightarrow> map_option Layout (layoutActionSchema j)))"

record action_request =
  aqPage :: "string option"
  aqClock :: "int option"
  aqActions :: "board_action list"

definition is_page_ref :: "string \<Rightarrow> bool" where
  "is_page_ref s \<longleftrightarrow> take 5 s = ''page:'' \<and> matches_class is_id_char 1 80 (drop 5 s)"

definition request_fields :: "field list" where
  "request_fields = [optional ''pageId'' (keep_text is_page_ref), optional ''expectedClock'' timestamp, required ''actions'' Some]"

definition combinedActionsSchema :: "json \<Rightarrow> board_action list option" where
  "combinedActionsSchema j = (case j of JArr xs \<Rightarrow>
     if 1 \<le> length xs \<and> length xs \<le> 30 then all_some (map combinedActionSchema xs) else None | _ \<Rightarrow> None)"

definition actionRequestSchema :: "json \<Rightarrow> action_request option" where
  "actionRequestSchema j = (case j of JObj raw \<Rightarrow> Option.bind (strict_object request_fields raw) (\<lambda>ms.
     case map_of ms ''actions'' of None \<Rightarrow> None | Some as \<Rightarrow> map_option (\<lambda>actions.
       \<lparr>aqPage = text_opt ms ''pageId'', aqClock = Option.bind (map_of ms ''expectedClock'') safe_int, aqActions = actions\<rparr>)
       (combinedActionsSchema as)) | _ \<Rightarrow> None)"

end
