(* ===== verification/CanvasActions.thy ===== *)
theory CanvasActions
  imports SemanticActions CanvasVocab
begin

text \<open>
  \<open>applyRoomActions\<close> of \<open>server/canvas-api.ts\<close>: one request of visual, semantic and layout actions over the store of a
  transaction, and the reads of a page. What the code takes from tldraw (validation of records, rich text, fractional
  indices), the collation of page indices and the numbers JavaScript stores for computed coordinates are
  the parameters of \<open>canvas_env\<close>. The transaction itself is the caller's: an error leaves its store as it was.
\<close>

record canvas_env =
  cvNumtext :: "rat \<Rightarrow> string"
  cvToNum :: "real \<Rightarrow> rat"
  cvRichText :: "string \<Rightarrow> json"
  cvIndexAbove :: "string option \<Rightarrow> string"
  cvValidShape :: "shape_record \<Rightarrow> bool"
  cvValidBinding :: "string \<Rightarrow> binding_record \<Rightarrow> bool"
  cvCollate :: "string \<Rightarrow> string"
  cvMeasurements :: "(string \<times> measurement) list"
  cvBytes :: "json \<Rightarrow> nat"
  cvInBoard :: "(string \<Rightarrow> bool) option"
  cvActor :: actor
  cvNow :: int

section \<open>Pages, shapes and the layout of a page\<close>

definition canvas_pages :: "canvas_env \<Rightarrow> store \<Rightarrow> (string \<times> string \<times> string) list" where
  "canvas_pages env st = sort_key (\<lambda>(i, index, name). cvCollate env index)
     (List.map_filter (\<lambda>(i, r). case r of PageRecord index name \<Rightarrow> Some (i, index, name) | _ \<Rightarrow> None) st)"

definition shapes :: "store \<Rightarrow> shape_record list" where
  "shapes st = List.map_filter (\<lambda>(i, r). case r of ShapeRecord s \<Rightarrow> Some s | _ \<Rightarrow> None) st"

definition bindings :: "store \<Rightarrow> binding_record list" where
  "bindings st = List.map_filter (\<lambda>(i, r). case r of BindingRecord b \<Rightarrow> Some b | _ \<Rightarrow> None) st"

definition selectedPage :: "canvas_env \<Rightarrow> store \<Rightarrow> string option \<Rightarrow> canvas_error + string" where
  "selectedPage env st requested = (case (case requested of
       Some i \<Rightarrow> if i = [] then (case canvas_pages env st of [] \<Rightarrow> None | p # ps \<Rightarrow> Some p) else find (\<lambda>p. fst p = i) (canvas_pages env st)
     | None \<Rightarrow> (case canvas_pages env st of [] \<Rightarrow> None | p # ps \<Rightarrow> Some p)) of
     None \<Rightarrow> Inl (CanvasError 404) | Some p \<Rightarrow> Inr (fst p))"

definition toLayoutInput :: "canvas_env \<Rightarrow> store \<Rightarrow> string \<Rightarrow> layout_input" where
  "toLayoutInput env st page = \<lparr>liPage = page, liShapes = shapes st, liBindings = bindings st, liMeasurements = cvMeasurements env\<rparr>"

definition layoutOf :: "canvas_env \<Rightarrow> store \<Rightarrow> string \<Rightarrow> page_layout" where
  "layoutOf env st page = computeLayout (cvNumtext env) (toLayoutInput env st page)"

section \<open>Reading a page\<close>

function plain_texts :: "json \<Rightarrow> string list" where
  "plain_texts (JObj ms) =
     (if map_of ms ''type'' = Some (JStr ''text'') then (case map_of ms ''text'' of Some (JStr t) \<Rightarrow> [t] | _ \<Rightarrow> []) else [])
     @ (case map_of ms ''content'' of Some (JArr xs) \<Rightarrow> concat (map plain_texts xs) | _ \<Rightarrow> [])"
| "plain_texts JNull = []"
| "plain_texts (JBool b) = []"
| "plain_texts (JNum q) = []"
| "plain_texts (JStr s) = []"
| "plain_texts (JArr xs) = []"
  by pat_completeness auto

lemma size_member: "map_of ms k = Some j \<Longrightarrow> size j < Suc (size_list (size_prod (\<lambda>x. 0) size) ms)"
  by (induction ms) (auto split: if_splits)

termination plain_texts
proof (relation "measure size")
  fix ms :: "(string \<times> json) list" and x :: json and xs
  assume "map_of ms ''content'' = Some x" and "x = JArr xs"
  fix z assume "z \<in> set xs"
  then have "size z < size (JArr xs)" by (induction xs) auto
  with size_member [of ms "''content''" "JArr xs"] \<open>map_of ms ''content'' = Some x\<close> \<open>x = JArr xs\<close>
  show "(z, JObj ms) \<in> measure size" by simp
qed simp

fun join_spaces :: "string list \<Rightarrow> string" where
  "join_spaces [] = []"
| "join_spaces [s] = s"
| "join_spaces (s # t # ss) = s @ CHR '' '' # join_spaces (t # ss)"

definition plainText :: "json option \<Rightarrow> string" where
  "plainText v = (case v of None \<Rightarrow> [] | Some j \<Rightarrow> take 500 (join_spaces (plain_texts j)))"

record canvas_object =
  coId :: string
  coType :: string
  coText :: string
  coX :: real
  coY :: real
  coWidth :: real
  coHeight :: real
  coEnds :: "(point \<times> point) option"
  coConnection :: "(string \<times> string) option"

definition shape_extent :: "json option \<Rightarrow> (point \<times> point) option \<Rightarrow> (point \<Rightarrow> real) \<Rightarrow> real" where
  "shape_extent v ends axis = (case v of Some (JNum q) \<Rightarrow> \<bar>of_rat q\<bar> | _ \<Rightarrow>
     (case ends of Some (s, e) \<Rightarrow> \<bar>axis e - axis s\<bar> | None \<Rightarrow> 0))"

definition objectFromShape :: "shape_record \<Rightarrow> canvas_object" where
  "objectFromShape s = (let p = srProps s;
       ends = (if jtruthy (map_of p ''start'') \<and> jtruthy (map_of p ''end'')
         then Some (point_of 0 (map_of p ''start''), point_of 0 (map_of p ''end'')) else None);
       connection = (case srMeta s of None \<Rightarrow> None | Some j \<Rightarrow> connection_of (jmember j ''canvasApiConnection''))
     in \<lparr>coId = srId s, coType = (if srType s = ''geo'' then (case map_of p ''geo'' of Some (JStr g) \<Rightarrow> g | _ \<Rightarrow> ''undefined'') else srType s),
         coText = plainText (map_of p ''richText''), coX = srX s, coY = srY s,
         coWidth = shape_extent (map_of p ''w'') ends pX, coHeight = shape_extent (map_of p ''h'') ends pY,
         coEnds = map_option (\<lambda>(a, b). (\<lparr>pX = srX s + pX a, pY = srY s + pY a\<rparr>, \<lparr>pX = srX s + pX b, pY = srY s + pY b\<rparr>)) ends,
         coConnection = (case connection of Some (f, t) \<Rightarrow> if f \<noteq> [] \<and> t \<noteq> [] then Some (f, t) else None | None \<Rightarrow> None)\<rparr>)"

record room_canvas =
  rcPage :: string
  rcPages :: "(string \<times> string) list"
  rcClock :: nat
  rcObjects :: "canvas_object list"

definition readRoomCanvas :: "canvas_env \<Rightarrow> store \<Rightarrow> nat \<Rightarrow> string option \<Rightarrow> canvas_error + room_canvas" where
  "readRoomCanvas env st clock requested = bindR (selectedPage env st requested) (\<lambda>page.
     Inr \<lparr>rcPage = page, rcPages = map (\<lambda>(i, index, name). (i, name)) (canvas_pages env st), rcClock = clock,
       rcObjects = map objectFromShape (filter (\<lambda>s. srParent s = page) (shapes st))\<rparr>)"

record room_layout =
  rlPages :: "(string \<times> string) list"
  rlClock :: nat
  rlReply :: layout_reply

fun from_query :: "query_error + 'a \<Rightarrow> canvas_error + 'a" where
  "from_query (Inl (QueryError n)) = Inl (CanvasError n)"
| "from_query (Inr v) = Inr v"

definition readRoomLayout :: "canvas_env \<Rightarrow> store \<Rightarrow> nat \<Rightarrow> string option \<Rightarrow> string option \<Rightarrow> string option \<Rightarrow> canvas_error + room_layout" where
  "readRoomLayout env st clock requested ids types = bindR (selectedPage env st requested) (\<lambda>page.
     from_query (bindR (parseLayoutQuery ids types) (\<lambda>q. bindR (describeLayout (layoutOf env st page) q) (\<lambda>r.
       Inr \<lparr>rlPages = map (\<lambda>(i, index, name). (i, name)) (canvas_pages env st), rlClock = clock, rlReply = r\<rparr>))))"

section \<open>New shapes\<close>

record layout_result =
  arIndex :: nat
  arTool :: string
  arMoved :: "(string \<times> real \<times> real) list"
  arRegion :: "free_region option"
  arNeighbours :: "(string \<times> unverified_reason) list option"
  arVerification :: "layout_verification option"

text \<open>What one request carries along: the store, \<open>current\<close>, \<open>topIndex\<close>, \<open>entityCount\<close> and the \<open>LayoutRun\<close>.\<close>

record run_state =
  rsStore :: store
  rsCurrent :: "(string \<times> shape_record) list"
  rsTop :: "string option"
  rsCount :: nat
  rsAffected :: "string list"
  rsTouched :: "string list"
  rsResults :: "layout_result list"

definition insert_id :: "string \<Rightarrow> string list \<Rightarrow> string list" where
  "insert_id i xs = (if i \<in> set xs then xs else xs @ [i])"

definition point_json :: "canvas_env \<Rightarrow> real \<Rightarrow> real \<Rightarrow> json" where
  "point_json env x y = JObj [(''x'', JNum (cvToNum env x)), (''y'', JNum (cvToNum env y))]"

definition new_record :: "canvas_action \<Rightarrow> string \<Rightarrow> string \<Rightarrow> string \<Rightarrow> real \<Rightarrow> real \<Rightarrow> members \<Rightarrow> shape_record" where
  "new_record a type page index x y props = \<lparr>srId = canvas_id a, srType = type, srX = x, srY = y, srRotation = 0, srIndex = index,
     srParent = page, srProps = props,
     srMeta = Some (JObj (case a of ConnectShapes i f t \<Rightarrow> [(''canvasApiConnection'', JObj [(''fromId'', JStr f), (''toId'', JStr t)])] | _ \<Rightarrow> [])),
     srLocked = False\<rparr>"

definition geo_props :: "canvas_env \<Rightarrow> string \<Rightarrow> string \<Rightarrow> rat \<Rightarrow> rat \<Rightarrow> members" where
  "geo_props env geo tx w h = [(''geo'', JStr geo), (''w'', JNum w), (''h'', JNum h), (''color'', JStr ''black''), (''labelColor'', JStr ''black''),
     (''fill'', JStr ''none''), (''dash'', JStr ''draw''), (''size'', JStr ''m''), (''font'', JStr ''draw''), (''align'', JStr ''middle''),
     (''verticalAlign'', JStr ''middle''), (''richText'', cvRichText env tx), (''url'', JStr []), (''growY'', JNum 0), (''scale'', JNum 1),
     (''flipX'', JBool False), (''flipY'', JBool False)]"

definition text_props :: "canvas_env \<Rightarrow> string \<Rightarrow> rat option \<Rightarrow> members" where
  "text_props env tx w = [(''color'', JStr ''black''), (''size'', JStr ''m''), (''font'', JStr ''draw''), (''textAlign'', JStr ''start''),
     (''w'', JNum (case w of Some q \<Rightarrow> q | None \<Rightarrow> 200)), (''richText'', cvRichText env tx), (''scale'', JNum 1),
     (''autoSize'', JBool (w = None))]"

definition arrow_props :: "canvas_env \<Rightarrow> real \<Rightarrow> real \<Rightarrow> members" where
  "arrow_props env dx dy = [(''kind'', JStr ''arc''), (''color'', JStr ''black''), (''labelColor'', JStr ''black''), (''fill'', JStr ''none''),
     (''dash'', JStr ''draw''), (''size'', JStr ''m''), (''arrowheadStart'', JStr ''none''), (''arrowheadEnd'', JStr ''arrow''),
     (''font'', JStr ''draw''), (''start'', JObj [(''x'', JNum 0), (''y'', JNum 0)]), (''end'', point_json env dx dy), (''bend'', JNum 0),
     (''richText'', cvRichText env []), (''labelPosition'', JNum (1 / 2)), (''scale'', JNum 1), (''elbowMidPoint'', JNum (1 / 2))]"

definition new_arrow :: "canvas_env \<Rightarrow> canvas_action \<Rightarrow> string \<Rightarrow> string \<Rightarrow> real \<Rightarrow> real \<Rightarrow> real \<Rightarrow> real \<Rightarrow> shape_record" where
  "new_arrow env a page index x y ex ey = new_record a ''arrow'' page index x y (arrow_props env (ex - x) (ey - y))"

definition newShape :: "canvas_env \<Rightarrow> canvas_action \<Rightarrow> string \<Rightarrow> string \<Rightarrow> (string \<times> shape_record) list \<Rightarrow> page_layout
    \<Rightarrow> canvas_error + shape_record" where
  "newShape env a page index current l = (case a of
     CreateShape i geo tx x y w h \<Rightarrow> Inr (new_record a ''geo'' page index (of_rat x) (of_rat y) (geo_props env geo tx w h))
   | CreateText i tx x y w \<Rightarrow> Inr (new_record a ''text'' page index (of_rat x) (of_rat y) (text_props env tx w))
   | CreateArrow i x y ex ey \<Rightarrow> Inr (new_arrow env a page index (of_rat x) (of_rat y) (of_rat ex) (of_rat ey))
   | ConnectShapes i f t \<Rightarrow> (case (map_of current f, map_of current t, map_of (plById l) f, map_of (plById l) t) of
       (Some fs, Some ts, Some froml, Some tol) \<Rightarrow>
         (let start = edgePoint (slBounds froml) (centre (slBounds tol)) (is_ellipse (srProps fs));
              end' = edgePoint (slBounds tol) (centre (slBounds froml)) (is_ellipse (srProps ts))
          in Inr (new_arrow env a page index (pX start) (pY start) (pX end') (pY end')))
     | _ \<Rightarrow> Inl (CanvasError 404))
   | _ \<Rightarrow> Inl (CanvasError 422))"

definition binding_id :: "string \<Rightarrow> string \<Rightarrow> string" where
  "binding_id arrow terminal = ''binding:'' @ (if take 6 arrow = ''shape:'' then drop 6 arrow else arrow) @ ''_'' @ terminal"

definition arrow_binding :: "string \<Rightarrow> string \<Rightarrow> string \<Rightarrow> string \<times> binding_record" where
  "arrow_binding arrow terminal target = (binding_id arrow terminal, \<lparr>brType = Some ''arrow'', brFrom = arrow, brTo = target,
     brProps = [(''terminal'', JStr terminal), (''normalizedAnchor'', JObj [(''x'', JNum (1 / 2)), (''y'', JNum (1 / 2))]),
       (''isExact'', JBool False), (''isPrecise'', JBool False), (''snap'', JStr ''none'')]\<rparr>)"

definition arrowBindings :: "string \<Rightarrow> string \<Rightarrow> string \<Rightarrow> (string \<times> binding_record) list" where
  "arrowBindings arrow f t = [arrow_binding arrow ''start'' f, arrow_binding arrow ''end'' t]"

definition add_binding :: "canvas_env \<Rightarrow> store \<Rightarrow> string \<times> binding_record \<Rightarrow> canvas_error + store" where
  "add_binding env st b = bindR (guardR (map_of st (fst b) = None) (CanvasError 409)) (\<lambda>_.
     bindR (guardR (cvValidBinding env (fst b) (snd b)) SchemaError) (\<lambda>_. Inr (AList.update (fst b) (BindingRecord (snd b)) st)))"

definition put_shape :: "shape_record \<Rightarrow> run_state \<Rightarrow> run_state" where
  "put_shape s r = r\<lparr>rsStore := AList.update (srId s) (ShapeRecord s) (rsStore r), rsCurrent := AList.update (srId s) s (rsCurrent r)\<rparr>"

definition bindings_for :: "canvas_action \<Rightarrow> (string \<times> binding_record) list" where
  "bindings_for a = (case a of ConnectShapes i f t \<Rightarrow> arrowBindings i f t | _ \<Rightarrow> [])"

definition create_step :: "canvas_env \<Rightarrow> string \<Rightarrow> canvas_action \<Rightarrow> run_state \<Rightarrow> canvas_error + run_state" where
  "create_step env page a r = bindR (guardR (map_of (rsStore r) (canvas_id a) = None) (CanvasError 409)) (\<lambda>_.
     let index = cvIndexAbove env (rsTop r) in
     bindR (newShape env a page index (rsCurrent r) (layoutOf env (rsStore r) page)) (\<lambda>created.
     bindR (guardR (cvValidShape env created) SchemaError) (\<lambda>_.
     let r' = put_shape created (r\<lparr>rsTop := Some index\<rparr>) in
     bindR (foldR (add_binding env) (rsStore r') (bindings_for a)) (\<lambda>st. Inr (r'\<lparr>rsStore := st\<rparr>)))))"

section \<open>Changing and deleting shapes\<close>

definition touches :: "string \<Rightarrow> canvas_record \<Rightarrow> bool" where
  "touches i rec = (case rec of BindingRecord b \<Rightarrow> brFrom b = i \<or> brTo b = i | _ \<Rightarrow> False)"

definition delete_step :: "string \<Rightarrow> run_state \<Rightarrow> run_state" where
  "delete_step i r = r\<lparr>rsStore := filter (\<lambda>(k, rec). \<not> touches i rec) (AList.delete i (rsStore r)),
     rsCurrent := AList.delete i (rsCurrent r)\<rparr>"

definition rewrite_step :: "canvas_env \<Rightarrow> shape_record \<Rightarrow> run_state \<Rightarrow> canvas_error + run_state" where
  "rewrite_step env s r = bindR (guardR (cvValidShape env s) SchemaError) (\<lambda>_. Inr (put_shape s r))"

definition text_types :: "string list" where "text_types = [''geo'', ''text'', ''note'']"
definition sized_types :: "string list" where "sized_types = [''geo'', ''frame'']"

definition mark_affected :: "string \<Rightarrow> run_state \<Rightarrow> run_state" where
  "mark_affected i r = r\<lparr>rsAffected := insert_id i (rsAffected r)\<rparr>"

definition change_step :: "canvas_env \<Rightarrow> canvas_action \<Rightarrow> run_state \<Rightarrow> canvas_error + run_state" where
  "change_step env a r = (case map_of (rsCurrent r) (canvas_id a) of None \<Rightarrow> Inl (CanvasError 404)
     | Some s \<Rightarrow> (case a of
         DeleteShape i \<Rightarrow> Inr (delete_step (srId s) r)
       | MoveShape i x y \<Rightarrow> rewrite_step env (s\<lparr>srX := of_rat x, srY := of_rat y\<rparr>) (mark_affected (srId s) r)
       | UpdateText i tx \<Rightarrow> bindR (guardR (srType s \<in> set text_types) (CanvasError 422)) (\<lambda>_.
           rewrite_step env (s\<lparr>srProps := AList.update ''richText'' (cvRichText env tx) (srProps s)\<rparr>) r)
       | ResizeShape i w h \<Rightarrow> bindR (guardR (srType s \<in> set sized_types) (CanvasError 422)) (\<lambda>_.
           rewrite_step env (s\<lparr>srProps := AList.update ''h'' (JNum h) (AList.update ''w'' (JNum w) (srProps s))\<rparr>) (mark_affected (srId s) r))
       | _ \<Rightarrow> Inl (CanvasError 422)))"

definition visual_step :: "canvas_env \<Rightarrow> string \<Rightarrow> canvas_action \<Rightarrow> run_state \<Rightarrow> canvas_error + run_state" where
  "visual_step env page a r = (if creates a then create_step env page a r else change_step env a r)"

section \<open>Layout actions\<close>

fun from_layout :: "layout_error + 'a \<Rightarrow> canvas_error + 'a" where
  "from_layout (Inl (LayoutError n)) = Inl (CanvasError n)"
| "from_layout (Inl NullUnion) = Inl InternalError"
| "from_layout (Inr v) = Inr v"

definition check_movable :: "page_layout \<Rightarrow> string list \<Rightarrow> string \<Rightarrow> layout_error + unit" where
  "check_movable l ids i = bindR (boundsOf l i) (\<lambda>s.
     bindR (guardR (slType s \<noteq> ''arrow'') (LayoutError 422)) (\<lambda>_.
     bindR (guardR (\<not> slLocked s) (LayoutError 409)) (\<lambda>_.
     guardR (list_all (\<lambda>up. up \<notin> set ids) (ancestorsOf l i)) (LayoutError 422))))"

definition assertMovable :: "page_layout \<Rightarrow> string list \<Rightarrow> string list \<Rightarrow> layout_error + unit" where
  "assertMovable l ids references =
     bindR (guardR (list_all (\<lambda>i. map_of (plById l) i \<noteq> None) (ids @ references)) (LayoutError 404)) (\<lambda>_.
     bindR (mapR (check_movable l ids) ids) (\<lambda>_. Inr ()))"

definition small_move :: "move \<Rightarrow> bool" where
  "small_move m \<longleftrightarrow> \<bar>mvDx m\<bar> < 1 / 1000 \<and> \<bar>mvDy m\<bar> < 1 / 1000"

definition apply_move :: "canvas_env \<Rightarrow> page_layout \<Rightarrow> string \<Rightarrow> run_state \<times> (string \<times> real \<times> real) list \<Rightarrow> move
    \<Rightarrow> canvas_error + run_state \<times> (string \<times> real \<times> real) list" where
  "apply_move env l page s m = (if small_move m then Inr s
     else (case map_of (rsStore (fst s)) (mvId m) of
       Some (ShapeRecord rec) \<Rightarrow> (let updated = translateShape rec m l; r = fst s in
         bindR (guardR (cvValidShape env updated) SchemaError) (\<lambda>_.
         Inr (mark_affected (srId updated) (r\<lparr>rsStore := AList.update (srId updated) (ShapeRecord updated) (rsStore r),
                rsCurrent := (if srParent updated = page then AList.update (srId updated) updated (rsCurrent r) else rsCurrent r)\<rparr>),
              snd s @ [(srId updated, round_to 100 (mvDx m), round_to 100 (mvDy m))])))
     | _ \<Rightarrow> Inl (CanvasError 404)))"

definition applyMoves :: "canvas_env \<Rightarrow> page_layout \<Rightarrow> string \<Rightarrow> move list \<Rightarrow> run_state
    \<Rightarrow> canvas_error + run_state \<times> (string \<times> real \<times> real) list" where
  "applyMoves env l page moves r = foldR (apply_move env l page) (r, []) moves"

definition plain_expectation :: expectation where
  "plain_expectation = \<lparr>exPairs = [], exRequestedGap = None, exAlignAxis = None, exAlignIds = None\<rparr>"

definition consecutive :: "'a list \<Rightarrow> ('a \<times> 'a) list" where
  "consecutive xs = zip xs (tl xs)"

definition grid_pairs :: "nat \<Rightarrow> string list \<Rightarrow> (string \<times> string) list" where
  "grid_pairs columns ids = concat (map (\<lambda>(i, x).
     (if (i + 1) mod columns \<noteq> 0 \<and> i + 1 < length ids then [(x, ids ! (i + 1))] else []) @
     (if i + columns < length ids then [(x, ids ! (i + columns))] else [])) (List.enumerate 0 ids))"

definition row_axis :: "align3 option \<Rightarrow> align_axis" where
  "row_axis al = (case al of Some AlignEnd \<Rightarrow> ABottom | Some AlignCenter \<Rightarrow> ACenterY | _ \<Rightarrow> ATop)"

definition stack_axis :: "align3 option \<Rightarrow> align_axis" where
  "stack_axis al = (case al of Some AlignEnd \<Rightarrow> ARight | Some AlignCenter \<Rightarrow> ACenterX | _ \<Rightarrow> ALeft)"

text \<open>The moves a layout action asks for, the shapes it names, and what its verification expects.\<close>

definition planned :: "page_layout \<Rightarrow> layout_action \<Rightarrow> layout_error + string list \<times> move list \<times> expectation" where
  "planned l a = (case a of
     PlaceBelow i target g al \<Rightarrow> bindR (assertMovable l [i] [target]) (\<lambda>_.
       bindR (placeBelow l i target (Some (or_else g layout_gap)) al) (\<lambda>ms.
       Inr ([i], ms, plain_expectation\<lparr>exRequestedGap := Some (or_else g layout_gap), exPairs := [(i, target)]\<rparr>)))
   | PlaceRightOf i target g al \<Rightarrow> bindR (assertMovable l [i] [target]) (\<lambda>_.
       bindR (placeRightOf l i target (Some (or_else g layout_gap)) al) (\<lambda>ms.
       Inr ([i], ms, plain_expectation\<lparr>exRequestedGap := Some (or_else g layout_gap), exPairs := [(i, target)]\<rparr>)))
   | FindFreeRegion w h near dir g \<Rightarrow> Inr ([], [], plain_expectation)
   | AlignShapes ids axis \<Rightarrow> bindR (assertMovable l (uniq ids) []) (\<lambda>_. bindR (alignMoves l (uniq ids) axis) (\<lambda>ms.
       Inr (uniq ids, ms, plain_expectation\<lparr>exAlignAxis := Some axis, exAlignIds := Some (uniq ids)\<rparr>)))
   | Distribute ids horizontal g \<Rightarrow> bindR (assertMovable l (uniq ids) []) (\<lambda>_. bindR (distributeMoves l (uniq ids) horizontal g) (\<lambda>ms.
       Inr (uniq ids, ms, plain_expectation\<lparr>exRequestedGap := g, exPairs := consecutive (map mvId ms)\<rparr>)))
   | Row ids al b \<Rightarrow> bindR (assertMovable l (uniq ids) []) (\<lambda>_.
       bindR (rowMoves l (uniq ids) (b\<lparr>boGap := Some (or_else (boGap b) layout_gap)\<rparr>) (or_else al AlignStart)) (\<lambda>ms.
       Inr (uniq ids, ms, plain_expectation\<lparr>exRequestedGap := Some (or_else (boGap b) layout_gap),
         exPairs := consecutive (uniq ids), exAlignAxis := Some (row_axis al), exAlignIds := Some (uniq ids)\<rparr>)))
   | Stack ids al b \<Rightarrow> bindR (assertMovable l (uniq ids) []) (\<lambda>_.
       bindR (stackMoves l (uniq ids) (b\<lparr>boGap := Some (or_else (boGap b) layout_gap)\<rparr>) (or_else al AlignStart)) (\<lambda>ms.
       Inr (uniq ids, ms, plain_expectation\<lparr>exRequestedGap := Some (or_else (boGap b) layout_gap),
         exPairs := consecutive (uniq ids), exAlignAxis := Some (stack_axis al), exAlignIds := Some (uniq ids)\<rparr>)))
   | Grid ids columns cg rg b \<Rightarrow> bindR (assertMovable l (uniq ids) []) (\<lambda>_.
       let g = or_else (boGap b) layout_gap; columnGap = or_else cg g; rowGap = or_else rg g in
       bindR (gridMoves l (uniq ids) columns (b\<lparr>boGap := Some g\<rparr>) (Some columnGap) (Some rowGap)) (\<lambda>ms.
       Inr (uniq ids, ms, plain_expectation\<lparr>exRequestedGap := Some (min columnGap rowGap), exPairs := grid_pairs columns (uniq ids)\<rparr>))))"

fun layout_tool :: "layout_action \<Rightarrow> string" where
  "layout_tool (PlaceBelow i target g al) = ''place_below''"
| "layout_tool (PlaceRightOf i target g al) = ''place_right_of''"
| "layout_tool (FindFreeRegion w h near dir g) = ''find_free_region''"
| "layout_tool (AlignShapes ids axis) = ''align''"
| "layout_tool (Distribute ids horizontal g) = ''distribute''"
| "layout_tool (Row ids al b) = ''row''"
| "layout_tool (Stack ids al b) = ''stack''"
| "layout_tool (Grid ids columns cg rg b) = ''grid''"

definition neighbour_reason :: "shape_layout \<Rightarrow> unverified_reason" where
  "neighbour_reason s = (if slLabelMayOverflow s then LabelMayOverflow else if slMeasurementStale s then MeasurementStale else Estimated)"

definition region_step :: "page_layout \<Rightarrow> nat \<Rightarrow> real \<Rightarrow> real \<Rightarrow> string option \<Rightarrow> direction option \<Rightarrow> real \<Rightarrow> run_state
    \<Rightarrow> layout_error + run_state" where
  "region_step l position w h near dir gap r =
     bindR (case near of None \<Rightarrow> Inr None | Some i \<Rightarrow> bindR (boundsOf l i) (\<lambda>s. Inr (Some (slBounds s)))) (\<lambda>nearby.
     let anchor = map_option (\<lambda>b. if or_else dir GoAny = GoRight then \<lparr>pX = rX b + rW b + gap, pY = rY b\<rparr>
           else \<lparr>pX = rX b, pY = rY b + rH b + gap\<rparr>) nearby;
         region = findFreeRegion l w h anchor (Some (or_else dir GoAny)) (Some gap) [];
         close = filter (\<lambda>b. rectsCloserThan \<lparr>rX = frX region, rY = frY region, rW = frW region, rH = frH region\<rparr> (bkRect b) (gap * 2))
           (blockersFor l []);
         unverified = filter (\<lambda>s. slVerification s = Unverified) (List.map_filter (\<lambda>b. map_of (plById l) (bkId b)) close)
     in Inr (r\<lparr>rsResults := rsResults r @ [\<lparr>arIndex = position, arTool = ''find_free_region'', arMoved = [],
          arRegion = Some (region\<lparr>frX := round_to 100 (frX region), frY := round_to 100 (frY region), frTravel := round_to 100 (frTravel region)\<rparr>),
          arNeighbours = Some (map (\<lambda>s. (slId s, neighbour_reason s)) unverified), arVerification = None\<rparr>]\<rparr>))"

definition layout_step :: "canvas_env \<Rightarrow> string \<Rightarrow> nat \<Rightarrow> layout_action \<Rightarrow> run_state \<Rightarrow> canvas_error + run_state" where
  "layout_step env page position a r = (let l = layoutOf env (rsStore r) page in
     case a of FindFreeRegion w h near dir g \<Rightarrow> from_layout (region_step l position w h near dir (or_else g layout_gap) r)
     | _ \<Rightarrow> bindR (from_layout (planned l a)) (\<lambda>(ids, ms, ex).
         bindR (applyMoves env l page ms r) (\<lambda>(r', moved).
         let after = layoutOf env (rsStore r') page in
         Inr (r'\<lparr>rsTouched := fold insert_id ids (rsTouched r'),
              rsResults := rsResults r' @ [\<lparr>arIndex = position, arTool = layout_tool a, arMoved = moved, arRegion = None,
                arNeighbours = None, arVerification = Some (verifyLayout after ids ex)\<rparr>]\<rparr>))))"

section \<open>The end of a request\<close>

record arrow_check =
  akId :: string
  akFrom :: "string option"
  akTo :: "string option"
  akBound :: bool
  akAttached :: bool
  akStartGap :: "real option"
  akEndGap :: "real option"

record layout_summary =
  lsStatus :: verification_status
  lsResults :: "layout_result list"
  lsFinal :: layout_verification
  lsArrows :: "arrow_check list"
  lsGap :: real

definition distanceToRect :: "point \<Rightarrow> rect \<Rightarrow> real" where
  "distanceToRect p r = hypot (max (max (rX r - pX p) 0) (pX p - (rX r + rW r))) (max (max (rY r - pY p) 0) (pY p - (rY r + rH r)))"

definition rerouted_record :: "canvas_env \<Rightarrow> shape_record \<times> point \<times> point \<Rightarrow> shape_record" where
  "rerouted_record env u = (case u of (s, start, end') \<Rightarrow> s\<lparr>srProps :=
     AList.update ''end'' (point_json env (pX end') (pY end')) (AList.update ''start'' (point_json env (pX start) (pY start)) (srProps s))\<rparr>)"

definition save_arrow :: "canvas_env \<Rightarrow> store \<Rightarrow> shape_record \<Rightarrow> canvas_error + store" where
  "save_arrow env st s = bindR (guardR (cvValidShape env s) SchemaError) (\<lambda>_. Inr (AList.update (srId s) (ShapeRecord s) st))"

definition reroute_step :: "canvas_env \<Rightarrow> string \<Rightarrow> run_state \<Rightarrow> canvas_error + run_state" where
  "reroute_step env page r = (if rsAffected r = [] then Inr r
     else (let l = layoutOf env (rsStore r) page; records = map (\<lambda>s. (srId s, s)) (shapes (rsStore r))
       in bindR (foldR (save_arrow env) (rsStore r) (map (rerouted_record env) (rerouteManagedArrows l records (rsAffected r))))
            (\<lambda>st. Inr (r\<lparr>rsStore := st\<rparr>))))"

definition or_first :: "'a option \<Rightarrow> 'a option \<Rightarrow> 'a option" where
  "or_first a b = (case a of Some x \<Rightarrow> Some x | None \<Rightarrow> b)"

definition end_gap :: "page_layout \<Rightarrow> string option \<Rightarrow> point \<Rightarrow> real option" where
  "end_gap l target p = (case target of None \<Rightarrow> None | Some i \<Rightarrow>
     if i = [] then None else map_option (\<lambda>s. distanceToRect p (slBounds s)) (map_of (plById l) i))"

definition near_enough :: "real option \<Rightarrow> bool" where
  "near_enough g = (case g of None \<Rightarrow> True | Some d \<Rightarrow> d \<le> alignment_tolerance)"

definition check_arrow :: "page_layout \<Rightarrow> shape_layout \<Rightarrow> arrow_layout \<Rightarrow> arrow_check" where
  "check_arrow l s a = (let from = or_first (alStartBoundTo a) (map_option fst (alConnection a));
       to = or_first (alEndBoundTo a) (map_option snd (alConnection a));
       startGap = end_gap l from (alStart a); endGap = end_gap l to (alEnd a)
     in \<lparr>akId = slId s, akFrom = from, akTo = to, akBound = (alStartBoundTo a \<noteq> None \<or> alEndBoundTo a \<noteq> None),
         akAttached = (near_enough startGap \<and> near_enough endGap),
         akStartGap = map_option (round_to 100) startGap, akEndGap = map_option (round_to 100) endGap\<rparr>)"

definition arrow_touches :: "string list \<Rightarrow> arrow_layout \<Rightarrow> bool" where
  "arrow_touches ids a \<longleftrightarrow> list_ex (\<lambda>i. map_option fst (alConnection a) = Some i \<or> map_option snd (alConnection a) = Some i \<or>
     alStartBoundTo a = Some i \<or> alEndBoundTo a = Some i) ids"

definition checked_arrows :: "page_layout \<Rightarrow> string list \<Rightarrow> arrow_check list" where
  "checked_arrows l ids = List.map_filter (\<lambda>s. case slArrow s of None \<Rightarrow> None
     | Some a \<Rightarrow> if arrow_touches ids a then Some (check_arrow l s a) else None) (plShapes l)"

definition overall_status :: "verification_status option list \<Rightarrow> bool \<Rightarrow> arrow_check list \<Rightarrow> verification_status" where
  "overall_status statuses reliesOnEstimates arrows = (if Some Overlaps \<in> set statuses then Overlaps
     else if Some PartiallyUnverified \<in> set statuses \<or> reliesOnEstimates \<or> list_ex (\<lambda>a. \<not> akAttached a) arrows
     then PartiallyUnverified else AllVerified)"

definition summarise :: "canvas_env \<Rightarrow> string \<Rightarrow> run_state \<Rightarrow> layout_summary option" where
  "summarise env page r = (if rsResults r = [] then None
     else (let touched = uniq (rsTouched r @ rsAffected r); final = layoutOf env (rsStore r) page;
         arrows = checked_arrows final touched;
         verification = verifyLayout final
           (filter (\<lambda>i. map_option slType (map_of (plById final) i) \<noteq> Some ''arrow'') touched) plain_expectation;
         statuses = map (\<lambda>x. map_option lvStatus (arVerification x)) (rsResults r) @ [Some (lvStatus verification)];
         reliesOnEstimates = list_ex (\<lambda>x. case arNeighbours x of None \<Rightarrow> False | Some ns \<Rightarrow> ns \<noteq> []) (rsResults r)
       in Some \<lparr>lsStatus = overall_status statuses reliesOnEstimates arrows, lsResults = rsResults r, lsFinal = verification,
            lsArrows = arrows, lsGap = layout_gap\<rparr>))"

section \<open>One request\<close>

record action_reply =
  aoPage :: string
  aoApplied :: nat
  aoLayout :: "layout_summary option"

definition semantic_step :: "canvas_env \<Rightarrow> semantic_action \<Rightarrow> run_state \<Rightarrow> canvas_error + run_state" where
  "semantic_step env a r = bindR (applySemanticAction (cvBytes env) (cvInBoard env) (cvActor env) (cvNow env) a (rsStore r, rsCount r))
     (\<lambda>(st, count). Inr (r\<lparr>rsStore := st, rsCount := count\<rparr>))"

definition board_step :: "canvas_env \<Rightarrow> string \<Rightarrow> run_state \<Rightarrow> nat \<times> board_action \<Rightarrow> canvas_error + run_state" where
  "board_step env page r pa = (case snd pa of
     Semantic a \<Rightarrow> semantic_step env a r
   | Layout a \<Rightarrow> layout_step env page (fst pa) a r
   | Visual a \<Rightarrow> visual_step env page a r)"

definition last_index :: "string list \<Rightarrow> string option" where
  "last_index xs = (if xs = [] then None else Some (last (sort xs)))"

definition start_run :: "store \<Rightarrow> string \<Rightarrow> run_state" where
  "start_run st page = (let mine = filter (\<lambda>s. srParent s = page) (shapes st) in
     \<lparr>rsStore = st, rsCurrent = map_of_entries (map (\<lambda>s. (srId s, s)) mine), rsTop = last_index (map srIndex mine),
      rsCount = length (entities st), rsAffected = [], rsTouched = [], rsResults = []\<rparr>)"

definition run_actions :: "canvas_env \<Rightarrow> string \<Rightarrow> board_action list \<Rightarrow> run_state \<Rightarrow> canvas_error + run_state" where
  "run_actions env page actions r = bindR (foldR (board_step env page) r (List.enumerate 0 actions)) (reroute_step env page)"

definition applyRoomActions :: "canvas_env \<Rightarrow> store \<Rightarrow> int \<Rightarrow> json \<Rightarrow> canvas_error + store \<times> action_reply" where
  "applyRoomActions env st clock raw = (case actionRequestSchema raw of None \<Rightarrow> Inl SchemaError
     | Some q \<Rightarrow>
       bindR (guardR (case aqClock q of None \<Rightarrow> True | Some c \<Rightarrow> clock = c) (CanvasError 409)) (\<lambda>_.
       bindR (selectedPage env st (aqPage q)) (\<lambda>page.
       bindR (run_actions env page (aqActions q) (start_run st page)) (\<lambda>r.
       Inr (rsStore r, \<lparr>aoPage = page, aoApplied = length (aqActions q), aoLayout = summarise env page r\<rparr>)))))"

end
