(* ===== verification/EntityLemmas.thy ===== *)
theory EntityLemmas
  imports Entities
begin

text \<open>
  What the schemas of \<open>Entities\<close> guarantee: a value they accept is a value they accept unchanged
  (normalising is idempotent), and every field of the result went through its parser.
\<close>

section \<open>Stable parsers\<close>

named_theorems steady_intros

definition steady :: "parser \<Rightarrow> bool" where
  "steady p \<longleftrightarrow> (\<forall>j v. p j = Some v \<longrightarrow> p v = Some v)"

lemma stableD: "steady p \<Longrightarrow> p j = Some v \<Longrightarrow> p v = Some v"
  by (auto simp: steady_def)

lemma stable_keep_if [steady_intros]: "steady (keep_if P)"
  by (auto simp: steady_def keep_if_def split: if_splits)

lemma stable_keep_text [steady_intros]: "steady (keep_text P)"
  by (auto simp: steady_def keep_text_def split: json.splits if_splits)

lemma dropWhile_snoc: "\<not> P c \<Longrightarrow> dropWhile P (xs @ [c]) = dropWhile P xs @ [c]"
  by (induction xs) auto

lemma dropWhile_idem: "dropWhile P (dropWhile P s) = dropWhile P s"
  by (induction s) auto

lemma dropWhile_both_ends:
  "dropWhile P (rev (dropWhile P (rev (dropWhile P s)))) = rev (dropWhile P (rev (dropWhile P s)))"
proof (cases "dropWhile P s")
  case Nil
  then show ?thesis by (simp only: rev.simps dropWhile.simps)
next
  case (Cons c cs)
  then have "\<not> P c" by (metis hd_dropWhile list.distinct(1) list.sel(1))
  with Cons show ?thesis by (simp add: dropWhile_snoc)
qed

lemma js_trim_idem: "js_trim (js_trim s) = js_trim s"
  by (simp add: js_trim_def dropWhile_both_ends dropWhile_idem)

lemma stable_trimmed [steady_intros]: "steady (trimmed_text lo hi)"
  by (auto simp: steady_def trimmed_text_def Let_def js_trim_idem split: json.splits if_splits)

lemma all_some_stable:
  assumes "steady p" and "all_some (map p xs) = Some ys"
  shows "all_some (map p ys) = Some ys"
proof -
  have "p y = Some y" if "y \<in> set ys" for y
  proof -
    from assms(2) that obtain x where "x \<in> set xs" "y = the (p x)" "None \<noteq> p x"
      by (auto simp: all_some_def image_iff split: if_splits)
    with assms(1) show ?thesis by (cases "p x") (auto simp: steady_def)
  qed
  then show ?thesis by (auto simp: all_some_def image_iff intro!: map_idI)
qed

lemma all_some_length: "all_some xs = Some ys \<Longrightarrow> length ys = length xs"
  by (auto simp: all_some_def split: if_splits)

lemma stable_array [steady_intros]: "steady p \<Longrightarrow> steady (array_upto hi p)"
  by (auto simp: steady_def array_upto_def all_some_length split: json.splits if_splits)
    (metis all_some_stable steady_def)+

lemma stable_nullable [steady_intros]: "steady p \<Longrightarrow> steady (nullable p)"
  by (auto simp: steady_def nullable_def split: if_splits)

section \<open>Strict objects\<close>

lemma read_fields_names: "read_fields fs ms = Some v \<Longrightarrow> set (map fst v) \<subseteq> fdName ` set fs"
proof (induction fs arbitrary: v)
  case (Cons f fs)
  show ?case
  proof (cases "map_of ms (fdName f)")
    case None
    with Cons.prems Cons.IH [of v] show ?thesis by (auto split: if_splits)
  next
    case (Some j)
    with Cons.prems obtain w rest where "read_fields fs ms = Some rest" "v = (fdName f, w) # rest"
      by (auto split: option.splits)
    with Cons.IH [of rest] show ?thesis by auto
  qed
qed simp

lemma read_fields_distinct: "read_fields fs ms = Some v \<Longrightarrow> distinct (map fdName fs) \<Longrightarrow> distinct (map fst v)"
proof (induction fs arbitrary: v)
  case (Cons f fs)
  show ?case
  proof (cases "map_of ms (fdName f)")
    case None
    with Cons show ?thesis by (auto split: if_splits)
  next
    case (Some j)
    with Cons.prems obtain w rest where "read_fields fs ms = Some rest" "v = (fdName f, w) # rest"
      by (auto split: option.splits)
    with Cons read_fields_names [of fs ms rest] show ?thesis by auto
  qed
qed simp

lemma read_fields_cong: "(\<And>f. f \<in> set fs \<Longrightarrow> map_of ms (fdName f) = map_of ms' (fdName f)) \<Longrightarrow> read_fields fs ms = read_fields fs ms'"
proof (induction fs)
  case (Cons f fs)
  have "map_of ms (fdName f) = map_of ms' (fdName f)" by (rule Cons.prems) simp
  moreover have "read_fields fs ms = read_fields fs ms'" by (rule Cons.IH) (simp add: Cons.prems)
  ultimately show ?case by (simp only: read_fields.simps)
qed simp

lemma map_of_fresh: "set (map fst v) \<subseteq> A \<Longrightarrow> k \<notin> A \<Longrightarrow> map_of v k = None"
  by (auto simp: map_of_eq_None_iff)

lemma read_fields_stable:
  assumes "read_fields fs ms = Some v" and "distinct (map fdName fs)" and "\<forall>f\<in>set fs. steady (fdParser f)"
  shows "read_fields fs v = Some v"
  using assms
proof (induction fs arbitrary: v)
  case (Cons f fs)
  show ?case
  proof (cases "map_of ms (fdName f)")
    case None
    with Cons.prems have "fdOptional f" "read_fields fs ms = Some v" by (auto split: if_splits)
    moreover from this Cons.prems have "map_of v (fdName f) = None"
      using map_of_fresh [OF read_fields_names [of fs ms v]] by simp
    ultimately show ?thesis using Cons by simp
  next
    case (Some j)
    with Cons.prems obtain w rest where rest: "fdParser f j = Some w" "read_fields fs ms = Some rest" "v = (fdName f, w) # rest"
      by (auto split: option.splits)
    with Cons have "read_fields fs rest = Some rest" by simp
    moreover have "read_fields fs ((fdName f, w) # rest) = read_fields fs rest"
      by (rule read_fields_cong) (use Cons.prems(2) in \<open>auto simp: rev_image_eqI\<close>)
    ultimately show ?thesis using rest Cons.prems(3) by (auto dest: stableD)
  qed
qed simp

lemma read_fields_value:
  assumes "read_fields fs ms = Some v" and "distinct (map fdName fs)" and "f \<in> set fs"
  shows "map_of v (fdName f) = (case map_of ms (fdName f) of None \<Rightarrow> None | Some j \<Rightarrow> fdParser f j) \<and>
    (map_of v (fdName f) = None \<longrightarrow> fdOptional f \<and> map_of ms (fdName f) = None)"
  using assms
proof (induction fs arbitrary: v)
  case (Cons g fs)
  show ?case
  proof (cases "map_of ms (fdName g)")
    case None
    with Cons.prems(1,2) have v: "fdOptional g" "read_fields fs ms = Some v" by (auto split: if_splits)
    show ?thesis
    proof (cases "g = f")
      case True
      with v None Cons.prems(2) show ?thesis using map_of_fresh [OF read_fields_names [OF v(2)], of "fdName f"] by simp
    next
      case False
      with Cons.prems(2,3) v show ?thesis by (intro Cons.IH) auto
    qed
  next
    case (Some j)
    with Cons.prems(1) obtain w rest where rest: "fdParser g j = Some w" "read_fields fs ms = Some rest" "v = (fdName g, w) # rest"
      by (auto split: option.splits)
    show ?thesis
    proof (cases "g = f")
      case True
      with rest Some show ?thesis by simp
    next
      case False
      with Cons.prems(2,3) have "f \<in> set fs" "fdName f \<noteq> fdName g" by (auto simp: rev_image_eqI)
      with Cons.IH [OF rest(2)] Cons.prems(2) rest(3) show ?thesis by simp
    qed
  qed
qed simp

lemma strict_object_reads: "strict_object fs ms = Some v \<Longrightarrow> read_fields fs ms = Some v"
  by (simp add: strict_object_def split: if_splits)

lemma strict_object_stable:
  assumes "strict_object fs ms = Some v" and "distinct (map fdName fs)" and "\<forall>f\<in>set fs. steady (fdParser f)"
  shows "strict_object fs v = Some v"
  using read_fields_stable [OF strict_object_reads [OF assms(1)] assms(2,3)] read_fields_names [OF strict_object_reads [OF assms(1)]]
  by (auto simp: strict_object_def list_all_iff)

lemma stable_strict_json [steady_intros]:
  "distinct (map fdName fs) \<Longrightarrow> \<forall>f\<in>set fs. steady (fdParser f) \<Longrightarrow> steady (strict_json fs)"
  by (auto simp: steady_def strict_json_def split: json.splits) (metis strict_object_stable steady_def)

section \<open>The entity schema\<close>

lemmas field_parts = required_def optional_def

lemma stable_evidence [steady_intros]: "steady evidence_reference"
proof -
  have "evidence_reference v = Some v" if "trimmed_text 1 2000 j = Some u" "keep_text safe_reference u = Some v" for j u v
  proof -
    from that(2) have "u = v" by (auto simp: keep_text_def split: json.splits if_splits)
    with that stableD [OF stable_trimmed that(1)] show ?thesis by (simp add: evidence_reference_def)
  qed
  then show ?thesis by (auto simp: steady_def evidence_reference_def bind_eq_Some_conv)
qed

lemma stable_timestamp [steady_intros]: "steady timestamp"
  unfolding timestamp_def by (rule stable_keep_if)

lemma stable_entity_id [steady_intros]: "steady entity_id"
  unfolding entity_id_def by (rule stable_keep_text)

lemma stable_names [steady_intros]: "steady (one_of names)" "steady (exactly name)" "steady title_text" "steady short_trimmed"
  "steady audit_actor" "steady bounded_scalar_map"
  unfolding one_of_def exactly_def title_text_def short_trimmed_def audit_actor_def bounded_scalar_map_def
  by (simp_all only: steady_intros)

lemma stable_relations [steady_intros]: "steady relations_parser"
  unfolding relations_parser_def by (simp add: steady_intros relation_fields_def field_parts)

lemma stable_table [steady_intros]: "steady table_summary"
  unfolding table_summary_def by (simp add: steady_intros field_parts)

lemma baseFields_stable: "f \<in> set (baseFields t) \<Longrightarrow> steady (fdParser f)"
proof -
  have "\<forall>f\<in>set (baseFields t). steady (fdParser f)" by (simp add: baseFields_def field_parts steady_intros)
  then show "f \<in> set (baseFields t) \<Longrightarrow> steady (fdParser f)" ..
qed

lemma own_fields_stable: "(t, fs) \<in> set own_fields \<Longrightarrow> f \<in> set fs \<Longrightarrow> steady (fdParser f)"
proof -
  have "\<forall>(t, fs)\<in>set own_fields. \<forall>f\<in>set fs. steady (fdParser f)" by (simp add: own_fields_def field_parts steady_intros)
  then show "(t, fs) \<in> set own_fields \<Longrightarrow> f \<in> set fs \<Longrightarrow> steady (fdParser f)" by blast
qed

lemma entity_fields_stable: "f \<in> set (entity_fields t) \<Longrightarrow> steady (fdParser f)"
  by (cases "map_of own_fields t") (auto simp: entity_fields_def dest: map_of_SomeD intro: baseFields_stable own_fields_stable)

lemma names_of_base: "map fdName (baseFields t) = [''typeName'', ''id'', ''entityType'', ''shapeId'', ''title'', ''status'',
    ''relations'', ''createdBy'', ''updatedBy'', ''createdAt'', ''updatedAt'']"
  by (simp add: baseFields_def field_parts)

lemma entity_fields_distinct: "distinct (map fdName (entity_fields t))"
proof -
  have "\<forall>(u, fs)\<in>set own_fields. distinct (map fdName (baseFields t) @ map fdName fs)"
    by (simp add: own_fields_def field_parts names_of_base)
  then have "distinct (map fdName (baseFields t @ fs))" if "map_of own_fields t = Some fs" for fs
    using map_of_SomeD [OF that] by (metis (mono_tags, lifting) case_prodD map_append)
  moreover have "distinct (map fdName (baseFields t))" by (simp add: names_of_base)
  ultimately show ?thesis by (cases "map_of own_fields t") (simp_all add: entity_fields_def)
qed

lemma schema_reads:
  assumes "engineeringEntitySchema ms = Some e"
  obtains t where "t \<in> set entity_types" "map_of ms ''entityType'' = Some (JStr t)" "strict_object (entity_fields t) ms = Some e"
  using assms by (auto simp: engineeringEntitySchema_def split: option.splits json.splits if_splits)

lemma schema_field:
  assumes "engineeringEntitySchema ms = Some e" and "f \<in> set (baseFields t)" and "map_of ms ''entityType'' = Some (JStr t)"
    and "\<not> fdOptional f"
  shows "\<exists>j v. map_of ms (fdName f) = Some j \<and> fdParser f j = Some v \<and> map_of e (fdName f) = Some v"
proof -
  from assms(1,3) have "strict_object (entity_fields t) ms = Some e" by (auto elim: schema_reads)
  then have "read_fields (entity_fields t) ms = Some e" by (rule strict_object_reads)
  from read_fields_value [OF this entity_fields_distinct, of f] assms(2,4) show ?thesis
    by (cases "map_of ms (fdName f)"; cases "map_of e (fdName f)") (auto simp: entity_fields_def)
qed

lemma schema_type:
  assumes "engineeringEntitySchema ms = Some e"
  shows "map_of e ''entityType'' = map_of ms ''entityType''"
proof -
  from assms obtain t where t: "map_of ms ''entityType'' = Some (JStr t)" by (rule schema_reads)
  have "required ''entityType'' (exactly t) \<in> set (baseFields t)" by (simp add: baseFields_def)
  from schema_field [OF assms this t] t show ?thesis
    by (auto simp: field_parts exactly_def keep_text_def split: if_splits)
qed

lemma schema_idempotent:
  assumes "engineeringEntitySchema ms = Some e"
  shows "engineeringEntitySchema e = Some e"
proof -
  from assms obtain t where t: "t \<in> set entity_types" "map_of ms ''entityType'' = Some (JStr t)" "strict_object (entity_fields t) ms = Some e"
    by (rule schema_reads)
  have "strict_object (entity_fields t) e = Some e"
    by (rule strict_object_stable [OF t(3) entity_fields_distinct]) (simp add: entity_fields_stable)
  with t schema_type [OF assms] show ?thesis by (simp add: engineeringEntitySchema_def)
qed

lemma schema_id:
  assumes "engineeringEntitySchema ms = Some e"
  shows "\<exists>i. map_of ms ''id'' = Some (JStr i) \<and> map_of e ''id'' = Some (JStr i) \<and> is_entity_id i"
proof -
  from assms obtain t where t: "map_of ms ''entityType'' = Some (JStr t)" by (rule schema_reads)
  have "required ''id'' entity_id \<in> set (baseFields t)" by (simp add: baseFields_def)
  from schema_field [OF assms this t] obtain j v where "map_of ms ''id'' = Some j" "entity_id j = Some v" "map_of e ''id'' = Some v"
    by (auto simp: field_parts)
  then show ?thesis by (cases j) (simp_all add: entity_id_def keep_text_def split: if_splits)
qed

lemma schema_relations:
  assumes "engineeringEntitySchema ms = Some e"
  shows "\<exists>j v. map_of ms ''relations'' = Some j \<and> relations_parser j = Some v \<and> map_of e ''relations'' = Some v"
proof -
  from assms obtain t where t: "map_of ms ''entityType'' = Some (JStr t)" by (rule schema_reads)
  have "required ''relations'' relations_parser \<in> set (baseFields t)" by (simp add: baseFields_def)
  from schema_field [OF assms this t] show ?thesis by (auto simp: field_parts)
qed

lemma schema_updated_by:
  assumes "engineeringEntitySchema ms = Some e"
  shows "\<exists>s. map_of ms ''updatedBy'' = Some (JStr s) \<and> map_of e ''updatedBy'' = Some (JStr (js_trim s))"
proof -
  from assms obtain t where t: "map_of ms ''entityType'' = Some (JStr t)" by (rule schema_reads)
  have "required ''updatedBy'' audit_actor \<in> set (baseFields t)" by (simp add: baseFields_def)
  from schema_field [OF assms this t] obtain j v where "map_of ms ''updatedBy'' = Some j" "audit_actor j = Some v" "map_of e ''updatedBy'' = Some v"
    by (auto simp: field_parts)
  then show ?thesis by (cases j) (simp_all add: audit_actor_def trimmed_text_def Let_def split: if_splits)
qed

end
