(* ===== verification/SemanticClaims.thy ===== *)
theory SemanticClaims
  imports SemanticActions EntityLemmas
begin

text \<open>
  What the semantic actions keep of a store: every entity is one its schema accepts, sits under its own id, and
  relates only to entities that exist; and what the compact context returns.
\<close>

section \<open>Candidates\<close>

lemma look_overlay: "map_of (overlay base over) = map_of base ++ map_of (rev over)"
  by (induction over arbitrary: base) (simp_all add: overlay_def js.look_put map_add_assoc [symmetric] fun_upd_def [symmetric] map_add_upd_left)

lemma look_overlay_at: "map_of (overlay base over) k = (case map_of (rev over) k of Some j \<Rightarrow> Some j | None \<Rightarrow> map_of base k)"
  by (simp add: look_overlay map_add_def)

lemma look_rev_in: "map_of (rev fs) k = Some j \<Longrightarrow> (k, j) \<in> set fs"
  by (drule map_of_SomeD) simp

lemma look_given: "map_of (given k v) k' = (if k' = k then v else None)"
  by (auto simp: given_def split: option.splits)

lemma look_rev_given: "map_of (rev (given k v)) k' = (if k' = k then v else None)"
  by (auto simp: given_def split: option.splits)

definition generic_opt :: "members option \<Rightarrow> bool" where
  "generic_opt fs = (case fs of None \<Rightarrow> True | Some ms \<Rightarrow> generic_fields (JObj ms))"

fun generic_action :: "semantic_action \<Rightarrow> bool" where
  "generic_action (CreateEntity a) = generic_opt (ceFields a)"
| "generic_action (UpdateEntity i p) = generic_opt (paFields p)"
| "generic_action _ = True"

definition fields_value :: "members option \<Rightarrow> string \<Rightarrow> json option" where
  "fields_value fs k = (case fs of None \<Rightarrow> None | Some ms \<Rightarrow> map_of (rev ms) k)"

definition plain_relations :: "members option \<Rightarrow> bool" where
  "plain_relations fs \<longleftrightarrow> (case fields_value fs ''relations'' of None \<Rightarrow> True | Some j \<Rightarrow> generic_value j)"

lemma generic_plain: "generic_opt fs \<Longrightarrow> plain_relations fs"
  by (auto simp: plain_relations_def generic_opt_def fields_value_def generic_fields_def list_all_iff dest!: look_rev_in split: option.splits)

lemma created_look:
  "k \<noteq> ''tableSummary'' \<Longrightarrow> map_of (created_candidate who now a) k = (case fields_value (ceFields a) k of Some j \<Rightarrow> Some j
    | None \<Rightarrow> map_of (created_base who now a) k)"
  by (simp add: created_candidate_def look_overlay_at look_rev_given fields_value_def split: option.splits)

lemma created_base_look:
  "map_of (created_base who now a) ''relations'' = Some (JArr [])"
  "map_of (created_base who now a) ''id'' = Some (JStr (ceId a))"
  by (simp_all add: created_base_def map_add_def look_given)

lemma patched_look: "k \<noteq> ''shapeId'' \<Longrightarrow> map_of (patched_shape s e) k = map_of e k"
  by (auto simp: patched_shape_def js.look_put js.look_del split: option.splits)

lemma stamp_look: "map_of (rev (stamp who now)) k = (if k = ''updatedAt'' then Some (JNum (of_int now))
    else if k = ''updatedBy'' then Some (JStr (acUserId who)) else None)"
  by (simp add: stamp_def)

lemma updated_look:
  assumes "k \<notin> {''tableSummary'', ''shapeId'', ''title'', ''status'', ''updatedBy'', ''updatedAt''}"
  shows "map_of (updated_candidate who now p e) k = (case fields_value (paFields p) k of Some j \<Rightarrow> Some j | None \<Rightarrow> map_of e k)"
  using assms by (auto simp: updated_candidate_def look_overlay_at look_rev_given stamp_look fields_value_def patched_look
      look_rev_given map_add_def split: option.splits)

lemma with_relations_look:
  "map_of (with_relations who now rs e) ''relations'' = Some (JArr rs)"
  "map_of (with_relations who now rs e) ''id'' = map_of e ''id''"
  by (simp_all add: with_relations_def look_overlay_at stamp_look js.look_put)

section \<open>The invariant\<close>

definition is_entity_key :: "store \<Rightarrow> string \<Rightarrow> bool" where
  "is_entity_key st k = (case map_of st k of Some (EntityRecord e) \<Rightarrow> True | _ \<Rightarrow> False)"

definition targets_exist :: "store \<Rightarrow> members \<Rightarrow> bool" where
  "targets_exist st e = list_all (\<lambda>r. is_entity_key st (relation_text ''targetId'' r)) (relations_of e)"

definition entity_ok :: "store \<Rightarrow> string \<Rightarrow> members \<Rightarrow> bool" where
  "entity_ok st k e \<longleftrightarrow> map_of e ''id'' = Some (JStr k) \<and> engineeringEntitySchema e = Some e \<and> targets_exist st e"

definition record_ok :: "store \<Rightarrow> string \<times> canvas_record \<Rightarrow> bool" where
  "record_ok st p = (case snd p of EntityRecord e \<Rightarrow> entity_ok st (fst p) e | _ \<Rightarrow> True)"

definition semantic_ok :: "store \<Rightarrow> bool" where
  "semantic_ok st \<longleftrightarrow> distinct (map fst st) \<and> list_all (record_ok st) st"

lemma member_text_id: "map_of e ''id'' = Some (JStr k) \<Longrightarrow> member_text e ''id'' = k"
  by (simp add: member_text_def)

lemma semantic_ok_look: "semantic_ok st \<Longrightarrow> map_of st k = Some (EntityRecord e) \<Longrightarrow> entity_ok st k e"
  by (auto simp: semantic_ok_def list_all_iff record_ok_def dest!: map_of_SomeD)

lemma key_set_entity: "is_entity_key st k \<Longrightarrow> is_entity_key (set_entity e st) k"
  by (simp add: is_entity_key_def set_entity_def js.look_put)

lemma targets_set_entity: "targets_exist st e \<Longrightarrow> targets_exist (set_entity e' st) e"
  by (auto simp: targets_exist_def list_all_iff key_set_entity)

lemma record_ok_set_entity: "record_ok st p \<Longrightarrow> record_ok (set_entity e st) p"
  by (auto simp: record_ok_def entity_ok_def targets_set_entity split: canvas_record.splits)

lemma set_entity_ok:
  assumes "semantic_ok st" and "engineeringEntitySchema c = Some e" and "targets_exist st e"
  shows "semantic_ok (set_entity e st)"
proof -
  from schema_id [OF assms(2)] obtain i where i: "map_of e ''id'' = Some (JStr i)" by blast
  have eq: "set_entity e st = AList.update i (EntityRecord e) st" by (simp add: set_entity_def member_text_id [OF i])
  have "record_ok (set_entity e st) (i, EntityRecord e)"
    using schema_idempotent [OF assms(2)] targets_set_entity [OF assms(3)] i by (simp add: record_ok_def entity_ok_def)
  moreover from assms(1) have "\<forall>p\<in>set st. record_ok (set_entity e st) p"
    by (auto simp: semantic_ok_def list_all_iff intro: record_ok_set_entity)
  ultimately have "\<forall>p\<in>set (set_entity e st). record_ok (set_entity e st) p"
    unfolding eq by (rule ball_AList_update)
  moreover from assms(1) have "distinct (map fst (set_entity e st))" unfolding eq semantic_ok_def by (auto intro: js.keys_put)
  ultimately show ?thesis by (simp add: semantic_ok_def list_all_iff)
qed

section \<open>Relations only come from link_entities\<close>

lemma relations_of_generic:
  assumes "generic_value j" and "relations_parser j = Some v"
  shows "v = JArr []"
proof (cases j)
  case (JArr xs)
  with assms(1) have ids: "all_some (map entity_id xs) \<noteq> None"
    by (auto simp: generic_value_def scalar_map_def array_upto_def split: if_splits)
  have "xs = []"
  proof (rule ccontr)
    assume "xs \<noteq> []"
    then obtain x where x: "x \<in> set xs" by (cases xs) auto
    with ids have "entity_id x \<noteq> None" by (metis all_some_def image_eqI image_set)
    then have "strict_json relation_fields x = None" by (cases x) (simp_all add: entity_id_def keep_text_def strict_json_def)
    with x have "None \<in> set (map (strict_json relation_fields) xs)" by (force simp: image_iff)
    with assms(2) JArr show False by (simp add: relations_parser_def array_upto_def all_some_def split: if_splits)
  qed
  with assms(2) JArr show ?thesis by (auto simp: relations_parser_def array_upto_def all_some_def)
qed (use assms in \<open>simp_all add: relations_parser_def array_upto_def\<close>)

lemma relations_of_entity:
  assumes "entity_ok st k e"
  shows "map_of e ''relations'' = Some (JArr (relations_of e))" and "relations_parser (JArr (relations_of e)) = Some (JArr (relations_of e))"
proof -
  from assms have "engineeringEntitySchema e = Some e" by (simp add: entity_ok_def)
  from schema_relations [OF this] obtain v where v: "map_of e ''relations'' = Some v" "relations_parser v = Some v" by auto
  then obtain xs where "v = JArr xs" by (cases v) (simp_all add: relations_parser_def array_upto_def)
  with v show "map_of e ''relations'' = Some (JArr (relations_of e))" "relations_parser (JArr (relations_of e)) = Some (JArr (relations_of e))"
    by (simp_all add: relations_of_def)
qed

lemma parsed_relations:
  assumes "engineeringEntitySchema c = Some e" and "map_of c ''relations'' = Some j" and "relations_parser j = Some (JArr rs)"
  shows "relations_of e = rs"
  using schema_relations [OF assms(1)] assms(2,3) by (auto simp: relations_of_def)

lemma targets_of_generic:
  assumes "engineeringEntitySchema c = Some e" and "map_of c ''relations'' = Some j" and "generic_value j"
  shows "targets_exist st e"
proof -
  from schema_relations [OF assms(1)] assms(2) obtain v where "relations_parser j = Some v" by auto
  with relations_of_generic [OF assms(3)] parsed_relations [OF assms(1,2)] show ?thesis by (simp add: targets_exist_def)
qed

lemma create_keeps:
  assumes "semantic_ok st" and "applyCreateEntity bytes in_board who now a (st, n) = Inr (st', n')" and "plain_relations (ceFields a)"
  shows "semantic_ok st'"
proof -
  from assms(2) obtain e where e: "engineeringEntitySchema (created_candidate who now a) = Some e" "st' = set_entity e st"
    by (auto simp: applyCreateEntity_def Let_def res_simps parse_entity_def split: option.splits)
  have "targets_exist st e"
  proof (cases "fields_value (ceFields a) ''relations''")
    case None
    then have "map_of (created_candidate who now a) ''relations'' = Some (JArr [])" by (simp add: created_look created_base_look)
    moreover have "generic_value (JArr [])" by (simp add: generic_value_def array_upto_def all_some_def)
    ultimately show ?thesis by (rule targets_of_generic [OF e(1)])
  next
    case (Some j)
    then have "map_of (created_candidate who now a) ''relations'' = Some j" by (simp add: created_look)
    from targets_of_generic [OF e(1) this] assms(3) Some show ?thesis by (simp add: plain_relations_def)
  qed
  with set_entity_ok [OF assms(1) e(1)] e(2) show ?thesis by simp
qed

lemma findEntity_Inr [res_simps]: "findEntity st i = Inr e \<longleftrightarrow> map_of st i = Some (EntityRecord e)"
  by (auto simp: findEntity_def split: option.splits canvas_record.splits)

lemma parse_entity_Inr [res_simps]: "parse_entity c = Inr e \<longleftrightarrow> engineeringEntitySchema c = Some e"
  by (auto simp: parse_entity_def split: option.splits)

lemma update_keeps:
  assumes "semantic_ok st" and "applyUpdateEntity bytes in_board who now i p st = Inr st'" and "plain_relations (paFields p)"
  shows "semantic_ok st'"
proof -
  from assms(2) obtain old e where e: "map_of st i = Some (EntityRecord old)"
    "engineeringEntitySchema (updated_candidate who now p old) = Some e" "st' = set_entity e st"
    by (auto simp: applyUpdateEntity_def Let_def res_simps)
  have old: "entity_ok st i old" by (rule semantic_ok_look [OF assms(1) e(1)])
  have "targets_exist st e"
  proof (cases "fields_value (paFields p) ''relations''")
    case None
    then have "map_of (updated_candidate who now p old) ''relations'' = Some (JArr (relations_of old))"
      using relations_of_entity(1) [OF old] by (simp add: updated_look)
    from parsed_relations [OF e(2) this relations_of_entity(2) [OF old]] old show ?thesis
      by (simp add: entity_ok_def targets_exist_def)
  next
    case (Some j)
    then have "map_of (updated_candidate who now p old) ''relations'' = Some j" by (simp add: updated_look)
    from targets_of_generic [OF e(2) this] assms(3) Some show ?thesis by (simp add: plain_relations_def)
  qed
  with set_entity_ok [OF assms(1) e(2)] e(3) show ?thesis by simp
qed

lemma relation_target_kept:
  assumes "strict_json relation_fields r = Some v"
  shows "relation_text ''targetId'' v = relation_text ''targetId'' r"
proof -
  from assms obtain ms vs where m: "r = JObj ms" "v = JObj vs" "read_fields relation_fields ms = Some vs"
    by (cases r) (auto simp: strict_json_def dest: strict_object_reads)
  have "distinct (map fdName relation_fields)" "required ''targetId'' entity_id \<in> set relation_fields"
    by (simp_all add: relation_fields_def field_parts)
  from read_fields_value [OF m(3) this] show ?thesis
    by (cases "map_of ms ''targetId''")
      (auto simp: m relation_text_def field_parts entity_id_def keep_text_def split: json.splits if_splits)
qed

lemma parsed_targets:
  assumes "relations_parser (JArr rs) = Some (JArr rs')"
  shows "map (relation_text ''targetId'') rs' = map (relation_text ''targetId'') rs"
proof -
  from assms have "None \<notin> set (map (strict_json relation_fields) rs)" "rs' = map (the \<circ> strict_json relation_fields) rs"
    by (auto simp: relations_parser_def array_upto_def all_some_def split: if_splits)
  then show ?thesis by (auto simp: image_iff) (metis not_Some_eq option.sel relation_target_kept)
qed

lemma relations_kept:
  assumes "semantic_ok st" and "engineeringEntitySchema c = Some e" and "map_of c ''relations'' = Some (JArr rs)"
    and "\<forall>r\<in>set rs. is_entity_key st (relation_text ''targetId'' r)"
  shows "semantic_ok (set_entity e st)"
proof (rule set_entity_ok [OF assms(1,2)])
  from schema_relations [OF assms(2)] assms(3) obtain v where v: "relations_parser (JArr rs) = Some v" by auto
  then obtain rs' where rs': "v = JArr rs'" by (auto simp: relations_parser_def array_upto_def split: if_splits)
  have "list_all (is_entity_key st) (map (relation_text ''targetId'') rs)" using assms(4) by (simp add: list_all_iff)
  also have "map (relation_text ''targetId'') rs = map (relation_text ''targetId'') rs'"
    using parsed_targets v rs' by simp
  also have "rs' = relations_of e" using parsed_relations [OF assms(2,3)] v rs' by simp
  finally show "targets_exist st e" by (simp add: targets_exist_def list.pred_map comp_def)
qed

lemma relation_text_relation: "relation_text ''targetId'' (relation t target) = target"
  by (simp add: relation_text_def relation_def)

lemma link_keeps:
  assumes "semantic_ok st" and "applyLinkEntities who now i t target st = Inr st'"
  shows "semantic_ok st'"
proof -
  from assms(2) obtain old where old: "map_of st i = Some (EntityRecord old)" and target: "is_entity_key st target"
    and cases: "st' = st \<or> (\<exists>e. engineeringEntitySchema (with_relations who now (relations_of old @ [relation t target]) old) = Some e
      \<and> st' = set_entity e st)"
    by (auto simp: applyLinkEntities_def res_simps is_entity_key_def split: if_splits)
  have "\<forall>r\<in>set (relations_of old @ [relation t target]). is_entity_key st (relation_text ''targetId'' r)"
    using semantic_ok_look [OF assms(1) old] target by (auto simp: entity_ok_def targets_exist_def list_all_iff relation_text_relation)
  from relations_kept [OF assms(1) _ with_relations_look(1) this] cases assms(1) show ?thesis by auto
qed

lemma unlink_keeps:
  assumes "semantic_ok st" and "applyUnlinkEntities who now i t target st = Inr st'"
  shows "semantic_ok st'"
proof -
  from assms(2) obtain old e where e: "map_of st i = Some (EntityRecord old)" "st' = set_entity e st"
    "engineeringEntitySchema (with_relations who now (filter (\<lambda>r. \<not> is_relation t target r) (relations_of old)) old) = Some e"
    by (auto simp: applyUnlinkEntities_def res_simps)
  have "\<forall>r\<in>set (filter (\<lambda>r. \<not> is_relation t target r) (relations_of old)). is_entity_key st (relation_text ''targetId'' r)"
    using semantic_ok_look [OF assms(1) e(1)] by (auto simp: entity_ok_def targets_exist_def list_all_iff)
  from relations_kept [OF assms(1) e(3) with_relations_look(1) this] e(2) show ?thesis by simp
qed

lemma action_keeps:
  assumes "semantic_ok (fst s)" and "generic_action a" and "applySemanticAction bytes in_board who now a s = Inr s'"
  shows "semantic_ok (fst s')"
proof (cases a)
  case (CreateEntity c)
  with assms show ?thesis
    by (cases s; cases s') (auto simp: applySemanticAction_def intro: create_keeps generic_plain)
next
  case (UpdateEntity i p)
  with assms show ?thesis by (auto simp: applySemanticAction_def res_simps intro: update_keeps generic_plain)
next
  case (RecordExperimentResult i result status)
  with assms show ?thesis
    by (auto simp: applySemanticAction_def res_simps plain_relations_def fields_value_def elim!: update_keeps [rotated])
next
  case (UpdateStatus i status)
  with assms show ?thesis
    by (auto simp: applySemanticAction_def res_simps plain_relations_def fields_value_def empty_patch_def elim!: update_keeps [rotated])
qed (use assms in \<open>auto simp: applySemanticAction_def res_simps intro: link_keeps unlink_keeps\<close>)

lemma actions_keep:
  assumes "semantic_ok st" and "list_all generic_action actions" and "apply_semantic bytes in_board who now actions st = Inr s'"
  shows "semantic_ok (fst s')"
proof -
  have "semantic_ok (fst s) \<Longrightarrow> list_all generic_action as \<Longrightarrow> foldR (\<lambda>s a. applySemanticAction bytes in_board who now a s) s as = Inr s'
      \<Longrightarrow> semantic_ok (fst s')" for s as
    by (induction as arbitrary: s) (auto simp: res_simps intro: action_keeps)
  from this [of "(st, length (entities st))" actions] assms show ?thesis by (simp add: apply_semantic_def)
qed

text \<open>The schema of an action lets only generic fields through.\<close>

lemma read_action_generic:
  assumes "semanticActionSchema j = Some a"
  shows "generic_action a"
proof -
  from assms obtain ms tool fs vs where j: "semantic_fields tool = Some fs" "strict_object fs ms = Some vs" "read_action vs = Some a"
    by (auto simp: semanticActionSchema_def bind_eq_Some_conv split: json.splits option.splits)
  have "generic_opt (object_opt vs ''fields'')"
  proof (cases "object_opt vs ''fields''")
    case (Some os)
    then have os: "map_of vs ''fields'' = Some (JObj os)" by (auto simp: object_opt_def split: option.splits json.splits)
    have all: "\<forall>(t, gs)\<in>set action_fields. distinct (map fdName (required ''tool'' (exactly t) # gs)) \<and>
        (\<forall>f\<in>set gs. fdName f = ''fields'' \<longrightarrow> f = optional ''fields'' genericFields)"
      by (simp add: action_fields_def field_parts)
    from j(1) obtain gs where gs: "(tool, gs) \<in> set action_fields" "fs = required ''tool'' (exactly tool) # gs"
      by (auto simp: semantic_fields_def dest: map_of_SomeD)
    from os have "''fields'' \<in> fdName ` set fs"
      using read_fields_names [OF strict_object_reads [OF j(2)]] by (force dest: map_of_SomeD)
    with gs all have "optional ''fields'' genericFields \<in> set fs" "distinct (map fdName fs)"
      by (fastforce simp: required_def)+
    from read_fields_value [OF strict_object_reads [OF j(2)] this(2,1)] os Some show ?thesis
      by (auto simp: field_parts genericFields_def keep_if_def generic_opt_def split: option.splits if_splits)
  qed (simp add: generic_opt_def)
  with j(3) show ?thesis by (auto simp: read_action_def Let_def split: if_splits)
qed

section \<open>What an action writes\<close>

text \<open>The entity an action names, the id it writes (\<open>fields\<close> may carry another one), and whether it says so itself.\<close>

fun action_id :: "semantic_action \<Rightarrow> string" where
  "action_id (CreateEntity a) = ceId a"
| "action_id (UpdateEntity i p) = i"
| "action_id (LinkEntities i t target) = i"
| "action_id (UnlinkEntities i t target) = i"
| "action_id (RecordExperimentResult i result status) = i"
| "action_id (AttachEvidence i ev) = i"
| "action_id (UpdateStatus i status) = i"

fun action_fields_of :: "semantic_action \<Rightarrow> members option" where
  "action_fields_of (CreateEntity a) = ceFields a"
| "action_fields_of (UpdateEntity i p) = paFields p"
| "action_fields_of _ = None"

definition written_id :: "semantic_action \<Rightarrow> json" where
  "written_id a = (case fields_value (action_fields_of a) ''id'' of Some j \<Rightarrow> j | None \<Rightarrow> JStr (action_id a))"

text \<open>An action leaves the store alone or writes one validated entity, under the id it carries.\<close>

definition writes :: "semantic_action \<Rightarrow> store \<Rightarrow> store \<Rightarrow> bool" where
  "writes a st st' \<longleftrightarrow> st' = st \<or> (\<exists>e. engineeringEntitySchema e = Some e \<and> map_of e ''id'' = Some (written_id a) \<and> st' = set_entity e st)"

lemma writes_refl [simp]: "writes a st st"
  by (simp add: writes_def)

lemma writes_parsed:
  assumes "engineeringEntitySchema c = Some e" and "map_of c ''id'' = Some (written_id a)"
  shows "writes a st (set_entity e st)"
  using schema_id [OF assms(1)] schema_idempotent [OF assms(1)] assms(2) by (auto simp: writes_def)

lemma update_writes:
  assumes "semantic_ok st" and "applyUpdateEntity bytes in_board who now i p st = Inr st'" and "action_id a = i"
    and "fields_value (action_fields_of a) ''id'' = fields_value (paFields p) ''id''"
  shows "writes a st st'"
proof -
  from assms(2) obtain old e where e: "map_of st i = Some (EntityRecord old)"
    "engineeringEntitySchema (updated_candidate who now p old) = Some e" "st' = set_entity e st"
    by (auto simp: applyUpdateEntity_def Let_def res_simps)
  from semantic_ok_look [OF assms(1) e(1)] have "map_of old ''id'' = Some (JStr i)" by (simp add: entity_ok_def)
  then have "map_of (updated_candidate who now p old) ''id'' = Some (written_id a)"
    using assms(3,4) by (simp add: updated_look written_id_def split: option.splits)
  from writes_parsed [OF e(2) this] e(3) show ?thesis by simp
qed

lemma link_writes:
  assumes "semantic_ok st" and "applyLinkEntities who now i t target st = Inr st'" and "written_id a = JStr i"
  shows "writes a st st'"
  using assms semantic_ok_look [OF assms(1)] with_relations_look(2)
  by (auto simp: applyLinkEntities_def res_simps entity_ok_def split: if_splits intro!: writes_parsed)

lemma unlink_writes:
  assumes "semantic_ok st" and "applyUnlinkEntities who now i t target st = Inr st'" and "written_id a = JStr i"
  shows "writes a st st'"
  using assms semantic_ok_look [OF assms(1)] with_relations_look(2)
  by (auto simp: applyUnlinkEntities_def res_simps entity_ok_def intro!: writes_parsed)

lemma create_writes:
  assumes "applyCreateEntity bytes in_board who now a (st, n) = Inr (st', n')"
  shows "writes (CreateEntity a) st st'" and "n' = n + 1" and "n < 2000" and "map_of st (ceId a) = None"
proof -
  from assms obtain e where e: "engineeringEntitySchema (created_candidate who now a) = Some e" "st' = set_entity e st"
    "n' = n + 1" "n < max_entities_per_board" "map_of st (ceId a) = None"
    by (auto simp: applyCreateEntity_def Let_def res_simps)
  have "map_of (created_candidate who now a) ''id'' = Some (written_id (CreateEntity a))"
    by (simp add: created_look created_base_look written_id_def split: option.splits)
  from writes_parsed [OF e(1) this] e show "writes (CreateEntity a) st st'" "n' = n + 1" "n < 2000" "map_of st (ceId a) = None"
    by (simp_all add: max_entities_per_board_def)
qed

lemma action_writes:
  assumes "semantic_ok (fst s)" and "applySemanticAction bytes in_board who now a s = Inr s'"
  shows "writes a (fst s) (fst s')"
proof (cases a)
  case (CreateEntity c)
  with assms(2) show ?thesis by (cases s; cases s') (auto simp: applySemanticAction_def intro: create_writes(1))
next
  case (UpdateEntity i p)
  with assms show ?thesis by (auto simp: applySemanticAction_def res_simps intro: update_writes)
next
  case (RecordExperimentResult i result status)
  with assms show ?thesis
    by (auto simp: applySemanticAction_def res_simps fields_value_def elim!: update_writes [rotated])
next
  case (UpdateStatus i status)
  with assms show ?thesis
    by (auto simp: applySemanticAction_def res_simps fields_value_def empty_patch_def elim!: update_writes [rotated])
qed (use assms in \<open>auto simp: applySemanticAction_def res_simps written_id_def fields_value_def intro: link_writes unlink_writes\<close>)

lemma action_count:
  assumes "applySemanticAction bytes in_board who now a s = Inr s'"
  shows "(\<exists>c. a = CreateEntity c \<and> map_of (fst s) (ceId c) = None \<and> snd s < 2000 \<and> snd s' = snd s + 1) \<or>
    (is_entity_key (fst s) (action_id a) \<and> snd s' = snd s)"
proof (cases a)
  case (CreateEntity c)
  with assms show ?thesis by (cases s; cases s') (auto simp: applySemanticAction_def dest: create_writes)
qed (use assms in \<open>auto simp: applySemanticAction_def applyUpdateEntity_def applyLinkEntities_def applyUnlinkEntities_def Let_def
  res_simps is_entity_key_def split: if_splits\<close>)

lemma writes_entity:
  assumes "writes a st st'"
  shows "st' = st \<or> (\<exists>i e. is_entity_id i \<and> written_id a = JStr i \<and> engineeringEntitySchema e = Some e \<and>
    st' = AList.update i (EntityRecord e) st)"
proof -
  from assms consider "st' = st" | e where "engineeringEntitySchema e = Some e" "map_of e ''id'' = Some (written_id a)" "st' = set_entity e st"
    by (auto simp: writes_def)
  then show ?thesis
  proof cases
    case 2
    with schema_id [OF 2(1)] show ?thesis by (auto simp: set_entity_def member_text_id)
  qed simp
qed

lemma writes_other:
  assumes "writes a st st'"
  shows "JStr k \<noteq> written_id a \<Longrightarrow> map_of st' k = map_of st k" and "\<not> is_entity_id k \<Longrightarrow> map_of st' k = map_of st k"
    and "is_entity_key st k \<Longrightarrow> is_entity_key st' k"
  using writes_entity [OF assms] by (auto simp: js.look_put is_entity_key_def)

text \<open>The records an accepted list of actions leaves alone.\<close>

lemma foldR_writes:
  assumes "semantic_ok (fst s)" and "list_all generic_action as"
    and "foldR (\<lambda>s a. applySemanticAction bytes in_board who now a s) s as = Inr s'"
  shows "(\<not> is_entity_id k \<longrightarrow> map_of (fst s') k = map_of (fst s) k) \<and> (is_entity_key (fst s) k \<longrightarrow> is_entity_key (fst s') k) \<and>
    (JStr k \<notin> written_id ` set as \<longrightarrow> map_of (fst s') k = map_of (fst s) k)"
  using assms
proof (induction as arbitrary: s)
  case (Cons a as)
  from Cons.prems(3) obtain t where t: "applySemanticAction bytes in_board who now a s = Inr t"
    "foldR (\<lambda>s a. applySemanticAction bytes in_board who now a s) t as = Inr s'" by (auto simp: res_simps)
  have "semantic_ok (fst t)" using Cons.prems(1,2) t(1) by (auto intro: action_keeps)
  from Cons.IH [OF this _ t(2)] Cons.prems(2) writes_other [OF action_writes [OF Cons.prems(1) t(1)], of k] show ?case by auto
qed simp

section \<open>The number of entities\<close>

lemma entities_filter: "length (entities st) = length (filter (\<lambda>p. entity_of (snd p) \<noteq> None) st)"
  by (induction st) (auto simp: entities_def map_filter_simps split: option.splits)

lemma entities_update:
  assumes "distinct (map fst st)"
  shows "length (entities (AList.update i (EntityRecord e) st)) = length (entities st) + (if is_entity_key st i then 0 else 1)"
  using assms
proof (induction st)
  case (Cons p st)
  obtain k r where p: "p = (k, r)" by (cases p)
  show ?case
  proof (cases "k = i")
    case True
    with p show ?thesis by (cases r) (simp_all add: entities_filter is_entity_key_def)
  next
    case False
    with p Cons show ?thesis by (simp add: entities_filter is_entity_key_def)
  qed
qed (simp add: entities_filter is_entity_key_def)

definition names_itself :: "semantic_action \<Rightarrow> bool" where
  "names_itself a \<longleftrightarrow> fields_value (action_fields_of a) ''id'' = None"

lemma plain_count:
  assumes "semantic_ok (fst s)" and "names_itself a" and "applySemanticAction bytes in_board who now a s = Inr s'"
    and "length (entities (fst s)) \<le> snd s"
  shows "length (entities (fst s')) \<le> snd s'" and "snd s' \<le> max (snd s) 2000"
proof -
  have w: "written_id a = JStr (action_id a)" using assms(2) by (simp add: names_itself_def written_id_def)
  have dist: "distinct (map fst (fst s))" using assms(1) by (simp add: semantic_ok_def)
  from writes_entity [OF action_writes [OF assms(1,3)]] w
  have "fst s' = fst s \<or> (\<exists>e. fst s' = AList.update (action_id a) (EntityRecord e) (fst s))" by auto
  with action_count [OF assms(3)] entities_update [OF dist] assms(4) show "length (entities (fst s')) \<le> snd s'"
    by (auto split: if_splits)
  show "snd s' \<le> max (snd s) 2000" using action_count [OF assms(3)] by auto
qed

lemma plain_counts:
  assumes "semantic_ok (fst s)" and "list_all (\<lambda>a. generic_action a \<and> names_itself a) as"
    and "foldR (\<lambda>s a. applySemanticAction bytes in_board who now a s) s as = Inr s'" and "length (entities (fst s)) \<le> snd s"
  shows "length (entities (fst s')) \<le> snd s' \<and> snd s' \<le> max (snd s) 2000"
  using assms
proof (induction as arbitrary: s)
  case (Cons a as)
  from Cons.prems(3) obtain t where t: "applySemanticAction bytes in_board who now a s = Inr t"
    "foldR (\<lambda>s a. applySemanticAction bytes in_board who now a s) t as = Inr s'" by (auto simp: res_simps)
  have "semantic_ok (fst t)" using Cons.prems(1,2) t(1) by (auto intro: action_keeps)
  moreover from plain_count [OF Cons.prems(1) _ t(1) Cons.prems(4)] Cons.prems(2)
  have "length (entities (fst t)) \<le> snd t" "snd t \<le> max (snd s) 2000" by auto
  ultimately show ?case using Cons.IH [OF _ _ t(2)] Cons.prems(2) by auto
qed simp

lemma parsed_generic:
  assumes "all_some (map semanticActionSchema raws) = Some actions"
  shows "list_all generic_action actions"
proof -
  have "generic_action (the (semanticActionSchema j))" if "j \<in> set raws" "None \<notin> set (map semanticActionSchema raws)" for j
    using that by (cases "semanticActionSchema j") (auto simp: image_iff intro: read_action_generic)
  with assms show ?thesis by (auto simp: all_some_def list_all_iff split: if_splits)
qed

section \<open>A board\<close>

definition demo_actor :: actor where "demo_actor = \<lparr>acUserId = ''u1'', acName = ''Ada''\<rparr>"

definition demo_entity :: "string \<Rightarrow> string \<Rightarrow> members" where
  "demo_entity i name = [(''typeName'', JStr ''engineering_entity''), (''id'', JStr i), (''entityType'', JStr ''component''),
     (''title'', JStr name), (''status'', JStr ''active''), (''relations'', JArr []), (''createdBy'', JStr ''u0''),
     (''updatedBy'', JStr ''u0''), (''createdAt'', JNum 1), (''updatedAt'', JNum 1)]"

definition semantic_store :: store where
  "semantic_store = [(''page:p'', PageRecord ''a1'' ''Page''),
     (''engineering_entity:a'', EntityRecord (demo_entity ''engineering_entity:a'' ''Motor'')),
     (''engineering_entity:b'', EntityRecord (demo_entity ''engineering_entity:b'' ''Gearbox''))]"

definition demo_raws :: "json list" where
  "demo_raws = [JObj [(''tool'', JStr ''create_entity''), (''id'', JStr ''engineering_entity:r''), (''entityType'', JStr ''risk''),
       (''title'', JStr '' Stall ''), (''fields'', JObj [(''impact'', JStr ''high'')])],
     JObj [(''tool'', JStr ''link_entities''), (''id'', JStr ''engineering_entity:a''), (''relationType'', JStr ''connects_to''),
       (''targetId'', JStr ''engineering_entity:b'')]]"

definition demo_actions :: "semantic_action list" where
  "demo_actions = the (all_some (map semanticActionSchema demo_raws))"

definition semantic_after :: "store \<times> nat" where
  "semantic_after = projr (apply_semantic (\<lambda>_. 0) None demo_actor 5 demo_actions semantic_store)"

definition demo_takeover :: create_entity where
  "demo_takeover = \<lparr>ceId = ''engineering_entity:new'', ceType = ''task'', ceShape = None, ceTitle = ''Other'', ceStatus = None,
     ceFields = Some [(''id'', JStr ''engineering_entity:b'')], ceTable = None\<rparr>"

definition demo_taken :: "store \<times> nat" where
  "demo_taken = projr (applyCreateEntity (\<lambda>_. 0) None demo_actor 5 demo_takeover (semantic_store, 2))"

lemma demo_store_ok: "semantic_ok semantic_store"
  by code_simp

lemma demo_parses: "all_some (map semanticActionSchema demo_raws) = Some demo_actions" and demo_plain: "list_all names_itself demo_actions"
  by code_simp+

lemma demo_runs: "apply_semantic (\<lambda>_. 0) None demo_actor 5 demo_actions semantic_store = Inr (fst semantic_after, snd semantic_after)"
  by code_simp

lemma demo_changes: "length (entities (fst semantic_after)) = 3" and
  "map_option (map_option relations_of \<circ> entity_of) (map_of (fst semantic_after) ''engineering_entity:a'')
     = Some (Some [relation ''connects_to'' ''engineering_entity:b''])"
  by code_simp+

lemma demo_taken_runs:
  "applyCreateEntity (\<lambda>_. 0) None demo_actor 5 demo_takeover (semantic_store, 2) = Inr (fst demo_taken, snd demo_taken)"
  by code_simp

section \<open>Properties\<close>

text \<open>
  C35: A request whose actions on entities all succeed leaves a consistent board: every entity record is one that
  its schema accepts unchanged, is stored under its own id, and relates only to entities that exist. No entity
  disappears, and no record outside the entities' name space is touched.
\<close>

theorem semantic_actions_consistent:
  assumes "semantic_ok st" and "all_some (map semanticActionSchema raws) = Some actions"
    and "apply_semantic bytes in_board who now actions st = Inr (st', n)"
  shows "semantic_ok st' \<and> (\<forall>k. is_entity_key st k \<longrightarrow> is_entity_key st' k) \<and>
    (\<forall>k. \<not> is_entity_id k \<longrightarrow> map_of st' k = map_of st k)"
proof -
  have g: "list_all generic_action actions" using assms(2) by (rule parsed_generic)
  have f: "foldR (\<lambda>s a. applySemanticAction bytes in_board who now a s) (st, length (entities st)) actions = Inr (st', n)"
    using assms(3) by (simp add: apply_semantic_def)
  have "semantic_ok (fst (st', n))" by (rule actions_keep [OF assms(1) g assms(3)])
  moreover have "semantic_ok (fst (st, length (entities st)))" using assms(1) by simp
  ultimately show ?thesis using foldR_writes [OF _ g f] by auto
qed

theorem semantic_actions_consistent_witness:
  "semantic_ok (fst semantic_after) \<and> length (entities (fst semantic_after)) = 3"
  using semantic_actions_consistent [OF demo_store_ok demo_parses demo_runs] demo_changes(1) by simp

text \<open>
  C36: When no action carries an \<open>id\<close> among its free-form fields, a request writes only the entities its actions
  name, and it never takes a board past the limit of 2,000 entities.
\<close>

theorem entity_limit_kept:
  assumes "semantic_ok st" and "all_some (map semanticActionSchema raws) = Some actions" and "list_all names_itself actions"
    and "apply_semantic bytes in_board who now actions st = Inr (st', n)"
  shows "length (entities st') \<le> max (length (entities st)) 2000 \<and>
    (\<forall>k. k \<notin> action_id ` set actions \<longrightarrow> map_of st' k = map_of st k)"
proof -
  have g: "list_all generic_action actions" using assms(2) by (rule parsed_generic)
  have f: "foldR (\<lambda>s a. applySemanticAction bytes in_board who now a s) (st, length (entities st)) actions = Inr (st', n)"
    using assms(4) by (simp add: apply_semantic_def)
  have ok: "semantic_ok (fst (st, length (entities st)))" using assms(1) by simp
  have "length (entities (fst (st', n))) \<le> max (length (entities st)) 2000"
    using plain_counts [OF ok _ f] g assms(3) by (auto simp: list_all_iff)
  moreover have "map_of st' k = map_of st k" if "k \<notin> action_id ` set actions" for k
  proof -
    have "JStr k \<notin> written_id ` set actions"
      using that assms(3) by (auto simp: list_all_iff names_itself_def written_id_def)
    with foldR_writes [OF ok g f, of k] show ?thesis by simp
  qed
  ultimately show ?thesis by simp
qed

theorem entity_limit_kept_witness:
  "length (entities (fst semantic_after)) \<le> max 2 2000 \<and>
    map_of (fst semantic_after) ''engineering_entity:b'' = map_of semantic_store ''engineering_entity:b''"
proof -
  have "''engineering_entity:b'' \<notin> action_id ` set demo_actions" and "length (entities semantic_store) = 2" by code_simp+
  with entity_limit_kept [OF demo_store_ok demo_parses demo_plain demo_runs] show ?thesis by simp
qed

text \<open>
  C37: The free-form fields of \<^verbatim>\<open>create_entity\<close> are spread over the record last, so they decide the id it is
  stored under: an accepted creation whose fields carry an \<open>id\<close> does not create the entity it names but replaces
  whatever entity has that other id, although only the named id was checked to be free.
\<close>

theorem create_follows_fields_id:
  assumes "applyCreateEntity bytes in_board who now a (st, n) = Inr (st', n')"
    and "fields_value (ceFields a) ''id'' = Some (JStr victim)" and "victim \<noteq> ceId a"
  shows "map_of st (ceId a) = None \<and> map_of st' (ceId a) = None \<and>
    (\<exists>e. map_of st' victim = Some (EntityRecord e) \<and> map_of e ''id'' = Some (JStr victim)
      \<and> engineeringEntitySchema (created_candidate who now a) = Some e)"
proof -
  from assms(1) obtain e where e: "engineeringEntitySchema (created_candidate who now a) = Some e" "st' = set_entity e st"
    "map_of st (ceId a) = None"
    by (auto simp: applyCreateEntity_def Let_def res_simps)
  have "map_of (created_candidate who now a) ''id'' = Some (JStr victim)" by (simp add: created_look assms(2))
  with schema_id [OF e(1)] have i: "map_of e ''id'' = Some (JStr victim)" by auto
  with e assms(3) show ?thesis by (simp add: set_entity_def member_text_id js.look_put)
qed

theorem create_follows_fields_id_witness:
  "map_of (fst demo_taken) ''engineering_entity:new'' = None \<and>
    map_of (fst demo_taken) ''engineering_entity:b'' \<noteq> map_of semantic_store ''engineering_entity:b''"
proof -
  have fields: "fields_value (ceFields demo_takeover) ''id'' = Some (JStr ''engineering_entity:b'')" "''engineering_entity:b'' \<noteq> ceId demo_takeover"
    by code_simp+
  have "ceId demo_takeover = ''engineering_entity:new''" by (simp add: demo_takeover_def)
  moreover have "engineeringEntitySchema (created_candidate demo_actor 5 demo_takeover) \<noteq> None" by code_simp
  moreover have "map_of (fst demo_taken) ''engineering_entity:b'' \<noteq> map_of semantic_store ''engineering_entity:b''" by code_simp
  ultimately show ?thesis using create_follows_fields_id [OF demo_taken_runs fields] by simp
qed

section \<open>The compact context\<close>

lemma entity_ids:
  assumes "\<forall>p\<in>set st. \<forall>e. snd p = EntityRecord e \<longrightarrow> member_text e ''id'' = fst p" and "distinct (map fst st)"
  shows "distinct (map (\<lambda>e. member_text e ''id'') (entities st)) \<and> (\<lambda>e. member_text e ''id'') ` set (entities st) \<subseteq> fst ` set st"
  using assms
proof (induction st)
  case (Cons p st)
  obtain k r where p: "p = (k, r)" by (cases p)
  have ih: "distinct (map (\<lambda>e. member_text e ''id'') (entities st)) \<and> (\<lambda>e. member_text e ''id'') ` set (entities st) \<subseteq> fst ` set st"
    by (rule Cons.IH) (use Cons.prems in auto)
  show ?case
  proof (cases "entity_of r")
    case None
    then have "entities (p # st) = entities st" by (simp add: p entities_def map_filter_simps)
    with ih show ?thesis by auto
  next
    case (Some e)
    then have "r = EntityRecord e" by (cases r) simp_all
    with Cons.prems(1) p have "member_text e ''id'' = k" by simp
    moreover from Some have "entities (p # st) = e # entities st" by (simp add: p entities_def map_filter_simps)
    moreover have "k \<notin> fst ` set st" using Cons.prems(2) p by simp
    ultimately show ?thesis using ih p by auto
  qed
qed (simp add: entities_def map_filter_simps)

lemma distinct_entity_ids:
  assumes "semantic_ok st"
  shows "distinct (map (\<lambda>e. member_text e ''id'') (entities st))"
proof -
  have "\<forall>p\<in>set st. \<forall>e. snd p = EntityRecord e \<longrightarrow> member_text e ''id'' = fst p"
    using assms by (auto simp: semantic_ok_def list_all_iff record_ok_def entity_ok_def member_text_id)
  with entity_ids assms show ?thesis by (simp add: semantic_ok_def)
qed

definition one_hop :: "members list \<Rightarrow> string \<Rightarrow> edge set" where
  "one_hop es i = {g. \<exists>e\<in>set es. g \<in> edge_of e ` set (relations_of e) \<and> (egFrom g = i \<or> egTo g = i)}"

lemma find_by_id:
  assumes "distinct (map f es)"
  shows "find (\<lambda>e. f e = i) es = Some e \<longleftrightarrow> e \<in> set es \<and> f e = i"
  using assms by (induction es) auto

lemma edges_exact:
  assumes "distinct (map (\<lambda>e. member_text e ''id'') es)"
  shows "set (edges_around es i) = one_hop es i"
proof -
  have out: "set (case find (\<lambda>e. member_text e ''id'' = i) es of None \<Rightarrow> [] | Some e \<Rightarrow> map (edge_of e) (relations_of e))
      = {g. \<exists>e\<in>set es. g \<in> edge_of e ` set (relations_of e) \<and> member_text e ''id'' = i}"
  proof (cases "find (\<lambda>e. member_text e ''id'' = i) es")
    case None
    then have "\<forall>e\<in>set es. member_text e ''id'' \<noteq> i" by (simp add: find_None_iff)
    with None show ?thesis by auto
  next
    case (Some e)
    have only: "ea \<in> set es \<and> member_text ea ''id'' = i \<longleftrightarrow> ea = e" for ea
      unfolding find_by_id [OF assms, of i ea, symmetric] Some by auto
    from Some have "set (case find (\<lambda>e. member_text e ''id'' = i) es of None \<Rightarrow> [] | Some e \<Rightarrow> map (edge_of e) (relations_of e))
      = edge_of e ` set (relations_of e)" by simp
    also have "\<dots> = {g. \<exists>ea\<in>set es. g \<in> edge_of ea ` set (relations_of ea) \<and> member_text ea ''id'' = i}"
    proof -
      have "{g. \<exists>ea\<in>set es. g \<in> edge_of ea ` set (relations_of ea) \<and> member_text ea ''id'' = i}
        = {g. \<exists>ea. (ea \<in> set es \<and> member_text ea ''id'' = i) \<and> g \<in> edge_of ea ` set (relations_of ea)}" by fast
      also have "\<dots> = edge_of e ` set (relations_of e)" by (simp only: only simp_thms Collect_mem_eq)
      finally show ?thesis by (rule sym)
    qed
    finally show ?thesis .
  qed
  have one: "(g \<in> edge_of e ` set (relations_of e) \<and> member_text e ''id'' = i) \<or>
      (member_text e ''id'' \<noteq> i \<and> g \<in> edge_of e ` {r \<in> set (relations_of e). relation_text ''targetId'' r = i})
      \<longleftrightarrow> g \<in> edge_of e ` set (relations_of e) \<and> (egFrom g = i \<or> egTo g = i)" for g e
    by (auto simp: edge_of_def)
  have "g \<in> set (edges_around es i) \<longleftrightarrow> (\<exists>e\<in>set es. g \<in> edge_of e ` set (relations_of e) \<and> member_text e ''id'' = i) \<or>
      (\<exists>e\<in>set es. member_text e ''id'' \<noteq> i \<and> g \<in> edge_of e ` {r \<in> set (relations_of e). relation_text ''targetId'' r = i})" for g
    unfolding edges_around_def set_append out by (simp add: Bex_def conj_assoc)
  then show ?thesis unfolding one_hop_def set_eq_iff mem_Collect_eq bex_disj_distrib [symmetric] one by simp
qed

text \<open>What a request selects, as one predicate.\<close>

definition wanted :: "context_request \<Rightarrow> members \<Rightarrow> bool" where
  "wanted q e \<longleftrightarrow> (crArchived q \<or> member_text e ''status'' \<noteq> archived_status) \<and>
     (\<forall>names\<in>set_option (crTypes q). names = [] \<or> member_text e ''entityType'' \<in> set names) \<and>
     (\<forall>names\<in>set_option (crStatus q). names = [] \<or> member_text e ''status'' \<in> set names) \<and>
     (\<forall>names\<in>set_option (crIds q). names = [] \<or> member_text e ''id'' \<in> set names)"

lemma narrowed_filter: "narrowed c k es = filter (\<lambda>e. \<forall>names\<in>set_option c. names = [] \<or> member_text e k \<in> set names) es"
  by (auto simp: narrowed_def split: option.splits)

lemma selected_wanted: "selected_entities es q = filter (wanted q) es"
  by (auto simp: selected_entities_def narrowed_filter wanted_def conj_ac intro!: filter_cong)

text \<open>The entities at the other end of the relations of \<open>i\<close>, in store order.\<close>

definition one_hop_entities :: "members list \<Rightarrow> string \<Rightarrow> members list" where
  "one_hop_entities es i = filter (\<lambda>e. member_text e ''id'' \<noteq> i \<and>
     (\<exists>g\<in>one_hop es i. member_text e ''id'' = egFrom g \<or> member_text e ''id'' = egTo g)) es"

lemma neighbours_set: "k \<in> set (neighbours gs i) \<longleftrightarrow> k \<noteq> i \<and> (\<exists>g\<in>set gs. k = egFrom g \<or> k = egTo g)"
  by (auto simp: neighbours_def)

lemma referenced_exact:
  assumes "distinct (map (\<lambda>e. member_text e ''id'') es)"
  shows "filter (\<lambda>e. member_text e ''id'' \<in> set (neighbours (edges_around es i) i)) es = one_hop_entities es i"
  by (simp add: one_hop_entities_def neighbours_set edges_exact [OF assms])

text \<open>
  C38: A compact context that is answered holds exactly the entities the request asks for, in store order, and, when
  relations are asked for one entity, exactly the relations that leave or reach it, each from an entity of the board.
  These are never cut: a request for more than 200 entities, or for an entity with more than 400 relations, or whose
  answer is over 200,000 bytes, is not answered but refused. The summaries of the entities at the other ends are cut
  without a sign: they are the first 50 of them in store order.
\<close>

theorem semantic_context_exact:
  assumes "semantic_ok st" and "semanticContextRequestSchema raw = Some q" and "readRoomSemantics bytes st clock raw = Inr c"
  shows "scEntities c = filter (wanted q) (entities st) \<and>
    set (scEdges c) = (case crRelationsFor q of None \<Rightarrow> {} | Some i \<Rightarrow> one_hop (entities st) i) \<and>
    scReferenced c = (case crRelationsFor q of None \<Rightarrow> [] | Some i \<Rightarrow> take 50 (one_hop_entities (entities st) i)) \<and>
    length (scEntities c) \<le> 200 \<and> length (scEdges c) \<le> 400 \<and> bytes (context_json c) \<le> 200000"
proof -
  note limits = max_entities_def max_relationship_edges_def max_referenced_summaries_def max_context_bytes_def
  from assms(2,3) obtain gs refs where gs: "(case crRelationsFor q of None \<Rightarrow> Inr ([], [])
         | Some i \<Rightarrow> let gs = edges_around (entities st) i in
             bindR (guardR (length gs \<le> max_relationship_edges) (CanvasError 422)) (\<lambda>_.
             Inr (gs, take max_referenced_summaries (filter (\<lambda>e. member_text e ''id'' \<in> set (neighbours gs i)) (entities st))))) = Inr (gs, refs)"
    and c: "c = \<lparr>scClock = clock, scEntities = selected_entities (entities st) q, scEdges = gs, scReferenced = refs\<rparr>"
    and bounds: "length (selected_entities (entities st) q) \<le> 200" "bytes (context_json c) \<le> 200000"
    by (auto simp: readRoomSemantics_def Let_def res_simps limits)
  note ids = distinct_entity_ids [OF assms(1)]
  have "length gs \<le> 400 \<and>
    refs = (case crRelationsFor q of None \<Rightarrow> [] | Some i \<Rightarrow> take 50 (one_hop_entities (entities st) i)) \<and>
    set gs = (case crRelationsFor q of None \<Rightarrow> {} | Some i \<Rightarrow> one_hop (entities st) i)"
    using gs by (auto simp: Let_def res_simps limits referenced_exact [OF ids] edges_exact [OF ids] split: option.splits)
  with c bounds show ?thesis by (simp add: selected_wanted)
qed

definition demo_query :: json where
  "demo_query = JObj [(''relationsFor'', JStr ''engineering_entity:b''), (''entityTypes'', JArr [JStr ''component''])]"

definition semantic_request :: context_request where
  "semantic_request = the (semanticContextRequestSchema demo_query)"

theorem semantic_context_exact_witness:
  "is_Inr (readRoomSemantics (\<lambda>_. 0) (fst semantic_after) 7 demo_query) \<and>
    egFrom ` set (scEdges (projr (readRoomSemantics (\<lambda>_. 0) (fst semantic_after) 7 demo_query)))
      = egFrom ` one_hop (entities (fst semantic_after)) ''engineering_entity:b''"
proof -
  let ?c = "projr (readRoomSemantics (\<lambda>_. 0) (fst semantic_after) 7 demo_query)"
  have q: "semanticContextRequestSchema demo_query = Some semantic_request" and i: "crRelationsFor semantic_request = Some ''engineering_entity:b''"
    by code_simp+
  have few: "length (selected_entities (entities (fst semantic_after)) semantic_request) \<le> 10"
    "length (edges_around (entities (fst semantic_after)) ''engineering_entity:b'') \<le> 10"
    by code_simp+
  then have r: "is_Inr (readRoomSemantics (\<lambda>_. 0) (fst semantic_after) 7 demo_query)"
    by (simp add: readRoomSemantics_def q i Let_def max_entities_def max_relationship_edges_def is_Inr_def)
  have ok: "semantic_ok (fst semantic_after)" by code_simp
  from r have "readRoomSemantics (\<lambda>_. 0) (fst semantic_after) 7 demo_query = Inr ?c" by (auto elim: is_InrE)
  from semantic_context_exact [OF ok q this] i r show ?thesis by simp
qed

end
