(* ===== verification/CanvasClaims.thy ===== *)
theory CanvasClaims
  imports CanvasActions SemanticClaims
begin

text \<open>
  What a request of visual, semantic and layout actions keeps of a board: the records sit under their own ids, no
  binding dangles, the entities stay consistent (\<open>SemanticClaims\<close>), and the view of the page that the request carries
  along is exact at every step.
\<close>

section \<open>Consistent boards\<close>

definition is_shape_key :: "store \<Rightarrow> string \<Rightarrow> bool" where
  "is_shape_key st k = (case map_of st k of Some (ShapeRecord s) \<Rightarrow> True | _ \<Rightarrow> False)"

definition plain_record :: "store \<Rightarrow> string \<Rightarrow> canvas_record \<Rightarrow> bool" where
  "plain_record st k r = (case r of EntityRecord e \<Rightarrow> True
     | ShapeRecord s \<Rightarrow> srId s = k \<and> \<not> is_entity_id k
     | BindingRecord b \<Rightarrow> \<not> is_entity_id k \<and> is_shape_key st (brFrom b) \<and> is_shape_key st (brTo b)
     | _ \<Rightarrow> \<not> is_entity_id k)"

definition board_ok :: "store \<Rightarrow> bool" where
  "board_ok st \<longleftrightarrow> semantic_ok st \<and> list_all (\<lambda>(k, r). plain_record st k r) st"

definition entity_at :: "store \<Rightarrow> string \<Rightarrow> members option" where
  "entity_at st k = Option.bind (map_of st k) entity_of"

lemma entity_of_Some: "entity_of r = Some e \<longleftrightarrow> r = EntityRecord e"
  by (cases r) auto

lemma entity_at_Some: "entity_at st k = Some e \<longleftrightarrow> map_of st k = Some (EntityRecord e)"
  by (auto simp: entity_at_def bind_eq_Some_conv entity_of_Some)

lemma is_entity_key_at: "is_entity_key st k \<longleftrightarrow> entity_at st k \<noteq> None"
  by (auto simp: is_entity_key_def entity_at_def split: option.splits canvas_record.splits)

lemma semantic_ok_iff: "semantic_ok st \<longleftrightarrow> distinct (map fst st) \<and> (\<forall>k e. entity_at st k = Some e \<longrightarrow> entity_ok st k e)"
proof (cases "distinct (map fst st)")
  case True
  then have "list_all (record_ok st) st \<longleftrightarrow> (\<forall>k e. map_of st k = Some (EntityRecord e) \<longrightarrow> entity_ok st k e)"
    by (auto simp: list_all_iff record_ok_def dest: map_of_SomeD split: canvas_record.splits)
  with True show ?thesis by (simp add: semantic_ok_def entity_at_Some)
qed (simp add: semantic_ok_def)

lemma semantic_ok_cong:
  assumes "semantic_ok st" and "entity_at st' = entity_at st" and "distinct (map fst st')"
  shows "semantic_ok st'"
proof -
  have "targets_exist st' e = targets_exist st e" for e by (simp add: targets_exist_def is_entity_key_at assms(2))
  with assms show ?thesis by (simp add: semantic_ok_iff entity_ok_def)
qed

lemma board_store_iff:
  "board_ok st \<longleftrightarrow> semantic_ok st \<and> (\<forall>k r. map_of st k = Some r \<longrightarrow> plain_record st k r)"
proof (cases "distinct (map fst st)")
  case True
  then have "list_all (\<lambda>(k, r). plain_record st k r) st \<longleftrightarrow> (\<forall>k r. map_of st k = Some r \<longrightarrow> plain_record st k r)"
    by (auto simp: list_all_iff dest: map_of_SomeD)
  then show ?thesis by (simp add: board_ok_def)
qed (simp add: board_ok_def semantic_ok_def)

lemma plain_mono: "plain_record st k r \<Longrightarrow> (\<And>i. is_shape_key st i \<Longrightarrow> is_shape_key st' i) \<Longrightarrow> plain_record st' k r"
  by (auto simp: plain_record_def split: canvas_record.splits)

lemma board_ok_semantic: "board_ok st \<Longrightarrow> semantic_ok st" and board_ok_distinct: "board_ok st \<Longrightarrow> distinct (map fst st)"
  by (auto simp: board_ok_def semantic_ok_def)

lemma board_ok_look: "board_ok st \<Longrightarrow> map_of st k = Some r \<Longrightarrow> plain_record st k r"
  by (simp add: board_store_iff)

lemma shape_at: "board_ok st \<Longrightarrow> map_of st k = Some (ShapeRecord s) \<Longrightarrow> srId s = k \<and> \<not> is_entity_id k"
  by (drule (1) board_ok_look) (simp add: plain_record_def)

lemma entity_at_is_entity: "semantic_ok st \<Longrightarrow> entity_at st k = Some e \<Longrightarrow> is_entity_id k"
proof -
  assume "semantic_ok st" "entity_at st k = Some e"
  then have "map_of e ''id'' = Some (JStr k)" "engineeringEntitySchema e = Some e" by (simp_all add: semantic_ok_iff entity_ok_def)
  with schema_id [of e e] show "is_entity_id k" by auto
qed

lemma entity_at_update: "entity_at (AList.update k r st) = (entity_at st)(k := entity_of r)"
  by (auto simp: entity_at_def js.look_put)

lemma put_plain:
  assumes "board_ok st" and "\<not> is_entity_id k" and "entity_of r = None" and "plain_record (AList.update k r st) k r"
    and "is_shape_key st k \<Longrightarrow> is_shape_key (AList.update k r st) k"
  shows "board_ok (AList.update k r st)"
proof -
  have sem: "semantic_ok st" and dist: "distinct (map fst st)" using assms(1) by (auto intro: board_ok_semantic board_ok_distinct)
  from entity_at_is_entity [OF sem] assms(2) have "entity_at st k = None" by (cases "entity_at st k") auto
  then have "entity_at (AList.update k r st) = entity_at st" using assms(3) by (auto simp: entity_at_update)
  with sem dist have "semantic_ok (AList.update k r st)" by (auto intro: semantic_ok_cong js.keys_put)
  moreover have "plain_record (AList.update k r st) i x" if "map_of (AList.update k r st) i = Some x" for i x
  proof (cases "i = k")
    case True
    with that assms(4) show ?thesis by (simp add: js.look_put)
  next
    case False
    with that have "plain_record st i x" using board_ok_look [OF assms(1)] by (simp add: js.look_put)
    moreover have "is_shape_key (AList.update k r st) j" if "is_shape_key st j" for j
      using that assms(5) by (cases "j = k") (auto simp: is_shape_key_def js.look_put)
    ultimately show ?thesis by (rule plain_mono)
  qed
  ultimately show ?thesis by (simp add: board_store_iff)
qed

lemma put_shape_ok:
  assumes "board_ok st" and "\<not> is_entity_id (srId s)"
  shows "board_ok (AList.update (srId s) (ShapeRecord s) st)"
  using assms by (intro put_plain) (simp_all add: plain_record_def is_shape_key_def js.look_put)

lemma put_binding_ok:
  assumes "board_ok st" and "\<not> is_entity_id k" and "map_of st k = None" and "is_shape_key st (brFrom b)" and "is_shape_key st (brTo b)"
  shows "board_ok (AList.update k (BindingRecord b) st)"
proof -
  have "is_shape_key st i \<Longrightarrow> is_shape_key (AList.update k (BindingRecord b) st) i" for i
    using assms(3) by (cases "i = k") (auto simp: is_shape_key_def js.look_put)
  with assms show ?thesis by (intro put_plain) (auto simp: plain_record_def is_shape_key_def [of st])
qed

lemma set_entity_store_ok:
  assumes "board_ok st" and "semantic_ok (AList.update k (EntityRecord e) st)" and "is_entity_id k"
  shows "board_ok (AList.update k (EntityRecord e) st)"
proof -
  have "is_shape_key (AList.update k (EntityRecord e) st) j" if "is_shape_key st j" for j
    using that shape_at [OF assms(1), of j] assms(3) by (cases "j = k") (auto simp: is_shape_key_def js.look_put split: option.splits canvas_record.splits)
  then have "plain_record (AList.update k (EntityRecord e) st) i x" if "map_of (AList.update k (EntityRecord e) st) i = Some x" for i x
    using that board_ok_look [OF assms(1), of i x] by (cases "i = k") (auto simp: js.look_put plain_record_def [of _ _ "EntityRecord e"] intro: plain_mono)
  with assms(2) show ?thesis by (simp add: board_store_iff)
qed

lemma map_of_filter_keys: "distinct (map fst xs) \<Longrightarrow> map_of (filter (\<lambda>(k, r). P r) xs) k = (case map_of xs k of Some r \<Rightarrow> if P r then Some r else None | None \<Rightarrow> None)"
proof (induction xs)
  case (Cons p xs)
  show ?case
  proof (cases "fst p = k")
    case True
    with Cons.prems have "map_of xs k = None" by (simp add: map_of_eq_None_iff)
    with True Cons show ?thesis by (auto simp: case_prod_beta')
  next
    case False
    with Cons show ?thesis by (auto simp: case_prod_beta')
  qed
qed simp

lemma delete_ok:
  assumes "board_ok st" and "map_of st i = Some (ShapeRecord s)"
  shows "board_ok (filter (\<lambda>(k, rec). \<not> touches i rec) (AList.delete i st))"
    and "map_of (filter (\<lambda>(k, rec). \<not> touches i rec) (AList.delete i st)) k = Some (ShapeRecord t) \<longleftrightarrow>
      k \<noteq> i \<and> map_of st k = Some (ShapeRecord t)"
proof -
  let ?st = "filter (\<lambda>(k, rec). \<not> touches i rec) (AList.delete i st)"
  have dist: "distinct (map fst (AList.delete i st))" using board_ok_distinct [OF assms(1)] by (rule js.keys_del)
  have look: "map_of ?st k = (if k = i then None else case map_of st k of Some r \<Rightarrow> if touches i r then None else Some r | None \<Rightarrow> None)" for k
    by (simp add: map_of_filter_keys [OF dist] js.look_del split: option.splits)
  have "\<not> is_entity_id i" using shape_at [OF assms] by simp
  moreover have "entity_of r = None" if "touches i r" for r using that by (cases r) (simp_all add: touches_def)
  ultimately have "entity_at ?st = entity_at st"
    using assms(2) by (auto simp: fun_eq_iff entity_at_def look split: option.splits)
  moreover have "distinct (map fst ?st)" by (rule distinct_map_filter [OF dist])
  ultimately have "semantic_ok ?st" using board_ok_semantic [OF assms(1)] by (auto intro: semantic_ok_cong)
  moreover have shape: "map_of ?st k = Some (ShapeRecord t) \<longleftrightarrow> k \<noteq> i \<and> map_of st k = Some (ShapeRecord t)" for k t
  proof -
    have "\<not> touches i (ShapeRecord t)" by (simp add: touches_def)
    then show ?thesis by (auto simp: look split: option.splits if_splits)
  qed
  moreover have "plain_record ?st k r" if "map_of ?st k = Some r" for k r
  proof -
    from that have r: "map_of st k = Some r" "\<not> touches i r" by (auto simp: look split: option.splits if_splits)
    have "is_shape_key ?st j" if "is_shape_key st j" "j \<noteq> i" for j
    proof -
      from that(1) obtain t where "map_of st j = Some (ShapeRecord t)"
        by (auto simp: is_shape_key_def split: option.splits canvas_record.splits)
      with that(2) have "map_of ?st j = Some (ShapeRecord t)" by (simp only: shape simp_thms)
      then show ?thesis by (simp add: is_shape_key_def)
    qed
    with board_ok_look [OF assms(1) r(1)] r(2) show ?thesis
      by (cases r) (simp_all add: plain_record_def touches_def [of i "BindingRecord _"])
  qed
  ultimately show "board_ok ?st" "map_of ?st k = Some (ShapeRecord t) \<longleftrightarrow> k \<noteq> i \<and> map_of st k = Some (ShapeRecord t)"
    by (simp_all add: board_store_iff)
qed

section \<open>The run of a request\<close>

text \<open>\<open>current\<close> is exactly the shapes of the store whose parent is the page.\<close>

definition run_ok :: "string \<Rightarrow> run_state \<Rightarrow> bool" where
  "run_ok page r \<longleftrightarrow> board_ok (rsStore r) \<and>
     (\<forall>i s. map_of (rsCurrent r) i = Some s \<longleftrightarrow> map_of (rsStore r) i = Some (ShapeRecord s) \<and> srParent s = page)"

lemma run_ok_cong: "rsStore r' = rsStore r \<Longrightarrow> rsCurrent r' = rsCurrent r \<Longrightarrow> run_ok page r' = run_ok page r"
  by (simp add: run_ok_def)

lemma run_ok_mark [simp]: "run_ok page (mark_affected i r) = run_ok page r"
  by (simp add: mark_affected_def run_ok_def)

lemma put_shape_run:
  assumes "run_ok page r" and "\<not> is_entity_id (srId s)" and "srParent s = page"
  shows "run_ok page (put_shape s r)"
  using assms put_shape_ok [of "rsStore r" s] by (auto simp: run_ok_def put_shape_def js.look_put)

lemma shape_ref_not_entity: "is_shape_ref i \<Longrightarrow> \<not> is_entity_id i"
  by (cases i) (auto simp: is_shape_ref_def is_entity_id_def entity_prefix_def)

lemma binding_not_entity: "\<not> is_entity_id (binding_id arrow t)"
  by (simp add: is_entity_id_def entity_prefix_def binding_id_def)

lemma binding_not_arrow: "is_shape_ref i \<Longrightarrow> binding_id arrow t \<noteq> i"
  by (cases i) (auto simp: is_shape_ref_def binding_id_def)

lemma add_binding_Inr:
  "add_binding env st b = Inr st' \<longleftrightarrow> map_of st (fst b) = None \<and> cvValidBinding env (fst b) (snd b) \<and>
    st' = AList.update (fst b) (BindingRecord (snd b)) st"
  by (auto simp: add_binding_def res_simps)

lemma add_bindings_run:
  assumes "run_ok page r" and "\<forall>b\<in>set bs. \<not> is_entity_id (fst b) \<and> is_shape_key (rsStore r) (brFrom (snd b)) \<and> is_shape_key (rsStore r) (brTo (snd b))"
    and "foldR (add_binding env) (rsStore r) bs = Inr st"
  shows "run_ok page (r\<lparr>rsStore := st\<rparr>)"
  using assms
proof (induction bs arbitrary: r)
  case Nil
  then have "r\<lparr>rsStore := st\<rparr> = r" by simp
  with Nil show ?case by (simp only:)
next
  case (Cons b bs)
  from Cons.prems(3) have b: "map_of (rsStore r) (fst b) = None"
    "foldR (add_binding env) (AList.update (fst b) (BindingRecord (snd b)) (rsStore r)) bs = Inr st"
    by (auto simp: add_binding_Inr res_simps)
  let ?r = "r\<lparr>rsStore := AList.update (fst b) (BindingRecord (snd b)) (rsStore r)\<rparr>"
  from Cons.prems(1,2) have "board_ok (rsStore ?r)" using b(1) by (auto simp: run_ok_def intro: put_binding_ok)
  with Cons.prems(1) b(1) have ok: "run_ok page ?r" by (auto simp: run_ok_def js.look_put)
  have keep: "is_shape_key (rsStore r) j \<Longrightarrow> is_shape_key (rsStore ?r) j" for j
    using b(1) by (cases "j = fst b") (auto simp: is_shape_key_def js.look_put)
  have "run_ok page (?r\<lparr>rsStore := st\<rparr>)" by (rule Cons.IH [OF ok]) (use Cons.prems(2) keep b(2) in auto)
  then show ?case by simp
qed

lemma newShape_id:
  assumes "newShape env a page index current l = Inr s"
  shows "srId s = canvas_id a \<and> srParent s = page"
  using assms by (auto simp: newShape_def new_arrow_def new_record_def Let_def split: canvas_action.splits option.splits)

lemma newShape_connects:
  assumes "newShape env (ConnectShapes i f t) page index current l = Inr s"
  shows "map_of current f \<noteq> None \<and> map_of current t \<noteq> None"
  using assms by (auto simp: newShape_def split: option.splits)

lemma create_run:
  assumes "run_ok page r" and "is_shape_ref (canvas_id a)" and "create_step env page a r = Inr r'"
  shows "run_ok page r'"
proof -
  from assms(3) obtain s st index l where s: "newShape env a page index (rsCurrent r) l = Inr s"
    and new: "map_of (rsStore r) (canvas_id a) = None"
    and st: "foldR (add_binding env) (rsStore (put_shape s (r\<lparr>rsTop := Some index\<rparr>))) (bindings_for a) = Inr st"
    and r': "r' = (put_shape s (r\<lparr>rsTop := Some index\<rparr>))\<lparr>rsStore := st\<rparr>"
    by (auto simp: create_step_def Let_def res_simps)
  note i = newShape_id [OF s]
  let ?p = "put_shape s (r\<lparr>rsTop := Some index\<rparr>)"
  have "run_ok page (r\<lparr>rsTop := Some index\<rparr>)" using assms(1) by (simp add: run_ok_def)
  then have ok: "run_ok page ?p" using i shape_ref_not_entity [OF assms(2)] by (intro put_shape_run) simp_all
  have keys: "is_shape_key (rsStore r) j \<or> j = canvas_id a \<Longrightarrow> is_shape_key (rsStore ?p) j" for j
    using i by (auto simp: is_shape_key_def put_shape_def js.look_put)
  have "\<forall>b\<in>set (bindings_for a). \<not> is_entity_id (fst b) \<and> is_shape_key (rsStore ?p) (brFrom (snd b)) \<and> is_shape_key (rsStore ?p) (brTo (snd b))"
  proof (cases a)
    case (ConnectShapes j f t)
    with newShape_connects s have "map_of (rsCurrent r) f \<noteq> None" "map_of (rsCurrent r) t \<noteq> None" by blast+
    with assms(1) have "is_shape_key (rsStore r) f" "is_shape_key (rsStore r) t" by (auto simp: run_ok_def is_shape_key_def)
    with ConnectShapes keys show ?thesis by (simp add: bindings_for_def arrowBindings_def arrow_binding_def binding_not_entity)
  qed (simp_all add: bindings_for_def)
  from add_bindings_run [OF ok this st] r' show ?thesis by simp
qed

lemma current_shape:
  assumes "run_ok page r" and "map_of (rsCurrent r) i = Some s"
  shows "srId s = i" and "\<not> is_entity_id i" and "srParent s = page" and "map_of (rsStore r) i = Some (ShapeRecord s)"
  using assms shape_at [of "rsStore r" i s] by (auto simp: run_ok_def)

lemma rewrite_run:
  assumes "run_ok page r" and "\<not> is_entity_id (srId s)" and "srParent s = page" and "rewrite_step env s r = Inr r'"
  shows "run_ok page r'"
  using assms by (auto simp: rewrite_step_def res_simps intro: put_shape_run)

lemma delete_run:
  assumes "run_ok page r" and "map_of (rsCurrent r) i = Some s"
  shows "run_ok page (delete_step i r)"
proof -
  note c = current_shape [OF assms]
  have "board_ok (rsStore r)" using assms(1) by (simp add: run_ok_def)
  note d = delete_ok [OF this c(4)]
  show ?thesis using assms(1) d by (auto simp: run_ok_def delete_step_def js.look_del)
qed

lemma change_run:
  assumes "run_ok page r" and "change_step env a r = Inr r'"
  shows "run_ok page r'"
proof -
  from assms(2) obtain s where s: "map_of (rsCurrent r) (canvas_id a) = Some s" by (auto simp: change_step_def split: option.splits)
  note c = current_shape [OF assms(1) s]
  show ?thesis
  proof (cases a)
    case (DeleteShape i)
    with assms s c(1) delete_run [OF assms(1) s] show ?thesis by (simp add: change_step_def)
  qed (use assms s c in \<open>auto simp: change_step_def res_simps elim!: rewrite_run [rotated 3]\<close>)
qed

lemma visual_run:
  assumes "run_ok page r" and "is_shape_ref (canvas_id a)" and "visual_step env page a r = Inr r'"
  shows "run_ok page r'"
  using assms by (auto simp: visual_step_def split: if_splits intro: create_run change_run)

lemma semantic_run:
  assumes "run_ok page r" and "generic_action a" and "semantic_step env a r = Inr r'"
  shows "run_ok page r'"
proof -
  from assms(3) obtain st count where st: "applySemanticAction (cvBytes env) (cvInBoard env) (cvActor env) (cvNow env) a (rsStore r, rsCount r) = Inr (st, count)"
    and r': "r' = r\<lparr>rsStore := st, rsCount := count\<rparr>" by (auto simp: semantic_step_def res_simps)
  have ok: "board_ok (rsStore r)" using assms(1) by (simp add: run_ok_def)
  have sem: "semantic_ok (fst (rsStore r, rsCount r))" using board_ok_semantic [OF ok] by simp
  from action_keeps [OF sem assms(2) st] have sem': "semantic_ok st" by simp
  from writes_entity [OF action_writes [OF sem st]] consider "st = rsStore r"
    | i e where "is_entity_id i" "st = AList.update i (EntityRecord e) (rsStore r)" by auto
  then show ?thesis
  proof cases
    case 1
    with r' assms(1) show ?thesis by (simp add: run_ok_def)
  next
    case 2
    from set_entity_store_ok [OF ok _ 2(1)] sem' 2(2) have "board_ok st" by simp
    moreover have "map_of (rsStore r) i \<noteq> Some (ShapeRecord s)" for s using shape_at [OF ok, of i s] 2(1) by auto
    ultimately show ?thesis using assms(1) by (auto simp: run_ok_def r' 2(2) js.look_put)
  qed
qed

lemma translate_keeps: "srId (translateShape s m l) = srId s" "srParent (translateShape s m l) = srParent s"
  by (simp_all add: translateShape_def Let_def)

lemma move_run:
  assumes "run_ok page (fst s)" and "apply_move env l page s m = Inr s'"
  shows "run_ok page (fst s')"
proof (cases "small_move m")
  case False
  with assms(2) obtain old where old: "map_of (rsStore (fst s)) (mvId m) = Some (ShapeRecord old)"
    by (auto simp: apply_move_def split: option.splits canvas_record.splits)
  let ?u = "translateShape old m l"
  from old False assms(2) have s': "fst s' = mark_affected (srId ?u) ((fst s)\<lparr>rsStore := AList.update (srId ?u) (ShapeRecord ?u) (rsStore (fst s)),
      rsCurrent := (if srParent ?u = page then AList.update (srId ?u) ?u (rsCurrent (fst s)) else rsCurrent (fst s))\<rparr>)"
    by (auto simp: apply_move_def Let_def res_simps)
  have ok: "board_ok (rsStore (fst s))" using assms(1) by (simp add: run_ok_def)
  note at = shape_at [OF ok old]
  have "board_ok (AList.update (srId ?u) (ShapeRecord ?u) (rsStore (fst s)))"
    using at by (intro put_shape_ok [OF ok]) (simp add: translate_keeps)
  moreover have "map_of (rsCurrent (fst s)) (mvId m) = Some x \<longleftrightarrow> x = old \<and> srParent old = page" for x
    using assms(1) old by (auto simp: run_ok_def)
  ultimately show ?thesis using assms(1) at unfolding s' run_ok_mark
    by (auto simp: run_ok_def js.look_put translate_keeps)
qed (use assms in \<open>simp add: apply_move_def\<close>)

lemma moves_run:
  assumes "run_ok page (fst s)" and "foldR (apply_move env l page) s ms = Inr s'"
  shows "run_ok page (fst s')"
  using assms by (induction ms arbitrary: s) (auto simp: res_simps intro: move_run)

lemma region_keeps:
  assumes "region_step l n w h near dir g r = Inr x"
  shows "rsStore x = rsStore r \<and> rsCurrent x = rsCurrent r"
proof -
  from assms obtain nearby where "x = r\<lparr>rsResults := rsResults x\<rparr>"
    unfolding region_step_def Let_def bindR_eq_Inr by (elim exE conjE) auto
  then show ?thesis by (metis run_state.select_convs(1,2) run_state.surjective run_state.update_convs(7))
qed

lemma layout_run:
  assumes "run_ok page r" and "layout_step env page n a r = Inr r'"
  shows "run_ok page r'"
proof -
  have region: "run_ok page r'" if "from_layout (region_step l n w h near dir g r) = Inr r'" for l w h near dir g
  proof -
    from that have "region_step l n w h near dir g r = Inr r'"
      by (cases "region_step l n w h near dir g r" rule: from_layout.cases) auto
    from region_keeps [OF this] assms(1) run_ok_cong show ?thesis by blast
  qed
  have moved: "run_ok page (x\<lparr>rsTouched := ts, rsResults := rs\<rparr>)" if "applyMoves env l page ms r = Inr (x, mv)" for l ms x mv ts rs
  proof -
    from that have "run_ok page x" using moves_run [of page "(r, [])" env l ms "(x, mv)"] assms(1) by (simp add: applyMoves_def)
    then show ?thesis by (simp add: run_ok_def)
  qed
  show ?thesis
  proof (cases a)
    case (FindFreeRegion w h near dir g)
    with assms(2) show ?thesis by (auto simp: layout_step_def Let_def intro: region)
  qed (use assms(2) in \<open>auto simp: layout_step_def Let_def bindR_eq_Inr intro: moved\<close>)
qed

lemma mem_map_filter: "y \<in> set (List.map_filter f xs) \<longleftrightarrow> (\<exists>x\<in>set xs. f x = Some y)"
  by (induction xs) (auto simp: map_filter_simps split: option.splits)

lemma reroute_run:
  assumes "run_ok page r" and "reroute_step env page r = Inr r'"
  shows "board_ok (rsStore r')"
proof -
  have ok: "board_ok (rsStore r)" using assms(1) by (simp add: run_ok_def)
  have save: "board_ok st'" if "board_ok st" "\<forall>s\<in>set ss. \<not> is_entity_id (srId s)" "foldR (save_arrow env) st ss = Inr st'" for st st' ss
    using that by (induction ss arbitrary: st) (auto simp: save_arrow_def res_simps intro: put_shape_ok)
  have ids: "\<not> is_entity_id (srId u)"
    if "u \<in> set (map (rerouted_record env) (rerouteManagedArrows l (map (\<lambda>s. (srId s, s)) (shapes (rsStore r))) A))" for u l A
  proof -
    from that obtain x s where "reroute_one l (map (\<lambda>s. (srId s, s)) (shapes (rsStore r))) A s = Some x" "u = rerouted_record env x"
      by (auto simp: rerouteManagedArrows_def mem_map_filter)
    then obtain old where "map_of (map (\<lambda>s. (srId s, s)) (shapes (rsStore r))) (slId s) = Some old" "srId u = srId old"
      by (auto simp: reroute_one_def rerouted_record_def Let_def split: option.splits prod.splits if_splits)
    then have "old \<in> set (shapes (rsStore r))" by (auto dest: map_of_SomeD)
    then obtain k where "(k, ShapeRecord old) \<in> set (rsStore r)"
      by (auto simp: shapes_def mem_map_filter split: canvas_record.splits)
    then have "map_of (rsStore r) k = Some (ShapeRecord old)" using board_ok_distinct [OF ok] by simp
    with shape_at [OF ok this] \<open>srId u = srId old\<close> show ?thesis by simp
  qed
  show ?thesis
  proof (cases "rsAffected r = []")
    case False
    with assms(2) obtain st where st: "foldR (save_arrow env) (rsStore r) (map (rerouted_record env)
        (rerouteManagedArrows (layoutOf env (rsStore r) page) (map (\<lambda>s. (srId s, s)) (shapes (rsStore r))) (rsAffected r))) = Inr st"
      "rsStore r' = st" by (auto simp: reroute_step_def Let_def res_simps)
    show ?thesis unfolding st(2) by (rule save [OF ok _ st(1)]) (use ids in blast)
  qed (use assms(2) ok in \<open>simp add: reroute_step_def\<close>)
qed

section \<open>The actions of an accepted request\<close>

fun action_ok :: "board_action \<Rightarrow> bool" where
  "action_ok (Visual a) = is_shape_ref (canvas_id a)"
| "action_ok (Semantic a) = generic_action a"
| "action_ok (Layout a) = True"

lemma canvas_id_ok:
  assumes "canvasActionSchema j = Some a"
  shows "is_shape_ref (canvas_id a)"
proof -
  from assms obtain ms tool fs vs where j: "map_of canvas_fields tool = Some fs"
    "strict_object (required ''tool'' (exactly tool) # fs) ms = Some vs" "read_canvas vs = Some a"
    by (auto simp: canvasActionSchema_def tool_union_def bind_eq_Some_conv split: json.splits option.splits)
  have "\<forall>(t, gs)\<in>set canvas_fields. distinct (map fdName (required ''tool'' (exactly t) # gs)) \<and> required ''id'' shape_ref \<in> set gs"
    by (simp add: canvas_fields_def field_parts)
  with map_of_SomeD [OF j(1)] have fs: "distinct (map fdName (required ''tool'' (exactly tool) # fs))"
    "required ''id'' shape_ref \<in> set (required ''tool'' (exactly tool) # fs)" by auto
  from read_fields_value [OF strict_object_reads [OF j(2)] fs] have "\<exists>v w. map_of vs ''id'' = Some v \<and> shape_ref w = Some v"
    by (cases "map_of ms ''id''"; cases "map_of vs ''id''") (auto simp: required_def)
  then obtain v w where "map_of vs ''id'' = Some v" "shape_ref w = Some v" by blast
  then have "is_shape_ref (member_text vs ''id'')"
    by (auto simp: member_text_def shape_ref_def keep_text_def split: json.splits if_splits)
  moreover from j(3) have "canvas_id a = member_text vs ''id''" by (auto simp: read_canvas_def Let_def split: if_splits)
  ultimately show ?thesis by simp
qed

lemma combined_ok: "combinedActionSchema j = Some a \<Longrightarrow> action_ok a"
  by (auto simp: combinedActionSchema_def intro: canvas_id_ok read_action_generic split: option.splits)

lemma all_some_all:
  assumes "all_some (map f xs) = Some ys" and "\<And>x y. f x = Some y \<Longrightarrow> P y"
  shows "list_all P ys"
proof -
  have "P (the (f x))" if "x \<in> set xs" "None \<notin> set (map f xs)" for x
    using that assms(2) [of x] by (cases "f x") (auto simp: image_iff)
  with assms(1) show ?thesis by (auto simp: all_some_def list_all_iff split: if_splits)
qed

lemma request_actions_ok:
  assumes "actionRequestSchema raw = Some q"
  shows "list_all action_ok (aqActions q)"
proof -
  from assms obtain raw' ms as where "raw = JObj raw'" "map_of ms ''actions'' = Some as" "map_option (\<lambda>actions.
       \<lparr>aqPage = text_opt ms ''pageId'', aqClock = Option.bind (map_of ms ''expectedClock'') safe_int, aqActions = actions\<rparr>)
       (combinedActionsSchema as) = Some q"
    unfolding actionRequestSchema_def by (cases raw) (auto simp: bind_eq_Some_conv split: option.splits)
  then have "combinedActionsSchema as = Some (aqActions q)" by auto
  then obtain xs where "all_some (map combinedActionSchema xs) = Some (aqActions q)"
    by (cases as) (auto simp: combinedActionsSchema_def split: if_splits)
  then show ?thesis by (rule all_some_all) (rule combined_ok)
qed

lemma board_run:
  assumes "run_ok page r" and "action_ok (snd pa)" and "board_step env page r pa = Inr r'"
  shows "run_ok page r'"
  using assms by (cases "snd pa") (auto simp: board_step_def intro: visual_run semantic_run layout_run)

lemma boards_run:
  assumes "run_ok page r" and "\<forall>pa\<in>set pas. action_ok (snd pa)" and "foldR (board_step env page) r pas = Inr r'"
  shows "run_ok page r'"
  using assms by (induction pas arbitrary: r) (auto simp: res_simps intro: board_run)

lemma shapes_at:
  assumes "board_ok st"
  shows "s \<in> set (shapes st) \<longleftrightarrow> map_of st (srId s) = Some (ShapeRecord s)"
proof -
  have "s \<in> set (shapes st) \<longleftrightarrow> (\<exists>k. (k, ShapeRecord s) \<in> set st)"
    by (force simp: shapes_def mem_map_filter split: canvas_record.splits)
  also have "\<dots> \<longleftrightarrow> (\<exists>k. map_of st k = Some (ShapeRecord s))" using board_ok_distinct [OF assms] by simp
  finally show ?thesis using shape_at [OF assms] by auto
qed

lemma distinct_shape_ids:
  assumes "\<forall>(k, r)\<in>set st. \<forall>s. r = ShapeRecord s \<longrightarrow> srId s = k" and "distinct (map fst st)"
  shows "distinct (map srId (shapes st)) \<and> srId ` set (shapes st) \<subseteq> fst ` set st"
  using assms
proof (induction st)
  case (Cons p st)
  obtain k r where p: "p = (k, r)" by (cases p)
  have ih: "distinct (map srId (shapes st)) \<and> srId ` set (shapes st) \<subseteq> fst ` set st" by (rule Cons.IH) (use Cons.prems in auto)
  show ?case
  proof (cases r)
    case (ShapeRecord s)
    with Cons.prems p have "srId s = k" "k \<notin> fst ` set st" by auto
    moreover have "shapes (p # st) = s # shapes st" by (simp add: p ShapeRecord shapes_def map_filter_simps)
    ultimately show ?thesis using ih p by auto
  qed (use ih p in \<open>auto simp: shapes_def map_filter_simps\<close>)
qed (simp add: shapes_def map_filter_simps)

lemma start_run_ok:
  assumes "board_ok st"
  shows "run_ok page (start_run st page)"
proof -
  let ?mine = "filter (\<lambda>s. srParent s = page) (shapes st)"
  have "\<forall>(k, r)\<in>set st. \<forall>s. r = ShapeRecord s \<longrightarrow> srId s = k"
    using assms by (auto simp: board_ok_def list_all_iff plain_record_def)
  then have "distinct (map srId (shapes st))" using distinct_shape_ids board_ok_distinct [OF assms] by blast
  then have dist: "distinct (map fst (map (\<lambda>s. (srId s, s)) ?mine))" by (simp add: comp_def distinct_map_filter)
  have "map_of (map (\<lambda>s. (srId s, s)) ?mine) i = Some s \<longleftrightarrow> s \<in> set ?mine \<and> srId s = i" for i s
    by (subst map_of_eq_Some_iff [OF dist]) auto
  then have "map_of (rsCurrent (start_run st page)) i = Some s \<longleftrightarrow> map_of st i = Some (ShapeRecord s) \<and> srParent s = page" for i s
    using shape_at [OF assms, of i s] by (auto simp: start_run_def Let_def map_of_entries_look [OF dist] shapes_at [OF assms])
  with assms show ?thesis by (simp add: run_ok_def start_run_def Let_def)
qed

section \<open>A board\<close>

definition demo_canvas_env :: canvas_env where
  "demo_canvas_env = \<lparr>cvNumtext = (\<lambda>_. []), cvToNum = (\<lambda>_. 0), cvRichText = JStr, cvIndexAbove = (\<lambda>_. ''a3''),
     cvValidShape = (\<lambda>_. True), cvValidBinding = (\<lambda>_ _. True), cvCollate = (\<lambda>s. s), cvMeasurements = [], cvBytes = (\<lambda>_. 0),
     cvInBoard = None, cvActor = demo_actor, cvNow = 5\<rparr>"

definition demo_shape :: "string \<Rightarrow> string \<Rightarrow> string \<Rightarrow> shape_record" where
  "demo_shape i type parent = \<lparr>srId = i, srType = type, srX = 0, srY = 0, srRotation = 0, srIndex = ''a1'', srParent = parent,
     srProps = [(''w'', JNum 100), (''h'', JNum 100)], srMeta = None, srLocked = False\<rparr>"

definition demo_board :: store where
  "demo_board = [(''page:p'', PageRecord ''a1'' ''Page''), (''shape:frame'', ShapeRecord (demo_shape ''shape:frame'' ''frame'' ''page:p'')),
     (''shape:child'', ShapeRecord (demo_shape ''shape:child'' ''geo'' ''shape:frame'')),
     (''shape:arrow'', ShapeRecord (demo_shape ''shape:arrow'' ''arrow'' ''page:p'')),
     (''binding:b'', BindingRecord \<lparr>brType = Some ''arrow'', brFrom = ''shape:arrow'', brTo = ''shape:frame'', brProps = []\<rparr>)]"

definition demo_edit :: json where
  "demo_edit = JObj [(''expectedClock'', JNum 4), (''actions'', JArr [
     JObj [(''tool'', JStr ''create_shape''), (''id'', JStr ''shape:new''), (''type'', JStr ''ellipse''), (''text'', JStr ''Pump''),
       (''x'', JNum 10), (''y'', JNum 20), (''width'', JNum 200), (''height'', JNum 100)],
     JObj [(''tool'', JStr ''delete_shape''), (''id'', JStr ''shape:frame'')]])]"

definition demo_edits :: "board_action list" where
  "demo_edits = [Visual (CreateShape ''shape:new'' ''ellipse'' ''Pump'' 10 20 200 100), Visual (DeleteShape ''shape:frame'')]"

lemma demo_board_ok: "board_ok demo_board"
  by code_simp

lemma demo_edit_parses: "actionRequestSchema demo_edit = Some \<lparr>aqPage = None, aqClock = Some 4, aqActions = demo_edits\<rparr>"
  by code_simp

lemma demo_page: "selectedPage demo_canvas_env demo_board None = Inr ''page:p''"
  by (simp add: selectedPage_def canvas_pages_def demo_board_def map_filter_simps)

lemma demo_start: "start_run demo_board ''page:p'' = \<lparr>rsStore = demo_board,
    rsCurrent = [(''shape:frame'', demo_shape ''shape:frame'' ''frame'' ''page:p''), (''shape:arrow'', demo_shape ''shape:arrow'' ''arrow'' ''page:p'')],
    rsTop = Some ''a1'', rsCount = 0, rsAffected = [], rsTouched = [], rsResults = []\<rparr>"
  by (simp add: start_run_def shapes_def entities_def demo_board_def demo_shape_def map_filter_simps Let_def map_of_entries_def last_index_def)

lemma demo_env [simp]: "cvValidShape demo_canvas_env s" "cvValidBinding demo_canvas_env k b" "cvIndexAbove demo_canvas_env t = ''a3''"
  by (simp_all add: demo_canvas_env_def)

definition demo_new :: shape_record where
  "demo_new = new_record (CreateShape ''shape:new'' ''ellipse'' ''Pump'' 10 20 200 100) ''geo'' ''page:p'' ''a3'' 10 20
     (geo_props demo_canvas_env ''ellipse'' ''Pump'' 200 100)"

definition demo_created :: run_state where
  "demo_created = put_shape demo_new ((start_run demo_board ''page:p'')\<lparr>rsTop := Some ''a3''\<rparr>)"

lemma start_store [simp]: "rsStore (start_run st page) = st"
  by (simp add: start_run_def Let_def)

lemma demo_free: "map_of demo_board ''shape:new'' = None"
  by (simp add: demo_board_def)

lemma demo_create: "board_step demo_canvas_env ''page:p'' (start_run demo_board ''page:p'') (0, demo_edits ! 0) = Inr demo_created"
  by (simp add: board_step_def demo_edits_def visual_step_def create_step_def newShape_def bindings_for_def demo_free demo_created_def
      demo_new_def Let_def put_shape_def)

lemma demo_delete: "board_step demo_canvas_env ''page:p'' demo_created (Suc 0, demo_edits ! Suc 0) = Inr (delete_step ''shape:frame'' demo_created)"
  by (simp add: board_step_def demo_edits_def visual_step_def change_step_def demo_start demo_created_def put_shape_def demo_new_def
      new_record_def demo_shape_def)

lemma demo_edits_list: "List.enumerate 0 demo_edits = [(0, demo_edits ! 0), (Suc 0, demo_edits ! Suc 0)]" "length demo_edits = 2"
  by (simp_all add: demo_edits_def)

lemma demo_unmoved: "rsAffected (delete_step i demo_created) = []"
  by (simp add: delete_step_def demo_created_def demo_start put_shape_def)

lemma demo_edit_run: "run_actions demo_canvas_env ''page:p'' demo_edits (start_run demo_board ''page:p'')
    = Inr (delete_step ''shape:frame'' demo_created)"
  by (simp add: run_actions_def demo_edits_list demo_create demo_delete reroute_step_def demo_unmoved)

definition demo_edited :: store where
  "demo_edited = rsStore (delete_step ''shape:frame'' demo_created)"

lemma demo_edit_applied: "applyRoomActions demo_canvas_env demo_board 4 demo_edit = Inr (demo_edited,
    \<lparr>aoPage = ''page:p'', aoApplied = 2, aoLayout = summarise demo_canvas_env ''page:p'' (delete_step ''shape:frame'' demo_created)\<rparr>)"
  by (simp add: applyRoomActions_def demo_edit_parses demo_page demo_edit_run demo_edits_list demo_edited_def)

lemma demo_edited_keys: "map fst demo_edited = [''page:p'', ''shape:child'', ''shape:arrow'', ''shape:new'']"
  by (simp add: demo_edited_def delete_step_def demo_created_def put_shape_def demo_new_def new_record_def demo_board_def touches_def)

section \<open>Properties\<close>

text \<open>
  C39: A request of visual, semantic and layout actions that is accepted leaves a consistent board, whatever the
  validators, rich text and indices of tldraw are: every shape under its own id, no binding to or from a missing
  shape, every entity valid and without dangling relations. An expected clock that is not the clock of the board is refused.
\<close>

theorem board_actions_consistent:
  assumes "board_ok st" and "applyRoomActions env st clock raw = Inr (st', reply)"
  shows "board_ok st' \<and>
    (\<forall>k b. map_of st' k = Some (BindingRecord b) \<longrightarrow> is_shape_key st' (brFrom b) \<and> is_shape_key st' (brTo b)) \<and>
    (\<exists>q. actionRequestSchema raw = Some q \<and> aoApplied reply = length (aqActions q) \<and> (aqClock q = None \<or> aqClock q = Some clock))"
proof -
  from assms(2) obtain q page r where q: "actionRequestSchema raw = Some q" "case aqClock q of None \<Rightarrow> True | Some c \<Rightarrow> clock = c"
    and run: "run_actions env page (aqActions q) (start_run st page) = Inr r" "st' = rsStore r" "aoApplied reply = length (aqActions q)"
    by (auto simp: applyRoomActions_def res_simps split: option.splits)
  from run(1) obtain m where m: "foldR (board_step env page) (start_run st page) (List.enumerate 0 (aqActions q)) = Inr m"
    "reroute_step env page m = Inr r" by (auto simp: run_actions_def res_simps)
  have "\<forall>pa\<in>set (List.enumerate 0 (aqActions q)). action_ok (snd pa)"
    using request_actions_ok [OF q(1)] by (auto simp: list_all_iff in_set_enumerate_eq)
  then have "run_ok page m" by (rule boards_run [OF start_run_ok [OF assms(1)] _ m(1)])
  then have ok: "board_ok st'" unfolding run(2) by (rule reroute_run [OF _ m(2)])
  moreover have "is_shape_key st' (brFrom b) \<and> is_shape_key st' (brTo b)" if "map_of st' k = Some (BindingRecord b)" for k b
    using board_ok_look [OF ok that] by (simp add: plain_record_def)
  ultimately show ?thesis using q run(3) by (auto split: option.splits)
qed

theorem board_actions_consistent_witness:
  "board_ok demo_edited \<and> map fst demo_edited = [''page:p'', ''shape:child'', ''shape:arrow'', ''shape:new'']"
  using board_actions_consistent [OF demo_board_ok demo_edit_applied] demo_edited_keys by simp

text \<open>
  C40: Deleting a shape removes it and every binding at it and nothing else: a shape whose parent it was (a child of a
  frame or group) stays in the store, with a parent that no longer exists.
\<close>

theorem delete_exact:
  assumes "board_ok (rsStore r)" and "map_of (rsCurrent r) i = Some s" and "map_of (rsStore r) i = Some (ShapeRecord s)"
    and "change_step env (DeleteShape i) r = Inr r'"
  shows "map_of (rsStore r') i = None \<and>
    (\<forall>k rec. map_of (rsStore r') k = Some rec \<longleftrightarrow> k \<noteq> i \<and> map_of (rsStore r) k = Some rec \<and> \<not> touches i rec) \<and>
    (\<forall>k child. map_of (rsStore r) k = Some (ShapeRecord child) \<and> srParent child = i \<and> k \<noteq> i \<longrightarrow>
      map_of (rsStore r') k = Some (ShapeRecord child))"
proof -
  have "srId s = i" using shape_at [OF assms(1,3)] by simp
  then have r': "rsStore r' = filter (\<lambda>(k, rec). \<not> touches i rec) (AList.delete i (rsStore r))"
    using assms(2,4) by (auto simp: change_step_def delete_step_def)
  have dist: "distinct (map fst (AList.delete i (rsStore r)))" using board_ok_distinct [OF assms(1)] by (rule js.keys_del)
  have look: "map_of (rsStore r') k = Some rec \<longleftrightarrow> k \<noteq> i \<and> map_of (rsStore r) k = Some rec \<and> \<not> touches i rec" for k rec
    unfolding r' by (auto simp: map_of_filter_keys [OF dist] js.look_del split: option.splits)
  moreover have "map_of (rsStore r') i = None" using look [of i] by (cases "map_of (rsStore r') i") auto
  moreover have "\<not> touches i (ShapeRecord child)" for child by (simp add: touches_def)
  ultimately show ?thesis by auto
qed

theorem delete_exact_witness:
  "map_of (rsStore (delete_step ''shape:frame'' (start_run demo_board ''page:p''))) ''shape:frame'' = None \<and>
    map_of (rsStore (delete_step ''shape:frame'' (start_run demo_board ''page:p''))) ''shape:child''
      = Some (ShapeRecord (demo_shape ''shape:child'' ''geo'' ''shape:frame''))"
proof -
  let ?r = "start_run demo_board ''page:p''" and ?s = "demo_shape ''shape:frame'' ''frame'' ''page:p''"
  have "board_ok (rsStore ?r)" using demo_board_ok by (simp add: demo_start)
  moreover have "map_of (rsCurrent ?r) ''shape:frame'' = Some ?s" by (simp add: demo_start)
  moreover have "map_of (rsStore ?r) ''shape:frame'' = Some (ShapeRecord ?s)" by (simp add: demo_board_def)
  moreover have "change_step demo_canvas_env (DeleteShape ''shape:frame'') ?r = Inr (delete_step ''shape:frame'' ?r)"
    by (simp add: change_step_def demo_start demo_shape_def)
  ultimately have "map_of (rsStore (delete_step ''shape:frame'' ?r)) ''shape:frame'' = None \<and>
    (\<forall>k child. map_of (rsStore ?r) k = Some (ShapeRecord child) \<and> srParent child = ''shape:frame'' \<and> k \<noteq> ''shape:frame'' \<longrightarrow>
      map_of (rsStore (delete_step ''shape:frame'' ?r)) k = Some (ShapeRecord child))"
    using delete_exact by blast
  moreover have "map_of (rsStore ?r) ''shape:child'' = Some (ShapeRecord (demo_shape ''shape:child'' ''geo'' ''shape:frame''))"
    by (simp add: demo_board_def)
  moreover have "srParent (demo_shape ''shape:child'' ''geo'' ''shape:frame'') = ''shape:frame''" by (simp add: demo_shape_def)
  ultimately show ?thesis by simp
qed

end
