(* ===== verification/AgentForm.thy ===== *)
theory AgentForm
  imports AgentAccess
begin

text \<open>
  The browser side of agent management: \<open>client/agents/agents-model.ts\<close>, and the request bodies of
  \<open>client/agents/agents-api.ts\<close>. The local time zone is a parameter: what \<open>new Date(y, m, d, 23, 59, 59, 0)\<close> is, and
  the local date of an instant. \<open>Intl.DateTimeFormat\<close> is a parameter too. Labels and summaries shown to people are left out.
\<close>

section \<open>Access levels\<close>

record access_level =
  alValue :: string
  alPermissions :: "string list"
  alDangerous :: bool

definition ACCESS_LEVELS :: "access_level list" where
  "ACCESS_LEVELS = [
     \<lparr>alValue = ''read'', alPermissions = [''read''], alDangerous = False\<rparr>,
     \<lparr>alValue = ''read-write'', alPermissions = [''read'', ''write''], alDangerous = False\<rparr>,
     \<lparr>alValue = ''read-history'', alPermissions = [''read'', ''history''], alDangerous = False\<rparr>,
     \<lparr>alValue = ''read-write-history'', alPermissions = [''read'', ''write'', ''history''], alDangerous = False\<rparr>,
     \<lparr>alValue = ''full'', alPermissions = [''read'', ''write'', ''history'', ''restore''], alDangerous = True\<rparr>,
     \<lparr>alValue = ''write'', alPermissions = [''write''], alDangerous = False\<rparr>]"

definition level_of :: "string \<Rightarrow> access_level option" where
  "level_of access = find (\<lambda>l. alValue l = access) ACCESS_LEVELS"

definition isDangerous :: "string \<Rightarrow> bool" where
  "isDangerous access \<longleftrightarrow> (case level_of access of Some l \<Rightarrow> alDangerous l | None \<Rightarrow> False)"

definition creator_default_access :: string where "creator_default_access = ''read-write-history''"

section \<open>Expiry\<close>

datatype expiry_choice = Never | In7Days | In30Days | In90Days | In365Days | CustomDate

definition default_expiry :: expiry_choice where "default_expiry = In90Days"

definition form_day_ms :: int where "form_day_ms = 86400000"

fun choice_days :: "expiry_choice \<Rightarrow> int" where
  "choice_days In7Days = 7"
| "choice_days In30Days = 30"
| "choice_days In90Days = 90"
| "choice_days In365Days = 365"
| "choice_days _ = 0"

record zone =
  znMake :: "int \<Rightarrow> int \<Rightarrow> int \<Rightarrow> int"
  znRead :: "int \<Rightarrow> int \<times> int \<times> int"

definition date_form :: "string \<Rightarrow> bool" where
  "date_form s \<longleftrightarrow> length s = 10 \<and> list_all is_digit (text_slice 0 4 s) \<and> text_slice 4 1 s = ''-'' \<and>
     list_all is_digit (text_slice 5 2 s) \<and> text_slice 7 1 s = ''-'' \<and> list_all is_digit (text_slice 8 2 s)"

text \<open>The instant a choice stands for; a refusal is the message shown.\<close>

definition expiry_instant :: "zone \<Rightarrow> expiry_choice \<Rightarrow> string \<Rightarrow> int \<Rightarrow> string + int option" where
  "expiry_instant zn choice custom now = (case choice of
     Never \<Rightarrow> Inr None
   | CustomDate \<Rightarrow>
       (let y = number_value (text_slice 0 4 custom); m = number_value (text_slice 5 2 custom); d = number_value (text_slice 8 2 custom);
            t = znMake zn y m d
        in bindR (guardR (date_form custom) ''Choose the date the access should end.'') (\<lambda>_.
           bindR (guardR (znRead zn t = (y, m, d)) ''That is not a real calendar date.'') (\<lambda>_.
           bindR (guardR (now < t) ''Choose a date in the future.'') (\<lambda>_. Inr (Some t)))))
   | _ \<Rightarrow> Inr (Some (now + choice_days choice * form_day_ms)))"

definition expiresAtFor :: "zone \<Rightarrow> expiry_choice \<Rightarrow> string \<Rightarrow> int \<Rightarrow> string + string option" where
  "expiresAtFor zn choice custom now = bindR (expiry_instant zn choice custom now) (\<lambda>t. Inr (map_option toISOString t))"

section \<open>The create form\<close>

record create_form =
  cfCreator :: bool
  cfDisplayName :: string
  cfAccess :: string
  cfExpiry :: expiry_choice
  cfCustomDate :: string
  cfRestoreAcknowledged :: bool

definition INITIAL_CREATE_FORM :: create_form where
  "INITIAL_CREATE_FORM = \<lparr>cfCreator = False, cfDisplayName = [], cfAccess = ''read'', cfExpiry = default_expiry, cfCustomDate = [],
     cfRestoreAcknowledged = False\<rparr>"

definition chooseAccess :: "create_form \<Rightarrow> string \<Rightarrow> create_form" where
  "chooseAccess form access = form\<lparr>cfAccess := access, cfRestoreAcknowledged := False\<rparr>"

definition chooseCreator :: "create_form \<Rightarrow> bool \<Rightarrow> create_form" where
  "chooseCreator form creator = form\<lparr>cfCreator := creator,
     cfAccess := (if creator then creator_default_access else cfAccess INITIAL_CREATE_FORM), cfRestoreAcknowledged := False\<rparr>"

record create_input =
  ciDisplayName :: string
  ciAccess :: string
  ciExpiresAt :: "string option"
  ciCreator :: bool

definition validateCreate :: "zone \<Rightarrow> create_form \<Rightarrow> int \<Rightarrow> string + create_input" where
  "validateCreate zn form now = (let name = js_trim (cfDisplayName form) in
     bindR (guardR (1 \<le> length name) ''Give the agent a name you will recognise.'') (\<lambda>_.
     bindR (guardR (length name \<le> 80) ''Keep the name to 80 characters or fewer.'') (\<lambda>_.
     bindR (guardR (\<not> has_control name) ''The name cannot contain control characters.'') (\<lambda>_.
     bindR (guardR (\<not> isDangerous (cfAccess form) \<or> cfRestoreAcknowledged form) ''Confirm that you understand what restore access allows.'') (\<lambda>_.
     bindR (expiresAtFor zn (cfExpiry form) (cfCustomDate form) now) (\<lambda>e.
     Inr \<lparr>ciDisplayName = name, ciAccess = cfAccess form, ciExpiresAt = e, ciCreator = cfCreator form\<rparr>))))))"

text \<open>\<open>createAgent\<close> and \<open>createBoardCreator\<close>: the body of the request.\<close>

definition input_members :: "create_input \<Rightarrow> (string \<times> json) list" where
  "input_members inp = [(''displayName'', JStr (ciDisplayName inp)), (''access'', JStr (ciAccess inp))] @
     (case ciExpiresAt inp of None \<Rightarrow> [] | Some e \<Rightarrow> [(''expiresAt'', JStr e)])"

definition create_body :: "string \<Rightarrow> create_input \<Rightarrow> json" where
  "create_body board inp = JObj ((if ciCreator inp then (''kind'', JStr ''board-creator'') else (''boardId'', JStr board)) # input_members inp)"

section \<open>Rotation and presentation\<close>

definition rotationNeedsExpiry :: "expiry_status \<Rightarrow> bool" where
  "rotationNeedsExpiry s \<longleftrightarrow> s = ExpExpired \<or> s = ExpInvalid"

datatype rotate_choice = KeepExpiry | NewExpiry expiry_choice

definition rotateExpiry :: "zone \<Rightarrow> rotate_choice \<Rightarrow> string \<Rightarrow> int \<Rightarrow> string + string option" where
  "rotateExpiry zn choice custom now = (case choice of KeepExpiry \<Rightarrow> Inr None | NewExpiry c \<Rightarrow> expiresAtFor zn c custom now)"

definition rotate_body :: "string option \<Rightarrow> json" where
  "rotate_body e = JObj (case e of None \<Rightarrow> [] | Some s \<Rightarrow> [(''expiresAt'', JStr s)])"

definition agentTitle :: "string option \<Rightarrow> string \<Rightarrow> string" where
  "agentTitle displayName name = (case displayName of Some d \<Rightarrow> if js_trim d \<noteq> [] then d else name | None \<Rightarrow> name)"

datatype tone = Neutral | Fine | Warn | Bad

text \<open>\<open>shown\<close> is \<open>formatDate\<close>; \<open>Date.parse\<close> of the text the server sends is \<open>parseTimestamp\<close>.\<close>

definition describeStatus :: "(string option \<Rightarrow> string) \<Rightarrow> expiry_status \<Rightarrow> string option \<Rightarrow> int \<Rightarrow> tone \<times> string" where
  "describeStatus shown status expiresAt now = (case status of
     ExpNone \<Rightarrow> (Neutral, ''No expiry'')
   | ExpActive \<Rightarrow> (if (case Option.bind expiresAt parseTimestamp of Some t \<Rightarrow> t - now < 7 * form_day_ms | None \<Rightarrow> False) then Warn else Fine,
       js_trim (''Expires '' @ shown expiresAt))
   | ExpExpired \<Rightarrow> (Bad, js_trim (''Expired '' @ shown expiresAt))
   | ExpInvalid \<Rightarrow> (Bad, ''Expiry unreadable: rotate to set a new one''))"

datatype client_error = ApiFault nat string | OtherError string | NoError

definition friendlyError :: "client_error \<Rightarrow> string \<Rightarrow> string" where
  "friendlyError e fallback = (case e of
     NoError \<Rightarrow> fallback
   | OtherError m \<Rightarrow> if m \<noteq> [] then m else fallback
   | ApiFault status m \<Rightarrow>
       if status = 401 then ''Your session has ended. Sign in again to continue.''
       else if status = 429 then ''Too many requests. Wait a few minutes and try again.''
       else if status = 404 then ''That whiteboard or agent no longer exists. The list has been refreshed.''
       else if status \<in> {403, 409, 422, 503} then (if m \<noteq> [] then m else fallback)
       else fallback)"

section \<open>The one-time token\<close>

record revealed_token =
  rtRotated :: bool
  rtTitle :: string
  rtBoard :: "string option"
  rtToken :: string

datatype token_action = Reveal revealed_token | Dismiss | PageHide

fun tokenReducer :: "revealed_token option \<Rightarrow> token_action \<Rightarrow> revealed_token option" where
  "tokenReducer state (Reveal r) = Some r"
| "tokenReducer state Dismiss = None"
| "tokenReducer state PageHide = None"

section \<open>What the form sends is what the server takes\<close>

lemma levels_agree: "\<forall>l\<in>set ACCESS_LEVELS. mode_permissions (alValue l) = alPermissions l \<and> isAccessMode (alValue l) \<and>
    (alDangerous l \<longleftrightarrow> ''restore'' \<in> set (alPermissions l))"
  by code_simp

lemma level_of_mem: "level_of a = Some l \<Longrightarrow> l \<in> set ACCESS_LEVELS \<and> alValue l = a"
  by (auto simp: level_of_def find_Some_iff)

lemma level_of_find: "l \<in> set ACCESS_LEVELS \<Longrightarrow> level_of (alValue l) \<noteq> None"
  by (auto simp: level_of_def find_None_iff)

lemma iso_length: "four_digit_year t \<Longrightarrow> length (toISOString t) = 24"
  by (auto simp: four_digit_year_def toISOString_def Let_def split: prod.splits)

lemma js_trim_trimmed: "js_trim (js_trim s) = js_trim s"
proof -
  have idem: "dropWhile P (dropWhile P xs) = dropWhile P xs" for P :: "char \<Rightarrow> bool" and xs by (induction xs) auto
  have ends: "dropWhile P (rev (dropWhile P (rev (dropWhile P xs)))) = rev (dropWhile P (rev (dropWhile P xs)))"
    for P :: "char \<Rightarrow> bool" and xs
  proof (cases "dropWhile P xs")
    case (Cons c cs)
    then have "\<not> P c" by (metis hd_dropWhile list.distinct(1) list.sel(1))
    moreover have "dropWhile P (ys @ [c]) = dropWhile P ys @ [c]" if "\<not> P c" for ys using that by (induction ys) auto
    ultimately show ?thesis using Cons by simp
  qed (simp only: rev.simps dropWhile.simps)
  show ?thesis by (simp add: js_trim_def ends idem)
qed

lemma sent_body:
  assumes "ciDisplayName inp = js_trim n" and "1 \<le> length (js_trim n)" and "length (js_trim n) \<le> 80" and "isAccessMode (ciAccess inp)"
    and "\<And>e. ciExpiresAt inp = Some e \<Longrightarrow> length e \<le> 40" and "isValidRoomId board"
  shows "(if ciCreator inp then createCreatorSchema (create_body board inp) else createAgentSchema (create_body board inp))
    = Some \<lparr>abBoard = (if ciCreator inp then None else Some board), abDisplayName = ciDisplayName inp, abAccess = ciAccess inp,
        abExpiresAt = ciExpiresAt inp\<rparr>"
proof -
  let ?b = "create_body board inp"
  have members: "jmember ?b ''displayName'' = Some (JStr (ciDisplayName inp))" "jmember ?b ''access'' = Some (JStr (ciAccess inp))"
    "jmember ?b ''expiresAt'' = map_option JStr (ciExpiresAt inp)"
    "jmember ?b ''kind'' = (if ciCreator inp then Some (JStr ''board-creator'') else None)"
    "jmember ?b ''boardId'' = (if ciCreator inp then None else Some (JStr board))"
    by (simp_all add: create_body_def input_members_def split: option.splits)
  have only: "only_members [if ciCreator inp then ''kind'' else ''boardId'', ''displayName'', ''access'', ''expiresAt''] ?b"
    by (simp add: only_members_def create_body_def input_members_def split: option.splits)
  have "parse_display ?b = Some (ciDisplayName inp)" "parse_access ?b = Some (ciAccess inp)" "parse_expires ?b = Some (ciExpiresAt inp)"
    using assms by (simp_all add: parse_display_def parse_access_def parse_expires_def members js_trim_trimmed Let_def split: option.splits)
  with only assms(6) show ?thesis
    by (cases "ciCreator inp") (simp_all add: createCreatorSchema_def createAgentSchema_def members)
qed

text \<open>
  What the create form accepts, the server takes: the request it sends passes the server's schema and the checks of
  the token store on its name and its expiry, unchanged, for as long as that expiry has not passed; the permissions
  shown for the chosen level are those the server grants; and restore is never sent without the owner's
  acknowledgement of it.
\<close>

theorem form_accepted_by_server:
  assumes "validateCreate zn form now = Inr inp" and "cfAccess form \<in> alValue ` set ACCESS_LEVELS" and "isValidRoomId board"
    and "expiry_instant zn (cfExpiry form) (cfCustomDate form) now = Inr t"
    and "\<forall>x\<in>set_option t. four_digit_year x \<and> later < x"
  shows "\<exists>b l. (if cfCreator form then createCreatorSchema (create_body board inp) else createAgentSchema (create_body board inp)) = Some b \<and>
    abBoard b = (if cfCreator form then None else Some board) \<and> abAccess b = cfAccess form \<and>
    abDisplayName b = js_trim (cfDisplayName form) \<and>
    normaliseDisplayName (Some (JStr (abDisplayName b))) = (Inr (Some (abDisplayName b)) :: 'e terror + string option) \<and>
    normaliseExpiry (case abExpiresAt b of None \<Rightarrow> NoExpiry | Some s \<Rightarrow> ExpiryValue (JStr s)) later
      = (Inr (map_option toISOString t) :: 'e terror + string option) \<and>
    level_of (cfAccess form) = Some l \<and> mode_permissions (abAccess b) = alPermissions l \<and>
    (''restore'' \<in> set (alPermissions l) \<longrightarrow> cfRestoreAcknowledged form)"
proof -
  define name where "name = js_trim (cfDisplayName form)"
  from assms(1,4) have len: "1 \<le> length name" "length name \<le> 80" "\<not> has_control name"
    and ack: "isDangerous (cfAccess form) \<Longrightarrow> cfRestoreAcknowledged form"
    and inp: "inp = \<lparr>ciDisplayName = name, ciAccess = cfAccess form, ciExpiresAt = map_option toISOString t, ciCreator = cfCreator form\<rparr>"
    by (auto simp: validateCreate_def Let_def res_simps expiresAtFor_def name_def)
  from assms(2) obtain l where l: "level_of (cfAccess form) = Some l" using level_of_find by fastforce
  with level_of_mem have mem: "l \<in> set ACCESS_LEVELS" "alValue l = cfAccess form" by blast+
  with levels_agree have level: "mode_permissions (cfAccess form) = alPermissions l" "isAccessMode (cfAccess form)"
    "alDangerous l \<longleftrightarrow> ''restore'' \<in> set (alPermissions l)" by auto
  let ?b = "\<lparr>abBoard = (if cfCreator form then None else Some board), abDisplayName = name, abAccess = cfAccess form,
    abExpiresAt = map_option toISOString t\<rparr>"
  have "length e \<le> 40" if "ciExpiresAt inp = Some e" for e
    using that assms(5) iso_length by (auto simp: inp)
  then have "(if cfCreator form then createCreatorSchema (create_body board inp) else createAgentSchema (create_body board inp)) = Some ?b"
    using sent_body [of inp "cfDisplayName form" board] len level(2) assms(3) by (simp add: inp name_def)
  moreover have "normaliseDisplayName (Some (JStr name)) = (Inr (Some name) :: 'e terror + string option)"
    using len by (cases "name = []") (simp_all add: normaliseDisplayName_def Let_def name_def js_trim_trimmed)
  moreover have "normaliseExpiry (case map_option toISOString t of None \<Rightarrow> NoExpiry | Some s \<Rightarrow> ExpiryValue (JStr s)) later
      = (Inr (map_option toISOString t) :: 'e terror + string option)"
    using assms(5) by (cases t) (auto simp: normaliseExpiry_def expiry_time_def timestamp_roundtrip)
  moreover have "''restore'' \<in> set (alPermissions l) \<longrightarrow> cfRestoreAcknowledged form"
    using ack level(3) l by (simp add: isDangerous_def)
  ultimately show ?thesis using l level(1) by (intro exI [of _ ?b] exI [of _ l]) (simp add: name_def)
qed

definition demo_zone :: zone where
  "demo_zone = \<lparr>znMake = (\<lambda>y m d. days_from_civil y m d * form_day_ms + 86399000), znRead = (\<lambda>t. civil_from_days (t div form_day_ms))\<rparr>"

definition demo_form :: create_form where
  "demo_form = (chooseAccess INITIAL_CREATE_FORM ''full'')\<lparr>cfDisplayName := '' Planner '', cfExpiry := CustomDate,
     cfCustomDate := ''2027-03-01'', cfRestoreAcknowledged := True\<rparr>"

theorem form_accepted_by_server_witness:
  "\<exists>b l. createAgentSchema (create_body ''b1'' (projr (validateCreate demo_zone demo_form 1700000000000))) = Some b \<and>
    normaliseExpiry (case abExpiresAt b of None \<Rightarrow> NoExpiry | Some s \<Rightarrow> ExpiryValue (JStr s)) 1800000000000
      = (Inr (Some ''2027-03-01T23:59:59.000Z'') :: unit terror + string option) \<and>
    level_of (abAccess b) = Some l \<and> abDisplayName b = ''Planner'' \<and> ''restore'' \<in> set (alPermissions l)"
proof -
  have v: "validateCreate demo_zone demo_form 1700000000000 = Inr (projr (validateCreate demo_zone demo_form 1700000000000))"
    and a: "cfAccess demo_form \<in> alValue ` set ACCESS_LEVELS" and b: "isValidRoomId ''b1''" and c: "\<not> cfCreator demo_form"
    and t: "expiry_instant demo_zone (cfExpiry demo_form) (cfCustomDate demo_form) 1700000000000 = Inr (Some 1803945599000)"
    and y: "\<forall>x\<in>set_option (Some 1803945599000). four_digit_year x \<and> 1800000000000 < x"
    and iso: "toISOString 1803945599000 = ''2027-03-01T23:59:59.000Z''"
    and full: "''restore'' \<in> set (mode_permissions (cfAccess demo_form))"
    and name: "js_trim (cfDisplayName demo_form) = ''Planner''"
    by code_simp+
  from form_accepted_by_server [OF v a b t y, where 'e = unit] c iso full name show ?thesis by auto
qed

end
