(* ===== verification/LicensePreflight.thy ===== *)
theory LicensePreflight
  imports Timestamps "HOL-Library.Char_ord" "HOL-Library.List_Lexorder"
begin

text \<open>
  \<open>scripts/license-preflight.ts\<close>: what the label of a tldraw licence key says about its expiry, whether a build may go
  ahead, and whether a built client carries the configured key. Times are milliseconds. The wording of the reports is
  left out, their facts are kept. \<open>Date.UTC\<close> reads the years 0 to 99 as 1900 to 1999, so a date in them never round trips.
\<close>

section \<open>The key\<close>

definition is_base64_char :: "char \<Rightarrow> bool" where
  "is_base64_char c \<longleftrightarrow> is_alnum c \<or> c = CHR ''+'' \<or> c = CHR ''/''"

definition unpadded :: "string \<Rightarrow> string" where
  "unpadded s = rev (dropWhile (\<lambda>c. c = CHR ''='') (rev s))"

definition isBase64Token :: "string \<Rightarrow> bool" where
  "isBase64Token s \<longleftrightarrow> unpadded s \<noteq> [] \<and> list_all is_base64_char (unpadded s) \<and> length s - length (unpadded s) \<le> 2 \<and>
     length (unpadded s) mod 4 \<noteq> 1"

definition is_licence_char :: "char \<Rightarrow> bool" where
  "is_licence_char c \<longleftrightarrow> is_lower c \<or> is_digit c"

text \<open>\<open>[a-z0-9]*[a-z][a-z0-9]*(?:-[a-z0-9]+)*\<close>\<close>

definition is_licence_label :: "string \<Rightarrow> bool" where
  "is_licence_label s \<longleftrightarrow> (case split_on CHR ''-'' s of [] \<Rightarrow> False
     | first # rest \<Rightarrow> list_all is_licence_char first \<and> list_ex is_lower first \<and> list_all (\<lambda>p. p \<noteq> [] \<and> list_all is_licence_char p) rest)"

definition is_date_text :: "string \<Rightarrow> bool" where
  "is_date_text s \<longleftrightarrow> length s = 10 \<and> list_all is_digit (text_slice 0 4 s) \<and> text_slice 4 1 s = ''-'' \<and>
     list_all is_digit (text_slice 5 2 s) \<and> text_slice 7 1 s = ''-'' \<and> list_all is_digit (text_slice 8 2 s)"

text \<open>\<open>(?:LABEL-)?(\d{4})-(\d{2})-(\d{2})\<close> on the whole text: the date is its last ten characters.\<close>

definition labelled_date :: "string \<Rightarrow> string option" where
  "labelled_date s = (let date = drop (length s - 10) s; before = take (length s - 10) s in
     if is_date_text date \<and> (before = [] \<or> (last before = CHR ''-'' \<and> is_licence_label (butlast before))) then Some date else None)"

definition licence_mark :: string where "licence_mark = ''tldraw-''"

definition prefix_date :: "string \<Rightarrow> string option" where
  "prefix_date s = (if take 7 s = licence_mark then labelled_date (drop 7 s) else None)"

definition date_parts :: "string \<Rightarrow> int \<times> int \<times> int" where
  "date_parts s = (number_value (text_slice 0 4 s), number_value (text_slice 5 2 s), number_value (text_slice 8 2 s))"

definition isRealDate :: "int \<times> int \<times> int \<Rightarrow> bool" where
  "isRealDate p = (case p of (y, m, d) \<Rightarrow> 100 \<le> y \<and> 1 \<le> m \<and> m \<le> 12 \<and> 1 \<le> d \<and> d \<le> days_in_month y m)"

definition licence_day :: int where "licence_day = 86400000"

definition expiryInstant :: "int \<times> int \<times> int \<Rightarrow> int" where
  "expiryInstant p = (case p of (y, m, d) \<Rightarrow> days_from_civil y m d * licence_day + licence_day)"

text \<open>\<open>s.indexOf(c, from)\<close>, \<open>-1\<close> when absent, and \<open>s.lastIndexOf(c)\<close>\<close>

fun index_from :: "char \<Rightarrow> nat \<Rightarrow> string \<Rightarrow> nat option" where
  "index_from c n [] = None"
| "index_from c n (x # xs) = (case n of 0 \<Rightarrow> if x = c then Some 0 else map_option Suc (index_from c 0 xs)
     | Suc k \<Rightarrow> map_option Suc (index_from c k xs))"

definition last_index_of :: "char \<Rightarrow> string \<Rightarrow> nat option" where
  "last_index_of c s = map_option (\<lambda>i. length s - 1 - i) (index_from c 0 (rev s))"

section \<open>Corroboration\<close>

definition sextet :: "char \<Rightarrow> nat option" where
  "sextet c = (let n = (of_char c :: nat) in
     if is_upper c then Some (n - 65) else if is_lower c then Some (n - 71) else if is_digit c then Some (n + 4)
     else if c = CHR ''+'' \<or> c = CHR ''-'' then Some 62 else if c = CHR ''/'' \<or> c = CHR ''_'' then Some 63 else None)"

fun sextet_bytes :: "nat list \<Rightarrow> nat list" where
  "sextet_bytes (a # b # c # d # rest) =
     (a * 4 + b div 16) # (b mod 16 * 16 + c div 4) # (c mod 4 * 64 + d) # sextet_bytes rest"
| "sextet_bytes [a, b, c] = [a * 4 + b div 16, b mod 16 * 16 + c div 4]"
| "sextet_bytes [a, b] = [a * 4 + b div 16]"
| "sextet_bytes _ = []"

definition decode_base64 :: "string \<Rightarrow> string" where
  "decode_base64 s = map char_of (sextet_bytes (List.map_filter sextet (takeWhile (\<lambda>c. c \<noteq> CHR ''='') s)))"

fun contains_text :: "string \<Rightarrow> string \<Rightarrow> bool" where
  "contains_text needle [] = (needle = [])"
| "contains_text needle (c # cs) = (take (length needle) (c # cs) = needle \<or> contains_text needle cs)"

definition corroborate :: "string \<Rightarrow> string \<Rightarrow> bool" where
  "corroborate key date = (case split_on CHR ''/'' (hd (split_on CHR ''.'' key)) of
     a # encoded # rest \<Rightarrow> encoded \<noteq> [] \<and> contains_text date (decode_base64 encoded)
   | _ \<Rightarrow> False)"

section \<open>The verdict\<close>

datatype licence_status = Missing | Valid | ExpiringSoon | Expired | Unknown

record licence_verdict =
  lcStatus :: licence_status
  lcExpiresOn :: "string option"
  lcDaysRemaining :: "int option"
  lcDaysSince :: "int option"
  lcThreshold :: "int option"
  lcCorroborated :: bool

definition no_date :: "licence_status \<Rightarrow> licence_verdict" where
  "no_date s = \<lparr>lcStatus = s, lcExpiresOn = None, lcDaysRemaining = None, lcDaysSince = None, lcThreshold = None, lcCorroborated = False\<rparr>"

definition warning_thresholds :: "int list" where "warning_thresholds = [1, 7, 14, 30]"

definition ceil_div :: "int \<Rightarrow> int \<Rightarrow> int" where "ceil_div a b = - ((- a) div b)"

definition dated_verdict :: "string \<Rightarrow> bool \<Rightarrow> int \<Rightarrow> licence_verdict" where
  "dated_verdict date agrees now = (let lapses = expiryInstant (date_parts date) in
     if lapses \<le> now then \<lparr>lcStatus = Expired, lcExpiresOn = Some date, lcDaysRemaining = None,
       lcDaysSince = Some ((now - lapses) div licence_day), lcThreshold = None, lcCorroborated = agrees\<rparr>
     else (let days = ceil_div (lapses - now) licence_day; threshold = find (\<lambda>limit. days \<le> limit) warning_thresholds
       in \<lparr>lcStatus = (if threshold = None then Valid else ExpiringSoon), lcExpiresOn = Some date, lcDaysRemaining = Some days,
           lcDaysSince = None, lcThreshold = threshold, lcCorroborated = agrees\<rparr>))"

definition judge_prefix :: "string \<Rightarrow> string \<Rightarrow> int \<Rightarrow> licence_verdict" where
  "judge_prefix prefix key now = (case prefix_date prefix of None \<Rightarrow> no_date Unknown
     | Some date \<Rightarrow> if isRealDate (date_parts date) then dated_verdict date (corroborate key date) now else no_date Unknown)"

definition evaluateLicense :: "string option \<Rightarrow> int \<Rightarrow> licence_verdict" where
  "evaluateLicense key now = (let trimmed = js_trim (case key of Some k \<Rightarrow> k | None \<Rightarrow> []) in
     if trimmed = [] then no_date Missing
     else (case (index_from CHR ''/'' 0 trimmed, last_index_of CHR ''.'' trimmed) of
       (Some slash, Some dot) \<Rightarrow>
         if slash = 0 \<or> dot \<le> slash + 1 \<or> dot = length trimmed - 1 \<or> index_from CHR ''.'' slash trimmed \<noteq> Some dot then no_date Unknown
         else if \<not> isBase64Token (take (dot - slash - 1) (drop (slash + 1) trimmed)) \<or> \<not> isBase64Token (drop (dot + 1) trimmed)
         then no_date Unknown
         else judge_prefix (take slash trimmed) trimmed now
     | _ \<Rightarrow> no_date Unknown))"

section \<open>The preflight\<close>

record preflight_outcome =
  poVerdict :: licence_verdict
  poExitCode :: nat
  poBlocking :: bool

definition preflight :: "string option \<Rightarrow> int \<Rightarrow> bool \<Rightarrow> bool \<Rightarrow> preflight_outcome" where
  "preflight key now production allowExpired = (let v = evaluateLicense key now;
       blocking = (production \<and> (lcStatus v = Missing \<or> (lcStatus v = Expired \<and> \<not> allowExpired)))
     in \<lparr>poVerdict = v, poExitCode = (if blocking then 1 else 0), poBlocking = blocking\<rparr>)"

text \<open>The environment and the files of the repository, \<open>None\<close> for one that does not exist.\<close>

definition drop_quote :: "string \<Rightarrow> string" where
  "drop_quote s = (case s of c # cs \<Rightarrow> if c = CHR 0x22 \<or> c = CHR 0x27 then cs else s | [] \<Rightarrow> [])"

definition unquoted :: "string \<Rightarrow> string" where
  "unquoted s = rev (drop_quote (rev (drop_quote s)))"

definition key_name :: string where "key_name = ''VITE_TLDRAW_LICENSE_KEY''"

definition key_of_line :: "string \<Rightarrow> string option" where
  "key_of_line line = (if (case dropWhile is_space line of c # cs \<Rightarrow> c = CHR 0x23 | [] \<Rightarrow> False) then None
     else (case index_from CHR ''='' 0 line of None \<Rightarrow> None
       | Some i \<Rightarrow> if js_trim (take i line) \<noteq> key_name then None
           else (let v = unquoted (js_trim (drop (i + 1) line)) in if v = [] then None else Some v)))"

definition file_lines :: "string \<Rightarrow> string list" where
  "file_lines text = map (drop_suffix_char CHR 0x0D) (split_on CHR 0x0A text)"

definition env_files :: "string list" where
  "env_files = [''.env.production.local'', ''.env.production'', ''.env.local'', ''.env'']"

definition first_some :: "('a \<Rightarrow> 'b option) \<Rightarrow> 'a list \<Rightarrow> 'b option" where
  "first_some f xs = (case List.map_filter f xs of [] \<Rightarrow> None | y # ys \<Rightarrow> Some y)"

definition readConfiguredKey :: "(string \<Rightarrow> string option) \<Rightarrow> string option \<Rightarrow> string option" where
  "readConfiguredKey file env = (case env of
     Some e \<Rightarrow> if js_trim e \<noteq> [] then Some (js_trim e) else first_some (\<lambda>n. Option.bind (file n) (first_some key_of_line \<circ> file_lines)) env_files
   | None \<Rightarrow> first_some (\<lambda>n. Option.bind (file n) (first_some key_of_line \<circ> file_lines)) env_files)"

section \<open>The built client\<close>

definition is_run_char :: "char \<Rightarrow> bool" where
  "is_run_char c \<longleftrightarrow> is_licence_char c \<or> c = CHR ''-''"

text \<open>
  The matches of \<open>BUNDLE_DATE\<close>, left to right. A label holds no slash, so the run of label characters after the mark
  ends the match, at a slash, or there is none.
\<close>

definition bundle_match :: "string \<Rightarrow> (string \<times> string) option" where
  "bundle_match s = (if take 7 s \<noteq> licence_mark then None
     else (case dropWhile is_run_char (drop 7 s) of [] \<Rightarrow> None
       | c # rest \<Rightarrow> if c \<noteq> CHR ''/'' then None
           else map_option (\<lambda>date. (date, rest)) (labelled_date (takeWhile is_run_char (drop 7 s)))))"

lemma bundle_match_shorter: "bundle_match s = Some (date, rest) \<Longrightarrow> length rest < length s"
proof -
  assume m: "bundle_match s = Some (date, rest)"
  then obtain c where c: "dropWhile is_run_char (drop 7 s) = c # rest"
    by (auto simp: bundle_match_def split: if_splits list.splits)
  have "Suc (length rest) \<le> length (drop 7 s)" using length_dropWhile_le [of is_run_char "drop 7 s"] c by simp
  then show "length rest < length s" by simp
qed

function bundle_dates :: "string \<Rightarrow> string list" where
  "bundle_dates [] = []"
| "bundle_dates (c # cs) = (case bundle_match (c # cs) of None \<Rightarrow> bundle_dates cs | Some (date, rest) \<Rightarrow> date # bundle_dates rest)"
  by pat_completeness auto
termination
proof (relation "measure length")
  fix c :: char and cs x date rest
  assume "bundle_match (c # cs) = Some x" and "(date, rest) = x"
  then have "bundle_match (c # cs) = Some (date, rest)" by simp
  then show "(rest, c # cs) \<in> measure length" by (simp only: in_measure bundle_match_shorter)
qed simp_all

text \<open>A directory as it is found: an entry that cannot be read has no contents.\<close>

datatype tree = Leaf string "string option" | Folder string "tree list" | Unreadable

definition ends_with :: "string \<Rightarrow> string \<Rightarrow> bool" where
  "ends_with suffix s \<longleftrightarrow> length suffix \<le> length s \<and> drop (length s - length suffix) s = suffix"

fun javascriptFiles :: "tree \<Rightarrow> string option list" where
  "javascriptFiles (Leaf name contents) = (if ends_with ''.js'' name \<or> ends_with ''.mjs'' name then [contents] else [])"
| "javascriptFiles (Folder name entries) = concat (map javascriptFiles entries)"
| "javascriptFiles Unreadable = []"

record bundle_scan =
  bsDates :: "string list"
  bsFiles :: nat
  bsOccurrences :: nat

definition scanBuiltBundle :: "tree list \<Rightarrow> bundle_scan" where
  "scanBuiltBundle entries = (let files = concat (map javascriptFiles entries);
       dates = concat (map (\<lambda>f. case f of None \<Rightarrow> [] | Some text \<Rightarrow> bundle_dates text) files)
     in \<lparr>bsDates = sort (remdups dates), bsFiles = length files, bsOccurrences = length dates\<rparr>)"

datatype build_state = NoBuild | NoLabel | Conflict | Stale licence_status | Built licence_status

definition build_status :: "bundle_scan \<Rightarrow> string option \<Rightarrow> int \<Rightarrow> build_state" where
  "build_status scan configured now = (if bsFiles scan = 0 then NoBuild
     else (case bsDates scan of [] \<Rightarrow> NoLabel
       | [built] \<Rightarrow> (let v = evaluateLicense (Some (licence_mark @ built @ ''/eA.eQ'')) now in
           if (case configured of Some c \<Rightarrow> c \<noteq> [] \<and> c \<noteq> built | None \<Rightarrow> False) then Stale (lcStatus v) else Built (lcStatus v))
       | _ \<Rightarrow> Conflict))"

fun build_exit :: "build_state \<Rightarrow> nat" where
  "build_exit NoBuild = 1"
| "build_exit NoLabel = 0"
| "build_exit Conflict = 1"
| "build_exit (Stale s) = 1"
| "build_exit (Built s) = (if s = Expired then 1 else 0)"

definition verifyBuild :: "bundle_scan \<Rightarrow> string option \<Rightarrow> int \<Rightarrow> build_state \<times> nat" where
  "verifyBuild scan configured now = (build_status scan configured now, build_exit (build_status scan configured now))"

section \<open>The command\<close>

record licence_host =
  lhFile :: "string \<Rightarrow> string option"
  lhEnvKey :: "string option"
  lhNodeEnv :: string
  lhAllowExpired :: string
  lhClientDir :: "string option"
  lhTree :: "string \<Rightarrow> tree list"

definition verify_directory :: "licence_host \<Rightarrow> string list \<Rightarrow> string" where
  "verify_directory h after = (case after of d # ds \<Rightarrow> d | [] \<Rightarrow> (case lhClientDir h of Some d \<Rightarrow> d | None \<Rightarrow> ''dist/client''))"

definition licence_main :: "licence_host \<Rightarrow> string list \<Rightarrow> int \<Rightarrow> nat" where
  "licence_main h argv now = (let key = readConfiguredKey (lhFile h) (lhEnvKey h) in
     case dropWhile (\<lambda>a. a \<noteq> ''--verify-build'') argv of
       flag # after \<Rightarrow> snd (verifyBuild (scanBuiltBundle (lhTree h (verify_directory h after))) (lcExpiresOn (evaluateLicense key now)) now)
     | [] \<Rightarrow> poExitCode (preflight key now (''--production'' \<in> set argv \<or> lhNodeEnv h = ''production'') (lhAllowExpired h = ''1'')))"

end
