(* ===== verification/LicenseClaims.thy ===== *)
theory LicenseClaims
  imports LicensePreflight
begin

text \<open>
  What the licence preflight decides: the day a labelled key lapses and the days left, counted exactly; when a build is
  blocked; and what an accepted verification of a built client guarantees.
\<close>

section \<open>Reading a well-formed key\<close>

lemma index_from_absent: "c \<notin> set xs \<Longrightarrow> index_from c 0 xs = None"
  by (induction xs) auto

lemma index_from_at: "c \<notin> set xs \<Longrightarrow> index_from c 0 (xs @ c # ys) = Some (length xs)"
  by (induction xs) auto

lemma index_from_skip: "index_from c (length xs) (xs @ ys) = map_option (\<lambda>i. length xs + i) (index_from c 0 ys)"
  by (induction xs) (auto simp: option.map_comp comp_def option.map_ident)

lemma last_index_at: "c \<notin> set ys \<Longrightarrow> last_index_of c (xs @ c # ys) = Some (length xs)"
  using index_from_at [of c "rev ys" "rev xs"] by (simp add: last_index_of_def)

lemma js_trim_fixed: "s \<noteq> [] \<Longrightarrow> \<not> is_space (hd s) \<Longrightarrow> \<not> is_space (last s) \<Longrightarrow> js_trim s = s"
proof -
  assume s: "s \<noteq> []" "\<not> is_space (hd s)" "\<not> is_space (last s)"
  then have "dropWhile is_space s = s" by (cases s) auto
  moreover from s have "dropWhile is_space (rev s) = rev s" by (cases s rule: rev_cases) auto
  ultimately show ?thesis by (simp add: js_trim_def)
qed

lemma evaluate_parts:
  assumes key: "k = p @ CHR ''/'' # q @ CHR ''.'' # r" and trim: "js_trim k = k" and "p \<noteq> []" and "CHR ''/'' \<notin> set p"
    and "isBase64Token q" and "isBase64Token r" and dots: "CHR ''.'' \<notin> set q" "CHR ''.'' \<notin> set r"
  shows "evaluateLicense (Some k) now = judge_prefix p k now"
proof -
  have ne: "q \<noteq> []" "r \<noteq> []" using assms(5,6) by (auto simp: isBase64Token_def unpadded_def)
  have slash: "index_from CHR ''/'' 0 k = Some (length p)" unfolding key by (rule index_from_at [OF assms(4)])
  have dot: "last_index_of CHR ''.'' k = Some (length p + 1 + length q)"
    using last_index_at [OF dots(2), of "p @ CHR ''/'' # q"] by (simp add: key)
  have first: "index_from CHR ''.'' (length p) k = Some (length p + 1 + length q)"
    using index_from_at [OF dots(1), of r] by (simp add: key index_from_skip)
  have parts: "take (length p) k = p" "take (length p + 1 + length q - length p - 1) (drop (length p + 1) k) = q"
    "drop (length p + 1 + length q + 1) k = r" "length k = length p + 1 + length q + 1 + length r"
    by (simp_all add: key)
  have "k \<noteq> []" using key by simp
  with assms(3,5,6) ne show ?thesis
    by (simp add: evaluateLicense_def trim slash dot first parts [simplified] Let_def split: option.splits)
qed

lemma digit_plain: "is_digit c \<Longrightarrow> c \<noteq> CHR ''/'' \<and> c \<noteq> CHR ''.'' \<and> c \<noteq> CHR ''-''"
  by (auto simp: is_digit_def char_in_def)

lemma date_text_chars:
  assumes "is_date_text d"
  shows "set d \<subseteq> {c. is_digit c} \<union> {CHR ''-''}" and "length d = 10"
proof -
  from assms have len: "length d = 10" by (simp add: is_date_text_def)
  then show "length d = 10" .
  obtain c0 c1 c2 c3 c4 c5 c6 c7 c8 c9 where "d = [c0, c1, c2, c3, c4, c5, c6, c7, c8, c9]"
    using len by (auto simp: length_Suc_conv numeral_eq_Suc)
  with assms show "set d \<subseteq> {c. is_digit c} \<union> {CHR ''-''}"
    by (auto simp: is_date_text_def text_slice_def numeral_eq_Suc)
qed

lemma labelled_date_text: "labelled_date s = Some d \<Longrightarrow> is_date_text d"
  by (auto simp: labelled_date_def Let_def split: if_splits)

lemma bundle_dates_text: "d \<in> set (bundle_dates s) \<Longrightarrow> is_date_text d"
proof (induction s rule: bundle_dates.induct)
  case (2 c cs)
  show ?case
  proof (cases "bundle_match (c # cs)")
    case None
    with 2 show ?thesis by simp
  next
    case (Some x)
    obtain date rest where x: "x = (date, rest)" by (cases x)
    have "is_date_text date"
      using Some x by (auto simp: bundle_match_def labelled_date_text split: if_splits list.splits)
    with 2 Some x show ?thesis by auto
  qed
qed simp

lemma scanned_dates:
  assumes "d \<in> set (bsDates (scanBuiltBundle entries))"
  shows "is_date_text d"
proof -
  from assms obtain body where "d \<in> set (bundle_dates body)"
    by (auto simp: scanBuiltBundle_def Let_def split: option.splits)
  then show ?thesis by (rule bundle_dates_text)
qed

definition sample_key :: "string \<Rightarrow> string" where
  "sample_key date = licence_mark @ date @ ''/eA.eQ''"

lemma sample_verdict:
  assumes "is_date_text d"
  shows "evaluateLicense (Some (sample_key d)) now
    = (if isRealDate (date_parts d) then dated_verdict d (corroborate (sample_key d) d) now else no_date Unknown)"
proof -
  note chars = date_text_chars [OF assms]
  have "prefix_date (licence_mark @ d) = Some d"
    using assms chars(2) by (simp add: prefix_date_def licence_mark_def labelled_date_def Let_def)
  moreover have "sample_key d = (licence_mark @ d) @ CHR ''/'' # ''eA'' @ CHR ''.'' # ''eQ''" by (simp add: sample_key_def)
  moreover have "js_trim (sample_key d) = sample_key d"
    by (rule js_trim_fixed) (simp_all add: sample_key_def licence_mark_def is_space_def)
  moreover have "CHR ''/'' \<notin> set (licence_mark @ d)" using chars(1) by (auto simp: licence_mark_def dest: digit_plain)
  moreover have "isBase64Token ''eA''" "isBase64Token ''eQ''" by code_simp+
  ultimately show ?thesis
    using evaluate_parts [of "sample_key d" "licence_mark @ d" "''eA''" "''eQ''" now] by (simp add: licence_mark_def judge_prefix_def)
qed

section \<open>Counting the days\<close>

lemma ceil_div_bounds: "0 < b \<Longrightarrow> (ceil_div a b - 1) * b < a \<and> a \<le> ceil_div a b * b"
proof -
  assume b: "0 < b"
  have "b * ((- a) div b) \<le> - a" "- a < b * ((- a) div b) + b"
    using mult_div_mod_eq [of b "- a"] pos_mod_sign [OF b, of "- a"] pos_mod_bound [OF b, of "- a"] by linarith+
  then show ?thesis by (simp add: ceil_div_def algebra_simps)
qed

lemma evaluate_dated:
  assumes "lcExpiresOn (evaluateLicense key now) = Some date"
  shows "isRealDate (date_parts date) \<and> is_date_text date \<and> (\<exists>agrees. evaluateLicense key now = dated_verdict date agrees now)"
proof -
  define Q where "Q v \<longleftrightarrow> (\<exists>s. v = no_date s) \<or> (\<exists>p k. v = judge_prefix p k now)" for v
  have "Q (no_date s)" "Q (judge_prefix p k now)" for s p k by (auto simp: Q_def)
  then have "Q (evaluateLicense key now)" by (simp add: evaluateLicense_def Let_def split: option.split)
  then have "(\<exists>s. evaluateLicense key now = no_date s) \<or> (\<exists>p k. evaluateLicense key now = judge_prefix p k now)"
    by (simp only: Q_def)
  with assms obtain p k where j: "evaluateLicense key now = judge_prefix p k now" by (auto simp: no_date_def)
  then obtain d where d: "prefix_date p = Some d" "isRealDate (date_parts d)" "evaluateLicense key now = dated_verdict d (corroborate k d) now"
    using assms by (auto simp: judge_prefix_def no_date_def split: option.splits if_splits)
  moreover have "d = date" using assms d(3) by (simp add: dated_verdict_def Let_def split: if_splits)
  moreover have "is_date_text d" using d(1) by (auto simp: prefix_date_def labelled_date_text split: if_splits)
  ultimately show ?thesis by blast
qed

section \<open>Properties\<close>

text \<open>
  A key whose label reads is judged by the calendar, in UTC: it lapses at the start of the day after the labelled
  one, and a key with an unreal date is never judged. The days left or past are exact, the day of expiry counts as one day left, the
  warning is the tightest of 1, 7, 14 and 30 days; and a production build is refused exactly when the key is missing,
  or has lapsed without the override.
\<close>

theorem licence_judged_exactly:
  assumes "lcExpiresOn (evaluateLicense key now) = Some date"
  shows "\<exists>y m d lapses. date_parts date = (y, m, d) \<and> 1 \<le> m \<and> m \<le> 12 \<and> 1 \<le> d \<and> d \<le> days_in_month y m \<and>
    lapses = (days_from_civil y m d + 1) * 86400000 \<and>
    (lcStatus (evaluateLicense key now) = Expired \<longleftrightarrow> lapses \<le> now) \<and>
    (\<forall>n\<in>set_option (lcDaysSince (evaluateLicense key now)). n * 86400000 \<le> now - lapses \<and> now - lapses < (n + 1) * 86400000) \<and>
    (\<forall>n\<in>set_option (lcDaysRemaining (evaluateLicense key now)). 1 \<le> n \<and> (n - 1) * 86400000 < lapses - now \<and> lapses - now \<le> n * 86400000 \<and>
      lcThreshold (evaluateLicense key now) = (if n \<le> 1 then Some 1 else if n \<le> 7 then Some 7 else if n \<le> 14 then Some 14
        else if n \<le> 30 then Some 30 else None)) \<and>
    (lcStatus (evaluateLicense key now) = Expired \<longleftrightarrow> lcDaysRemaining (evaluateLicense key now) = None) \<and>
    (\<forall>production allow. poBlocking (preflight key now production allow) \<longleftrightarrow> production \<and> lapses \<le> now \<and> \<not> allow)"
proof -
  obtain y m d where p: "date_parts date = (y, m, d)" by (cases "date_parts date")
  from evaluate_dated [OF assms] obtain agrees where real: "isRealDate (date_parts date)"
    and v: "evaluateLicense key now = dated_verdict date agrees now" by blast
  define lapses where "lapses = expiryInstant (date_parts date)"
  have at: "lapses = (days_from_civil y m d + 1) * 86400000" by (simp add: lapses_def expiryInstant_def p licence_day_def algebra_simps)
  have cal: "1 \<le> m" "m \<le> 12" "1 \<le> d" "d \<le> days_in_month y m" using real by (simp_all add: p isRealDate_def)
  show ?thesis
  proof (cases "lapses \<le> now")
    case True
    then have e: "evaluateLicense key now = \<lparr>lcStatus = Expired, lcExpiresOn = Some date, lcDaysRemaining = None,
       lcDaysSince = Some ((now - lapses) div licence_day), lcThreshold = None, lcCorroborated = agrees\<rparr>"
      by (simp add: v dated_verdict_def lapses_def)
    have "(now - lapses) div 86400000 * 86400000 \<le> now - lapses" "now - lapses < ((now - lapses) div 86400000 + 1) * 86400000"
      using div_bounds [of 86400000 "now - lapses"] by (simp_all add: algebra_simps)
    with True at p cal show ?thesis by (auto simp: e licence_day_def preflight_def Let_def)
  next
    case False
    define n where "n = ceil_div (lapses - now) 86400000"
    from False have e: "evaluateLicense key now = \<lparr>lcStatus = (if find (\<lambda>limit. n \<le> limit) warning_thresholds = None then Valid else ExpiringSoon),
       lcExpiresOn = Some date, lcDaysRemaining = Some n, lcDaysSince = None, lcThreshold = find (\<lambda>limit. n \<le> limit) warning_thresholds,
       lcCorroborated = agrees\<rparr>"
      by (simp add: v dated_verdict_def lapses_def n_def licence_day_def Let_def)
    have n: "(n - 1) * 86400000 < lapses - now" "lapses - now \<le> n * 86400000"
      using ceil_div_bounds [of 86400000 "lapses - now"] by (simp_all add: n_def)
    with False have "1 \<le> n" by linarith
    with n False at p cal show ?thesis by (auto simp: e warning_thresholds_def preflight_def Let_def)
  qed
qed

text \<open>
  A verified build with a readable licence date carries a single date; it is the configured one, when that can be
  read, and it has not passed.
\<close>

theorem verified_build_current:
  assumes "snd (verifyBuild (scanBuiltBundle entries) configured now) = 0" and "bsDates (scanBuiltBundle entries) \<noteq> []"
  shows "\<exists>date. bsDates (scanBuiltBundle entries) = [date] \<and> (\<forall>c\<in>set_option configured. c = [] \<or> c = date) \<and>
    (isRealDate (date_parts date) \<longrightarrow> now < expiryInstant (date_parts date))"
proof -
  let ?s = "scanBuiltBundle entries"
  from assms obtain date s where b: "bsDates ?s = [date]" "build_status ?s configured now = Built s" "s \<noteq> Expired"
    by (cases "build_status ?s configured now")
      (auto simp: verifyBuild_def build_status_def Let_def split: list.splits if_splits option.splits)
  then have s: "s = lcStatus (evaluateLicense (Some (sample_key date)) now)"
    and c: "\<forall>c\<in>set_option configured. c = [] \<or> c = date"
    by (auto simp: build_status_def sample_key_def Let_def split: if_splits option.splits)
  have "is_date_text date" by (rule scanned_dates [of _ entries]) (simp add: b(1))
  from sample_verdict [OF this] s b(3) have "now < expiryInstant (date_parts date)" if "isRealDate (date_parts date)"
    using that by (auto simp: dated_verdict_def Let_def split: if_splits)
  with b(1) c show ?thesis by blast
qed

end
