(* ===== verification/Spec2Isabelle.thy ===== *)
theory Spec2Isabelle
  imports HistoryClaims CompactionClaims AuthClaims TokenClaims AccessClaims HostPolicy AgentClaims LayoutClaims LayoutService AgentBoardClaims AppClaims CanvasClaims AgentForm LicenseClaims
begin

text \<open>
  The verification library of the collaborative canvas server: a self-hosted whiteboard whose boards are edited in
  the browser and by machine clients, with accounts, board history, restore, compaction and machine credentials.

  \<^bold>\<open>The program and its models.\<close> A request enters \<open>server/app.ts\<close>, passes its hooks (host policy, Access assertion,
  origin, rate limits, sessions or bearers) and reaches a route. The routes call the account service, the token store,
  the room with its history, and the canvas, semantic and layout operations on the board's records. The theories follow
  this order from the leaves up; state is a record of explicit fields, a function that can throw returns a sum with
  the error on the left (\<open>bindR\<close>, \<open>guardR\<close>), JSON is the datatype \<open>json\<close>, and machine words are words of 32 bits.

  \<^item> \<open>Prelude\<close>, \<open>Timestamps\<close>: results, JSON, association maps (the locale \<open>keyed_map\<close>, interpreted on association
    lists), texts, calendar dates and ISO times.
  \<^item> Board history (\<open>shared/history.ts\<close>, \<open>server/history.ts\<close>, \<open>server/history-storage.ts\<close>, parts of \<open>server/rooms.ts\<close>):
    \<open>HistoryCore\<close> and \<open>HistoryReplay\<close> (changes, merging, diff and replay), \<open>HistoryStore\<close> (the event and checkpoint
    tables), \<open>HistoryTimeline\<close> and \<open>HistoryReconstruct\<close> (their invariant and reconstruction), \<open>HistoryPages\<close> (cursor
    paging), \<open>HistoryRecorder\<close> (fragments, coalescing, flush), \<open>HistoryRoom\<close> (transactions, restore, checkpoints on an
    open room), \<open>HistoryMachine\<close> (the step relation of a room), \<open>HistoryClaims\<close> (C1 to C7).
  \<^item> Compaction (\<open>scripts/compact-history.ts\<close>): \<open>Compaction\<close> the plan, the pass and the command line,
    \<open>CompactionProofs\<close> why survivors keep their content, \<open>CompactionClaims\<close> C8 to C12.
  \<^item> Accounts (\<open>server/auth-db.ts\<close>, \<open>server/auth.ts\<close>): \<open>AuthDb\<close> the tables, \<open>AuthService\<close> and \<open>AuthBoards\<close> the
    operations, \<open>AuthInvariant\<close> and \<open>AuthMachine\<close> the invariant and the step relation \<open>auth_step\<close>, \<open>AuthDemo\<close> a
    concrete service, \<open>AuthClaims\<close> C13 to C19.
  \<^item> Machine credentials (\<open>server/token-store.mjs\<close>, \<open>server/tokens.ts\<close>): \<open>TokenStore\<close>, \<open>TokenGrant\<close> and \<open>Tokens\<close> with
    every file operation that can fail as a switch of \<open>faults\<close>, \<open>TokenProofs\<close> and \<open>TokenSpec\<close> what each mutation does to
    the entries a reader accepts, \<open>TokenMachine\<close> the step relation, \<open>TokenClaims\<close> C20 to C24.
  \<^item> Requests (\<open>server/security.ts\<close>, \<open>access-jwt.ts\<close>, \<open>host-policy.ts\<close>): \<open>Security\<close> with the limiter (C25),
    \<open>AccessJwt\<close>, \<open>AccessMachine\<close> and \<open>AccessClaims\<close> (C26, C27), \<open>HostPolicy\<close>.
  \<^item> Agents (\<open>server/agent-access.ts\<close>, \<open>agent-boards.ts\<close>): \<open>AgentAccess\<close>, \<open>AgentClaims\<close> (C28), \<open>AgentBoards\<close>,
    \<open>AgentBoardClaims\<close> (C29), and the form of the browser in \<open>AgentForm\<close> (\<open>client/agents\<close>), whose requests the server
    is shown to take.
  \<^item> Layout (\<open>shared/layout.ts\<close>, \<open>layout-geometry.ts\<close>, \<open>layout-engine.ts\<close>, \<open>server/layout-service.ts\<close>,
    \<open>layout-measurements.ts\<close>): \<open>LayoutText\<close>, \<open>LayoutGeometry\<close>, \<open>LayoutTree\<close>, \<open>LayoutWf\<close>, \<open>LayoutContain\<close>,
    \<open>LayoutEngine\<close>, \<open>LayoutSlide\<close>, \<open>LayoutPlacement\<close>, \<open>LayoutVerify\<close>, \<open>LayoutService\<close>, \<open>LayoutClaims\<close> (C30 to C33).
  \<^item> The application (\<open>server/app.ts\<close>): \<open>AppAccess\<close> (hooks and admission), \<open>AppRoutes\<close> and \<open>AppBoards\<close> (the handlers),
    \<open>AppClaims\<close> (C34).
  \<^item> Board records (\<open>shared/entities.ts\<close>, \<open>evidence-tables.ts\<close>, \<open>ai.ts\<close>, \<open>server/canvas-api.ts\<close>): \<open>EvidenceTables\<close>,
    \<open>Entities\<close>, \<open>EntityLemmas\<close>, \<open>SemanticActions\<close>, \<open>SemanticClaims\<close> (C35 to C38), \<open>CanvasVocab\<close>, \<open>CanvasActions\<close>,
    \<open>CanvasClaims\<close> (C39, C40).
  \<^item> The licence preflight (\<open>scripts/license-preflight.ts\<close>): \<open>LicensePreflight\<close>, \<open>LicenseClaims\<close>.
\<close>

text \<open>
  \<^bold>\<open>What the lemmas show.\<close> For each stateful part there is an invariant that its step relation keeps (\<open>room_ok\<close>,
  \<open>auth_ok\<close>, \<open>file_ok\<close>, \<open>jwt_ok\<close>, \<open>layout_wf\<close>, \<open>semantic_ok\<close>) and a relation of earlier to later states
  (\<open>room_evolves\<close>, \<open>auth_evolves\<close>); the properties are read off these. Optimised or guarded code is set against a plain
  specification: coalesced changes against their net effect, the pruning limiter against one that keeps everything,
  depth-limited searches against the transitive closure, the capped slide against the first clear position, the grid
  against the index of each member.

  \<^bold>\<open>Bounds and fuel.\<close> The page walk descends 31 levels and the search for ancestors climbs 30, as in the code; C30 proves
  that this is exact on the listed shapes. The slide has its 500 iterations; C31 proves them enough for 500 blockers
  and exhibits 501. All other recursion is structural or carries a termination proof.

  \<^bold>\<open>Parameters.\<close> Code that is not in the repository is an argument: random draws, hashes and scrypt, RSA verification
  and JSON parsing of Access assertions, the router, tldraw's load and migration of a snapshot, its record validators
  and its arrow geometry, the byte size of a serialised value, the decimal text of a number, the local time zone. What is
  assumed of one is a named hypothesis of the theorem, and the witness of the theorem instantiates it.

  \<^bold>\<open>Limits of the models.\<close>

  \<^item> One request is one step. Where the code awaits between a check and a write, the model takes them together: the
    ownership check and the token file in a creation of \<open>agent-access.ts\<close>, the creation, grant and rollback of
    \<open>agent-boards.ts\<close> (an owner disabled between the two makes the rollback fail, which the code reports as
    \<open>rollback-failed\<close>), and the key refresh and lookup of \<open>access-jwt.ts\<close>. Splits that matter are modelled: a login
    (its check and its write), and overlapping assertion checks.
  \<^item> A canvas transaction of the room machine has a history context, as every route and session sets one; a transaction
    without a context is not recorded by the code and is no step.
  \<^item> \<open>insertAccountEvent\<close> leaves out the error of a repeated event id, which is a fresh random UUID in the code. The rows
    a route of \<open>app.ts\<close> writes itself are the step \<open>Audit\<close> of \<open>auth_step\<close>.
  \<^item> New bearer tokens are assumed to hash to values not in the file.
  \<^item> Layout is over real numbers in place of doubles, so exact distances and exact enclosure are those before rounding.
  \<^item> \<open>post_measurements\<close> admits the caller before the body is parsed, which over-approximates who is admitted.
  \<^item> Not modelled: the React client but for the agent form, live sockets and tldraw's sync, the Cloudflare worker, the
    operator tools over the network, start-up, and the wording of messages and reports. The manifest lists each with its
    reason.

  \<^bold>\<open>Where the code and its texts disagree\<close> the theorem states the code, and the manifest records a finding: among them
  the relocated identity of \<open>create_entity\<close> (C37), the children that \<open>delete_shape\<close> leaves behind (C40), the capped slide
  (C31), the summaries cut to 50 without a sign (C38), the grant of a deleted board after two faults (C29), and the
  comments on \<open>ancestorsOf\<close> and \<open>shapes\<close> (C30).
\<close>

end
